(* ===== verification/Prelude.thy ===== *)
theory Prelude
  imports Complex_Main
begin

text \<open>
  Shared vocabulary of the development.

  \<^item> \<^bold>\<open>Results.\<close> Code that throws is a function into a sum: \<open>Inl e\<close> is the thrown value,
    \<open>Inr v\<close> the returned one; \<open>rbind\<close> is the \<open>await\<close>/\<open>try\<close>-less sequencing of such code.
  \<^item> \<^bold>\<open>Strings.\<close> A JavaScript string is a \<^typ>\<open>string\<close>, read as a sequence of UTF-16 code units
    below 256. The only other characters in the literals of the modelled code are the em dash,
    the single character \<open>em_dash\<close>, and the typographic apostrophe, the character 0x92.
  \<^item> \<^bold>\<open>Numbers.\<close> Counters, token counts and millisecond clocks are \<^typ>\<open>int\<close>; quantities the code
    divides are \<^typ>\<open>rat\<close>, so floating-point rounding is outside the model.
  \<^item> \<^bold>\<open>JavaScript maps.\<close> A \<open>Map\<close> is an insertion-ordered association list: \<open>set\<close> on a present key
    keeps its position, on an absent key it appends. The locale \<open>kv_store\<close> states what the
    components rely on; \<open>jsm\<close> is its interpretation on these lists.
  \<^item> \<^bold>\<open>Objects driven by calls.\<close> The locale \<open>call_driven\<close> is the contract of a stateful object whose
    invariant every call keeps; each such component interprets it.
\<close>

named_theorems js_simps \<open>evaluation rules for the modelled parts of the JavaScript library\<close>

section \<open>Results\<close>

type_synonym ('e, 'a) result = "'e + 'a"

fun rbind :: "('e, 'a) result \<Rightarrow> ('a \<Rightarrow> ('e, 'b) result) \<Rightarrow> ('e, 'b) result" where
  "rbind (Inl e) f = Inl e"
| "rbind (Inr v) f = f v"

lemma rbind_eq_Inr [js_simps]: "rbind r f = Inr w \<longleftrightarrow> (\<exists>v. r = Inr v \<and> f v = Inr w)"
  by (cases r) auto

lemma rbind_eq_Inl [js_simps]: "rbind r f = Inl e \<longleftrightarrow> r = Inl e \<or> (\<exists>v. r = Inr v \<and> f v = Inl e)"
  by (cases r) auto

fun is_Inr :: "('e, 'a) result \<Rightarrow> bool" where
  "is_Inr (Inl e) = False"
| "is_Inr (Inr v) = True"

section \<open>Optional values\<close>

text \<open>\<open>a ?? b\<close>: the value when present, else the default.\<close>

fun nullish :: "'a option \<Rightarrow> 'a \<Rightarrow> 'a" where
  "nullish None d = d"
| "nullish (Some v) d = v"

lemma nullish_cases: "nullish x d = (case x of None \<Rightarrow> d | Some v \<Rightarrow> v)"
  by (cases x) auto

section \<open>Lists\<close>

text \<open>\<open>xs.filter((v, i, a) => a.indexOf(v) === i)\<close>: the first occurrence of each value, in order.\<close>

fun dedupe_acc :: "'a list \<Rightarrow> 'a list \<Rightarrow> 'a list" where
  "dedupe_acc seen [] = []"
| "dedupe_acc seen (x # xs) =
     (if x \<in> set seen then dedupe_acc seen xs else x # dedupe_acc (x # seen) xs)"

definition dedupe :: "'a list \<Rightarrow> 'a list" where
  "dedupe xs = dedupe_acc [] xs"

lemma set_dedupe_acc: "set (dedupe_acc seen xs) = set xs - set seen"
  by (induction xs arbitrary: seen) auto

lemma distinct_dedupe_acc: "distinct (dedupe_acc seen xs)"
  by (induction xs arbitrary: seen) (auto simp: set_dedupe_acc)

lemma set_dedupe [simp]: "set (dedupe xs) = set xs"
  by (simp add: dedupe_def set_dedupe_acc)

lemma distinct_dedupe [simp]: "distinct (dedupe xs)"
  by (simp add: dedupe_def distinct_dedupe_acc)

lemma dedupe_acc_distinct:
  "distinct xs \<Longrightarrow> set xs \<inter> set seen = {} \<Longrightarrow> dedupe_acc seen xs = xs"
  by (induction xs arbitrary: seen) auto

lemma dedupe_idem: "dedupe (dedupe xs) = dedupe xs"
  unfolding dedupe_def
  by (rule dedupe_acc_distinct) (simp_all add: distinct_dedupe_acc)

lemma length_dedupe: "length (dedupe xs) \<le> length xs"
  by (metis card_length distinct_card distinct_dedupe set_dedupe)

text \<open>The first element that satisfies a predicate: \<open>findFirst\<close> of the database layer and
  \<open>Array.prototype.find\<close>.\<close>

fun find_first :: "('a \<Rightarrow> bool) \<Rightarrow> 'a list \<Rightarrow> 'a option" where
  "find_first P [] = None"
| "find_first P (x # xs) = (if P x then Some x else find_first P xs)"

lemma find_first_Some: "find_first P xs = Some x \<Longrightarrow> x \<in> set xs \<and> P x"
  by (induction xs) (auto split: if_splits)

lemma find_first_None: "find_first P xs = None \<longleftrightarrow> (\<forall>x\<in>set xs. \<not> P x)"
  by (induction xs) auto

lemma find_first_map: "(\<And>x. P (g x) = P x) \<Longrightarrow> find_first P (map g xs) = map_option g (find_first P xs)"
  by (induction xs) auto

lemma find_first_append: "find_first P (xs @ ys) = (case find_first P xs of None \<Rightarrow> find_first P ys | Some x \<Rightarrow> Some x)"
  by (induction xs) auto

fun drop_nones :: "'a option list \<Rightarrow> 'a list" where
  "drop_nones [] = []"
| "drop_nones (None # xs) = drop_nones xs"
| "drop_nones (Some x # xs) = x # drop_nones xs"

lemma set_drop_nones [simp]: "set (drop_nones xs) = {x. Some x \<in> set xs}"
  by (induction xs rule: drop_nones.induct) auto

text \<open>A list split by a predicate, the matching elements first.\<close>

lemma takeWhile_partition: "takeWhile P (filter P xs @ filter (\<lambda>x. \<not> P x) xs) = filter P xs"
proof -
  have "takeWhile P ys = []" if "\<forall>y\<in>set ys. \<not> P y" for ys
    using that by (cases ys) auto
  then have "takeWhile P (filter (\<lambda>x. \<not> P x) xs) = []"
    by simp
  then show ?thesis
    by (simp add: takeWhile_append)
qed

lemma takeWhile_stop: "\<not> P x \<Longrightarrow> set (takeWhile P (xs @ x # ys)) \<subseteq> set xs"
  by (auto simp: takeWhile_append dest: set_takeWhileD)

section \<open>Strings\<close>

definition em_dash :: string where
  "em_dash = [CHR 0x97]"

fun join :: "string \<Rightarrow> string list \<Rightarrow> string" where
  "join sep [] = []"
| "join sep [x] = x"
| "join sep (x # y # zs) = x @ sep @ join sep (y # zs)"

fun starts_with :: "string \<Rightarrow> string \<Rightarrow> bool" where
  "starts_with [] s = True"
| "starts_with (p # ps) [] = False"
| "starts_with (p # ps) (c # cs) = (p = c \<and> starts_with ps cs)"

lemma starts_with_iff: "starts_with p s \<longleftrightarrow> (\<exists>r. s = p @ r)"
  by (induction p s rule: starts_with.induct) auto

lemma starts_with_append [simp]: "starts_with p (p @ r)"
  by (simp add: starts_with_iff)

definition ends_with :: "string \<Rightarrow> string \<Rightarrow> bool" where
  "ends_with p s = starts_with (rev p) (rev s)"

fun includes_str :: "string \<Rightarrow> string \<Rightarrow> bool" where
  "includes_str p [] = (p = [])"
| "includes_str p (c # cs) = (starts_with p (c # cs) \<or> includes_str p cs)"

definition char_code :: "char \<Rightarrow> nat" where
  "char_code c = of_char c"

text \<open>Lower case of the letters of the model's alphabet: A-Z and the accented capitals.\<close>

definition lower_char :: "char \<Rightarrow> char" where
  "lower_char c =
     (let n = char_code c
      in if (65 \<le> n \<and> n \<le> 90) \<or> (192 \<le> n \<and> n \<le> 222 \<and> n \<noteq> 215) then char_of (n + 32) else c)"

definition to_lower :: "string \<Rightarrow> string" where
  "to_lower s = map lower_char s"

definition is_digit :: "char \<Rightarrow> bool" where
  "is_digit c = (48 \<le> char_code c \<and> char_code c \<le> 57)"

definition digit_val :: "char \<Rightarrow> nat" where
  "digit_val c = char_code c - 48"

text \<open>The code units below 256 that \<open>trim\<close> and \<open>\s\<close> treat as white space.\<close>

definition is_space :: "char \<Rightarrow> bool" where
  "is_space c = (char_code c \<in> {9, 10, 11, 12, 13, 32, 160})"

definition trim :: "string \<Rightarrow> string" where
  "trim s = rev (dropWhile is_space (rev (dropWhile is_space s)))"

lemma trim_Nil_iff: "trim s = [] \<longleftrightarrow> (\<forall>c\<in>set s. is_space c)"
proof -
  have "trim s = [] \<longleftrightarrow> (\<forall>c\<in>set (dropWhile is_space s). is_space c)"
    by (simp add: trim_def)
  also have "\<dots> \<longleftrightarrow> dropWhile is_space s = []"
    by (metis dropWhile_eq_Nil_conv hd_dropWhile hd_in_set empty_iff list.set(1))
  finally show ?thesis
    by simp
qed

text \<open>Decimal rendering of integers, as template literals do.\<close>

fun show_nat :: "nat \<Rightarrow> string" where
  "show_nat n = (if n < 10 then [char_of (48 + n)] else show_nat (n div 10) @ [char_of (48 + n mod 10)])"

declare show_nat.simps [simp del]

definition show_int :: "int \<Rightarrow> string" where
  "show_int i = (if i < 0 then ''-'' @ show_nat (nat (- i)) else show_nat (nat i))"

section \<open>JavaScript maps\<close>

type_synonym ('k, 'v) jsmap = "('k \<times> 'v) list"

definition map_get :: "('k, 'v) jsmap \<Rightarrow> 'k \<Rightarrow> 'v option" where
  "map_get m k = map_of m k"

fun map_set :: "'k \<Rightarrow> 'v \<Rightarrow> ('k, 'v) jsmap \<Rightarrow> ('k, 'v) jsmap" where
  "map_set k v [] = [(k, v)]"
| "map_set k v ((k', v') # m) = (if k = k' then (k, v) # m else (k', v') # map_set k v m)"

definition map_delete :: "'k \<Rightarrow> ('k, 'v) jsmap \<Rightarrow> ('k, 'v) jsmap" where
  "map_delete k m = filter (\<lambda>p. fst p \<noteq> k) m"

definition map_keys :: "('k, 'v) jsmap \<Rightarrow> 'k list" where
  "map_keys m = map fst m"

definition map_vals :: "('k, 'v) jsmap \<Rightarrow> 'v list" where
  "map_vals m = map snd m"

definition map_ok :: "('k, 'v) jsmap \<Rightarrow> bool" where
  "map_ok m = distinct (map fst m)"

lemma map_get_set [simp]: "map_get (map_set k v m) k' = (if k' = k then Some v else map_get m k')"
  by (induction m) (auto simp: map_get_def)

lemma map_get_delete [simp]: "map_get (map_delete k m) k' = (if k' = k then None else map_get m k')"
  by (induction m) (auto simp: map_get_def map_delete_def)

lemma map_get_Nil [simp]: "map_get [] k = None"
  by (simp add: map_get_def)

lemma map_get_in: "map_get m k = Some v \<Longrightarrow> (k, v) \<in> set m"
  by (simp add: map_get_def map_of_SomeD)

lemma map_get_vals: "map_get m k = Some v \<Longrightarrow> v \<in> set (map_vals m)"
  using map_get_in by (force simp: map_vals_def)

lemma set_map_set: "fst ` set (map_set k v m) = insert k (fst ` set m)"
proof (induction m)
  case (Cons p m)
  then show ?case
    by (cases p) (simp add: insert_commute)
qed simp

lemma map_set_subset: "set (map_set k v m) \<subseteq> insert (k, v) (set m)"
proof (induction m)
  case (Cons p m)
  then show ?case
    by (cases p) auto
qed simp

lemma map_vals_set_subset: "set (map_vals (map_set k v m)) \<subseteq> insert v (set (map_vals m))"
  using map_set_subset [of k v m] by (auto simp: map_vals_def)

lemma map_ok_Nil [simp]: "map_ok []"
  by (simp add: map_ok_def)

lemma map_ok_set [simp]: "map_ok m \<Longrightarrow> map_ok (map_set k v m)"
  by (induction m) (auto simp: map_ok_def set_map_set)

lemma map_ok_filter: "map_ok m \<Longrightarrow> map_ok (filter P m)"
  unfolding map_ok_def by (rule distinct_map_filter)

lemma map_ok_delete [simp]: "map_ok m \<Longrightarrow> map_ok (map_delete k m)"
  by (simp add: map_delete_def map_ok_filter)

lemma map_set_fresh: "map_get m k = None \<Longrightarrow> map_set k v m = m @ [(k, v)]"
  by (induction m) (auto simp: map_get_def)

lemma length_map_set:
  "length (map_set k v m) = (if map_get m k = None then Suc (length m) else length m)"
  by (induction m) (auto simp: map_get_def)

lemma length_map_delete_present: "k \<in> fst ` set m \<Longrightarrow> length (map_delete k m) < length m"
  unfolding map_delete_def
  by (metis (mono_tags, lifting) image_iff length_filter_less)

text \<open>
  What a client of a keyed store relies on. The invariant \<open>ok\<close> is the store's own
  well-formedness.
\<close>

locale kv_store =
  fixes new :: 'm
    and get :: "'m \<Rightarrow> 'k \<Rightarrow> 'v option"
    and put :: "'k \<Rightarrow> 'v \<Rightarrow> 'm \<Rightarrow> 'm"
    and del :: "'k \<Rightarrow> 'm \<Rightarrow> 'm"
    and ok :: "'m \<Rightarrow> bool"
  assumes get_new: "get new k = None"
    and get_put: "get (put k v m) k' = (if k' = k then Some v else get m k')"
    and get_del: "get (del k m) k' = (if k' = k then None else get m k')"
    and ok_new: "ok new"
    and ok_put: "ok m \<Longrightarrow> ok (put k v m)"
    and ok_del: "ok m \<Longrightarrow> ok (del k m)"
begin

text \<open>A predicate on the stored values survives a write of a value that satisfies it and any
  deletion: the step every per-key invariant below uses.\<close>

lemma all_put:
  assumes "\<And>k v. get m k = Some v \<Longrightarrow> P k v" "P k v"
  shows "get (put k v m) k' = Some v' \<Longrightarrow> P k' v'"
  using assms by (auto simp: get_put split: if_splits)

lemma all_del:
  assumes "\<And>k v. get m k = Some v \<Longrightarrow> P k v"
  shows "get (del k m) k' = Some v' \<Longrightarrow> P k' v'"
  using assms by (auto simp: get_del split: if_splits)

text \<open>Writing under one key is invisible under every other key.\<close>

lemma put_other: "k' \<noteq> k \<Longrightarrow> get (put k v m) k' = get m k'"
  by (simp add: get_put)

lemma put_overwrites: "get (put k v (put k w m)) = get (put k v m)"
  by (rule ext) (simp add: get_put)

lemma put_commutes: "k \<noteq> l \<Longrightarrow> get (put k v (put l w m)) = get (put l w (put k v m))"
  by (rule ext) (auto simp: get_put)

lemma fold_put_other: "k \<notin> set ks \<Longrightarrow> get (fold (\<lambda>j. put j (f j)) ks m) k = get m k"
  by (induction ks arbitrary: m) (auto simp: get_put)

lemma ok_fold_del: "ok m \<Longrightarrow> ok (fold del ks m)"
  by (induction ks arbitrary: m) (auto simp: ok_del)

lemma get_fold_del: "get (fold del ks m) k = (if k \<in> set ks then None else get m k)"
  by (induction ks arbitrary: m) (auto simp: get_del)

end

interpretation jsm: kv_store "[]" map_get map_set map_delete map_ok
  by unfold_locales simp_all

section \<open>Objects driven by calls\<close>

text \<open>
  A stateful object: an initial state, a step per call, a condition under which a call may be
  made, and an invariant every such call keeps. The runs of the object are the folds of \<open>step\<close>
  over lists of calls that are legal one after the other.
\<close>

primrec legal_run :: "('s \<Rightarrow> 'c \<Rightarrow> bool) \<Rightarrow> ('c \<Rightarrow> 's \<Rightarrow> 's) \<Rightarrow> 's \<Rightarrow> 'c list \<Rightarrow> bool" where
  "legal_run legal step s [] = True"
| "legal_run legal step s (c # cs) = (legal s c \<and> legal_run legal step (step c s) cs)"

lemma legal_run_True [simp]: "legal_run (\<lambda>_ _. True) step s cs"
  by (induction cs arbitrary: s) auto

lemma legal_run_append:
  "legal_run legal step s (cs @ ds) \<longleftrightarrow>
     legal_run legal step s cs \<and> legal_run legal step (fold step cs s) ds"
  by (induction cs arbitrary: s) auto

locale call_driven =
  fixes init :: 's
    and step :: "'c \<Rightarrow> 's \<Rightarrow> 's"
    and legal :: "'s \<Rightarrow> 'c \<Rightarrow> bool"
    and inv :: "'s \<Rightarrow> bool"
  assumes inv_init: "inv init"
    and inv_step: "inv s \<Longrightarrow> legal s c \<Longrightarrow> inv (step c s)"
begin

lemma inv_run_from: "inv s \<Longrightarrow> legal_run legal step s cs \<Longrightarrow> inv (fold step cs s)"
  by (induction cs arbitrary: s) (auto intro: inv_step)

lemma inv_run: "legal_run legal step init cs \<Longrightarrow> inv (fold step cs init)"
  by (rule inv_run_from [OF inv_init])

text \<open>The invariant holds before every call of a legal run, not only at its end.\<close>

lemma inv_prefix: "legal_run legal step init (cs @ ds) \<Longrightarrow> inv (fold step cs init)"
  by (simp add: legal_run_append inv_run)

end

end
