(* ===== verification/Json.thy ===== *)
theory Json
  imports Prelude
begin

text \<open>
  JSON values and the parts of the \<open>JSON\<close> object the router uses. An object is the list of its
  members in \<open>Object.keys\<close> order; numbers are rational. \<open>json_parse\<close> follows the grammar of
  ECMA-404 and answers \<open>None\<close> where \<open>JSON.parse\<close> throws; it recurses on fuel, and the fuel
  \<open>json_parse\<close> supplies (twice the length of the text plus two) covers the deepest call chain,
  because every second nested call has consumed a character. Escapes for code units outside the
  string model decode to the substitute character.
\<close>

datatype json =
    JNull
  | JBool bool
  | JNum rat
  | JStr string
  | JArr "json list"
  | JObj "(string \<times> json) list"

section \<open>Reading members\<close>

definition obj_get :: "(string \<times> json) list \<Rightarrow> string \<Rightarrow> json option" where
  "obj_get ms k = map_of ms k"

definition obj_has :: "(string \<times> json) list \<Rightarrow> string \<Rightarrow> bool" where
  "obj_has ms k = (k \<in> fst ` set ms)"

fun jget :: "json \<Rightarrow> string \<Rightarrow> json option" where
  "jget (JObj ms) k = obj_get ms k"
| "jget _ k = None"

lemma size_obj_value [termination_simp]: "(k, v) \<in> set ms \<Longrightarrow> size v < Suc (size_list (size_prod (\<lambda>_. 0) size) ms)"
  by (induction ms) auto

lemma size_map_of [termination_simp]:
  "map_of ms k = Some v \<Longrightarrow> size v < Suc (size_list (size_prod (\<lambda>_. 0) size) ms)"
  by (rule size_obj_value [OF map_of_SomeD])

section \<open>Parsing\<close>

definition dquote :: char where
  "dquote = CHR 0x22"

definition backslash :: char where
  "backslash = CHR 0x5C"

definition is_json_ws :: "char \<Rightarrow> bool" where
  "is_json_ws c = (char_code c \<in> {9, 10, 13, 32})"

definition skip_ws :: "string \<Rightarrow> string" where
  "skip_ws s = dropWhile is_json_ws s"

definition hex_val :: "char \<Rightarrow> nat option" where
  "hex_val c =
     (let n = char_code c
      in if 48 \<le> n \<and> n \<le> 57 then Some (n - 48)
         else if 97 \<le> n \<and> n \<le> 102 then Some (n - 87)
         else if 65 \<le> n \<and> n \<le> 70 then Some (n - 55)
         else None)"

definition unit_char :: "nat \<Rightarrow> char" where
  "unit_char n = (if n < 256 then char_of n else CHR 0x1A)"

definition simple_escape :: "char \<Rightarrow> char option" where
  "simple_escape c =
     (if c = dquote \<or> c = backslash \<or> c = CHR ''/'' then Some c
      else if c = CHR ''b'' then Some (char_of (8::nat))
      else if c = CHR ''f'' then Some (char_of (12::nat))
      else if c = CHR ''n'' then Some (char_of (10::nat))
      else if c = CHR ''r'' then Some (char_of (13::nat))
      else if c = CHR ''t'' then Some (char_of (9::nat))
      else None)"

text \<open>The rest of a string literal, after the opening quote.\<close>

fun p_string :: "string \<Rightarrow> (string \<times> string) option" where
  "p_string [] = None"
| "p_string (c # cs) =
     (if c = dquote then Some ([], cs)
      else if char_code c < 32 then None
      else if c = backslash then
        (case cs of
           [] \<Rightarrow> None
         | e # es \<Rightarrow>
             if e = CHR ''u'' then
               (case es of
                  h1 # h2 # h3 # h4 # rest \<Rightarrow>
                    (case (hex_val h1, hex_val h2, hex_val h3, hex_val h4) of
                       (Some a, Some b, Some d, Some f) \<Rightarrow>
                         (case p_string rest of
                            None \<Rightarrow> None
                          | Some (str, r) \<Rightarrow> Some (unit_char (((a * 16 + b) * 16 + d) * 16 + f) # str, r))
                     | _ \<Rightarrow> None)
                | _ \<Rightarrow> None)
             else
               (case simple_escape e of
                  None \<Rightarrow> None
                | Some x \<Rightarrow>
                    (case p_string es of None \<Rightarrow> None | Some (str, r) \<Rightarrow> Some (x # str, r))))
      else (case p_string cs of None \<Rightarrow> None | Some (str, r) \<Rightarrow> Some (c # str, r)))"

definition digits_val :: "string \<Rightarrow> nat" where
  "digits_val ds = foldl (\<lambda>n d. n * 10 + digit_val d) 0 ds"

definition p_frac :: "string \<Rightarrow> (rat \<times> string) option" where
  "p_frac s =
     (case s of
        c # cs \<Rightarrow>
          if c = CHR ''.'' then
            (let ds = takeWhile is_digit cs
             in if ds = [] then None
                else Some (of_nat (digits_val ds) / 10 ^ length ds, dropWhile is_digit cs))
          else Some (0, s)
      | [] \<Rightarrow> Some (0, s))"

definition p_exp :: "string \<Rightarrow> (rat \<times> string) option" where
  "p_exp s =
     (case s of
        c # cs \<Rightarrow>
          if c = CHR ''e'' \<or> c = CHR ''E'' then
            (let (neg, body) =
               (case cs of
                  x # xs \<Rightarrow> if x = CHR ''-'' then (True, xs) else if x = CHR ''+'' then (False, xs) else (False, cs)
                | [] \<Rightarrow> (False, cs));
                 ds = takeWhile is_digit body
             in if ds = [] then None
                else Some (if neg then 1 / 10 ^ digits_val ds else 10 ^ digits_val ds, dropWhile is_digit body))
          else Some (1, s)
      | [] \<Rightarrow> Some (1, s))"

definition p_number :: "string \<Rightarrow> (rat \<times> string) option" where
  "p_number s0 =
     (let (neg, s) = (case s0 of c # cs \<Rightarrow> if c = CHR ''-'' then (True, cs) else (False, s0) | [] \<Rightarrow> (False, s0));
          ds = takeWhile is_digit s
      in if ds = [] \<or> (hd ds = CHR ''0'' \<and> length ds > 1) then None
         else (case p_frac (dropWhile is_digit s) of
                 None \<Rightarrow> None
               | Some (fr, s1) \<Rightarrow>
                   (case p_exp s1 of
                      None \<Rightarrow> None
                    | Some (ex, s2) \<Rightarrow>
                        (let v = (of_nat (digits_val ds) + fr) * ex in Some (if neg then - v else v, s2)))))"

fun p_value :: "nat \<Rightarrow> string \<Rightarrow> (json \<times> string) option"
  and p_elems :: "nat \<Rightarrow> string \<Rightarrow> (json list \<times> string) option"
  and p_members :: "nat \<Rightarrow> string \<Rightarrow> ((string \<times> json) list \<times> string) option" where
  "p_value 0 s = None"
| "p_value (Suc n) s =
     (case skip_ws s of
        [] \<Rightarrow> None
      | c # cs \<Rightarrow>
          if c = dquote then (case p_string cs of None \<Rightarrow> None | Some (str, r) \<Rightarrow> Some (JStr str, r))
          else if c = CHR ''['' then
            (case skip_ws cs of
               [] \<Rightarrow> None
             | d # ds \<Rightarrow>
                 if d = CHR '']'' then Some (JArr [], ds)
                 else (case p_elems n cs of None \<Rightarrow> None | Some (vs, r) \<Rightarrow> Some (JArr vs, r)))
          else if c = CHR ''{'' then
            (case skip_ws cs of
               [] \<Rightarrow> None
             | d # ds \<Rightarrow>
                 if d = CHR ''}'' then Some (JObj [], ds)
                 else (case p_members n cs of
                         None \<Rightarrow> None
                       | Some (ms, r) \<Rightarrow> Some (JObj (fold (\<lambda>(k, v). map_set k v) ms []), r)))
          else if starts_with ''null'' (c # cs) then Some (JNull, drop 3 cs)
          else if starts_with ''true'' (c # cs) then Some (JBool True, drop 3 cs)
          else if starts_with ''false'' (c # cs) then Some (JBool False, drop 4 cs)
          else (case p_number (c # cs) of None \<Rightarrow> None | Some (x, r) \<Rightarrow> Some (JNum x, r)))"
| "p_elems 0 s = None"
| "p_elems (Suc n) s =
     (case p_value n s of
        None \<Rightarrow> None
      | Some (v, r) \<Rightarrow>
          (case skip_ws r of
             [] \<Rightarrow> None
           | d # ds \<Rightarrow>
               if d = CHR '']'' then Some ([v], ds)
               else if d = CHR '','' then
                 (case p_elems n ds of None \<Rightarrow> None | Some (vs, r') \<Rightarrow> Some (v # vs, r'))
               else None))"
| "p_members 0 s = None"
| "p_members (Suc n) s =
     (case skip_ws s of
        [] \<Rightarrow> None
      | q # qs \<Rightarrow>
          if q \<noteq> dquote then None
          else
            (case p_string qs of
               None \<Rightarrow> None
             | Some (k, r) \<Rightarrow>
                 (case skip_ws r of
                    [] \<Rightarrow> None
                  | d # ds \<Rightarrow>
                      if d \<noteq> CHR '':'' then None
                      else
                        (case p_value n ds of
                           None \<Rightarrow> None
                         | Some (v, r2) \<Rightarrow>
                             (case skip_ws r2 of
                                [] \<Rightarrow> None
                              | e # es \<Rightarrow>
                                  if e = CHR ''}'' then Some ([(k, v)], es)
                                  else if e = CHR '','' then
                                    (case p_members n es of
                                       None \<Rightarrow> None
                                     | Some (ms, r') \<Rightarrow> Some ((k, v) # ms, r'))
                                  else None)))))"

definition json_parse :: "string \<Rightarrow> json option" where
  "json_parse s =
     (case p_value (2 * length s + 2) s of
        None \<Rightarrow> None
      | Some (v, r) \<Rightarrow> if skip_ws r = [] then Some v else None)"

section \<open>Printing\<close>

definition hex_digit :: "nat \<Rightarrow> char" where
  "hex_digit n = char_of (if n < 10 then 48 + n else 87 + n)"

definition escape_char :: "char \<Rightarrow> string" where
  "escape_char c =
     (if c = dquote \<or> c = backslash then [backslash, c]
      else if char_code c = 8 then [backslash, CHR ''b'']
      else if char_code c = 9 then [backslash, CHR ''t'']
      else if char_code c = 10 then [backslash, CHR ''n'']
      else if char_code c = 12 then [backslash, CHR ''f'']
      else if char_code c = 13 then [backslash, CHR ''r'']
      else if char_code c < 32 then
        [backslash, CHR ''u'', CHR ''0'', CHR ''0'', hex_digit (char_code c div 16), hex_digit (char_code c mod 16)]
      else [c])"

definition quote_str :: "string \<Rightarrow> string" where
  "quote_str s = [dquote] @ concat (map escape_char s) @ [dquote]"

text \<open>Decimal digits of a fraction in [0, 1), at most \<open>n\<close> of them.\<close>

fun frac_digits :: "nat \<Rightarrow> rat \<Rightarrow> string" where
  "frac_digits 0 x = []"
| "frac_digits (Suc n) x =
     (if x = 0 then []
      else let d = floor (x * 10) in char_of (48 + nat d) # frac_digits n (x * 10 - of_int d))"

text \<open>Numbers as \<open>Number::toString\<close> writes those of moderate size: integers in full, others with
  up to 17 decimals.\<close>

definition show_num :: "rat \<Rightarrow> string" where
  "show_num x =
     (let a = \<bar>x\<bar>; i = floor a; f = a - of_int i
      in (if x < 0 then ''-'' else '''') @ show_nat (nat i) @ (if f = 0 then '''' else ''.'' @ frac_digits 17 f))"

fun json_stringify :: "json \<Rightarrow> string" where
  "json_stringify JNull = ''null''"
| "json_stringify (JBool b) = (if b then ''true'' else ''false'')"
| "json_stringify (JNum x) = show_num x"
| "json_stringify (JStr s) = quote_str s"
| "json_stringify (JArr vs) = ''['' @ join '','' (map json_stringify vs) @ '']''"
| "json_stringify (JObj ms) =
     ''{'' @ join '','' (map (\<lambda>(k, v). quote_str k @ '':'' @ json_stringify v) ms) @ ''}''"

end
