(* ===== verification/Errors.thy ===== *)
theory Errors
  imports Json
begin

text \<open>
  The normalized error taxonomy of \<^verbatim>\<open>src/src/gateway/errors.ts\<close>: the closed set of codes, their
  HTTP status, the codes a retry layer may retry, the error value and its client body.
\<close>

datatype error_code =
    invalid_request
  | auth_error
  | rate_limited
  | provider_unavailable
  | context_exceeded
  | content_filtered
  | policy_blocked
  | scrubber_blocked
  | capability_missing
  | no_vision_provider
  | invalid_response
  | budget_exceeded
  | unknown

fun code_name :: "error_code \<Rightarrow> string" where
  "code_name invalid_request = ''invalid_request''"
| "code_name auth_error = ''auth_error''"
| "code_name rate_limited = ''rate_limited''"
| "code_name provider_unavailable = ''provider_unavailable''"
| "code_name context_exceeded = ''context_exceeded''"
| "code_name content_filtered = ''content_filtered''"
| "code_name policy_blocked = ''policy_blocked''"
| "code_name scrubber_blocked = ''scrubber_blocked''"
| "code_name capability_missing = ''capability_missing''"
| "code_name no_vision_provider = ''no_vision_provider''"
| "code_name invalid_response = ''invalid_response''"
| "code_name budget_exceeded = ''budget_exceeded''"
| "code_name unknown = ''unknown''"

definition ERROR_CODES :: "error_code list" where
  "ERROR_CODES =
     [invalid_request, auth_error, rate_limited, provider_unavailable, context_exceeded,
      content_filtered, policy_blocked, scrubber_blocked, capability_missing, no_vision_provider,
      invalid_response, budget_exceeded, unknown]"

fun ERROR_HTTP_STATUS :: "error_code \<Rightarrow> int" where
  "ERROR_HTTP_STATUS invalid_request = 400"
| "ERROR_HTTP_STATUS auth_error = 401"
| "ERROR_HTTP_STATUS rate_limited = 429"
| "ERROR_HTTP_STATUS provider_unavailable = 502"
| "ERROR_HTTP_STATUS context_exceeded = 400"
| "ERROR_HTTP_STATUS content_filtered = 422"
| "ERROR_HTTP_STATUS policy_blocked = 403"
| "ERROR_HTTP_STATUS scrubber_blocked = 422"
| "ERROR_HTTP_STATUS capability_missing = 400"
| "ERROR_HTTP_STATUS no_vision_provider = 409"
| "ERROR_HTTP_STATUS invalid_response = 502"
| "ERROR_HTTP_STATUS budget_exceeded = 402"
| "ERROR_HTTP_STATUS unknown = 500"

definition RETRYABLE_CODES :: "error_code list" where
  "RETRYABLE_CODES = [rate_limited, provider_unavailable, invalid_response]"

definition retryable :: "error_code \<Rightarrow> bool" where
  "retryable c = (c \<in> set RETRYABLE_CODES)"

record router_error =
  code :: error_code
  message :: string
  status :: int
  detail :: "(string \<times> json) list option"
  retryAfterSeconds :: "rat option"

text \<open>The constructor with its optional \<open>detail\<close> and \<open>retryAfterSeconds\<close>.\<close>

definition RouterError ::
    "error_code \<Rightarrow> string \<Rightarrow> (string \<times> json) list option \<Rightarrow> rat option \<Rightarrow> router_error" where
  "RouterError c m d r =
     \<lparr>code = c, message = m, status = ERROR_HTTP_STATUS c, detail = d, retryAfterSeconds = r\<rparr>"

abbreviation router_error0 :: "error_code \<Rightarrow> string \<Rightarrow> router_error" where
  "router_error0 c m \<equiv> RouterError c m None None"

lemma RouterError_sel [simp]:
  "code (RouterError c m d r) = c" "message (RouterError c m d r) = m"
  "status (RouterError c m d r) = ERROR_HTTP_STATUS c"
  "detail (RouterError c m d r) = d" "retryAfterSeconds (RouterError c m d r) = r"
  by (simp_all add: RouterError_def)

text \<open>What a \<open>catch\<close> may receive: a router error, another \<open>Error\<close> with its message, or any other
  thrown value.\<close>

datatype thrown = Routed router_error | OtherError string | NonError

fun toRouterError :: "thrown \<Rightarrow> router_error" where
  "toRouterError (Routed e) = e"
| "toRouterError (OtherError m) = router_error0 unknown m"
| "toRouterError NonError = router_error0 unknown ''internal error''"

text \<open>The OpenAI-compatible body. An absent \<open>detail\<close> adds no member.\<close>

definition errorBody :: "router_error \<Rightarrow> json" where
  "errorBody err =
     JObj [(''error'',
       JObj ([(''message'', JStr (message err)),
              (''type'', JStr (if code err = invalid_request then ''invalid_request_error'' else ''router_error'')),
              (''code'', JStr (code_name (code err)))]
             @ (case detail err of None \<Rightarrow> [] | Some d \<Rightarrow> [(''detail'', JObj d)])))]"

lemma retryable_simps [simp]:
  "retryable rate_limited" "retryable provider_unavailable" "retryable invalid_response"
  "\<not> retryable invalid_request" "\<not> retryable auth_error" "\<not> retryable context_exceeded"
  "\<not> retryable content_filtered" "\<not> retryable policy_blocked" "\<not> retryable scrubber_blocked"
  "\<not> retryable capability_missing" "\<not> retryable no_vision_provider" "\<not> retryable budget_exceeded"
  "\<not> retryable unknown"
  by (simp_all add: retryable_def RETRYABLE_CODES_def)

lemma code_name_inj: "code_name c = code_name d \<Longrightarrow> c = d"
  by (cases c; cases d) simp_all

lemma toRouterError_code: "code (toRouterError t) \<noteq> unknown \<Longrightarrow> \<exists>e. t = Routed e"
  by (cases t) simp_all

end
