(* ===== verification/Envelope.thy ===== *)
theory Envelope
  imports Errors "HOL-Library.Char_ord" "HOL-Library.List_Lexorder"
begin

text \<open>
  The internal envelope of \<^verbatim>\<open>src/src/gateway/envelope.ts\<close>: the request and response shapes, the
  wire body and its schema, \<open>toEnvelope\<close> and the request hash. The schema library reports its
  first issue in words of its own, so the rendering of that issue is the argument \<open>zod_issue\<close>; the
  digest is the argument \<open>sha256\<close>. The lemmas show what \<open>toEnvelope\<close> accepts and what it builds, and that
  the cut-off depth measure agrees with the true nesting up to the ceiling.
\<close>

section \<open>Envelope types\<close>

datatype msg_role = RSystem | RUser | RAssistant | RTool

datatype content_part = TextPart string | ImagePart string

record tool_call =
  tc_id :: string
  tc_name :: string
  tc_arguments :: string

datatype msg_content = CText string | CParts "content_part list"

record ai_message =
  m_role :: msg_role
  m_content :: msg_content
  m_toolCalls :: "tool_call list option"
  m_toolCallId :: "string option"

record tool_def =
  td_name :: string
  td_description :: "string option"
  td_parameters :: "json option"

datatype tool_choice = ChooseAuto | ChooseNone | ChooseRequired | ChooseName string

datatype validation_mode = Structural | Strict

datatype response_format =
    RFText
  | RFJsonObject
  | RFJsonSchema (rf_name: string) (rf_schema: "json option") (rf_strict: "bool option")
      (rf_validation: "validation_mode option")

datatype user_role = Admin | Partner | Staff

record request_metadata =
  md_app :: string
  md_userId :: "string option"
  md_userRole :: "user_role option"
  md_engagementRef :: "string option"
  md_clientRef :: "string option"

record ai_request =
  taskClass :: string
  messages :: "ai_message list"
  tools :: "tool_def list option"
  toolChoice :: "tool_choice option"
  responseFormat :: "response_format option"
  maxTokens :: "int option"
  temperature :: "rat option"
  topP :: "rat option"
  stop :: "string list option"
  stream :: bool
  modelRequested :: "string option"
  metadata :: request_metadata

datatype finish_reason = FStop | FLength | FToolCalls | FContentFilter | FError

record ai_usage =
  promptTokens :: int
  completionTokens :: int
  cachedReadTokens :: int
  cacheWriteTokens :: int
  estimated :: bool

record ai_response =
  r_content :: string
  r_toolCalls :: "tool_call list option"
  finishReason :: finish_reason
  usage :: ai_usage
  served_model :: string
  served_providerId :: string
  served_latencyMs :: int
  thinking :: "string option"

datatype stream_chunk =
    TextDelta string
  | ToolCallStart nat string string
  | ToolCallDelta nat string
  | Finish finish_reason "ai_usage option"

definition EMPTY_USAGE :: ai_usage where
  "EMPTY_USAGE = \<lparr>promptTokens = 0, completionTokens = 0, cachedReadTokens = 0,
                  cacheWriteTokens = 0, estimated = False\<rparr>"

section \<open>The wire body and its schema\<close>

datatype wire_role = WSystem | WUser | WAssistant | WTool | WDeveloper

datatype wire_content = WAbsent | WText string | WParts "content_part list"

record wire_message =
  w_role :: wire_role
  w_content :: wire_content
  w_tool_calls :: "tool_call list option"
  w_tool_call_id :: "string option"

record chat_body =
  b_model :: "string option"
  b_messages :: "wire_message list"
  b_tools :: "tool_def list option"
  b_tool_choice :: "tool_choice option"
  b_response_format :: "response_format option"
  b_max_tokens :: "int option"
  b_max_completion_tokens :: "int option"
  b_n :: "int option"
  b_temperature :: "rat option"
  b_top_p :: "rat option"
  b_stop :: "string list option"
  b_stream :: "bool option"

text \<open>A reader of a schema node answers \<open>None\<close> when the value does not conform.\<close>

type_synonym 'a reader = "json \<Rightarrow> 'a option"

fun z_string :: "string reader" where
  "z_string (JStr s) = Some s"
| "z_string _ = None"

fun z_boolean :: "bool reader" where
  "z_boolean (JBool b) = Some b"
| "z_boolean _ = None"

fun z_positive_int :: "int reader" where
  "z_positive_int (JNum x) = (if of_int (floor x) = x \<and> x > 0 then Some (floor x) else None)"
| "z_positive_int _ = None"

fun z_number_in :: "rat \<Rightarrow> rat \<Rightarrow> rat reader" where
  "z_number_in lo hi (JNum x) = (if lo \<le> x \<and> x \<le> hi then Some x else None)"
| "z_number_in lo hi _ = None"

definition z_unknown :: "json reader" where
  "z_unknown v = Some v"

fun z_all :: "'a reader \<Rightarrow> json list \<Rightarrow> 'a list option" where
  "z_all f [] = Some []"
| "z_all f (v # vs) =
     (case f v of None \<Rightarrow> None | Some x \<Rightarrow> (case z_all f vs of None \<Rightarrow> None | Some xs \<Rightarrow> Some (x # xs)))"

fun z_array :: "'a reader \<Rightarrow> 'a list reader" where
  "z_array f (JArr vs) = z_all f vs"
| "z_array f _ = None"

text \<open>\<open>.optional()\<close> lets the key be absent, \<open>.nullish()\<close> lets it be null as well.\<close>

definition z_optional :: "string \<Rightarrow> 'a reader \<Rightarrow> json \<Rightarrow> 'a option option" where
  "z_optional k f v = (case jget v k of None \<Rightarrow> Some None | Some w \<Rightarrow> map_option Some (f w))"

definition z_nullish :: "string \<Rightarrow> 'a reader \<Rightarrow> json \<Rightarrow> 'a option option" where
  "z_nullish k f v =
     (case jget v k of None \<Rightarrow> Some None | Some JNull \<Rightarrow> Some None | Some w \<Rightarrow> map_option Some (f w))"

definition z_required :: "string \<Rightarrow> 'a reader \<Rightarrow> json \<Rightarrow> 'a option" where
  "z_required k f v = Option.bind (jget v k) f"

definition z_literal :: "string \<Rightarrow> string \<Rightarrow> json \<Rightarrow> unit option" where
  "z_literal k lit v = (if jget v k = Some (JStr lit) then Some () else None)"

definition contentPartSchema :: "content_part reader" where
  "contentPartSchema v =
     (case (z_literal ''type'' ''text'' v, z_required ''text'' z_string v) of
        (Some _, Some t) \<Rightarrow> Some (TextPart t)
      | _ \<Rightarrow>
          (case (z_literal ''type'' ''image_url'' v, Option.bind (jget v ''image_url'') (z_required ''url'' z_string)) of
             (Some _, Some u) \<Rightarrow> Some (ImagePart u)
           | _ \<Rightarrow> None))"

fun wire_role_of :: "json \<Rightarrow> wire_role option" where
  "wire_role_of (JStr s) =
     (if s = ''system'' then Some WSystem else if s = ''user'' then Some WUser
      else if s = ''assistant'' then Some WAssistant else if s = ''tool'' then Some WTool
      else if s = ''developer'' then Some WDeveloper else None)"
| "wire_role_of _ = None"

fun wire_content_of :: "wire_content reader" where
  "wire_content_of (JStr s) = Some (WText s)"
| "wire_content_of (JArr vs) = map_option WParts (z_all contentPartSchema vs)"
| "wire_content_of JNull = Some WAbsent"
| "wire_content_of _ = None"

definition wire_tool_call :: "tool_call reader" where
  "wire_tool_call v =
     (case (z_required ''id'' z_string v, z_literal ''type'' ''function'' v,
            Option.bind (jget v ''function'') (z_required ''name'' z_string),
            Option.bind (jget v ''function'') (z_required ''arguments'' z_string)) of
        (Some i, Some _, Some n, Some a) \<Rightarrow> Some \<lparr>tc_id = i, tc_name = n, tc_arguments = a\<rparr>
      | _ \<Rightarrow> None)"

definition messageSchema :: "wire_message reader" where
  "messageSchema v =
     (case (z_required ''role'' wire_role_of v, z_optional ''content'' wire_content_of v,
            z_optional ''tool_calls'' (z_array wire_tool_call) v, z_optional ''tool_call_id'' z_string v,
            z_optional ''name'' z_string v) of
        (Some r, Some c, Some tcs, Some tid, Some _) \<Rightarrow>
          Some \<lparr>w_role = r, w_content = nullish c WAbsent, w_tool_calls = tcs, w_tool_call_id = tid\<rparr>
      | _ \<Rightarrow> None)"

definition wire_tool :: "tool_def reader" where
  "wire_tool v =
     (case (z_literal ''type'' ''function'' v, jget v ''function'') of
        (Some _, Some f) \<Rightarrow>
          (case (z_required ''name'' z_string f, z_optional ''description'' z_string f,
                 z_optional ''parameters'' z_unknown f, z_nullish ''strict'' z_boolean f) of
             (Some n, Some d, Some p, Some _) \<Rightarrow> Some \<lparr>td_name = n, td_description = d, td_parameters = p\<rparr>
           | _ \<Rightarrow> None)
      | _ \<Rightarrow> None)"

fun wire_tool_choice :: "tool_choice reader" where
  "wire_tool_choice (JStr s) =
     (if s = ''auto'' then Some ChooseAuto else if s = ''none'' then Some ChooseNone
      else if s = ''required'' then Some ChooseRequired else None)"
| "wire_tool_choice v =
     (case (z_literal ''type'' ''function'' v, Option.bind (jget v ''function'') (z_required ''name'' z_string)) of
        (Some _, Some n) \<Rightarrow> Some (ChooseName n)
      | _ \<Rightarrow> None)"

fun wire_validation :: "validation_mode reader" where
  "wire_validation (JStr s) =
     (if s = ''structural'' then Some Structural else if s = ''strict'' then Some Strict else None)"
| "wire_validation _ = None"

definition wire_response_format :: "response_format reader" where
  "wire_response_format v =
     (if jget v ''type'' = Some (JStr ''text'') then Some RFText
      else if jget v ''type'' = Some (JStr ''json_object'') then Some RFJsonObject
      else
        (case (z_literal ''type'' ''json_schema'' v, jget v ''json_schema'') of
           (Some _, Some js) \<Rightarrow>
             (case (z_required ''name'' z_string js, z_optional ''schema'' z_unknown js,
                    z_nullish ''strict'' z_boolean js, z_optional ''validation'' wire_validation js) of
                (Some n, Some sc, Some st, Some va) \<Rightarrow> Some (RFJsonSchema n sc st va)
              | _ \<Rightarrow> None)
         | _ \<Rightarrow> None))"

fun wire_stop :: "string list reader" where
  "wire_stop (JStr s) = Some [s]"
| "wire_stop (JArr vs) = z_all z_string vs"
| "wire_stop _ = None"

definition wire_stream_options :: "unit reader" where
  "wire_stream_options v =
     (case v of JObj _ \<Rightarrow> map_option (\<lambda>_. ()) (z_optional ''include_usage'' z_boolean v) | _ \<Rightarrow> None)"

definition openAiChatBodySchema :: "chat_body reader" where
  "openAiChatBodySchema v =
     (case (z_optional ''model'' z_string v, z_required ''messages'' (z_array messageSchema) v,
            z_optional ''tools'' (z_array wire_tool) v, z_optional ''tool_choice'' wire_tool_choice v,
            z_optional ''response_format'' wire_response_format v) of
        (Some md, Some ms, Some ts, Some tc, Some rf) \<Rightarrow>
          (case (z_optional ''max_tokens'' z_positive_int v, z_optional ''max_completion_tokens'' z_positive_int v,
                 z_optional ''n'' z_positive_int v, z_optional ''temperature'' (z_number_in 0 2) v,
                 z_optional ''top_p'' (z_number_in 0 1) v) of
             (Some mt, Some mct, Some n, Some te, Some tp) \<Rightarrow>
               (case (z_optional ''stop'' wire_stop v, z_optional ''stream'' z_boolean v,
                      z_optional ''stream_options'' wire_stream_options v, z_optional ''user'' z_string v) of
                  (Some sp, Some st, Some _, Some _) \<Rightarrow>
                    if ms = [] then None
                    else Some \<lparr>b_model = md, b_messages = ms, b_tools = ts, b_tool_choice = tc,
                               b_response_format = rf, b_max_tokens = mt, b_max_completion_tokens = mct,
                               b_n = n, b_temperature = te, b_top_p = tp, b_stop = sp, b_stream = st\<rparr>
                | _ \<Rightarrow> None)
           | _ \<Rightarrow> None)
      | _ \<Rightarrow> None)"

section \<open>Depth\<close>

fun jsonDepth :: "nat \<Rightarrow> nat \<Rightarrow> json \<Rightarrow> nat" where
  "jsonDepth ceil depth (JArr vs) =
     (if depth > ceil then depth
      else fold (\<lambda>v m. max m (jsonDepth ceil (depth + 1) v)) vs (depth + 1))"
| "jsonDepth ceil depth (JObj ms) =
     (if depth > ceil then depth
      else fold (\<lambda>kv m. max m (jsonDepth ceil (depth + 1) (snd kv))) ms (depth + 1))"
| "jsonDepth ceil depth v = depth"

section \<open>Body to envelope\<close>

record envelope_limits =
  maxMessages :: nat
  maxJsonDepth :: nat

fun role_of_wire :: "wire_role \<Rightarrow> msg_role" where
  "role_of_wire WSystem = RSystem"
| "role_of_wire WUser = RUser"
| "role_of_wire WAssistant = RAssistant"
| "role_of_wire WTool = RTool"
| "role_of_wire WDeveloper = RSystem"

fun content_of_wire :: "wire_content \<Rightarrow> msg_content" where
  "content_of_wire (WText s) = CText s"
| "content_of_wire (WParts ps) = CParts ps"
| "content_of_wire WAbsent = CText []"

definition message_of_wire :: "wire_message \<Rightarrow> ai_message" where
  "message_of_wire m =
     \<lparr>m_role = role_of_wire (w_role m),
      m_content = content_of_wire (w_content m),
      m_toolCalls = w_tool_calls m,
      m_toolCallId = (if w_tool_call_id m = Some [] then None else w_tool_call_id m)\<rparr>"

definition envelope_of_body :: "chat_body \<Rightarrow> string \<Rightarrow> request_metadata \<Rightarrow> ai_request" where
  "envelope_of_body body tc md =
     \<lparr>taskClass = tc,
      messages = map message_of_wire (b_messages body),
      tools = b_tools body,
      toolChoice = b_tool_choice body,
      responseFormat = b_response_format body,
      maxTokens = (case b_max_completion_tokens body of Some n \<Rightarrow> Some n | None \<Rightarrow> b_max_tokens body),
      temperature = b_temperature body,
      topP = b_top_p body,
      stop = b_stop body,
      stream = nullish (b_stream body) False,
      modelRequested = b_model body,
      metadata = md\<rparr>"

definition toEnvelope ::
    "(json \<Rightarrow> string) \<Rightarrow> json \<Rightarrow> string \<Rightarrow> request_metadata \<Rightarrow> envelope_limits
      \<Rightarrow> (router_error, ai_request) result" where
  "toEnvelope zod_issue raw tc md limits =
     (if jsonDepth (maxJsonDepth limits) 0 raw > maxJsonDepth limits
      then Inl (router_error0 invalid_request
             (''request JSON exceeds max depth '' @ show_nat (maxJsonDepth limits)))
      else
        (case openAiChatBodySchema raw of
           None \<Rightarrow> Inl (router_error0 invalid_request (''invalid request body: '' @ zod_issue raw))
         | Some body \<Rightarrow>
             if length (b_messages body) > maxMessages limits
             then Inl (router_error0 invalid_request
                    (''too many messages (max '' @ show_nat (maxMessages limits) @ '')''))
             else if (case b_n body of None \<Rightarrow> False | Some n \<Rightarrow> n > 1)
             then Inl (router_error0 invalid_request
                    (''n>1 is not supported '' @ em_dash @ '' the router returns a single choice''))
             else Inr (envelope_of_body body tc md)))"

section \<open>Request hash\<close>

fun canonicalize :: "json \<Rightarrow> string" where
  "canonicalize (JArr vs) = ''['' @ join '','' (map canonicalize vs) @ '']''"
| "canonicalize (JObj ms) =
     ''{'' @ join '','' (map snd (sort_key fst (map (\<lambda>(k, v). (k, quote_str k @ '':'' @ canonicalize v)) ms))) @ ''}''"
| "canonicalize v = json_stringify v"

fun role_name :: "msg_role \<Rightarrow> string" where
  "role_name RSystem = ''system''"
| "role_name RUser = ''user''"
| "role_name RAssistant = ''assistant''"
| "role_name RTool = ''tool''"

fun part_json :: "content_part \<Rightarrow> json" where
  "part_json (TextPart t) = JObj [(''type'', JStr ''text''), (''text'', JStr t)]"
| "part_json (ImagePart u) = JObj [(''type'', JStr ''image''), (''url'', JStr u)]"

fun content_json :: "msg_content \<Rightarrow> json" where
  "content_json (CText s) = JStr s"
| "content_json (CParts ps) = JArr (map part_json ps)"

definition tool_call_json :: "tool_call \<Rightarrow> json" where
  "tool_call_json tc =
     JObj [(''id'', JStr (tc_id tc)), (''name'', JStr (tc_name tc)), (''arguments'', JStr (tc_arguments tc))]"

definition message_json :: "ai_message \<Rightarrow> json" where
  "message_json m =
     JObj ([(''role'', JStr (role_name (m_role m))), (''content'', content_json (m_content m))]
           @ (case m_toolCalls m of None \<Rightarrow> [] | Some tcs \<Rightarrow> [(''toolCalls'', JArr (map tool_call_json tcs))])
           @ (case m_toolCallId m of None \<Rightarrow> [] | Some i \<Rightarrow> [(''toolCallId'', JStr i)]))"

definition requestHash :: "(string \<Rightarrow> string) \<Rightarrow> ai_message list \<Rightarrow> string" where
  "requestHash sha256 ms = sha256 (canonicalize (JArr (map message_json ms)))"

section \<open>Depth against nesting\<close>

text \<open>The nesting of a value, with no cut-off.\<close>

fun nesting :: "json \<Rightarrow> nat" where
  "nesting (JArr vs) = Suc (foldr (\<lambda>v m. max (nesting v) m) vs 0)"
| "nesting (JObj ms) = Suc (foldr (\<lambda>kv m. max (nesting (snd kv)) m) ms 0)"
| "nesting _ = 0"

lemma fold_max_foldr:
  assumes "\<And>x. x \<in> set xs \<Longrightarrow> f x = min (d + g x) c" "d \<le> c"
  shows "fold (\<lambda>x m. max m (f x)) xs d = min (d + foldr (\<lambda>x m. max (g x) m) xs (0 :: nat)) c"
proof -
  have "fold (\<lambda>x m. max m (f x)) xs a = max a (min (d + foldr (\<lambda>x m. max (g x) m) xs 0) c)"
    if "d \<le> a" for a
    using assms that by (induction xs arbitrary: a) (auto simp: max_def min_def)
  from this [of d] assms(2) show ?thesis
    by auto
qed

lemma jsonDepth_eq:
  "jsonDepth c d v = (if d > c then d else min (d + nesting v) (Suc c))"
proof (induction c d v rule: jsonDepth.induct)
  case (1 c d vs)
  show ?case
  proof (cases "d > c")
    case False
    have "fold (\<lambda>v m. max m (jsonDepth c (d + 1) v)) vs (d + 1) =
        min (d + 1 + foldr (\<lambda>v m. max (nesting v) m) vs 0) (Suc c)"
      using False 1 by (intro fold_max_foldr) auto
    with False show ?thesis
      by simp
  qed simp
next
  case (2 c d ms)
  show ?case
  proof (cases "d > c")
    case False
    have "fold (\<lambda>kv m. max m (jsonDepth c (d + 1) (snd kv))) ms (d + 1) =
        min (d + 1 + foldr (\<lambda>kv m. max (nesting (snd kv)) m) ms 0) (Suc c)"
      using False 2 by (intro fold_max_foldr) auto
    with False show ?thesis
      by simp
  qed simp
qed auto

section \<open>What the schema guarantees\<close>

lemma z_optional_Some: "z_optional k f v = Some (Some x) \<Longrightarrow> \<exists>w. f w = Some x"
  by (auto simp: z_optional_def split: option.splits)

lemma z_positive_int_pos: "z_positive_int w = Some n \<Longrightarrow> 0 < n"
  by (cases w) (auto split: if_splits)

lemma z_number_in_range: "z_number_in lo hi w = Some x \<Longrightarrow> lo \<le> x \<and> x \<le> hi"
  by (cases w) (auto split: if_splits)

definition body_ok :: "chat_body \<Rightarrow> bool" where
  "body_ok b \<longleftrightarrow> b_messages b \<noteq> []
     \<and> (\<forall>n. b_max_tokens b = Some n \<longrightarrow> 0 < n)
     \<and> (\<forall>n. b_max_completion_tokens b = Some n \<longrightarrow> 0 < n)
     \<and> (\<forall>n. b_n b = Some n \<longrightarrow> 0 < n)
     \<and> (\<forall>x. b_temperature b = Some x \<longrightarrow> 0 \<le> x \<and> x \<le> 2)
     \<and> (\<forall>x. b_top_p b = Some x \<longrightarrow> 0 \<le> x \<and> x \<le> 1)"

lemma schema_body_ok: "openAiChatBodySchema v = Some b \<Longrightarrow> body_ok b"
  unfolding openAiChatBodySchema_def body_ok_def
  by (auto split: option.splits if_splits
      dest!: z_optional_Some dest: z_positive_int_pos z_number_in_range)

section \<open>Properties\<close>

text \<open>
  The depth guard is exact: the recursive measure, although it stops descending below the
  ceiling, exceeds the ceiling precisely for the values nested deeper than it, and equals the
  true nesting for all others.
\<close>

theorem jsonDepth_guard:
  "jsonDepth ceil 0 v = min (nesting v) (Suc ceil)"
  by (simp add: jsonDepth_eq)

text \<open>
  A body that becomes an envelope is within every limit: nesting and message count within the
  configured caps, at least one message, a positive token limit, temperature in [0, 2], top_p in
  [0, 1], a single choice; \<open>developer\<close> messages have become system messages. Every rejection is an
  \<open>invalid_request\<close>.
\<close>

theorem toEnvelope_sound:
  "case toEnvelope zod_issue raw tc md limits of
     Inl e \<Rightarrow> code e = invalid_request
   | Inr env \<Rightarrow>
       nesting raw \<le> maxJsonDepth limits
       \<and> messages env \<noteq> [] \<and> length (messages env) \<le> maxMessages limits
       \<and> (\<forall>n. maxTokens env = Some n \<longrightarrow> 0 < n)
       \<and> (\<forall>x. temperature env = Some x \<longrightarrow> 0 \<le> x \<and> x \<le> 2)
       \<and> (\<forall>x. topP env = Some x \<longrightarrow> 0 \<le> x \<and> x \<le> 1)
       \<and> (\<exists>body. openAiChatBodySchema raw = Some body \<and> (b_n body = None \<or> b_n body = Some 1)
            \<and> list_all2 (\<lambda>m w. w_role w = WDeveloper \<longrightarrow> m_role m = RSystem) (messages env) (b_messages body))"
proof (cases "toEnvelope zod_issue raw tc md limits")
  case (Inl e)
  then show ?thesis
    by (auto simp: toEnvelope_def split: if_splits option.splits)
next
  case (Inr env)
  then obtain body where body: "openAiChatBodySchema raw = Some body"
    and env: "env = envelope_of_body body tc md"
    and lim: "length (b_messages body) \<le> maxMessages limits" "nesting raw \<le> maxJsonDepth limits"
    and n: "\<not> (case b_n body of None \<Rightarrow> False | Some n \<Rightarrow> n > 1)"
    by (auto simp: toEnvelope_def jsonDepth_eq not_less split: if_splits option.splits)
  from schema_body_ok [OF body] n have "b_n body = None \<or> b_n body = Some 1"
    by (cases "b_n body") (auto simp: body_ok_def)
  with schema_body_ok [OF body] lim body show ?thesis
    unfolding Inr env
    by (auto simp: envelope_of_body_def body_ok_def message_of_wire_def list_all2_conv_all_nth
        split: option.splits)
qed

definition example_body :: json where
  "example_body = JObj [(''messages'', JArr [JObj [(''role'', JStr ''developer''), (''content'', JStr ''hi'')]]),
                        (''n'', JNum 1), (''temperature'', JNum (1 / 2))]"

definition example_md :: request_metadata where
  "example_md = \<lparr>md_app = ''app'', md_userId = None, md_userRole = None, md_engagementRef = None, md_clientRef = None\<rparr>"

definition example_limits :: envelope_limits where
  "example_limits = \<lparr>maxMessages = 5, maxJsonDepth = 5\<rparr>"

lemmas schema_eval = openAiChatBodySchema_def z_optional_def z_required_def z_nullish_def z_literal_def
  messageSchema_def obj_get_def

lemma example_body_accepted:
  "is_Inr (toEnvelope (\<lambda>_. []) example_body ''tc'' example_md example_limits)"
  by (simp add: toEnvelope_def example_body_def schema_eval example_limits_def)

theorem toEnvelope_sound_witness:
  "\<exists>env. toEnvelope (\<lambda>_. []) example_body ''tc'' example_md example_limits = Inr env
     \<and> nesting example_body \<le> 5 \<and> messages env \<noteq> [] \<and> length (messages env) \<le> 5
     \<and> (\<forall>x. temperature env = Some x \<longrightarrow> 0 \<le> x \<and> x \<le> 2)"
  using toEnvelope_sound [where zod_issue = "\<lambda>_. []" and raw = example_body and tc = "''tc''"
      and md = example_md and limits = example_limits] example_body_accepted
  by (cases "toEnvelope (\<lambda>_. []) example_body ''tc'' example_md example_limits")
     (simp_all add: example_limits_def)

end
