(* ===== verification/Openai_Shape.thy ===== *)
theory Openai_Shape
  imports Envelope
begin

text \<open>
  The OpenAI-compatible response shapes of \<^verbatim>\<open>src/src/gateway/openai-shape.ts\<close>: the completion object and
  the chunk objects of a stream, as JSON values. The clock (\<open>Date.now()\<close>) is the argument \<open>now\<close>.
\<close>

definition toOpenAiUsage :: "ai_usage \<Rightarrow> json" where
  "toOpenAiUsage u =
     (let promptWire = promptTokens u + cachedReadTokens u + cacheWriteTokens u
      in JObj ([(''prompt_tokens'', JNum (of_int promptWire)),
                (''completion_tokens'', JNum (of_int (completionTokens u))),
                (''total_tokens'', JNum (of_int (promptWire + completionTokens u)))]
               @ (if cachedReadTokens u > 0
                  then [(''prompt_tokens_details'', JObj [(''cached_tokens'', JNum (of_int (cachedReadTokens u)))])]
                  else [])))"

fun FINISH_MAP :: "finish_reason \<Rightarrow> string" where
  "FINISH_MAP FStop = ''stop''"
| "FINISH_MAP FLength = ''length''"
| "FINISH_MAP FToolCalls = ''tool_calls''"
| "FINISH_MAP FContentFilter = ''content_filter''"
| "FINISH_MAP FError = ''stop''"

definition tool_call_wire :: "tool_call \<Rightarrow> json" where
  "tool_call_wire tc =
     JObj [(''id'', JStr (tc_id tc)), (''type'', JStr ''function''),
           (''function'', JObj [(''name'', JStr (tc_name tc)), (''arguments'', JStr (tc_arguments tc))])]"

definition completion_message :: "ai_response \<Rightarrow> json" where
  "completion_message res =
     (let calls = nullish (r_toolCalls res) []
      in JObj ([(''role'', JStr ''assistant''),
                (''content'', if r_content res \<noteq> [] then JStr (r_content res)
                              else if calls \<noteq> [] then JNull else JStr [])]
               @ (if calls \<noteq> [] then [(''tool_calls'', JArr (map tool_call_wire calls))] else [])))"

definition toChatCompletion :: "int \<Rightarrow> string \<Rightarrow> ai_response \<Rightarrow> json" where
  "toChatCompletion now requestId res =
     JObj [(''id'', JStr (''chatcmpl-'' @ requestId)), (''object'', JStr ''chat.completion''),
           (''created'', JNum (of_int (now div 1000))), (''model'', JStr (served_model res)),
           (''choices'', JArr [JObj [(''index'', JNum 0), (''message'', completion_message res),
              (''finish_reason'', JStr (FINISH_MAP (finishReason res))), (''logprobs'', JNull)]]),
           (''usage'', toOpenAiUsage (usage res)),
           (''vibe'', JObj [(''provider_id'', JStr (served_providerId res)),
                            (''latency_ms'', JNum (of_int (served_latencyMs res)))])]"

definition chunk_object :: "int \<Rightarrow> string \<Rightarrow> string \<Rightarrow> (string \<times> json) list \<Rightarrow> json" where
  "chunk_object now requestId model rest =
     JObj ([(''id'', JStr (''chatcmpl-'' @ requestId)), (''object'', JStr ''chat.completion.chunk''),
            (''created'', JNum (of_int (now div 1000))), (''model'', JStr model)] @ rest)"

definition delta_choice :: "(string \<times> json) list \<Rightarrow> json \<Rightarrow> (string \<times> json) list" where
  "delta_choice delta finish =
     [(''choices'', JArr [JObj [(''index'', JNum 0), (''delta'', JObj delta), (''finish_reason'', finish)]])]"

definition role_delta :: "bool \<Rightarrow> (string \<times> json) list" where
  "role_delta first = (if first then [(''role'', JStr ''assistant'')] else [])"

fun toChunkObjects :: "int \<Rightarrow> string \<Rightarrow> string \<Rightarrow> stream_chunk \<Rightarrow> bool \<Rightarrow> json list" where
  "toChunkObjects now rid model (TextDelta d) first =
     [chunk_object now rid model (delta_choice (role_delta first @ [(''content'', JStr d)]) JNull)]"
| "toChunkObjects now rid model (ToolCallStart i cid name) first =
     [chunk_object now rid model (delta_choice (role_delta first @ [(''tool_calls'', JArr [JObj
        [(''index'', JNum (of_nat i)), (''id'', JStr cid), (''type'', JStr ''function''),
         (''function'', JObj [(''name'', JStr name), (''arguments'', JStr [])])]])]) JNull)]"
| "toChunkObjects now rid model (ToolCallDelta i args) first =
     [chunk_object now rid model (delta_choice [(''tool_calls'', JArr [JObj
        [(''index'', JNum (of_nat i)), (''function'', JObj [(''arguments'', JStr args)])]])] JNull)]"
| "toChunkObjects now rid model (Finish f u) first =
     (let finishObj = chunk_object now rid model (delta_choice [] (JStr (FINISH_MAP f)))
      in case u of
           None \<Rightarrow> [finishObj]
         | Some us \<Rightarrow> [finishObj, chunk_object now rid model [(''choices'', JArr []), (''usage'', toOpenAiUsage us)]])"

end
