(* ===== verification/Openai_Compat.thy ===== *)
theory Openai_Compat
  imports Openai_Shape
begin

text \<open>
  The adapter for the OpenAI-compatible family: the translations of
  \<^verbatim>\<open>src/src/adapters/openai-compat/translate.ts\<close> and the calls of
  \<^verbatim>\<open>src/src/adapters/openai-compat/index.ts\<close>. The URL parser, the URL encoder and the words of the schema
  library for an issue are arguments, and so is the network: a body or an error for a plain call, the
  payloads of the event stream and how it ended for a streamed one. A count on the wire is read as
  an integer. The lemmas show that requests and responses survive the trip through the wire shape
  that the gateway itself speaks.
\<close>

section \<open>Flavor and model name\<close>

datatype flavor = Fl_openai | Fl_azure | Fl_ollama | Fl_groq | Fl_deepseek | Fl_generic

definition detectFlavor :: "(string \<Rightarrow> string option) \<Rightarrow> string \<Rightarrow> flavor" where
  "detectFlavor url_host baseUrl =
     (let host = to_lower (nullish (url_host baseUrl) [])
      in if ends_with ''azure.com'' host \<or> includes_str ''.openai.azure.'' host then Fl_azure
         else if host = ''api.openai.com'' then Fl_openai
         else if host = ''api.groq.com'' then Fl_groq
         else if host = ''api.deepseek.com'' then Fl_deepseek
         else if includes_str ''11434'' host \<or> includes_str ''ollama'' host \<or> includes_str ''vibellm'' host
         then Fl_ollama else Fl_generic)"

definition providerModelName :: "string \<Rightarrow> (string \<times> string) list option \<Rightarrow> string" where
  "providerModelName canonical mapping =
     (case Option.bind mapping (\<lambda>m. map_of m canonical) of
        Some (c # cs) \<Rightarrow> c # cs
      | _ \<Rightarrow>
          (case dropWhile (\<lambda>c. c \<noteq> CHR ''/'') canonical of
             [] \<Rightarrow> canonical
           | _ # rest \<Rightarrow> rest))"

section \<open>Requests\<close>

fun part_wire :: "content_part \<Rightarrow> json" where
  "part_wire (TextPart t) = JObj [(''type'', JStr ''text''), (''text'', JStr t)]"
| "part_wire (ImagePart u) = JObj [(''type'', JStr ''image_url''), (''image_url'', JObj [(''url'', JStr u)])]"

definition message_wire :: "ai_message \<Rightarrow> json" where
  "message_wire m =
     (let calls = nullish (m_toolCalls m) [];
          content = (case m_content m of CText s \<Rightarrow> JStr s | CParts ps \<Rightarrow> JArr (map part_wire ps))
      in JObj ([(''role'', JStr (role_name (m_role m))),
                (''content'', if calls \<noteq> [] \<and> content = JStr [] then JNull else content)]
               @ (if calls \<noteq> [] then [(''tool_calls'', JArr (map tool_call_wire calls))] else [])
               @ (case m_toolCallId m of Some (c # cs) \<Rightarrow> [(''tool_call_id'', JStr (c # cs))] | _ \<Rightarrow> [])))"

definition opt_wire :: "string \<Rightarrow> json option \<Rightarrow> (string \<times> json) list" where
  "opt_wire k v = (case v of None \<Rightarrow> [] | Some j \<Rightarrow> [(k, j)])"

definition tool_wire :: "tool_def \<Rightarrow> json" where
  "tool_wire t =
     JObj [(''type'', JStr ''function''),
           (''function'', JObj ([(''name'', JStr (td_name t))] @ opt_wire ''description'' (map_option JStr (td_description t))
                                @ opt_wire ''parameters'' (td_parameters t)))]"

fun tool_choice_wire :: "tool_choice \<Rightarrow> json" where
  "tool_choice_wire ChooseAuto = JStr ''auto''"
| "tool_choice_wire ChooseNone = JStr ''none''"
| "tool_choice_wire ChooseRequired = JStr ''required''"
| "tool_choice_wire (ChooseName n) = JObj [(''type'', JStr ''function''), (''function'', JObj [(''name'', JStr n)])]"

fun response_format_wire :: "response_format \<Rightarrow> json" where
  "response_format_wire RFText = JObj [(''type'', JStr ''text'')]"
| "response_format_wire RFJsonObject = JObj [(''type'', JStr ''json_object'')]"
| "response_format_wire (RFJsonSchema n sc st va) =
     JObj [(''type'', JStr ''json_schema''),
           (''json_schema'', JObj ([(''name'', JStr n)] @ opt_wire ''schema'' sc @ opt_wire ''strict'' (map_option JBool st)))]"

definition non_empty :: "'a list option \<Rightarrow> 'a list option" where
  "non_empty xs = (case xs of Some (y # ys) \<Rightarrow> Some (y # ys) | _ \<Rightarrow> None)"

definition buildRequestBody :: "ai_request \<Rightarrow> string \<Rightarrow> flavor \<Rightarrow> json" where
  "buildRequestBody env model fl =
     JObj ([(''model'', JStr model), (''messages'', JArr (map message_wire (messages env))),
            (''stream'', JBool (stream env))]
           @ (if stream env \<and> fl \<noteq> Fl_ollama then [(''stream_options'', JObj [(''include_usage'', JBool True)])] else [])
           @ opt_wire ''max_tokens'' (map_option (\<lambda>n. JNum (of_int n)) (maxTokens env))
           @ opt_wire ''temperature'' (map_option JNum (temperature env))
           @ opt_wire ''top_p'' (map_option JNum (topP env))
           @ opt_wire ''stop'' (map_option (\<lambda>ss. JArr (map JStr ss)) (non_empty (stop env)))
           @ opt_wire ''tools'' (map_option (\<lambda>ts. JArr (map tool_wire ts)) (non_empty (tools env)))
           @ opt_wire ''tool_choice'' (map_option tool_choice_wire (toolChoice env))
           @ opt_wire ''response_format'' (map_option response_format_wire (responseFormat env)))"

text \<open>\<open>replace(/\/+$/, '')\<close>\<close>

definition strip_slashes :: "string \<Rightarrow> string" where
  "strip_slashes s = rev (dropWhile (\<lambda>c. c = CHR ''/'') (rev s))"

definition strip_suffix :: "string \<Rightarrow> string \<Rightarrow> string" where
  "strip_suffix suf s = (if ends_with suf s then take (length s - length suf) s else s)"

text \<open>An Azure base URL as its origin, its path and its \<open>api-version\<close> parameter.\<close>

definition buildUrl ::
    "(string \<Rightarrow> (string \<times> string \<times> string option) option) \<Rightarrow> (string \<Rightarrow> string) \<Rightarrow> string \<Rightarrow> string \<Rightarrow> flavor
      \<Rightarrow> (thrown, string) result" where
  "buildUrl url_parts encode baseUrl model fl =
     (let base = strip_slashes baseUrl
      in if fl = Fl_azure
         then
           (case url_parts base of
              None \<Rightarrow> Inl (OtherError ''Invalid URL'')
            | Some (origin, pathname, version) \<Rightarrow>
                Inr (origin @ strip_suffix ''/openai'' (strip_slashes pathname) @ ''/openai/deployments/'' @ encode model
                     @ ''/chat/completions?api-version='' @ nullish version ''2024-10-21''))
         else Inr (base @ ''/chat/completions''))"

definition buildHeaders :: "string option \<Rightarrow> flavor \<Rightarrow> (string \<times> string) list" where
  "buildHeaders apiKey fl =
     (case apiKey of
        Some (c # cs) \<Rightarrow> if fl = Fl_azure then [(''api-key'', c # cs)] else [(''authorization'', ''Bearer '' @ c # cs)]
      | _ \<Rightarrow> [])"

section \<open>Responses\<close>

definition FINISH_REASONS :: "(string \<times> finish_reason) list" where
  "FINISH_REASONS =
     [(''stop'', FStop), (''length'', FLength), (''tool_calls'', FToolCalls), (''function_call'', FToolCalls),
      (''content_filter'', FContentFilter), (''eos'', FStop), (''end_turn'', FStop), (''max_tokens'', FLength),
      (''insufficient_system_resource'', FError)]"

definition normalizeFinishReason :: "string option \<Rightarrow> finish_reason" where
  "normalizeFinishReason raw =
     (case raw of Some (c # cs) \<Rightarrow> nullish (map_of FINISH_REASONS (c # cs)) FStop | _ \<Rightarrow> FStop)"

fun z_count :: "int reader" where
  "z_count (JNum x) = Some (floor x)"
| "z_count _ = None"

fun z_object :: "(json \<Rightarrow> 'a option) \<Rightarrow> 'a reader" where
  "z_object f (JObj ms) = f (JObj ms)"
| "z_object f _ = None"

record wire_usage =
  wu_prompt_tokens :: "int option"
  wu_completion_tokens :: "int option"
  wu_cached_tokens :: "int option"
  wu_prompt_cache_hit_tokens :: "int option"

definition usageSchema :: "wire_usage reader" where
  "usageSchema = z_object (\<lambda>v.
     (case (z_optional ''prompt_tokens'' z_count v, z_optional ''completion_tokens'' z_count v,
            z_nullish ''prompt_tokens_details'' (z_object (z_optional ''cached_tokens'' z_count)) v,
            z_optional ''prompt_cache_hit_tokens'' z_count v) of
        (Some p, Some c, Some d, Some h) \<Rightarrow>
          Some \<lparr>wu_prompt_tokens = p, wu_completion_tokens = c, wu_cached_tokens = Option.bind d id,
                wu_prompt_cache_hit_tokens = h\<rparr>
      | _ \<Rightarrow> None))"

record wire_choice =
  wc_content :: "string option"
  wc_tool_calls :: "(string option \<times> string \<times> string) list option"
  wc_finish_reason :: "string option"

definition response_call :: "(string option \<times> string \<times> string) reader" where
  "response_call = z_object (\<lambda>v.
     (case (z_optional ''id'' z_string v, Option.bind (jget v ''function'') (z_required ''name'' z_string),
            Option.bind (jget v ''function'') (z_required ''arguments'' z_string)) of
        (Some i, Some n, Some a) \<Rightarrow> Some (i, n, a)
      | _ \<Rightarrow> None))"

definition choiceSchema :: "wire_choice reader" where
  "choiceSchema v =
     (case z_required ''message'' (z_object (\<lambda>m.
             case (z_nullish ''content'' z_string m, z_nullish ''tool_calls'' (z_array response_call) m) of
               (Some c, Some t) \<Rightarrow> Some (c, t)
             | _ \<Rightarrow> None)) v of
        None \<Rightarrow> None
      | Some (c, t) \<Rightarrow>
          (case z_nullish ''finish_reason'' z_string v of
             None \<Rightarrow> None
           | Some f \<Rightarrow> Some \<lparr>wc_content = c, wc_tool_calls = t, wc_finish_reason = f\<rparr>))"

definition completionSchema :: "(wire_choice list \<times> wire_usage option) reader" where
  "completionSchema v =
     (case (z_required ''choices'' (z_array choiceSchema) v, z_nullish ''usage'' usageSchema v) of
        (Some (c # cs), Some u) \<Rightarrow> Some (c # cs, u)
      | _ \<Rightarrow> None)"

definition extractUsage :: "wire_usage option \<Rightarrow> ai_usage" where
  "extractUsage raw =
     (case raw of
        None \<Rightarrow> EMPTY_USAGE\<lparr>estimated := True\<rparr>
      | Some u \<Rightarrow>
          if wu_prompt_tokens u = None \<and> wu_completion_tokens u = None then EMPTY_USAGE\<lparr>estimated := True\<rparr>
          else
            (let cached = nullish (wu_cached_tokens u) (nullish (wu_prompt_cache_hit_tokens u) 0)
             in \<lparr>promptTokens = max 0 (nullish (wu_prompt_tokens u) 0 - cached),
                 completionTokens = nullish (wu_completion_tokens u) 0,
                 cachedReadTokens = cached, cacheWriteTokens = 0, estimated = False\<rparr>))"

text \<open>Served metadata: model, provider id, latency.\<close>

type_synonym served_meta = "string \<times> string \<times> int"

definition number_calls :: "(string option \<times> string \<times> string) list \<Rightarrow> tool_call list" where
  "number_calls cs =
     map (\<lambda>(i, tc). \<lparr>tc_id = nullish (fst tc) (''call_'' @ show_nat i), tc_name = fst (snd tc), tc_arguments = snd (snd tc)\<rparr>)
       (enumerate 0 cs)"

definition malformed :: "string \<Rightarrow> router_error" where
  "malformed issue =
     RouterError provider_unavailable ''malformed provider response'' (Some [(''reason'', JStr issue)]) None"

definition translateResponse :: "(json \<Rightarrow> string) \<Rightarrow> json \<Rightarrow> served_meta \<Rightarrow> (router_error, ai_response) result" where
  "translateResponse zod_issue raw md =
     (case completionSchema raw of
        None \<Rightarrow> Inl (malformed (zod_issue raw))
      | Some (choices, u) \<Rightarrow>
          (case choices of
             [] \<Rightarrow> Inl (router_error0 provider_unavailable ''provider returned no choices'')
           | choice # _ \<Rightarrow>
               (let toolCalls = map_option number_calls (non_empty (wc_tool_calls choice))
                in Inr \<lparr>r_content = nullish (wc_content choice) [], r_toolCalls = toolCalls,
                        finishReason = (if toolCalls \<noteq> None \<and> wc_finish_reason choice \<in> {None, Some []} then FToolCalls
                                        else normalizeFinishReason (wc_finish_reason choice)),
                        usage = extractUsage u, served_model = fst md, served_providerId = fst (snd md),
                        served_latencyMs = snd (snd md), thinking = None\<rparr>)))"

section \<open>Streams\<close>

record wire_delta =
  dl_content :: "string option"
  dl_tool_calls :: "(int option \<times> string option \<times> string option \<times> string option) list"
  dl_finish_reason :: "string option"

text \<open>A tool-call fragment: index, id, name, arguments.\<close>

definition fragmentSchema :: "(int option \<times> string option \<times> string option \<times> string option) reader" where
  "fragmentSchema = z_object (\<lambda>v.
     (case (z_optional ''index'' z_count v, z_nullish ''id'' z_string v,
            z_nullish ''function'' (z_object (\<lambda>f.
              case (z_nullish ''name'' z_string f, z_nullish ''arguments'' z_string f) of
                (Some n, Some a) \<Rightarrow> Some (n, a) | _ \<Rightarrow> None)) v) of
        (Some i, Some d, Some f) \<Rightarrow>
          Some (i, d, Option.bind f fst, Option.bind f snd)
      | _ \<Rightarrow> None))"

definition deltaSchema :: "wire_delta reader" where
  "deltaSchema = z_object (\<lambda>v.
     (case (z_nullish ''delta'' (z_object (\<lambda>d.
              case (z_nullish ''content'' z_string d, z_nullish ''tool_calls'' (z_array fragmentSchema) d) of
                (Some c, Some t) \<Rightarrow> Some (c, t) | _ \<Rightarrow> None)) v,
            z_nullish ''finish_reason'' z_string v) of
        (Some d, Some f) \<Rightarrow>
          Some \<lparr>dl_content = Option.bind d fst, dl_tool_calls = nullish (Option.bind d snd) [], dl_finish_reason = f\<rparr>
      | _ \<Rightarrow> None))"

definition chunkSchema :: "(wire_delta option \<times> wire_usage option) reader" where
  "chunkSchema = z_object (\<lambda>v.
     (case (z_optional ''choices'' (z_array deltaSchema) v, z_nullish ''usage'' usageSchema v) of
        (Some cs, Some u) \<Rightarrow> Some (case cs of Some (c # _) \<Rightarrow> Some c | _ \<Rightarrow> None, u)
      | _ \<Rightarrow> None))"

record openai_stream_state =
  os_started :: "(int, bool) jsmap"
  os_nextImplicitIndex :: int
  os_indexMap :: "(int, int) jsmap"

definition stream_state_new :: openai_stream_state where
  "stream_state_new = \<lparr>os_started = [], os_nextImplicitIndex = 0, os_indexMap = []\<rparr>"

definition resolveIndex :: "int option \<Rightarrow> bool \<Rightarrow> openai_stream_state \<Rightarrow> int \<times> openai_stream_state" where
  "resolveIndex rawIndex isStart st =
     (case rawIndex of
        Some i \<Rightarrow>
          (case map_get (os_indexMap st) i of
             Some j \<Rightarrow> (j, st)
           | None \<Rightarrow> (i, st\<lparr>os_indexMap := map_set i i (os_indexMap st)\<rparr>))
      | None \<Rightarrow>
          (let st1 = (if isStart then st\<lparr>os_nextImplicitIndex := int (length (os_started st))\<rparr> else st)
           in (os_nextImplicitIndex st1, st1)))"

definition handle_fragment ::
    "int option \<times> string option \<times> string option \<times> string option \<Rightarrow> stream_chunk list \<times> openai_stream_state
      \<Rightarrow> stream_chunk list \<times> openai_stream_state" where
  "handle_fragment tc acc =
     (let (rawIndex, i, name, args) = tc;
          isStart = (name \<noteq> None);
          (index, st1) = resolveIndex rawIndex isStart (snd acc);
          fresh = (map_get (os_started st1) index \<noteq> Some True \<and> isStart);
          st2 = (if fresh then st1\<lparr>os_started := map_set index True (os_started st1)\<rparr> else st1)
      in (fst acc
          @ (if fresh then [ToolCallStart (nat index) (nullish i (''call_'' @ show_int index)) (the name)] else [])
          @ (case args of Some (c # cs) \<Rightarrow> [ToolCallDelta (nat index) (c # cs)] | _ \<Rightarrow> []), st2))"

text \<open>\<open>last.usage = ...\<close> on the finish just pushed.\<close>

definition attach_usage :: "ai_usage \<Rightarrow> stream_chunk list \<Rightarrow> stream_chunk list" where
  "attach_usage u out =
     (case out of
        [] \<Rightarrow> []
      | _ \<Rightarrow> (case last out of Finish f _ \<Rightarrow> butlast out @ [Finish f (Some u)] | _ \<Rightarrow> out))"

definition handle :: "json \<Rightarrow> openai_stream_state \<Rightarrow> stream_chunk list \<times> openai_stream_state" where
  "handle raw st =
     (case chunkSchema raw of
        None \<Rightarrow> ([], st)
      | Some (choice, u) \<Rightarrow>
          (let content = Option.bind choice (\<lambda>c. non_empty (dl_content c));
               calls = (case choice of None \<Rightarrow> [] | Some c \<Rightarrow> dl_tool_calls c);
               finish = Option.bind choice (\<lambda>c. non_empty (dl_finish_reason c));
               out0 = (case content of None \<Rightarrow> [] | Some t \<Rightarrow> [TextDelta t]);
               (out1, st1) = fold handle_fragment calls (out0, st);
               out2 = out1 @ (case finish of None \<Rightarrow> [] | Some f \<Rightarrow> [Finish (normalizeFinishReason (Some f)) None]);
               hasUsage = (case u of None \<Rightarrow> False | Some us \<Rightarrow> wu_prompt_tokens us \<noteq> None);
               isUsageOnly = (content = None \<and> finish = None \<and> calls = [])
           in (if hasUsage \<and> isUsageOnly then out2 @ [Finish FStop (Some (extractUsage u))]
               else if hasUsage \<and> finish \<noteq> None then attach_usage (extractUsage u) out2
               else out2, st1)))"

definition translateStreamChunk :: "json \<Rightarrow> stream_chunk list" where
  "translateStreamChunk raw = fst (handle raw stream_state_new)"

section \<open>Errors and estimates\<close>

text \<open>What an adapter may catch.\<close>

datatype adapter_error =
    AE_Router router_error
  | AE_Http int string "rat option"
  | AE_Timeout
  | AE_Abort
  | AE_Type string
  | AE_Error string
  | AE_Other

definition http_code :: "int \<Rightarrow> string \<Rightarrow> error_code" where
  "http_code st bodyText =
     (let body = to_lower bodyText
      in if st = 401 \<or> st = 403 then auth_error
         else if st = 429 then rate_limited
         else if st = 400 \<and> (includes_str ''context_length'' body \<or> includes_str ''context length'' body
                              \<or> includes_str ''maximum context'' body)
         then context_exceeded
         else if st = 400 \<and> includes_str ''content_filter'' body then content_filtered
         else provider_unavailable)"

fun mapProviderError :: "adapter_error \<Rightarrow> router_error" where
  "mapProviderError (AE_Router e) = e"
| "mapProviderError (AE_Http st body ra) =
     RouterError (http_code st body) (''provider error (HTTP '' @ show_int st @ '')'')
       (Some [(''providerStatus'', JNum (of_int st)), (''providerBody'', JStr (take 500 body))]) ra"
| "mapProviderError AE_Timeout = router_error0 provider_unavailable ''provider request timed out''"
| "mapProviderError AE_Abort = router_error0 unknown ''request aborted''"
| "mapProviderError (AE_Type m) =
     RouterError provider_unavailable ''provider unreachable'' (Some [(''reason'', JStr m)]) None"
| "mapProviderError (AE_Error m) = router_error0 unknown m"
| "mapProviderError AE_Other = router_error0 unknown ''adapter failure''"

text \<open>\<open>Math.ceil(n / 4)\<close>\<close>

definition ceil4 :: "nat \<Rightarrow> int" where
  "ceil4 n = (int n + 3) div 4"

definition estimateUsage :: "ai_request \<Rightarrow> string \<Rightarrow> ai_usage" where
  "estimateUsage env completionText =
     (let promptChars = length (json_stringify (JArr (map message_json (messages env))))
      in \<lparr>promptTokens = max 1 (ceil4 promptChars),
          completionTokens = max (if completionText \<noteq> [] then 1 else 0) (ceil4 (length completionText)),
          cachedReadTokens = 0, cacheWriteTokens = 0, estimated = True\<rparr>)"

section \<open>The adapter\<close>

record translated_request =
  tq_url :: string
  tq_headers :: "(string \<times> string) list"
  tq_body :: json

text \<open>The parts of an execution context the adapter reads, and the library functions it uses.\<close>

record openai_env =
  oe_url_host :: "string \<Rightarrow> string option"
  oe_url_parts :: "string \<Rightarrow> (string \<times> string \<times> string option) option"
  oe_encode :: "string \<Rightarrow> string"
  oe_zod_issue :: "json \<Rightarrow> string"

definition translateRequest ::
    "openai_env \<Rightarrow> ai_request \<Rightarrow> string \<Rightarrow> string \<Rightarrow> string option \<Rightarrow> (string \<times> string) list option
      \<Rightarrow> (thrown, translated_request) result" where
  "translateRequest oe env canonical baseUrl apiKey mapping =
     (let fl = detectFlavor (oe_url_host oe) baseUrl;
          model = providerModelName canonical mapping
      in rbind (buildUrl (oe_url_parts oe) (oe_encode oe) baseUrl model fl) (\<lambda>u.
           Inr \<lparr>tq_url = u, tq_headers = buildHeaders apiKey fl, tq_body = buildRequestBody env model fl\<rparr>))"

text \<open>The part of \<open>execute\<close> after the network answered.\<close>

definition execute_answer ::
    "openai_env \<Rightarrow> ai_request \<Rightarrow> served_meta \<Rightarrow> (adapter_error, json) result \<Rightarrow> (router_error, ai_response) result" where
  "execute_answer oe env md answer =
     (case answer of
        Inl err \<Rightarrow> Inl (mapProviderError err)
      | Inr raw \<Rightarrow>
          (case translateResponse (oe_zod_issue oe) raw md of
             Inl e \<Rightarrow> Inl e
           | Inr res \<Rightarrow>
               Inr (if estimated (usage res) then res\<lparr>usage := estimateUsage env (r_content res)\<rparr> else res)))"

text \<open>The loop of \<open>executeStream\<close> over the chunks of one payload: what is yielded, the finish held back,
  whether usage was seen, the text so far.\<close>

fun relay_chunk ::
    "stream_chunk \<Rightarrow> stream_chunk list \<times> finish_reason option \<times> bool \<times> string
      \<Rightarrow> stream_chunk list \<times> finish_reason option \<times> bool \<times> string" where
  "relay_chunk (Finish f (Some u)) (out, held, saw, txt) = (out @ [Finish (nullish held f) (Some u)], held, True, txt)"
| "relay_chunk (Finish f None) (out, held, saw, txt) = (out, Some f, saw, txt)"
| "relay_chunk (TextDelta d) (out, held, saw, txt) = (out @ [TextDelta d], held, saw, txt @ d)"
| "relay_chunk c (out, held, saw, txt) = (out @ [c], held, saw, txt)"

fun relay_payloads ::
    "string list \<Rightarrow> openai_stream_state \<Rightarrow> stream_chunk list \<times> finish_reason option \<times> bool \<times> string
      \<Rightarrow> stream_chunk list \<times> finish_reason option \<times> bool \<times> string" where
  "relay_payloads [] st acc = acc"
| "relay_payloads (p # ps) st acc =
     (if p = ''[DONE]'' then acc
      else
        (case json_parse p of
           None \<Rightarrow> relay_payloads ps st acc
         | Some raw \<Rightarrow>
             (let (cs, st1) = handle raw st in relay_payloads ps st1 (fold relay_chunk cs acc))))"

text \<open>\<open>executeStream\<close>: the chunks it yields and the error it ends with, if any.\<close>

definition adapter_stream ::
    "ai_request \<Rightarrow> string list \<times> adapter_error option \<Rightarrow> stream_chunk list \<times> router_error option" where
  "adapter_stream env net =
     (let (out, held, saw, txt) = relay_payloads (fst net) stream_state_new ([], None, False, [])
      in case (if ''[DONE]'' \<in> set (fst net) then None else snd net) of
           Some err \<Rightarrow> (out, Some (mapProviderError err))
         | None \<Rightarrow>
             (if saw then out else out @ [Finish (nullish held FStop) (Some (estimateUsage env txt))], None))"

section \<open>Lemmas\<close>

lemmas z_defs = z_optional_def z_nullish_def z_required_def z_literal_def obj_get_def

lemma z_all_map: "(\<And>x. x \<in> set xs \<Longrightarrow> f (g x) = Some (h x)) \<Longrightarrow> z_all f (map g xs) = Some (map h xs)"
  by (induction xs) auto

lemma response_call_wire: "response_call (tool_call_wire tc) = Some (Some (tc_id tc), tc_name tc, tc_arguments tc)"
  by (simp add: response_call_def tool_call_wire_def z_defs)

lemma number_calls_given:
  "number_calls (map (\<lambda>tc. (Some (tc_id tc), tc_name tc, tc_arguments tc)) cs) = cs"
proof -
  have eta: "\<lparr>tc_id = tc_id tc, tc_name = tc_name tc, tc_arguments = tc_arguments tc\<rparr> = tc" for tc :: tool_call
    by (cases tc) simp
  have "number_calls (map (\<lambda>tc. (Some (tc_id tc), tc_name tc, tc_arguments tc)) cs) = map snd (zip [0..<length cs] cs)"
    unfolding number_calls_def by (simp add: enumerate_eq_zip zip_map2 case_prod_beta comp_def eta)
  then show ?thesis
    by simp
qed

lemma non_empty_simps [simp]: "non_empty None = None" "non_empty (Some xs) = (if xs = [] then None else Some xs)"
  by (simp_all add: non_empty_def split: list.splits)

lemma non_empty_not_Nil [simp]: "non_empty x \<noteq> Some []"
  by (cases x) simp_all

lemma z_nullish_given: "jget v k = Some w \<Longrightarrow> w \<noteq> JNull \<Longrightarrow> f w = Some x \<Longrightarrow> z_nullish k f v = Some (Some x)"
  by (cases w) (simp_all add: z_nullish_def)

text \<open>The wire form of a usage read back: the disjoint counts, with the cache writes counted as prompt.\<close>

definition folded_usage :: "ai_usage \<Rightarrow> ai_usage" where
  "folded_usage u = u\<lparr>promptTokens := promptTokens u + cacheWriteTokens u, cacheWriteTokens := 0, estimated := False\<rparr>"

definition counts_ok :: "ai_usage \<Rightarrow> bool" where
  "counts_ok u \<longleftrightarrow> 0 \<le> promptTokens u \<and> 0 \<le> cachedReadTokens u \<and> 0 \<le> cacheWriteTokens u"

lemma usage_wire:
  assumes "counts_ok u"
  shows "\<exists>wu. usageSchema (toOpenAiUsage u) = Some wu \<and> wu_prompt_tokens wu \<noteq> None \<and> extractUsage (Some wu) = folded_usage u"
  using assms
  by (cases u) (auto simp: usageSchema_def toOpenAiUsage_def z_defs extractUsage_def folded_usage_def counts_ok_def Let_def)

lemma usage_not_null: "toOpenAiUsage u \<noteq> JNull"
  by (simp add: toOpenAiUsage_def Let_def)

fun relabel :: "finish_reason \<Rightarrow> finish_reason" where
  "relabel FError = FStop"
| "relabel f = f"

lemma normalize_FINISH_MAP: "normalizeFinishReason (Some (FINISH_MAP f)) = relabel f"
  by (cases f) (simp_all add: normalizeFinishReason_def FINISH_REASONS_def)

lemma FINISH_MAP_not_Nil [simp]: "FINISH_MAP f \<noteq> []"
  by (cases f) simp_all

text \<open>
  A response survives a trip through the OpenAI wire: reading back the completion object the gateway
  writes gives the same content, the same tool calls with their ids, the same finish reason (an
  \<open>error\<close> finish is written as \<open>stop\<close>) and the same counts, the cache writes now part of the prompt, so
  the total is kept. Only the served metadata is the reader's own and the thinking text is not sent.
\<close>

theorem response_roundtrip:
  assumes "counts_ok (usage res)"
  shows "translateResponse zod_issue (toChatCompletion now rid res) md =
    Inr \<lparr>r_content = r_content res, r_toolCalls = non_empty (r_toolCalls res), finishReason = relabel (finishReason res),
         usage = folded_usage (usage res), served_model = fst md, served_providerId = fst (snd md),
         served_latencyMs = snd (snd md), thinking = None\<rparr>"
proof -
  obtain wu where wu: "usageSchema (toOpenAiUsage (usage res)) = Some wu" "extractUsage (Some wu) = folded_usage (usage res)"
    using usage_wire [OF assms] by blast
  have field: "z_nullish ''usage'' usageSchema (toChatCompletion now rid res) = Some (Some wu)"
    by (rule z_nullish_given [where w = "toOpenAiUsage (usage res)"])
       (simp_all add: usage_not_null wu toChatCompletion_def obj_get_def)
  define cs where "cs = nullish (r_toolCalls res) []"
  have ne: "non_empty (r_toolCalls res) = (if cs = [] then None else Some cs)"
    by (cases "r_toolCalls res") (auto simp: cs_def non_empty_def split: list.splits)
  have calls: "z_all response_call (map tool_call_wire cs) = Some (map (\<lambda>tc. (Some (tc_id tc), tc_name tc, tc_arguments tc)) cs)"
    by (rule z_all_map) (simp add: response_call_wire)
  have choice: "choiceSchema (JObj [(''index'', JNum 0), (''message'', completion_message res),
      (''finish_reason'', JStr (FINISH_MAP (finishReason res))), (''logprobs'', JNull)])
    = Some \<lparr>wc_content = (if r_content res = [] \<and> cs \<noteq> [] then None else Some (r_content res)),
            wc_tool_calls = (if cs = [] then None else Some (map (\<lambda>tc. (Some (tc_id tc), tc_name tc, tc_arguments tc)) cs)),
            wc_finish_reason = Some (FINISH_MAP (finishReason res))\<rparr>"
    by (auto simp: choiceSchema_def completion_message_def Let_def z_defs calls cs_def [symmetric])
  have "completionSchema (toChatCompletion now rid res) =
      Some ([\<lparr>wc_content = (if r_content res = [] \<and> cs \<noteq> [] then None else Some (r_content res)),
              wc_tool_calls = (if cs = [] then None else Some (map (\<lambda>tc. (Some (tc_id tc), tc_name tc, tc_arguments tc)) cs)),
              wc_finish_reason = Some (FINISH_MAP (finishReason res))\<rparr>], Some wu)"
    unfolding completionSchema_def field by (simp add: toChatCompletion_def z_required_def obj_get_def choice)
  then show ?thesis
    by (simp add: translateResponse_def Let_def normalize_FINISH_MAP ne wu number_calls_given)
qed

definition ex_reply :: ai_response where
  "ex_reply = \<lparr>r_content = ''hi'', r_toolCalls = Some [\<lparr>tc_id = ''c1'', tc_name = ''f'', tc_arguments = ''{}''\<rparr>],
     finishReason = FToolCalls, usage = \<lparr>promptTokens = 7, completionTokens = 2, cachedReadTokens = 3, cacheWriteTokens = 1,
     estimated = False\<rparr>, served_model = ''m'', served_providerId = ''p'', served_latencyMs = 5, thinking = None\<rparr>"

theorem response_roundtrip_witness:
  "\<exists>res. translateResponse (\<lambda>_. []) (toChatCompletion 0 ''r'' ex_reply) (''m2'', ''p2'', 9) = Inr res
     \<and> r_content res = ''hi'' \<and> r_toolCalls res = r_toolCalls ex_reply \<and> promptTokens (usage res) = 8"
  using response_roundtrip [of ex_reply "\<lambda>_. []" 0 "''r''" "(''m2'', ''p2'', 9)"]
  by (simp add: ex_reply_def counts_ok_def folded_usage_def)

section \<open>Requests read back\<close>

definition normal_message :: "ai_message \<Rightarrow> ai_message" where
  "normal_message m = m\<lparr>m_toolCalls := non_empty (m_toolCalls m), m_toolCallId := non_empty (m_toolCallId m)\<rparr>"

fun drop_validation :: "response_format \<Rightarrow> response_format" where
  "drop_validation (RFJsonSchema n sc st va) = RFJsonSchema n sc st None"
| "drop_validation rf = rf"

text \<open>An envelope up to what the wire does not distinguish: empty lists and texts are absent ones, and the
  router's own \<open>validation\<close> is not sent.\<close>

definition normal_envelope :: "string \<Rightarrow> ai_request \<Rightarrow> ai_request" where
  "normal_envelope model env =
     env\<lparr>messages := map normal_message (messages env), tools := non_empty (tools env), stop := non_empty (stop env),
         responseFormat := map_option drop_validation (responseFormat env), modelRequested := Some model\<rparr>"

definition wire_ok :: "ai_request \<Rightarrow> bool" where
  "wire_ok env \<longleftrightarrow> messages env \<noteq> [] \<and> (\<forall>n. maxTokens env = Some n \<longrightarrow> 0 < n)
     \<and> (\<forall>x. temperature env = Some x \<longrightarrow> 0 \<le> x \<and> x \<le> 2) \<and> (\<forall>x. topP env = Some x \<longrightarrow> 0 \<le> x \<and> x \<le> 1)"

lemma part_back: "contentPartSchema (part_wire p) = Some p"
  by (cases p) (simp_all add: contentPartSchema_def z_defs)

lemma call_back: "wire_tool_call (tool_call_wire tc) = Some tc"
  by (cases tc) (simp add: wire_tool_call_def tool_call_wire_def z_defs)

lemma calls_back: "z_all wire_tool_call (map tool_call_wire cs) = Some cs"
  using z_all_map [of cs wire_tool_call tool_call_wire id] by (simp add: call_back)

lemma parts_back: "z_all contentPartSchema (map part_wire ps) = Some ps"
  using z_all_map [of ps contentPartSchema part_wire id] by (simp add: part_back)

lemma strings_back: "z_all z_string (map JStr ss) = Some ss"
  using z_all_map [of ss z_string JStr id] by simp

lemma tool_back: "wire_tool (tool_wire t) = Some t"
  by (cases t) (auto simp: wire_tool_def tool_wire_def opt_wire_def z_defs z_unknown_def split: option.splits)

lemma tools_back: "z_all wire_tool (map tool_wire ts) = Some ts"
  using z_all_map [of ts wire_tool tool_wire id] by (simp add: tool_back)

lemma tool_choice_back: "wire_tool_choice (tool_choice_wire c) = Some c"
  by (cases c) (simp_all add: z_defs)

lemma response_format_back: "wire_response_format (response_format_wire rf) = Some (drop_validation rf)"
  by (cases rf) (auto simp: wire_response_format_def opt_wire_def z_defs z_unknown_def split: option.splits)

lemma role_back: "\<exists>w. wire_role_of (JStr (role_name r)) = Some w \<and> role_of_wire w = r"
  by (cases r) simp_all

lemma message_fields:
  "z_optional ''tool_calls'' (z_array wire_tool_call) (message_wire m) = Some (non_empty (m_toolCalls m))"
  "z_optional ''tool_call_id'' z_string (message_wire m) = Some (non_empty (m_toolCallId m))"
  "z_optional ''name'' z_string (message_wire m) = Some None"
  by (cases "m_toolCalls m"; cases "m_toolCallId m";
      auto simp: message_wire_def Let_def z_defs calls_back split: list.splits)+

lemma message_content:
  "\<exists>c. z_optional ''content'' wire_content_of (message_wire m) = Some (Some c) \<and> content_of_wire c = m_content m"
  by (cases "m_content m") (auto simp: message_wire_def Let_def z_defs parts_back)

lemma message_back: "\<exists>wm. messageSchema (message_wire m) = Some wm \<and> message_of_wire wm = normal_message m"
proof -
  obtain w where w: "wire_role_of (JStr (role_name (m_role m))) = Some w" "role_of_wire w = m_role m"
    using role_back by blast
  obtain c where c: "z_optional ''content'' wire_content_of (message_wire m) = Some (Some c)" "content_of_wire c = m_content m"
    using message_content by blast
  have "z_required ''role'' wire_role_of (message_wire m) = Some w"
    using w by (simp add: message_wire_def Let_def z_required_def obj_get_def del: wire_role_of.simps)
  with w c message_fields [of m] show ?thesis
    by (cases m) (auto simp: messageSchema_def message_of_wire_def normal_message_def)
qed

lemma messages_back:
  "\<exists>wms. z_all messageSchema (map message_wire ms) = Some wms \<and> map message_of_wire wms = map normal_message ms"
proof (induction ms)
  case (Cons m ms)
  then obtain wms where "z_all messageSchema (map message_wire ms) = Some wms" "map message_of_wire wms = map normal_message ms"
    by blast
  moreover obtain wm where "messageSchema (message_wire m) = Some wm" "message_of_wire wm = normal_message m"
    using message_back by blast
  ultimately show ?case
    by simp
qed simp

lemma member_back:
  assumes "\<And>x. v = Some x \<Longrightarrow> f (g x) = Some x" "jget body k = map_option g v"
  shows "z_optional k f body = Some v"
  using assms by (cases v) (simp_all add: z_optional_def)

text \<open>Looking a member up in a body built from optional members.\<close>

lemma map_of_opt_wire: "map_of (opt_wire k v) = (\<lambda>k'. if k' = k then v else None)"
  by (auto simp: opt_wire_def fun_eq_iff split: option.splits)

lemma case_Some_self [simp]: "(case x of None \<Rightarrow> None | Some y \<Rightarrow> Some y) = x"
  by (cases x) simp_all

lemmas body_lookup = map_of_opt_wire map_add_def

text \<open>
  A request survives the trip to another gateway: the body the adapter sends is accepted by the
  gateway's own schema and becomes the same envelope, for every envelope within the ranges the
  schema enforces. Only what the wire does not distinguish is lost: an empty list or id is an absent
  one, the provider's model name is the requested model, and the router's \<open>validation\<close> choice is not sent.
\<close>

theorem request_roundtrip:
  assumes "wire_ok env"
  shows "\<exists>body. openAiChatBodySchema (buildRequestBody env model fl) = Some body
    \<and> envelope_of_body body (taskClass env) (metadata env) = normal_envelope model env"
proof -
  let ?b = "buildRequestBody env model fl"
  obtain wms where wms: "z_all messageSchema (map message_wire (messages env)) = Some wms"
    "map message_of_wire wms = map normal_message (messages env)"
    using messages_back by blast
  have get: "jget ?b k = map_of ([(''model'', JStr model), (''messages'', JArr (map message_wire (messages env))),
      (''stream'', JBool (stream env))]
      @ (if stream env \<and> fl \<noteq> Fl_ollama then [(''stream_options'', JObj [(''include_usage'', JBool True)])] else [])
      @ opt_wire ''max_tokens'' (map_option (\<lambda>n. JNum (of_int n)) (maxTokens env))
      @ opt_wire ''temperature'' (map_option JNum (temperature env)) @ opt_wire ''top_p'' (map_option JNum (topP env))
      @ opt_wire ''stop'' (map_option (\<lambda>ss. JArr (map JStr ss)) (non_empty (stop env)))
      @ opt_wire ''tools'' (map_option (\<lambda>ts. JArr (map tool_wire ts)) (non_empty (tools env)))
      @ opt_wire ''tool_choice'' (map_option tool_choice_wire (toolChoice env))
      @ opt_wire ''response_format'' (map_option response_format_wire (responseFormat env))) k" for k
    by (simp add: buildRequestBody_def obj_get_def)
  have mt: "z_optional ''max_tokens'' z_positive_int ?b = Some (maxTokens env)"
    by (rule member_back [where g = "\<lambda>n. JNum (of_int n)"]) (use assms in \<open>auto simp: get body_lookup wire_ok_def split: option.split\<close>)
  have te: "z_optional ''temperature'' (z_number_in 0 2) ?b = Some (temperature env)"
    by (rule member_back [where g = JNum]) (use assms in \<open>auto simp: get body_lookup wire_ok_def split: option.split\<close>)
  have tp: "z_optional ''top_p'' (z_number_in 0 1) ?b = Some (topP env)"
    by (rule member_back [where g = JNum]) (use assms in \<open>auto simp: get body_lookup wire_ok_def split: option.split\<close>)
  have sp: "z_optional ''stop'' wire_stop ?b = Some (non_empty (stop env))"
    by (rule member_back [where g = "\<lambda>ss. JArr (map JStr ss)"]) (simp_all add: get body_lookup strings_back split: option.split)
  have ts: "z_optional ''tools'' (z_array wire_tool) ?b = Some (non_empty (tools env))"
    by (rule member_back [where g = "\<lambda>ts. JArr (map tool_wire ts)"]) (simp_all add: get body_lookup tools_back split: option.split)
  have tc: "z_optional ''tool_choice'' wire_tool_choice ?b = Some (toolChoice env)"
    by (rule member_back [where g = tool_choice_wire]) (simp_all add: get body_lookup tool_choice_back split: option.split)
  have rf: "z_optional ''response_format'' wire_response_format ?b = Some (map_option drop_validation (responseFormat env))"
    by (cases "responseFormat env") (simp_all add: z_optional_def get body_lookup response_format_back)
  have rest: "z_optional ''model'' z_string ?b = Some (Some model)" "z_optional ''stream'' z_boolean ?b = Some (Some (stream env))"
    "z_required ''messages'' (z_array messageSchema) ?b = Some wms"
    "z_optional ''max_completion_tokens'' z_positive_int ?b = Some None" "z_optional ''n'' z_positive_int ?b = Some None"
    "z_optional ''user'' z_string ?b = Some None"
    by (simp_all add: z_optional_def z_required_def get body_lookup wms)
  have "\<exists>so. z_optional ''stream_options'' wire_stream_options ?b = Some so"
    by (simp add: z_optional_def get body_lookup wire_stream_options_def obj_get_def)
  moreover have "wms \<noteq> []"
    using wms assms by (auto simp: wire_ok_def)
  ultimately show ?thesis
    using wms(2) by (auto simp: openAiChatBodySchema_def mt te tp sp ts tc rf rest envelope_of_body_def normal_envelope_def)
qed

definition ex_call :: ai_request where
  "ex_call = \<lparr>taskClass = ''t'', messages = [\<lparr>m_role = RUser, m_content = CParts [TextPart ''see''], m_toolCalls = Some [],
     m_toolCallId = None\<rparr>], tools = Some [], toolChoice = Some (ChooseName ''f''), responseFormat = None, maxTokens = Some 10,
     temperature = Some 1, topP = None, stop = Some [''x''], stream = True, modelRequested = None, metadata = example_md\<rparr>"

theorem request_roundtrip_witness:
  "\<exists>body. openAiChatBodySchema (buildRequestBody ex_call ''gpt'' Fl_openai) = Some body
     \<and> envelope_of_body body ''t'' example_md = normal_envelope ''gpt'' ex_call"
  using request_roundtrip [of ex_call "''gpt''" Fl_openai] by (simp add: ex_call_def wire_ok_def)

end
