(* ===== verification/Json_Roundtrip.thy ===== *)
theory Json_Roundtrip
  imports Json
begin

text \<open>
  Printing and parsing of JSON fit together: for values whose numbers are integers and whose objects
  have distinct keys, \<open>json_parse\<close> reads back what \<open>json_stringify\<close> wrote, with the fuel it supplies itself.
  The streams of the gateway and of the adapters rest on this.
\<close>

section \<open>Strings\<close>

lemma char_of_code [simp]: "char_of (char_code c) = c"
  by (simp add: char_code_def)

lemma char_code_bound: "char_code c < 256"
  by (simp add: char_code_def)

lemma char_code_char_of [simp]: "n < 256 \<Longrightarrow> char_code (char_of n) = n"
  by (simp add: char_code_def)

lemma hex_back: "k < 16 \<Longrightarrow> hex_val (hex_digit k) = Some k"
  by (simp add: hex_val_def hex_digit_def Let_def)

lemma char_eqI: "char_code c = char_code d \<Longrightarrow> c = d"
  by (metis char_of_code)

lemma quote_codes: "char_code dquote = 34" "char_code backslash = 92"
  by (simp_all add: dquote_def backslash_def char_code_def)

lemma quotes_differ [simp]: "backslash \<noteq> dquote" "dquote \<noteq> backslash"
  by (simp_all add: dquote_def backslash_def)

lemma string_plain:
  "char_code c \<ge> 32 \<Longrightarrow> c \<noteq> dquote \<Longrightarrow> c \<noteq> backslash \<Longrightarrow> p_string cs = Some (s, r) \<Longrightarrow> p_string (c # cs) = Some (c # s, r)"
  by simp

lemma string_escape:
  "simple_escape e = Some x \<Longrightarrow> e \<noteq> CHR ''u'' \<Longrightarrow> p_string es = Some (s, r) \<Longrightarrow> p_string (backslash # e # es) = Some (x # s, r)"
  by (simp add: quote_codes)

lemma string_unicode:
  assumes "n < 256" "p_string es = Some (s, r)"
  shows "p_string (backslash # CHR ''u'' # CHR ''0'' # CHR ''0'' # hex_digit (n div 16) # hex_digit (n mod 16) # es)
    = Some (char_of n # s, r)"
proof -
  have "hex_val CHR ''0'' = Some 0"
    by (simp add: hex_val_def char_code_def)
  moreover have "n div 16 < 16"
    using assms(1) by simp
  ultimately show ?thesis
    using assms by (simp add: quote_codes hex_back unit_char_def)
qed

lemma escape_back: "p_string es = Some (s, r) \<Longrightarrow> p_string (escape_char c @ es) = Some (c # s, r)"
proof -
  assume es: "p_string es = Some (s, r)"
  have esc: "p_string (backslash # e # es) = Some (c # s, r)" if "simple_escape e = Some c" "e \<noteq> CHR ''u''" for e
    by (rule string_escape [OF that es])
  have code: "char_of n = c" if "char_code c = n" for n
    using that by auto
  show ?thesis
  proof (cases "c = dquote \<or> c = backslash")
    case True
    then show ?thesis
      using esc [of c] by (auto simp: escape_char_def simple_escape_def) (simp_all add: dquote_def backslash_def)
  next
    case False
    show ?thesis
    proof (cases "char_code c \<ge> 32")
      case True
      with False es string_plain show ?thesis
        by (auto simp: escape_char_def)
    next
      case low: False
      note uni = string_unicode [OF char_code_bound [of c] es]
      have simple: "simple_escape CHR ''b'' = Some (char_of (8::nat))" "simple_escape CHR ''t'' = Some (char_of (9::nat))"
        "simple_escape CHR ''n'' = Some (char_of (10::nat))" "simple_escape CHR ''f'' = Some (char_of (12::nat))"
        "simple_escape CHR ''r'' = Some (char_of (13::nat))"
        by (simp_all add: simple_escape_def dquote_def backslash_def)
      consider "char_code c = 8" | "char_code c = 9" | "char_code c = 10" | "char_code c = 12" | "char_code c = 13"
        | "char_code c \<notin> {8, 9, 10, 12, 13}"
        by auto
      then show ?thesis
      proof cases
        case 1 with False code esc [of "CHR ''b''"] simple(1) show ?thesis by (simp add: escape_char_def)
      next
        case 2 with False code esc [of "CHR ''t''"] simple(2) show ?thesis by (simp add: escape_char_def)
      next
        case 3 with False code esc [of "CHR ''n''"] simple(3) show ?thesis by (simp add: escape_char_def)
      next
        case 4 with False code esc [of "CHR ''f''"] simple(4) show ?thesis by (simp add: escape_char_def)
      next
        case 5 with False code esc [of "CHR ''r''"] simple(5) show ?thesis by (simp add: escape_char_def)
      next
        case 6
        with False low have "escape_char c = [backslash, CHR ''u'', CHR ''0'', CHR ''0'',
            hex_digit (char_code c div 16), hex_digit (char_code c mod 16)]"
          by (simp add: escape_char_def)
        with uni show ?thesis
          by simp
      qed
    qed
  qed
qed

lemma string_back: "p_string (concat (map escape_char s) @ dquote # rest) = Some (s, rest)"
  by (induction s) (simp_all add: escape_back del: p_string.simps, simp)

section \<open>Integers\<close>

lemma is_digit_of: "k < 10 \<Longrightarrow> is_digit (char_of (48 + k)) \<and> digit_val (char_of (48 + k)) = k"
  by (simp add: is_digit_def digit_val_def)

lemma show_nat_digits: "\<forall>c\<in>set (show_nat n). is_digit c"
  by (induction n rule: show_nat.induct) (subst show_nat.simps, auto simp: is_digit_of)

lemma show_nat_not_Nil [simp]: "show_nat n \<noteq> []"
  by (subst show_nat.simps) simp

lemma digits_val_snoc: "digits_val (ds @ [d]) = digits_val ds * 10 + digit_val d"
  by (simp add: digits_val_def)

lemma digits_val_show: "digits_val (show_nat n) = n"
proof (induction n rule: show_nat.induct)
  case (1 n)
  show ?case
  proof (cases "n < 10")
    case True
    then show ?thesis
      by (simp add: show_nat.simps [of n] digits_val_def is_digit_of)
  next
    case False
    then have "digits_val (show_nat n) = digits_val (show_nat (n div 10)) * 10 + digit_val (char_of (48 + n mod 10))"
      by (simp add: show_nat.simps [of n] digits_val_snoc)
    with 1 False show ?thesis
      by (simp add: is_digit_of)
  qed
qed

lemma show_nat_head: "hd (show_nat n) = CHR ''0'' \<Longrightarrow> n = 0"
proof (induction n rule: show_nat.induct)
  case (1 n)
  show ?case
  proof (cases "n < 10")
    case True
    with 1(2) have "char_of (48 + n) = CHR ''0''"
      by (simp add: show_nat.simps [of n])
    then have "digit_val (char_of (48 + n)) = digit_val CHR ''0''"
      by simp
    with True show ?thesis
      by (simp add: is_digit_of) (simp add: digit_val_def char_code_def)
  next
    case False
    with 1(2) have "hd (show_nat (n div 10)) = CHR ''0''"
      by (simp add: show_nat.simps [of n])
    with 1(1) False show ?thesis
      by simp
  qed
qed

text \<open>What may follow a number.\<close>

definition stops_number :: "string \<Rightarrow> bool" where
  "stops_number r \<longleftrightarrow> (case r of [] \<Rightarrow> True | c # _ \<Rightarrow> \<not> is_digit c \<and> c \<noteq> CHR ''.'' \<and> c \<noteq> CHR ''e'' \<and> c \<noteq> CHR ''E'')"

lemma number_back:
  assumes "stops_number r"
  shows "p_number (show_num (of_int i) @ r) = Some (of_int i, r)"
proof -
  have take: "takeWhile is_digit (show_nat n @ r) = show_nat n" "dropWhile is_digit (show_nat n @ r) = r" for n
    using assms show_nat_digits [of n]
    by (cases r; simp add: stops_number_def takeWhile_append dropWhile_append)+
  have tail: "p_frac r = Some (0, r)" "p_exp r = Some (1, r)"
    using assms by (cases r; simp add: stops_number_def p_frac_def p_exp_def)+
  have lead: "\<not> (hd (show_nat n) = CHR ''0'' \<and> length (show_nat n) > 1)" for n
    using show_nat_head [of n] by (cases "n = 0") (auto simp: show_nat.simps [of 0])
  have digit: "show_nat n @ r = c # cs \<Longrightarrow> c \<noteq> CHR ''-''" for n c cs
    using show_nat_digits [of n] by (cases "show_nat n") (auto simp: is_digit_def char_code_def)
  have num: "show_num (of_int i) = (if i < 0 then ''-'' else []) @ show_nat (nat \<bar>i\<bar>)"
    by (simp add: show_num_def Let_def flip: of_int_abs)
  have unsigned: "(case show_nat n @ r of [] \<Rightarrow> (False, show_nat n @ r)
      | c # cs \<Rightarrow> if c = CHR ''-'' then (True, cs) else (False, show_nat n @ r)) = (False, show_nat n @ r)" for n
    using digit [of n] by (cases "show_nat n @ r") auto
  show ?thesis
  proof (cases "i < 0")
    case True
    with num take tail lead show ?thesis
      by (simp add: p_number_def Let_def digits_val_show)
  next
    case False
    with num have eq: "show_num (of_int i) = show_nat (nat i)"
      by simp
    show ?thesis
      unfolding eq p_number_def Let_def unsigned using False take tail lead by (simp add: digits_val_show)
  qed
qed

section \<open>Values\<close>

text \<open>Values whose printed form is faithful.\<close>

fun plain_json :: "json \<Rightarrow> bool" where
  "plain_json (JNum x) = (x = of_int (floor x))"
| "plain_json (JArr vs) = (\<forall>v\<in>set vs. plain_json v)"
| "plain_json (JObj ms) = (distinct (map fst ms) \<and> (\<forall>kv\<in>set ms. plain_json (snd kv)))"
| "plain_json _ = True"

definition starts_value :: "string \<Rightarrow> bool" where
  "starts_value s \<longleftrightarrow> (case s of [] \<Rightarrow> False | c # _ \<Rightarrow> \<not> is_json_ws c \<and> c \<noteq> CHR '']'' \<and> c \<noteq> CHR ''}'')"

lemma skip_start: "starts_value s \<Longrightarrow> skip_ws (s @ r) = s @ r"
  by (cases s) (simp_all add: starts_value_def skip_ws_def)

lemma show_num_head:
  "\<exists>c cs. show_num (of_int i) = c # cs \<and> (is_digit c \<or> c = CHR ''-'')"
proof -
  have num: "show_num (of_int i) = (if i < 0 then ''-'' else []) @ show_nat (nat \<bar>i\<bar>)"
    by (simp add: show_num_def Let_def flip: of_int_abs)
  show ?thesis
    using show_nat_digits [of "nat \<bar>i\<bar>"] by (cases "show_nat (nat \<bar>i\<bar>)") (auto simp: num)
qed

lemma digit_ne: "is_digit c \<or> c = CHR ''-'' \<Longrightarrow> c \<notin> {dquote, CHR ''['', CHR ''{'', CHR ''n'', CHR ''t'', CHR ''f'', CHR '']'', CHR ''}''} \<and> \<not> is_json_ws c"
  by (auto simp: is_digit_def is_json_ws_def char_code_def dquote_def)

lemma stringify_starts: "plain_json j \<Longrightarrow> starts_value (json_stringify j)"
proof (cases j)
  case (JNum x)
  assume "plain_json j"
  with JNum obtain i where x: "x = of_int i"
    by auto
  obtain c cs where "show_num (of_int i) = c # cs" "is_digit c \<or> c = CHR ''-''"
    using show_num_head by blast
  with JNum x digit_ne [of c] show ?thesis
    by (auto simp: starts_value_def)
qed (auto simp: starts_value_def is_json_ws_def char_code_def quote_str_def dquote_def)

lemma value_number:
  assumes "stops_number r"
  shows "p_value (Suc n) (show_num (of_int i) @ r) = Some (JNum (of_int i), r)"
proof -
  obtain c cs where num: "show_num (of_int i) = c # cs" and c: "is_digit c \<or> c = CHR ''-''"
    using show_num_head by blast
  have "p_number (c # cs @ r) = Some (of_int i, r)"
    using number_back [OF assms, of i] num by simp
  with digit_ne [OF c] num show ?thesis
    by (auto simp: skip_ws_def)
qed

lemma value_string: "p_value (Suc n) (quote_str s @ r) = Some (JStr s, r)"
  using string_back [of s r] by (simp add: quote_str_def skip_ws_def is_json_ws_def dquote_def char_code_def)

text \<open>What follows a value inside an array or object, or at the end.\<close>

definition ends_value :: "string \<Rightarrow> bool" where
  "ends_value r \<longleftrightarrow> (case r of [] \<Rightarrow> True | c # _ \<Rightarrow> c \<in> {CHR '','', CHR '']'', CHR ''}''})"

lemma ends_stops: "ends_value r \<Longrightarrow> stops_number r"
  by (cases r) (auto simp: ends_value_def stops_number_def is_digit_def char_code_def)

lemma elems_back:
  assumes "\<And>v n r. v \<in> set vs \<Longrightarrow> ends_value r \<Longrightarrow> n \<ge> 2 * length (json_stringify v) \<Longrightarrow>
      p_value n (json_stringify v @ r) = Some (v, r)"
    and "vs \<noteq> []" "n \<ge> 2 * length (join '','' (map json_stringify vs)) + 1"
  shows "p_elems n (join '','' (map json_stringify vs) @ CHR '']'' # rest) = Some (vs, rest)"
  using assms
proof (induction vs arbitrary: n)
  case (Cons v vs)
  from Cons.prems(3) obtain m where n: "n = Suc m"
    by (cases n) auto
  show ?case
  proof (cases vs)
    case Nil
    with Cons.prems n show ?thesis
      by (simp add: ends_value_def skip_ws_def is_json_ws_def char_code_def)
  next
    case (Cons u us)
    let ?tail = "CHR '','' # join '','' (map json_stringify (u # us)) @ CHR '']'' # rest"
    have "p_value m (json_stringify v @ ?tail) = Some (v, ?tail)"
      by (rule Cons.prems(1)) (use Cons.prems(3) n Cons in \<open>auto simp: ends_value_def\<close>)
    moreover have "p_elems m (join '','' (map json_stringify (u # us)) @ CHR '']'' # rest) = Some (u # us, rest)"
      using Cons.IH [of m] Cons.prems(1,3) n Cons by auto
    ultimately show ?thesis
      using n Cons by (simp add: skip_ws_def is_json_ws_def char_code_def)
  qed
qed simp

definition member_str :: "string \<times> json \<Rightarrow> string" where
  "member_str kv = quote_str (fst kv) @ '':'' @ json_stringify (snd kv)"

lemma members_back:
  assumes "\<And>kv n r. kv \<in> set ms \<Longrightarrow> ends_value r \<Longrightarrow> n \<ge> 2 * length (json_stringify (snd kv)) \<Longrightarrow>
      p_value n (json_stringify (snd kv) @ r) = Some (snd kv, r)"
    and "ms \<noteq> []" "n \<ge> 2 * length (join '','' (map member_str ms)) + 1"
  shows "p_members n (join '','' (map member_str ms) @ CHR ''}'' # rest) = Some (ms, rest)"
  using assms
proof (induction ms arbitrary: n)
  case (Cons kv ms)
  obtain k v where kv: "kv = (k, v)"
    by (cases kv)
  from Cons.prems(3) obtain m where n: "n = Suc m"
    by (cases n) auto
  have len: "2 * length (json_stringify v) \<le> m"
    using Cons.prems(3) n by (cases ms) (auto simp: member_str_def kv)
  have head: "p_members (Suc m) (member_str kv @ r) =
      (case skip_ws r of
         [] \<Rightarrow> None
       | e # es \<Rightarrow>
           if e = CHR ''}'' then Some ([(k, v)], es)
           else if e = CHR '','' then (case p_members m es of None \<Rightarrow> None | Some (ms, r') \<Rightarrow> Some ((k, v) # ms, r'))
           else None)" if "ends_value r" for r
  proof -
    have "p_string (concat (map escape_char k) @ dquote # CHR '':'' # json_stringify v @ r) = Some (k, CHR '':'' # json_stringify v @ r)"
      by (rule string_back)
    moreover have "p_value m (json_stringify v @ r) = Some (v, r)"
      using Cons.prems(1) [of kv r m] that len by (simp add: kv)
    ultimately show ?thesis
      by (simp add: member_str_def kv quote_str_def skip_ws_def is_json_ws_def dquote_def char_code_def)
  qed
  show ?case
  proof (cases ms)
    case Nil
    with head [of "CHR ''}'' # rest"] n kv show ?thesis
      by (simp add: ends_value_def skip_ws_def is_json_ws_def char_code_def)
  next
    case (Cons u us)
    have "p_members m (join '','' (map member_str (u # us)) @ CHR ''}'' # rest) = Some (u # us, rest)"
      using Cons.IH [of m] Cons.prems(1,3) n Cons by auto
    with head [of "CHR '','' # join '','' (map member_str (u # us)) @ CHR ''}'' # rest"] n kv Cons show ?thesis
      by (simp add: ends_value_def skip_ws_def is_json_ws_def char_code_def)
  qed
qed simp

lemma fold_map_set_fresh:
  assumes "distinct (map fst ms)" "fst ` set ms \<inter> fst ` set acc = {}"
  shows "fold (\<lambda>(k, v). map_set k v) ms acc = acc @ ms"
  using assms
proof (induction ms arbitrary: acc)
  case (Cons kv ms)
  then have "map_set (fst kv) (snd kv) acc = acc @ [kv]"
    by (cases kv) (auto intro!: map_set_fresh simp: map_get_def map_of_eq_None_iff)
  with Cons show ?case
    by (auto simp: case_prod_beta)
qed simp

lemma join_Cons: "join sep (x # ys) = x @ (if ys = [] then [] else sep @ join sep ys)"
  by (cases ys) simp_all

lemma join_starts:
  assumes "xs \<noteq> []" "starts_value (hd xs)"
  shows "starts_value (join sep xs)"
  using assms by (cases xs; cases "hd xs") (auto simp: starts_value_def join_Cons)

lemma value_back:
  "plain_json j \<Longrightarrow> ends_value r \<Longrightarrow> n \<ge> 2 * length (json_stringify j) \<Longrightarrow> p_value n (json_stringify j @ r) = Some (j, r)"
proof (induction j arbitrary: n r)
  case (JNum x)
  then obtain i m where "x = of_int i" "n = Suc m"
    using show_num_head [of "floor x"] by (cases n) auto
  with JNum value_number [OF ends_stops] show ?case
    by simp
next
  case (JStr s)
  then obtain m where "n = Suc m"
    by (cases n) (auto simp: quote_str_def)
  with value_string show ?case
    by simp
next
  case (JArr vs)
  then obtain m where n: "n = Suc m"
    by (cases n) auto
  show ?case
  proof (cases vs)
    case Nil
    with n show ?thesis
      by (simp add: skip_ws_def is_json_ws_def char_code_def dquote_def)
  next
    case (Cons v us)
    then have elems: "p_elems m (join '','' (map json_stringify vs) @ CHR '']'' # r) = Some (vs, r)"
      using JArr n by (intro elems_back) auto
    have "starts_value (join '','' (map json_stringify vs))"
      using Cons JArr.prems(1) by (intro join_starts) (auto intro: stringify_starts)
    then have "skip_ws (join '','' (map json_stringify vs) @ CHR '']'' # r) = join '','' (map json_stringify vs) @ CHR '']'' # r"
      "\<exists>c cs. join '','' (map json_stringify vs) = c # cs \<and> c \<noteq> CHR '']''"
      by (simp_all add: skip_start starts_value_def split: list.splits)
    with elems n show ?thesis
      by (auto simp: skip_ws_def [of "CHR ''['' # _"] is_json_ws_def char_code_def dquote_def)
  qed
next
  case (JObj ms)
  have str: "json_stringify (JObj ms) = CHR ''{'' # join '','' (map member_str ms) @ [CHR ''}'']"
    by (simp add: member_str_def [abs_def] case_prod_unfold)
  from JObj.prems(3) str obtain m where n: "n = Suc m"
    by (cases n) auto
  show ?case
  proof (cases ms)
    case Nil
    with n show ?thesis
      by (simp add: skip_ws_def is_json_ws_def char_code_def dquote_def)
  next
    case (Cons kv us)
    have "p_members m (join '','' (map member_str ms) @ CHR ''}'' # r) = Some (ms, r)"
    proof (rule members_back)
      fix kv' n' r'
      assume "kv' \<in> set ms" "ends_value r'" "n' \<ge> 2 * length (json_stringify (snd kv'))"
      with JObj.IH [of kv' "snd kv'"] JObj.prems(1) show "p_value n' (json_stringify (snd kv') @ r') = Some (snd kv', r')"
        by (cases kv') auto
    qed (use JObj.prems(3) str n Cons in auto)
    moreover have "fold (\<lambda>(k, v). map_set k v) ms [] = ms"
      using fold_map_set_fresh [of ms "[]"] JObj.prems(1) by simp
    moreover have "starts_value (join '','' (map member_str ms))"
      using Cons by (intro join_starts) (auto simp: starts_value_def member_str_def quote_str_def is_json_ws_def char_code_def dquote_def)
    then have "skip_ws (join '','' (map member_str ms) @ CHR ''}'' # r) = join '','' (map member_str ms) @ CHR ''}'' # r"
      "\<exists>c cs. join '','' (map member_str ms) = c # cs \<and> c \<noteq> CHR ''}''"
      by (simp_all add: skip_start starts_value_def split: list.splits)
    ultimately show ?thesis
      using n unfolding str by (auto simp: skip_ws_def [of "CHR ''{'' # _"] is_json_ws_def char_code_def dquote_def)
  qed
next
  case JNull
  then show ?case
    by (cases n) (simp_all add: skip_ws_def is_json_ws_def char_code_def dquote_def)
next
  case (JBool b)
  then show ?case
    by (cases n) (auto simp: skip_ws_def is_json_ws_def char_code_def dquote_def split: if_splits)
qed

lemma json_roundtrip: "plain_json j \<Longrightarrow> json_parse (json_stringify j) = Some j"
  using value_back [of j "[]" "2 * length (json_stringify j) + 2"] by (simp add: json_parse_def ends_value_def skip_ws_def)

text \<open>Printed values are on one line.\<close>

lemma quote_str_line: "c \<in> set (quote_str s) \<Longrightarrow> char_code c \<ge> 32"
proof -
  have "char_code (hex_digit k) \<ge> 32" if "k < 16" for k
    using that by (simp add: hex_digit_def)
  then have "\<forall>c\<in>set (escape_char d). char_code c \<ge> 32" for d
    by (auto simp: escape_char_def quote_codes) (simp_all add: char_code_def)
  then show "c \<in> set (quote_str s) \<Longrightarrow> char_code c \<ge> 32"
    by (auto simp: quote_str_def quote_codes)
qed

lemma join_chars: "c \<in> set (join sep xs) \<Longrightarrow> c \<in> set sep \<or> (\<exists>x\<in>set xs. c \<in> set x)"
  by (induction xs) (auto simp: join_Cons split: if_splits)

lemma stringify_line: "plain_json j \<Longrightarrow> c \<in> set (json_stringify j) \<Longrightarrow> char_code c \<ge> 32"
proof (induction j)
  case (JNum x)
  then obtain i where "x = of_int i"
    by auto
  then have "json_stringify (JNum x) = (if i < 0 then ''-'' else []) @ show_nat (nat \<bar>i\<bar>)"
    by (simp add: show_num_def Let_def flip: of_int_abs)
  with JNum(2) show_nat_digits [of "nat \<bar>i\<bar>"] show ?case
    by (auto simp: is_digit_def char_code_def split: if_splits)
next
  case (JArr vs)
  then show ?case
    by (auto simp: char_code_def dest!: join_chars)
next
  case (JObj ms)
  have "char_code c \<ge> 32" if "kv \<in> set ms" "c \<in> set (json_stringify (snd kv))" for kv
    using JObj.IH [of kv "snd kv"] JObj.prems(1) that by (cases kv) auto
  with JObj.prems(2) quote_str_line [of c] show ?case
    by (auto dest!: join_chars) (auto simp: char_code_def)
qed (auto simp: quote_str_line, auto simp: char_code_def split: if_splits)

end
