(* ===== verification/Schema.thy ===== *)
theory Schema
  imports Envelope
begin

text \<open>
  The tables of \<^verbatim>\<open>src/db/schema.ts\<close> the gateway reads and writes, one record per row type, and the
  database as the lists of their rows. Identifiers (uuids) are strings. A JSON column is the
  typed value the code reads out of it.
\<close>

section \<open>Enumerations\<close>

datatype provider_kind = openai_compat | anthropic | local | digitalocean | local_ocr

fun kind_name :: "provider_kind \<Rightarrow> string" where
  "kind_name openai_compat = ''openai_compat''"
| "kind_name anthropic = ''anthropic''"
| "kind_name local = ''local''"
| "kind_name digitalocean = ''digitalocean''"
| "kind_name local_ocr = ''local_ocr''"

definition PROVIDER_KINDS :: "provider_kind list" where
  "PROVIDER_KINDS = [openai_compat, anthropic, local, digitalocean, local_ocr]"

definition LOCAL_TIER_KINDS :: "provider_kind list" where
  "LOCAL_TIER_KINDS = [local, local_ocr]"

definition isLocalKind :: "provider_kind \<Rightarrow> bool" where
  "isLocalKind k = (k \<in> set LOCAL_TIER_KINDS)"

lemma isLocalKind_iff: "isLocalKind k \<longleftrightarrow> k = local \<or> k = local_ocr"
  by (simp add: isLocalKind_def LOCAL_TIER_KINDS_def)

lemma isLocalKind_simps [simp]:
  "isLocalKind local" "isLocalKind local_ocr"
  "\<not> isLocalKind openai_compat" "\<not> isLocalKind anthropic" "\<not> isLocalKind digitalocean"
  by (simp_all add: isLocalKind_iff)

datatype auth_type = AuthApiKey | AuthNone

datatype model_status = MActive | MDeprecated | MSunset

datatype model_source = SrcSynced | SrcCustom | SrcProvider

datatype sensitivity_level = local_only | cloud_deidentified | cloud_allowed

datatype budget_scope = ScopeFirm | ScopeApp | ScopeUser

datatype request_status =
    St_ok | St_provider_error | St_policy_blocked | St_scrubber_blocked | St_budget_exceeded
  | St_rate_limited | St_capability_missing | St_no_vision_provider | St_client_abort | St_error

datatype scrubber_mode = ModeBlock | ModeRedact | ModeWarn

datatype capability = Cap_tools | Cap_json_schema | Cap_vision | Cap_caching | Cap_reasoning

fun cap_name :: "capability \<Rightarrow> string" where
  "cap_name Cap_tools = ''tools''"
| "cap_name Cap_json_schema = ''json_schema''"
| "cap_name Cap_vision = ''vision''"
| "cap_name Cap_caching = ''caching''"
| "cap_name Cap_reasoning = ''reasoning''"

section \<open>Rows\<close>

text \<open>\<open>firm.settings\<close>: policy and budget settings.\<close>

record budget_settings =
  firm_monthly_cents :: "rat option"
  apps_cents :: "(string \<times> rat) list option"
  users_cents :: "(string \<times> rat) list option"
  soft_pct :: "rat option"

record firm_settings =
  scrubber_mode_set :: "scrubber_mode option"
  banned_provider_kinds :: "string list option"
  banned_model_patterns :: "string list option"
  global_temperature_max :: "rat option"
  budgets :: "budget_settings option"

record firm_row =
  firm_id :: string
  firm_slug :: string
  firm_settings_col :: "firm_settings option"

record provider_row =
  prv_id :: string
  prv_firmId :: string
  prv_kind :: provider_kind
  prv_label :: string
  prv_baseUrl :: string
  prv_authType :: auth_type
  prv_modelMapping :: "(string \<times> string) list option"
  prv_deletedAt :: "int option"

record model_row =
  mdl_id :: string
  canonicalId :: string
  providerKind :: provider_kind
  displayName :: string
  contextWindow :: int
  maxOutput :: "int option"
  capabilities :: "(capability \<times> bool) list"
  capabilityOverrides :: "(capability \<times> bool) list"
  mdl_status :: model_status
  deprecationDate :: "string option"
  mdl_source :: model_source
  thirdPartyHosted :: bool
  retentionNote :: "string option"

record pricing_row =
  pr_modelId :: string
  pr_effectiveFrom :: int
  inputPerMtok :: "rat option"
  outputPerMtok :: "rat option"
  cacheReadPerMtok :: "rat option"
  cacheWritePerMtok :: "rat option"

record task_class_requires =
  req_tools :: "bool option"
  req_json_schema :: "bool option"
  req_vision :: "bool option"
  req_caching :: "bool option"
  req_thinking_budget :: "int option"
  req_cache_ttl_s :: "int option"
  req_cache_cloud :: "bool option"

definition no_requires :: task_class_requires where
  "no_requires = \<lparr>req_tools = None, req_json_schema = None, req_vision = None, req_caching = None,
                  req_thinking_budget = None, req_cache_ttl_s = None, req_cache_cloud = None\<rparr>"

record task_class_row =
  tcl_id :: string
  tcl_key :: string
  tcl_app :: string
  tcl_description :: string
  sensitivity :: sensitivity_level
  requires :: "task_class_requires option"
  defaultMaxTokens :: int
  registeredByAppVersion :: "string option"

record policy_row =
  pol_id :: string
  pol_firmId :: string
  pol_taskClassId :: string
  defaultModelId :: string
  allowedModelIds :: "string list"
  fallbackChain :: "string list"
  maxTokensOverride :: "int option"
  temperatureMin :: "rat option"
  temperatureMax :: "rat option"
  monthlyBudgetCents :: "rat option"
  enabled :: bool
  acknowledgedModels :: "string list"
  acknowledgedAt :: "int option"

record role_policy_row =
  rp_policyId :: string
  rp_role :: user_role
  rp_allowed :: bool

record app_token_row =
  tok_id :: string
  tok_firmId :: string
  tok_app :: string
  tokenHash :: string
  tok_scopes :: "string list"
  lastUsedAt :: "int option"
  revokedAt :: "int option"

record ledger_row =
  l_requestId :: string
  l_ts :: int
  l_firmId :: string
  l_app :: string
  l_taskClassId :: "string option"
  l_modelRequested :: "string option"
  l_modelServed :: "string option"
  l_providerId :: "string option"
  l_usage :: ai_usage
  l_costCents :: "rat option"
  l_costUnknown :: bool
  l_latencyMs :: int
  l_status :: request_status
  l_engagementRef :: "string option"
  l_clientRef :: "string option"
  l_requestHash :: string

record budget_row =
  bs_scope :: budget_scope
  bs_scopeRef :: string
  bs_period :: string
  spentCents :: rat

record db =
  firms :: "firm_row list"
  providers :: "provider_row list"
  models :: "model_row list"
  pricings :: "pricing_row list"
  taskClasses :: "task_class_row list"
  policies :: "policy_row list"
  rolePolicies :: "role_policy_row list"
  appTokens :: "app_token_row list"
  usageLedger :: "ledger_row list"
  budgetsState :: "budget_row list"

end
