(* ===== verification/Catalog.thy ===== *)
theory Catalog
  imports Schema
begin

text \<open>
  The catalog service of \<^verbatim>\<open>src/src/catalog/service.ts\<close>: effective capabilities with the per-kind
  ceiling, custom-model creation, edits and retirement, pricing at a point in time, and the
  references to retired models. Inputs arrive with the right JSON types; the remaining schema
  constraints are checked by the \<open>_ok\<close> predicates, and the words of the schema library's first
  issue are the argument \<open>issue\<close>. Fresh row ids and the clock are arguments.
\<close>

section \<open>Capabilities\<close>

definition CAPABILITY_KEYS :: "capability list" where
  "CAPABILITY_KEYS = [Cap_tools, Cap_json_schema, Cap_vision, Cap_caching, Cap_reasoning]"

fun KIND_CAPABILITY_CEILING :: "provider_kind \<Rightarrow> capability list" where
  "KIND_CAPABILITY_CEILING local_ocr = [Cap_json_schema, Cap_tools]"
| "KIND_CAPABILITY_CEILING _ = []"

text \<open>Overrides win; else a capped key is false; else the base value, absent meaning false.\<close>

definition effectiveCapability :: "model_row \<Rightarrow> capability \<Rightarrow> bool" where
  "effectiveCapability m k =
     (case map_of (capabilityOverrides m) k of
        Some b \<Rightarrow> b
      | None \<Rightarrow>
          if k \<in> set (KIND_CAPABILITY_CEILING (providerKind m)) then False
          else nullish (map_of (capabilities m) k) False)"

definition effectiveCapabilities :: "model_row \<Rightarrow> (capability \<times> bool) list" where
  "effectiveCapabilities m = map (\<lambda>k. (k, effectiveCapability m k)) CAPABILITY_KEYS"

lemma CAPABILITY_KEYS_UNIV: "set CAPABILITY_KEYS = UNIV"
  by (auto simp: CAPABILITY_KEYS_def intro: capability.exhaust)

lemma effectiveCapabilities_get: "map_of (effectiveCapabilities m) k = Some (effectiveCapability m k)"
  by (cases k) (simp_all add: effectiveCapabilities_def CAPABILITY_KEYS_def)

section \<open>Custom models\<close>

record pricing_input =
  pi_inputPerMtok :: rat
  pi_outputPerMtok :: rat
  pi_cacheReadPerMtok :: "rat option"
  pi_cacheWritePerMtok :: "rat option"

record custom_model_input =
  cm_canonicalId :: string
  cm_providerKind :: provider_kind
  cm_displayName :: string
  cm_contextWindow :: int
  cm_maxOutput :: "int option"
  cm_capabilities :: "(capability \<times> bool) list option"
  cm_pricing :: "pricing_input option"

definition is_alpha :: "char \<Rightarrow> bool" where
  "is_alpha c = (let n = char_code c in (97 \<le> n \<and> n \<le> 122) \<or> (65 \<le> n \<and> n \<le> 90))"

definition family_char :: "char \<Rightarrow> bool" where
  "family_char c = ((is_alpha c \<and> lower_char c = c) \<or> is_digit c \<or> c = CHR ''_'' \<or> c = CHR ''-'')"

definition native_char :: "char \<Rightarrow> bool" where
  "native_char c = (is_alpha c \<or> is_digit c \<or> c \<in> set ''_.:-'')"

text \<open>\<open>^[a-z0-9_-]+/[A-Za-z0-9_.:-]+$\<close>: neither class contains the slash, so the split is at the
  first one.\<close>

definition canonical_id_ok :: "string \<Rightarrow> bool" where
  "canonical_id_ok s =
     (let fam = takeWhile (\<lambda>c. c \<noteq> CHR ''/'') s; rest = dropWhile (\<lambda>c. c \<noteq> CHR ''/'') s
      in fam \<noteq> [] \<and> list_all family_char fam \<and> length rest > 1 \<and> list_all native_char (tl rest))"

definition nonneg_opt :: "rat option \<Rightarrow> bool" where
  "nonneg_opt x = (case x of None \<Rightarrow> True | Some v \<Rightarrow> 0 \<le> v)"

definition pricing_ok :: "pricing_input \<Rightarrow> bool" where
  "pricing_ok p = (0 \<le> pi_inputPerMtok p \<and> 0 \<le> pi_outputPerMtok p
     \<and> nonneg_opt (pi_cacheReadPerMtok p) \<and> nonneg_opt (pi_cacheWritePerMtok p))"

definition customModelSchema_ok :: "custom_model_input \<Rightarrow> bool" where
  "customModelSchema_ok m =
     (canonical_id_ok (cm_canonicalId m)
      \<and> 1 \<le> length (cm_displayName m) \<and> length (cm_displayName m) \<le> 200
      \<and> 0 < cm_contextWindow m
      \<and> (case cm_maxOutput m of None \<Rightarrow> True | Some n \<Rightarrow> 0 < n)
      \<and> (case cm_pricing m of None \<Rightarrow> True | Some p \<Rightarrow> pricing_ok p))"

definition pricing_of_input :: "string \<Rightarrow> int \<Rightarrow> pricing_input \<Rightarrow> pricing_row" where
  "pricing_of_input mid now p =
     \<lparr>pr_modelId = mid, pr_effectiveFrom = now, inputPerMtok = Some (pi_inputPerMtok p),
      outputPerMtok = Some (pi_outputPerMtok p), cacheReadPerMtok = pi_cacheReadPerMtok p,
      cacheWritePerMtok = pi_cacheWritePerMtok p\<rparr>"

definition find_model :: "db \<Rightarrow> string \<Rightarrow> model_row option" where
  "find_model d i = find_first (\<lambda>m. mdl_id m = i) (models d)"

definition createCustomModel ::
    "string \<Rightarrow> string \<Rightarrow> int \<Rightarrow> custom_model_input \<Rightarrow> db \<Rightarrow> (router_error, model_row) result \<times> db" where
  "createCustomModel issue fresh now m d =
     (if \<not> customModelSchema_ok m
      then (Inl (router_error0 invalid_request (''invalid model: '' @ issue)), d)
      else if find_first (\<lambda>r. canonicalId r = cm_canonicalId m) (models d) \<noteq> None
      then (Inl (router_error0 invalid_request (''model already exists: '' @ cm_canonicalId m)), d)
      else
        (let row = \<lparr>mdl_id = fresh, canonicalId = cm_canonicalId m, providerKind = cm_providerKind m,
                    displayName = cm_displayName m, contextWindow = cm_contextWindow m,
                    maxOutput = cm_maxOutput m, capabilities = nullish (cm_capabilities m) [],
                    capabilityOverrides = [], mdl_status = MActive, deprecationDate = None,
                    mdl_source = SrcCustom, thirdPartyHosted = False, retentionNote = None\<rparr>;
             d1 = d\<lparr>models := models d @ [row]\<rparr>
         in (Inr row,
             case cm_pricing m of
               None \<Rightarrow> d1
             | Some p \<Rightarrow> d1\<lparr>pricings := pricings d1 @ [pricing_of_input fresh now p]\<rparr>)))"

text \<open>An edit; \<open>up_maxOutput\<close> distinguishes absent (\<open>None\<close>) from null (\<open>Some None\<close>).\<close>

record model_patch =
  up_displayName :: "string option"
  up_contextWindow :: "int option"
  up_maxOutput :: "int option option"
  up_capabilities :: "(capability \<times> bool) list option"
  up_pricing :: "pricing_input option"

definition updateModelSchema_ok :: "model_patch \<Rightarrow> bool" where
  "updateModelSchema_ok p =
     ((case up_displayName p of None \<Rightarrow> True | Some s \<Rightarrow> 1 \<le> length s \<and> length s \<le> 200)
      \<and> (case up_contextWindow p of None \<Rightarrow> True | Some n \<Rightarrow> 0 < n)
      \<and> (case up_maxOutput p of Some (Some n) \<Rightarrow> 0 < n | _ \<Rightarrow> True)
      \<and> (case up_pricing p of None \<Rightarrow> True | Some q \<Rightarrow> pricing_ok q))"

definition touchesBase :: "model_patch \<Rightarrow> bool" where
  "touchesBase p = (up_displayName p \<noteq> None \<or> up_contextWindow p \<noteq> None \<or> up_maxOutput p \<noteq> None
     \<or> up_pricing p \<noteq> None)"

definition patch_row :: "model_patch \<Rightarrow> model_row \<Rightarrow> model_row" where
  "patch_row p m =
     m\<lparr>displayName := nullish (up_displayName p) (displayName m),
       contextWindow := nullish (up_contextWindow p) (contextWindow m),
       maxOutput := nullish (up_maxOutput p) (maxOutput m),
       capabilityOverrides := nullish (up_capabilities p) (capabilityOverrides m)\<rparr>"

definition update_models :: "string \<Rightarrow> (model_row \<Rightarrow> model_row) \<Rightarrow> db \<Rightarrow> db" where
  "update_models i f d = d\<lparr>models := map (\<lambda>m. if mdl_id m = i then f m else m) (models d)\<rparr>"

definition updateModel ::
    "string \<Rightarrow> int \<Rightarrow> string \<Rightarrow> model_patch \<Rightarrow> db \<Rightarrow> (router_error, model_row) result \<times> db" where
  "updateModel issue now i p d =
     (if \<not> updateModelSchema_ok p
      then (Inl (router_error0 invalid_request (''invalid edit: '' @ issue)), d)
      else
        (case find_model d i of
           None \<Rightarrow> (Inl (router_error0 invalid_request ''model not found''), d)
         | Some m \<Rightarrow>
             if touchesBase p \<and> mdl_source m = SrcSynced
             then (Inl (router_error0 invalid_request
                     ''synced models are feed-managed; only capability overrides can be edited (they survive re-sync)''), d)
             else
               (let d1 = update_models i (patch_row p) d;
                    d2 = (case up_pricing p of
                            None \<Rightarrow> d1
                          | Some q \<Rightarrow> d1\<lparr>pricings := pricings d1 @ [pricing_of_input i now q]\<rparr>)
                in (case find_model d2 i of
                      None \<Rightarrow> (Inl (router_error0 unknown ''model vanished during update''), d2)
                    | Some u \<Rightarrow> (Inr u, d2)))))"

definition setCapabilityOverrides :: "string \<Rightarrow> (capability \<times> bool) list \<Rightarrow> db \<Rightarrow> db" where
  "setCapabilityOverrides i ov d = update_models i (\<lambda>m. m\<lparr>capabilityOverrides := ov\<rparr>) d"

datatype retire_result = Deleted | Sunset

definition retireCustomModel :: "string \<Rightarrow> db \<Rightarrow> (router_error, retire_result) result \<times> db" where
  "retireCustomModel i d =
     (case find_model d i of
        None \<Rightarrow> (Inl (router_error0 invalid_request ''model not found''), d)
      | Some m \<Rightarrow>
          if mdl_source m \<noteq> SrcCustom
          then (Inl (router_error0 invalid_request ''synced models are managed by sync; set overrides instead''), d)
          else
            (let referencing = find_first (\<lambda>p. defaultModelId p = i) (policies d);
                 all = (case referencing of Some r \<Rightarrow> [r] | None \<Rightarrow> policies d);
                 referenced = (referencing \<noteq> None
                   \<or> (\<exists>p\<in>set all. i \<in> set (allowedModelIds p) \<or> i \<in> set (fallbackChain p)))
             in if referenced then (Inr Sunset, update_models i (\<lambda>m. m\<lparr>mdl_status := MSunset\<rparr>) d)
                else (Inr Deleted, d\<lparr>models := filter (\<lambda>m. mdl_id m \<noteq> i) (models d)\<rparr>)))"

section \<open>Pricing and retired references\<close>

text \<open>The row with the greatest \<open>effectiveFrom\<close> not after \<open>ts\<close> (the first such row on a tie).\<close>

definition pricingAt :: "db \<Rightarrow> string \<Rightarrow> int \<Rightarrow> pricing_row option" where
  "pricingAt d mid ts =
     (let rows = filter (\<lambda>r. pr_modelId r = mid \<and> pr_effectiveFrom r \<le> ts) (pricings d)
      in find_first (\<lambda>r. True) (sort_key (\<lambda>r. - pr_effectiveFrom r) rows))"

datatype reference_role = RefDefault | RefAllowed | RefFallback

record retired_reference =
  rr_policyId :: string
  rr_firmId :: string
  rr_taskClassId :: string
  rr_modelId :: string
  rr_canonicalId :: string
  rr_status :: model_status
  rr_role :: reference_role

definition retired_hit :: "model_row list \<Rightarrow> policy_row \<Rightarrow> reference_role \<Rightarrow> string \<Rightarrow> retired_reference list" where
  "retired_hit retired p rl i =
     (case map_of (rev (map (\<lambda>m. (mdl_id m, m)) retired)) i of
        None \<Rightarrow> []
      | Some m \<Rightarrow> [\<lparr>rr_policyId = pol_id p, rr_firmId = pol_firmId p, rr_taskClassId = pol_taskClassId p,
                    rr_modelId = i, rr_canonicalId = canonicalId m, rr_status = mdl_status m, rr_role = rl\<rparr>])"

definition findRetiredModelReferences :: "db \<Rightarrow> retired_reference list" where
  "findRetiredModelReferences d =
     (let retired = filter (\<lambda>m. mdl_status m = MDeprecated \<or> mdl_status m = MSunset) (models d)
      in if retired = [] then []
         else concat (map (\<lambda>p.
                retired_hit retired p RefDefault (defaultModelId p)
                @ concat (map (retired_hit retired p RefAllowed) (allowedModelIds p))
                @ concat (map (retired_hit retired p RefFallback) (fallbackChain p))) (policies d)))"

section \<open>Lemmas\<close>

lemma find_model_Some: "find_model d i = Some m \<Longrightarrow> m \<in> set (models d) \<and> mdl_id m = i"
  unfolding find_model_def by (rule find_first_Some)

text \<open>The policies bind model ids that exist: the reference invariant of the catalog.\<close>

definition policy_ids :: "policy_row \<Rightarrow> string set" where
  "policy_ids p = insert (defaultModelId p) (set (allowedModelIds p) \<union> set (fallbackChain p))"

definition refs_ok :: "db \<Rightarrow> bool" where
  "refs_ok d \<longleftrightarrow> (\<forall>p\<in>set (policies d). policy_ids p \<subseteq> mdl_id ` set (models d))"

lemma ids_update_models:
  "(\<And>m. mdl_id (f m) = mdl_id m) \<Longrightarrow> mdl_id ` set (models (update_models i f d)) = mdl_id ` set (models d)"
  unfolding update_models_def by (simp add: image_Un image_image) blast

lemma policies_update_models [simp]: "policies (update_models i f d) = policies d"
  by (simp add: update_models_def)

lemma retire_referenced:
  assumes "p \<in> set (policies d)" "i \<in> policy_ids p" "fst (retireCustomModel i d) = Inr r"
  shows "r = Sunset"
proof (cases "find_first (\<lambda>p. defaultModelId p = i) (policies d)")
  case None
  with assms(1,2) have "i \<in> set (allowedModelIds p) \<or> i \<in> set (fallbackChain p)"
    by (auto simp: find_first_None policy_ids_def)
  with None assms(1,3) show ?thesis
    by (auto simp: retireCustomModel_def Let_def split: option.splits if_splits)
next
  case (Some q)
  with assms(3) show ?thesis
    by (auto simp: retireCustomModel_def Let_def split: option.splits if_splits)
qed

lemma pricingAt_latest:
  assumes "pricingAt d mid ts = Some r"
  shows "r \<in> set (pricings d) \<and> pr_modelId r = mid \<and> pr_effectiveFrom r \<le> ts
    \<and> (\<forall>q\<in>set (pricings d). pr_modelId q = mid \<and> pr_effectiveFrom q \<le> ts \<longrightarrow> pr_effectiveFrom q \<le> pr_effectiveFrom r)"
proof -
  let ?rows = "filter (\<lambda>r. pr_modelId r = mid \<and> pr_effectiveFrom r \<le> ts) (pricings d)"
  from assms obtain rest where sorted: "sort_key (\<lambda>r. - pr_effectiveFrom r) ?rows = r # rest"
    by (cases "sort_key (\<lambda>r. - pr_effectiveFrom r) ?rows") (auto simp: pricingAt_def Let_def)
  then have set: "set (r # rest) = set ?rows"
    by (metis set_sort)
  have "sorted (map (\<lambda>r. - pr_effectiveFrom r) (r # rest))"
    using sorted_sort_key [of "\<lambda>r. - pr_effectiveFrom r" ?rows] unfolding sorted .
  then have "\<forall>q\<in>set ?rows. pr_effectiveFrom q \<le> pr_effectiveFrom r"
    unfolding set [symmetric] by auto
  with set show ?thesis
    by (auto simp: set_eq_iff)
qed

lemma refs_ok_same_ids:
  "refs_ok d \<Longrightarrow> mdl_id ` set (models d) \<subseteq> mdl_id ` set (models d') \<Longrightarrow> policies d' = policies d \<Longrightarrow> refs_ok d'"
  by (force simp: refs_ok_def)

lemma mdl_id_patch_row: "mdl_id (patch_row p m) = mdl_id m"
  by (simp add: patch_row_def)

lemma create_refs: "refs_ok d \<Longrightarrow> refs_ok (snd (createCustomModel issue fresh now m d))"
  by (erule refs_ok_same_ids) (auto simp: createCustomModel_def Let_def split: option.splits)

lemma update_refs: "refs_ok d \<Longrightarrow> refs_ok (snd (updateModel issue now i p d))"
  by (erule refs_ok_same_ids)
     (auto simp: updateModel_def Let_def ids_update_models mdl_id_patch_row split: option.splits)

lemma override_refs: "refs_ok d \<Longrightarrow> refs_ok (setCapabilityOverrides i ov d)"
  by (erule refs_ok_same_ids) (simp_all add: setCapabilityOverrides_def ids_update_models)

lemma retire_refs:
  assumes "refs_ok d"
  shows "refs_ok (snd (retireCustomModel i d))"
proof (cases "fst (retireCustomModel i d) = Inr Deleted")
  case True
  then have "\<forall>p\<in>set (policies d). i \<notin> policy_ids p"
    using retire_referenced by fastforce
  moreover from True have "snd (retireCustomModel i d) = d\<lparr>models := filter (\<lambda>m. mdl_id m \<noteq> i) (models d)\<rparr>"
    by (auto simp: retireCustomModel_def Let_def split: option.splits if_splits)
  ultimately show ?thesis
    using assms by (fastforce simp: refs_ok_def)
next
  case False
  then have "snd (retireCustomModel i d) \<in> {d, update_models i (\<lambda>m. m\<lparr>mdl_status := MSunset\<rparr>) d}"
    by (auto simp: retireCustomModel_def Let_def split: option.splits if_splits)
  with assms show ?thesis
    by (auto intro!: refs_ok_same_ids [OF assms] simp: ids_update_models)
qed

section \<open>Properties\<close>

text \<open>
  Catalog edits never leave a policy pointing at a model that is gone: creating, editing,
  overriding and retiring keep every model id a policy binds (default, allowed, fallback) present
  in the catalog; retirement deletes only what nothing references.
\<close>

theorem catalog_keeps_references:
  assumes "refs_ok d"
  shows "refs_ok (snd (createCustomModel issue fresh now cm d))
    \<and> refs_ok (snd (updateModel issue now i p d))
    \<and> refs_ok (setCapabilityOverrides i ov d)
    \<and> refs_ok (snd (retireCustomModel i d))"
  using assms by (simp add: create_refs update_refs override_refs retire_refs)

definition example_model :: model_row where
  "example_model = \<lparr>mdl_id = ''m1'', canonicalId = ''openai/gpt'', providerKind = openai_compat,
     displayName = ''GPT'', contextWindow = 8000, maxOutput = Some 4096,
     capabilities = [(Cap_tools, True)], capabilityOverrides = [], mdl_status = MActive,
     deprecationDate = None, mdl_source = SrcCustom, thirdPartyHosted = False, retentionNote = None\<rparr>"

definition example_policy :: policy_row where
  "example_policy = \<lparr>pol_id = ''p1'', pol_firmId = ''f1'', pol_taskClassId = ''t1'', defaultModelId = ''m1'',
     allowedModelIds = [], fallbackChain = [], maxTokensOverride = None, temperatureMin = None,
     temperatureMax = None, monthlyBudgetCents = None, enabled = True, acknowledgedModels = [],
     acknowledgedAt = None\<rparr>"

definition example_db :: db where
  "example_db = \<lparr>firms = [], providers = [], models = [example_model], pricings = [], taskClasses = [],
     policies = [example_policy], rolePolicies = [], appTokens = [], usageLedger = [], budgetsState = []\<rparr>"

definition example_patch :: model_patch where
  "example_patch = \<lparr>up_displayName = Some ''New'', up_contextWindow = None, up_maxOutput = Some None,
     up_capabilities = None, up_pricing = None\<rparr>"

definition example_custom :: custom_model_input where
  "example_custom = \<lparr>cm_canonicalId = ''ollama/qwen3:14b'', cm_providerKind = local, cm_displayName = ''Qwen'',
     cm_contextWindow = 32000, cm_maxOutput = None, cm_capabilities = None, cm_pricing = None\<rparr>"

theorem catalog_keeps_references_witness:
  "refs_ok example_db \<and> refs_ok (snd (createCustomModel [] ''m2'' 0 example_custom example_db))
    \<and> refs_ok (snd (updateModel [] 0 ''m1'' example_patch example_db))
    \<and> refs_ok (setCapabilityOverrides ''m1'' [] example_db)
    \<and> refs_ok (snd (retireCustomModel ''m1'' example_db))"
proof -
  have "refs_ok example_db"
    by (simp add: refs_ok_def example_db_def policy_ids_def example_policy_def example_model_def)
  with catalog_keeps_references [OF this] show ?thesis
    by blast
qed

end
