(* ===== verification/Policy_Engine.thy ===== *)
theory Policy_Engine
  imports Catalog
begin

text \<open>
  The task-class policy engine of \<^verbatim>\<open>src/src/policy/engine.ts\<close>: validation of one candidate model,
  model selection with the capability upgrade, role gating, limits, and the engine's three
  caches over the database. A firm's banned-model pattern becomes a regular expression at
  request time, and an ill-formed one makes the code throw, so validation answers a result.
  The lemmas show what a selected model satisfies, when and how a substitute is chosen, the
  limits of the outgoing envelope, and that the caches answer what the database would.
\<close>

section \<open>State\<close>

record effective_policy =
  ep_taskClass :: task_class_row
  ep_policy :: policy_row
  ep_defaultModel :: model_row
  ep_modelsById :: "(string, model_row) jsmap"
  ep_roleRules :: "(user_role, bool) jsmap"
  ep_firmSettings :: firm_settings

definition classRequires :: "task_class_row \<Rightarrow> task_class_requires" where
  "classRequires tc = nullish (requires tc) no_requires"

section \<open>Requirements and capabilities\<close>

fun is_image :: "content_part \<Rightarrow> bool" where
  "is_image (ImagePart u) = True"
| "is_image (TextPart t) = False"

fun has_image :: "msg_content \<Rightarrow> bool" where
  "has_image (CText s) = False"
| "has_image (CParts ps) = list_ex is_image ps"

definition wants_schema :: "ai_request \<Rightarrow> bool" where
  "wants_schema env = (case responseFormat env of Some (RFJsonSchema _ _ _ _) \<Rightarrow> True | _ \<Rightarrow> False)"

definition requestRequires :: "ai_request \<Rightarrow> capability list" where
  "requestRequires env =
     (if nullish (tools env) [] \<noteq> [] then [Cap_tools] else [])
     @ (if wants_schema env then [Cap_json_schema] else [])
     @ (if list_ex (\<lambda>m. has_image (m_content m)) (messages env) then [Cap_vision] else [])"

definition missingCapabilities :: "model_row \<Rightarrow> capability list \<Rightarrow> capability list" where
  "missingCapabilities m needs = filter (\<lambda>n. \<not> effectiveCapability m n) needs"

definition requiredCapabilities :: "effective_policy \<Rightarrow> ai_request \<Rightarrow> capability list" where
  "requiredCapabilities eff env =
     (let req = classRequires (ep_taskClass eff)
      in dedupe (requestRequires env
           @ (if nullish (req_tools req) False then [Cap_tools] else [])
           @ (if nullish (req_json_schema req) False then [Cap_json_schema] else [])
           @ (if nullish (req_vision req) False then [Cap_vision] else [])))"

section \<open>Banned models\<close>

text \<open>
  \<open>wildcardToRegex\<close> escapes every regular-expression character except \<open>*\<close>, which becomes \<open>.*\<close>,
  and \<open>?\<close>, which keeps its meaning: it makes the preceding character optional, a second one only
  changes greediness, and where there is nothing to repeat the constructor throws.
\<close>

datatype watom = WLit char | WOpt char | WStar

datatype wquant = NoAtom | Fresh | Quantified | Lazy

fun wparse :: "wquant \<Rightarrow> watom list \<Rightarrow> string \<Rightarrow> watom list option" where
  "wparse q acc [] = Some (rev acc)"
| "wparse q acc (c # cs) =
     (if c = CHR ''*'' then wparse Quantified (WStar # acc) cs
      else if c = CHR ''?'' then
        (case (q, acc) of
           (Fresh, WLit x # rest) \<Rightarrow> wparse Quantified (WOpt x # rest) cs
         | (Quantified, _) \<Rightarrow> wparse Lazy acc cs
         | _ \<Rightarrow> None)
      else wparse Fresh (WLit c # acc) cs)"

definition wildcardToRegex :: "string \<Rightarrow> watom list option" where
  "wildcardToRegex pat = wparse NoAtom [] pat"

definition is_line_end :: "char \<Rightarrow> bool" where
  "is_line_end c = (char_code c = 10 \<or> char_code c = 13)"

text \<open>\<open>^...$\<close> with the \<open>i\<close> flag: the whole string, up to case.\<close>

fun wmatch :: "watom list \<Rightarrow> string \<Rightarrow> bool" where
  "wmatch [] s = (s = [])"
| "wmatch (WLit c # as) [] = False"
| "wmatch (WLit c # as) (x # xs) = (lower_char x = lower_char c \<and> wmatch as xs)"
| "wmatch (WOpt c # as) [] = wmatch as []"
| "wmatch (WOpt c # as) (x # xs) =
     ((lower_char x = lower_char c \<and> wmatch as xs) \<or> wmatch as (x # xs))"
| "wmatch (WStar # as) [] = wmatch as []"
| "wmatch (WStar # as) (x # xs) =
     ((\<not> is_line_end x \<and> wmatch (WStar # as) xs) \<or> wmatch as (x # xs))"

fun banned_by_pattern :: "string list \<Rightarrow> string \<Rightarrow> (thrown, string option) result" where
  "banned_by_pattern [] cid = Inr None"
| "banned_by_pattern (p # ps) cid =
     (case wildcardToRegex p of
        None \<Rightarrow> Inl (OtherError ''Invalid regular expression'')
      | Some re \<Rightarrow>
          if wmatch re cid then Inr (Some (''model matches banned pattern '' @ [dquote] @ p @ [dquote]))
          else banned_by_pattern ps cid)"

definition modelBanned :: "model_row \<Rightarrow> firm_settings \<Rightarrow> (thrown, string option) result" where
  "modelBanned m st =
     (if kind_name (providerKind m) \<in> set (nullish (banned_provider_kinds st) [])
      then Inr (Some (''provider kind '' @ kind_name (providerKind m) @ '' is banned by firm policy''))
      else banned_by_pattern (nullish (banned_model_patterns st) []) (canonicalId m))"

section \<open>Validation of one candidate\<close>

record violation =
  v_code :: error_code
  v_reason :: string
  v_missing :: "capability list option"

definition modelViolation ::
    "model_row \<Rightarrow> effective_policy \<Rightarrow> ai_request \<Rightarrow> capability list option
      \<Rightarrow> (thrown, violation option) result" where
  "modelViolation m eff env needs =
     (if mdl_status m = MSunset
      then Inr (Some \<lparr>v_code = policy_blocked, v_reason = ''model '' @ canonicalId m @ '' is sunset'', v_missing = None\<rparr>)
      else if sensitivity (ep_taskClass eff) = local_only \<and> \<not> isLocalKind (providerKind m)
      then Inr (Some \<lparr>v_code = policy_blocked,
                      v_reason = ''local_only task class cannot use non-local model '' @ canonicalId m, v_missing = None\<rparr>)
      else
        rbind (modelBanned m (ep_firmSettings eff)) (\<lambda>banned.
          case banned of
            Some r \<Rightarrow> Inr (Some \<lparr>v_code = policy_blocked, v_reason = r, v_missing = None\<rparr>)
          | None \<Rightarrow>
              (let missing = missingCapabilities m (nullish needs (requiredCapabilities eff env))
               in if missing \<noteq> []
                  then Inr (Some \<lparr>v_code = capability_missing,
                         v_reason = ''model '' @ canonicalId m @ '' lacks required capabilities: ''
                           @ join '', '' (map cap_name missing),
                         v_missing = Some missing\<rparr>)
                  else Inr None)))"

section \<open>Role gating, selection, limits\<close>

fun role_str :: "user_role \<Rightarrow> string" where
  "role_str Admin = ''admin''"
| "role_str Partner = ''partner''"
| "role_str Staff = ''staff''"

definition checkRole :: "effective_policy \<Rightarrow> user_role option \<Rightarrow> (thrown, unit) result" where
  "checkRole eff r =
     (case r of
        None \<Rightarrow> Inr ()
      | Some rl \<Rightarrow>
          if map_get (ep_roleRules eff) rl = Some False
          then Inl (Routed (router_error0 policy_blocked
                 (''role '' @ role_str rl @ '' is not permitted for '' @ tcl_key (ep_taskClass eff))))
          else Inr ())"

record upgrade_info =
  up_from :: string
  up_to :: string
  up_missing :: "capability list"

text \<open>Candidates for a capability upgrade: allowed set then fallback chain, deduplicated, default
  excluded, local tier first.\<close>

definition configured_ids :: "effective_policy \<Rightarrow> string list" where
  "configured_ids eff =
     filter (\<lambda>i. i \<noteq> defaultModelId (ep_policy eff))
       (dedupe (allowedModelIds (ep_policy eff) @ fallbackChain (ep_policy eff)))"

definition configured :: "effective_policy \<Rightarrow> model_row list" where
  "configured eff = drop_nones (map (map_get (ep_modelsById eff)) (configured_ids eff))"

definition ordered_candidates :: "effective_policy \<Rightarrow> model_row list" where
  "ordered_candidates eff =
     filter (\<lambda>m. isLocalKind (providerKind m)) (configured eff)
     @ filter (\<lambda>m. \<not> isLocalKind (providerKind m)) (configured eff)"

text \<open>The scan: the first candidate without a violation, or the capabilities missing everywhere.\<close>

fun scan_candidates ::
    "effective_policy \<Rightarrow> ai_request \<Rightarrow> capability list \<Rightarrow> capability list \<Rightarrow> model_row list
      \<Rightarrow> (thrown, model_row option \<times> capability list) result" where
  "scan_candidates eff env needs unsat [] = Inr (None, unsat)"
| "scan_candidates eff env needs unsat (m # ms) =
     rbind (modelViolation m eff env (Some needs)) (\<lambda>v.
       case v of
         None \<Rightarrow> Inr (Some m, unsat)
       | Some w \<Rightarrow>
           if v_code w = capability_missing
           then scan_candidates eff env needs
                  (filter (\<lambda>c. c \<in> set (nullish (v_missing w) [])) unsat) ms
           else scan_candidates eff env needs unsat ms)"

definition requested_match :: "effective_policy \<Rightarrow> ai_request \<Rightarrow> model_row option" where
  "requested_match eff env =
     (case modelRequested env of
        None \<Rightarrow> None
      | Some req \<Rightarrow>
          if req = [] then None
          else find_first (\<lambda>m. canonicalId m = req \<and>
                 mdl_id m \<in> set (defaultModelId (ep_policy eff) # allowedModelIds (ep_policy eff)))
               (map_vals (ep_modelsById eff)))"

definition no_vision_error :: "effective_policy \<Rightarrow> router_error" where
  "no_vision_error eff =
     RouterError no_vision_provider
       (''no vision-capable model is configured for '' @ tcl_key (ep_taskClass eff) @ '' '' @ em_dash
        @ '' mark one vision-capable in Catalog or add it to the policy'')
       (Some [(''taskClass'', JStr (tcl_key (ep_taskClass eff)))]) None"

definition select_default ::
    "effective_policy \<Rightarrow> ai_request \<Rightarrow> capability list \<Rightarrow> (thrown, model_row \<times> upgrade_info option) result" where
  "select_default eff env needs =
     rbind (modelViolation (ep_defaultModel eff) eff env (Some needs)) (\<lambda>v.
       case v of
         None \<Rightarrow> Inr (ep_defaultModel eff, None)
       | Some w \<Rightarrow>
           if v_code w = capability_missing
           then rbind (scan_candidates eff env needs (nullish (v_missing w) []) (ordered_candidates eff))
                  (\<lambda>(found, unsat).
                    case found of
                      Some m \<Rightarrow> Inr (m, Some \<lparr>up_from = canonicalId (ep_defaultModel eff),
                                              up_to = canonicalId m, up_missing = nullish (v_missing w) []\<rparr>)
                    | None \<Rightarrow>
                        if Cap_vision \<in> set unsat then Inl (Routed (no_vision_error eff))
                        else Inl (Routed (router_error0 (v_code w) (v_reason w))))
           else Inl (Routed (router_error0 (v_code w) (v_reason w))))"

text \<open>\<open>selectModel\<close>; the second component is the argument of the \<open>onUpgrade\<close> call, if it is made.\<close>

definition selectModel ::
    "effective_policy \<Rightarrow> ai_request \<Rightarrow> (thrown, model_row \<times> upgrade_info option) result" where
  "selectModel eff env =
     (let needs = requiredCapabilities eff env
      in case requested_match eff env of
           None \<Rightarrow> select_default eff env needs
         | Some m \<Rightarrow>
             rbind (modelViolation m eff env (Some needs)) (\<lambda>v.
               if v = None then Inr (m, None) else select_default eff env needs))"

definition clampToModel :: "ai_request \<Rightarrow> model_row \<Rightarrow> ai_request" where
  "clampToModel env m =
     (case maxOutput m of
        None \<Rightarrow> env
      | Some limit \<Rightarrow>
          if limit \<le> 0 then env
          else (case maxTokens env of
                  None \<Rightarrow> env
                | Some n \<Rightarrow> if n \<le> limit then env else env\<lparr>maxTokens := Some limit\<rparr>))"

definition temperature_maxima :: "effective_policy \<Rightarrow> rat list" where
  "temperature_maxima eff =
     drop_nones [temperatureMax (ep_policy eff), global_temperature_max (ep_firmSettings eff)]"

definition clamp_temperature :: "effective_policy \<Rightarrow> rat \<Rightarrow> rat" where
  "clamp_temperature eff t =
     (let t1 = fold (\<lambda>m t. min t m) (temperature_maxima eff) t
      in case temperatureMin (ep_policy eff) of None \<Rightarrow> t1 | Some lo \<Rightarrow> max t1 lo)"

definition token_cap :: "effective_policy \<Rightarrow> int" where
  "token_cap eff = nullish (maxTokensOverride (ep_policy eff)) (defaultMaxTokens (ep_taskClass eff))"

definition applyLimits :: "effective_policy \<Rightarrow> ai_request \<Rightarrow> ai_request" where
  "applyLimits eff env =
     env\<lparr>maxTokens := Some (min (nullish (maxTokens env) (token_cap eff)) (token_cap eff)),
         temperature := map_option (clamp_temperature eff) (temperature env)\<rparr>"

section \<open>The engine and its caches\<close>

record engine =
  cache :: "(string, effective_policy \<times> int) jsmap"
  firmCache :: "(string, firm_settings \<times> int) jsmap"
  providerCache :: "(string, provider_row option \<times> int) jsmap"

definition engine_new :: engine where
  "engine_new = \<lparr>cache = [], firmCache = [], providerCache = []\<rparr>"

definition firm_key :: "string \<Rightarrow> string \<Rightarrow> string" where
  "firm_key f k = f @ '':'' @ k"

definition invalidate :: "string option \<Rightarrow> engine \<Rightarrow> engine" where
  "invalidate firmId e =
     e\<lparr>firmCache := [], providerCache := [],
       cache := (if nullish firmId [] = [] then []
                 else filter (\<lambda>(k, v). \<not> starts_with (nullish firmId [] @ '':'') k) (cache e))\<rparr>"

definition default_firm_settings :: firm_settings where
  "default_firm_settings = \<lparr>scrubber_mode_set = None, banned_provider_kinds = None, banned_model_patterns = None,
     global_temperature_max = None, budgets = None\<rparr>"

definition firm_settings_db :: "db \<Rightarrow> string \<Rightarrow> firm_settings" where
  "firm_settings_db d f =
     (case find_first (\<lambda>r. firm_id r = f) (firms d) of
        None \<Rightarrow> default_firm_settings
      | Some r \<Rightarrow> nullish (firm_settings_col r) default_firm_settings)"

definition firmSettings :: "int \<Rightarrow> db \<Rightarrow> int \<Rightarrow> string \<Rightarrow> engine \<Rightarrow> firm_settings \<times> engine" where
  "firmSettings ttlMs d now f e =
     (case map_get (firmCache e) f of
        Some (s, expires) \<Rightarrow>
          if expires > now then (s, e)
          else (firm_settings_db d f,
                e\<lparr>firmCache := map_set f (firm_settings_db d f, now + min ttlMs 10000) (firmCache e)\<rparr>)
      | None \<Rightarrow> (firm_settings_db d f,
                e\<lparr>firmCache := map_set f (firm_settings_db d f, now + min ttlMs 10000) (firmCache e)\<rparr>))"

definition provider_db :: "db \<Rightarrow> string \<Rightarrow> provider_kind \<Rightarrow> provider_row option" where
  "provider_db d f k =
     find_first (\<lambda>p. prv_firmId p = f \<and> prv_kind p = k \<and> prv_deletedAt p = None) (providers d)"

definition providerFor :: "int \<Rightarrow> db \<Rightarrow> int \<Rightarrow> string \<Rightarrow> provider_kind \<Rightarrow> engine \<Rightarrow> provider_row option \<times> engine" where
  "providerFor ttlMs d now f k e =
     (let key = firm_key f (kind_name k);
          miss = (provider_db d f k,
                  e\<lparr>providerCache := map_set key (provider_db d f k, now + min ttlMs 10000) (providerCache e)\<rparr>)
      in case map_get (providerCache e) key of
           Some (row, expires) \<Rightarrow> if expires > now then (row, e) else miss
         | None \<Rightarrow> miss)"

definition resolve_db ::
    "db \<Rightarrow> string \<Rightarrow> string \<Rightarrow> firm_settings \<Rightarrow> (router_error, effective_policy) result" where
  "resolve_db d f tcKey st =
     (case find_first (\<lambda>t. tcl_key t = tcKey) (taskClasses d) of
        None \<Rightarrow> Inl (router_error0 policy_blocked (''unknown task class: '' @ tcKey))
      | Some tc \<Rightarrow>
          (case find_first (\<lambda>p. pol_firmId p = f \<and> pol_taskClassId p = tcl_id tc) (policies d) of
             None \<Rightarrow> Inl (router_error0 policy_blocked (''no enabled policy for task class '' @ tcKey))
           | Some pol \<Rightarrow>
               if \<not> enabled pol
               then Inl (router_error0 policy_blocked (''no enabled policy for task class '' @ tcKey))
               else
                 (let wantedIds = dedupe (defaultModelId pol # allowedModelIds pol @ fallbackChain pol);
                      rows = filter (\<lambda>m. mdl_id m \<in> set wantedIds) (models d);
                      byId = fold (\<lambda>m. map_set (mdl_id m) m) rows []
                  in case map_get byId (defaultModelId pol) of
                       None \<Rightarrow> Inl (router_error0 policy_blocked ''policy default model not found in catalog'')
                     | Some dm \<Rightarrow>
                         Inr \<lparr>ep_taskClass = tc, ep_policy = pol, ep_defaultModel = dm, ep_modelsById = byId,
                              ep_roleRules = fold (\<lambda>r. map_set (rp_role r) (rp_allowed r))
                                (filter (\<lambda>r. rp_policyId r = pol_id pol) (rolePolicies d)) [],
                              ep_firmSettings = st\<rparr>)))"

definition resolve ::
    "int \<Rightarrow> db \<Rightarrow> int \<Rightarrow> string \<Rightarrow> string \<Rightarrow> firm_settings \<Rightarrow> engine
      \<Rightarrow> (router_error, effective_policy) result \<times> engine" where
  "resolve ttlMs d now f tcKey st e =
     (let key = firm_key f tcKey;
          miss = (case resolve_db d f tcKey st of
                    Inl err \<Rightarrow> (Inl err, e)
                  | Inr v \<Rightarrow> (Inr v, e\<lparr>cache := map_set key (v, now + ttlMs) (cache e)\<rparr>))
      in case map_get (cache e) key of
           Some (v, expires) \<Rightarrow> if expires > now then (Inr v, e) else miss
         | None \<Rightarrow> miss)"

section \<open>Validation\<close>

text \<open>What a candidate that passes validation satisfies.\<close>

definition model_ok :: "model_row \<Rightarrow> effective_policy \<Rightarrow> capability list \<Rightarrow> bool" where
  "model_ok m eff needs \<longleftrightarrow>
     mdl_status m \<noteq> MSunset
     \<and> (sensitivity (ep_taskClass eff) = local_only \<longrightarrow> isLocalKind (providerKind m))
     \<and> modelBanned m (ep_firmSettings eff) = Inr None
     \<and> (\<forall>n\<in>set needs. effectiveCapability m n)"

lemma modelViolation_None_iff:
  "modelViolation m eff env (Some needs) = Inr None \<longleftrightarrow> model_ok m eff needs"
  by (auto simp: modelViolation_def model_ok_def missingCapabilities_def js_simps Let_def
      filter_empty_conv split: option.splits)

lemma modelViolation_needs:
  "modelViolation m eff env None = modelViolation m eff env (Some (requiredCapabilities eff env))"
  by (simp add: modelViolation_def)

text \<open>A capability violation names exactly the required capabilities the model lacks; any other
  violation is a policy one.\<close>

lemma modelViolation_cases:
  assumes "modelViolation m eff env (Some needs) = Inr (Some w)"
  shows "(v_code w = capability_missing \<and> v_missing w = Some (missingCapabilities m needs)
            \<and> missingCapabilities m needs \<noteq> [])
    \<or> (v_code w = policy_blocked \<and> v_missing w = None)"
proof (cases "modelBanned m (ep_firmSettings eff)")
  case (Inl e)
  with assms show ?thesis
    by (simp add: modelViolation_def split: if_splits) auto
next
  case (Inr b)
  with assms show ?thesis
    by (cases b) (auto simp: modelViolation_def Let_def split: if_splits)
qed

lemma wmatch_literal: "wmatch (map WLit p) s \<longleftrightarrow> map lower_char s = map lower_char p"
proof (induction p arbitrary: s)
  case (Cons c p)
  then show ?case
    by (cases s) auto
qed auto

section \<open>Selection\<close>

lemma scan_found:
  "scan_candidates eff env needs u ms = Inr (Some m, u') \<Longrightarrow>
     \<exists>pre post. ms = pre @ m # post \<and> model_ok m eff needs \<and> (\<forall>x\<in>set pre. \<not> model_ok x eff needs)"
proof (induction ms arbitrary: u)
  case (Cons x ms)
  show ?case
  proof (cases "model_ok x eff needs")
    case True
    with Cons.prems have "m = x"
      by (simp add: modelViolation_None_iff [of x eff env, symmetric])
    with True show ?thesis
      by (intro exI [of _ "[]"] exI [of _ ms]) auto
  next
    case False
    then have "modelViolation x eff env (Some needs) \<noteq> Inr None"
      by (simp add: modelViolation_None_iff)
    with Cons.prems obtain w where w: "modelViolation x eff env (Some needs) = Inr (Some w)"
      by (cases "modelViolation x eff env (Some needs)") auto
    with Cons.prems Cons.IH obtain pre post
      where "ms = pre @ m # post" "model_ok m eff needs" "\<forall>x\<in>set pre. \<not> model_ok x eff needs"
      by (auto split: if_splits)
    with False show ?thesis
      by (intro exI [of _ "x # pre"] exI [of _ post]) auto
  qed
qed simp

lemma scan_none:
  "scan_candidates eff env needs u ms = Inr (None, u') \<Longrightarrow>
     (\<forall>x\<in>set ms. \<not> model_ok x eff needs)
     \<and> set u' = {c \<in> set u. \<forall>x\<in>set ms. \<forall>w. modelViolation x eff env (Some needs) = Inr (Some w) \<longrightarrow>
                   v_code w = capability_missing \<longrightarrow> c \<in> set (missingCapabilities x needs)}"
proof (induction ms arbitrary: u)
  case (Cons x ms)
  from Cons.prems obtain w where w: "modelViolation x eff env (Some needs) = Inr (Some w)"
    by (auto simp: js_simps split: option.splits)
  then have "\<not> model_ok x eff needs"
    by (simp flip: modelViolation_None_iff [of x eff env])
  with Cons w modelViolation_cases [OF w] show ?case
    by (auto split: if_splits)
qed simp

lemma select_default_cases:
  assumes "select_default eff env needs = Inr (m, up)"
  shows "(m = ep_defaultModel eff \<and> up = None \<and> model_ok m eff needs)
    \<or> (\<exists>pre post. ordered_candidates eff = pre @ m # post \<and> model_ok m eff needs
         \<and> (\<forall>x\<in>set pre. \<not> model_ok x eff needs)
         \<and> missingCapabilities (ep_defaultModel eff) needs \<noteq> []
         \<and> (\<exists>w. modelViolation (ep_defaultModel eff) eff env (Some needs) = Inr (Some w)
              \<and> v_code w = capability_missing)
         \<and> up = Some \<lparr>up_from = canonicalId (ep_defaultModel eff), up_to = canonicalId m,
                     up_missing = missingCapabilities (ep_defaultModel eff) needs\<rparr>)"
proof -
  let ?dm = "ep_defaultModel eff"
  from assms obtain v where v: "modelViolation ?dm eff env (Some needs) = Inr v"
    by (auto simp: select_default_def js_simps)
  show ?thesis
  proof (cases v)
    case None
    with v have "model_ok ?dm eff needs"
      by (simp flip: modelViolation_None_iff [of _ _ env])
    with v None assms show ?thesis
      by (simp add: select_default_def)
  next
    case (Some w)
    with v assms have w: "v_code w = capability_missing"
      by (auto simp: select_default_def split: if_splits)
    note vc = modelViolation_cases [OF v [unfolded Some]]
    from w vc have mis: "v_missing w = Some (missingCapabilities ?dm needs)"
      by auto
    from v Some w mis assms obtain u' where
      "scan_candidates eff env needs (missingCapabilities ?dm needs) (ordered_candidates eff) = Inr (Some m, u')"
      and up: "up = Some \<lparr>up_from = canonicalId ?dm, up_to = canonicalId m,
                     up_missing = missingCapabilities ?dm needs\<rparr>"
      by (auto simp: select_default_def js_simps split: option.splits if_splits)
    from scan_found [OF this(1)] v Some w vc up show ?thesis
      by auto
  qed
qed

section \<open>Resolved policies\<close>

text \<open>The consistency of an effective policy: rows are stored under their ids, the default model is
  the one the policy names, and only models the policy binds are present.\<close>

definition bound_ids :: "effective_policy \<Rightarrow> string list" where
  "bound_ids eff =
     defaultModelId (ep_policy eff) # allowedModelIds (ep_policy eff) @ fallbackChain (ep_policy eff)"

definition eff_ok :: "effective_policy \<Rightarrow> bool" where
  "eff_ok eff \<longleftrightarrow>
     map_get (ep_modelsById eff) (defaultModelId (ep_policy eff)) = Some (ep_defaultModel eff)
     \<and> map_ok (ep_modelsById eff)
     \<and> (\<forall>(i, m)\<in>set (ep_modelsById eff). mdl_id m = i \<and> i \<in> set (bound_ids eff))"

lemma by_id_fold:
  "(\<forall>(i, m)\<in>set acc. mdl_id m = i \<and> P i) \<Longrightarrow> \<forall>m\<in>set rows. P (mdl_id m) \<Longrightarrow> map_ok acc \<Longrightarrow>
     map_ok (fold (\<lambda>m. map_set (mdl_id m) m) rows acc)
     \<and> (\<forall>(i, m)\<in>set (fold (\<lambda>m. map_set (mdl_id m) m) rows acc). mdl_id m = i \<and> P i)"
proof (induction rows arbitrary: acc)
  case (Cons r rows)
  have "\<forall>(i, m)\<in>set (map_set (mdl_id r) r acc). mdl_id m = i \<and> P i"
    using Cons.prems map_set_subset [of "mdl_id r" r acc] by fastforce
  with Cons show ?case
    by simp
qed simp

lemma resolve_db_ok:
  assumes "resolve_db d f tcKey st = Inr eff"
  shows "eff_ok eff \<and> tcl_key (ep_taskClass eff) = tcKey \<and> pol_firmId (ep_policy eff) = f
    \<and> enabled (ep_policy eff) \<and> ep_taskClass eff \<in> set (taskClasses d) \<and> ep_policy eff \<in> set (policies d)
    \<and> pol_taskClassId (ep_policy eff) = tcl_id (ep_taskClass eff)
    \<and> set (map_vals (ep_modelsById eff)) \<subseteq> set (models d) \<and> ep_firmSettings eff = st"
proof -
  from assms obtain tc pol dm where
    tc: "find_first (\<lambda>t. tcl_key t = tcKey) (taskClasses d) = Some tc" and
    pol: "find_first (\<lambda>p. pol_firmId p = f \<and> pol_taskClassId p = tcl_id tc) (policies d) = Some pol" "enabled pol"
    by (auto simp: resolve_db_def Let_def split: option.splits if_splits)
  define rows where
    "rows = filter (\<lambda>m. mdl_id m \<in> set (dedupe (defaultModelId pol # allowedModelIds pol @ fallbackChain pol))) (models d)"
  define byId where "byId = fold (\<lambda>m. map_set (mdl_id m) m) rows []"
  from assms tc pol obtain dm' where
    dm: "map_get byId (defaultModelId pol) = Some dm'" and
    eff: "ep_taskClass eff = tc" "ep_policy eff = pol" "ep_defaultModel eff = dm'" "ep_modelsById eff = byId"
      "ep_firmSettings eff = st"
    by (auto simp: resolve_db_def Let_def rows_def byId_def split: option.splits)
  have "map_ok byId \<and> (\<forall>(i, m)\<in>set byId. mdl_id m = i \<and> i \<in> set (bound_ids eff))"
    unfolding byId_def by (rule by_id_fold) (auto simp: rows_def bound_ids_def eff)
  moreover have "set (map_vals byId) \<subseteq> set rows"
  proof -
    have "set (map_vals (fold (\<lambda>m. map_set (mdl_id m) m) rs acc)) \<subseteq> set (map_vals acc) \<union> set rs" for rs acc
    proof (induction rs arbitrary: acc)
      case (Cons r rs)
      from Cons [of "map_set (mdl_id r) r acc"] map_vals_set_subset [of "mdl_id r" r acc] show ?case
        by auto
    qed simp
    from this [of rows "[]"] show ?thesis
      by (simp add: byId_def map_vals_def)
  qed
  ultimately show ?thesis
    using find_first_Some [OF tc] find_first_Some [OF pol(1)] pol(2) dm
    by (auto simp: eff_ok_def eff rows_def)
qed

lemma configured_bound:
  assumes "eff_ok eff" "m \<in> set (configured eff)"
  shows "mdl_id m \<in> set (allowedModelIds (ep_policy eff) @ fallbackChain (ep_policy eff))"
proof -
  from assms(2) obtain i where "i \<in> set (configured_ids eff)" "map_get (ep_modelsById eff) i = Some m"
    by (auto simp: configured_def)
  moreover from assms(1) map_get_in [OF this(2)] have "mdl_id m = i"
    by (auto simp: eff_ok_def)
  ultimately show ?thesis
    by (auto simp: configured_ids_def)
qed

lemma set_ordered [simp]: "set (ordered_candidates eff) = set (configured eff)"
  by (auto simp: ordered_candidates_def)

text \<open>The first valid candidate of the local-first order is local whenever a valid local one exists.\<close>

lemma ordered_local_first:
  assumes "ordered_candidates eff = pre @ m # post" "\<forall>x\<in>set pre. \<not> P x" "P y"
    and "y \<in> set (configured eff)" "isLocalKind (providerKind y)"
  shows "isLocalKind (providerKind m)"
proof (rule ccontr)
  assume m: "\<not> isLocalKind (providerKind m)"
  let ?L = "filter (\<lambda>m. isLocalKind (providerKind m)) (configured eff)"
  have "takeWhile (\<lambda>x. isLocalKind (providerKind x)) (ordered_candidates eff) = ?L"
    unfolding ordered_candidates_def by (rule takeWhile_partition)
  moreover have "set (takeWhile (\<lambda>x. isLocalKind (providerKind x)) (pre @ m # post)) \<subseteq> set pre"
    using m by (rule takeWhile_stop)
  moreover have "y \<in> set ?L"
    using assms(4,5) by simp
  ultimately show False
    using assms(1-3) by auto
qed

lemma selectModel_cases:
  assumes "selectModel eff env = Inr (m, up)"
  shows "(requested_match eff env = Some m \<and> up = None \<and> model_ok m eff (requiredCapabilities eff env))
    \<or> select_default eff env (requiredCapabilities eff env) = Inr (m, up)"
  using assms
  by (auto simp: selectModel_def Let_def js_simps modelViolation_None_iff split: option.splits if_splits)

lemma requested_match_Some:
  "requested_match eff env = Some m \<Longrightarrow> m \<in> set (map_vals (ep_modelsById eff))
     \<and> modelRequested env = Some (canonicalId m)
     \<and> mdl_id m \<in> set (defaultModelId (ep_policy eff) # allowedModelIds (ep_policy eff))"
  by (auto simp: requested_match_def split: option.splits if_splits dest!: find_first_Some)

lemma selectModel_bound:
  assumes "eff_ok eff" "selectModel eff env = Inr (m, up)"
  shows "mdl_id m \<in> set (bound_ids eff) \<and> map_get (ep_modelsById eff) (mdl_id m) = Some m"
proof -
  have stored: "map_get (ep_modelsById eff) i = Some x \<Longrightarrow> mdl_id x = i" for i x
    using assms(1) map_get_in by (fastforce simp: eff_ok_def)
  have def: "map_get (ep_modelsById eff) (defaultModelId (ep_policy eff)) = Some (ep_defaultModel eff)"
    using assms(1) by (simp add: eff_ok_def)
  from selectModel_cases [OF assms(2)] consider
      "requested_match eff env = Some m" | "m = ep_defaultModel eff" | "m \<in> set (configured eff)"
    by (metis select_default_cases set_ordered in_set_conv_decomp)
  then show ?thesis
  proof cases
    case 1
    with requested_match_Some obtain i where i: "(i, m) \<in> set (ep_modelsById eff)"
      by (fastforce simp: map_vals_def)
    with assms(1) have "mdl_id m = i" "map_get (ep_modelsById eff) i = Some m"
      by (auto simp: eff_ok_def map_get_def map_ok_def)
    with requested_match_Some [OF 1] show ?thesis
      by (auto simp: bound_ids_def)
  next
    case 2
    with def stored show ?thesis
      by (auto simp: bound_ids_def)
  next
    case 3
    then obtain i where "map_get (ep_modelsById eff) i = Some m"
      by (auto simp: configured_def)
    with stored configured_bound [OF assms(1) 3] show ?thesis
      by (auto simp: bound_ids_def)
  qed
qed

lemma firm_key_inj:
  assumes "CHR '':'' \<notin> set f" "CHR '':'' \<notin> set g" "firm_key f a = firm_key g b"
  shows "f = g \<and> a = b"
proof -
  have "takeWhile (\<lambda>c. c \<noteq> CHR '':'') (firm_key h x) = h \<and> drop (Suc (length h)) (firm_key h x) = x"
    if "CHR '':'' \<notin> set h" for h x
    using that by (induction h) (auto simp: firm_key_def)
  with assms show ?thesis
    by metis
qed

lemma starts_with_firm_key:
  assumes "CHR '':'' \<notin> set f" "CHR '':'' \<notin> set g"
  shows "starts_with (f @ '':'') (firm_key g b) \<longleftrightarrow> f = g"
proof
  assume "starts_with (f @ '':'') (firm_key g b)"
  then obtain r where "firm_key g b = firm_key f r"
    by (auto simp: starts_with_iff firm_key_def)
  with firm_key_inj [OF assms(2,1)] show "f = g"
    by blast
next
  assume "f = g"
  then show "starts_with (f @ '':'') (firm_key g b)"
    by (simp add: firm_key_def starts_with_iff)
qed

lemma map_get_filter_keys:
  "map_get (filter (\<lambda>(k, v). P k) m) k = (if P k then map_get m k else None)"
  by (induction m) (auto simp: map_get_def)

lemma fold_min_le: "fold (\<lambda>m t. min t m) ms t \<le> (t :: rat) \<and> (\<forall>m\<in>set ms. fold (\<lambda>m t. min t m) ms t \<le> m)"
proof (induction ms arbitrary: t)
  case (Cons m ms)
  show ?case
    using Cons [of "min t m"] by simp
qed simp

lemma set_temperature_maxima:
  "set (temperature_maxima eff) =
     {hi. temperatureMax (ep_policy eff) = Some hi \<or> global_temperature_max (ep_firmSettings eff) = Some hi}"
  by (auto simp: temperature_maxima_def)

lemma clamp_temperature_bounds:
  "(\<forall>hi. temperatureMax (ep_policy eff) = Some hi \<or> global_temperature_max (ep_firmSettings eff) = Some hi
      \<longrightarrow> clamp_temperature eff t \<le> hi \<or> temperatureMin (ep_policy eff) = Some (clamp_temperature eff t))
   \<and> (\<forall>lo. temperatureMin (ep_policy eff) = Some lo \<longrightarrow> lo \<le> clamp_temperature eff t)
   \<and> (clamp_temperature eff t \<le> t \<or> temperatureMin (ep_policy eff) = Some (clamp_temperature eff t))"
  using fold_min_le [where ms = "temperature_maxima eff" and t = t]
  by (auto simp: set_temperature_maxima clamp_temperature_def Let_def max_def split: option.splits)

lemma clampToModel_set:
  "maxTokens env = Some n \<Longrightarrow> clampToModel env m =
     env\<lparr>maxTokens := Some (case maxOutput m of None \<Rightarrow> n | Some limit \<Rightarrow> if limit \<le> 0 then n else min n limit)\<rparr>"
  by (cases env) (auto simp: clampToModel_def split: option.splits)

lemma applyLimits_sel:
  "maxTokens (applyLimits eff env) = Some (min (nullish (maxTokens env) (token_cap eff)) (token_cap eff))"
  "temperature (applyLimits eff env) = map_option (clamp_temperature eff) (temperature env)"
  by (simp_all add: applyLimits_def)

section \<open>Properties\<close>

text \<open>
  C10. A selected model is always one the policy binds and passes every check: it is not sunset, it
  is local when the task class is \<open>local_only\<close>, no firm ban hits it, and it has every capability
  the class or the request needs.
\<close>

theorem selectModel_sound:
  assumes "eff_ok eff" and "selectModel eff env = Inr (m, up)"
  shows "mdl_id m \<in> set (bound_ids eff)
    \<and> mdl_status m \<noteq> MSunset
    \<and> (sensitivity (ep_taskClass eff) = local_only \<longrightarrow> isLocalKind (providerKind m))
    \<and> modelBanned m (ep_firmSettings eff) = Inr None
    \<and> (\<forall>n\<in>set (requiredCapabilities eff env). effectiveCapability m n)"
proof -
  from selectModel_cases [OF assms(2)] have "model_ok m eff (requiredCapabilities eff env)"
    using select_default_cases by blast
  with selectModel_bound [OF assms] show ?thesis
    by (simp add: model_ok_def)
qed

text \<open>
  Substitution is only ever a capability upgrade: when selection reports one, the default failed
  on capabilities alone, the substitute comes from the configured models and has every required
  capability, it is a local model whenever some configured local model would do, and the reported
  gap is exactly what the default lacks.
\<close>

theorem selectModel_upgrade_local_first:
  assumes "selectModel eff env = Inr (m, Some info)"
  shows "(\<exists>w. modelViolation (ep_defaultModel eff) eff env None = Inr (Some w) \<and> v_code w = capability_missing)
    \<and> m \<in> set (configured eff)
    \<and> (\<forall>n\<in>set (requiredCapabilities eff env). effectiveCapability m n)
    \<and> ((\<exists>y\<in>set (configured eff). isLocalKind (providerKind y) \<and> modelViolation y eff env None = Inr None)
         \<longrightarrow> isLocalKind (providerKind m))
    \<and> up_to info = canonicalId m
    \<and> set (up_missing info) = {n \<in> set (requiredCapabilities eff env). \<not> effectiveCapability (ep_defaultModel eff) n}"
proof -
  let ?needs = "requiredCapabilities eff env"
  from selectModel_cases [OF assms] have "select_default eff env ?needs = Inr (m, Some info)"
    by simp
  from select_default_cases [OF this] obtain pre post w where
    split: "ordered_candidates eff = pre @ m # post" and ok: "model_ok m eff ?needs"
    and pre: "\<forall>x\<in>set pre. \<not> model_ok x eff ?needs"
    and w: "modelViolation (ep_defaultModel eff) eff env (Some ?needs) = Inr (Some w)" "v_code w = capability_missing"
    and info: "info = \<lparr>up_from = canonicalId (ep_defaultModel eff), up_to = canonicalId m,
                       up_missing = missingCapabilities (ep_defaultModel eff) ?needs\<rparr>"
    by blast
  have "m \<in> set (configured eff)"
    using split by (simp flip: set_ordered)
  moreover have "isLocalKind (providerKind m)"
    if "y \<in> set (configured eff)" "isLocalKind (providerKind y)" "model_ok y eff ?needs" for y
    using ordered_local_first [OF split pre] that by blast
  ultimately show ?thesis
    using ok w info
    by (auto simp: modelViolation_needs modelViolation_None_iff model_ok_def missingCapabilities_def)
qed

text \<open>
  Errors diagnose what is missing: \<open>no_vision_provider\<close> is raised only when vision is required,
  the default lacks it, no configured model passes, and every configured model that failed on
  capabilities lacks vision too; a default that fails on policy (sunset, sensitivity, ban) is
  reported as such and never replaced.
\<close>

theorem selectModel_diagnosis:
  assumes "selectModel eff env = Inl (Routed e)"
  shows "(code e = no_vision_provider \<longrightarrow>
       Cap_vision \<in> set (requiredCapabilities eff env)
       \<and> \<not> effectiveCapability (ep_defaultModel eff) Cap_vision
       \<and> (\<forall>x\<in>set (configured eff). modelViolation x eff env None \<noteq> Inr None)
       \<and> (\<forall>x\<in>set (configured eff). \<forall>w. modelViolation x eff env None = Inr (Some w) \<longrightarrow>
            v_code w = capability_missing \<longrightarrow> \<not> effectiveCapability x Cap_vision))
    \<and> (code e = policy_blocked \<longrightarrow>
         (\<exists>w. modelViolation (ep_defaultModel eff) eff env None = Inr (Some w) \<and> v_code w = policy_blocked))
    \<and> code e \<in> {no_vision_provider, capability_missing, policy_blocked}"
proof -
  let ?needs = "requiredCapabilities eff env" and ?dm = "ep_defaultModel eff"
  have routed: "modelViolation x eff env ns \<noteq> Inl (Routed e)" for x ns
  proof -
    have "banned_by_pattern ps c \<noteq> Inl (Routed e)" for ps c
      by (induction ps) (auto split: option.splits)
    then show ?thesis
      by (auto simp: modelViolation_def modelBanned_def js_simps Let_def split: option.splits)
  qed
  have scan_routed: "scan_candidates eff env ns u ms \<noteq> Inl (Routed e)" for ns u ms
    by (induction ms arbitrary: u) (auto simp: js_simps routed split: option.splits)
  from assms routed have sd: "select_default eff env ?needs = Inl (Routed e)"
    by (auto simp: selectModel_def Let_def js_simps split: option.splits if_splits)
  with routed obtain w where w: "modelViolation ?dm eff env (Some ?needs) = Inr (Some w)"
    by (auto simp: select_default_def js_simps split: option.splits)
  show ?thesis
  proof (cases "v_code w = capability_missing")
    case False
    with modelViolation_cases [OF w] sd w show ?thesis
      by (auto simp: select_default_def modelViolation_needs)
  next
    case True
    with modelViolation_cases [OF w] have mis: "v_missing w = Some (missingCapabilities ?dm ?needs)"
      by simp
    with sd w True scan_routed obtain u where
      scan: "scan_candidates eff env ?needs (missingCapabilities ?dm ?needs) (ordered_candidates eff) = Inr (None, u)"
      and e: "e = (if Cap_vision \<in> set u then no_vision_error eff else router_error0 capability_missing (v_reason w))"
      by (auto simp: select_default_def js_simps split: option.splits if_splits)
    from scan_none [OF scan] e show ?thesis
      by (auto simp: modelViolation_needs modelViolation_None_iff missingCapabilities_def no_vision_error_def)
  qed
qed

text \<open>
  The outgoing limits: after \<open>applyLimits\<close> the token limit is always set and never above the
  policy's override (or the class default) nor above what was asked; the temperature is unset
  exactly when it was, never above the policy and firm maxima unless the policy's own minimum
  forces it, and never below that minimum. The per-model clamp of a hop then lowers the token
  limit to the model's own ceiling when that is known, and changes nothing else.
\<close>

theorem limits_respected:
  "\<exists>n. maxTokens (applyLimits eff env) = Some n
     \<and> n \<le> nullish (maxTokensOverride (ep_policy eff)) (defaultMaxTokens (ep_taskClass eff))
     \<and> (case maxTokens env of None \<Rightarrow> n = token_cap eff | Some a \<Rightarrow> n \<le> a)
     \<and> (case temperature env of
          None \<Rightarrow> temperature (applyLimits eff env) = None
        | Some t \<Rightarrow> \<exists>t'. temperature (applyLimits eff env) = Some t'
            \<and> (\<forall>hi. temperatureMax (ep_policy eff) = Some hi \<or> global_temperature_max (ep_firmSettings eff) = Some hi
                 \<longrightarrow> t' \<le> hi \<or> temperatureMin (ep_policy eff) = Some t')
            \<and> (\<forall>lo. temperatureMin (ep_policy eff) = Some lo \<longrightarrow> lo \<le> t')
            \<and> (t' \<le> t \<or> temperatureMin (ep_policy eff) = Some t'))
     \<and> clampToModel (applyLimits eff env) m =
         (applyLimits eff env)\<lparr>maxTokens := Some (case maxOutput m of
            None \<Rightarrow> n | Some limit \<Rightarrow> if limit \<le> 0 then n else min n limit)\<rparr>"
proof -
  define n where "n = min (nullish (maxTokens env) (token_cap eff)) (token_cap eff)"
  have mt: "maxTokens (applyLimits eff env) = Some n"
    by (simp add: n_def applyLimits_sel)
  have "n \<le> nullish (maxTokensOverride (ep_policy eff)) (defaultMaxTokens (ep_taskClass eff))"
    by (simp add: n_def token_cap_def)
  moreover have "case maxTokens env of None \<Rightarrow> n = token_cap eff | Some a \<Rightarrow> n \<le> a"
    by (simp add: n_def split: option.splits)
  moreover note clampToModel_set [OF mt, of m] clamp_temperature_bounds [of eff]
  ultimately show ?thesis
    by (intro exI [of _ n] conjI mt) (auto simp: applyLimits_sel split: option.splits)
qed


section \<open>A concrete policy\<close>

text \<open>A class whose default, a cloud model, lacks vision; the allowed set names a cloud model with
  vision before a local one with vision.\<close>

definition ex_default :: model_row where
  "ex_default = example_model"

definition ex_cloud_vision :: model_row where
  "ex_cloud_vision = example_model\<lparr>mdl_id := ''m2'', canonicalId := ''anthropic/v'', providerKind := anthropic,
     capabilities := [(Cap_vision, True)]\<rparr>"

definition ex_local_vision :: model_row where
  "ex_local_vision = example_model\<lparr>mdl_id := ''m3'', canonicalId := ''ollama/v'', providerKind := local,
     maxOutput := Some 512, capabilities := [(Cap_vision, True)]\<rparr>"

definition ex_task_class :: task_class_row where
  "ex_task_class = \<lparr>tcl_id = ''t1'', tcl_key = ''doc_read'', tcl_app = ''vibe'', tcl_description = [],
     sensitivity = cloud_allowed, requires = None, defaultMaxTokens = 1024, registeredByAppVersion = None\<rparr>"

definition ex_policy :: policy_row where
  "ex_policy = example_policy\<lparr>allowedModelIds := [''m2'', ''m3''], temperatureMax := Some 1\<rparr>"

definition ex_eff :: effective_policy where
  "ex_eff = \<lparr>ep_taskClass = ex_task_class, ep_policy = ex_policy, ep_defaultModel = ex_default,
     ep_modelsById = [(''m1'', ex_default), (''m2'', ex_cloud_vision), (''m3'', ex_local_vision)],
     ep_roleRules = [], ep_firmSettings = default_firm_settings\<rparr>"

definition ex_env :: ai_request where
  "ex_env = \<lparr>taskClass = ''doc_read'',
     messages = [\<lparr>m_role = RUser, m_content = CParts [TextPart ''see'', ImagePart ''data:x''],
                  m_toolCalls = None, m_toolCallId = None\<rparr>],
     tools = None, toolChoice = None, responseFormat = None, maxTokens = Some 4000,
     temperature = Some (3 / 2), topP = None, stop = None, stream = False, modelRequested = None,
     metadata = example_md\<rparr>"

definition ex_blind_eff :: effective_policy where
  "ex_blind_eff = ex_eff\<lparr>ep_policy := example_policy, ep_modelsById := [(''m1'', ex_default)]\<rparr>"

lemmas ex_defs = ex_default_def ex_cloud_vision_def ex_local_vision_def ex_task_class_def ex_policy_def
  ex_eff_def ex_env_def ex_blind_eff_def example_model_def example_policy_def example_md_def
  default_firm_settings_def

lemmas select_eval = ex_defs selectModel_def requested_match_def select_default_def
  requiredCapabilities_def classRequires_def no_requires_def requestRequires_def wants_schema_def dedupe_def
  modelViolation_def modelBanned_def missingCapabilities_def effectiveCapability_def
  ordered_candidates_def configured_def configured_ids_def map_get_def Let_def

lemma ex_eff_ok: "eff_ok ex_eff"
  by (simp add: ex_defs eff_ok_def bound_ids_def map_get_def map_ok_def)

lemma ex_select: "\<exists>info. selectModel ex_eff ex_env = Inr (ex_local_vision, Some info)"
  by (simp add: select_eval)

lemma ex_blind_select: "selectModel ex_blind_eff ex_env = Inl (Routed (no_vision_error ex_blind_eff))"
  by (simp add: select_eval)

theorem selectModel_sound_witness:
  "mdl_id ex_local_vision \<in> set (bound_ids ex_eff)
    \<and> mdl_status ex_local_vision \<noteq> MSunset
    \<and> modelBanned ex_local_vision (ep_firmSettings ex_eff) = Inr None
    \<and> Cap_vision \<in> set (requiredCapabilities ex_eff ex_env)
    \<and> effectiveCapability ex_local_vision Cap_vision"
proof -
  have "Cap_vision \<in> set (requiredCapabilities ex_eff ex_env)"
    by (simp add: select_eval)
  with ex_select selectModel_sound [OF ex_eff_ok] show ?thesis
    by blast
qed

theorem selectModel_upgrade_local_first_witness:
  "\<exists>info. selectModel ex_eff ex_env = Inr (ex_local_vision, Some info)
    \<and> ex_local_vision \<in> set (configured ex_eff) \<and> up_to info = canonicalId ex_local_vision
    \<and> set (up_missing info) = {n \<in> set (requiredCapabilities ex_eff ex_env). \<not> effectiveCapability (ep_defaultModel ex_eff) n}"
  using ex_select selectModel_upgrade_local_first by blast

theorem selectModel_diagnosis_witness:
  "Cap_vision \<in> set (requiredCapabilities ex_blind_eff ex_env)
    \<and> \<not> effectiveCapability (ep_defaultModel ex_blind_eff) Cap_vision"
  using selectModel_diagnosis [OF ex_blind_select] by (simp add: no_vision_error_def)

theorem limits_respected_witness:
  "\<exists>n t'. maxTokens (applyLimits ex_eff ex_env) = Some n \<and> n \<le> 1024
     \<and> temperature (applyLimits ex_eff ex_env) = Some t' \<and> t' \<le> 1
     \<and> clampToModel (applyLimits ex_eff ex_env) ex_local_vision = (applyLimits ex_eff ex_env)\<lparr>maxTokens := Some (min n 512)\<rparr>"
  using limits_respected [where eff = ex_eff and env = ex_env and m = ex_local_vision] by (auto simp: ex_defs)


end
