(* ===== verification/Verify.thy ===== *)
theory Verify
  imports Envelope
begin

text \<open>
  Response verification of \<^verbatim>\<open>src/src/gateway/verify.ts\<close>: the JSON Schema subset validator in strict
  and structural mode, and the verdict on a hop's response. The validator's two mutable
  collectors are part of its result: the soft findings (paths of enum misses) and the number of
  enum constraints the value satisfied. A schema is well typed at the keywords the validator
  reads (\<open>required\<close> a list of strings, \<open>properties\<close> an object); two JSON values print alike iff
  they are equal, so the enum comparison is equality.
\<close>

section \<open>Findings\<close>

datatype finding_reason =
    empty_response
  | provider_error_finish
  | tool_arguments_not_json
  | response_not_json
  | json_truncated
  | schema_violation

fun reason_name :: "finding_reason \<Rightarrow> string" where
  "reason_name empty_response = ''empty_response''"
| "reason_name provider_error_finish = ''provider_error_finish''"
| "reason_name tool_arguments_not_json = ''tool_arguments_not_json''"
| "reason_name response_not_json = ''response_not_json''"
| "reason_name json_truncated = ''json_truncated''"
| "reason_name schema_violation = ''schema_violation''"

definition INVALID_RESPONSE_REASONS :: "finding_reason list" where
  "INVALID_RESPONSE_REASONS =
     [empty_response, provider_error_finish, tool_arguments_not_json, response_not_json,
      json_truncated, schema_violation]"

record verify_finding =
  f_reason :: finding_reason
  f_message :: string
  f_path :: "string option"

text \<open>A soft finding is an enum miss; only its path is kept.\<close>

type_synonym soft_finding = string

section \<open>Fences\<close>

definition strip_open_fence :: "string \<Rightarrow> string" where
  "strip_open_fence s =
     (if starts_with ''```'' s
      then let r = drop 3 s
           in dropWhile is_space (if to_lower (take 4 r) = ''json'' then drop 4 r else r)
      else s)"

definition strip_close_fence :: "string \<Rightarrow> string" where
  "strip_close_fence s =
     (if ends_with ''```'' s then rev (dropWhile is_space (drop 3 (rev s))) else s)"

definition stripFence :: "string \<Rightarrow> string" where
  "stripFence raw = trim (strip_close_fence (strip_open_fence (trim raw)))"

section \<open>The schema subset\<close>

fun typeOf :: "json \<Rightarrow> string" where
  "typeOf JNull = ''null''"
| "typeOf (JArr _) = ''array''"
| "typeOf (JObj _) = ''object''"
| "typeOf (JNum _) = ''number''"
| "typeOf (JStr _) = ''string''"
| "typeOf (JBool _) = ''boolean''"

fun is_integer :: "json \<Rightarrow> bool" where
  "is_integer (JNum x) = (of_int (floor x) = x)"
| "is_integer _ = False"

fun typeMatches :: "json \<Rightarrow> json \<Rightarrow> bool" where
  "typeMatches value (JStr expected) =
     (if expected = ''integer'' then typeOf value = ''number'' \<and> is_integer value
      else if expected = ''number'' then typeOf value = ''number''
      else typeOf value = expected)"
| "typeMatches value _ = False"

text \<open>How a member of \<open>type\<close> prints in a message.\<close>

fun type_label :: "json \<Rightarrow> string" where
  "type_label (JStr s) = s"
| "type_label JNull = []"
| "type_label v = json_stringify v"

definition permitted_types :: "(string \<times> json) list \<Rightarrow> json list option" where
  "permitted_types ms =
     (case obj_get ms ''type'' of
        None \<Rightarrow> None
      | Some t \<Rightarrow>
          (let expected = (case t of JArr ts \<Rightarrow> ts | _ \<Rightarrow> [t])
           in Some (if obj_get ms ''nullable'' = Some (JBool True) then expected @ [JStr ''null''] else expected)))"

definition type_violation :: "(string \<times> json) list \<Rightarrow> json \<Rightarrow> string option" where
  "type_violation ms value =
     (case permitted_types ms of
        None \<Rightarrow> None
      | Some ts \<Rightarrow>
          if list_ex (typeMatches value) ts then None
          else Some (''expected '' @ join '' | '' (map type_label ts) @ '', received '' @ typeOf value))"

definition enum_of :: "(string \<times> json) list \<Rightarrow> json list" where
  "enum_of ms = (case obj_get ms ''enum'' of Some (JArr es) \<Rightarrow> es | _ \<Rightarrow> [])"

definition branches_of :: "(string \<times> json) list \<Rightarrow> json list" where
  "branches_of ms =
     (case (case obj_get ms ''anyOf'' of
              None \<Rightarrow> obj_get ms ''oneOf''
            | Some v \<Rightarrow> if v = JNull then obj_get ms ''oneOf'' else Some v) of
        Some (JArr bs) \<Rightarrow> bs
      | _ \<Rightarrow> [])"

definition properties_of :: "(string \<times> json) list \<Rightarrow> (string \<times> json) list" where
  "properties_of ms = (case obj_get ms ''properties'' of Some (JObj ps) \<Rightarrow> ps | _ \<Rightarrow> [])"

fun json_strings :: "json list \<Rightarrow> string list" where
  "json_strings [] = []"
| "json_strings (JStr s # vs) = s # json_strings vs"
| "json_strings (_ # vs) = json_strings vs"

definition required_of :: "(string \<times> json) list \<Rightarrow> string list" where
  "required_of ms = (case obj_get ms ''required'' of Some (JArr vs) \<Rightarrow> json_strings vs | _ \<Rightarrow> [])"

definition items_of :: "(string \<times> json) list \<Rightarrow> json option" where
  "items_of ms = obj_get ms ''items''"

lemma branches_size [termination_simp]: "size_list size (branches_of ms) < Suc (size_list (size_prod (\<lambda>_. 0) size) ms)"
  using size_map_of [of ms "''anyOf''"] size_map_of [of ms "''oneOf''"]
  by (force simp: branches_of_def obj_get_def split: option.splits json.splits)

lemma properties_size [termination_simp]:
  "size_list (size_prod (\<lambda>_. 0) size) (properties_of ms) < Suc (size_list (size_prod (\<lambda>_. 0) size) ms)"
  using size_map_of [of ms "''properties''"]
  by (force simp: properties_of_def obj_get_def split: option.splits json.splits)

lemma items_size [termination_simp]:
  "items_of ms = Some s \<Longrightarrow> size s < Suc (size_list (size_prod (\<lambda>_. 0) size) ms)"
  unfolding items_of_def obj_get_def by (rule size_map_of)

text \<open>
  \<open>validateSchemaSubset\<close>. The result is the violation (path, message) if any, the soft findings
  pushed so far and the enum hits; in strict mode both collectors stay empty.
\<close>

type_synonym verdict = "(string \<times> string) option \<times> soft_finding list \<times> nat"

definition index_path :: "string \<Rightarrow> nat \<Rightarrow> string" where
  "index_path path i = path @ ''['' @ show_nat i @ '']''"

definition key_path :: "string \<Rightarrow> string \<Rightarrow> string" where
  "key_path path k = path @ ''.'' @ k"

text \<open>Sequencing of two parts that share the collectors.\<close>

fun also_check :: "verdict \<Rightarrow> verdict \<Rightarrow> verdict" where
  "also_check (Some b, s, h) r = (Some b, s, h)"
| "also_check (None, s, h) (b, s', h') = (b, s @ s', h + h')"

definition enum_verdict :: "bool \<Rightarrow> json \<Rightarrow> (string \<times> json) list \<Rightarrow> string \<Rightarrow> verdict" where
  "enum_verdict strict value ms path =
     (if enum_of ms = [] then (None, [], 0)
      else if value \<in> set (enum_of ms) then (None, [], if strict then 0 else 1)
      else if strict then (Some (path, ''value is not one of the permitted enum members''), [], 0)
      else (None, [path], 0))"

definition required_verdict :: "(string \<times> json) list \<Rightarrow> (string \<times> json) list \<Rightarrow> string \<Rightarrow> verdict" where
  "required_verdict ms obj path =
     (case find_first (\<lambda>k. \<not> obj_has obj k) (required_of ms) of
        None \<Rightarrow> (None, [], 0)
      | Some k \<Rightarrow> (Some (key_path path k, ''required property is missing''), [], 0))"

function (sequential)
    vss :: "bool \<Rightarrow> json \<Rightarrow> json \<Rightarrow> string \<Rightarrow> verdict"
  and vss_strict_any :: "json \<Rightarrow> json list \<Rightarrow> string \<Rightarrow> bool"
  and vss_soft_any :: "json \<Rightarrow> json list \<Rightarrow> string \<Rightarrow> (soft_finding list \<times> nat) option
        \<Rightarrow> (string \<times> string) + (soft_finding list \<times> nat) option"
  and vss_props :: "bool \<Rightarrow> (string \<times> json) list \<Rightarrow> (string \<times> json) list \<Rightarrow> string \<Rightarrow> verdict"
  and vss_items :: "bool \<Rightarrow> nat \<Rightarrow> json list \<Rightarrow> json \<Rightarrow> string \<Rightarrow> verdict" where
  "vss strict value (JObj ms) path =
     also_check (enum_verdict strict value ms path)
       (if branches_of ms \<noteq> [] then
          (if vss_strict_any value (branches_of ms) path then (None, [], 0)
           else if strict then (Some (path, ''value matches none of the anyOf/oneOf branches''), [], 0)
           else (case vss_soft_any value (branches_of ms) path None of
                   Inl bad \<Rightarrow> (Some bad, [], 0)
                 | Inr (Some (s, h)) \<Rightarrow> (None, s, h)
                 | Inr None \<Rightarrow> (Some (path, ''value matches none of the anyOf/oneOf branches''), [], 0)))
        else
          (case type_violation ms value of
             Some msg \<Rightarrow> (Some (path, msg), [], 0)
           | None \<Rightarrow>
               (case value of
                  JObj obj \<Rightarrow> also_check (vss_props strict obj (properties_of ms) path) (required_verdict ms obj path)
                | JArr vs \<Rightarrow>
                    (case items_of ms of
                       None \<Rightarrow> (None, [], 0)
                     | Some s \<Rightarrow> vss_items strict 0 vs s path)
                | _ \<Rightarrow> (None, [], 0))))"
| "vss strict value schema path = (None, [], 0)"
| "vss_strict_any value [] path = False"
| "vss_strict_any value (b # bs) path =
     (if fst (vss True value b path) = None then True else vss_strict_any value bs path)"
| "vss_soft_any value [] path winner = Inr winner"
| "vss_soft_any value (b # bs) path winner =
     (case vss False value b path of
        (None, s, h) \<Rightarrow> vss_soft_any value bs path (case winner of None \<Rightarrow> Some (s, h) | Some w \<Rightarrow> Some w)
      | (Some bad, s, h) \<Rightarrow> if h > 0 \<and> s = [] then Inl bad else vss_soft_any value bs path winner)"
| "vss_props strict obj [] path = (None, [], 0)"
| "vss_props strict obj ((k, sub) # ps) path =
     (case obj_get obj k of
        None \<Rightarrow> vss_props strict obj ps path
      | Some v \<Rightarrow> also_check (vss strict v sub (key_path path k)) (vss_props strict obj ps path))"
| "vss_items strict i [] s path = (None, [], 0)"
| "vss_items strict i (v # vs) s path =
     also_check (vss strict v s (index_path path i)) (vss_items strict (Suc i) vs s path)"
  by pat_completeness auto
termination
  by (relation "inv_image (less_than <*lex*> less_than)
        (\<lambda>x. case x of
           Inl (Inl (_, _, s, _)) \<Rightarrow> (size s, 0)
         | Inl (Inr (_, bs, _)) \<Rightarrow> (size_list size bs, 0)
         | Inr (Inl (_, bs, _, _)) \<Rightarrow> (size_list size bs, 0)
         | Inr (Inr (Inl (_, _, ps, _))) \<Rightarrow> (size_list (size_prod (\<lambda>_. 0) size) ps, 0)
         | Inr (Inr (Inr (_, _, vs, s, _))) \<Rightarrow> (size s, Suc (length vs)))")
     (auto simp: branches_size properties_size items_size)

section \<open>The verdict on a response\<close>

definition resolveValidationMode :: "response_format option \<Rightarrow> validation_mode \<Rightarrow> validation_mode" where
  "resolveValidationMode rf defaultMode =
     (case rf of
        Some (RFJsonSchema _ _ st va) \<Rightarrow>
          (case va of
             Some v \<Rightarrow> v
           | None \<Rightarrow> if st = Some True then Strict else defaultMode)
      | _ \<Rightarrow> defaultMode)"

fun wantsJson :: "response_format option \<Rightarrow> bool" where
  "wantsJson (Some (RFJsonSchema _ _ _ _)) = True"
| "wantsJson (Some RFJsonObject) = True"
| "wantsJson _ = False"

definition blank :: "string \<Rightarrow> bool" where
  "blank s = (trim s = [])"

text \<open>The text that must be the JSON answer: the content, else the first tool call's arguments.\<close>

definition json_source :: "ai_response \<Rightarrow> string" where
  "json_source res =
     (if \<not> blank (r_content res) then r_content res
      else (case nullish (r_toolCalls res) [] of [] \<Rightarrow> [] | tc # _ \<Rightarrow> tc_arguments tc))"

text \<open>The finding that makes the response unusable, if any, and the soft findings collected.\<close>

definition schema_verdict ::
    "response_format option \<Rightarrow> validation_mode \<Rightarrow> json \<Rightarrow> verify_finding option \<times> soft_finding list" where
  "schema_verdict rf defaultMode parsed =
     (case rf of
        Some (RFJsonSchema name (Some schema) st va) \<Rightarrow>
          (let strict = (resolveValidationMode rf defaultMode = Strict);
               (bad, soft, h) = vss strict parsed schema ''$''
           in case bad of
                None \<Rightarrow> (None, soft)
              | Some (p, msg) \<Rightarrow>
                  (Some \<lparr>f_reason = schema_violation,
                         f_message = ''response does not satisfy '' @ name @ '': '' @ msg, f_path = Some p\<rparr>, soft))
      | _ \<Rightarrow> (None, []))"

definition verifyResponse ::
    "ai_response \<Rightarrow> ai_request \<Rightarrow> validation_mode \<Rightarrow> verify_finding option \<times> soft_finding list" where
  "verifyResponse res env defaultMode =
     (let toolCalls = nullish (r_toolCalls res) []
      in if finishReason res = FError
         then (Some \<lparr>f_reason = provider_error_finish,
                     f_message = ''provider reported an error finish reason'', f_path = None\<rparr>, [])
         else if blank (r_content res) \<and> toolCalls = [] \<and> finishReason res \<noteq> FContentFilter
         then (Some \<lparr>f_reason = empty_response,
                     f_message = ''provider returned no content and no tool calls'', f_path = None\<rparr>, [])
         else
           (case find_first (\<lambda>tc. json_parse (tc_arguments tc) = None) toolCalls of
              Some tc \<Rightarrow>
                (Some \<lparr>f_reason = tool_arguments_not_json,
                       f_message = ''tool call '' @ tc_name tc @ '' produced arguments that are not valid JSON'',
                       f_path = None\<rparr>, [])
            | None \<Rightarrow>
                if \<not> wantsJson (responseFormat env) then (None, [])
                else if finishReason res = FLength
                then (Some \<lparr>f_reason = json_truncated,
                            f_message = ''forced-JSON response was truncated at max_tokens'', f_path = None\<rparr>, [])
                else
                  (case json_parse (stripFence (json_source res)) of
                     None \<Rightarrow>
                       (Some \<lparr>f_reason = response_not_json,
                              f_message = ''forced-JSON response did not parse as JSON'', f_path = None\<rparr>, [])
                   | Some parsed \<Rightarrow> schema_verdict (responseFormat env) defaultMode parsed)))"

section \<open>Strict against structural\<close>

definition clean :: "verdict \<Rightarrow> bool" where
  "clean r \<longleftrightarrow> fst r = None \<and> fst (snd r) = []"

lemma clean_also [simp]: "clean (also_check a b) \<longleftrightarrow> clean a \<and> clean b"
  by (cases a; cases b; cases "fst a") (auto simp: clean_def)

lemma fst_also [simp]: "fst (also_check a b) = None \<longleftrightarrow> fst a = None \<and> fst b = None"
  by (cases a; cases b; cases "fst a") auto

lemma clean_simps [simp]: "clean (None, [], h)" "\<not> clean (Some b, s, h)" "clean (None, s, h) \<longleftrightarrow> s = []"
  by (simp_all add: clean_def)

lemma enum_strict_clean: "fst (enum_verdict True v ms p) = None \<longleftrightarrow> clean (enum_verdict False v ms p)"
  by (simp add: enum_verdict_def)

lemma required_clean: "fst (required_verdict ms obj p) = None \<longleftrightarrow> clean (required_verdict ms obj p)"
  by (simp add: required_verdict_def split: option.splits)

lemma strict_any_iff: "vss_strict_any v bs p \<longleftrightarrow> (\<exists>b\<in>set bs. fst (vss True v b p) = None)"
  by (induction bs) auto

lemma soft_any_winner:
  "vss_soft_any v bs p w = Inr r \<Longrightarrow> r = w \<or> (\<exists>b\<in>set bs. \<exists>s h. vss False v b p = (None, s, h) \<and> r = Some (s, h))"
proof (induction bs arbitrary: w)
  case (Cons b bs)
  obtain x s h where "vss False v b p = (x, s, h)"
    by (cases "vss False v b p")
  with Cons show ?case
    by (cases x; cases w) (fastforce split: if_splits)+
qed simp

lemma size_branch: "b \<in> set (branches_of ms) \<Longrightarrow> size b < size (JObj ms)"
  using branches_size [of ms] size_list_estimation [of b "branches_of ms" "size b - 1" size]
  by (cases "size b") (auto simp: less_le_trans)

lemma size_property: "(k, sub) \<in> set (properties_of ms) \<Longrightarrow> size sub < size (JObj ms)"
  using properties_size [of ms] size_obj_value [of k sub "properties_of ms"] by simp

lemma props_strict_clean:
  "(\<And>k sub v p. (k, sub) \<in> set ps \<Longrightarrow> fst (vss True v sub p) = None \<longleftrightarrow> clean (vss False v sub p)) \<Longrightarrow>
     fst (vss_props True obj ps p) = None \<longleftrightarrow> clean (vss_props False obj ps p)"
proof (induction ps)
  case (Cons kp ps)
  obtain k sub where "kp = (k, sub)"
    by (cases kp)
  with Cons show ?case
    by (auto split: option.splits)
qed simp

lemma items_strict_clean:
  "(\<And>v p. fst (vss True v s p) = None \<longleftrightarrow> clean (vss False v s p)) \<Longrightarrow>
     fst (vss_items True i vs s p) = None \<longleftrightarrow> clean (vss_items False i vs s p)"
  by (induction vs arbitrary: i) simp_all

lemma soft_any_not_clean:
  assumes "\<not> vss_strict_any v bs p"
    and "\<And>b. b \<in> set bs \<Longrightarrow> fst (vss True v b p) = None \<longleftrightarrow> clean (vss False v b p)"
  shows "vss_soft_any v bs p None \<noteq> Inr (Some ([], h))"
proof
  assume "vss_soft_any v bs p None = Inr (Some ([], h))"
  from soft_any_winner [OF this] obtain b where "b \<in> set bs" "vss False v b p = (None, [], h)"
    by auto
  with assms show False
    by (auto simp: strict_any_iff)
qed

lemma vss_strict_clean: "fst (vss True v s p) = None \<longleftrightarrow> clean (vss False v s p)"
proof (induction s arbitrary: v p rule: measure_induct_rule [of size])
  case (less s)
  show ?case
  proof (cases s)
    case (JObj ms)
    have bs: "fst (vss True v b p) = None \<longleftrightarrow> clean (vss False v b p)" if "b \<in> set (branches_of ms)" for b
      using less size_branch [OF that] JObj by simp
    have "fst (vss_props True obj (properties_of ms) p) = None
        \<longleftrightarrow> clean (vss_props False obj (properties_of ms) p)" for obj
      using less size_property JObj by (intro props_strict_clean) simp
    moreover have "fst (vss_items True 0 vs t p) = None \<longleftrightarrow> clean (vss_items False 0 vs t p)"
      if "items_of ms = Some t" for vs t
      using less items_size [OF that] JObj by (intro items_strict_clean) simp
    moreover have "\<not> vss_strict_any v (branches_of ms) p \<Longrightarrow>
        vss_soft_any v (branches_of ms) p None \<noteq> Inr (Some ([], h))" for h
      by (rule soft_any_not_clean) (use bs in auto)
    ultimately show ?thesis
      unfolding JObj
      by (auto simp: enum_strict_clean required_clean split: option.splits json.splits sum.splits)
  qed simp_all
qed

lemma stripFence_Nil [simp]: "stripFence [] = []"
  by (simp add: stripFence_def strip_close_fence_def strip_open_fence_def trim_def ends_with_def)

lemma json_parse_Nil [simp]: "json_parse [] = None"
  by (simp add: json_parse_def skip_ws_def eval_nat_numeral)

section \<open>Properties\<close>

text \<open>
  C21. The two validation modes fit together: a value passes the strict validator exactly when the
  structural one accepts it without a single soft finding. So switching a class to structural
  never rejects more, and every response it newly lets through carries a reported enum miss.
\<close>

theorem strict_iff_structural_clean:
  "fst (vss True v s p) = None \<longleftrightarrow>
     fst (vss False v s p) = None \<and> fst (snd (vss False v s p)) = []"
  unfolding vss_strict_clean clean_def ..

text \<open>
  What an accepted response is: the provider did not report an error, there is content or a
  tool call (or the answer is a refusal), every tool call's arguments parse as JSON, and a forced
  JSON answer is complete, parses after fence stripping and satisfies the request's schema.
  Nothing else is required.
\<close>

theorem verifyResponse_accepts_iff:
  "fst (verifyResponse res env dm) = None \<longleftrightarrow>
     finishReason res \<noteq> FError
     \<and> (\<not> blank (r_content res) \<or> nullish (r_toolCalls res) [] \<noteq> [] \<or> finishReason res = FContentFilter)
     \<and> list_all (\<lambda>tc. json_parse (tc_arguments tc) \<noteq> None) (nullish (r_toolCalls res) [])
     \<and> (\<not> wantsJson (responseFormat env) \<or>
         (finishReason res \<noteq> FLength \<and>
          (\<exists>v. json_parse (stripFence (json_source res)) = Some v
             \<and> fst (schema_verdict (responseFormat env) dm v) = None)))"
proof (cases "find_first (\<lambda>tc. json_parse (tc_arguments tc) = None) (nullish (r_toolCalls res) [])")
  case None
  then have "list_all (\<lambda>tc. json_parse (tc_arguments tc) \<noteq> None) (nullish (r_toolCalls res) [])"
    by (auto simp: find_first_None list_all_iff)
  with None show ?thesis
    by (auto simp: verifyResponse_def Let_def split: option.splits)
next
  case (Some tc)
  with find_first_Some [OF Some] show ?thesis
    by (auto simp: verifyResponse_def Let_def list_all_iff)
qed

definition ex_schema :: json where
  "ex_schema = JObj [(''type'', JStr ''object''),
     (''properties'', JObj [(''kind'', JObj [(''enum'', JArr [JStr ''a'', JStr ''b''])])]),
     (''required'', JArr [JStr ''kind''])]"

definition ex_response :: ai_response where
  "ex_response = \<lparr>r_content = ''```json {} ```'', r_toolCalls = None, finishReason = FStop, usage = EMPTY_USAGE,
     served_model = ''m'', served_providerId = ''p'', served_latencyMs = 5, thinking = None\<rparr>"

definition ex_request :: ai_request where
  "ex_request = \<lparr>taskClass = ''t'', messages = [], tools = None, toolChoice = None,
     responseFormat = Some RFJsonObject, maxTokens = None, temperature = None, topP = None, stop = None,
     stream = False, modelRequested = None, metadata = example_md\<rparr>"

lemma ex_not_blank: "\<not> blank (r_content ex_response)"
  by (simp add: blank_def trim_Nil_iff ex_response_def is_space_def char_code_def)

theorem verifyResponse_accepts_iff_witness:
  "fst (verifyResponse ex_response ex_request Structural) = None \<longleftrightarrow>
     (\<exists>v. json_parse (stripFence (json_source ex_response)) = Some v
       \<and> fst (schema_verdict (Some RFJsonObject) Structural v) = None)"
  using verifyResponse_accepts_iff [of ex_response ex_request Structural] ex_not_blank
  by (simp add: ex_request_def ex_response_def)

text \<open>
  Truncation is diagnosed before parsing: a forced-JSON response cut off at the token limit is
  never reported as malformed JSON or as a schema violation, so the retry loop sees the
  deterministic reason.
\<close>

theorem truncation_before_parsing:
  assumes "wantsJson (responseFormat env)" and "finishReason res = FLength"
    and "fst (verifyResponse res env dm) = Some f"
  shows "f_reason f \<in> {json_truncated, empty_response, tool_arguments_not_json}"
  using assms by (auto simp: verifyResponse_def Let_def split: if_splits option.splits)

theorem truncation_before_parsing_witness:
  "\<exists>f. fst (verifyResponse (ex_response\<lparr>finishReason := FLength\<rparr>) ex_request Structural) = Some f
    \<and> f_reason f \<in> {json_truncated, empty_response, tool_arguments_not_json}"
proof -
  have "fst (verifyResponse (ex_response\<lparr>finishReason := FLength\<rparr>) ex_request Structural) \<noteq> None"
    using ex_not_blank by (simp add: verifyResponse_def Let_def ex_request_def split: option.splits)
  then obtain f where f: "fst (verifyResponse (ex_response\<lparr>finishReason := FLength\<rparr>) ex_request Structural) = Some f"
    by auto
  from truncation_before_parsing [OF _ _ this] f show ?thesis
    by (simp add: ex_request_def)
qed

text \<open>
  A refusal is exempt from the emptiness check, but not from the JSON check: an empty
  \<open>content_filter\<close> answer to a forced-JSON request is rejected as \<open>response_not_json\<close>, hence
  retried and sent down the fallback chain.
\<close>

theorem refusal_not_exempt_when_json_forced:
  assumes "finishReason res = FContentFilter" "blank (r_content res)" "r_toolCalls res = None"
  shows "(\<not> wantsJson (responseFormat env) \<longrightarrow> fst (verifyResponse res env dm) = None)
    \<and> (wantsJson (responseFormat env) \<longrightarrow>
         (\<exists>f. fst (verifyResponse res env dm) = Some f \<and> f_reason f = response_not_json))"
  using assms by (simp add: verifyResponse_def json_source_def)

theorem refusal_not_exempt_when_json_forced_witness:
  "\<exists>f. fst (verifyResponse (ex_response\<lparr>r_content := [], finishReason := FContentFilter\<rparr>) ex_request Structural) = Some f
     \<and> f_reason f = response_not_json"
  using refusal_not_exempt_when_json_forced [where res = "ex_response\<lparr>r_content := [], finishReason := FContentFilter\<rparr>"
      and env = ex_request and dm = Structural]
  by (simp add: ex_response_def ex_request_def blank_def trim_def)

end
