(* ===== verification/Regex.thy ===== *)
theory Regex
  imports Prelude
begin

text \<open>
  The regular expressions of the scrubber and their JavaScript matching. A position in a text is
  a zipper: the characters before it (reversed) and those after it. Matching returns the
  positions where a match may end, in the order a backtracking matcher tries them, so the first
  one is the match JavaScript reports; \<open>match_all\<close> is \<open>String.prototype.matchAll\<close> with the \<open>g\<close> flag
  and \<open>regex_test\<close> is \<open>RegExp.prototype.test\<close>. The lemmas show that the reported spans lie in the
  text, in order and without overlap.
\<close>

type_synonym zip = "string \<times> string"

datatype rx =
    Eps
  | Chr "char \<Rightarrow> bool"
  | Seq rx rx
  | Alt rx rx
  | Opt rx
  | Rep rx nat nat
  | Stars "char \<Rightarrow> bool"
  | NotBehind "char \<Rightarrow> bool"
  | NotAhead "char \<Rightarrow> bool"
  | Bol
  | Eol

text \<open>Greedy repetition: at least \<open>lo\<close>, at most \<open>hi\<close> times.\<close>

primrec rep_m :: "('p \<Rightarrow> 'p list) \<Rightarrow> nat \<Rightarrow> nat \<Rightarrow> 'p \<Rightarrow> 'p list" where
  "rep_m f 0 lo z = (if lo = 0 then [z] else [])"
| "rep_m f (Suc hi) lo z = concat (map (rep_m f hi (lo - 1)) (f z)) @ (if lo = 0 then [z] else [])"

fun stars_m :: "(char \<Rightarrow> bool) \<Rightarrow> string \<Rightarrow> string \<Rightarrow> zip list" where
  "stars_m P pre [] = [(pre, [])]"
| "stars_m P pre (c # post) = (if P c then stars_m P (c # pre) post else []) @ [(pre, c # post)]"

primrec rx_m :: "rx \<Rightarrow> zip \<Rightarrow> zip list" where
  "rx_m Eps z = [z]"
| "rx_m (Chr P) z = (case snd z of [] \<Rightarrow> [] | c # post \<Rightarrow> if P c then [(c # fst z, post)] else [])"
| "rx_m (Seq a b) z = concat (map (rx_m b) (rx_m a z))"
| "rx_m (Alt a b) z = rx_m a z @ rx_m b z"
| "rx_m (Opt a) z = rx_m a z @ [z]"
| "rx_m (Rep a lo hi) z = rep_m (rx_m a) hi lo z"
| "rx_m (Stars P) z = stars_m P (fst z) (snd z)"
| "rx_m (NotBehind P) z = (case fst z of [] \<Rightarrow> [z] | c # _ \<Rightarrow> if P c then [] else [z])"
| "rx_m (NotAhead P) z = (case snd z of [] \<Rightarrow> [z] | c # _ \<Rightarrow> if P c then [] else [z])"
| "rx_m Bol z = (if fst z = [] then [z] else [])"
| "rx_m Eol z = (if snd z = [] then [z] else [])"

text \<open>A literal, up to case.\<close>

fun lit_i :: "string \<Rightarrow> rx" where
  "lit_i [] = Eps"
| "lit_i (c # cs) = Seq (Chr (\<lambda>x. lower_char x = lower_char c)) (lit_i cs)"

fun seqs :: "rx list \<Rightarrow> rx" where
  "seqs [] = Eps"
| "seqs (r # rs) = Seq r (seqs rs)"

fun alts :: "rx list \<Rightarrow> rx" where
  "alts [] = Chr (\<lambda>_. False)"
| "alts [r] = r"
| "alts (r # rs) = Alt r (alts rs)"

record span =
  sp_start :: nat
  sp_text :: string

definition sp_end :: "span \<Rightarrow> nat" where
  "sp_end s = sp_start s + length (sp_text s)"

text \<open>All matches from a position on; after an empty match the search advances one character.\<close>

function match_all :: "rx \<Rightarrow> zip \<Rightarrow> span list" where
  "match_all r (pre, post) =
     (case rx_m r (pre, post) of
        (pre', post') # _ \<Rightarrow>
          (if length post' < length post
           then \<lparr>sp_start = length pre, sp_text = take (length post - length post') post\<rparr>
                # match_all r (pre', post')
           else \<lparr>sp_start = length pre, sp_text = []\<rparr>
                # (case post of [] \<Rightarrow> [] | c # cs \<Rightarrow> match_all r (c # pre, cs)))
      | [] \<Rightarrow> (case post of [] \<Rightarrow> [] | c # cs \<Rightarrow> match_all r (c # pre, cs)))"
  by pat_completeness auto
termination
  by (relation "measure (\<lambda>(r, pre, post). length post)") auto

declare match_all.simps [simp del]

fun regex_search :: "rx \<Rightarrow> string \<Rightarrow> string \<Rightarrow> bool" where
  "regex_search r pre [] = (rx_m r (pre, []) \<noteq> [])"
| "regex_search r pre (c # cs) = (rx_m r (pre, c # cs) \<noteq> [] \<or> regex_search r (c # pre) cs)"

definition regex_test :: "rx \<Rightarrow> string \<Rightarrow> bool" where
  "regex_test r s = regex_search r [] s"

section \<open>Positions stay in the text\<close>

definition extends :: "zip \<Rightarrow> zip \<Rightarrow> bool" where
  "extends z z' \<longleftrightarrow> (\<exists>w. fst z' = rev w @ fst z \<and> snd z = w @ snd z')"

lemma extends_refl [simp]: "extends z z"
  by (simp add: extends_def)

lemma extends_trans: "extends a b \<Longrightarrow> extends b c \<Longrightarrow> extends a c"
  by (fastforce simp: extends_def)

lemma rep_m_extends:
  assumes "\<And>z z'. z' \<in> set (f z) \<Longrightarrow> extends z z'"
  shows "z' \<in> set (rep_m f hi lo z) \<Longrightarrow> extends z z'"
  by (induction hi arbitrary: lo z) (auto split: if_splits intro: extends_trans assms)

lemma stars_m_extends: "z' \<in> set (stars_m P pre post) \<Longrightarrow> extends (pre, post) z'"
proof (induction P pre post rule: stars_m.induct)
  case (2 P pre c post)
  have "extends (pre, c # post) (c # pre, post)"
    by (auto simp: extends_def)
  with 2 show ?case
    by (auto split: if_splits intro: extends_trans)
qed simp

lemma rx_m_extends: "z' \<in> set (rx_m r z) \<Longrightarrow> extends z z'"
proof (induction r arbitrary: z z')
  case (Chr P)
  then show ?case
    by (cases z) (auto simp: extends_def split: list.splits if_splits)
next
  case (Seq a b)
  from Seq.prems obtain y where "y \<in> set (rx_m a z)" "z' \<in> set (rx_m b y)"
    by auto
  then show ?case
    by (blast intro: extends_trans Seq.IH)
next
  case (Rep a lo hi)
  show ?case
    by (rule rep_m_extends [OF Rep.IH]) (use Rep.prems in auto)
next
  case (Stars P)
  then show ?case
    using stars_m_extends by (cases z) fastforce
qed (auto split: list.splits if_splits)

text \<open>Spans lie between two positions of the text, in order and disjoint.\<close>

fun spans_ok :: "string \<Rightarrow> nat \<Rightarrow> span list \<Rightarrow> bool" where
  "spans_ok text lo [] = True"
| "spans_ok text lo (s # ss) =
     (lo \<le> sp_start s \<and> sp_end s \<le> length text
      \<and> sp_text s = take (length (sp_text s)) (drop (sp_start s) text)
      \<and> spans_ok text (sp_end s) ss)"

lemma spans_ok_mono: "spans_ok text hi ss \<Longrightarrow> lo \<le> hi \<Longrightarrow> spans_ok text lo ss"
  by (cases ss) auto

lemma match_all_ok: "spans_ok (rev pre @ post) (length pre) (match_all r (pre, post))"
proof (induction r "(pre, post)" arbitrary: pre post rule: match_all.induct)
  case (1 r pre post)
  have step: "spans_ok (rev pre @ c # cs) (length pre) (match_all r (c # pre, cs))"
    if "post = c # cs" "spans_ok (rev (c # pre) @ cs) (length (c # pre)) (match_all r (c # pre, cs))" for c cs
    using that spans_ok_mono by force
  show ?case
  proof (cases "rx_m r (pre, post)")
    case Nil
    with 1 step show ?thesis
      by (cases post) (auto simp: match_all.simps [of r pre])
  next
    case (Cons z zs)
    obtain pre' post' where z: "z = (pre', post')"
      by (cases z)
    with Cons have "extends (pre, post) (pre', post')"
      by (intro rx_m_extends [of _ r]) auto
    then obtain w where w: "pre' = rev w @ pre" "post = w @ post'"
      by (auto simp: extends_def)
    show ?thesis
    proof (cases "length post' < length post")
      case True
      with 1(2) [OF Cons z [symmetric]] w have
        "spans_ok (rev pre' @ post') (length pre') (match_all r (pre', post'))"
        by simp
      with True Cons z w show ?thesis
        by (simp add: match_all.simps [of r pre] sp_end_def add.commute)
    next
      case False
      with 1(3) [OF Cons z [symmetric]] step Cons z show ?thesis
        by (cases post) (auto simp: match_all.simps [of r pre] sp_end_def)
    qed
  qed
qed

section \<open>Minimal length\<close>

primrec min_len :: "rx \<Rightarrow> nat" where
  "min_len Eps = 0"
| "min_len (Chr P) = 1"
| "min_len (Seq a b) = min_len a + min_len b"
| "min_len (Alt a b) = min (min_len a) (min_len b)"
| "min_len (Opt a) = 0"
| "min_len (Rep a lo hi) = lo * min_len a"
| "min_len (Stars P) = 0"
| "min_len (NotBehind P) = 0"
| "min_len (NotAhead P) = 0"
| "min_len Bol = 0"
| "min_len Eol = 0"

lemma rep_m_len:
  assumes "\<And>z z'. z' \<in> set (f z) \<Longrightarrow> length (snd z') + k \<le> length (snd z)"
  shows "z' \<in> set (rep_m f hi lo z) \<Longrightarrow> length (snd z') + lo * k \<le> length (snd z)"
proof (induction hi arbitrary: lo z)
  case (Suc hi)
  show ?case
  proof (cases "z' = z \<and> lo = 0")
    case False
    with Suc.prems obtain y where y: "y \<in> set (f z)" "z' \<in> set (rep_m f hi (lo - 1) y)"
      by (auto split: if_splits)
    have "lo * k \<le> k + (lo - 1) * k"
      by (cases lo) simp_all
    with Suc.IH [OF y(2)] assms [OF y(1)] show ?thesis
      by linarith
  qed simp
qed (auto split: if_splits)

lemma rx_m_len: "z' \<in> set (rx_m r z) \<Longrightarrow> length (snd z') + min_len r \<le> length (snd z)"
proof (induction r arbitrary: z z')
  case (Chr P)
  then show ?case
    by (cases z) (auto split: list.splits if_splits)
next
  case (Seq a b)
  from Seq.prems obtain y where "y \<in> set (rx_m a z)" "z' \<in> set (rx_m b y)"
    by auto
  with Seq.IH(1) [of y z] Seq.IH(2) [of z' y] show ?case
    by simp
next
  case (Alt a b)
  then consider "z' \<in> set (rx_m a z)" | "z' \<in> set (rx_m b z)"
    by auto
  then show ?case
    by cases (use Alt.IH(1) [of z' z] Alt.IH(2) [of z' z] in auto)
next
  case (Rep a lo hi)
  show ?case
    unfolding min_len.simps by (rule rep_m_len [OF Rep.IH]) (use Rep.prems in auto)
next
  case (Opt a)
  then show ?case
    using rx_m_extends [of z' "Opt a" z] by (auto simp: extends_def)
next
  case (Stars P)
  then show ?case
    using rx_m_extends [of z' "Stars P" z] by (auto simp: extends_def)
qed (auto split: list.splits if_splits)

lemma match_all_len: "s \<in> set (match_all r (pre, post)) \<Longrightarrow> min_len r \<le> length (sp_text s)"
proof (induction r "(pre, post)" arbitrary: pre post rule: match_all.induct)
  case (1 r pre post)
  show ?case
  proof (cases "rx_m r (pre, post)")
    case Nil
    with 1 show ?thesis
      by (cases post) (auto simp: match_all.simps [of r pre])
  next
    case (Cons z zs)
    obtain pre' post' where z: "z = (pre', post')"
      by (cases z)
    with Cons have "length post' + min_len r \<le> length post"
      using rx_m_len [of z r "(pre, post)"] by simp
    with 1 Cons z show ?thesis
      by (cases post) (auto simp: match_all.simps [of r pre] split: if_splits)
  qed
qed

lemma spans_ok_bounds:
  "spans_ok text lo ss \<Longrightarrow> s \<in> set ss \<Longrightarrow> lo \<le> sp_start s \<and> sp_start s \<le> sp_end s \<and> sp_end s \<le> length text
     \<and> sp_text s = take (length (sp_text s)) (drop (sp_start s) text)"
proof (induction ss arbitrary: lo)
  case (Cons x ss)
  show ?case
  proof (cases "s = x")
    case True
    with Cons.prems show ?thesis
      by (simp add: sp_end_def)
  next
    case False
    with Cons.prems Cons.IH [of "sp_end x"] show ?thesis
      by (auto simp: sp_end_def)
  qed
qed simp

lemma spans_ok_ordered: "spans_ok text lo ss \<Longrightarrow> sorted_wrt (\<lambda>a b. sp_end a \<le> sp_start b) ss"
  by (induction ss arbitrary: lo) (auto dest: spans_ok_bounds)

end
