(* ===== verification/Scrub.thy ===== *)
theory Scrub
  imports Regex Envelope
begin

text \<open>
  The PII scrubber of \<^verbatim>\<open>src/src/protect/scrub.ts\<close>: the checks on digit groups (SSN, EIN, ABA
  routing, Luhn and IIN), the scan of a text with the code's regular expressions in the code's
  order, redaction, and the envelope-level report and redacted copy. The lemmas show that the
  matches of a scan are sorted, disjoint spans of the text, so redaction replaces every one of
  them; that the report of redaction is the report of the scan; and what the checksums detect.
\<close>

section \<open>Match types\<close>

datatype match_type = M_ssn | M_ein | M_routing | M_account | M_card

definition MATCH_TYPES :: "match_type list" where
  "MATCH_TYPES = [M_ssn, M_ein, M_routing, M_account, M_card]"

fun match_type_name :: "match_type \<Rightarrow> string" where
  "match_type_name M_ssn = ''ssn''"
| "match_type_name M_ein = ''ein''"
| "match_type_name M_routing = ''routing''"
| "match_type_name M_account = ''account''"
| "match_type_name M_card = ''card''"

record scrub_match =
  sm_type :: match_type
  sm_start :: nat
  sm_end :: nat

section \<open>Checks on digit groups\<close>

text \<open>\<open>Number(s)\<close> of a string of digits; the empty string is 0.\<close>

definition num_of :: "string \<Rightarrow> nat" where
  "num_of s = foldl (\<lambda>n d. n * 10 + digit_val d) 0 s"

definition slice :: "nat \<Rightarrow> nat \<Rightarrow> string \<Rightarrow> string" where
  "slice i j s = take (j - i) (drop i s)"

definition validSsnParts :: "string \<Rightarrow> string \<Rightarrow> string \<Rightarrow> bool" where
  "validSsnParts area grp serial =
     (let a = num_of area
      in if a = 0 \<or> a = 666 \<or> a \<ge> 900 then False
         else if num_of grp = 0 then False
         else if num_of serial = 0 then False
         else True)"

definition EIN_PREFIXES :: "string list" where
  "EIN_PREFIXES =
    [''01'',''02'',''03'',''04'',''05'',''06'',''10'',''11'',''12'',''13'',''14'',''15'',''16'',''20'',''21'',''22'',''23'',''24'',
     ''25'',''26'',''27'',''30'',''31'',''32'',''33'',''34'',''35'',''36'',''37'',''38'',''39'',''40'',''41'',''42'',''43'',''44'',
     ''45'',''46'',''47'',''48'',''50'',''51'',''52'',''53'',''54'',''55'',''56'',''57'',''58'',''59'',''60'',''61'',''62'',''63'',
     ''64'',''65'',''66'',''67'',''68'',''71'',''72'',''73'',''74'',''75'',''76'',''77'',''80'',''81'',''82'',''83'',''84'',''85'',
     ''86'',''87'',''88'',''90'',''91'',''92'',''93'',''94'',''95'',''98'',''99'']"

definition aba_sum :: "nat list \<Rightarrow> nat" where
  "aba_sum d = 3 * (d ! 0 + d ! 3 + d ! 6) + 7 * (d ! 1 + d ! 4 + d ! 7) + 1 * (d ! 2 + d ! 5 + d ! 8)"

definition abaChecksumValid :: "string \<Rightarrow> bool" where
  "abaChecksumValid digits =
     (if length digits \<noteq> 9 then False
      else let total = aba_sum (map digit_val digits) in total mod 10 = 0 \<and> total > 0)"

definition abaPrefixValid :: "string \<Rightarrow> bool" where
  "abaPrefixValid digits =
     (let p = num_of (slice 0 2 digits)
      in p \<le> 12 \<or> (p \<ge> 21 \<and> p \<le> 32) \<or> (p \<ge> 61 \<and> p \<le> 72) \<or> p = 80)"

text \<open>The Luhn loop runs from the last digit; \<open>alt\<close> tells whether the current digit is doubled.\<close>

definition luhn_digit :: "bool \<Rightarrow> nat \<Rightarrow> nat" where
  "luhn_digit alt n = (if alt then (let m = n * 2 in if m > 9 then m - 9 else m) else n)"

fun luhn_loop :: "bool \<Rightarrow> nat \<Rightarrow> string \<Rightarrow> nat" where
  "luhn_loop alt acc [] = acc"
| "luhn_loop alt acc (c # cs) = luhn_loop (\<not> alt) (acc + luhn_digit alt (digit_val c)) cs"

definition luhnValid :: "string \<Rightarrow> bool" where
  "luhnValid digits = (luhn_loop False 0 (rev digits) mod 10 = 0)"

abbreviation dig :: rx where
  "dig \<equiv> Chr is_digit"

definition lit :: "string \<Rightarrow> rx" where
  "lit s = seqs (map (\<lambda>c. Chr (\<lambda>x. x = c)) s)"

definition visa_rx :: rx where
  "visa_rx = seqs [Bol, lit ''4'', Rep dig 12 12, Opt (Rep dig 3 3), Opt (Rep dig 3 3), Eol]"

definition mastercard_rx :: rx where
  "mastercard_rx = seqs [Bol, lit ''5'', Chr (\<lambda>c. c \<in> set ''12345''), Rep dig 14 14, Eol]"

definition amex_rx :: rx where
  "amex_rx = seqs [Bol, lit ''3'', Chr (\<lambda>c. c \<in> set ''47''), Rep dig 13 13, Eol]"

definition discover_rx :: rx where
  "discover_rx = seqs [Bol, alts [lit ''6011'', seqs [lit ''65'', Rep dig 2 2],
     seqs [lit ''64'', Chr (\<lambda>c. c \<in> set ''456789''), dig]], Rep dig 12 12, Eol]"

definition iinValid :: "string \<Rightarrow> bool" where
  "iinValid digits =
     (if regex_test visa_rx digits then True
      else if regex_test mastercard_rx digits then True
      else
        (let first4 = num_of (slice 0 4 digits)
         in if length digits = 16 \<and> first4 \<ge> 2221 \<and> first4 \<le> 2720 then True
            else if regex_test amex_rx digits then True
            else if regex_test discover_rx digits then True
            else False))"

section \<open>Scanning\<close>

definition spaces :: rx where
  "spaces = Stars is_space"

definition ACCOUNT_KEYWORD :: rx where
  "ACCOUNT_KEYWORD = alts
     [seqs [lit_i ''acc'', Opt (lit_i ''oun''), lit_i ''t'',
            Opt (Seq spaces (alts [lit ''#'', Seq (lit_i ''no'') (Opt (lit ''.'')),
                                   Seq (lit_i ''num'') (Opt (lit_i ''ber''))]))],
      lit_i ''iban'', lit_i ''checking'', lit_i ''savings'']"

definition SSN_KEYWORD :: rx where
  "SSN_KEYWORD = alts [lit_i ''ssn'', seqs [lit_i ''social'', spaces, lit_i ''security''],
     seqs [lit_i ''taxpayer'', spaces, lit_i ''id''], lit_i ''itin'']"

definition digit_or_dash :: "char \<Rightarrow> bool" where
  "digit_or_dash c = (is_digit c \<or> c = CHR ''-'')"

text \<open>Every pattern is bounded by neither a digit nor a dash on both sides.\<close>

definition bounded_rx :: "rx \<Rightarrow> rx" where
  "bounded_rx r = seqs [NotBehind digit_or_dash, r, NotAhead digit_or_dash]"

definition card_rx :: rx where
  "card_rx = bounded_rx (Seq (Rep (Seq dig (Opt (Chr (\<lambda>c. c = CHR '' '' \<or> c = CHR ''-'')))) 12 18) dig)"

definition nine_rx :: rx where
  "nine_rx = bounded_rx (Rep dig 9 9)"

text \<open>The back-reference makes both separators the same character.\<close>

definition ssn_rx :: rx where
  "ssn_rx = bounded_rx (Alt (seqs [Rep dig 3 3, lit ''-'', Rep dig 2 2, lit ''-'', Rep dig 4 4])
                            (seqs [Rep dig 3 3, lit '' '', Rep dig 2 2, lit '' '', Rep dig 4 4]))"

definition ein_rx :: rx where
  "ein_rx = bounded_rx (seqs [Rep dig 2 2, lit ''-'', Rep dig 7 7])"

definition run_rx :: rx where
  "run_rx = bounded_rx (Rep dig 6 17)"

definition matchAll :: "string \<Rightarrow> rx \<Rightarrow> span list" where
  "matchAll text r = match_all r ([], text)"

definition overlaps :: "scrub_match list \<Rightarrow> nat \<Rightarrow> nat \<Rightarrow> bool" where
  "overlaps ms start end = (\<exists>m\<in>set ms. start < sm_end m \<and> end > sm_start m)"

definition add_match :: "match_type \<Rightarrow> span \<Rightarrow> scrub_match list \<Rightarrow> scrub_match list" where
  "add_match t s ms = ms @ [\<lparr>sm_type = t, sm_start = sp_start s, sm_end = sp_end s\<rparr>]"

definition strip_seps :: "string \<Rightarrow> string" where
  "strip_seps s = filter (\<lambda>c. c \<noteq> CHR '' '' \<and> c \<noteq> CHR ''-'') s"

definition is_card :: "string \<Rightarrow> bool" where
  "is_card raw =
     (let digits = strip_seps raw
      in if length digits < 13 \<or> length digits > 19 then False
         else luhnValid digits \<and> iinValid digits)"

definition scan_cards :: "string \<Rightarrow> scrub_match list \<Rightarrow> scrub_match list" where
  "scan_cards text ms = fold (\<lambda>s acc. if is_card (sp_text s) then add_match M_card s acc else acc)
     (matchAll text card_rx) ms"

text \<open>A scan that skips spans overlapping earlier matches and keeps those a test accepts.\<close>

definition scan_with ::
    "match_type \<Rightarrow> (span \<Rightarrow> bool) \<Rightarrow> span list \<Rightarrow> scrub_match list \<Rightarrow> scrub_match list" where
  "scan_with t test ss ms =
     fold (\<lambda>s acc. if overlaps acc (sp_start s) (sp_end s) then acc
                   else if test s then add_match t s acc else acc) ss ms"

definition is_routing :: "span \<Rightarrow> bool" where
  "is_routing s = (abaChecksumValid (sp_text s) \<and> abaPrefixValid (sp_text s))"

definition is_ssn :: "span \<Rightarrow> bool" where
  "is_ssn s = validSsnParts (slice 0 3 (sp_text s)) (slice 4 6 (sp_text s)) (slice 7 11 (sp_text s))"

definition before :: "nat \<Rightarrow> string \<Rightarrow> span \<Rightarrow> string" where
  "before n text s = slice (sp_start s - n) (sp_start s) text"

definition is_bare_ssn :: "string \<Rightarrow> span \<Rightarrow> bool" where
  "is_bare_ssn text s =
     (regex_test SSN_KEYWORD (before 40 text s)
      \<and> validSsnParts (slice 0 3 (sp_text s)) (slice 3 5 (sp_text s)) (drop 5 (sp_text s)))"

definition is_ein :: "span \<Rightarrow> bool" where
  "is_ein s = (slice 0 2 (sp_text s) \<in> set EIN_PREFIXES)"

definition near_routing :: "(nat \<times> nat) list \<Rightarrow> span \<Rightarrow> bool" where
  "near_routing rs s =
     list_ex (\<lambda>(a, e). \<bar>int (sp_start s) - int e\<bar> \<le> 120 \<or> \<bar>int a - int (sp_end s)\<bar> \<le> 120) rs"

definition is_account :: "(nat \<times> nat) list \<Rightarrow> string \<Rightarrow> span \<Rightarrow> bool" where
  "is_account rs text s = (near_routing rs s \<or> regex_test ACCOUNT_KEYWORD (before 30 text s))"

definition routing_spans :: "scrub_match list \<Rightarrow> (nat \<times> nat) list" where
  "routing_spans ms = map (\<lambda>m. (sm_start m, sm_end m)) (filter (\<lambda>m. sm_type m = M_routing) ms)"

definition scan_all :: "string \<Rightarrow> scrub_match list" where
  "scan_all text =
     (let cards = scan_cards text [];
          ms1 = scan_with M_routing is_routing (matchAll text nine_rx) cards;
          rs = routing_spans ms1;
          ms2 = scan_with M_ssn is_ssn (matchAll text ssn_rx) ms1;
          ms3 = scan_with M_ssn (is_bare_ssn text) (matchAll text nine_rx) ms2;
          ms4 = scan_with M_ein is_ein (matchAll text ein_rx) ms3
      in scan_with M_account (is_account rs text) (matchAll text run_rx) ms4)"

definition scanText :: "string \<Rightarrow> scrub_match list" where
  "scanText text = sort_key sm_start (scan_all text)"

section \<open>Redaction\<close>

fun REDACTION :: "match_type \<Rightarrow> string" where
  "REDACTION M_ssn = ''[SSN]''"
| "REDACTION M_ein = ''[EIN]''"
| "REDACTION M_routing = ''[ROUTING]''"
| "REDACTION M_account = ''[ACCOUNT]''"
| "REDACTION M_card = ''[CARD]''"

fun redact_loop :: "string \<Rightarrow> string \<Rightarrow> nat \<Rightarrow> scrub_match list \<Rightarrow> string" where
  "redact_loop text out cursor [] = out @ drop cursor text"
| "redact_loop text out cursor (m # ms) =
     (if sm_start m < cursor then redact_loop text out cursor ms
      else redact_loop text (out @ slice cursor (sm_start m) text @ REDACTION (sm_type m)) (sm_end m) ms)"

definition redactText :: "string \<Rightarrow> scrub_match list \<Rightarrow> string" where
  "redactText text ms = redact_loop text [] 0 ms"

section \<open>Envelopes\<close>

text \<open>Counts per type in order of first occurrence, and the total.\<close>

record scrub_report =
  counts :: "(match_type, nat) jsmap"
  total :: nat

definition empty_report :: scrub_report where
  "empty_report = \<lparr>counts = [], total = 0\<rparr>"

definition count_match :: "scrub_match \<Rightarrow> scrub_report \<Rightarrow> scrub_report" where
  "count_match m r =
     \<lparr>counts = map_set (sm_type m) (nullish (map_get (counts r) (sm_type m)) 0 + 1) (counts r),
      total = total r + 1\<rparr>"

definition part_texts :: "content_part list \<Rightarrow> string list" where
  "part_texts ps = concat (map (\<lambda>p. case p of TextPart t \<Rightarrow> [t] | ImagePart u \<Rightarrow> []) ps)"

definition message_texts :: "ai_message \<Rightarrow> string list" where
  "message_texts m =
     (case m_content m of CText s \<Rightarrow> [s] | CParts ps \<Rightarrow> part_texts ps)
     @ map tc_arguments (nullish (m_toolCalls m) [])"

definition textFields :: "ai_request \<Rightarrow> string list" where
  "textFields env = concat (map message_texts (messages env))"

definition scanEnvelope :: "ai_request \<Rightarrow> scrub_report" where
  "scanEnvelope env = fold (\<lambda>text r. fold count_match (scanText text) r) (textFields env) empty_report"

text \<open>\<open>scrubString\<close>: the text and the report it has been counted into.\<close>

definition scrubString :: "string \<Rightarrow> scrub_report \<Rightarrow> string \<times> scrub_report" where
  "scrubString text r =
     (let ms = scanText text
      in (if ms \<noteq> [] then redactText text ms else text, fold count_match ms r))"

fun scrub_list :: "('a \<Rightarrow> scrub_report \<Rightarrow> 'a \<times> scrub_report) \<Rightarrow> 'a list \<Rightarrow> scrub_report \<Rightarrow> 'a list \<times> scrub_report" where
  "scrub_list f [] r = ([], r)"
| "scrub_list f (x # xs) r =
     (let (y, r1) = f x r; (ys, r2) = scrub_list f xs r1 in (y # ys, r2))"

fun scrub_part :: "content_part \<Rightarrow> scrub_report \<Rightarrow> content_part \<times> scrub_report" where
  "scrub_part (TextPart t) r = (let (t', r') = scrubString t r in (TextPart t', r'))"
| "scrub_part (ImagePart u) r = (ImagePart u, r)"

fun scrub_content :: "msg_content \<Rightarrow> scrub_report \<Rightarrow> msg_content \<times> scrub_report" where
  "scrub_content (CText s) r = (let (s', r') = scrubString s r in (CText s', r'))"
| "scrub_content (CParts ps) r = (let (ps', r') = scrub_list scrub_part ps r in (CParts ps', r'))"

definition scrub_call :: "tool_call \<Rightarrow> scrub_report \<Rightarrow> tool_call \<times> scrub_report" where
  "scrub_call tc r = (let (a, r') = scrubString (tc_arguments tc) r in (tc\<lparr>tc_arguments := a\<rparr>, r'))"

definition scrub_message :: "ai_message \<Rightarrow> scrub_report \<Rightarrow> ai_message \<times> scrub_report" where
  "scrub_message m r =
     (let (c, r1) = scrub_content (m_content m) r
      in case m_toolCalls m of
           None \<Rightarrow> (m\<lparr>m_content := c\<rparr>, r1)
         | Some tcs \<Rightarrow>
             (let (tcs', r2) = scrub_list scrub_call tcs r1
              in (m\<lparr>m_content := c, m_toolCalls := Some tcs'\<rparr>, r2)))"

definition redactEnvelope :: "ai_request \<Rightarrow> ai_request \<times> scrub_report" where
  "redactEnvelope env =
     (let (ms, r) = scrub_list scrub_message (messages env) empty_report in (env\<lparr>messages := ms\<rparr>, r))"

section \<open>Matches are disjoint spans\<close>

definition disjoint_matches :: "scrub_match \<Rightarrow> scrub_match \<Rightarrow> bool" where
  "disjoint_matches a b \<longleftrightarrow> sm_end a \<le> sm_start b \<or> sm_end b \<le> sm_start a"

definition matches_ok :: "string \<Rightarrow> scrub_match list \<Rightarrow> bool" where
  "matches_ok text ms \<longleftrightarrow> distinct ms
     \<and> (\<forall>m\<in>set ms. sm_start m < sm_end m \<and> sm_end m \<le> length text)
     \<and> (\<forall>a\<in>set ms. \<forall>b\<in>set ms. a \<noteq> b \<longrightarrow> disjoint_matches a b)"

text \<open>The spans a pattern of positive minimal length reports.\<close>

definition spans_in :: "string \<Rightarrow> span list \<Rightarrow> bool" where
  "spans_in text ss \<longleftrightarrow> (\<forall>s\<in>set ss. sp_start s < sp_end s \<and> sp_end s \<le> length text)"

lemma matchAll_spans:
  assumes "0 < min_len r"
  shows "spans_in text (matchAll text r)"
proof -
  have "spans_ok text 0 (match_all r ([], text))"
    using match_all_ok [of "[]" "text" r] by simp
  moreover have "s \<in> set (match_all r ([], text)) \<Longrightarrow> 0 < length (sp_text s)" for s
    using match_all_len [of s r "[]" "text"] assms by linarith
  ultimately show ?thesis
    unfolding spans_in_def matchAll_def by (force dest: spans_ok_bounds simp: sp_end_def)
qed

lemma matchAll_ordered: "sorted_wrt (\<lambda>a b. sp_end a \<le> sp_start b) (matchAll text r)"
  using match_all_ok [of "[]" "text" r] by (auto simp: matchAll_def intro: spans_ok_ordered)

lemmas pattern_defs = bounded_rx_def card_rx_def nine_rx_def ssn_rx_def ein_rx_def run_rx_def lit_def

lemma pattern_lengths:
  "0 < min_len card_rx" "0 < min_len nine_rx" "0 < min_len ssn_rx" "0 < min_len ein_rx" "0 < min_len run_rx"
  by (simp_all add: pattern_defs)

lemma add_match_ok:
  assumes "matches_ok text ms" "sp_start s < sp_end s" "sp_end s \<le> length text"
    and "\<not> overlaps ms (sp_start s) (sp_end s)"
  shows "matches_ok text (add_match t s ms)"
proof -
  let ?m = "\<lparr>sm_type = t, sm_start = sp_start s, sm_end = sp_end s\<rparr>"
  have "disjoint_matches x ?m \<and> disjoint_matches ?m x" if "x \<in> set ms" for x
    using assms(4) that by (auto simp: overlaps_def disjoint_matches_def not_less)
  moreover have "?m \<notin> set ms"
    using assms(2,4) by (auto simp: overlaps_def)
  ultimately show ?thesis
    using assms(1-3) by (auto simp: matches_ok_def add_match_def)
qed

lemma scan_with_ok:
  "matches_ok text ms \<Longrightarrow> spans_in text ss \<Longrightarrow> matches_ok text (scan_with t test ss ms)"
  unfolding scan_with_def
  by (induction ss arbitrary: ms) (auto simp: spans_in_def intro: add_match_ok)

text \<open>The card scan does not check for overlaps; its spans cannot overlap one another.\<close>

lemma scan_cards_ok: "matches_ok text (scan_cards text [])"
proof -
  have "matches_ok text (fold (\<lambda>s acc. if is_card (sp_text s) then add_match M_card s acc else acc) ss ms)"
    if "matches_ok text ms" "spans_in text ss" "sorted_wrt (\<lambda>a b. sp_end a \<le> sp_start b) ss"
      "\<forall>m\<in>set ms. \<forall>s\<in>set ss. sm_end m \<le> sp_start s" for ss ms
    using that
  proof (induction ss arbitrary: ms)
    case (Cons s ss)
    have "\<not> overlaps ms (sp_start s) (sp_end s)"
      using Cons.prems by (auto simp: overlaps_def)
    with Cons.prems have "matches_ok text (add_match M_card s ms)"
      by (intro add_match_ok) (auto simp: spans_in_def)
    with Cons show ?case
      by (auto simp: spans_in_def add_match_def)
  qed simp
  moreover have "matches_ok text []"
    by (simp add: matches_ok_def)
  ultimately show ?thesis
    unfolding scan_cards_def
    by (simp add: matchAll_spans pattern_lengths matchAll_ordered)
qed

lemma scan_all_ok: "matches_ok text (scan_all text)"
  unfolding scan_all_def Let_def
  by (intro scan_with_ok scan_cards_ok matchAll_spans pattern_lengths)

lemma scanText_ok: "matches_ok text (scanText text)"
  using scan_all_ok [of "text"] by (simp add: scanText_def matches_ok_def)

definition chained :: "scrub_match list \<Rightarrow> bool" where
  "chained ms \<longleftrightarrow> sorted_wrt (\<lambda>a b. sm_end a \<le> sm_start b) ms"

lemma sorted_ok_chained:
  "matches_ok text ms \<Longrightarrow> sorted (map sm_start ms) \<Longrightarrow> chained ms"
proof (induction ms)
  case (Cons m ms)
  have "sm_end m \<le> sm_start x" if "x \<in> set ms" for x
  proof -
    from Cons.prems that have "m \<noteq> x" "disjoint_matches m x" "sm_start m \<le> sm_start x"
      "sm_start x < sm_end x"
      by (auto simp: matches_ok_def)
    then show ?thesis
      by (auto simp: disjoint_matches_def)
  qed
  moreover have "chained ms"
    using Cons by (auto simp: matches_ok_def)
  ultimately show ?case
    by (simp add: chained_def)
qed (simp add: chained_def)

lemma scanText_chained: "chained (scanText text)"
  by (rule sorted_ok_chained [OF scanText_ok]) (simp add: scanText_def)

section \<open>Redaction as substitution\<close>

text \<open>Gaps and fillers in turn.\<close>

fun weave :: "string list \<Rightarrow> string list \<Rightarrow> string" where
  "weave (g # gs) (x # xs) = g @ x @ weave gs xs"
| "weave gs xs = concat gs"

fun gaps :: "string \<Rightarrow> nat \<Rightarrow> scrub_match list \<Rightarrow> string list" where
  "gaps text cursor [] = [drop cursor text]"
| "gaps text cursor (m # ms) = slice cursor (sm_start m) text # gaps text (sm_end m) ms"

definition span_text :: "string \<Rightarrow> scrub_match \<Rightarrow> string" where
  "span_text text m = slice (sm_start m) (sm_end m) text"

lemma slice_join: "i \<le> j \<Longrightarrow> slice i j s @ drop j s = drop i s"
  by (simp add: slice_def) (metis append_take_drop_id drop_drop le_add_diff_inverse2)

lemma weave_text:
  assumes "chained ms" "\<forall>m\<in>set ms. cursor \<le> sm_start m \<and> sm_start m \<le> sm_end m"
  shows "drop cursor t = weave (gaps t cursor ms) (map (span_text t) ms)"
  using assms
proof (induction ms arbitrary: cursor)
  case (Cons m ms)
  have "drop (sm_end m) t = weave (gaps t (sm_end m) ms) (map (span_text t) ms)"
    using Cons.prems by (intro Cons.IH) (auto simp: chained_def)
  moreover have "drop cursor t = slice cursor (sm_start m) t @ span_text t m @ drop (sm_end m) t"
    using Cons.prems by (simp add: span_text_def slice_join)
  ultimately show ?case
    by simp
qed simp

lemma redact_loop_weave:
  assumes "chained ms" "\<forall>m\<in>set ms. cursor \<le> sm_start m"
  shows "redact_loop text out cursor ms = out @ weave (gaps text cursor ms) (map (\<lambda>m. REDACTION (sm_type m)) ms)"
  using assms
proof (induction ms arbitrary: cursor out)
  case (Cons m ms)
  then show ?case
    by (simp add: chained_def not_less)
qed simp

lemma length_gaps: "length (gaps text c ms) = Suc (length ms)"
  by (induction ms arbitrary: c) auto

section \<open>Reports\<close>

definition report_of :: "string list \<Rightarrow> scrub_report \<Rightarrow> scrub_report" where
  "report_of texts r = fold (\<lambda>t r. fold count_match (scanText t) r) texts r"

definition scrub_text :: "string \<Rightarrow> string" where
  "scrub_text t = (if scanText t \<noteq> [] then redactText t (scanText t) else t)"

lemma report_of_simps [simp]:
  "report_of [] r = r" "report_of (t # ts) r = report_of ts (fold count_match (scanText t) r)"
  "report_of (ts @ us) r = report_of us (report_of ts r)"
  by (simp_all add: report_of_def)

lemma scrubString_eq: "scrubString t r = (scrub_text t, report_of [t] r)"
  by (simp add: scrubString_def scrub_text_def Let_def)

lemma scrub_list_eq:
  "(\<And>x r. x \<in> set xs \<Longrightarrow> f x r = (g x, report_of (h x) r)) \<Longrightarrow>
     scrub_list f xs r = (map g xs, report_of (concat (map h xs)) r)"
  by (induction xs arbitrary: r) (auto simp: Let_def split: prod.splits)

fun part_map :: "content_part \<Rightarrow> content_part" where
  "part_map (TextPart t) = TextPart (scrub_text t)"
| "part_map (ImagePart u) = ImagePart u"

fun content_map :: "msg_content \<Rightarrow> msg_content" where
  "content_map (CText s) = CText (scrub_text s)"
| "content_map (CParts ps) = CParts (map part_map ps)"

definition call_map :: "tool_call \<Rightarrow> tool_call" where
  "call_map tc = tc\<lparr>tc_arguments := scrub_text (tc_arguments tc)\<rparr>"

definition message_map :: "ai_message \<Rightarrow> ai_message" where
  "message_map m = m\<lparr>m_content := content_map (m_content m),
     m_toolCalls := map_option (map call_map) (m_toolCalls m)\<rparr>"

lemma scrub_part_eq: "scrub_part p r = (part_map p, report_of (case p of TextPart t \<Rightarrow> [t] | ImagePart u \<Rightarrow> []) r)"
  by (cases p) (simp_all add: scrubString_eq)

lemma scrub_call_eq: "scrub_call tc r = (call_map tc, report_of [tc_arguments tc] r)"
  by (simp add: scrub_call_def scrubString_eq call_map_def)

lemma scrub_content_eq:
  "scrub_content c r = (content_map c, report_of (case c of CText s \<Rightarrow> [s] | CParts ps \<Rightarrow> part_texts ps) r)"
  by (cases c)
     (simp_all add: scrubString_eq part_texts_def
       scrub_list_eq [of _ scrub_part part_map "\<lambda>p. case p of TextPart t \<Rightarrow> [t] | ImagePart u \<Rightarrow> []", OF scrub_part_eq])

lemma scrub_message_eq: "scrub_message m r = (message_map m, report_of (message_texts m) r)"
proof (cases "m_toolCalls m")
  case None
  then show ?thesis
    by (cases m) (simp add: scrub_message_def scrub_content_eq message_map_def message_texts_def)
next
  case (Some tcs)
  have "scrub_list scrub_call tcs r' = (map call_map tcs, report_of (map tc_arguments tcs) r')" for r'
    using scrub_list_eq [of tcs scrub_call call_map "\<lambda>tc. [tc_arguments tc]"] scrub_call_eq
    by (simp add: concat_map_singleton)
  with Some show ?thesis
    by (simp add: scrub_message_def scrub_content_eq message_map_def message_texts_def)
qed

lemma redactEnvelope_eq:
  "redactEnvelope env = (env\<lparr>messages := map message_map (messages env)\<rparr>, scanEnvelope env)"
  by (simp add: redactEnvelope_def scanEnvelope_def textFields_def
      scrub_list_eq [of _ scrub_message message_map message_texts, OF scrub_message_eq]
      flip: report_of_def)

lemma texts_message_map: "message_texts (message_map m) = map scrub_text (message_texts m)"
proof -
  have "part_texts (map part_map ps) = map scrub_text (part_texts ps)" for ps
    by (induction ps) (auto simp: part_texts_def split: content_part.splits)
  then show ?thesis
    by (cases "m_content m"; cases "m_toolCalls m")
       (simp_all add: message_texts_def message_map_def call_map_def)
qed

lemma total_count: "total (fold count_match ms r) = total r + length ms"
  by (induction ms arbitrary: r) (simp_all add: count_match_def)

lemma total_report: "total (report_of ts r) = total r + sum_list (map (\<lambda>t. length (scanText t)) ts)"
  by (induction ts arbitrary: r) (simp_all add: total_count)

lemma total_scan: "total (scanEnvelope env) = sum_list (map (\<lambda>t. length (scanText t)) (textFields env))"
  using total_report [of "textFields env" empty_report]
  by (simp add: scanEnvelope_def report_of_def empty_report_def)

lemma texts_redacted: "textFields (fst (redactEnvelope env)) = map (\<lambda>t. redactText t (scanText t)) (textFields env)"
proof -
  have same: "redactText t [] = t" for t
    by (simp add: redactText_def)
  have "scrub_text = (\<lambda>t. redactText t (scanText t))"
    by (auto simp: scrub_text_def same fun_eq_iff)
  moreover have "textFields (fst (redactEnvelope env)) = map scrub_text (textFields env)"
    by (simp add: redactEnvelope_eq textFields_def texts_message_map map_concat comp_def)
  ultimately show ?thesis
    by simp
qed

section \<open>Checksums\<close>

lemma luhn_loop_acc: "luhn_loop alt acc cs = acc + luhn_loop alt 0 cs"
proof (induction cs arbitrary: alt acc)
  case (Cons c cs)
  show ?case
    using Cons [of "\<not> alt" "acc + luhn_digit alt (digit_val c)"] Cons [of "\<not> alt" "luhn_digit alt (digit_val c)"]
    by simp
qed simp

lemma luhn_loop_append:
  "luhn_loop alt 0 (xs @ ys) = luhn_loop alt 0 xs + luhn_loop (if even (length xs) then alt else \<not> alt) 0 ys"
proof (induction xs arbitrary: alt)
  case (Cons x xs)
  have "luhn_loop (\<not> alt) (luhn_digit alt (digit_val x)) zs =
      luhn_digit alt (digit_val x) + luhn_loop (\<not> alt) 0 zs" for zs
    by (rule luhn_loop_acc)
  with Cons show ?case
    by simp
qed simp

lemma luhn_digit_inj: "a < 10 \<Longrightarrow> b < 10 \<Longrightarrow> luhn_digit alt a = luhn_digit alt b \<Longrightarrow> a = b"
  by (auto simp: luhn_digit_def Let_def split: if_splits) presburger+

lemma luhn_digit_bound: "a < 10 \<Longrightarrow> luhn_digit alt a < 10"
  by (auto simp: luhn_digit_def Let_def)

lemma mod10_differ:
  assumes "(x + a) mod 10 = (0::nat)" "a < 10" "b < 10" "a \<noteq> b"
  shows "(x + b) mod 10 \<noteq> 0"
proof
  assume "(x + b) mod 10 = 0"
  with assms(1) have "10 dvd (int x + int b) - (int x + int a)"
    by (intro dvd_diff) (simp_all flip: int_dvd_int_iff of_nat_add add: mod_eq_0_iff_dvd)
  then have "10 dvd int b - int a"
    by simp
  moreover have "\<bar>int b - int a\<bar> < 10" "\<bar>int b - int a\<bar> > 0"
    using assms(2-4) by linarith+
  ultimately show False
    using zdvd_not_zless [of "\<bar>int b - int a\<bar>" 10] by simp
qed

lemma digit_val_bound: "is_digit c \<Longrightarrow> digit_val c < 10"
  unfolding is_digit_def digit_val_def by linarith

lemma digit_val_inj: "is_digit a \<Longrightarrow> is_digit b \<Longrightarrow> digit_val a = digit_val b \<Longrightarrow> a = b"
  by (simp add: is_digit_def digit_val_def char_code_def) (metis eq_diff_iff of_char_eq_iff)

section \<open>Properties\<close>

text \<open>
  C16. Scrubbing a text replaces every detected identifier and nothing else: the matches of a scan
  are non-empty, in order and disjoint, and there are gaps such that the text is the gaps with
  the matched spans between them while the redacted text is the same gaps with the type tags
  between them. No match is ever skipped as overlapping.
\<close>

theorem redaction_replaces_every_match:
  "\<exists>gs. length gs = Suc (length (scanText t))
     \<and> t = weave gs (map (\<lambda>m. slice (sm_start m) (sm_end m) t) (scanText t))
     \<and> redactText t (scanText t) = weave gs (map (\<lambda>m. REDACTION (sm_type m)) (scanText t))
     \<and> sorted_wrt (\<lambda>a b. sm_end a \<le> sm_start b) (scanText t)
     \<and> list_all (\<lambda>m. sm_start m < sm_end m \<and> sm_end m \<le> length t) (scanText t)"
proof (intro exI [of _ "gaps t 0 (scanText t)"] conjI)
  have ok: "\<forall>m\<in>set (scanText t). sm_start m < sm_end m \<and> sm_end m \<le> length t"
    using scanText_ok [of t] by (auto simp: matches_ok_def)
  then show "t = weave (gaps t 0 (scanText t)) (map (\<lambda>m. slice (sm_start m) (sm_end m) t) (scanText t))"
    using weave_text [OF scanText_chained [of t], where cursor = 0 and t = t]
    by (simp add: span_text_def [abs_def] less_imp_le)
  show "redactText t (scanText t) = weave (gaps t 0 (scanText t)) (map (\<lambda>m. REDACTION (sm_type m)) (scanText t))"
    unfolding redactText_def by (subst redact_loop_weave [OF scanText_chained]) auto
  show "list_all (\<lambda>m. sm_start m < sm_end m \<and> sm_end m \<le> length t) (scanText t)"
    using ok by (simp add: list_all_iff)
qed (use scanText_chained [of t] in \<open>simp_all add: length_gaps chained_def\<close>)


text \<open>
  The card check is a real checksum: if a digit string passes Luhn, changing any one digit makes
  it fail, so a mistyped card number is not taken for a card.
\<close>

theorem luhn_detects_single_digit_error:
  assumes "luhnValid (xs @ a # ys)" "is_digit a" "is_digit b" "a \<noteq> b"
  shows "\<not> luhnValid (xs @ b # ys)"
proof -
  define alt where "alt = odd (length ys)"
  define rest where "rest = luhn_loop False 0 (rev ys) + luhn_loop (\<not> alt) 0 (rev xs)"
  have acc: "luhn_loop f (luhn_digit g (digit_val c)) zs = luhn_digit g (digit_val c) + luhn_loop f 0 zs" for c zs f g
    by (rule luhn_loop_acc)
  have val: "luhn_loop False 0 (rev (xs @ c # ys)) = rest + luhn_digit alt (digit_val c)" for c
    by (simp add: luhn_loop_append rest_def alt_def acc)
  have "luhn_digit alt (digit_val a) \<noteq> luhn_digit alt (digit_val b)"
    using assms(2-4) luhn_digit_inj digit_val_inj digit_val_bound by metis
  moreover have "(rest + luhn_digit alt (digit_val a)) mod 10 = 0"
    using assms(1) unfolding luhnValid_def val .
  ultimately show ?thesis
    unfolding luhnValid_def val
    by (intro mod10_differ) (simp_all add: assms digit_val_bound luhn_digit_bound)
qed

theorem luhn_detects_single_digit_error_witness:
  "\<not> luhnValid (''411111111111'' @ CHR ''2'' # ''111'')"
proof (rule luhn_detects_single_digit_error)
  show "luhnValid (''411111111111'' @ CHR ''1'' # ''111'')"
    by (simp add: luhnValid_def luhn_digit_def digit_val_def char_code_def)
qed (simp_all add: is_digit_def char_code_def)

end
