(* ===== verification/Ssrf.thy ===== *)
theory Ssrf
  imports Schema Regex
begin

text \<open>
  Base-URL validation of \<^verbatim>\<open>src/src/lib/ssrf.ts\<close>. URL parsing, the IP-literal test and DNS belong to
  the platform: \<open>url_of\<close> answers protocol and host name of a URL, or nothing where the constructor
  throws; \<open>isIP\<close> and \<open>lookup\<close> are arguments too.
\<close>

datatype host_class = Loopback | Private | Linklocal | Metadata | Dockerdns | Public

fun host_class_name :: "host_class \<Rightarrow> string" where
  "host_class_name Loopback = ''loopback''"
| "host_class_name Private = ''private''"
| "host_class_name Linklocal = ''linklocal''"
| "host_class_name Metadata = ''metadata''"
| "host_class_name Dockerdns = ''dockerdns''"
| "host_class_name Public = ''public''"

definition plain :: "string \<Rightarrow> rx" where
  "plain s = seqs (map (\<lambda>c. Chr (\<lambda>x. x = c)) s)"

text \<open>\<open>172.16.0.0/12\<close> as the code writes it.\<close>

definition class_b_rx :: rx where
  "class_b_rx = seqs [Bol, plain ''172.'',
     alts [Seq (plain ''1'') (Chr (\<lambda>c. c \<in> set ''6789'')), Seq (plain ''2'') (Chr is_digit),
           Seq (plain ''3'') (Chr (\<lambda>c. c \<in> set ''01''))], plain ''.'']"

function classifyIp :: "string \<Rightarrow> host_class" where
  "classifyIp ip =
     (if ip = ''169.254.169.254'' then Metadata
      else if starts_with ''127.'' ip \<or> ip = ''0.0.0.0'' \<or> ip = ''::1'' then Loopback
      else if starts_with ''10.'' ip \<or> starts_with ''192.168.'' ip then Private
      else if regex_test class_b_rx ip then Private
      else if starts_with ''169.254.'' ip then Linklocal
      else if starts_with ''fe80:'' (to_lower ip) then Linklocal
      else if starts_with ''fc'' (to_lower ip) \<or> starts_with ''fd'' (to_lower ip) then Private
      else if starts_with ''::ffff:'' (to_lower ip) then classifyIp (drop 7 (to_lower ip))
      else Public)"
  by pat_completeness auto
termination
proof (relation "measure length")
  fix ip
  assume "starts_with ''::ffff:'' (to_lower ip)"
  then have "7 \<le> length (to_lower ip)"
    by (auto simp: starts_with_iff)
  then show "(drop 7 (to_lower ip), ip) \<in> measure length"
    by (simp add: to_lower_def)
qed simp

declare classifyIp.simps [simp del]

definition strip_brackets :: "string \<Rightarrow> string" where
  "strip_brackets h =
     (let a = (if starts_with ''['' h then drop 1 h else h)
      in if ends_with '']'' a then butlast a else a)"

definition classifyHost :: "(string \<Rightarrow> bool) \<Rightarrow> string \<Rightarrow> host_class" where
  "classifyHost isIP hostname =
     (let bare = strip_brackets hostname; lower = to_lower bare
      in if isIP bare then classifyIp bare
         else if lower = ''localhost'' \<or> ends_with ''.localhost'' lower then Loopback
         else if ends_with ''.local'' lower \<or> ends_with ''.internal'' lower \<or> ends_with ''.lan'' lower then Private
         else if \<not> includes_str ''.'' lower then Dockerdns
         else Public)"

text \<open>The verdict: \<open>None\<close> when accepted, else the reason.\<close>

definition checkBaseUrl ::
    "(string \<Rightarrow> (string \<times> string) option) \<Rightarrow> (string \<Rightarrow> bool) \<Rightarrow> provider_kind \<Rightarrow> string \<Rightarrow> string option" where
  "checkBaseUrl url_of isIP kind baseUrl =
     (case url_of baseUrl of
        None \<Rightarrow> Some ''base_url is not a valid URL''
      | Some (protocol, hostname) \<Rightarrow>
          (let cls = classifyHost isIP hostname
           in if isLocalKind kind then
                (if cls = Public
                 then Some (''local providers must point at a LAN/docker address '' @ em_dash
                        @ '' a public host would bypass the data boundary'')
                 else if cls = Metadata then Some ''metadata endpoint is never a valid provider''
                 else None)
              else if protocol \<noteq> ''https:'' then Some ''cloud providers require https''
              else if cls \<noteq> Public
              then Some (''cloud provider base_url must be a public host (got '' @ host_class_name cls
                     @ ''); use kind '' @ [CHR 0x22] @ ''local'' @ [CHR 0x22] @ '' for on-network gateways'')
              else None))"

definition checkBaseUrlWithDns ::
    "(string \<Rightarrow> (string \<times> string) option) \<Rightarrow> (string \<Rightarrow> bool) \<Rightarrow> (string \<Rightarrow> string list option)
      \<Rightarrow> provider_kind \<Rightarrow> string \<Rightarrow> string option" where
  "checkBaseUrlWithDns url_of isIP lookup kind baseUrl =
     (case checkBaseUrl url_of isIP kind baseUrl of
        Some r \<Rightarrow> Some r
      | None \<Rightarrow>
          if isLocalKind kind then None
          else
            (case url_of baseUrl of
               None \<Rightarrow> None
             | Some (protocol, hostname) \<Rightarrow>
                 if isIP (strip_brackets hostname) then None
                 else
                   (case lookup hostname of
                      None \<Rightarrow> Some ''cloud provider hostname does not resolve''
                    | Some addrs \<Rightarrow>
                        (case find_first (\<lambda>a. classifyIp a \<noteq> Public) addrs of
                           None \<Rightarrow> None
                         | Some a \<Rightarrow> Some (''cloud provider hostname resolves to a '' @ host_class_name (classifyIp a)
                                           @ '' address ('' @ a @ '')'')))))"

section \<open>Properties\<close>

text \<open>
  The data boundary of base URLs: an accepted cloud URL is https to a public host and, after
  the configuration-time check, its every DNS record is public; an accepted local URL is neither
  public nor the metadata address; so no URL is acceptable both as a local and as a cloud one.
\<close>

theorem base_url_tiers_disjoint:
  assumes "checkBaseUrl url_of isIP kind u = None"
  shows "\<exists>protocol hostname. url_of u = Some (protocol, hostname)
     \<and> (if isLocalKind kind
        then classifyHost isIP hostname \<notin> {Public, Metadata}
        else protocol = ''https:'' \<and> classifyHost isIP hostname = Public
          \<and> (checkBaseUrlWithDns url_of isIP lookup kind u = None \<longrightarrow> \<not> isIP (strip_brackets hostname) \<longrightarrow>
               (\<exists>addrs. lookup hostname = Some addrs \<and> (\<forall>a\<in>set addrs. classifyIp a = Public))))
     \<and> (isLocalKind kind' \<noteq> isLocalKind kind \<longrightarrow> checkBaseUrl url_of isIP kind' u \<noteq> None)"
proof -
  from assms obtain protocol hostname where u: "url_of u = Some (protocol, hostname)"
    by (auto simp: checkBaseUrl_def split: option.splits)
  with assms show ?thesis
    by (cases "isLocalKind kind")
       (auto simp: checkBaseUrl_def checkBaseUrlWithDns_def Let_def find_first_None
         split: option.splits if_splits)
qed

definition ex_url_of :: "string \<Rightarrow> (string \<times> string) option" where
  "ex_url_of u = (if u = ''https://api.example.com'' then Some (''https:'', ''api.example.com'') else None)"

theorem base_url_tiers_disjoint_witness:
  "checkBaseUrl ex_url_of (\<lambda>_. False) local ''https://api.example.com'' \<noteq> None"
proof -
  have "checkBaseUrl ex_url_of (\<lambda>_. False) anthropic ''https://api.example.com'' = None"
    by (simp add: checkBaseUrl_def ex_url_of_def classifyHost_def strip_brackets_def ends_with_def
        to_lower_def lower_char_def char_code_def Let_def)
  from base_url_tiers_disjoint [OF this, where kind' = local and lookup = "\<lambda>_. None"] show ?thesis
    by auto
qed

text \<open>
  An IPv4-mapped IPv6 address is unwrapped only in its dotted form. In the hexadecimal form, the
  one a URL's host name has after parsing, the private address 10.0.0.1 and the metadata address
  are classified as public hosts and accepted for a cloud provider.
\<close>

theorem mapped_ipv6_hex_is_public:
  "classifyIp ''::ffff:10.0.0.1'' = Private
   \<and> classifyIp ''::ffff:a00:1'' = Public
   \<and> classifyIp ''::ffff:a9fe:a9fe'' = Public"
  by (simp add: classifyIp.simps regex_test_def class_b_rx_def plain_def to_lower_def
      lower_char_def char_code_def)

end
