(* ===== verification/Ledger.thy ===== *)
theory Ledger
  imports Catalog
begin

text \<open>
  Costs and budgets: \<^verbatim>\<open>src/src/ledger/cost.ts\<close> and \<^verbatim>\<open>src/src/ledger/budget.ts\<close>. Amounts are rational
  cents, fixed to six decimals where the code fixes them. The month of a moment is computed from
  the millisecond clock by the proleptic Gregorian calendar, as \<open>Date\<close> does. The locale
  \<open>counter_store\<close> is what the budget code relies on of the upsert into \<^verbatim>\<open>budgets_state\<close>; it is
  interpreted on the model's rows. The lemmas show when a cost is unknown, that every exhausted
  scope stops a request, and that spend is booked exactly on the scopes of one firm.
\<close>

section \<open>Cost\<close>

record cost_result =
  cr_costCents :: "rat option"
  cr_costUnknown :: bool
  cr_cacheSavingsCents :: "rat option"

text \<open>\<open>toFixed(6)\<close>: nearest multiple of a millionth, halves away from zero.\<close>

definition fixed6 :: "rat \<Rightarrow> rat" where
  "fixed6 x =
     (if x \<ge> 0 then of_int (floor (x * 1000000 + 1 / 2)) / 1000000
      else - (of_int (floor (- x * 1000000 + 1 / 2)) / 1000000))"

definition centsFor :: "int \<Rightarrow> rat option \<Rightarrow> rat option" where
  "centsFor n perMtok = map_option (\<lambda>p. of_int n * p / 10000) perMtok"

definition or_else :: "'a option \<Rightarrow> 'a option \<Rightarrow> 'a option" where
  "or_else a b = (case a of None \<Rightarrow> b | Some v \<Rightarrow> Some v)"

definition computeCost :: "ai_usage \<Rightarrow> pricing_row option \<Rightarrow> cost_result" where
  "computeCost u pricing =
     (let anyTokens = (promptTokens u + completionTokens u + cachedReadTokens u + cacheWriteTokens u > 0)
      in case pricing of
           None \<Rightarrow>
             if anyTokens then \<lparr>cr_costCents = None, cr_costUnknown = True, cr_cacheSavingsCents = None\<rparr>
             else \<lparr>cr_costCents = Some 0, cr_costUnknown = False, cr_cacheSavingsCents = None\<rparr>
         | Some p \<Rightarrow>
             (let input = centsFor (promptTokens u) (inputPerMtok p);
                  output = centsFor (completionTokens u) (outputPerMtok p);
                  cacheRead = centsFor (cachedReadTokens u) (or_else (cacheReadPerMtok p) (inputPerMtok p));
                  cacheWrite = centsFor (cacheWriteTokens u) (or_else (cacheWritePerMtok p) (inputPerMtok p))
              in if (promptTokens u > 0 \<and> input = None) \<or> (completionTokens u > 0 \<and> output = None)
                    \<or> (cachedReadTokens u > 0 \<and> cacheRead = None) \<or> (cacheWriteTokens u > 0 \<and> cacheWrite = None)
                 then \<lparr>cr_costCents = None, cr_costUnknown = True, cr_cacheSavingsCents = None\<rparr>
                 else
                   \<lparr>cr_costCents = Some (fixed6 (nullish input 0 + nullish output 0
                                        + nullish cacheRead 0 + nullish cacheWrite 0)),
                    cr_costUnknown = False,
                    cr_cacheSavingsCents =
                      (if cachedReadTokens u > 0 \<and> inputPerMtok p \<noteq> None \<and> cacheReadPerMtok p \<noteq> None
                       then Some (fixed6 (nullish (centsFor (cachedReadTokens u) (inputPerMtok p)) 0 - nullish cacheRead 0))
                       else None)\<rparr>))"

section \<open>Months\<close>

definition MS_PER_DAY :: int where
  "MS_PER_DAY = 86400000"

text \<open>Year and month (1-12) of a day counted from 1970-01-01.\<close>

definition civil_year_month :: "int \<Rightarrow> int \<times> int" where
  "civil_year_month days =
     (let z = days + 719468; era = z div 146097; doe = z mod 146097;
          yoe = (doe - doe div 1460 + doe div 36524 - doe div 146096) div 365;
          doy = doe - (365 * yoe + yoe div 4 - yoe div 100);
          mp = (5 * doy + 2) div 153;
          m = (if mp < 10 then mp + 3 else mp - 9)
      in (yoe + era * 400 + (if m \<le> 2 then 1 else 0), m))"

text \<open>The first day of a month, counted from 1970-01-01 (\<open>Date.UTC(y, m - 1, 1)\<close>).\<close>

definition month_first_day :: "int \<times> int \<Rightarrow> int" where
  "month_first_day ym =
     (let (y0, m) = ym; y = (if m \<le> 2 then y0 - 1 else y0); era = y div 400; yoe = y mod 400;
          doy = (153 * (if m > 2 then m - 3 else m + 9) + 2) div 5;
          doe = yoe * 365 + yoe div 4 - yoe div 100 + doy
      in era * 146097 + doe - 719468)"

definition month_of :: "int \<Rightarrow> int \<times> int" where
  "month_of now = civil_year_month (now div MS_PER_DAY)"

definition currentPeriod :: "int \<Rightarrow> string" where
  "currentPeriod now =
     (let (y, m) = month_of now in show_int y @ (if m < 10 then ''0'' else []) @ show_int m)"

definition monthStart :: "int \<Rightarrow> int" where
  "monthStart now = month_first_day (month_of now) * MS_PER_DAY"

section \<open>Counters\<close>

text \<open>What the budget code relies on of the state table: adding to one key is visible there and
  nowhere else.\<close>

locale counter_store =
  fixes count :: "'m \<Rightarrow> 'k \<Rightarrow> rat"
    and bump :: "'k \<Rightarrow> rat \<Rightarrow> 'm \<Rightarrow> 'm"
  assumes count_bump: "count (bump k x m) k' = count m k' + (if k' = k then x else 0)"
begin

lemma count_bumps:
  "count (fold (\<lambda>(k, x). bump k x) ks m) k' = count m k' + sum_list (map snd (filter (\<lambda>p. fst p = k') ks))"
  by (induction ks arbitrary: m) (auto simp: count_bump)

lemma count_bump_all:
  "distinct ks \<Longrightarrow> count (fold (\<lambda>k. bump k x) ks m) k' = count m k' + (if k' \<in> set ks then x else 0)"
  by (induction ks arbitrary: m) (auto simp: count_bump)

end

type_synonym budget_key = "budget_scope \<times> string \<times> string"

definition row_key :: "budget_row \<Rightarrow> budget_key" where
  "row_key r = (bs_scope r, bs_scopeRef r, bs_period r)"

text \<open>Insert, or on conflict add to the stored amount.\<close>

fun upsert_spend :: "budget_key \<Rightarrow> rat \<Rightarrow> budget_row list \<Rightarrow> budget_row list" where
  "upsert_spend k x [] = [\<lparr>bs_scope = fst k, bs_scopeRef = fst (snd k), bs_period = snd (snd k), spentCents = x\<rparr>]"
| "upsert_spend k x (r # rs) =
     (if row_key r = k then r\<lparr>spentCents := spentCents r + x\<rparr> # rs else r # upsert_spend k x rs)"

definition spent_rows :: "budget_row list \<Rightarrow> budget_key \<Rightarrow> rat" where
  "spent_rows rs k = (case find_first (\<lambda>r. row_key r = k) rs of None \<Rightarrow> 0 | Some r \<Rightarrow> spentCents r)"

lemma row_key_update [simp]: "row_key (r\<lparr>spentCents := x\<rparr>) = row_key r"
  by (simp add: row_key_def)

lemma spent_upsert: "spent_rows (upsert_spend k x rs) k' = spent_rows rs k' + (if k' = k then x else 0)"
  by (induction rs) (auto simp: spent_rows_def row_key_def)

interpretation spend: counter_store spent_rows upsert_spend
  by unfold_locales (rule spent_upsert)

section \<open>Budgets\<close>

datatype check_scope = CheckFirm | CheckApp | CheckUser | CheckTaskClass

fun check_scope_name :: "check_scope \<Rightarrow> string" where
  "check_scope_name CheckFirm = ''firm''"
| "check_scope_name CheckApp = ''app''"
| "check_scope_name CheckUser = ''user''"
| "check_scope_name CheckTaskClass = ''task_class''"

record budget_check =
  bc_scope :: check_scope
  bc_scopeRef :: string
  bc_limitCents :: rat
  bc_spentCents :: rat

definition scopeKey :: "budget_scope \<Rightarrow> string \<Rightarrow> string \<Rightarrow> string" where
  "scopeKey sc firmId ref = (if sc = ScopeFirm then firmId else firmId @ '':'' @ ref)"

definition spentFor :: "db \<Rightarrow> budget_scope \<Rightarrow> string \<Rightarrow> string \<Rightarrow> rat" where
  "spentFor d sc ref period = spent_rows (budgetsState d) (sc, ref, period)"

record budget_params =
  bp_firmId :: string
  bp_app :: string
  bp_userId :: "string option"
  bp_taskClassId :: string
  bp_settings :: budget_settings
  bp_policyMonthlyCents :: "rat option"

definition given :: "string option \<Rightarrow> string option" where
  "given s = (if s = Some [] then None else s)"

definition lookup_cents :: "(string \<times> rat) list option \<Rightarrow> string \<Rightarrow> rat option" where
  "lookup_cents m k = Option.bind m (\<lambda>l. map_of l k)"

text \<open>The checks \<open>checkBudgets\<close> evaluates, in order: only the scopes with a configured limit.\<close>

definition firm_check :: "db \<Rightarrow> budget_params \<Rightarrow> string \<Rightarrow> budget_check option" where
  "firm_check d p period =
     map_option (\<lambda>lim. \<lparr>bc_scope = CheckFirm, bc_scopeRef = bp_firmId p, bc_limitCents = lim,
        bc_spentCents = spentFor d ScopeFirm (bp_firmId p) period\<rparr>) (firm_monthly_cents (bp_settings p))"

definition app_check :: "db \<Rightarrow> budget_params \<Rightarrow> string \<Rightarrow> budget_check option" where
  "app_check d p period =
     map_option (\<lambda>lim. \<lparr>bc_scope = CheckApp, bc_scopeRef = bp_app p, bc_limitCents = lim,
        bc_spentCents = spentFor d ScopeApp (scopeKey ScopeApp (bp_firmId p) (bp_app p)) period\<rparr>)
       (lookup_cents (apps_cents (bp_settings p)) (bp_app p))"

definition user_check :: "db \<Rightarrow> budget_params \<Rightarrow> string \<Rightarrow> budget_check option" where
  "user_check d p period =
     (case given (bp_userId p) of
        None \<Rightarrow> None
      | Some u \<Rightarrow>
          map_option (\<lambda>lim. \<lparr>bc_scope = CheckUser, bc_scopeRef = u, bc_limitCents = lim,
             bc_spentCents = spentFor d ScopeUser (scopeKey ScopeUser (bp_firmId p) u) period\<rparr>)
            (lookup_cents (users_cents (bp_settings p)) u))"

definition ledger_total :: "db \<Rightarrow> string \<Rightarrow> string \<Rightarrow> int \<Rightarrow> rat" where
  "ledger_total d firmId tcId since =
     sum_list (map (\<lambda>r. nullish (l_costCents r) 0)
       (filter (\<lambda>r. l_firmId r = firmId \<and> l_taskClassId r = Some tcId \<and> l_ts r \<ge> since) (usageLedger d)))"

definition task_class_check :: "db \<Rightarrow> budget_params \<Rightarrow> int \<Rightarrow> budget_check option" where
  "task_class_check d p now =
     map_option (\<lambda>lim. \<lparr>bc_scope = CheckTaskClass, bc_scopeRef = bp_taskClassId p, bc_limitCents = lim,
        bc_spentCents = ledger_total d (bp_firmId p) (bp_taskClassId p) (monthStart now)\<rparr>)
       (bp_policyMonthlyCents p)"

definition budget_checks :: "db \<Rightarrow> budget_params \<Rightarrow> int \<Rightarrow> budget_check list" where
  "budget_checks d p now =
     drop_nones [firm_check d p (currentPeriod now), app_check d p (currentPeriod now),
                 user_check d p (currentPeriod now), task_class_check d p now]"

definition budget_error :: "budget_check \<Rightarrow> string \<Rightarrow> router_error" where
  "budget_error c period =
     RouterError budget_exceeded (check_scope_name (bc_scope c) @ '' budget exhausted for '' @ period)
       (Some [(''scope'', JStr (check_scope_name (bc_scope c))), (''period'', JStr period)]) None"

fun evaluate_checks :: "string \<Rightarrow> rat \<Rightarrow> budget_check list \<Rightarrow> (router_error, budget_check list) result" where
  "evaluate_checks period softPct [] = Inr []"
| "evaluate_checks period softPct (c # cs) =
     (if bc_spentCents c \<ge> bc_limitCents c then Inl (budget_error c period)
      else rbind (evaluate_checks period softPct cs)
             (\<lambda>ws. Inr (if bc_spentCents c \<ge> bc_limitCents c * softPct then c # ws else ws)))"

definition checkBudgets :: "db \<Rightarrow> budget_params \<Rightarrow> int \<Rightarrow> (router_error, budget_check list) result" where
  "checkBudgets d p now =
     evaluate_checks (currentPeriod now) (nullish (soft_pct (bp_settings p)) 80 / 100) (budget_checks d p now)"

definition spend_scopes :: "string \<Rightarrow> string \<Rightarrow> string option \<Rightarrow> string \<Rightarrow> budget_key list" where
  "spend_scopes firmId app userId period =
     [(ScopeFirm, scopeKey ScopeFirm firmId firmId, period), (ScopeApp, scopeKey ScopeApp firmId app, period)]
     @ (case given userId of None \<Rightarrow> [] | Some u \<Rightarrow> [(ScopeUser, scopeKey ScopeUser firmId u, period)])"

definition recordSpend :: "string \<Rightarrow> string \<Rightarrow> string option \<Rightarrow> rat \<Rightarrow> int \<Rightarrow> db \<Rightarrow> db" where
  "recordSpend firmId app userId costCents now d =
     (if costCents \<le> 0 then d
      else d\<lparr>budgetsState :=
             fold (\<lambda>k. upsert_spend k (fixed6 costCents)) (spend_scopes firmId app userId (currentPeriod now))
               (budgetsState d)\<rparr>)"

section \<open>Lemmas\<close>

text \<open>The billable components of a usage and the rate of each, absent pricing meaning no rate.\<close>

definition billable :: "ai_usage \<Rightarrow> pricing_row option \<Rightarrow> (int \<times> rat option) list" where
  "billable u pricing =
     (let rate = (\<lambda>f. Option.bind pricing f)
      in [(promptTokens u, rate inputPerMtok), (completionTokens u, rate outputPerMtok),
          (cachedReadTokens u, rate (\<lambda>p. or_else (cacheReadPerMtok p) (inputPerMtok p))),
          (cacheWriteTokens u, rate (\<lambda>p. or_else (cacheWritePerMtok p) (inputPerMtok p)))])"

definition nonneg_usage :: "ai_usage \<Rightarrow> bool" where
  "nonneg_usage u \<longleftrightarrow> 0 \<le> promptTokens u \<and> 0 \<le> completionTokens u \<and> 0 \<le> cachedReadTokens u \<and> 0 \<le> cacheWriteTokens u"

lemma fixed6_0 [simp]: "fixed6 0 = 0"
proof -
  have "\<lfloor>1 / 2 :: rat\<rfloor> = 0"
    by (rule floor_unique) simp_all
  then show ?thesis
    by (simp add: fixed6_def)
qed

lemma fixed6_nonneg: "0 \<le> x \<Longrightarrow> 0 \<le> fixed6 x"
  by (simp add: fixed6_def)

lemma fixed6_near: "\<bar>fixed6 x - x\<bar> \<le> 1 / 2000000"
proof -
  have near: "\<bar>of_int (floor (y * 1000000 + 1 / 2)) / 1000000 - y\<bar> \<le> 1 / 2000000" for y :: rat
  proof -
    have "of_int (floor (y * 1000000 + 1 / 2)) \<le> y * 1000000 + 1 / 2"
      "y * 1000000 + 1 / 2 < of_int (floor (y * 1000000 + 1 / 2)) + 1"
      by (rule of_int_floor_le, rule floor_correct [THEN conjunct2, simplified])
    then have "of_int (floor (y * 1000000 + 1 / 2)) / 1000000 - y \<le> 1 / 2000000"
      "- (of_int (floor (y * 1000000 + 1 / 2)) / 1000000 - y) \<le> 1 / 2000000"
      by linarith+
    then show ?thesis
      by (rule abs_leI)
  qed
  show ?thesis
  proof (cases "0 \<le> x")
    case True
    with near [of x] show ?thesis
      by (simp add: fixed6_def)
  next
    case False
    then have "\<bar>fixed6 x - x\<bar> = \<bar>of_int (floor (- x * 1000000 + 1 / 2)) / 1000000 - (- x)\<bar>"
      by (simp only: fixed6_def if_False)
    with near [of "- x"] show ?thesis
      by simp
  qed
qed

lemma scopeKey_inj:
  assumes "CHR '':'' \<notin> set f" "CHR '':'' \<notin> set g" "f \<noteq> g"
  shows "scopeKey sc f a \<noteq> scopeKey sc g b"
proof
  assume eq: "scopeKey sc f a = scopeKey sc g b"
  have "takeWhile (\<lambda>c. c \<noteq> CHR '':'') (scopeKey sc h x) = h" if "CHR '':'' \<notin> set h" for h x
    using that by (induction h) (auto simp: scopeKey_def split: if_splits)
  with assms eq show False
    by metis
qed

lemma distinct_spend_scopes: "distinct (spend_scopes f app u period)"
  by (auto simp: spend_scopes_def split: option.splits)

lemma spentFor_recordSpend:
  assumes "0 < cost"
  shows "spentFor (recordSpend f app u cost now d) sc ref per = spentFor d sc ref per
    + (if (sc, ref, per) \<in> set (spend_scopes f app u (currentPeriod now)) then fixed6 cost else 0)"
  using assms spend.count_bump_all [OF distinct_spend_scopes]
  by (simp add: spentFor_def recordSpend_def)

lemma evaluate_checks_cases:
  "case evaluate_checks period sp cs of
     Inl e \<Rightarrow> \<exists>c\<in>set cs. bc_limitCents c \<le> bc_spentCents c \<and> e = budget_error c period
   | Inr ws \<Rightarrow> (\<forall>c\<in>set cs. bc_spentCents c < bc_limitCents c)
       \<and> ws = filter (\<lambda>c. bc_limitCents c * sp \<le> bc_spentCents c) cs"
proof (induction cs)
  case (Cons c cs)
  then show ?case
    by (cases "evaluate_checks period sp cs") auto
qed simp

section \<open>Properties\<close>

text \<open>
  An unknown cost is never booked as zero: the cost of a usage is unknown exactly when some
  component with tokens has no rate (cached tokens falling back to the input rate), and otherwise
  it is the sum over the disjoint components, fixed to six decimals and within half a millionth
  of a cent of the exact amount.
\<close>

theorem cost_unknown_never_zero:
  assumes "nonneg_usage u"
  shows "(cr_costCents (computeCost u pricing) = None \<longleftrightarrow> cr_costUnknown (computeCost u pricing))
    \<and> (cr_costUnknown (computeCost u pricing) \<longleftrightarrow> (\<exists>(n, rate)\<in>set (billable u pricing). 0 < n \<and> rate = None))
    \<and> (\<forall>c. cr_costCents (computeCost u pricing) = Some c \<longrightarrow>
         \<bar>c - sum_list (map (\<lambda>(n, rate). of_int n * nullish rate 0 / 10000) (billable u pricing))\<bar> \<le> 1 / 2000000)"
proof (cases pricing)
  case None
  with assms show ?thesis
    by (auto simp: computeCost_def billable_def nonneg_usage_def Let_def)
next
  case (Some p)
  have cents: "nullish (centsFor n r) 0 = of_int n * nullish r 0 / 10000" "centsFor n r = None \<longleftrightarrow> r = None" for n r
    by (cases r; simp add: centsFor_def)+
  show ?thesis
    using fixed6_near Some by (auto simp: computeCost_def billable_def Let_def cents add.assoc)
qed

definition ex_usage :: ai_usage where
  "ex_usage = \<lparr>promptTokens = 1000, completionTokens = 200, cachedReadTokens = 0, cacheWriteTokens = 0, estimated = False\<rparr>"

definition ex_pricing :: pricing_row where
  "ex_pricing = \<lparr>pr_modelId = ''m1'', pr_effectiveFrom = 0, inputPerMtok = Some 3, outputPerMtok = None,
     cacheReadPerMtok = None, cacheWritePerMtok = None\<rparr>"

theorem cost_unknown_never_zero_witness:
  "cr_costUnknown (computeCost ex_usage (Some ex_pricing))
   \<and> cr_costCents (computeCost ex_usage (Some ex_pricing)) = None"
  using cost_unknown_never_zero [of ex_usage "Some ex_pricing"]
  by (simp add: nonneg_usage_def ex_usage_def ex_pricing_def billable_def Let_def)

text \<open>
  Budgets stop a request when any scope is exhausted: the check passes only if every configured
  scope (firm, app, user, task class) has spent strictly less than its limit, and then warns
  about exactly the scopes at or above the soft threshold; otherwise it fails with
  \<open>budget_exceeded\<close> for a scope that is exhausted.
\<close>

theorem budgets_hard_stop:
  "case checkBudgets d p now of
     Inl e \<Rightarrow> code e = budget_exceeded
       \<and> list_ex (\<lambda>c. bc_limitCents c \<le> bc_spentCents c
           \<and> detail e = Some [(''scope'', JStr (check_scope_name (bc_scope c))), (''period'', JStr (currentPeriod now))])
          (budget_checks d p now)
   | Inr ws \<Rightarrow> list_all (\<lambda>c. bc_spentCents c < bc_limitCents c) (budget_checks d p now)
       \<and> ws = filter (\<lambda>c. bc_limitCents c * (nullish (soft_pct (bp_settings p)) 80 / 100) \<le> bc_spentCents c)
                (budget_checks d p now)"
  using evaluate_checks_cases [where period = "currentPeriod now"
      and sp = "nullish (soft_pct (bp_settings p)) 80 / 100" and cs = "budget_checks d p now"]
  by (auto simp: checkBudgets_def budget_error_def list_all_iff list_ex_iff split: sum.splits)

text \<open>
  Spend is booked once on each scope of the request and nowhere else: recording a positive cost
  adds it (to six decimals) to the firm, the app and the given user of that firm for the current
  month, leaves every other counter alone, and in particular never moves a counter of another
  firm, whatever the app and user names.
\<close>

theorem spend_stays_in_firm:
  assumes "0 < cost" and "CHR '':'' \<notin> set f" "CHR '':'' \<notin> set g" "f \<noteq> g"
  shows "spentFor (recordSpend f app u cost now d) ScopeFirm f (currentPeriod now)
       = spentFor d ScopeFirm f (currentPeriod now) + fixed6 cost
    \<and> spentFor (recordSpend f app u cost now d) ScopeApp (scopeKey ScopeApp f app) (currentPeriod now)
       = spentFor d ScopeApp (scopeKey ScopeApp f app) (currentPeriod now) + fixed6 cost
    \<and> (\<forall>sc ref per. spentFor (recordSpend f app u cost now d) sc (scopeKey sc g ref) per
         = spentFor d sc (scopeKey sc g ref) per)
    \<and> (\<forall>sc ref per. per \<noteq> currentPeriod now \<longrightarrow>
         spentFor (recordSpend f app u cost now d) sc ref per = spentFor d sc ref per)"
proof -
  have "(sc, scopeKey sc g ref, per) \<notin> set (spend_scopes f app u (currentPeriod now))" for sc ref per
    using scopeKey_inj [OF assms(3,2), of sc ref] assms(4)
    by (auto simp: spend_scopes_def split: option.splits)
  then show ?thesis
    using assms(1) by (auto simp: spentFor_recordSpend) (auto simp: spend_scopes_def scopeKey_def split: option.splits)
qed

theorem spend_stays_in_firm_witness:
  "spentFor (recordSpend ''f1'' ''tb'' (Some ''u1'') 5 0 example_db) ScopeFirm ''f1'' (currentPeriod 0)
     = spentFor example_db ScopeFirm ''f1'' (currentPeriod 0) + fixed6 5
   \<and> (\<forall>sc ref per. spentFor (recordSpend ''f1'' ''tb'' (Some ''u1'') 5 0 example_db) sc (scopeKey sc ''f2'' ref) per
         = spentFor example_db sc (scopeKey sc ''f2'' ref) per)"
proof -
  have "(0 :: rat) < 5" "CHR '':'' \<notin> set ''f1''" "CHR '':'' \<notin> set ''f2''" "''f1'' \<noteq> ''f2''"
    by simp_all
  from spend_stays_in_firm [OF this] show ?thesis
    by blast
qed

end
