(* ===== verification/Cache.thy ===== *)
theory Cache
  imports Envelope
begin

text \<open>
  The response cache of \<^verbatim>\<open>src/src/ops/cache.ts\<close>: an insertion-ordered map used as an LRU list, with a
  time to live per entry. The deep copy on a hit is the value itself. The lemmas bound the size
  over any run of calls, show what a lookup may return, and that keys of different firms, models,
  messages or parameters never coincide.
\<close>

section \<open>State and operations\<close>

type_synonym resp_cache = "(string, ai_response \<times> int) jsmap"

definition cache_key :: "string \<Rightarrow> string \<Rightarrow> string \<Rightarrow> string \<Rightarrow> string" where
  "cache_key firmId model hash paramsDigest = firmId @ '':'' @ model @ '':'' @ hash @ '':'' @ paramsDigest"

definition cache_get :: "string \<Rightarrow> int \<Rightarrow> resp_cache \<Rightarrow> ai_response option \<times> resp_cache" where
  "cache_get key now c =
     (case map_get c key of
        None \<Rightarrow> (None, c)
      | Some (response, expiresAt) \<Rightarrow>
          if expiresAt < now then (None, map_delete key c)
          else (Some response, map_set key (response, expiresAt) (map_delete key c)))"

definition cache_set :: "nat \<Rightarrow> string \<Rightarrow> ai_response \<Rightarrow> int \<Rightarrow> int \<Rightarrow> resp_cache \<Rightarrow> resp_cache" where
  "cache_set maxEntries key response ttlSeconds now c =
     (if ttlSeconds \<le> 0 then c
      else
        (let c1 = (if length c \<ge> maxEntries
                   then (case map_keys c of [] \<Rightarrow> c | oldest # _ \<Rightarrow> map_delete oldest c)
                   else c)
         in map_set key (response, now + ttlSeconds * 1000) c1))"

definition cache_size :: "resp_cache \<Rightarrow> nat" where
  "cache_size c = length c"

section \<open>Runs\<close>

datatype cache_call = Get string int | Set string ai_response int int

fun cache_step :: "nat \<Rightarrow> cache_call \<Rightarrow> resp_cache \<Rightarrow> resp_cache" where
  "cache_step n (Get k now) c = snd (cache_get k now c)"
| "cache_step n (Set k r ttl now) c = cache_set n k r ttl now c"

definition cache_inv :: "nat \<Rightarrow> resp_cache \<Rightarrow> bool" where
  "cache_inv n c \<longleftrightarrow> map_ok c \<and> length c \<le> max n 1"

lemma map_ok_head: "map_ok c \<Longrightarrow> map_keys c = k # ks \<Longrightarrow> length (map_delete k c) < length c"
  by (rule length_map_delete_present) (force simp: map_keys_def)

lemma length_map_delete: "length (map_delete k c) \<le> length c"
  by (simp add: map_delete_def)

lemma cache_get_inv: "cache_inv n c \<Longrightarrow> cache_inv n (snd (cache_get k now c))"
proof (cases "map_get c k")
  case (Some e)
  assume inv: "cache_inv n c"
  have "k \<in> fst ` set c"
    using map_get_in [OF Some] by force
  then have "length (map_delete k c) < length c"
    by (rule length_map_delete_present)
  with Some inv show ?thesis
    by (cases e) (auto simp: cache_get_def cache_inv_def length_map_set)
qed (simp add: cache_get_def)

lemma cache_set_inv: "cache_inv n c \<Longrightarrow> cache_inv n (cache_set n k r ttl now c)"
proof (cases "map_keys c")
  case Nil
  assume "cache_inv n c"
  with Nil show ?thesis
    by (auto simp: cache_set_def cache_inv_def map_keys_def length_map_set)
next
  case (Cons j js)
  assume inv: "cache_inv n c"
  then have "length (map_delete j c) < length c"
    using map_ok_head [OF _ Cons] by (simp add: cache_inv_def)
  with inv Cons show ?thesis
    by (auto simp: cache_set_def cache_inv_def Let_def length_map_set)
qed

interpretation cache: call_driven "[]" "cache_step n" "\<lambda>_ _. True" "cache_inv n"
  for n
proof unfold_locales
  fix c :: resp_cache and call
  assume "cache_inv n c"
  then show "cache_inv n (cache_step n call c)"
    by (cases call) (simp_all add: cache_get_inv cache_set_inv)
qed (simp add: cache_inv_def)

text \<open>Every entry of a cache was stored by a call of the run, with the expiry it got then.\<close>

definition stored_by :: "cache_call list \<Rightarrow> string \<Rightarrow> ai_response \<Rightarrow> int \<Rightarrow> bool" where
  "stored_by cs k r e \<longleftrightarrow> (\<exists>ttl t0. Set k r ttl t0 \<in> set cs \<and> 0 < ttl \<and> e = t0 + ttl * 1000)"

lemma cache_step_origin:
  assumes "map_get (cache_step n call c) k = Some (r, e)"
  shows "map_get c k = Some (r, e) \<or> stored_by [call] k r e"
proof (cases call)
  case (Get k' now)
  with assms show ?thesis
    by (auto simp: cache_get_def split: option.splits if_splits)
next
  case (Set k' r' ttl now)
  with assms show ?thesis
    by (auto simp: cache_set_def Let_def stored_by_def split: if_splits list.splits)
qed

lemma cache_run_origin:
  "map_get (fold (cache_step n) cs c) k = Some (r, e) \<Longrightarrow> map_get c k = Some (r, e) \<or> stored_by cs k r e"
proof (induction cs arbitrary: c)
  case (Cons call cs)
  from Cons.prems Cons.IH [of "cache_step n call c"]
  consider "map_get c k = Some (r, e)" | "stored_by [call] k r e" | "stored_by cs k r e"
    using cache_step_origin [of n call c k r e] by auto
  then show ?case
    by cases (auto simp: stored_by_def)
qed simp

section \<open>Keys\<close>

lemma split_first_colon:
  assumes "CHR '':'' \<notin> set a" "CHR '':'' \<notin> set b" "a @ CHR '':'' # x = b @ CHR '':'' # y"
  shows "a = b \<and> x = y"
  using assms
proof (induction a arbitrary: b)
  case Nil
  then show ?case
    by (cases b) auto
next
  case (Cons c a)
  then show ?case
    by (cases b) auto
qed

lemma split_last_colon:
  assumes "CHR '':'' \<notin> set a" "CHR '':'' \<notin> set b" "x @ CHR '':'' # a = y @ CHR '':'' # b"
  shows "x = y \<and> a = b"
proof -
  from assms(3) have "rev a @ CHR '':'' # rev x = rev b @ CHR '':'' # rev y"
    by (metis append.assoc append_Cons append_Nil rev.simps(2) rev_append rev_rev_ident)
  with split_first_colon [of "rev a" "rev b" "rev x" "rev y"] assms(1,2) show ?thesis
    by simp
qed

section \<open>Properties\<close>

text \<open>
  A cached answer can only be replayed to the same firm, model, messages and parameters: two
  keys coincide only if all four components do, for firm ids and digests without a colon,
  although model names may contain one.
\<close>

theorem cache_key_injective:
  assumes "CHR '':'' \<notin> set f" "CHR '':'' \<notin> set f'"
    and "CHR '':'' \<notin> set h" "CHR '':'' \<notin> set h'"
    and "CHR '':'' \<notin> set d" "CHR '':'' \<notin> set d'"
    and "cache_key f m h d = cache_key f' m' h' d'"
  shows "f = f' \<and> m = m' \<and> h = h' \<and> d = d'"
proof -
  from assms(7) have "f @ CHR '':'' # (m @ '':'' @ h @ '':'' @ d) = f' @ CHR '':'' # (m' @ '':'' @ h' @ '':'' @ d')"
    by (simp add: cache_key_def)
  from split_first_colon [OF assms(1,2) this] have f: "f = f'"
    and "(m @ '':'' @ h) @ CHR '':'' # d = (m' @ '':'' @ h') @ CHR '':'' # d'"
    by simp_all
  from split_last_colon [OF assms(5,6) this(2)] have "d = d'" and "m @ CHR '':'' # h = m' @ CHR '':'' # h'"
    by simp_all
  with split_last_colon [OF assms(3,4) this(2)] f show ?thesis
    by simp
qed

theorem cache_key_injective_witness:
  "''f1'' = ''f1'' \<and> ''ollama/q:14b'' = ''ollama/q:14b'' \<and> ''ab'' = ''ab'' \<and> ''cd'' = ''cd''"
  by (rule cache_key_injective) (simp_all add: cache_key_def)

text \<open>
  The cache stays within its capacity over any run of calls, and a lookup returns only what was
  stored under that very key with a positive time to live that has not run out; an expired entry
  is dropped.
\<close>

theorem cache_bounded_and_honest:
  assumes "1 \<le> n"
  shows "cache_size (fold (cache_step n) cs []) \<le> n
    \<and> (\<forall>r. fst (cache_get k now (fold (cache_step n) cs [])) = Some r \<longrightarrow>
         (\<exists>ttl t0. Set k r ttl t0 \<in> set cs \<and> 0 < ttl \<and> now \<le> t0 + ttl * 1000))"
proof -
  have "cache_inv n (fold (cache_step n) cs [])"
    by (rule cache.inv_run) simp
  moreover have "\<exists>ttl t0. Set k r ttl t0 \<in> set cs \<and> 0 < ttl \<and> now \<le> t0 + ttl * 1000"
    if hit: "fst (cache_get k now (fold (cache_step n) cs [])) = Some r" for r
  proof -
    from hit obtain e where "map_get (fold (cache_step n) cs []) k = Some (r, e)" "\<not> e < now"
      by (auto simp: cache_get_def split: option.splits if_splits)
    with cache_run_origin [OF this(1)] show ?thesis
      by (fastforce simp: stored_by_def not_less)
  qed
  ultimately show ?thesis
    using assms by (simp add: cache_inv_def cache_size_def)
qed

definition ex_cached :: ai_response where
  "ex_cached = \<lparr>r_content = ''hi'', r_toolCalls = None, finishReason = FStop, usage = EMPTY_USAGE,
     served_model = ''m'', served_providerId = ''p'', served_latencyMs = 5, thinking = None\<rparr>"

theorem cache_bounded_and_honest_witness:
  "cache_size (fold (cache_step 1) [Set ''a'' ex_cached 10 0, Set ''b'' ex_cached 10 0] []) \<le> 1
   \<and> (\<exists>ttl t0. Set ''b'' ex_cached ttl t0 \<in> set [Set ''a'' ex_cached 10 0, Set ''b'' ex_cached 10 0]
        \<and> 0 < ttl \<and> 10000 \<le> t0 + ttl * 1000)"
proof -
  have "fst (cache_get ''b'' 10000 (fold (cache_step 1) [Set ''a'' ex_cached 10 0, Set ''b'' ex_cached 10 0] [])) = Some ex_cached"
    by (simp add: cache_get_def cache_set_def map_get_def map_delete_def map_keys_def Let_def)
  then show ?thesis
    using cache_bounded_and_honest [where n = 1 and k = "''b''" and now = 10000
        and cs = "[Set ''a'' ex_cached 10 0, Set ''b'' ex_cached 10 0]"] by blast
qed

end
