(* ===== verification/Breaker.thy ===== *)
theory Breaker
  imports Prelude
begin

text \<open>
  The circuit breaker of \<^verbatim>\<open>src/src/resilience/breaker.ts\<close>: one rolling window of outcomes per
  provider and the state machine closed / open / half-open. The object's map of windows is a
  \<open>jsmap\<close>, the clock an argument (\<open>now\<close>), the transition hook a list of the calls it receives.
  The lemmas show the window invariant, when a circuit opens and closes, that one probe is
  admitted at a time, and that providers do not interfere.
\<close>

section \<open>State\<close>

datatype breaker_state = Closed | Open | HalfOpen

record outcome =
  o_ok :: bool
  o_at :: int

record window =
  outcomes :: "outcome list"
  wstate :: breaker_state
  openedAt :: int
  halfOpenProbeInFlight :: bool

text \<open>The options after the constructor's defaults.\<close>

record breaker_options =
  windowMs :: int
  minSamples :: nat
  openThreshold :: rat
  openDurationMs :: int

record breaker_opts_in =
  in_windowMs :: "int option"
  in_minSamples :: "nat option"
  in_openThreshold :: "rat option"
  in_openDurationMs :: "int option"

definition breaker_new :: "breaker_opts_in \<Rightarrow> breaker_options" where
  "breaker_new opts =
     \<lparr>windowMs = nullish (in_windowMs opts) 30000,
      minSamples = nullish (in_minSamples opts) 10,
      openThreshold = nullish (in_openThreshold opts) (1 / 2),
      openDurationMs = nullish (in_openDurationMs opts) 30000\<rparr>"

type_synonym windows = "(string, window) jsmap"

text \<open>A call of \<open>onTransition\<close>: provider, from, to, error rate.\<close>

type_synonym transition_event = "string \<times> breaker_state \<times> breaker_state \<times> rat"

section \<open>Operations\<close>

definition empty_window :: window where
  "empty_window = \<lparr>outcomes = [], wstate = Closed, openedAt = 0, halfOpenProbeInFlight = False\<rparr>"

text \<open>\<open>window\<close> creates the entry on first use; reading it is \<open>window_of\<close>.\<close>

definition window_of :: "windows \<Rightarrow> string \<Rightarrow> window" where
  "window_of ws p = nullish (map_get ws p) empty_window"

definition prune :: "breaker_options \<Rightarrow> int \<Rightarrow> window \<Rightarrow> window" where
  "prune cfg now w =
     w\<lparr>outcomes := dropWhile (\<lambda>x. o_at x < now - windowMs cfg) (outcomes w)\<rparr>"

definition errorRate :: "window \<Rightarrow> rat" where
  "errorRate w =
     (if outcomes w = [] then 0
      else of_nat (length (filter (\<lambda>x. \<not> o_ok x) (outcomes w))) / of_nat (length (outcomes w)))"

text \<open>\<open>Number(x.toFixed(3))\<close>: rounding to three decimals, halves away from zero.\<close>

definition fixed3 :: "rat \<Rightarrow> rat" where
  "fixed3 x = of_int (floor (x * 1000 + 1 / 2)) / 1000"

definition transition ::
    "string \<Rightarrow> window \<Rightarrow> breaker_state \<Rightarrow> window \<times> transition_event list" where
  "transition p w to =
     (if wstate w = to then (w, [])
      else (w\<lparr>wstate := to\<rparr>, [(p, wstate w, to, fixed3 (errorRate w))]))"

text \<open>The decision of \<open>allow\<close> on one window: the answer, the new window, the hook calls.\<close>

definition allow_window ::
    "breaker_options \<Rightarrow> string \<Rightarrow> int \<Rightarrow> window \<Rightarrow> bool \<times> window \<times> transition_event list" where
  "allow_window cfg p now w =
     (case wstate w of
        Closed \<Rightarrow> (True, w, [])
      | Open \<Rightarrow>
          if now - openedAt w \<ge> openDurationMs cfg
          then (let (w', ev) = transition p w HalfOpen
                in (True, w'\<lparr>halfOpenProbeInFlight := True\<rparr>, ev))
          else (False, w, [])
      | HalfOpen \<Rightarrow>
          if \<not> halfOpenProbeInFlight w then (True, w\<lparr>halfOpenProbeInFlight := True\<rparr>, [])
          else (False, w, []))"

definition allow ::
    "breaker_options \<Rightarrow> string \<Rightarrow> int \<Rightarrow> windows \<Rightarrow> bool \<times> windows \<times> transition_event list" where
  "allow cfg p now ws =
     (let (ok, w, ev) = allow_window cfg p now (window_of ws p) in (ok, map_set p w ws, ev))"

definition record_window ::
    "breaker_options \<Rightarrow> string \<Rightarrow> bool \<Rightarrow> int \<Rightarrow> window \<Rightarrow> window \<times> transition_event list" where
  "record_window cfg p ok now w0 =
     (let w = prune cfg now (w0\<lparr>outcomes := outcomes w0 @ [\<lparr>o_ok = ok, o_at = now\<rparr>]\<rparr>)
      in if wstate w = HalfOpen then
           (let w = w\<lparr>halfOpenProbeInFlight := False\<rparr>
            in if ok then transition p (w\<lparr>outcomes := filter o_ok (outcomes w)\<rparr>) Closed
               else transition p (w\<lparr>openedAt := now\<rparr>) Open)
         else if wstate w = Closed \<and> \<not> ok then
           (if length (outcomes w) \<ge> minSamples cfg \<and> errorRate w \<ge> openThreshold cfg
            then transition p (w\<lparr>openedAt := now\<rparr>) Open
            else (w, []))
         else (w, []))"

definition breaker_record ::
    "breaker_options \<Rightarrow> string \<Rightarrow> bool \<Rightarrow> int \<Rightarrow> windows \<Rightarrow> windows \<times> transition_event list" where
  "breaker_record cfg p ok now ws =
     (let (w, ev) = record_window cfg p ok now (window_of ws p) in (map_set p w ws, ev))"

definition breaker_reset :: "windows \<Rightarrow> windows" where
  "breaker_reset ws = []"

text \<open>Reading the state goes through \<open>window\<close>, so it too creates the entry.\<close>

definition breaker_state_of :: "string \<Rightarrow> windows \<Rightarrow> breaker_state \<times> windows" where
  "breaker_state_of p ws = (wstate (window_of ws p), map_set p (window_of ws p) ws)"

record breaker_snapshot =
  snap_providerId :: string
  snap_state :: breaker_state
  snap_errorRate :: rat
  snap_samples :: nat

definition snapshot :: "windows \<Rightarrow> breaker_snapshot list" where
  "snapshot ws =
     map (\<lambda>(p, w). \<lparr>snap_providerId = p, snap_state = wstate w,
                   snap_errorRate = fixed3 (errorRate w), snap_samples = length (outcomes w)\<rparr>) ws"

section \<open>Calls as steps\<close>

text \<open>The public calls that change the object, with the time at which each is made.\<close>

datatype breaker_call = Allow string int | Record string bool int | Reset

definition breaker_step :: "breaker_options \<Rightarrow> breaker_call \<Rightarrow> windows \<Rightarrow> windows" where
  "breaker_step cfg c ws =
     (case c of
        Allow p now \<Rightarrow> fst (snd (allow cfg p now ws))
      | Record p ok now \<Rightarrow> fst (breaker_record cfg p ok now ws)
      | Reset \<Rightarrow> breaker_reset ws)"

section \<open>The window invariant\<close>

text \<open>
  A probe is in flight only in the half-open state, and a circuit is never left closed by the
  failure that should have opened it: a closed window whose last outcome is a failure is below
  the sample minimum or below the threshold.
\<close>

definition window_inv :: "breaker_options \<Rightarrow> window \<Rightarrow> bool" where
  "window_inv cfg w \<longleftrightarrow>
     (halfOpenProbeInFlight w \<longrightarrow> wstate w = HalfOpen) \<and>
     (wstate w = HalfOpen \<longrightarrow> halfOpenProbeInFlight w) \<and>
     (wstate w = Closed \<and> outcomes w \<noteq> [] \<and> \<not> o_ok (last (outcomes w)) \<longrightarrow>
        length (outcomes w) < minSamples cfg \<or> errorRate w < openThreshold cfg)"

definition windows_inv :: "breaker_options \<Rightarrow> windows \<Rightarrow> bool" where
  "windows_inv cfg ws \<longleftrightarrow> map_ok ws \<and> (\<forall>p w. map_get ws p = Some w \<longrightarrow> window_inv cfg w)"

lemmas window_ops = allow_window_def record_window_def transition_def prune_def Let_def

lemma window_inv_empty [simp]: "window_inv cfg empty_window"
  by (simp add: window_inv_def empty_window_def)

lemma window_of_inv: "windows_inv cfg ws \<Longrightarrow> window_inv cfg (window_of ws p)"
  by (cases "map_get ws p") (auto simp: windows_inv_def window_of_def)

lemma allow_window_inv: "window_inv cfg w \<Longrightarrow> window_inv cfg (fst (snd (allow_window cfg p now w)))"
  by (auto simp: window_inv_def window_ops split: breaker_state.splits)

lemma last_filter_ok: "filter P xs \<noteq> [] \<Longrightarrow> P (last (filter P xs))"
  using last_in_set by fastforce

lemma last_dropWhile_snoc: "dropWhile P (xs @ [x]) \<noteq> [] \<Longrightarrow> last (dropWhile P (xs @ [x])) = x"
  by (induction xs) (auto split: if_splits)

lemma record_window_inv:
  assumes "window_inv cfg w"
  shows "window_inv cfg (fst (record_window cfg p ok now w))"
proof -
  define xs where
    "xs = dropWhile (\<lambda>x. o_at x < now - windowMs cfg) (outcomes w @ [\<lparr>o_ok = ok, o_at = now\<rparr>])"
  have "xs \<noteq> [] \<Longrightarrow> o_ok (last xs) = ok"
    unfolding xs_def by (drule last_dropWhile_snoc) simp
  with assms show ?thesis
    by (cases "wstate w")
       (auto simp: window_inv_def window_ops errorRate_def xs_def [symmetric] not_le
         dest: last_filter_ok)
qed

lemma windows_inv_Nil: "windows_inv cfg []"
  by (simp add: windows_inv_def)

lemma windows_inv_set: "windows_inv cfg ws \<Longrightarrow> window_inv cfg w \<Longrightarrow> windows_inv cfg (map_set p w ws)"
  unfolding windows_inv_def by (auto split: if_splits)

lemma allow_inv: "windows_inv cfg ws \<Longrightarrow> windows_inv cfg (fst (snd (allow cfg p now ws)))"
  using allow_window_inv [OF window_of_inv]
  by (auto simp: allow_def windows_inv_set split: prod.splits) (metis fst_conv snd_conv windows_inv_set)

lemma record_inv: "windows_inv cfg ws \<Longrightarrow> windows_inv cfg (fst (breaker_record cfg p ok now ws))"
  using record_window_inv [OF window_of_inv]
  by (auto simp: breaker_record_def split: prod.splits) (metis fst_conv windows_inv_set)

interpretation breaker: call_driven "[]" "breaker_step cfg" "\<lambda>_ _. True" "windows_inv cfg"
  for cfg
proof unfold_locales
  show "windows_inv cfg []"
    by (rule windows_inv_Nil)
next
  fix ws c
  assume "windows_inv cfg ws"
  then show "windows_inv cfg (breaker_step cfg c ws)"
    by (cases c)
       (simp_all add: breaker_step_def breaker_reset_def allow_inv record_inv windows_inv_Nil)
qed

section \<open>When a circuit opens, when it admits\<close>

lemma record_state:
  "wstate (fst (record_window cfg p ok now w)) =
     (case wstate w of
        HalfOpen \<Rightarrow> if ok then Closed else Open
      | Open \<Rightarrow> Open
      | Closed \<Rightarrow>
          let w' = prune cfg now (w\<lparr>outcomes := outcomes w @ [\<lparr>o_ok = ok, o_at = now\<rparr>]\<rparr>)
          in if \<not> ok \<and> minSamples cfg \<le> length (outcomes w') \<and> openThreshold cfg \<le> errorRate w'
             then Open else Closed)"
  by (cases "wstate w") (auto simp: window_ops errorRate_def)

lemma allow_answer:
  "fst (allow_window cfg p now w) \<longleftrightarrow>
     wstate w = Closed
     \<or> wstate w = Open \<and> openDurationMs cfg \<le> now - openedAt w
     \<or> wstate w = HalfOpen \<and> \<not> halfOpenProbeInFlight w"
  by (auto simp: window_ops split: breaker_state.splits)

lemma allow_state:
  "wstate (fst (snd (allow_window cfg p now w))) =
     (if wstate w = Open \<and> openDurationMs cfg \<le> now - openedAt w then HalfOpen else wstate w)"
  by (auto simp: window_ops split: breaker_state.splits)

lemma errorRate_bounds: "0 \<le> errorRate w" "errorRate w \<le> 1"
  by (simp_all add: errorRate_def divide_le_eq)

lemma window_of_set: "window_of (map_set p w ws) q = (if q = p then w else window_of ws q)"
  by (simp add: window_of_def)

lemma window_of_Nil: "wstate (window_of [] p) = Closed"
  by (simp add: window_of_def empty_window_def)

lemma allow_window_of:
  "window_of (fst (snd (allow cfg p now ws))) q =
     (if q = p then fst (snd (allow_window cfg p now (window_of ws p))) else window_of ws q)"
  by (simp add: allow_def window_of_set split: prod.splits)

lemma record_window_of:
  "window_of (fst (breaker_record cfg p ok now ws)) q =
     (if q = p then fst (record_window cfg p ok now (window_of ws p)) else window_of ws q)"
  by (simp add: breaker_record_def window_of_set split: prod.splits)

lemma allow_fst: "fst (allow cfg p now ws) = fst (allow_window cfg p now (window_of ws p))"
  by (simp add: allow_def split: prod.splits)

text \<open>The calls that concern a provider.\<close>

fun call_on :: "string \<Rightarrow> breaker_call \<Rightarrow> bool" where
  "call_on p (Allow q now) = (q = p)"
| "call_on p (Record q ok now) = (q = p)"
| "call_on p Reset = True"

fun is_outcome_on :: "string \<Rightarrow> breaker_call \<Rightarrow> bool" where
  "is_outcome_on p (Allow q now) = False"
| "is_outcome_on p (Record q ok now) = (q = p)"
| "is_outcome_on p Reset = True"

lemma step_frame: "\<not> call_on p c \<Longrightarrow> window_of (breaker_step cfg c ws) p = window_of ws p"
  by (cases c) (simp_all add: breaker_step_def allow_window_of record_window_of)

lemma run_frame:
  "\<forall>c\<in>set cs. \<not> call_on p c \<Longrightarrow> window_of (fold (breaker_step cfg) cs ws) p = window_of ws p"
  by (induction cs arbitrary: ws) (simp_all add: step_frame)

text \<open>While a probe is in flight, admissions leave the window as it is.\<close>

lemma probing_step:
  assumes "wstate (window_of ws p) = HalfOpen" "halfOpenProbeInFlight (window_of ws p)"
    and "\<not> is_outcome_on p c"
  shows "window_of (breaker_step cfg c ws) p = window_of ws p"
  using assms by (cases c) (auto simp: breaker_step_def allow_window_of record_window_of window_ops)

lemma probing_run:
  assumes "wstate (window_of ws p) = HalfOpen" "halfOpenProbeInFlight (window_of ws p)"
    and "\<forall>c\<in>set cs. \<not> is_outcome_on p c"
  shows "window_of (fold (breaker_step cfg) cs ws) p = window_of ws p"
  using assms(3,1,2) by (induction cs arbitrary: ws) (simp_all add: probing_step)

section \<open>Where an open circuit comes from\<close>

lemma record_to_open:
  assumes "wstate (fst (record_window cfg p ok now w)) = Open"
  shows "(wstate w = Open \<and> openedAt (fst (record_window cfg p ok now w)) = openedAt w)
    \<or> (\<not> ok \<and> openedAt (fst (record_window cfg p ok now w)) = now)"
  using assms by (cases "wstate w") (auto simp: window_ops split: if_splits)

lemma allow_to_open:
  "wstate (fst (snd (allow_window cfg p now w))) = Open \<Longrightarrow>
     wstate w = Open \<and> fst (snd (allow_window cfg p now w)) = w"
  by (auto simp: window_ops split: breaker_state.splits if_splits)

lemma open_step:
  assumes "wstate (window_of (breaker_step cfg c ws) p) = Open"
  shows "(wstate (window_of ws p) = Open
            \<and> openedAt (window_of (breaker_step cfg c ws) p) = openedAt (window_of ws p))
    \<or> (\<exists>now. c = Record p False now \<and> openedAt (window_of (breaker_step cfg c ws) p) = now)"
proof (cases "call_on p c")
  case False
  with assms show ?thesis
    by (simp add: step_frame)
next
  case True
  with assms show ?thesis
    by (cases c)
       (auto simp: breaker_step_def allow_window_of record_window_of breaker_reset_def
         window_of_Nil dest: allow_to_open record_to_open)
qed

lemma open_origin:
  assumes "wstate (window_of (fold (breaker_step cfg) cs []) p) = Open"
  shows "\<exists>cs1 now cs2. cs = cs1 @ Record p False now # cs2
           \<and> openedAt (window_of (fold (breaker_step cfg) cs []) p) = now"
  using assms
proof (induction cs rule: rev_induct)
  case Nil
  then show ?case
    by (simp add: window_of_Nil)
next
  case (snoc c cs)
  let ?ws = "fold (breaker_step cfg) cs []"
  have run: "fold (breaker_step cfg) (cs @ [c]) [] = breaker_step cfg c ?ws"
    by simp
  from open_step [of cfg c ?ws p] snoc.prems
  consider "wstate (window_of ?ws p) = Open"
      "openedAt (window_of (breaker_step cfg c ?ws) p) = openedAt (window_of ?ws p)"
    | now where "c = Record p False now" "openedAt (window_of (breaker_step cfg c ?ws) p) = now"
    by auto
  then show ?case
  proof cases
    case 1
    with snoc.IH obtain cs1 now cs2
      where "cs = cs1 @ Record p False now # cs2" "openedAt (window_of ?ws p) = now"
      by blast
    with 1 have "cs @ [c] = cs1 @ Record p False now # (cs2 @ [c])
        \<and> openedAt (window_of (breaker_step cfg c ?ws) p) = now"
      by simp
    then show ?thesis
      unfolding run by blast
  next
    case 2
    then have "cs @ [c] = cs @ Record p False now # []
        \<and> openedAt (window_of (breaker_step cfg c ?ws) p) = now"
      by simp
    then show ?thesis
      unfolding run by blast
  qed
qed

section \<open>Properties\<close>

text \<open>
  Whatever sequence of calls the breaker receives, every window keeps its invariant: the
  half-open state and the probe flag coincide, and no closed window sits on a failure that
  should have opened it.
\<close>

theorem breaker_windows_consistent: "windows_inv cfg (fold (breaker_step cfg) cs [])"
  by (rule breaker.inv_run) simp

text \<open>
  A circuit that is open after any run of calls was opened by a failure recorded for that
  very provider at the time \<open>openedAt\<close>, and \<open>allow\<close> refuses the provider exactly until the open
  duration has elapsed since that failure; a success never opens a circuit.
\<close>

theorem breaker_open_until_elapsed:
  assumes "wstate (window_of (fold (breaker_step cfg) cs []) p) = Open"
  shows "\<exists>cs1 t cs2. cs = cs1 @ Record p False t # cs2
    \<and> (\<forall>now. fst (allow cfg p now (fold (breaker_step cfg) cs [])) \<longleftrightarrow> t + openDurationMs cfg \<le> now)"
proof -
  from open_origin [OF assms] obtain cs1 t cs2
    where "cs = cs1 @ Record p False t # cs2"
      and "openedAt (window_of (fold (breaker_step cfg) cs []) p) = t"
    by blast
  moreover from this(2) assms
  have "fst (allow cfg p now (fold (breaker_step cfg) cs [])) \<longleftrightarrow> t + openDurationMs cfg \<le> now" for now
    by (auto simp: allow_fst allow_answer)
  ultimately show ?thesis
    by blast
qed

definition example_options :: breaker_options where
  "example_options = \<lparr>windowMs = 1000, minSamples = 2, openThreshold = 1 / 2, openDurationMs = 100\<rparr>"

lemmas breaker_eval = example_options_def breaker_step_def breaker_record_def allow_def
  window_ops window_of_def empty_window_def errorRate_def map_get_def

theorem breaker_open_until_elapsed_witness:
  "\<exists>cs1 t cs2. [Record ''a'' False 10, Record ''a'' False 20] = cs1 @ Record ''a'' False t # cs2
    \<and> (\<forall>now. fst (allow example_options ''a'' now
          (fold (breaker_step example_options) [Record ''a'' False 10, Record ''a'' False 20] []))
        \<longleftrightarrow> t + openDurationMs example_options \<le> now)"
  by (rule breaker_open_until_elapsed) (simp add: breaker_eval)

text \<open>
  At most one probe at a time: once \<open>allow\<close> has answered true outside the closed state, every
  later \<open>allow\<close> for that provider is refused, at any time and after any further calls, as long as
  no outcome is recorded for it (and the breaker is not reset). The wait is unbounded: a caller
  that is admitted as the probe and never records leaves the circuit half-open for good.
\<close>

theorem breaker_single_probe:
  assumes "wstate (window_of ws p) \<noteq> Closed"
    and "fst (allow cfg p now ws)"
    and "\<forall>c\<in>set cs. \<not> is_outcome_on p c"
  shows "\<not> fst (allow cfg p later (fold (breaker_step cfg) cs (fst (snd (allow cfg p now ws)))))"
proof -
  let ?ws = "fst (snd (allow cfg p now ws))"
  from assms(1,2) have probing: "wstate (window_of ?ws p) = HalfOpen" "halfOpenProbeInFlight (window_of ?ws p)"
    by (auto simp: allow_window_of allow_fst window_ops split: breaker_state.splits if_splits)
  from probing_run [OF this assms(3)] probing show ?thesis
    by (simp add: allow_fst allow_answer)
qed

theorem breaker_single_probe_witness:
  "\<not> fst (allow example_options ''a'' 99999999
      (fold (breaker_step example_options) [Allow ''a'' 5000, Record ''b'' True 6000]
        (fst (snd (allow example_options ''a'' 200
          (fold (breaker_step example_options) [Record ''a'' False 10, Record ''a'' False 20] []))))))"
  by (rule breaker_single_probe) (simp_all add: breaker_eval)

end
