(* ===== verification/Limiter.thy ===== *)
theory Limiter
  imports Prelude
begin

text \<open>
  The token-bucket rate limiter of \<^verbatim>\<open>src/src/resilience/limiter.ts\<close>. Tokens are rational, the
  clock is an argument. The lemmas bound the tokens of a bucket and the requests admitted over
  any interval, and show that the advertised wait is long enough.
\<close>

section \<open>State and operations\<close>

record bucket =
  tokens :: rat
  updatedAt :: int

record limiter =
  rpm :: int
  burst :: int

definition limiter_new :: "int \<Rightarrow> int option \<Rightarrow> limiter" where
  "limiter_new r b = \<lparr>rpm = r, burst = nullish b (max 5 (r div 4))\<rparr>"

type_synonym buckets = "(string, bucket) jsmap"

definition refillPerMs :: "limiter \<Rightarrow> rat" where
  "refillPerMs cfg = of_int (rpm cfg) / 60000"

text \<open>The tokens of a bucket after the refill up to \<open>now\<close>.\<close>

definition refilled :: "limiter \<Rightarrow> int \<Rightarrow> bucket \<Rightarrow> rat" where
  "refilled cfg now b =
     min (of_int (burst cfg)) (tokens b + of_int (now - updatedAt b) * refillPerMs cfg)"

text \<open>\<open>take\<close>: \<open>None\<close> when admitted, else the seconds to wait.\<close>

definition limiter_take :: "limiter \<Rightarrow> string \<Rightarrow> int \<Rightarrow> buckets \<Rightarrow> int option \<times> buckets" where
  "limiter_take cfg k now bs =
     (if rpm cfg \<le> 0 then (None, bs)
      else let b = nullish (map_get bs k) \<lparr>tokens = of_int (burst cfg), updatedAt = now\<rparr>;
               t = refilled cfg now b
           in if t \<ge> 1 then (None, map_set k \<lparr>tokens = t - 1, updatedAt = now\<rparr> bs)
              else (Some \<lceil>(1 - t) / refillPerMs cfg / 1000\<rceil>,
                    map_set k \<lparr>tokens = t, updatedAt = now\<rparr> bs))"

definition limiter_prune :: "int \<Rightarrow> int \<Rightarrow> buckets \<Rightarrow> buckets" where
  "limiter_prune maxIdleMs now bs = filter (\<lambda>(k, b). \<not> (now - updatedAt b > maxIdleMs)) bs"

section \<open>Calls\<close>

datatype limiter_call = Take string int | Prune int int

fun call_time :: "limiter_call \<Rightarrow> int" where
  "call_time (Take k now) = now"
| "call_time (Prune idle now) = now"

fun limiter_step :: "limiter \<Rightarrow> limiter_call \<Rightarrow> buckets \<Rightarrow> buckets" where
  "limiter_step cfg (Take k now) bs = snd (limiter_take cfg k now bs)"
| "limiter_step cfg (Prune idle now) bs = limiter_prune idle now bs"

text \<open>How many of the calls admit a request for key \<open>k\<close>.\<close>

definition admits :: "limiter \<Rightarrow> string \<Rightarrow> limiter_call \<Rightarrow> buckets \<Rightarrow> nat" where
  "admits cfg k c bs =
     (case c of Take k' now \<Rightarrow> if k' = k \<and> fst (limiter_take cfg k now bs) = None then 1 else 0
      | Prune idle now \<Rightarrow> 0)"

fun admitted :: "limiter \<Rightarrow> string \<Rightarrow> limiter_call list \<Rightarrow> buckets \<Rightarrow> nat" where
  "admitted cfg k [] bs = 0"
| "admitted cfg k (c # cs) bs = admits cfg k c bs + admitted cfg k cs (limiter_step cfg c bs)"

section \<open>The bucket invariant\<close>

definition bucket_inv :: "limiter \<Rightarrow> int \<Rightarrow> bucket \<Rightarrow> bool" where
  "bucket_inv cfg t b \<longleftrightarrow> 0 \<le> tokens b \<and> tokens b \<le> of_int (burst cfg) \<and> updatedAt b \<le> t"

definition limiter_inv :: "limiter \<Rightarrow> buckets \<times> int \<Rightarrow> bool" where
  "limiter_inv cfg = (\<lambda>(bs, t). map_ok bs \<and>
     (0 \<le> rpm cfg \<and> 0 \<le> burst cfg \<longrightarrow> (\<forall>k b. map_get bs k = Some b \<longrightarrow> bucket_inv cfg t b)))"

lemma limiter_inv_init: "limiter_inv cfg ([], t0)"
  by (simp add: limiter_inv_def)

lemma refilled_bounds:
  assumes "0 \<le> rpm cfg" "0 \<le> burst cfg" "bucket_inv cfg t b" "t \<le> now"
  shows "0 \<le> refilled cfg now b" "refilled cfg now b \<le> of_int (burst cfg)"
  using assms by (auto simp: refilled_def bucket_inv_def refillPerMs_def)

lemma map_ok_prune: "map_ok bs \<Longrightarrow> map_ok (limiter_prune idle now bs)"
  unfolding limiter_prune_def by (rule map_ok_filter)

lemma get_prune:
  "map_ok bs \<Longrightarrow> map_get (limiter_prune idle now bs) k =
     (case map_get bs k of None \<Rightarrow> None
      | Some b \<Rightarrow> if now - updatedAt b > idle then None else Some b)"
  by (induction bs)
     (auto simp: limiter_prune_def map_get_def map_ok_def split: option.splits
       dest!: map_of_SomeD intro: rev_image_eqI)

lemma map_ok_take: "map_ok bs \<Longrightarrow> map_ok (snd (limiter_take cfg k now bs))"
  by (simp add: limiter_take_def Let_def)

lemma take_bucket_inv:
  assumes "limiter_inv cfg (bs, t)" "t \<le> now" "0 \<le> rpm cfg" "0 \<le> burst cfg"
    and "map_get (snd (limiter_take cfg k now bs)) k' = Some b"
  shows "bucket_inv cfg now b"
proof -
  have old: "bucket_inv cfg now b" if "map_get bs k' = Some b" for k' b
    using assms(1-4) that by (fastforce simp: limiter_inv_def bucket_inv_def)
  define b0 where "b0 = nullish (map_get bs k) \<lparr>tokens = of_int (burst cfg), updatedAt = now\<rparr>"
  have "bucket_inv cfg now b0"
    using old assms(4) by (cases "map_get bs k") (auto simp: b0_def bucket_inv_def)
  note refilled_bounds [OF assms(3,4) this order_refl]
  with old assms(5) show ?thesis
    by (auto simp: limiter_take_def Let_def b0_def [symmetric] bucket_inv_def
        split: if_splits)
qed

lemma limiter_step_inv:
  assumes "limiter_inv cfg (bs, t)" "t \<le> call_time c"
  shows "limiter_inv cfg (limiter_step cfg c bs, call_time c)"
proof (cases c)
  case (Take k now)
  with assms show ?thesis
    using take_bucket_inv [OF assms(1)] by (auto simp: limiter_inv_def map_ok_take)
next
  case (Prune idle now)
  from assms Prune have ok: "map_ok bs"
    by (simp add: limiter_inv_def)
  with assms Prune show ?thesis
    by (force simp: limiter_inv_def map_ok_prune get_prune bucket_inv_def split: option.splits if_splits)
qed

interpretation limiter: call_driven "([], t0)" "\<lambda>c (bs, t). (limiter_step cfg c bs, call_time c)"
    "\<lambda>(bs, t) c. t \<le> call_time c" "limiter_inv cfg"
  for cfg t0
  by unfold_locales (auto simp: limiter_inv_init intro: limiter_step_inv)

section \<open>What a key may still spend\<close>

text \<open>The requests key \<open>k\<close> could make at time \<open>now\<close>; an absent bucket is a full one.\<close>

definition avail :: "limiter \<Rightarrow> string \<Rightarrow> int \<Rightarrow> buckets \<Rightarrow> rat" where
  "avail cfg k now bs =
     (case map_get bs k of None \<Rightarrow> of_int (burst cfg) | Some b \<Rightarrow> refilled cfg now b)"

lemma avail_le_burst: "avail cfg k now bs \<le> of_int (burst cfg)"
  by (simp add: avail_def refilled_def split: option.splits)

lemma avail_mono:
  assumes "0 \<le> rpm cfg" "t \<le> now"
  shows "avail cfg k now bs \<le> avail cfg k t bs + of_int (now - t) * refillPerMs cfg"
proof (cases "map_get bs k")
  case None
  with assms show ?thesis
    by (simp add: avail_def refillPerMs_def)
next
  case (Some b)
  have "of_int (now - updatedAt b) * refillPerMs cfg =
      of_int (t - updatedAt b) * refillPerMs cfg + of_int (now - t) * refillPerMs cfg"
    by (simp add: algebra_simps)
  moreover have "0 \<le> of_int (now - t) * refillPerMs cfg"
    using assms by (simp add: refillPerMs_def)
  ultimately show ?thesis
    using Some by (auto simp: avail_def refilled_def min_def)
qed

text \<open>A prune may only discard buckets that have had the time to refill.\<close>

fun prune_safe :: "limiter \<Rightarrow> limiter_call \<Rightarrow> bool" where
  "prune_safe cfg (Take k now) = True"
| "prune_safe cfg (Prune idle now) = (of_int (burst cfg) \<le> of_int idle * refillPerMs cfg)"

lemma refilled_now: "tokens b \<le> of_int (burst cfg) \<Longrightarrow> updatedAt b = now \<Longrightarrow> refilled cfg now b = tokens b"
  by (simp add: refilled_def)

lemma take_spends:
  assumes "0 < rpm cfg"
  shows "of_nat (admits cfg k (Take k' now) bs) + avail cfg k now (snd (limiter_take cfg k' now bs))
    \<le> avail cfg k now bs"
proof (cases "k' = k")
  case False
  with assms show ?thesis
    by (simp add: admits_def avail_def limiter_take_def Let_def)
next
  case True
  define b where "b = nullish (map_get bs k) \<lparr>tokens = of_int (burst cfg), updatedAt = now\<rparr>"
  have "avail cfg k now bs = refilled cfg now b"
    by (cases "map_get bs k") (simp_all add: avail_def b_def refilled_def)
  moreover have "refilled cfg now b \<le> of_int (burst cfg)"
    by (simp add: refilled_def)
  ultimately show ?thesis
    using assms True
    by (auto simp: admits_def avail_def limiter_take_def Let_def b_def [symmetric] refilled_now)
qed

lemma prune_keeps_avail:
  assumes "limiter_inv cfg (bs, t)" "0 < rpm cfg" "0 \<le> burst cfg" "prune_safe cfg (Prune idle now)"
  shows "avail cfg k now (limiter_prune idle now bs) \<le> avail cfg k now bs"
proof (cases "map_get bs k")
  case None
  with assms show ?thesis
    by (simp add: avail_def get_prune limiter_inv_def)
next
  case (Some b)
  with assms have "0 \<le> tokens b" "map_ok bs"
    by (auto simp: limiter_inv_def bucket_inv_def)
  moreover have "of_int idle * refillPerMs cfg \<le> of_int (now - updatedAt b) * refillPerMs cfg"
    if "idle < now - updatedAt b"
    using that assms(2) by (intro mult_right_mono) (simp_all add: refillPerMs_def)
  ultimately show ?thesis
    using Some assms(4) by (fastforce simp: avail_def get_prune refilled_def)
qed

lemma step_spends:
  assumes "limiter_inv cfg (bs, t)" "0 < rpm cfg" "0 \<le> burst cfg" "prune_safe cfg c"
  shows "of_nat (admits cfg k c bs) + avail cfg k (call_time c) (limiter_step cfg c bs)
    \<le> avail cfg k (call_time c) bs"
proof (cases c)
  case (Take k' now)
  then show ?thesis
    using take_spends [OF assms(2)] by simp
next
  case (Prune idle now)
  then show ?thesis
    using prune_keeps_avail [OF assms(1-3)] assms(4) by (simp add: admits_def)
qed

lemma admitted_bound:
  assumes "0 < rpm cfg" "0 \<le> burst cfg"
  shows "limiter_inv cfg (bs, t) \<Longrightarrow> sorted (t # map call_time cs @ [t1]) \<Longrightarrow> \<forall>c\<in>set cs. prune_safe cfg c
    \<Longrightarrow> of_nat (admitted cfg k cs bs) \<le> avail cfg k t bs + of_int (t1 - t) * refillPerMs cfg"
proof (induction cs arbitrary: bs t)
  case Nil
  then have "0 \<le> avail cfg k t bs"
    using assms refilled_bounds(1) [OF _ assms(2)]
    by (fastforce simp: avail_def limiter_inv_def split: option.splits)
  with Nil assms show ?case
    by (simp add: refillPerMs_def)
next
  case (Cons c cs)
  let ?now = "call_time c" and ?bs = "limiter_step cfg c bs"
  from Cons.prems have t: "t \<le> ?now"
    by simp
  have "of_nat (admitted cfg k cs ?bs) \<le> avail cfg k ?now ?bs + of_int (t1 - ?now) * refillPerMs cfg"
    using Cons.prems by (intro Cons.IH limiter_step_inv [OF _ t]) auto
  moreover have "of_nat (admits cfg k c bs) + avail cfg k ?now ?bs \<le> avail cfg k ?now bs"
    using Cons.prems by (intro step_spends [OF _ assms]) auto
  moreover have "avail cfg k ?now bs \<le> avail cfg k t bs + of_int (?now - t) * refillPerMs cfg"
    using assms(1) t by (intro avail_mono) simp_all
  moreover have "of_int (t1 - t) * refillPerMs cfg =
      of_int (t1 - ?now) * refillPerMs cfg + of_int (?now - t) * refillPerMs cfg"
    by (simp add: algebra_simps)
  ultimately show ?case
    by simp
qed

section \<open>Properties\<close>

text \<open>
  C20. The rate limit holds over every interval: whatever the calls made between \<open>t0\<close> and \<open>t1\<close> on
  a fresh limiter (takes for any keys, prunes that only discard buckets idle long enough to have
  refilled), at most \<open>burst + (t1 - t0) * rpm / 60000\<close> requests are admitted for one key.
\<close>

theorem limiter_rate_bound:
  assumes "0 < rpm cfg" "0 \<le> burst cfg"
    and "sorted (t0 # map call_time cs @ [t1])"
    and "\<forall>c\<in>set cs. prune_safe cfg c"
  shows "of_nat (admitted cfg k cs []) \<le> of_int (burst cfg) + of_int (t1 - t0) * (of_int (rpm cfg) / 60000 :: rat)"
  using admitted_bound [OF assms(1,2) limiter_inv_init assms(3,4)]
  by (simp add: avail_def refillPerMs_def)

theorem limiter_rate_bound_witness:
  "of_nat (admitted (limiter_new 60 (Some 2)) ''k''
       [Take ''k'' 0, Take ''k'' 0, Take ''j'' 5, Take ''k'' 10, Prune 600000 20, Take ''k'' 1000] [])
     \<le> of_int (burst (limiter_new 60 (Some 2)))
        + of_int (1000 - 0) * (of_int (rpm (limiter_new 60 (Some 2))) / 60000 :: rat)"
  by (rule limiter_rate_bound) (simp_all add: limiter_new_def refillPerMs_def)

text \<open>
  The advertised wait is positive and long enough: a key that is refused with \<open>Retry-After\<close> of
  \<open>s\<close> seconds is admitted when it comes back after those \<open>s\<close> seconds.
\<close>

theorem limiter_retry_after_suffices:
  assumes "1 \<le> burst cfg"
    and "fst (limiter_take cfg k now bs) = Some s"
    and "now + s * 1000 \<le> later"
  shows "1 \<le> s \<and> fst (limiter_take cfg k later (snd (limiter_take cfg k now bs))) = None"
proof -
  define t where "t = refilled cfg now (nullish (map_get bs k) \<lparr>tokens = of_int (burst cfg), updatedAt = now\<rparr>)"
  from assms(2) have rpm: "0 < rpm cfg" and t: "t < 1"
    and s: "s = \<lceil>(1 - t) / refillPerMs cfg / 1000\<rceil>"
    and snd: "snd (limiter_take cfg k now bs) = map_set k \<lparr>tokens = t, updatedAt = now\<rparr> bs"
    by (auto simp: limiter_take_def Let_def t_def split: if_splits)
  from rpm have r: "0 < refillPerMs cfg"
    by (simp add: refillPerMs_def)
  with t have "0 < (1 - t) / refillPerMs cfg / 1000"
    by simp
  then have "1 \<le> s"
    unfolding s by linarith
  have "(1 - t) / refillPerMs cfg / 1000 \<le> of_int s"
    unfolding s by (rule le_of_int_ceiling)
  then have "1 - t \<le> of_int (s * 1000) * refillPerMs cfg"
    using r by (simp add: field_simps)
  also have "\<dots> \<le> of_int (later - now) * refillPerMs cfg"
    using assms(3) r by (intro mult_right_mono) (simp_all flip: of_int_mult)
  finally have "1 \<le> refilled cfg later \<lparr>tokens = t, updatedAt = now\<rparr>"
    using assms(1) by (simp add: refilled_def)
  with \<open>1 \<le> s\<close> show ?thesis
    unfolding snd by (simp add: limiter_take_def Let_def)
qed

theorem limiter_retry_after_suffices_witness:
  "1 \<le> (1 :: int) \<and> fst (limiter_take (limiter_new 60 (Some 1)) ''k'' 1000
      (snd (limiter_take (limiter_new 60 (Some 1)) ''k'' 0
        (snd (limiter_take (limiter_new 60 (Some 1)) ''k'' 0 []))))) = None"
  by (rule limiter_retry_after_suffices [where now = 0])
     (simp_all add: limiter_new_def limiter_take_def refillPerMs_def refilled_def Let_def map_get_def)

end
