(* ===== verification/Shed.thy ===== *)
theory Shed
  imports Prelude
begin

text \<open>
  The load-shed guard of \<^verbatim>\<open>src/src/resilience/shed.ts\<close>: a concurrency semaphore per provider with
  a bounded wait queue. A waiter is a ticket (the closure \<open>entry\<close> of the code); resolving its
  promise is returning the ticket. Requests interleave arbitrarily: \<open>shed_step\<close> is the step
  relation of the guard together with the tickets that hold a slot, where each holder calls its
  release function once (the executor does so in a \<open>finally\<close>). Rule induction gives the capacity
  and queue bounds, the exact slot accounting, and that no slot idles while someone waits.
\<close>

section \<open>State and operations\<close>

record shed_cfg =
  maxConcurrent :: nat
  queueCap :: nat

type_synonym ticket = nat

record shed =
  inFlight :: "(string, int) jsmap"
  queues :: "(string, ticket list) jsmap"

definition shed_new :: shed where
  "shed_new = \<lparr>inFlight = [], queues = []\<rparr>"

definition flying :: "shed \<Rightarrow> string \<Rightarrow> int" where
  "flying g p = nullish (map_get (inFlight g) p) 0"

definition queue_of :: "shed \<Rightarrow> string \<Rightarrow> ticket list" where
  "queue_of g p = nullish (map_get (queues g) p) []"

datatype acquire_result = Granted | Rejected | Queued

definition acquire :: "shed_cfg \<Rightarrow> string \<Rightarrow> ticket \<Rightarrow> shed \<Rightarrow> acquire_result \<times> shed" where
  "acquire cfg p tk g =
     (let current = flying g p
      in if current < int (maxConcurrent cfg)
         then (Granted, g\<lparr>inFlight := map_set p (current + 1) (inFlight g)\<rparr>)
         else let queue = queue_of g p
              in if length queue \<ge> queueCap cfg then (Rejected, g)
                 else (Queued, g\<lparr>queues := map_set p (queue @ [tk]) (queues g)\<rparr>))"

text \<open>The abort listener of a queued entry; the answer tells whether it resolved with null.\<close>

definition abort_wait :: "string \<Rightarrow> ticket \<Rightarrow> shed \<Rightarrow> bool \<times> shed" where
  "abort_wait p tk g =
     (let queue = queue_of g p
      in if tk \<in> set queue then (True, g\<lparr>queues := map_set p (remove1 tk queue) (queues g)\<rparr>)
         else (False, g))"

text \<open>\<open>release\<close>: the ticket that is granted the freed slot, if any.\<close>

definition release :: "shed_cfg \<Rightarrow> string \<Rightarrow> shed \<Rightarrow> ticket option \<times> shed" where
  "release cfg p g =
     (let current = nullish (map_get (inFlight g) p) 1 - 1;
          g1 = g\<lparr>inFlight := map_set p current (inFlight g)\<rparr>
      in case map_get (queues g) p of
           None \<Rightarrow> (None, g1)
         | Some queue \<Rightarrow>
             (case queue of
                [] \<Rightarrow> (None, g1)
              | next # rest \<Rightarrow>
                  if current < int (maxConcurrent cfg)
                  then (Some next,
                        g1\<lparr>queues := map_set p rest (queues g1),
                           inFlight := map_set p (nullish (map_get (inFlight g1) p) 0 + 1) (inFlight g1)\<rparr>)
                  else (None, g1)))"

definition shed_stats :: "shed \<Rightarrow> string \<Rightarrow> int \<times> nat" where
  "shed_stats g p = (flying g p, length (queue_of g p))"

section \<open>Reading the state after an operation\<close>

lemma flying_set [simp]: "flying (g\<lparr>inFlight := map_set p n m\<rparr>) q =
    (if q = p then n else nullish (map_get m q) 0)"
  by (simp add: flying_def)

lemma queue_of_set [simp]: "queue_of (g\<lparr>queues := map_set p q0 m\<rparr>) q =
    (if q = p then q0 else nullish (map_get m q) [])"
  by (simp add: queue_of_def)

lemma flying_queues [simp]: "flying (g\<lparr>queues := m\<rparr>) = flying g"
  by (simp add: flying_def fun_eq_iff)

lemma queue_of_inFlight [simp]: "queue_of (g\<lparr>inFlight := m\<rparr>) = queue_of g"
  by (simp add: queue_of_def fun_eq_iff)

lemma acquire_cases:
  "acquire cfg p tk g = (r, g') \<longleftrightarrow>
     (r = Granted \<and> flying g p < int (maxConcurrent cfg)
        \<and> g' = g\<lparr>inFlight := map_set p (flying g p + 1) (inFlight g)\<rparr>)
   \<or> (r = Rejected \<and> \<not> flying g p < int (maxConcurrent cfg) \<and> queueCap cfg \<le> length (queue_of g p) \<and> g' = g)
   \<or> (r = Queued \<and> \<not> flying g p < int (maxConcurrent cfg) \<and> length (queue_of g p) < queueCap cfg
        \<and> g' = g\<lparr>queues := map_set p (queue_of g p @ [tk]) (queues g)\<rparr>)"
  by (auto simp: acquire_def Let_def)

lemma release_spec:
  assumes "1 \<le> flying g p" "flying g p \<le> int (maxConcurrent cfg)"
  shows "release cfg p g = (r, g') \<Longrightarrow>
     (case queue_of g p of
        [] \<Rightarrow> r = None \<and> flying g' p = flying g p - 1 \<and> queue_of g' p = []
      | tk # rest \<Rightarrow> r = Some tk \<and> flying g' p = flying g p \<and> queue_of g' p = rest)
     \<and> (\<forall>q. q \<noteq> p \<longrightarrow> flying g' q = flying g q \<and> queue_of g' q = queue_of g q)"
proof -
  from assms obtain n where "map_get (inFlight g) p = Some n"
    by (cases "map_get (inFlight g) p") (auto simp: flying_def)
  with assms show "release cfg p g = (r, g') \<Longrightarrow> ?thesis"
    by (cases "map_get (queues g) p")
       (auto simp: release_def flying_def queue_of_def Let_def split: list.splits if_splits)
qed

section \<open>Requests around the guard\<close>

record shed_sys =
  guard :: shed
  holders :: "(ticket \<times> string) list"

definition held :: "shed_sys \<Rightarrow> string \<Rightarrow> nat" where
  "held \<sigma> p = length (filter (\<lambda>h. snd h = p) (holders \<sigma>))"

definition in_use :: "ticket \<Rightarrow> shed_sys \<Rightarrow> bool" where
  "in_use tk \<sigma> \<longleftrightarrow> tk \<in> fst ` set (holders \<sigma>) \<or> (\<exists>p. tk \<in> set (queue_of (guard \<sigma>) p))"

definition sys_new :: shed_sys where
  "sys_new = \<lparr>guard = shed_new, holders = []\<rparr>"

text \<open>A slot is taken over by the ticket that \<open>release\<close> resolves.\<close>

definition hand_over :: "ticket option \<Rightarrow> string \<Rightarrow> (ticket \<times> string) list \<Rightarrow> (ticket \<times> string) list" where
  "hand_over r p hs = (case r of None \<Rightarrow> hs | Some tk \<Rightarrow> (tk, p) # hs)"

inductive shed_step :: "shed_cfg \<Rightarrow> shed_sys \<Rightarrow> shed_sys \<Rightarrow> bool" for cfg where
  grant: "\<not> in_use tk \<sigma> \<Longrightarrow> acquire cfg p tk (guard \<sigma>) = (Granted, g) \<Longrightarrow>
    shed_step cfg \<sigma> (\<sigma>\<lparr>guard := g, holders := (tk, p) # holders \<sigma>\<rparr>)"
| wait: "\<not> in_use tk \<sigma> \<Longrightarrow> acquire cfg p tk (guard \<sigma>) = (Queued, g) \<Longrightarrow>
    shed_step cfg \<sigma> (\<sigma>\<lparr>guard := g\<rparr>)"
| reject: "\<not> in_use tk \<sigma> \<Longrightarrow> acquire cfg p tk (guard \<sigma>) = (Rejected, g) \<Longrightarrow>
    shed_step cfg \<sigma> (\<sigma>\<lparr>guard := g\<rparr>)"
| abort: "abort_wait p tk (guard \<sigma>) = (b, g) \<Longrightarrow> shed_step cfg \<sigma> (\<sigma>\<lparr>guard := g\<rparr>)"
| finish: "(tk, p) \<in> set (holders \<sigma>) \<Longrightarrow> release cfg p (guard \<sigma>) = (r, g) \<Longrightarrow>
    shed_step cfg \<sigma> (\<sigma>\<lparr>guard := g, holders := hand_over r p (remove1 (tk, p) (holders \<sigma>))\<rparr>)"

inductive_cases shed_stepE: "shed_step cfg \<sigma> \<sigma>'"

inductive shed_reach :: "shed_cfg \<Rightarrow> shed_sys \<Rightarrow> bool" for cfg where
  start: "shed_reach cfg sys_new"
| step: "shed_reach cfg \<sigma> \<Longrightarrow> shed_step cfg \<sigma> \<sigma>' \<Longrightarrow> shed_reach cfg \<sigma>'"

section \<open>The invariant\<close>

definition shed_inv_at :: "shed_cfg \<Rightarrow> shed_sys \<Rightarrow> string \<Rightarrow> bool" where
  "shed_inv_at cfg \<sigma> p \<longleftrightarrow>
     flying (guard \<sigma>) p = int (held \<sigma> p)
     \<and> held \<sigma> p \<le> maxConcurrent cfg
     \<and> length (queue_of (guard \<sigma>) p) \<le> queueCap cfg
     \<and> (queue_of (guard \<sigma>) p \<noteq> [] \<longrightarrow> held \<sigma> p = maxConcurrent cfg)"

lemma held_Cons [simp]:
  "held (\<sigma>\<lparr>guard := g, holders := (tk, p) # hs\<rparr>) q =
     held (\<sigma>\<lparr>guard := g, holders := hs\<rparr>) q + (if q = p then 1 else 0)"
  by (simp add: held_def)

lemma held_guard [simp]: "held (\<sigma>\<lparr>guard := g\<rparr>) = held \<sigma>"
  by (simp add: held_def fun_eq_iff)

lemma held_same [simp]: "held (\<sigma>\<lparr>guard := g, holders := holders \<sigma>\<rparr>) = held \<sigma>"
  by (simp add: held_def fun_eq_iff)

lemma length_filter_remove1:
  "x \<in> set xs \<Longrightarrow> length (filter P (remove1 x xs)) = length (filter P xs) - (if P x then 1 else 0)"
  by (simp add: filter_remove1 length_remove1)

lemma held_remove1:
  assumes "(tk, p) \<in> set (holders \<sigma>)"
  shows "held (\<sigma>\<lparr>guard := g, holders := remove1 (tk, p) (holders \<sigma>)\<rparr>) q = held \<sigma> q - (if q = p then 1 else 0)"
  using length_filter_remove1 [OF assms, of "\<lambda>h. snd h = q"] by (simp add: held_def)

lemma held_pos: "(tk, p) \<in> set (holders \<sigma>) \<Longrightarrow> 1 \<le> held \<sigma> p"
  by (force simp: held_def Suc_le_eq filter_empty_conv)

lemma abort_inv:
  assumes "shed_inv_at cfg \<sigma> q" "abort_wait p tk (guard \<sigma>) = (b, g)"
  shows "shed_inv_at cfg (\<sigma>\<lparr>guard := g\<rparr>) q"
  using assms
  by (auto simp: shed_inv_at_def abort_wait_def Let_def length_remove1 queue_of_def
      split: if_splits)

lemma finish_inv:
  assumes inv: "\<And>q. shed_inv_at cfg \<sigma> q" and h: "(tk, p) \<in> set (holders \<sigma>)"
    and rel: "release cfg p (guard \<sigma>) = (r, g)"
  shows "shed_inv_at cfg (\<sigma>\<lparr>guard := g, holders := hand_over r p (remove1 (tk, p) (holders \<sigma>))\<rparr>) q"
proof -
  from inv [of p] held_pos [OF h]
  have "1 \<le> flying (guard \<sigma>) p" "flying (guard \<sigma>) p \<le> int (maxConcurrent cfg)"
    by (auto simp: shed_inv_at_def)
  from release_spec [OF this rel] inv [of q] inv [of p] held_pos [OF h] show ?thesis
    by (cases "queue_of (guard \<sigma>) p"; cases "q = p")
       (auto simp: shed_inv_at_def hand_over_def held_remove1 [OF h])
qed

lemma shed_step_inv:
  "shed_step cfg \<sigma> \<sigma>' \<Longrightarrow> (\<And>q. shed_inv_at cfg \<sigma> q) \<Longrightarrow> shed_inv_at cfg \<sigma>' q"
proof (induction rule: shed_step.induct)
  case (grant tk \<sigma> p g)
  show ?case
    using grant.prems [of q] grant.prems [of p] grant.hyps by (auto simp: shed_inv_at_def acquire_cases flying_def queue_of_def)
next
  case (wait tk \<sigma> p g)
  show ?case
    using wait.prems [of q] wait.prems [of p] wait.hyps by (auto simp: shed_inv_at_def acquire_cases flying_def queue_of_def)
next
  case (reject tk \<sigma> p g)
  then show ?case
    using reject.prems [of q] by (auto simp: shed_inv_at_def acquire_cases)
next
  case (abort p tk \<sigma> b g)
  then show ?case
    by (rule abort_inv [rotated])
next
  case (finish tk p \<sigma> r g)
  then show ?case
    by (intro finish_inv) auto
qed

lemma shed_reach_inv: "shed_reach cfg \<sigma> \<Longrightarrow> shed_inv_at cfg \<sigma> q"
proof (induction arbitrary: q rule: shed_reach.induct)
  case start
  show ?case
    by (simp add: shed_inv_at_def sys_new_def shed_new_def flying_def queue_of_def held_def)
next
  case (step \<sigma> \<sigma>')
  then show ?case
    by (blast intro: shed_step_inv)
qed

section \<open>Properties\<close>

text \<open>
  C19. However requests interleave, in every reachable state of the guard each provider has as
  many slots booked as there are requests holding one (so no slot leaks), never more than
  \<open>maxConcurrent\<close>; its wait queue never exceeds \<open>queueCap\<close>; and nobody waits while a slot is free.
\<close>

theorem shed_accounting:
  assumes "shed_reach cfg \<sigma>"
  shows "flying (guard \<sigma>) p = int (length (filter (\<lambda>h. snd h = p) (holders \<sigma>)))
    \<and> flying (guard \<sigma>) p \<le> int (maxConcurrent cfg)
    \<and> length (queue_of (guard \<sigma>) p) \<le> queueCap cfg
    \<and> (queue_of (guard \<sigma>) p \<noteq> [] \<longrightarrow> flying (guard \<sigma>) p = int (maxConcurrent cfg))"
  using shed_reach_inv [OF assms, of p] by (simp add: shed_inv_at_def held_def)

definition example_cfg :: shed_cfg where
  "example_cfg = \<lparr>maxConcurrent = 1, queueCap = 1\<rparr>"

definition example_sys :: shed_sys where
  "example_sys = \<lparr>guard = \<lparr>inFlight = [(''p'', 1)], queues = [(''p'', [7])]\<rparr>, holders = [(3, ''p'')]\<rparr>"

lemmas shed_eval = example_cfg_def example_sys_def sys_new_def shed_new_def acquire_def
  flying_def queue_of_def map_get_def in_use_def release_def hand_over_def Let_def

lemma example_reach: "shed_reach example_cfg example_sys"
proof -
  let ?one = "\<lparr>guard = \<lparr>inFlight = [(''p'', 1)], queues = []\<rparr>, holders = [(3, ''p'')]\<rparr> :: shed_sys"
  have "shed_step example_cfg sys_new ?one"
    using shed_step.grant [of 3 sys_new example_cfg "''p''" "\<lparr>inFlight = [(''p'', 1)], queues = []\<rparr>"]
    by (simp add: shed_eval)
  moreover have "shed_step example_cfg ?one example_sys"
    using shed_step.wait [of 7 ?one example_cfg "''p''" "\<lparr>inFlight = [(''p'', 1)], queues = [(''p'', [7])]\<rparr>"]
    by (simp add: shed_eval)
  ultimately show ?thesis
    by (blast intro: shed_reach.intros)
qed

theorem shed_accounting_witness:
  "flying (guard example_sys) ''p'' = int (length (filter (\<lambda>h. snd h = ''p'') (holders example_sys)))
    \<and> queue_of (guard example_sys) ''p'' = [7]
    \<and> length (queue_of (guard example_sys) ''p'') \<le> queueCap example_cfg
    \<and> flying (guard example_sys) ''p'' = int (maxConcurrent example_cfg)"
proof -
  have queue: "queue_of (guard example_sys) ''p'' = [7]"
    by (simp add: shed_eval)
  with shed_accounting [OF example_reach, of "''p''"] show ?thesis
    by simp
qed

text \<open>
  A freed slot goes to the waiter that has waited longest, at once and without the slot count
  moving; with an empty queue the slot becomes free. Other providers are not touched.
\<close>

theorem shed_release_fifo:
  assumes "shed_reach cfg \<sigma>" and "(tk, p) \<in> set (holders \<sigma>)"
  shows "(case queue_of (guard \<sigma>) p of
        [] \<Rightarrow> fst (release cfg p (guard \<sigma>)) = None
          \<and> flying (snd (release cfg p (guard \<sigma>))) p = flying (guard \<sigma>) p - 1
      | w # ws \<Rightarrow> fst (release cfg p (guard \<sigma>)) = Some w
          \<and> flying (snd (release cfg p (guard \<sigma>))) p = flying (guard \<sigma>) p
          \<and> queue_of (snd (release cfg p (guard \<sigma>))) p = ws)
    \<and> (\<forall>q. q \<noteq> p \<longrightarrow> flying (snd (release cfg p (guard \<sigma>))) q = flying (guard \<sigma>) q
         \<and> queue_of (snd (release cfg p (guard \<sigma>))) q = queue_of (guard \<sigma>) q)"
proof -
  from shed_reach_inv [OF assms(1), of p] held_pos [OF assms(2)]
  have "1 \<le> flying (guard \<sigma>) p" "flying (guard \<sigma>) p \<le> int (maxConcurrent cfg)"
    by (auto simp: shed_inv_at_def)
  from release_spec [OF this prod.collapse [symmetric]] show ?thesis
    by (auto split: list.splits)
qed

theorem shed_release_fifo_witness:
  "fst (release example_cfg ''p'' (guard example_sys)) = Some 7
    \<and> flying (snd (release example_cfg ''p'' (guard example_sys))) ''p'' = flying (guard example_sys) ''p''
    \<and> queue_of (snd (release example_cfg ''p'' (guard example_sys))) ''p'' = []
    \<and> flying (snd (release example_cfg ''p'' (guard example_sys))) ''q'' = flying (guard example_sys) ''q''"
proof -
  have queue: "queue_of (guard example_sys) ''p'' = [7]" and holder: "(3, ''p'') \<in> set (holders example_sys)"
    by (simp_all add: shed_eval)
  from shed_release_fifo [OF example_reach holder] queue show ?thesis
    by simp
qed

end
