(* ===== verification/Backoff.thy ===== *)
theory Backoff
  imports Prelude
begin

text \<open>
  Retry backoff of \<^verbatim>\<open>src/src/resilience/backoff.ts\<close>. The random source is an argument, the
  number \<open>rand\<close> drawn from it; \<open>Math.random\<close> promises a value in [0, 1). The abortable sleep is
  the relation between the time it is given and the time of the abort.
\<close>

definition MAX_RETRIES :: nat where
  "MAX_RETRIES = 2"

definition retryDelayMs :: "nat \<Rightarrow> rat option \<Rightarrow> rat \<Rightarrow> rat" where
  "retryDelayMs attempt retryAfterSeconds rand =
     (case retryAfterSeconds of
        Some s \<Rightarrow> min (s * 1000) 30000
      | None \<Rightarrow> min (250 * 2 ^ attempt + rand * 250) 4000)"

text \<open>
  \<open>sleep ms signal\<close>, started at \<open>now\<close> with the signal aborting at \<open>abortAt\<close> (if ever): rejects at
  once on an aborted signal, rejects at the abort when it comes before the timer, else resolves
  when the timer fires. The result is the time at which the promise settles.
\<close>

definition sleep :: "rat \<Rightarrow> rat \<Rightarrow> rat option \<Rightarrow> (rat, rat) result" where
  "sleep now ms abortAt =
     (case abortAt of
        None \<Rightarrow> Inr (now + ms)
      | Some a \<Rightarrow> if a \<le> now then Inl now else if a < now + ms then Inl a else Inr (now + ms))"

lemma sleep_settles:
  assumes "0 \<le> ms"
  shows "case sleep now ms abortAt of Inl t \<Rightarrow> now \<le> t \<and> t \<le> now + ms | Inr t \<Rightarrow> t = now + ms"
  using assms by (auto simp: sleep_def split: option.splits)

text \<open>
  Delays stay in their bands: with no Retry-After the wait lies between the exponential base
  and base plus 250 ms of jitter, never above 4 s, and no attempt waits longer than the next
  one, whatever the jitter of either; a Retry-After is honoured exactly up to the 30 s cap.
\<close>

theorem retryDelay_bands:
  assumes "0 \<le> rand" "rand < 1" "0 \<le> rand'" "rand' < 1"
  shows "min (250 * 2 ^ attempt) 4000 \<le> retryDelayMs attempt None rand
    \<and> retryDelayMs attempt None rand \<le> 4000
    \<and> retryDelayMs attempt None rand \<le> 250 * 2 ^ attempt + 250
    \<and> retryDelayMs attempt None rand \<le> retryDelayMs (Suc attempt) None rand'
    \<and> retryDelayMs attempt (Some s) rand = min (s * 1000) 30000"
proof -
  have "(1 :: rat) \<le> 2 ^ attempt"
    by simp
  then have "250 * 2 ^ attempt + rand * 250 \<le> 250 * 2 ^ Suc attempt + rand' * 250"
    unfolding power_Suc using assms by linarith
  then have "retryDelayMs attempt None rand \<le> retryDelayMs (Suc attempt) None rand'"
    unfolding retryDelayMs_def by (simp add: min.coboundedI1)
  with assms show ?thesis
    by (simp add: retryDelayMs_def min_def)
qed

theorem retryDelay_bands_witness:
  "min (250 * 2 ^ 1) 4000 \<le> retryDelayMs 1 None (1 / 2)
    \<and> retryDelayMs 1 None (1 / 2) \<le> 4000
    \<and> retryDelayMs 1 None (1 / 2) \<le> 250 * 2 ^ 1 + 250
    \<and> retryDelayMs 1 None (1 / 2) \<le> retryDelayMs (Suc 1) None (1 / 4)
    \<and> retryDelayMs 1 (Some 60) (1 / 2) = min (60 * 1000) 30000"
  by (rule retryDelay_bands) simp_all

end
