(* ===== verification/Gateway.thy ===== *)
theory Gateway
  imports Policy_Engine Verify Scrub Ssrf Ledger Cache Breaker Limiter Shed Backoff
begin

text \<open>
  The request context, the dependencies and the shared state of \<^verbatim>\<open>src/src/gateway/pipeline.ts\<close>, and
  \<open>routeForModel\<close>, the request-time gate every hop passes.

  The code is asynchronous: between two steps of one request other requests run. What a step
  observes of the outside (the clock, the abort signal, the answer of a provider, the vault,
  whether a queued wait is granted, what other requests did to the breaker and the shed guard)
  is a function of a tick that grows with every observation, collected in \<open>deps\<close>. Theorems hold
  for every such environment. What a request does is a trace of events: adapter calls, audit
  entries, breaker and health records, slots taken and given back.
\<close>

section \<open>Context\<close>

record auth_context =
  au_firmId :: string
  au_app :: string
  au_scopes :: "string list"
  au_tokenId :: string

record execute_ctx =
  ec_providerId :: string
  ec_model :: string
  ec_baseUrl :: string
  ec_apiKey :: "string option"
  ec_modelMapping :: "(string \<times> string) list option"
  ec_promptCaching :: bool
  ec_thinkingBudget :: "int option"

record route_decision =
  rt_provider :: provider_row
  rt_model :: model_row
  rt_executeCtx :: execute_ctx

text \<open>How a relayed stream ends for its consumer.\<close>

datatype stream_outcome = Completed | Stopped | Failed router_error

record pipeline_ctx =
  cx_requestId :: string
  cx_requestHash :: string
  cx_startedAt :: int
  cx_auth :: "auth_context option"
  cx_taskClass :: "task_class_row option"
  cx_effective :: "effective_policy option"
  cx_envelope :: ai_request
  cx_route :: "route_decision option"
  cx_response :: "ai_response option"
  cx_error :: "router_error option"
  cx_scrubbed :: "(scrubber_mode \<times> (match_type, nat) jsmap) option"
  cx_cloudEnvelope :: "ai_request option"
  cx_cloudBlockedCounts :: "(match_type, nat) jsmap option"
  cx_cloudBlockAudited :: bool
  cx_budgetWarnings :: "budget_check list"
  cx_cacheHit :: bool
  cx_routeError :: "router_error option"
  cx_stream :: "(stream_chunk list \<times> stream_outcome) option"

section \<open>Events and shared state\<close>

record audit_entry =
  ae_firmId :: string
  ae_event :: string
  ae_app :: "string option"
  ae_taskClass :: "string option"
  ae_model :: "string option"
  ae_provider :: "string option"
  ae_requestHash :: "string option"
  ae_detail :: "(string \<times> json) list"

datatype xevent =
    AdapterCall route_decision ai_request
  | StreamCall route_decision ai_request
  | Audited audit_entry
  | BreakerRecord string bool
  | HealthRecord string string string bool
  | SlotTaken string
  | SlotReleased string

record world =
  wd_db :: db
  wd_engine :: engine
  wd_windows :: windows
  wd_shed :: shed
  wd_tokenBuckets :: buckets
  wd_userBuckets :: buckets
  wd_cache :: resp_cache
  wd_pricing :: "(string, pricing_row option \<times> int) jsmap"
  wd_tick :: nat
  wd_trace :: "xevent list"

section \<open>Dependencies\<close>

record resilience_cfg =
  rc_breaker :: breaker_options
  rc_shed :: shed_cfg
  rc_verifyResponses :: "bool option"
  rc_schemaValidationDefault :: validation_mode

text \<open>How a provider's stream ends: normally or by throwing.\<close>

datatype stream_end = StreamDone | StreamThrows thrown

record deps =
  dp_now :: "nat \<Rightarrow> int"
  dp_sha256 :: "string \<Rightarrow> string"
  dp_url_of :: "string \<Rightarrow> (string \<times> string) option"
  dp_isIP :: "string \<Rightarrow> bool"
  dp_engineTtlMs :: int
  dp_hasAdapter :: "provider_kind \<Rightarrow> bool"
  dp_getApiKey :: "(nat \<Rightarrow> string \<Rightarrow> string option) option"
  dp_resilience :: "resilience_cfg option"
  dp_rateLimits :: "(limiter \<times> limiter) option"
  dp_cacheMax :: "nat option"
  dp_ssrfDenyPrivateCloud :: "bool option"
  dp_execute :: "nat \<Rightarrow> ai_request \<Rightarrow> execute_ctx \<Rightarrow> (thrown, ai_response) result"
  dp_executeStream :: "nat \<Rightarrow> ai_request \<Rightarrow> execute_ctx \<Rightarrow> stream_chunk list \<times> stream_end"
  dp_aborted :: "nat \<Rightarrow> bool"
  dp_timedOut :: "nat \<Rightarrow> bool"
  dp_idleFired :: "nat \<Rightarrow> bool"
  dp_consumerTakes :: "nat option"
  dp_sleepAborted :: "nat \<Rightarrow> bool"
  dp_waitGranted :: "nat \<Rightarrow> bool"
  dp_others :: "nat \<Rightarrow> windows \<times> shed \<Rightarrow> windows \<times> shed"
  dp_ledgerFails :: "nat \<Rightarrow> bool"

definition advance :: "world \<Rightarrow> world" where
  "advance w = w\<lparr>wd_tick := Suc (wd_tick w)\<rparr>"

definition emit :: "xevent \<Rightarrow> world \<Rightarrow> world" where
  "emit ev w = w\<lparr>wd_trace := wd_trace w @ [ev]\<rparr>"

definition now_of :: "deps \<Rightarrow> world \<Rightarrow> int" where
  "now_of dp w = dp_now dp (wd_tick w)"

text \<open>An await: other requests get to run.\<close>

definition yield_others :: "deps \<Rightarrow> world \<Rightarrow> world" where
  "yield_others dp w =
     (let (ws, sh) = dp_others dp (wd_tick w) (wd_windows w, wd_shed w)
      in advance (w\<lparr>wd_windows := ws, wd_shed := sh\<rparr>))"

text \<open>\<open>deps.audit?.(...)\<close>, with the fields every pipeline audit sets.\<close>

definition audit_for ::
    "pipeline_ctx \<Rightarrow> auth_context \<Rightarrow> string \<Rightarrow> string option \<Rightarrow> (string \<times> json) list \<Rightarrow> audit_entry" where
  "audit_for cx au ev tc det =
     \<lparr>ae_firmId = au_firmId au, ae_event = ev, ae_app = Some (au_app au), ae_taskClass = tc,
      ae_model = None, ae_provider = None, ae_requestHash = Some (cx_requestHash cx), ae_detail = det\<rparr>"

definition counts_json :: "(match_type, nat) jsmap \<Rightarrow> json" where
  "counts_json cs = JObj (map (\<lambda>(t, n). (match_type_name t, JNum (of_nat n))) cs)"

section \<open>Routing one candidate\<close>

abbreviation ordering_violation :: router_error where
  "ordering_violation \<equiv> router_error0 unknown ''pipeline ordering violation''"

definition execute_ctx_of ::
    "provider_row \<Rightarrow> model_row \<Rightarrow> string option \<Rightarrow> task_class_requires \<Rightarrow> execute_ctx" where
  "execute_ctx_of p m key req =
     \<lparr>ec_providerId = prv_id p, ec_model = canonicalId m, ec_baseUrl = prv_baseUrl p,
      ec_apiKey = given key, ec_modelMapping = prv_modelMapping p,
      ec_promptCaching = nullish (req_caching req) False,
      ec_thinkingBudget = (case req_thinking_budget req of
         None \<Rightarrow> None | Some n \<Rightarrow> if n = 0 then None else Some n)\<rparr>"

text \<open>The part after the scrub verdict: provider row, bans, SSRF, adapter, credential.\<close>

definition provider_gate ::
    "deps \<Rightarrow> model_row \<Rightarrow> effective_policy \<Rightarrow> provider_row option \<Rightarrow> nat \<Rightarrow> (router_error, route_decision) result" where
  "provider_gate dp m eff prov tick =
     (case prov of
        None \<Rightarrow> Inl (router_error0 provider_unavailable (''no '' @ kind_name (providerKind m) @ '' provider configured''))
      | Some p \<Rightarrow>
          if kind_name (prv_kind p) \<in> set (nullish (banned_provider_kinds (ep_firmSettings eff)) [])
          then Inl (router_error0 policy_blocked (''provider kind '' @ kind_name (prv_kind p) @ '' is banned by firm policy''))
          else
            (case (if dp_ssrfDenyPrivateCloud dp \<noteq> Some False
                   then checkBaseUrl (dp_url_of dp) (dp_isIP dp) (prv_kind p) (prv_baseUrl p) else None) of
               Some reason \<Rightarrow> Inl (router_error0 policy_blocked (''provider base_url rejected: '' @ reason))
             | None \<Rightarrow>
                 if \<not> dp_hasAdapter dp (prv_kind p)
                 then Inl (router_error0 provider_unavailable (''no adapter for kind '' @ kind_name (prv_kind p)))
                 else
                   (let key = (if prv_authType p = AuthApiKey
                               then (case dp_getApiKey dp of None \<Rightarrow> None | Some f \<Rightarrow> given (f tick (prv_id p)))
                               else None)
                    in if prv_authType p = AuthApiKey \<and> key = None
                       then Inl (router_error0 provider_unavailable
                              (''no active credential for provider '' @ prv_label p))
                       else Inr \<lparr>rt_provider = p, rt_model = m,
                                 rt_executeCtx = execute_ctx_of p m key (classRequires (ep_taskClass eff))\<rparr>)))"

definition barred_error :: "(match_type, nat) jsmap \<Rightarrow> router_error" where
  "barred_error cs =
     RouterError scrubber_blocked (''request contains protected data '' @ em_dash @ '' cloud fallback barred'')
       (Some [(''matches'', counts_json cs)]) None"

definition audit_barred :: "pipeline_ctx \<Rightarrow> auth_context \<Rightarrow> effective_policy \<Rightarrow> (match_type, nat) jsmap \<Rightarrow> world \<Rightarrow> pipeline_ctx \<times> world" where
  "audit_barred cx au eff cs w =
     (if cx_cloudBlockAudited cx then (cx, w)
      else (cx\<lparr>cx_cloudBlockAudited := True\<rparr>,
            emit (Audited (audit_for cx au ''blocked_scrubber'' (Some (tcl_key (ep_taskClass eff)))
                    [(''mode'', JStr ''block''), (''matches'', counts_json cs)])) w))"

definition routeForModel ::
    "deps \<Rightarrow> model_row \<Rightarrow> pipeline_ctx \<Rightarrow> world \<Rightarrow> (thrown, route_decision) result \<times> pipeline_ctx \<times> world" where
  "routeForModel dp m cx w =
     (case (cx_auth cx, cx_effective cx) of
        (Some au, Some eff) \<Rightarrow>
          (case modelViolation m eff (cx_envelope cx) None of
             Inl t \<Rightarrow> (Inl t, cx, w)
           | Inr (Some v) \<Rightarrow> (Inl (Routed (router_error0 (v_code v) (v_reason v))), cx, w)
           | Inr None \<Rightarrow>
               (case (if isLocalKind (providerKind m) then None else cx_cloudBlockedCounts cx) of
                  Some cs \<Rightarrow>
                    (let (cx', w') = audit_barred cx au eff cs w in (Inl (Routed (barred_error cs)), cx', w'))
                | None \<Rightarrow>
                    (let (prov, e) = providerFor (dp_engineTtlMs dp) (wd_db w) (now_of dp w) (au_firmId au)
                                       (providerKind m) (wd_engine w);
                         w' = advance (w\<lparr>wd_engine := e\<rparr>)
                     in case provider_gate dp m eff prov (wd_tick w') of
                          Inl err \<Rightarrow> (Inl (Routed err), cx, w')
                        | Inr r \<Rightarrow> (Inr r, cx, w'))))
      | _ \<Rightarrow> (Inl (Routed ordering_violation), cx, w))"

section \<open>What a route satisfies\<close>

lemma provider_gate_ok:
  assumes "provider_gate dp m eff prov tick = Inr r"
  shows "rt_model r = m \<and> prov = Some (rt_provider r)
    \<and> kind_name (prv_kind (rt_provider r)) \<notin> set (nullish (banned_provider_kinds (ep_firmSettings eff)) [])
    \<and> (dp_ssrfDenyPrivateCloud dp \<noteq> Some False \<longrightarrow>
         checkBaseUrl (dp_url_of dp) (dp_isIP dp) (prv_kind (rt_provider r)) (prv_baseUrl (rt_provider r)) = None)
    \<and> dp_hasAdapter dp (prv_kind (rt_provider r))
    \<and> (prv_authType (rt_provider r) = AuthApiKey \<longrightarrow> ec_apiKey (rt_executeCtx r) \<noteq> None)
    \<and> ec_model (rt_executeCtx r) = canonicalId m \<and> ec_providerId (rt_executeCtx r) = prv_id (rt_provider r)
    \<and> ec_baseUrl (rt_executeCtx r) = prv_baseUrl (rt_provider r)"
  using assms
  by (auto simp: provider_gate_def Let_def execute_ctx_of_def given_def split: option.splits if_splits)

text \<open>The gate of a hop, as a predicate on the route it yields.\<close>

definition hop_ok :: "deps \<Rightarrow> effective_policy \<Rightarrow> ai_request \<Rightarrow> (match_type, nat) jsmap option \<Rightarrow> route_decision \<Rightarrow> bool" where
  "hop_ok dp eff env blocked r \<longleftrightarrow>
     model_ok (rt_model r) eff (requiredCapabilities eff env)
     \<and> (isLocalKind (providerKind (rt_model r)) \<or> blocked = None)
     \<and> kind_name (prv_kind (rt_provider r)) \<notin> set (nullish (banned_provider_kinds (ep_firmSettings eff)) [])
     \<and> (dp_ssrfDenyPrivateCloud dp \<noteq> Some False \<longrightarrow>
          checkBaseUrl (dp_url_of dp) (dp_isIP dp) (prv_kind (rt_provider r)) (prv_baseUrl (rt_provider r)) = None)
     \<and> (prv_authType (rt_provider r) = AuthApiKey \<longrightarrow> ec_apiKey (rt_executeCtx r) \<noteq> None)"

lemma routeForModel_ok:
  assumes "routeForModel dp m cx w = (Inr r, cx', w')"
  shows "\<exists>eff. cx_effective cx = Some eff \<and> hop_ok dp eff (cx_envelope cx) (cx_cloudBlockedCounts cx) r
    \<and> rt_model r = m \<and> cx' = cx"
proof -
  from assms obtain au eff where ctx: "cx_auth cx = Some au" "cx_effective cx = Some eff"
    by (auto simp: routeForModel_def split: option.splits)
  with assms have ok: "modelViolation m eff (cx_envelope cx) None = Inr None"
    by (auto simp: routeForModel_def split: sum.splits option.splits prod.splits)
  from assms ctx ok have local: "isLocalKind (providerKind m) \<or> cx_cloudBlockedCounts cx = None"
    by (auto simp: routeForModel_def split: option.splits prod.splits if_splits)
  then have "(if isLocalKind (providerKind m) then None else cx_cloudBlockedCounts cx) = None"
    by auto
  with assms ctx ok obtain prov tick where "provider_gate dp m eff prov tick = Inr r" "cx' = cx"
    by (auto simp: routeForModel_def Let_def split: prod.splits sum.splits)
  with provider_gate_ok [OF this(1)] ctx ok local show ?thesis
    by (auto simp: hop_ok_def modelViolation_needs modelViolation_None_iff)
qed

text \<open>A failing route leaves the context alone but for the audit flag, and makes no adapter call.\<close>

lemma routeForModel_frame:
  assumes "routeForModel dp m cx w = (r, cx', w')"
  shows "cx' = cx\<lparr>cx_cloudBlockAudited := cx_cloudBlockAudited cx'\<rparr>
    \<and> wd_windows w' = wd_windows w \<and> wd_shed w' = wd_shed w
    \<and> (\<exists>evs. wd_trace w' = wd_trace w @ evs \<and> (\<forall>ev\<in>set evs. \<exists>a. ev = Audited a))"
  using assms
  by (cases cx)
     (auto simp: routeForModel_def audit_barred_def emit_def advance_def Let_def
       split: option.splits sum.splits prod.splits if_splits)

section \<open>A concrete environment\<close>

text \<open>A firm with one local provider, the policy of \<open>ex_eff\<close> in its database, and a provider that
  always answers. The digest is the identity here.\<close>

definition ex_provider :: provider_row where
  "ex_provider = \<lparr>prv_id = ''pr1'', prv_firmId = ''f1'', prv_kind = local, prv_label = ''gpu'',
     prv_baseUrl = ''http://gpu'', prv_authType = AuthNone, prv_modelMapping = None, prv_deletedAt = None\<rparr>"

definition ex_token :: app_token_row where
  "ex_token = \<lparr>tok_id = ''tk1'', tok_firmId = ''f1'', tok_app = ''vibe'', tokenHash = ''secret'',
     tok_scopes = [''chat''], lastUsedAt = None, revokedAt = None\<rparr>"

definition ex_db :: db where
  "ex_db = \<lparr>firms = [], providers = [ex_provider], models = [ex_default, ex_cloud_vision, ex_local_vision],
     pricings = [], taskClasses = [ex_task_class], policies = [ex_policy], rolePolicies = [],
     appTokens = [ex_token], usageLedger = [], budgetsState = []\<rparr>"

definition ex_world :: world where
  "ex_world = \<lparr>wd_db = ex_db, wd_engine = engine_new, wd_windows = [], wd_shed = shed_new, wd_tokenBuckets = [],
     wd_userBuckets = [], wd_cache = [], wd_pricing = [], wd_tick = 0, wd_trace = []\<rparr>"

definition ex_answer :: ai_response where
  "ex_answer = \<lparr>r_content = ''ok'', r_toolCalls = None, finishReason = FStop, usage = EMPTY_USAGE,
     served_model = ''ollama/v'', served_providerId = ''pr1'', served_latencyMs = 5, thinking = None\<rparr>"

definition ex_cfg :: resilience_cfg where
  "ex_cfg = \<lparr>rc_breaker = example_options, rc_shed = example_cfg, rc_verifyResponses = None,
     rc_schemaValidationDefault = Structural\<rparr>"

definition ex_dp :: deps where
  "ex_dp = \<lparr>dp_now = (\<lambda>t. 0), dp_sha256 = (\<lambda>s. s), dp_url_of = (\<lambda>u. Some (''http:'', ''gpu'')),
     dp_isIP = (\<lambda>h. False), dp_engineTtlMs = 30000, dp_hasAdapter = (\<lambda>k. True), dp_getApiKey = None,
     dp_resilience = Some ex_cfg, dp_rateLimits = None, dp_cacheMax = None, dp_ssrfDenyPrivateCloud = None,
     dp_execute = (\<lambda>t e c. Inr ex_answer),
     dp_executeStream = (\<lambda>t e c. ([TextDelta ''ok'', Finish FStop (Some EMPTY_USAGE)], StreamDone)),
     dp_aborted = (\<lambda>t. False), dp_timedOut = (\<lambda>t. False), dp_idleFired = (\<lambda>t. False), dp_consumerTakes = None,
     dp_sleepAborted = (\<lambda>t. False), dp_waitGranted = (\<lambda>t. True), dp_others = (\<lambda>t s. s),
     dp_ledgerFails = (\<lambda>t. False)\<rparr>"

definition new_ctx :: "string \<Rightarrow> string \<Rightarrow> int \<Rightarrow> ai_request \<Rightarrow> pipeline_ctx" where
  "new_ctx rid hash now env =
     \<lparr>cx_requestId = rid, cx_requestHash = hash, cx_startedAt = now, cx_auth = None, cx_taskClass = None,
      cx_effective = None, cx_envelope = env, cx_route = None, cx_response = None, cx_error = None,
      cx_scrubbed = None, cx_cloudEnvelope = None, cx_cloudBlockedCounts = None, cx_cloudBlockAudited = False,
      cx_budgetWarnings = [], cx_cacheHit = False, cx_routeError = None, cx_stream = None\<rparr>"

definition ex_cx :: pipeline_ctx where
  "ex_cx = (new_ctx ''req1'' ''h'' 0 ex_env)\<lparr>
     cx_auth := Some \<lparr>au_firmId = ''f1'', au_app = ''vibe'', au_scopes = [''chat''], au_tokenId = ''tk1''\<rparr>,
     cx_effective := Some ex_eff\<rparr>"

lemmas ex_world_defs = ex_provider_def ex_token_def ex_db_def ex_world_def ex_answer_def ex_cfg_def ex_dp_def
  new_ctx_def ex_cx_def

end
