(* ===== verification/Anthropic.thy ===== *)
theory Anthropic
  imports Openai_Compat Json_Roundtrip Gateway
begin

text \<open>
  The adapter for the Anthropic Messages API: the translations of
  \<^verbatim>\<open>src/src/adapters/anthropic/translate.ts\<close> and the calls of \<^verbatim>\<open>src/src/adapters/anthropic/index.ts\<close>. The network
  and the words of the schema library are arguments, as in the OpenAI-compatible adapter; numbers on the
  wire are read as integers, and the error type and message in a provider's error body are strings, as the cast in
  the source declares. The lemmas show that a streamed answer, folded up, is the answer of the plain call.
\<close>

section \<open>Requests\<close>

definition ANTHROPIC_VERSION :: string where
  "ANTHROPIC_VERSION = ''2023-06-01''"

text \<open>\<open>/claude-(opus-4-[7-9]|opus-5|sonnet-5|fable-5|mythos)/i\<close>\<close>

definition adaptive_only :: "string \<Rightarrow> bool" where
  "adaptive_only model =
     list_ex (\<lambda>p. includes_str p (to_lower model))
       [''claude-opus-4-7'', ''claude-opus-4-8'', ''claude-opus-4-9'', ''claude-opus-5'', ''claude-sonnet-5'',
        ''claude-fable-5'', ''claude-mythos'']"

definition schemaToolName :: "string \<Rightarrow> string" where
  "schemaToolName name = ''emit_'' @ name"

text \<open>\<open>/^data:([^;]+);base64,(.*)$/s\<close>: the media type and the data.\<close>

definition data_url :: "string \<Rightarrow> (string \<times> string) option" where
  "data_url u =
     (let body = drop 5 u;
          media = takeWhile (\<lambda>c. c \<noteq> CHR '';'') body;
          rest = dropWhile (\<lambda>c. c \<noteq> CHR '';'') body
      in if starts_with ''data:'' u \<and> media \<noteq> [] \<and> starts_with '';base64,'' rest
         then Some (media, drop 8 rest) else None)"

definition parseImageUrl :: "string \<Rightarrow> json" where
  "parseImageUrl url =
     (case data_url url of
        Some (media, dat) \<Rightarrow>
          JObj [(''type'', JStr ''image''),
                (''source'', JObj [(''type'', JStr ''base64''), (''media_type'', JStr media), (''data'', JStr dat)])]
      | None \<Rightarrow>
          JObj [(''type'', JStr ''image''), (''source'', JObj [(''type'', JStr ''url''), (''url'', JStr url)])])"

definition parseArguments :: "string \<Rightarrow> json" where
  "parseArguments args = nullish (json_parse args) (JObj [(''__raw'', JStr args)])"

definition text_block :: "string \<Rightarrow> json" where
  "text_block t = JObj [(''type'', JStr ''text''), (''text'', JStr t)]"

fun part_block :: "content_part \<Rightarrow> json" where
  "part_block (TextPart t) = text_block t"
| "part_block (ImagePart u) = parseImageUrl u"

fun part_text :: "content_part \<Rightarrow> string" where
  "part_text (TextPart t) = t"
| "part_text (ImagePart u) = []"

fun system_text :: "msg_content \<Rightarrow> string" where
  "system_text (CText s) = s"
| "system_text (CParts ps) = concat (map part_text ps)"

fun tool_content :: "msg_content \<Rightarrow> json" where
  "tool_content (CText s) = JStr s"
| "tool_content (CParts ps) = JArr (map part_block ps)"

fun content_blocks :: "msg_content \<Rightarrow> json list" where
  "content_blocks (CText s) = (if s \<noteq> [] then [text_block s] else [])"
| "content_blocks (CParts ps) = map part_block ps"

definition tool_use_block :: "tool_call \<Rightarrow> json" where
  "tool_use_block tc =
     JObj [(''type'', JStr ''tool_use''), (''id'', JStr (tc_id tc)), (''name'', JStr (tc_name tc)),
           (''input'', parseArguments (tc_arguments tc))]"

text \<open>A message of the conversation as its role and its blocks; system messages are taken out.\<close>

definition anthropic_message :: "ai_message \<Rightarrow> string \<times> json list" where
  "anthropic_message m =
     (if m_role m = RTool
      then (''user'', [JObj [(''type'', JStr ''tool_result''), (''tool_use_id'', JStr (nullish (m_toolCallId m) [])),
                             (''content'', tool_content (m_content m))]])
      else
        (let blocks = content_blocks (m_content m) @ map tool_use_block (nullish (m_toolCalls m) [])
         in (role_name (m_role m), if blocks \<noteq> [] then blocks else [text_block []])))"

text \<open>\<open>v ?? d\<close> on a JSON value.\<close>

definition json_or :: "json option \<Rightarrow> json \<Rightarrow> json" where
  "json_or v d = (case v of Some JNull \<Rightarrow> d | Some j \<Rightarrow> j | None \<Rightarrow> d)"

definition anthropic_tool :: "tool_def \<Rightarrow> (string \<times> json) list" where
  "anthropic_tool t =
     [(''name'', JStr (td_name t))] @ opt_wire ''description'' (map_option JStr (td_description t))
     @ [(''input_schema'', json_or (td_parameters t) (JObj [(''type'', JStr ''object'')]))]"

fun anthropic_choice :: "tool_choice \<Rightarrow> json" where
  "anthropic_choice ChooseAuto = JObj [(''type'', JStr ''auto'')]"
| "anthropic_choice ChooseRequired = JObj [(''type'', JStr ''any'')]"
| "anthropic_choice ChooseNone = JObj [(''type'', JStr ''none'')]"
| "anthropic_choice (ChooseName n) = JObj [(''type'', JStr ''tool''), (''name'', JStr n)]"

text \<open>The instruction appended for \<open>json_object\<close>; the dash is one character outside ASCII, here in UTF-8.\<close>

definition json_only_instruction :: string where
  "json_only_instruction =
     ''Respond with valid JSON only '' @ map char_of [226, 128, 148 :: nat] @ '' no prose, no code fences.''"

definition schema_tool :: "string \<Rightarrow> json option \<Rightarrow> (string \<times> json) list" where
  "schema_tool name sch =
     [(''name'', JStr (schemaToolName name)),
      (''description'', JStr ''Emit the final answer as structured output matching the schema exactly.''),
      (''input_schema'', json_or sch (JObj [(''type'', JStr ''object'')]))]"

text \<open>A cache breakpoint on the last of some objects.\<close>

definition cache_member :: "string \<times> json" where
  "cache_member = (''cache_control'', JObj [(''type'', JStr ''ephemeral'')])"

fun mark_object :: "json \<Rightarrow> json" where
  "mark_object (JObj ms) = JObj (ms @ [cache_member])"
| "mark_object v = v"

definition mark_last :: "json list \<Rightarrow> json list" where
  "mark_last xs = (if xs = [] then [] else butlast xs @ [mark_object (last xs)])"

definition mark_leading :: "(string \<times> json list) list \<Rightarrow> (string \<times> json list) list" where
  "mark_leading ms =
     (if length ms \<ge> 2
      then ms[length ms - 2 := (fst (ms ! (length ms - 2)), mark_last (snd (ms ! (length ms - 2))))]
      else ms)"

definition message_object :: "string \<times> json list \<Rightarrow> json" where
  "message_object m = JObj [(''role'', JStr (fst m)), (''content'', JArr (snd m))]"

definition schemaTool_of :: "ai_request \<Rightarrow> string option" where
  "schemaTool_of env =
     (case responseFormat env of Some (RFJsonSchema n sc st va) \<Rightarrow> Some (schemaToolName n) | _ \<Rightarrow> None)"

definition request_tools :: "ai_request \<Rightarrow> json list option" where
  "request_tools env =
     (let own = map_option (map (\<lambda>t. JObj (anthropic_tool t))) (tools env)
      in case responseFormat env of
           Some (RFJsonSchema n sc st va) \<Rightarrow> Some (nullish own [] @ [JObj (schema_tool n sc)])
         | _ \<Rightarrow> own)"

definition request_choice :: "ai_request \<Rightarrow> json option" where
  "request_choice env =
     (case schemaTool_of env of
        Some n \<Rightarrow> Some (JObj [(''type'', JStr ''tool''), (''name'', JStr n)])
      | None \<Rightarrow> map_option anthropic_choice (toolChoice env))"

definition system_blocks :: "ai_request \<Rightarrow> json list" where
  "system_blocks env =
     map (\<lambda>m. text_block (system_text (m_content m))) (filter (\<lambda>m. m_role m = RSystem) (messages env))
     @ (if responseFormat env = Some RFJsonObject then [text_block json_only_instruction] else [])"

definition buildAnthropicRequest :: "ai_request \<Rightarrow> execute_ctx \<Rightarrow> json \<times> string option" where
  "buildAnthropicRequest env ctx =
     (let model = providerModelName (ec_model ctx) (ec_modelMapping ctx);
          msgs0 = map anthropic_message (filter (\<lambda>m. m_role m \<noteq> RSystem) (messages env));
          caching = ec_promptCaching ctx;
          system = (if caching then mark_last (system_blocks env) else system_blocks env);
          tls = (if caching then map_option mark_last (request_tools env) else request_tools env);
          msgs = (if caching then mark_leading msgs0 else msgs0);
          adaptive = adaptive_only model
      in (JObj ([(''model'', JStr model), (''max_tokens'', JNum (of_int (nullish (maxTokens env) 4096))),
                 (''messages'', JArr (map message_object msgs))]
                @ opt_wire ''system'' (map_option JArr (non_empty (Some system)))
                @ opt_wire ''tools'' (map_option JArr (non_empty tls))
                @ opt_wire ''tool_choice'' (request_choice env)
                @ (if adaptive then []
                   else (case temperature env of
                           Some x \<Rightarrow> [(''temperature'', JNum (min x 1))]
                         | None \<Rightarrow> opt_wire ''top_p'' (map_option JNum (topP env))))
                @ opt_wire ''stop_sequences'' (map_option (\<lambda>ss. JArr (map JStr ss)) (non_empty (stop env)))
                @ (if stream env then [(''stream'', JBool True)] else [])
                @ (case ec_thinkingBudget ctx of
                     None \<Rightarrow> []
                   | Some n \<Rightarrow>
                       if n > 0
                       then [(''thinking'',
                              if adaptive then JObj [(''type'', JStr ''adaptive'')]
                              else JObj [(''type'', JStr ''enabled''), (''budget_tokens'', JNum (of_int n))])]
                       else [])),
          schemaTool_of env))"

definition buildAnthropicHeaders :: "execute_ctx \<Rightarrow> (string \<times> string) list" where
  "buildAnthropicHeaders ctx =
     (case ec_apiKey ctx of Some (c # cs) \<Rightarrow> [(''x-api-key'', c # cs)] | _ \<Rightarrow> [])
     @ [(''anthropic-version'', ANTHROPIC_VERSION)]"

section \<open>Responses\<close>

definition STOP_REASONS :: "(string \<times> finish_reason) list" where
  "STOP_REASONS =
     [(''end_turn'', FStop), (''stop_sequence'', FStop), (''max_tokens'', FLength), (''tool_use'', FToolCalls),
      (''refusal'', FContentFilter), (''pause_turn'', FStop)]"

definition normalizeStopReason :: "string option \<Rightarrow> finish_reason" where
  "normalizeStopReason raw =
     (case raw of Some (c # cs) \<Rightarrow> nullish (map_of STOP_REASONS (c # cs)) FStop | _ \<Rightarrow> FStop)"

record anthropic_usage =
  input_tokens :: int
  output_tokens :: int
  cache_creation_input_tokens :: "int option"
  cache_read_input_tokens :: "int option"

definition anthropicUsageSchema :: "anthropic_usage reader" where
  "anthropicUsageSchema = z_object (\<lambda>v.
     (case (z_optional ''input_tokens'' z_count v, z_optional ''output_tokens'' z_count v,
            z_nullish ''cache_creation_input_tokens'' z_count v, z_nullish ''cache_read_input_tokens'' z_count v) of
        (Some i, Some out, Some c, Some r) \<Rightarrow>
          Some \<lparr>input_tokens = nullish i 0, output_tokens = nullish out 0, cache_creation_input_tokens = c,
                cache_read_input_tokens = r\<rparr>
      | _ \<Rightarrow> None))"

datatype response_block =
    TextBlock string
  | ToolUseBlock string string "json option"
  | ThinkingBlock string
  | RedactedThinking

definition blockSchema :: "response_block reader" where
  "blockSchema = z_object (\<lambda>v.
     (case jget v ''type'' of
        Some (JStr ty) \<Rightarrow>
          if ty = ''text'' then map_option TextBlock (z_required ''text'' z_string v)
          else if ty = ''tool_use''
          then (case (z_required ''id'' z_string v, z_required ''name'' z_string v) of
                  (Some i, Some n) \<Rightarrow> Some (ToolUseBlock i n (jget v ''input''))
                | _ \<Rightarrow> None)
          else if ty = ''thinking'' then map_option ThinkingBlock (z_required ''thinking'' z_string v)
          else if ty = ''redacted_thinking'' then Some RedactedThinking
          else None
      | _ \<Rightarrow> None))"

definition responseSchema :: "(response_block list \<times> string option \<times> anthropic_usage) reader" where
  "responseSchema = z_object (\<lambda>v.
     (case (z_required ''content'' (z_array blockSchema) v, z_nullish ''stop_reason'' z_string v,
            z_required ''usage'' anthropicUsageSchema v) of
        (Some bs, Some s, Some u) \<Rightarrow> Some (bs, s, u)
      | _ \<Rightarrow> None))"

definition toUsage :: "anthropic_usage \<Rightarrow> ai_usage" where
  "toUsage u =
     \<lparr>promptTokens = input_tokens u, completionTokens = output_tokens u,
      cachedReadTokens = nullish (cache_read_input_tokens u) 0, cacheWriteTokens = nullish (cache_creation_input_tokens u) 0,
      estimated = False\<rparr>"

text \<open>\<open>JSON.stringify\<close> of a value that may be \<open>undefined\<close>, appended to a text.\<close>

definition stringify_input :: "json option \<Rightarrow> string" where
  "stringify_input v = (case v of None \<Rightarrow> ''undefined'' | Some j \<Rightarrow> json_stringify j)"

text \<open>The loop over the blocks: content, thinking, tool calls.\<close>

fun fold_block :: "string option \<Rightarrow> response_block \<Rightarrow> string \<times> string \<times> tool_call list \<Rightarrow> string \<times> string \<times> tool_call list" where
  "fold_block sch (TextBlock t) (c, th, tcs) = (c @ t, th, tcs)"
| "fold_block sch (ThinkingBlock t) (c, th, tcs) = (c, th @ t, tcs)"
| "fold_block sch (ToolUseBlock i n inp) (c, th, tcs) =
     (if sch = Some n then (c @ stringify_input inp, th, tcs)
      else (c, th, tcs @ [\<lparr>tc_id = i, tc_name = n, tc_arguments = json_stringify (nullish inp (JObj []))\<rparr>]))"
| "fold_block sch RedactedThinking acc = acc"

definition translateAnthropicResponse ::
    "(json \<Rightarrow> string) \<Rightarrow> json \<Rightarrow> served_meta \<Rightarrow> string option \<Rightarrow> (router_error, ai_response) result" where
  "translateAnthropicResponse zod_issue raw md sch =
     (case responseSchema raw of
        None \<Rightarrow> Inl (malformed (zod_issue raw))
      | Some (blocks, stop_reason, u) \<Rightarrow>
          (let (content, think, calls) = fold (fold_block sch) blocks ([], [], []);
               f0 = normalizeStopReason stop_reason;
               f = (if sch \<noteq> None \<and> f0 = FToolCalls \<and> calls = [] then FStop else f0)
           in Inr \<lparr>r_content = content, r_toolCalls = (if calls \<noteq> [] then Some calls else None), finishReason = f,
                   usage = toUsage u, served_model = fst md, served_providerId = fst (snd md),
                   served_latencyMs = snd (snd md), thinking = (if think \<noteq> [] then Some think else None)\<rparr>))"

section \<open>Streams\<close>

datatype block_start = StartText | StartToolUse string string | StartThinking | StartRedacted

datatype block_delta = DText string | DInputJson string | DThinking string | DSignature

datatype anthropic_event =
    MessageStart anthropic_usage
  | ContentBlockStart int block_start
  | ContentBlockDelta int block_delta
  | ContentBlockStop int
  | MessageDelta "string option" "int option"
  | MessageStop
  | Ping
  | ErrorEvent string string

definition startSchema :: "block_start reader" where
  "startSchema = z_object (\<lambda>v.
     (case jget v ''type'' of
        Some (JStr ty) \<Rightarrow>
          if ty = ''text'' then Some StartText
          else if ty = ''tool_use''
          then (case (z_required ''id'' z_string v, z_required ''name'' z_string v) of
                  (Some i, Some n) \<Rightarrow> Some (StartToolUse i n)
                | _ \<Rightarrow> None)
          else if ty = ''thinking'' then Some StartThinking
          else if ty = ''redacted_thinking'' then Some StartRedacted
          else None
      | _ \<Rightarrow> None))"

definition blockDeltaSchema :: "block_delta reader" where
  "blockDeltaSchema = z_object (\<lambda>v.
     (case jget v ''type'' of
        Some (JStr ty) \<Rightarrow>
          if ty = ''text_delta'' then map_option DText (z_required ''text'' z_string v)
          else if ty = ''input_json_delta'' then map_option DInputJson (z_required ''partial_json'' z_string v)
          else if ty = ''thinking_delta'' then map_option DThinking (z_required ''thinking'' z_string v)
          else if ty = ''signature_delta'' then Some DSignature
          else None
      | _ \<Rightarrow> None))"

definition both :: "('a \<Rightarrow> 'b \<Rightarrow> 'c) \<Rightarrow> 'a option \<Rightarrow> 'b option \<Rightarrow> 'c option" where
  "both f x y = (case (x, y) of (Some a, Some b) \<Rightarrow> Some (f a b) | _ \<Rightarrow> None)"

definition streamEventSchema :: "anthropic_event reader" where
  "streamEventSchema = z_object (\<lambda>v.
     (case jget v ''type'' of
        Some (JStr ty) \<Rightarrow>
          if ty = ''message_start''
          then map_option MessageStart (z_required ''message'' (z_object (z_required ''usage'' anthropicUsageSchema)) v)
          else if ty = ''content_block_start''
          then both ContentBlockStart (z_required ''index'' z_count v) (z_required ''content_block'' startSchema v)
          else if ty = ''content_block_delta''
          then both ContentBlockDelta (z_required ''index'' z_count v) (z_required ''delta'' blockDeltaSchema v)
          else if ty = ''content_block_stop'' then map_option ContentBlockStop (z_required ''index'' z_count v)
          else if ty = ''message_delta''
          then both (\<lambda>s u. MessageDelta s (Option.bind u id))
                 (z_required ''delta'' (z_object (z_nullish ''stop_reason'' z_string)) v)
                 (z_nullish ''usage'' (z_object (z_optional ''output_tokens'' z_count)) v)
          else if ty = ''message_stop'' then Some MessageStop
          else if ty = ''ping'' then Some Ping
          else if ty = ''error''
          then Option.bind (z_required ''error'' (z_object Some) v) (\<lambda>e.
                 both ErrorEvent (z_required ''type'' z_string e) (z_required ''message'' z_string e))
          else None
      | _ \<Rightarrow> None))"

definition parseStreamEvent :: "json \<Rightarrow> anthropic_event option" where
  "parseStreamEvent raw = streamEventSchema raw"

section \<open>Error mapping\<close>

definition codeForAnthropicType :: "string \<Rightarrow> error_code" where
  "codeForAnthropicType ty =
     (if ty = ''authentication_error'' \<or> ty = ''permission_error'' then auth_error
      else if ty = ''rate_limit_error'' then rate_limited
      else if ty = ''overloaded_error'' then provider_unavailable
      else if ty = ''request_too_large'' then context_exceeded
      else provider_unavailable)"

definition mapAnthropicStreamError :: "string \<Rightarrow> string \<Rightarrow> router_error" where
  "mapAnthropicStreamError ty msg =
     RouterError (codeForAnthropicType ty) (''provider error ('' @ ty @ '')'')
       (Some [(''providerErrorType'', JStr ty), (''providerMessage'', JStr (take 500 msg))]) None"

text \<open>\<open>body.error?.type ?? ''\<close> and \<open>body.error?.message ?? ''\<close>, empty when the body is not JSON.\<close>

definition error_member :: "string \<Rightarrow> string \<Rightarrow> string" where
  "error_member k bodyText =
     (case Option.bind (json_parse bodyText) (\<lambda>b. Option.bind (jget b ''error'') (\<lambda>e. jget e k)) of
        Some (JStr s) \<Rightarrow> s
      | _ \<Rightarrow> [])"

definition anthropic_http_code :: "int \<Rightarrow> string \<Rightarrow> string \<Rightarrow> error_code" where
  "anthropic_http_code st ty msg =
     (if ty \<noteq> []
      then
        (if ty = ''invalid_request_error''
         then (let m = to_lower msg
               in if includes_str ''prompt is too long'' m \<or> includes_str ''too many tokens'' m \<or> includes_str ''context'' m
                  then context_exceeded else invalid_request)
         else codeForAnthropicType ty)
      else if st = 401 \<or> st = 403 then auth_error
      else if st = 429 then rate_limited
      else provider_unavailable)"

text \<open>An abort has no branch of its own here: it is an error with the runtime's message.\<close>

fun mapAnthropicError :: "adapter_error \<Rightarrow> router_error" where
  "mapAnthropicError (AE_Router e) = e"
| "mapAnthropicError (AE_Http st body ra) =
     (let ty = error_member ''type'' body
      in RouterError (anthropic_http_code st ty (error_member ''message'' body)) (''provider error (HTTP '' @ show_int st @ '')'')
           (Some ([(''providerStatus'', JNum (of_int st))] @ (if ty \<noteq> [] then [(''providerErrorType'', JStr ty)] else [])
                  @ [(''providerBody'', JStr (take 500 body))])) ra)"
| "mapAnthropicError AE_Timeout = router_error0 provider_unavailable ''provider request timed out''"
| "mapAnthropicError AE_Abort = router_error0 unknown ''This operation was aborted''"
| "mapAnthropicError (AE_Type m) =
     RouterError provider_unavailable ''provider unreachable'' (Some [(''reason'', JStr m)]) None"
| "mapAnthropicError (AE_Error m) = router_error0 unknown m"
| "mapAnthropicError AE_Other = router_error0 unknown ''adapter failure''"

section \<open>The stream state machine\<close>

record anthropic_state =
  as_usage :: ai_usage
  as_stopReason :: finish_reason
  as_toolIndexByBlock :: "(int, nat) jsmap"
  as_blockTypes :: "(int, string) jsmap"
  as_nextToolIndex :: nat
  as_schemaTool :: "string option"
  as_schemaBlockIndex :: "int option"

definition anthropic_state_new :: "string option \<Rightarrow> anthropic_state" where
  "anthropic_state_new sch =
     \<lparr>as_usage = EMPTY_USAGE, as_stopReason = FStop, as_toolIndexByBlock = [], as_blockTypes = [], as_nextToolIndex = 0,
      as_schemaTool = sch, as_schemaBlockIndex = None\<rparr>"

fun block_type :: "block_start \<Rightarrow> string" where
  "block_type StartText = ''text''"
| "block_type (StartToolUse i n) = ''tool_use''"
| "block_type StartThinking = ''thinking''"
| "block_type StartRedacted = ''redacted_thinking''"

definition start_block :: "int \<Rightarrow> block_start \<Rightarrow> anthropic_state \<Rightarrow> stream_chunk list \<times> anthropic_state" where
  "start_block ix b st0 =
     (let st = st0\<lparr>as_blockTypes := map_set ix (block_type b) (as_blockTypes st0)\<rparr>
      in case b of
           StartToolUse i n \<Rightarrow>
             if as_schemaTool st = Some n then ([], st\<lparr>as_schemaBlockIndex := Some ix\<rparr>)
             else
               (let toolIndex = as_nextToolIndex st
                in ([ToolCallStart toolIndex i n],
                    st\<lparr>as_nextToolIndex := toolIndex + 1,
                       as_toolIndexByBlock := map_set ix toolIndex (as_toolIndexByBlock st)\<rparr>))
         | _ \<Rightarrow> ([], st))"

definition block_chunks :: "int \<Rightarrow> block_delta \<Rightarrow> anthropic_state \<Rightarrow> stream_chunk list" where
  "block_chunks ix d st =
     (case d of
        DText t \<Rightarrow> [TextDelta t]
      | DInputJson p \<Rightarrow>
          if as_schemaBlockIndex st = Some ix then [TextDelta p]
          else (case map_get (as_toolIndexByBlock st) ix of
                  None \<Rightarrow> []
                | Some toolIndex \<Rightarrow> [ToolCallDelta toolIndex p])
      | _ \<Rightarrow> [])"

fun anthropic_handle :: "anthropic_event \<Rightarrow> anthropic_state \<Rightarrow> (router_error, stream_chunk list) result \<times> anthropic_state" where
  "anthropic_handle (MessageStart u) st = (Inr [], st\<lparr>as_usage := toUsage u\<rparr>)"
| "anthropic_handle (ContentBlockStart ix b) st = (let (cs, st1) = start_block ix b st in (Inr cs, st1))"
| "anthropic_handle (ContentBlockDelta ix d) st = (Inr (block_chunks ix d st), st)"
| "anthropic_handle (MessageDelta sr out) st =
     (let st1 = (case sr of Some (c # cs) \<Rightarrow> st\<lparr>as_stopReason := normalizeStopReason (Some (c # cs))\<rparr> | _ \<Rightarrow> st)
      in (Inr [], case out of None \<Rightarrow> st1 | Some n \<Rightarrow> st1\<lparr>as_usage := (as_usage st1)\<lparr>completionTokens := n\<rparr>\<rparr>))"
| "anthropic_handle MessageStop st =
     (let finish = (if as_schemaBlockIndex st \<noteq> None \<and> as_stopReason st = FToolCalls \<and> as_nextToolIndex st = 0
                    then FStop else as_stopReason st)
      in (Inr [Finish finish (Some (as_usage st))], st))"
| "anthropic_handle (ErrorEvent ty msg) st = (Inl (mapAnthropicStreamError ty msg), st)"
| "anthropic_handle (ContentBlockStop ix) st = (Inr [], st)"
| "anthropic_handle Ping st = (Inr [], st)"

section \<open>The adapter\<close>

definition anthropic_url :: "execute_ctx \<Rightarrow> string" where
  "anthropic_url ctx = strip_slashes (ec_baseUrl ctx) @ ''/v1/messages''"

definition anthropic_translateRequest :: "ai_request \<Rightarrow> execute_ctx \<Rightarrow> translated_request" where
  "anthropic_translateRequest env ctx =
     \<lparr>tq_url = anthropic_url ctx, tq_headers = buildAnthropicHeaders ctx, tq_body = fst (buildAnthropicRequest env ctx)\<rparr>"

definition anthropic_translateStreamChunk :: "json \<Rightarrow> (router_error, stream_chunk list) result" where
  "anthropic_translateStreamChunk raw =
     (case parseStreamEvent raw of
        None \<Rightarrow> Inr []
      | Some ev \<Rightarrow> fst (anthropic_handle ev (anthropic_state_new None)))"

text \<open>\<open>execute\<close>: the network is a function from the translated request.\<close>

definition anthropic_execute ::
    "(json \<Rightarrow> string) \<Rightarrow> (translated_request \<Rightarrow> (adapter_error, json) result) \<Rightarrow> int \<Rightarrow> ai_request \<Rightarrow> execute_ctx
      \<Rightarrow> (router_error, ai_response) result" where
  "anthropic_execute zod_issue post latency env ctx =
     (let env1 = env\<lparr>stream := False\<rparr>
      in case post (anthropic_translateRequest env1 ctx) of
           Inl err \<Rightarrow> Inl (mapAnthropicError err)
         | Inr raw \<Rightarrow>
             translateAnthropicResponse zod_issue raw (ec_model ctx, ec_providerId ctx, latency)
               (snd (buildAnthropicRequest env1 ctx)))"

fun anthropic_payloads ::
    "string list \<Rightarrow> anthropic_state \<Rightarrow> stream_chunk list \<times> router_error option" where
  "anthropic_payloads [] st = ([], None)"
| "anthropic_payloads (p # ps) st =
     (case Option.bind (json_parse p) parseStreamEvent of
        None \<Rightarrow> anthropic_payloads ps st
      | Some ev \<Rightarrow>
          (case anthropic_handle ev st of
             (Inl e, st1) \<Rightarrow> ([], Some e)
           | (Inr cs, st1) \<Rightarrow> (let (out, e) = anthropic_payloads ps st1 in (cs @ out, e))))"

definition anthropic_stream ::
    "(translated_request \<Rightarrow> string list \<times> adapter_error option) \<Rightarrow> ai_request \<Rightarrow> execute_ctx
      \<Rightarrow> stream_chunk list \<times> router_error option" where
  "anthropic_stream post env ctx =
     (let env1 = env\<lparr>stream := True\<rparr>;
          (data, err) = post (anthropic_translateRequest env1 ctx);
          (out, e) = anthropic_payloads data (anthropic_state_new (snd (buildAnthropicRequest env1 ctx)))
      in (out, case e of Some er \<Rightarrow> Some er | None \<Rightarrow> map_option mapAnthropicError err))"

section \<open>Folding a stream up\<close>

text \<open>What a consumer makes of the chunks: the text, and the tool calls by index.\<close>

fun assemble_chunk :: "stream_chunk \<Rightarrow> string \<times> tool_call list \<Rightarrow> string \<times> tool_call list" where
  "assemble_chunk (TextDelta d) (c, tcs) = (c @ d, tcs)"
| "assemble_chunk (ToolCallStart i cid n) (c, tcs) = (c, tcs @ [\<lparr>tc_id = cid, tc_name = n, tc_arguments = []\<rparr>])"
| "assemble_chunk (ToolCallDelta i p) (c, tcs) =
     (c, if i < length tcs then tcs[i := (tcs ! i)\<lparr>tc_arguments := tc_arguments (tcs ! i) @ p\<rparr>] else tcs)"
| "assemble_chunk (Finish f u) acc = acc"

definition assemble :: "stream_chunk list \<Rightarrow> string \<times> tool_call list" where
  "assemble cs = fold assemble_chunk cs ([], [])"

fun run_events :: "anthropic_event list \<Rightarrow> anthropic_state \<Rightarrow> stream_chunk list \<times> router_error option" where
  "run_events [] st = ([], None)"
| "run_events (ev # evs) st =
     (case anthropic_handle ev st of
        (Inl e, st1) \<Rightarrow> ([], Some e)
      | (Inr cs, st1) \<Rightarrow> (let (out, e) = run_events evs st1 in (cs @ out, e)))"

definition events_of :: "string list \<Rightarrow> anthropic_event list" where
  "events_of ps = List.map_filter (\<lambda>p. Option.bind (json_parse p) parseStreamEvent) ps"

lemma payloads_events: "anthropic_payloads ps st = run_events (events_of ps) st"
  by (induction ps arbitrary: st) (auto simp: events_of_def map_filter_simps split: option.splits prod.splits sum.splits)

lemma pings_ignored: "run_events (filter (\<lambda>ev. ev \<noteq> Ping) evs) st = run_events evs st"
  by (induction evs arbitrary: st) (auto split: prod.splits sum.splits)

text \<open>How the API streams a block of a response: a start, the pieces of its text, a stop.\<close>

fun block_text :: "response_block \<Rightarrow> string" where
  "block_text (TextBlock t) = t"
| "block_text (ToolUseBlock i n inp) = json_stringify (nullish inp (JObj []))"
| "block_text (ThinkingBlock t) = t"
| "block_text RedactedThinking = []"

fun block_events :: "int \<Rightarrow> response_block \<Rightarrow> string list \<Rightarrow> anthropic_event list" where
  "block_events ix (TextBlock t) ps =
     ContentBlockStart ix StartText # map (\<lambda>p. ContentBlockDelta ix (DText p)) ps @ [ContentBlockStop ix]"
| "block_events ix (ToolUseBlock i n inp) ps =
     ContentBlockStart ix (StartToolUse i n) # map (\<lambda>p. ContentBlockDelta ix (DInputJson p)) ps @ [ContentBlockStop ix]"
| "block_events ix (ThinkingBlock t) ps =
     ContentBlockStart ix StartThinking # map (\<lambda>p. ContentBlockDelta ix (DThinking p)) ps
     @ [ContentBlockDelta ix DSignature, ContentBlockStop ix]"
| "block_events ix RedactedThinking ps = [ContentBlockStart ix StartRedacted, ContentBlockStop ix]"

fun blocks_events :: "int \<Rightarrow> (response_block \<times> string list) list \<Rightarrow> anthropic_event list" where
  "blocks_events ix [] = []"
| "blocks_events ix ((b, ps) # bs) = block_events ix b ps @ blocks_events (ix + 1) bs"

definition message_events ::
    "anthropic_usage \<Rightarrow> (response_block \<times> string list) list \<Rightarrow> string option \<Rightarrow> int \<Rightarrow> anthropic_event list" where
  "message_events u bs sr out =
     MessageStart u # blocks_events 0 bs @ [MessageDelta sr (Some out), MessageStop]"

fun is_schema_block :: "string option \<Rightarrow> response_block \<Rightarrow> bool" where
  "is_schema_block sch (ToolUseBlock i n inp) = (sch = Some n)"
| "is_schema_block sch b = False"

text \<open>A block streamed in pieces; the structured answer has an input.\<close>

definition streamed_block :: "string option \<Rightarrow> response_block \<times> string list \<Rightarrow> bool" where
  "streamed_block sch bp \<longleftrightarrow> concat (snd bp) = block_text (fst bp)
     \<and> (is_schema_block sch (fst bp) \<longrightarrow> (\<forall>i n. fst bp \<noteq> ToolUseBlock i n None))"

text \<open>The machine between two blocks, the next having index \<open>ix\<close> and \<open>n\<close> calls being started.\<close>

definition between_blocks :: "string option \<Rightarrow> int \<Rightarrow> nat \<Rightarrow> anthropic_state \<Rightarrow> bool" where
  "between_blocks sch ix n st \<longleftrightarrow> as_schemaTool st = sch \<and> as_nextToolIndex st = n
     \<and> (\<forall>j. as_schemaBlockIndex st = Some j \<longrightarrow> j < ix)"

lemma assemble_texts: "fold assemble_chunk (map TextDelta ps) (c, tcs) = (c @ concat ps, tcs)"
  by (induction ps arbitrary: c) simp_all

lemma assemble_args:
  "fold assemble_chunk (map (ToolCallDelta (length tcs)) ps) (c, tcs @ [tc])
     = (c, tcs @ [tc\<lparr>tc_arguments := tc_arguments tc @ concat ps\<rparr>])"
  by (induction ps arbitrary: tc) simp_all

text \<open>The pieces of a block leave the state alone.\<close>

lemma run_deltas:
  "run_events (map (\<lambda>p. ContentBlockDelta ix (h p)) ps @ rest) st
     = (concat (map (\<lambda>p. block_chunks ix (h p) st) ps) @ fst (run_events rest st), snd (run_events rest st))"
  by (induction ps) (auto split: prod.splits)

lemma concat_singles: "concat (map (\<lambda>p. [f p]) ps) = map f ps" "concat (map (\<lambda>p. []) ps) = []"
  by (induction ps) simp_all

lemma run_block:
  assumes "between_blocks sch ix (length tcs) st" "streamed_block sch (b, ps)"
  shows "\<exists>cs st'. run_events (block_events ix b ps @ rest) st = (cs @ fst (run_events rest st'), snd (run_events rest st'))
    \<and> (\<exists>th'. fold_block sch b (c, th, tcs) = (fst (fold assemble_chunk cs (c, tcs)), th', snd (fold assemble_chunk cs (c, tcs))))
    \<and> between_blocks sch (ix + 1) (length (snd (fold assemble_chunk cs (c, tcs)))) st'
    \<and> as_usage st' = as_usage st \<and> as_stopReason st' = as_stopReason st
    \<and> (as_schemaBlockIndex st' \<noteq> None \<longleftrightarrow> as_schemaBlockIndex st \<noteq> None \<or> is_schema_block sch b)"
proof -
  define st1 where "st1 = snd (start_block ix (case b of TextBlock t \<Rightarrow> StartText | ToolUseBlock i n inp \<Rightarrow> StartToolUse i n
    | ThinkingBlock t \<Rightarrow> StartThinking | RedactedThinking \<Rightarrow> StartRedacted) st)"
  note defs = st1_def start_block_def Let_def between_blocks_def streamed_block_def
  show ?thesis
  proof (cases b)
    case (TextBlock t)
    with assms show ?thesis
      by (intro exI [of _ "map TextDelta ps"] exI [of _ st1])
         (auto simp: defs run_deltas block_chunks_def concat_singles assemble_texts split: prod.splits)
  next
    case (ToolUseBlock i n inp)
    show ?thesis
    proof (cases "sch = Some n")
      case True
      with ToolUseBlock assms have "inp \<noteq> None"
        by (auto simp: streamed_block_def)
      with True ToolUseBlock assms show ?thesis
        by (intro exI [of _ "map TextDelta ps"] exI [of _ st1])
           (auto simp: defs run_deltas block_chunks_def concat_singles assemble_texts stringify_input_def split: prod.splits)
    next
      case False
      moreover have "as_schemaBlockIndex st \<noteq> Some ix"
        using assms(1) by (auto simp: between_blocks_def)
      ultimately show ?thesis using ToolUseBlock assms
        by (intro exI [of _ "ToolCallStart (length tcs) i n # map (ToolCallDelta (length tcs)) ps"] exI [of _ st1])
           (auto simp: defs run_deltas block_chunks_def concat_singles assemble_args split: prod.splits)
    qed
  next
    case (ThinkingBlock t)
    with assms show ?thesis
      by (intro exI [of _ "[]"] exI [of _ st1])
         (auto simp: defs run_deltas block_chunks_def concat_singles split: prod.splits)
  next
    case RedactedThinking
    with assms show ?thesis
      by (intro exI [of _ "[]"] exI [of _ st1])
         (auto simp: defs split: prod.splits)
  qed
qed

lemma run_blocks:
  assumes "between_blocks sch ix (length tcs) st" "list_all (streamed_block sch) bs"
  shows "\<exists>cs st'. run_events (blocks_events ix bs @ rest) st = (cs @ fst (run_events rest st'), snd (run_events rest st'))
    \<and> (\<exists>th'. fold (fold_block sch) (map fst bs) (c, th, tcs) = (fst (fold assemble_chunk cs (c, tcs)), th', snd (fold assemble_chunk cs (c, tcs))))
    \<and> as_nextToolIndex st' = length (snd (fold assemble_chunk cs (c, tcs)))
    \<and> as_usage st' = as_usage st \<and> as_stopReason st' = as_stopReason st
    \<and> (as_schemaBlockIndex st' \<noteq> None \<longleftrightarrow> as_schemaBlockIndex st \<noteq> None \<or> list_ex (is_schema_block sch) (map fst bs))"
  using assms
proof (induction bs arbitrary: ix tcs st c th)
  case Nil
  then show ?case
    by (intro exI [of _ "[]"] exI [of _ st]) (auto simp: between_blocks_def)
next
  case (Cons bp bs)
  obtain b ps where bp: "bp = (b, ps)"
    by (cases bp)
  from run_block [OF Cons.prems(1), of b ps "blocks_events (ix + 1) bs @ rest" c th] Cons.prems(2) bp
  obtain cs1 st1 th1 where one:
    "run_events (block_events ix b ps @ blocks_events (ix + 1) bs @ rest) st
       = (cs1 @ fst (run_events (blocks_events (ix + 1) bs @ rest) st1), snd (run_events (blocks_events (ix + 1) bs @ rest) st1))"
    "fold_block sch b (c, th, tcs) = (fst (fold assemble_chunk cs1 (c, tcs)), th1, snd (fold assemble_chunk cs1 (c, tcs)))"
    "between_blocks sch (ix + 1) (length (snd (fold assemble_chunk cs1 (c, tcs)))) st1"
    "as_usage st1 = as_usage st" "as_stopReason st1 = as_stopReason st"
    "as_schemaBlockIndex st1 \<noteq> None \<longleftrightarrow> as_schemaBlockIndex st \<noteq> None \<or> is_schema_block sch b"
    by auto
  define c1 where "c1 = fst (fold assemble_chunk cs1 (c, tcs))"
  define tcs1 where "tcs1 = snd (fold assemble_chunk cs1 (c, tcs))"
  note one = one [folded c1_def tcs1_def]
  have after: "fold assemble_chunk cs1 (c, tcs) = (c1, tcs1)"
    by (simp add: c1_def tcs1_def)
  from Cons.IH [OF one(3), of c1 th1] Cons.prems(2) obtain cs2 st2 th2 where two:
    "run_events (blocks_events (ix + 1) bs @ rest) st1 = (cs2 @ fst (run_events rest st2), snd (run_events rest st2))"
    "fold (fold_block sch) (map fst bs) (c1, th1, tcs1) = (fst (fold assemble_chunk cs2 (c1, tcs1)), th2, snd (fold assemble_chunk cs2 (c1, tcs1)))"
    "as_nextToolIndex st2 = length (snd (fold assemble_chunk cs2 (c1, tcs1)))"
    "as_usage st2 = as_usage st1" "as_stopReason st2 = as_stopReason st1"
    "as_schemaBlockIndex st2 \<noteq> None \<longleftrightarrow> as_schemaBlockIndex st1 \<noteq> None \<or> list_ex (is_schema_block sch) (map fst bs)"
    by auto
  show ?case
    by (intro exI [of _ "cs1 @ cs2"] exI [of _ st2]) (use one two in \<open>auto simp: bp after\<close>)
qed

section \<open>Properties\<close>


text \<open>A response with a text and a tool call, and a stream of it with a ping inside.\<close>

definition ex_blocks :: "(response_block \<times> string list) list" where
  "ex_blocks = [(TextBlock ''Hi'', [''H'', ''i'']), (ToolUseBlock ''t1'' ''f'' (Some (JObj [])), [''{'', ''}''])]"

definition ex_raw :: json where
  "ex_raw = JObj [(''content'', JArr [JObj [(''type'', JStr ''text''), (''text'', JStr ''Hi'')],
       JObj [(''type'', JStr ''tool_use''), (''id'', JStr ''t1''), (''name'', JStr ''f''), (''input'', JObj [])]]),
     (''stop_reason'', JStr ''tool_use''), (''usage'', JObj [(''input_tokens'', JNum 9), (''output_tokens'', JNum 4)])]"

definition ex_events :: "json list" where
  "ex_events =
    [JObj [(''type'', JStr ''message_start''), (''message'', JObj [(''usage'', JObj [(''input_tokens'', JNum 9)])])],
     JObj [(''type'', JStr ''content_block_start''), (''index'', JNum 0), (''content_block'', JObj [(''type'', JStr ''text'')])],
     JObj [(''type'', JStr ''content_block_delta''), (''index'', JNum 0), (''delta'', JObj [(''type'', JStr ''text_delta''), (''text'', JStr ''H'')])],
     JObj [(''type'', JStr ''ping'')],
     JObj [(''type'', JStr ''content_block_delta''), (''index'', JNum 0), (''delta'', JObj [(''type'', JStr ''text_delta''), (''text'', JStr ''i'')])],
     JObj [(''type'', JStr ''content_block_stop''), (''index'', JNum 0)],
     JObj [(''type'', JStr ''content_block_start''), (''index'', JNum 1),
       (''content_block'', JObj [(''type'', JStr ''tool_use''), (''id'', JStr ''t1''), (''name'', JStr ''f'')])],
     JObj [(''type'', JStr ''content_block_delta''), (''index'', JNum 1),
       (''delta'', JObj [(''type'', JStr ''input_json_delta''), (''partial_json'', JStr ''{'')])],
     JObj [(''type'', JStr ''content_block_delta''), (''index'', JNum 1),
       (''delta'', JObj [(''type'', JStr ''input_json_delta''), (''partial_json'', JStr ''}'')])],
     JObj [(''type'', JStr ''content_block_stop''), (''index'', JNum 1)],
     JObj [(''type'', JStr ''message_delta''), (''delta'', JObj [(''stop_reason'', JStr ''tool_use'')]),
       (''usage'', JObj [(''output_tokens'', JNum 4)])],
     JObj [(''type'', JStr ''message_stop'')]]"

definition ex_usage0 :: anthropic_usage where
  "ex_usage0 = \<lparr>input_tokens = 9, output_tokens = 0, cache_creation_input_tokens = None, cache_read_input_tokens = None\<rparr>"

lemma ex_events_read: "events_of (map json_stringify ex_events) =
   MessageStart ex_usage0 # [ContentBlockStart 0 StartText, ContentBlockDelta 0 (DText ''H''), Ping, ContentBlockDelta 0 (DText ''i''),
    ContentBlockStop 0, ContentBlockStart 1 (StartToolUse ''t1'' ''f''), ContentBlockDelta 1 (DInputJson ''{''),
    ContentBlockDelta 1 (DInputJson ''}''), ContentBlockStop 1, MessageDelta (Some ''tool_use'') (Some 4), MessageStop]"
proof -
  have parsed: "events_of (map json_stringify js) = List.map_filter parseStreamEvent js" if "\<forall>j\<in>set js. plain_json j" for js
    using that by (induction js) (simp_all add: events_of_def map_filter_simps json_roundtrip split: option.splits)
  have "\<forall>j\<in>set ex_events. plain_json j"
    by (simp add: ex_events_def)
  from parsed [OF this] show ?thesis
    by (simp add: ex_events_def map_filter_simps parseStreamEvent_def streamEventSchema_def z_defs anthropicUsageSchema_def
        startSchema_def blockDeltaSchema_def both_def ex_usage0_def)
qed


text \<open>
  A tool without an input reads as the object \<open>{}\<close> in a plain response, but in a stream, where the API sends
  no piece for it, its arguments stay empty, which is not JSON.
\<close>

lemma empty_input_streamed:
  "assemble (fst (run_events (ContentBlockStart 0 (StartToolUse i n) # [ContentBlockStop 0]) (anthropic_state_new None)))
     = ([], [\<lparr>tc_id = i, tc_name = n, tc_arguments = []\<rparr>])"
  "fold_block None (ToolUseBlock i n None) ([], [], []) = ([], [], [\<lparr>tc_id = i, tc_name = n, tc_arguments = ''{}''\<rparr>])"
  "json_parse [] = None"
  by (simp_all add: start_block_def anthropic_state_new_def assemble_def json_parse_def skip_ws_def)

section \<open>Requests the API accepts\<close>

lemma mark_last_Nil [simp]: "mark_last xs = [] \<longleftrightarrow> xs = []"
  by (simp add: mark_last_def)

lemma mark_leading_roles: "m \<in> set (mark_leading ms) \<Longrightarrow> \<exists>m'\<in>set ms. fst m = fst m' \<and> (snd m = snd m' \<or> snd m = mark_last (snd m'))"
  by (auto simp: mark_leading_def split: if_splits dest!: set_update_subset_insert [THEN subsetD])

lemma message_wellformed:
  "m_role m \<noteq> RSystem \<Longrightarrow> fst (anthropic_message m) \<in> {''user'', ''assistant''} \<and> snd (anthropic_message m) \<noteq> []"
  by (cases "m_role m") (simp_all add: anthropic_message_def Let_def)

lemma marked_schema_tool: "\<exists>t\<in>set (mark_last (xs @ [JObj (schema_tool n sc)])). jget t ''name'' = Some (JStr (schemaToolName n))"
  by (simp add: mark_last_def schema_tool_def obj_get_def)

lemma plain_schema_tool: "\<exists>t\<in>set (xs @ [JObj (schema_tool n sc)]). jget t ''name'' = Some (JStr (schemaToolName n))"
  by (simp add: schema_tool_def obj_get_def)

text \<open>
  The request the adapter sends keeps the rules of the Messages API, whatever the envelope: it has a
  token limit; the temperature is at most one and never sent with \<open>top_p\<close>; models that only think adaptively
  get neither of them nor a thinking budget; every message is a user or assistant turn with at least one block; and when a JSON schema was
  asked for, the synthetic tool is among the tools and is the one the model is forced to call.
\<close>

theorem anthropic_request_rules:
  assumes "buildAnthropicRequest env ctx = (body, sch)"
  shows "(\<exists>n. jget body ''max_tokens'' = Some (JNum n))
    \<and> (\<forall>v. jget body ''temperature'' = Some v \<longrightarrow> (\<exists>x \<le> 1. v = JNum x) \<and> jget body ''top_p'' = None)
    \<and> (adaptive_only (providerModelName (ec_model ctx) (ec_modelMapping ctx)) \<longrightarrow>
         jget body ''temperature'' = None \<and> jget body ''top_p'' = None
         \<and> jget body ''thinking'' \<in> {None, Some (JObj [(''type'', JStr ''adaptive'')])})
    \<and> (\<exists>ms. jget body ''messages'' = Some (JArr (map message_object ms))
         \<and> (\<forall>m\<in>set ms. fst m \<in> {''user'', ''assistant''} \<and> snd m \<noteq> []))
    \<and> (\<forall>n. sch = Some n \<longrightarrow>
         jget body ''tool_choice'' = Some (JObj [(''type'', JStr ''tool''), (''name'', JStr n)])
         \<and> (\<exists>ts. jget body ''tools'' = Some (JArr ts) \<and> (\<exists>t\<in>set ts. jget t ''name'' = Some (JStr n))))"
proof -
  define msgs0 where "msgs0 = map anthropic_message (filter (\<lambda>m. m_role m \<noteq> RSystem) (messages env))"
  define msgs where "msgs = (if ec_promptCaching ctx then mark_leading msgs0 else msgs0)"
  define tls where "tls = (if ec_promptCaching ctx then map_option mark_last (request_tools env) else request_tools env)"
  define adaptive where "adaptive = adaptive_only (providerModelName (ec_model ctx) (ec_modelMapping ctx))"
  have get: "jget body ''max_tokens'' = Some (JNum (of_int (nullish (maxTokens env) 4096)))"
    "jget body ''temperature'' = (if adaptive then None else map_option (\<lambda>x. JNum (min x 1)) (temperature env))"
    "jget body ''top_p'' = (if adaptive \<or> temperature env \<noteq> None then None else map_option JNum (topP env))"
    "jget body ''messages'' = Some (JArr (map message_object msgs))"
    "jget body ''tool_choice'' = request_choice env"
    "jget body ''tools'' = map_option JArr (non_empty tls)"
    and sch: "sch = schemaTool_of env"
    using assms
    by (auto simp: buildAnthropicRequest_def Let_def obj_get_def body_lookup msgs_def msgs0_def tls_def adaptive_def
        split: option.split)
  have think: "jget body ''thinking'' \<in> {None, Some (JObj [(''type'', JStr ''adaptive'')])}" if adaptive
    using assms that
    by (cases "stream env"; cases "ec_thinkingBudget ctx")
       (auto simp: buildAnthropicRequest_def Let_def obj_get_def body_lookup adaptive_def)
  have "\<forall>m\<in>set msgs0. fst m \<in> {''user'', ''assistant''} \<and> snd m \<noteq> []"
    using message_wellformed by (simp add: msgs0_def)
  moreover have "\<exists>m'\<in>set msgs0. fst m = fst m' \<and> (snd m = snd m' \<or> snd m = mark_last (snd m'))" if "m \<in> set msgs" for m
    using that mark_leading_roles [of m msgs0] by (auto simp: msgs_def split: if_splits)
  ultimately have roles: "fst m \<in> {''user'', ''assistant''} \<and> snd m \<noteq> []" if "m \<in> set msgs" for m
    using that by (metis mark_last_Nil)
  have forced: "request_choice env = Some (JObj [(''type'', JStr ''tool''), (''name'', JStr n)])
      \<and> (\<exists>ts. non_empty tls = Some ts \<and> (\<exists>t\<in>set ts. jget t ''name'' = Some (JStr n)))" if "schemaTool_of env = Some n" for n
  proof -
    from that obtain k sc xs where "request_tools env = Some (xs @ [JObj (schema_tool k sc)])" "n = schemaToolName k"
      by (auto simp: schemaTool_of_def request_tools_def Let_def split: option.splits response_format.splits)
    with marked_schema_tool [of xs k sc] plain_schema_tool [of xs k sc] that show ?thesis
      by (auto simp: tls_def request_choice_def)
  qed
  have turns: "\<exists>ms. jget body ''messages'' = Some (JArr (map message_object ms))
      \<and> (\<forall>m\<in>set ms. fst m \<in> {''user'', ''assistant''} \<and> snd m \<noteq> [])"
    using get(4) roles by blast
  show ?thesis
    unfolding adaptive_def [symmetric]
    by (intro conjI turns) (use get(1-3,5,6) think sch forced in auto)
qed

definition ex_ctx :: execute_ctx where
  "ex_ctx = \<lparr>ec_providerId = ''p'', ec_model = ''anthropic/claude-opus-5'', ec_baseUrl = ''https://x'', ec_apiKey = None,
     ec_modelMapping = None, ec_promptCaching = True, ec_thinkingBudget = Some 100\<rparr>"

theorem anthropic_request_rules_witness:
  "\<exists>body ts. buildAnthropicRequest (ex_call\<lparr>responseFormat := Some (RFJsonSchema ''out'' None None None)\<rparr>) ex_ctx
      = (body, Some ''emit_out'')
    \<and> jget body ''temperature'' = None \<and> jget body ''tools'' = Some (JArr ts) \<and> (\<exists>t\<in>set ts. jget t ''name'' = Some (JStr ''emit_out''))"
proof -
  obtain body sch where body: "buildAnthropicRequest (ex_call\<lparr>responseFormat := Some (RFJsonSchema ''out'' None None None)\<rparr>) ex_ctx
      = (body, sch)"
    by (metis surj_pair)
  then have "sch = Some ''emit_out''"
    by (auto simp: buildAnthropicRequest_def Let_def schemaTool_of_def schemaToolName_def)
  moreover have "adaptive_only (providerModelName (ec_model ex_ctx) (ec_modelMapping ex_ctx))"
    by (simp add: ex_ctx_def providerModelName_def adaptive_only_def to_lower_def lower_char_def char_code_def)
  ultimately show ?thesis
    using anthropic_request_rules [OF body] body by auto
qed

end
