(* ===== verification/Audit_Log.thy ===== *)
theory Audit_Log
  imports Gateway
begin

text \<open>
  The audit writer of \<^verbatim>\<open>src/src/protect/audit.ts\<close>: the registry of events with the shape of their details, the
  gate every entry passes, the query and the CSV export. A detail schema is a list of members (key, whether it
  is optional, type); parsing keeps the members of the schema and drops every other. The
  registry is an argument, since it can be extended at run time. Timestamps are integers and the printing of one
  (\<open>toISOString\<close>) is an argument.
\<close>

section \<open>Detail schemas\<close>

datatype field_type =
    TStr "nat option"
  | TNum
  | TBool
  | TEnum "string list"
  | TPosInt
  | TStrings "nat option"
  | TPrimitives
  | TNumbers
  | TEnums "string list"

fun is_string :: "json \<Rightarrow> bool" where
  "is_string (JStr s) = True"
| "is_string _ = False"

fun is_number :: "json \<Rightarrow> bool" where
  "is_number (JNum x) = True"
| "is_number _ = False"

fun is_primitive :: "json \<Rightarrow> bool" where
  "is_primitive (JArr vs) = False"
| "is_primitive (JObj ms) = False"
| "is_primitive _ = True"

definition in_limit :: "nat option \<Rightarrow> nat \<Rightarrow> bool" where
  "in_limit mx n = (case mx of None \<Rightarrow> True | Some m \<Rightarrow> n \<le> m)"

fun field_ok :: "field_type \<Rightarrow> json \<Rightarrow> bool" where
  "field_ok (TStr mx) (JStr s) = in_limit mx (length s)"
| "field_ok TNum (JNum x) = True"
| "field_ok TBool (JBool b) = True"
| "field_ok (TEnum es) (JStr s) = (s \<in> set es)"
| "field_ok TPosInt (JNum x) = (x = of_int (floor x) \<and> x > 0)"
| "field_ok (TStrings mx) (JArr vs) = (list_all is_string vs \<and> in_limit mx (length vs))"
| "field_ok TPrimitives (JObj ms) = list_all (\<lambda>m. is_primitive (snd m)) ms"
| "field_ok TNumbers (JObj ms) = list_all (\<lambda>m. is_number (snd m)) ms"
| "field_ok (TEnums es) (JObj ms) = list_all (\<lambda>m. case snd m of JStr s \<Rightarrow> s \<in> set es | _ \<Rightarrow> False) ms"
| "field_ok _ _ = False"

type_synonym detail_schema = "(string \<times> bool \<times> field_type) list"

abbreviation required :: "string \<Rightarrow> field_type \<Rightarrow> string \<times> bool \<times> field_type" where
  "required k t \<equiv> (k, False, t)"

abbreviation optional :: "string \<Rightarrow> field_type \<Rightarrow> string \<times> bool \<times> field_type" where
  "optional k t \<equiv> (k, True, t)"

definition HEALTH_STATES :: "string list" where
  "HEALTH_STATES = [''unknown'', ''healthy'', ''degraded'', ''down'']"

definition BREAKER_STATES :: "string list" where
  "BREAKER_STATES = [''closed'', ''open'', ''half_open'']"

definition matches_schema :: detail_schema where
  "matches_schema = [required ''matches'' TNumbers, optional ''scope'' (TEnum [''fallback_only''])]"

definition catalog_schemas :: "(string \<times> detail_schema) list" where
  "catalog_schemas =
    [(''config_change'',
      [required ''entity'' (TStr None), optional ''entityId'' (TStr None),
       required ''action'' (TEnum [''create'', ''update'', ''delete'', ''rotate'', ''promote'', ''revoke'']),
       optional ''before'' TPrimitives, optional ''after'' TPrimitives]),
     (''catalog_sync_completed'',
      [required ''source'' (TStr None), optional ''sourceSha256'' (TStr None), required ''added'' TNum, required ''updated'' TNum,
       required ''pricingChanged'' TNum, required ''deprecated'' TNum, required ''skipped'' TNum, required ''unchanged'' TNum]),
     (''catalog_sync_failed'', [required ''source'' (TStr None), required ''reason'' (TStr (Some 500))]),
     (''provider_models_discovered'',
      [required ''providerId'' (TStr None), required ''providerLabel'' (TStr None), required ''discovered'' (TStrings None),
       required ''alreadyKnown'' TNum]),
     (''model_capabilities_probed'',
      [required ''modelCanonicalId'' (TStr None), required ''providerId'' (TStr None), required ''providerLabel'' (TStr None),
       required ''results'' (TEnums [''supported'', ''unsupported'', ''inconclusive'']), required ''applied'' TBool]),
     (''catalog_docs_scraped'',
      [required ''source'' (TStr None), required ''scraped'' TNum, required ''matched'' TNum,
       required ''capabilitiesUpdated'' TNum, required ''specsUpdated'' TNum, required ''pricingChanged'' TNum,
       required ''skippedCurated'' TNum, required ''unmatched'' TNum]),
     (''catalog_live_pricing_applied'',
      [required ''source'' (TStr (Some 300)), required ''sourceSha256'' (TStr None), required ''candidates'' TNum,
       required ''matched'' TNum, required ''pricingChanged'' (TStrings (Some 200)), required ''specsUpdated'' (TStrings (Some 200))]),
     (''credential_test'', [required ''ok'' TBool, required ''latencyMs'' TNum, optional ''errorCode'' (TStr None)]),
     (''provider_health_changed'',
      [required ''from'' (TEnum HEALTH_STATES), required ''to'' (TEnum HEALTH_STATES), required ''errorRate'' TNum,
       required ''samples'' TNum]),
     (''third_party_binding_unacknowledged'',
      [required ''policyId'' (TStr None), required ''taskClass'' (TStr None), required ''models'' (TStrings (Some 50))]),
     (''policy_binding_invalid'',
      [required ''policyId'' (TStr None), required ''taskClass'' (TStr None), required ''modelCanonicalId'' (TStr None),
       required ''reason'' (TStr (Some 300))]),
     (''model_deprecation_warning'',
      [required ''policyId'' (TStr None), required ''taskClass'' (TStr None), required ''modelCanonicalId'' (TStr None),
       required ''modelStatus'' (TEnum [''deprecated'', ''sunset'']), required ''role'' (TEnum [''default'', ''allowed'', ''fallback''])])]"

definition pipeline_schemas :: "(string \<times> detail_schema) list" where
  "pipeline_schemas =
    [(''request'',
      [required ''status'' (TStr None), optional ''modelRequested'' (TStr None), optional ''modelServed'' (TStr None),
       optional ''latencyMs'' TNum, required ''stream'' TBool]),
     (''blocked_scrubber'', [required ''mode'' (TEnum [''block'']), required ''matches'' TNumbers]),
     (''scrubber_redacted'', matches_schema),
     (''scrubber_warning'', matches_schema),
     (''blocked_policy'', [required ''code'' (TStr None), required ''reason'' (TStr (Some 300))]),
     (''max_tokens_clamped'', [required ''requested'' TNum, required ''served'' TNum]),
     (''response_rejected'',
      [required ''reason'' (TEnum (map reason_name INVALID_RESPONSE_REASONS)), optional ''path'' (TStr (Some 200))]),
     (''response_soft_finding'',
      [required ''reason'' (TEnum [''schema_enum_miss'']), required ''count'' TPosInt, optional ''path'' (TStr (Some 200))]),
     (''provider_error'', [required ''code'' (TStr None), optional ''providerStatus'' TNum, optional ''retryable'' TBool]),
     (''fallback_hop'', [required ''from'' (TStr None), required ''to'' (TStr None), required ''reason'' (TStr (Some 300))]),
     (''capability_upgrade'', [required ''from'' (TStr None), required ''to'' (TStr None), required ''missing'' (TStr (Some 100))]),
     (''breaker_transition'',
      [required ''from'' (TEnum BREAKER_STATES), required ''to'' (TEnum BREAKER_STATES), required ''errorRate'' TNum]),
     (''rate_limited'', [required ''key'' (TEnum [''app_token'', ''user'']), required ''retryAfterSeconds'' TNum]),
     (''budget_soft_warning'',
      [required ''scope'' (TStr None), required ''scopeRef'' (TStr None), required ''period'' (TStr None),
       required ''spentCents'' TNum, required ''limitCents'' TNum])]"

definition EVENT_SCHEMAS :: "(string \<times> detail_schema) list" where
  "EVENT_SCHEMAS = catalog_schemas @ pipeline_schemas"

definition registerAuditEvents :: "(string \<times> detail_schema) list \<Rightarrow> (string \<times> detail_schema) list \<Rightarrow> (string \<times> detail_schema) list" where
  "registerAuditEvents events reg = fold (\<lambda>(n, s). map_set n s) events reg"

text \<open>\<open>schema.parse\<close>: the members of the schema that are present, or an error.\<close>

fun parse_detail :: "detail_schema \<Rightarrow> (string \<times> json) list \<Rightarrow> (string \<times> json) list option" where
  "parse_detail [] d = Some []"
| "parse_detail ((k, opt, t) # fs) d =
     (case obj_get d k of
        None \<Rightarrow> if opt then parse_detail fs d else None
      | Some v \<Rightarrow> if field_ok t v then map_option ((#) (k, v)) (parse_detail fs d) else None)"

section \<open>Writing\<close>

record audit_row =
  ar_ts :: int
  ar_firmId :: string
  ar_event :: string
  ar_detail :: "(string \<times> json) list"
  ar_userId :: "string option"
  ar_app :: "string option"
  ar_taskClass :: "string option"
  ar_model :: "string option"
  ar_provider :: "string option"
  ar_requestHash :: "string option"

definition writeAudit ::
    "(string \<times> detail_schema) list \<Rightarrow> int \<Rightarrow> string option \<Rightarrow> audit_entry \<Rightarrow> audit_row list \<Rightarrow> (thrown, unit) result \<times> audit_row list" where
  "writeAudit reg now userId e rows =
     (case map_of reg (ae_event e) of
        None \<Rightarrow> (Inl (OtherError (''unregistered audit event: '' @ ae_event e)), rows)
      | Some sch \<Rightarrow>
          (case parse_detail sch (ae_detail e) of
             None \<Rightarrow> (Inl (OtherError ''invalid audit detail''), rows)
           | Some det \<Rightarrow>
               (Inr (),
                rows @ [\<lparr>ar_ts = now, ar_firmId = ae_firmId e, ar_event = ae_event e, ar_detail = det, ar_userId = userId,
                         ar_app = ae_app e, ar_taskClass = ae_taskClass e, ar_model = ae_model e,
                         ar_provider = ae_provider e, ar_requestHash = ae_requestHash e\<rparr>])))"

section \<open>Querying\<close>

record audit_query =
  aq_firmId :: string
  aq_from :: "int option"
  aq_to :: "int option"
  aq_event :: "string option"
  aq_app :: "string option"
  aq_userId :: "string option"
  aq_taskClass :: "string option"
  aq_limit :: "nat option"
  aq_offset :: "nat option"

text \<open>A condition on a text column, left out when the wanted text is absent or empty.\<close>

definition wanted :: "string option \<Rightarrow> string option \<Rightarrow> bool" where
  "wanted q v = (case given q of None \<Rightarrow> True | Some s \<Rightarrow> v = Some s)"

definition query_match :: "audit_query \<Rightarrow> audit_row \<Rightarrow> bool" where
  "query_match q r =
     (ar_firmId r = aq_firmId q
      \<and> (case aq_from q of None \<Rightarrow> True | Some t \<Rightarrow> t \<le> ar_ts r)
      \<and> (case aq_to q of None \<Rightarrow> True | Some t \<Rightarrow> ar_ts r \<le> t)
      \<and> wanted (aq_event q) (Some (ar_event r)) \<and> wanted (aq_app q) (ar_app r)
      \<and> wanted (aq_userId q) (ar_userId r) \<and> wanted (aq_taskClass q) (ar_taskClass r))"

definition queryAudit :: "audit_query \<Rightarrow> audit_row list \<Rightarrow> audit_row list" where
  "queryAudit q rows =
     take (min (nullish (aq_limit q) 200) 5000)
       (drop (nullish (aq_offset q) 0) (sort_key (\<lambda>r. - ar_ts r) (filter (query_match q) rows)))"

section \<open>CSV\<close>

text \<open>\<open>/^-?\d+(\.\d+)?$/\<close>\<close>

definition decimal_text :: "string \<Rightarrow> bool" where
  "decimal_text s0 =
     (let s = (case s0 of c # cs \<Rightarrow> if c = CHR ''-'' then cs else s0 | [] \<Rightarrow> []);
          whole = takeWhile is_digit s; rest = dropWhile is_digit s
      in whole \<noteq> [] \<and> (rest = [] \<or> (hd rest = CHR ''.'' \<and> tl rest \<noteq> [] \<and> list_all is_digit (tl rest))))"

definition guard_formula :: "string \<Rightarrow> string" where
  "guard_formula s =
     (case s of
        [] \<Rightarrow> []
      | c # _ \<Rightarrow>
          if c \<in> set ''=+@'' \<or> (c = CHR ''-'' \<and> \<not> decimal_text s) then CHR 0x27 # s else s)"

definition csv_nl :: char where
  "csv_nl = CHR 0x0A"

definition csv_quote :: "string \<Rightarrow> string" where
  "csv_quote s =
     (if dquote \<in> set s \<or> CHR '','' \<in> set s \<or> csv_nl \<in> set s
      then dquote # concat (map (\<lambda>c. if c = dquote then [dquote, dquote] else [c]) s) @ [dquote] else s)"

definition csvEscape :: "string \<Rightarrow> string" where
  "csvEscape s = csv_quote (guard_formula s)"

text \<open>The cells of a row as texts: a missing column is empty, the detail is printed as JSON.\<close>

definition row_cells :: "(int \<Rightarrow> string) \<Rightarrow> audit_row \<Rightarrow> string list" where
  "row_cells tsText r =
     [tsText (ar_ts r), ar_event r, nullish (ar_app r) [], nullish (ar_taskClass r) [], nullish (ar_model r) [],
      nullish (ar_provider r) [], nullish (ar_userId r) [], nullish (ar_requestHash r) [], json_stringify (JObj (ar_detail r))]"

definition csv_header :: string where
  "csv_header = ''ts,event,app,task_class,model,provider,user_id,request_hash,detail''"

definition auditToCsv :: "(int \<Rightarrow> string) \<Rightarrow> audit_row list \<Rightarrow> string" where
  "auditToCsv tsText rows =
     join [csv_nl] (csv_header # map (\<lambda>r. join '','' (map csvEscape (row_cells tsText r))) rows) @ [csv_nl]"

section \<open>Lemmas\<close>

lemma parse_detail_members:
  "parse_detail sch d = Some det \<Longrightarrow> (k, v) \<in> set det \<Longrightarrow> \<exists>opt t. (k, opt, t) \<in> set sch \<and> field_ok t v \<and> obj_get d k = Some v"
proof (induction sch arbitrary: det)
  case (Cons f sch)
  obtain k' opt' t' where f: "f = (k', opt', t')"
    by (cases f)
  show ?case
  proof (cases "obj_get d k'")
    case None
    with Cons f show ?thesis
      by (auto split: if_splits)
  next
    case (Some w)
    with Cons.prems(1) f obtain det' where det: "field_ok t' w" "parse_detail sch d = Some det'" "det = (k', w) # det'"
      by (auto split: if_splits)
    with Cons.prems(2) have "(k = k' \<and> v = w) \<or> (k, v) \<in> set det'"
      by auto
    with Cons.IH [OF det(2)] det Some f show ?thesis
      by auto
  qed
qed simp

text \<open>A reader of CSV as spreadsheets read it: quoted cells, doubled quotes, records ended by a newline.\<close>

fun csv_read :: "bool \<Rightarrow> string \<Rightarrow> string list \<Rightarrow> string \<Rightarrow> string list list" where
  "csv_read q cell row [] = (if cell = [] \<and> row = [] then [] else [row @ [cell]])"
| "csv_read False cell row (c # cs) =
     (if c = csv_nl then (row @ [cell]) # csv_read False [] [] cs
      else if c = CHR '','' then csv_read False [] (row @ [cell]) cs
      else if c = dquote \<and> cell = [] then csv_read True [] row cs
      else csv_read False (cell @ [c]) row cs)"
| "csv_read True cell row (c # cs) =
     (if c = dquote
      then (case cs of
              d # ds \<Rightarrow> if d = dquote then csv_read True (cell @ [dquote]) row ds else csv_read False cell row cs
            | [] \<Rightarrow> csv_read False cell row [])
      else csv_read True (cell @ [c]) row cs)"

lemma read_plain_cell:
  "dquote \<notin> set s \<Longrightarrow> CHR '','' \<notin> set s \<Longrightarrow> csv_nl \<notin> set s
    \<Longrightarrow> csv_read False cell row (s @ rest) = csv_read False (cell @ s) row rest"
  by (induction s arbitrary: cell) auto

lemma read_quoted_cell:
  "csv_read True cell row (concat (map (\<lambda>c. if c = dquote then [dquote, dquote] else [c]) s) @ dquote # d # rest)
    = csv_read False (cell @ s) row (d # rest)" if "d \<noteq> dquote"
  using that by (induction s arbitrary: cell) auto

lemma dquote_facts [simp]: "CHR '','' \<noteq> dquote" "dquote \<noteq> CHR '',''" "csv_nl \<noteq> dquote" "dquote \<noteq> csv_nl"
  "CHR '','' \<noteq> csv_nl" "csv_nl \<noteq> CHR '',''"
  by (simp_all add: dquote_def csv_nl_def)

lemma read_cell:
  assumes "d \<noteq> dquote"
  shows "csv_read False [] row (csvEscape s @ d # rest) = csv_read False (guard_formula s) row (d # rest)"
  using read_plain_cell [of "guard_formula s" "[]" row "d # rest"]
    read_quoted_cell [OF assms, of "[]" row "guard_formula s" rest]
  by (auto simp: csvEscape_def csv_quote_def)

lemma read_row:
  "cells \<noteq> [] \<Longrightarrow> csv_read False [] row (join '','' (map csvEscape cells) @ csv_nl # rest)
    = (row @ map guard_formula cells) # csv_read False [] [] rest"
proof (induction cells arbitrary: row)
  case (Cons c cells)
  show ?case
  proof (cases cells)
    case Nil
    then show ?thesis
      using read_cell [of csv_nl row c rest] by simp
  next
    case (Cons c' cs)
    then show ?thesis
      using read_cell [of "CHR '',''" row c "join '','' (map csvEscape cells) @ csv_nl # rest"] Cons.IH by simp
  qed
qed simp

lemma join_lines: "ls \<noteq> [] \<Longrightarrow> join [csv_nl] ls @ [csv_nl] = concat (map (\<lambda>l. l @ [csv_nl]) ls)"
proof (induction ls)
  case (Cons l ls)
  then show ?case
    by (cases ls) auto
qed simp

definition header_cells :: "string list" where
  "header_cells = [''ts'', ''event'', ''app'', ''task_class'', ''model'', ''provider'', ''user_id'', ''request_hash'', ''detail'']"

lemma header_row: "csv_header = join '','' (map csvEscape header_cells)" "map guard_formula header_cells = header_cells"
  by (simp_all add: csv_header_def header_cells_def csvEscape_def csv_quote_def guard_formula_def csv_nl_def dquote_def)

lemma row_cells_not_Nil [simp]: "row_cells tsText r \<noteq> []"
  by (simp add: row_cells_def)

lemma read_rows:
  "csv_read False [] [] (concat (map (\<lambda>r. join '','' (map csvEscape (row_cells tsText r)) @ [csv_nl]) rows))
    = map (\<lambda>r. map guard_formula (row_cells tsText r)) rows"
  by (induction rows) (simp_all add: read_row)

section \<open>Properties\<close>

text \<open>
  The audit log cannot hold what its registry does not describe: an entry that is written has a
  registered event, every member of the written detail is a member of that event's schema, of its type and
  within its length, and comes from the entry; an unregistered event or a detail that does not fit is refused and
  the log is unchanged.
\<close>

theorem audit_rows_structural:
  "case writeAudit reg now uid e rows of
     (Inl t, rows') \<Rightarrow> rows' = rows
   | (Inr _, rows') \<Rightarrow>
       (\<exists>sch r. map_of reg (ae_event e) = Some sch \<and> rows' = rows @ [r] \<and> ar_event r = ae_event e \<and> ar_firmId r = ae_firmId e
          \<and> (\<forall>k v. (k, v) \<in> set (ar_detail r) \<longrightarrow>
               (\<exists>opt t. (k, opt, t) \<in> set sch \<and> field_ok t v \<and> obj_get (ae_detail e) k = Some v)))"
  using parse_detail_members by (auto simp: writeAudit_def split: option.splits)

text \<open>
  The CSV export can be read back and is safe to open: a spreadsheet reader gets the header and one
  record per row with every cell intact, except that a cell that would start a formula has gained an
  apostrophe; so no cell it sees starts with an equals sign, a plus or an at sign, and none with a minus
  unless it is a number.
\<close>

theorem audit_csv_roundtrip:
  "csv_read False [] [] (auditToCsv tsText rows) = header_cells # map (\<lambda>r. map guard_formula (row_cells tsText r)) rows
   \<and> guard_formula s \<in> {s, CHR 0x27 # s}
   \<and> (\<forall>c cs. guard_formula s = c # cs \<longrightarrow> c \<notin> set ''=+@'' \<and> (c = CHR ''-'' \<longrightarrow> decimal_text (c # cs)))"
proof -
  have "auditToCsv tsText rows = join '','' (map csvEscape header_cells)
      @ csv_nl # concat (map (\<lambda>r. join '','' (map csvEscape (row_cells tsText r)) @ [csv_nl]) rows)"
    by (simp add: auditToCsv_def join_lines header_row comp_def)
  then have "csv_read False [] [] (auditToCsv tsText rows) = header_cells # map (\<lambda>r. map guard_formula (row_cells tsText r)) rows"
    using read_row [of header_cells "[]" "concat (map (\<lambda>r. join '','' (map csvEscape (row_cells tsText r)) @ [csv_nl]) rows)"]
    by (simp add: read_rows header_row) (simp add: header_cells_def)
  then show ?thesis
    by (auto simp: guard_formula_def split: list.splits if_splits)
qed

definition ex_audit :: audit_entry where
  "ex_audit = \<lparr>ae_firmId = ''f'', ae_event = ''max_tokens_clamped'', ae_app = None, ae_taskClass = None, ae_model = None,
     ae_provider = None, ae_requestHash = None,
     ae_detail = [(''requested'', JNum 9), (''prompt'', JStr ''secret''), (''served'', JNum 4)]\<rparr>"

lemma ex_audit_schema: "map_of EVENT_SCHEMAS ''max_tokens_clamped'' = Some [required ''requested'' TNum, required ''served'' TNum]"
  by (simp add: EVENT_SCHEMAS_def catalog_schemas_def pipeline_schemas_def)

theorem audit_rows_structural_witness:
  "\<exists>r v. snd (writeAudit EVENT_SCHEMAS 7 None ex_audit []) = [r] \<and> (''requested'', v) \<in> set (ar_detail r) \<and> field_ok TNum v
     \<and> ''prompt'' \<notin> fst ` set (ar_detail r)"
proof -
  obtain r where w: "writeAudit EVENT_SCHEMAS 7 None ex_audit [] = (Inr (), [r])" "(''requested'', JNum 9) \<in> set (ar_detail r)"
    by (simp add: writeAudit_def ex_audit_def ex_audit_schema obj_get_def)
  have "(k, v) \<in> set (ar_detail r) \<Longrightarrow> k \<in> {''requested'', ''served''}" for k v
    using audit_rows_structural [where reg = EVENT_SCHEMAS and now = 7 and uid = None and e = ex_audit and rows = "[]"] w ex_audit_schema by (fastforce simp: ex_audit_def)
  with w show ?thesis
    by fastforce
qed

theorem audit_csv_roundtrip_witness:
  "\<exists>c cs. guard_formula ''=SUM(A1)'' = c # cs \<and> c \<notin> set ''=+@''"
  using audit_csv_roundtrip [where tsText = "\<lambda>_. []" and rows = "[]" and s = "''=SUM(A1)''"] by (cases "guard_formula ''=SUM(A1)''") auto

end
