(* ===== verification/Base64.thy ===== *)
theory Base64
  imports Prelude
begin

text \<open>
  The base64 codec of the runtime's \<open>Buffer\<close>, as the credential vault uses it: encoding with padding, and the
  decoder, which skips characters outside the alphabet, accepts the URL variants and stops at the padding.
\<close>

definition b64_char :: "nat \<Rightarrow> char" where
  "b64_char k =
     (if k < 26 then char_of (65 + k) else if k < 52 then char_of (71 + k) else if k < 62 then char_of (k - 4)
      else if k = 62 then CHR ''+'' else CHR ''/'')"

definition sextet :: "char \<Rightarrow> nat option" where
  "sextet c =
     (let n = char_code c
      in if 65 \<le> n \<and> n \<le> 90 then Some (n - 65)
         else if 97 \<le> n \<and> n \<le> 122 then Some (n - 71)
         else if 48 \<le> n \<and> n \<le> 57 then Some (n + 4)
         else if c = CHR ''+'' \<or> c = CHR ''-'' then Some 62
         else if c = CHR ''/'' \<or> c = CHR ''_'' then Some 63 else None)"

fun b64_sextets :: "nat list \<Rightarrow> nat list" where
  "b64_sextets (a # b # c # rest) =
     [a div 4, a mod 4 * 16 + b div 16, b mod 16 * 4 + c div 64, c mod 64] @ b64_sextets rest"
| "b64_sextets [a, b] = [a div 4, a mod 4 * 16 + b div 16, b mod 16 * 4]"
| "b64_sextets [a] = [a div 4, a mod 4 * 16]"
| "b64_sextets [] = []"

definition b64_padding :: "nat \<Rightarrow> string" where
  "b64_padding n = (if n mod 3 = 1 then ''=='' else if n mod 3 = 2 then ''='' else [])"

definition b64_encode :: "string \<Rightarrow> string" where
  "b64_encode s = map b64_char (b64_sextets (map char_code s)) @ b64_padding (length s)"

fun b64_bytes :: "nat list \<Rightarrow> nat list" where
  "b64_bytes (p # q # r # s # rest) = [p * 4 + q div 16, q mod 16 * 16 + r div 4, r mod 4 * 64 + s] @ b64_bytes rest"
| "b64_bytes [p, q, r] = [p * 4 + q div 16, q mod 16 * 16 + r div 4]"
| "b64_bytes [p, q] = [p * 4 + q div 16]"
| "b64_bytes _ = []"

definition b64_decode :: "string \<Rightarrow> string" where
  "b64_decode s = map char_of (b64_bytes (List.map_filter sextet (takeWhile (\<lambda>c. c \<noteq> CHR ''='') s)))"

section \<open>Decoding undoes encoding\<close>

lemma sextet_char: "k < 64 \<Longrightarrow> sextet (b64_char k) = Some k"
  by (auto simp: b64_char_def sextet_def Let_def char_code_def)

lemma b64_char_no_pad: "k < 64 \<Longrightarrow> b64_char k \<noteq> CHR ''=''"
  using sextet_char [of k] by (auto simp: sextet_def char_code_def)

lemma sextets_bound: "\<forall>x\<in>set xs. x < 256 \<Longrightarrow> k \<in> set (b64_sextets xs) \<Longrightarrow> k < 64"
proof (induction xs rule: b64_sextets.induct)
  case (1 a b c rest)
  then have "a div 4 < 64" "b div 16 < 16" "c div 64 < 4" "c mod 64 < 64" "a mod 4 < 4" "b mod 16 < 16"
    by auto
  with 1 show ?case
    by auto
next
  case (2 a b)
  then have "a div 4 < 64" "b div 16 < 16" "a mod 4 < 4" "b mod 16 < 16"
    by auto
  with 2 show ?case
    by auto
next
  case (3 a)
  then have "a div 4 < 64" "a mod 4 < 4"
    by auto
  with 3 show ?case
    by auto
qed simp

lemma bytes_sextets: "\<forall>x\<in>set xs. x < 256 \<Longrightarrow> b64_bytes (b64_sextets xs) = xs"
proof (induction xs rule: b64_sextets.induct)
  case (1 a b c rest)
  then have "b div 16 < 16" "c div 64 < 4"
    by auto
  then have "(a mod 4 * 16 + b div 16) div 16 = a mod 4" "(a mod 4 * 16 + b div 16) mod 16 = b div 16"
    "(b mod 16 * 4 + c div 64) div 4 = b mod 16" "(b mod 16 * 4 + c div 64) mod 4 = c div 64"
    by auto
  with 1 show ?case
    by simp
next
  case (2 a b)
  then have "b div 16 < 16"
    by auto
  then have "(a mod 4 * 16 + b div 16) div 16 = a mod 4" "(a mod 4 * 16 + b div 16) mod 16 = b div 16"
    by auto
  then show ?case
    by simp
qed simp_all

lemma takeWhile_pad: "\<forall>c\<in>set xs. c \<noteq> CHR ''='' \<Longrightarrow> takeWhile (\<lambda>c. c \<noteq> CHR ''='') (xs @ b64_padding n) = xs"
  by (simp add: b64_padding_def takeWhile_append)

lemma map_filter_back: "(\<And>k. k \<in> set ks \<Longrightarrow> f (g k) = Some k) \<Longrightarrow> List.map_filter f (map g ks) = ks"
  by (induction ks) (simp_all add: map_filter_simps)

lemma b64_roundtrip: "b64_decode (b64_encode s) = s"
proof -
  have bytes: "\<forall>x\<in>set (map char_code s). x < 256"
    by (auto simp: char_code_def)
  then have "List.map_filter sextet (map b64_char (b64_sextets (map char_code s))) = b64_sextets (map char_code s)"
    using sextets_bound sextet_char by (intro map_filter_back) blast
  moreover have "\<forall>c\<in>set (map b64_char (b64_sextets (map char_code s))). c \<noteq> CHR ''=''"
    using sextets_bound [OF bytes] b64_char_no_pad by auto
  ultimately show ?thesis
    by (simp add: b64_decode_def b64_encode_def takeWhile_pad bytes_sextets [OF bytes] comp_def char_code_def)
qed

end
