(* ===== verification/Vault.thy ===== *)
theory Vault
  imports Audit_Log Base64 Json_Roundtrip
begin

text \<open>
  The credential vault: the envelope encryption of \<^verbatim>\<open>src/src/vault/crypto.ts\<close> and the credential lifecycle of
  \<^verbatim>\<open>src/src/vault/service.ts\<close>. AES-256-GCM and the random bytes are arguments; a text is its bytes. A call runs to its
  end before the next one starts: the code takes no transaction, and \<open>concurrent_promotes_leave_two_active\<close> below
  shows what two interleaved promotions can do. Adapter, clock and fresh row ids are arguments.
\<close>

section \<open>Envelope encryption\<close>

text \<open>The cipher: key, nonce, text to data and tag; and back, failing when the tag does not match.\<close>

record gcm =
  gcm_enc :: "string \<Rightarrow> string \<Rightarrow> string \<Rightarrow> string \<times> string"
  gcm_dec :: "string \<Rightarrow> string \<Rightarrow> string \<Rightarrow> string \<Rightarrow> string option"

record keyring =
  kr_keys :: "(int, string) jsmap"
  kr_currentVersion :: int

record key_env =
  MASTER_KEY :: "string option"
  MASTER_KEY_VERSION :: "int option"
  MASTER_KEY_PREVIOUS :: "string option"
  MASTER_KEY_PREVIOUS_VERSION :: "int option"

definition keyringFromEnv :: "key_env \<Rightarrow> (thrown, keyring option) result" where
  "keyringFromEnv env =
     (case given (MASTER_KEY env) of
        None \<Rightarrow> Inr None
      | Some mk \<Rightarrow>
          (let current = b64_decode mk
           in if length current \<noteq> 32
              then Inl (OtherError ''MASTER_KEY must be 32 bytes base64 (openssl rand -base64 32)'')
              else
                (let currentVersion = nullish (MASTER_KEY_VERSION env) 1;
                     keys = [(currentVersion, current)]
                 in case given (MASTER_KEY_PREVIOUS env) of
                      None \<Rightarrow> Inr (Some \<lparr>kr_keys = keys, kr_currentVersion = currentVersion\<rparr>)
                    | Some pk \<Rightarrow>
                        (let prev = b64_decode pk;
                             prevVersion = nullish (MASTER_KEY_PREVIOUS_VERSION env) (currentVersion - 1)
                         in if length prev \<noteq> 32 then Inl (OtherError ''MASTER_KEY_PREVIOUS must be 32 bytes base64'')
                            else if prevVersion = currentVersion
                            then Inl (OtherError ''MASTER_KEY_PREVIOUS_VERSION must differ from MASTER_KEY_VERSION'')
                            else Inr (Some \<lparr>kr_keys = map_set prevVersion prev keys, kr_currentVersion = currentVersion\<rparr>)))))"

definition seal :: "gcm \<Rightarrow> string \<Rightarrow> string \<Rightarrow> string \<Rightarrow> json" where
  "seal g key iv plaintext =
     (let (dat, tag) = gcm_enc g key iv plaintext
      in JObj [(''iv'', JStr (b64_encode iv)), (''tag'', JStr (b64_encode tag)), (''data'', JStr (b64_encode dat))])"

definition bytes_member :: "string \<Rightarrow> json \<Rightarrow> string option" where
  "bytes_member k v = (case jget v k of Some (JStr s) \<Rightarrow> Some (b64_decode s) | _ \<Rightarrow> None)"

definition gcm_failure :: thrown where
  "gcm_failure = OtherError ''Unsupported state or unable to authenticate data''"

definition open_box :: "gcm \<Rightarrow> string \<Rightarrow> json option \<Rightarrow> (thrown, string) result" where
  "open_box g key box =
     (case (Option.bind box (bytes_member ''iv''), Option.bind box (bytes_member ''tag''), Option.bind box (bytes_member ''data'')) of
        (Some iv, Some tag, Some dat) \<Rightarrow>
          (case gcm_dec g key iv tag dat of None \<Rightarrow> Inl gcm_failure | Some p \<Rightarrow> Inr p)
      | _ \<Rightarrow> Inl (OtherError ''invalid argument''))"

text \<open>The random bytes an encryption draws: the data key and the two nonces.\<close>

record entropy =
  en_dek :: string
  en_ivDek :: string
  en_ivPayload :: string

definition encryptCredential :: "gcm \<Rightarrow> entropy \<Rightarrow> string \<Rightarrow> keyring \<Rightarrow> (thrown, string \<times> int) result" where
  "encryptCredential g en plaintext ring =
     (case map_get (kr_keys ring) (kr_currentVersion ring) of
        None \<Rightarrow> Inl (OtherError ''keyring missing current master key'')
      | Some master \<Rightarrow>
          Inr (b64_encode (json_stringify (JObj
                 [(''alg'', JStr ''A256GCM''), (''dek'', seal g master (en_ivDek en) (en_dek en)),
                  (''payload'', seal g (en_dek en) (en_ivPayload en) plaintext)])), kr_currentVersion ring))"

definition decryptCredential :: "gcm \<Rightarrow> string \<Rightarrow> int \<Rightarrow> keyring \<Rightarrow> (thrown, string) result" where
  "decryptCredential g ciphertext keyVersion ring =
     (case map_get (kr_keys ring) keyVersion of
        None \<Rightarrow> Inl (OtherError (''no master key for key_version '' @ show_int keyVersion))
      | Some master \<Rightarrow>
          (case json_parse (b64_decode ciphertext) of
             None \<Rightarrow> Inl (OtherError ''credential envelope is corrupt'')
           | Some envelope \<Rightarrow>
               if jget envelope ''alg'' \<noteq> Some (JStr ''A256GCM'') then Inl (OtherError ''unsupported envelope alg'')
               else rbind (open_box g master (jget envelope ''dek'')) (\<lambda>dek. open_box g dek (jget envelope ''payload''))))"

fun set_member :: "string \<Rightarrow> json \<Rightarrow> json \<Rightarrow> json" where
  "set_member k v (JObj ms) = JObj (map_set k v ms)"
| "set_member k v j = JObj [(k, v)]"

definition rewrapCredential :: "gcm \<Rightarrow> string \<Rightarrow> string \<Rightarrow> int \<Rightarrow> keyring \<Rightarrow> (thrown, string \<times> int) result" where
  "rewrapCredential g iv ciphertext keyVersion ring =
     (case (map_get (kr_keys ring) keyVersion, map_get (kr_keys ring) (kr_currentVersion ring)) of
        (Some master, Some target) \<Rightarrow>
          (case json_parse (b64_decode ciphertext) of
             None \<Rightarrow> Inl (OtherError ''Unexpected token in JSON'')
           | Some envelope \<Rightarrow>
               rbind (open_box g master (jget envelope ''dek'')) (\<lambda>dek.
                 Inr (b64_encode (json_stringify (set_member ''dek'' (seal g target iv dek) envelope)), kr_currentVersion ring)))
      | _ \<Rightarrow> Inl (OtherError ''keyring missing source or target master key''))"

definition last4 :: "string \<Rightarrow> string" where
  "last4 secret = (if length secret \<le> 4 then ''****'' else drop (length secret - 4) secret)"

section \<open>Credentials\<close>

datatype credential_status = CActive | CGrace | CRevoked

fun credential_status_name :: "credential_status \<Rightarrow> string" where
  "credential_status_name CActive = ''active''"
| "credential_status_name CGrace = ''grace''"
| "credential_status_name CRevoked = ''revoked''"

record credential_row =
  crd_id :: string
  crd_providerId :: string
  crd_ciphertext :: string
  crd_keyVersion :: int
  crd_last4 :: string
  crd_status :: credential_status
  crd_graceUntil :: "int option"
  crd_createdBy :: "string option"
  crd_rotatedFrom :: "string option"
  crd_createdAt :: int

record credential_meta =
  cmt_id :: string
  cmt_providerId :: string
  cmt_last4 :: string
  cmt_status :: credential_status
  cmt_keyVersion :: int
  cmt_graceUntil :: "int option"
  cmt_createdAt :: int

definition toMeta :: "credential_row \<Rightarrow> credential_meta" where
  "toMeta r =
     \<lparr>cmt_id = crd_id r, cmt_providerId = crd_providerId r, cmt_last4 = crd_last4 r, cmt_status = crd_status r,
      cmt_keyVersion = crd_keyVersion r, cmt_graceUntil = crd_graceUntil r, cmt_createdAt = crd_createdAt r\<rparr>"

text \<open>What the vault holds and shares: the rows, the audit log; and what it was built with.\<close>

record vault_state =
  vs_credentials :: "credential_row list"
  vs_audit :: "audit_row list"

record vault_cfg =
  vc_gcm :: gcm
  vc_ring :: keyring
  vc_graceHours :: int
  vc_providers :: "provider_row list"
  vc_now :: int
  vc_dateText :: "int \<Rightarrow> string"

definition find_provider :: "vault_cfg \<Rightarrow> string \<Rightarrow> provider_row option" where
  "find_provider vc pid = find_first (\<lambda>p. prv_id p = pid) (vc_providers vc)"

definition find_credential :: "string \<Rightarrow> vault_state \<Rightarrow> credential_row option" where
  "find_credential cid s = find_first (\<lambda>r. crd_id r = cid) (vs_credentials s)"

definition active_credential :: "string \<Rightarrow> vault_state \<Rightarrow> credential_row option" where
  "active_credential pid s = find_first (\<lambda>r. crd_providerId r = pid \<and> crd_status r = CActive) (vs_credentials s)"

text \<open>\<open>update ... set ... where id\<close>\<close>

definition update_credential :: "string \<Rightarrow> (credential_row \<Rightarrow> credential_row) \<Rightarrow> vault_state \<Rightarrow> vault_state" where
  "update_credential cid f s = s\<lparr>vs_credentials := map (\<lambda>r. if crd_id r = cid then f r else r) (vs_credentials s)\<rparr>"

definition config_entry :: "provider_row \<Rightarrow> string \<Rightarrow> string \<Rightarrow> (string \<times> json) list \<Rightarrow> audit_entry" where
  "config_entry p cid action rest =
     \<lparr>ae_firmId = prv_firmId p, ae_event = ''config_change'', ae_app = None, ae_taskClass = None, ae_model = None,
      ae_provider = Some (prv_label p), ae_requestHash = None,
      ae_detail = [(''entity'', JStr ''provider_credential''), (''entityId'', JStr cid), (''action'', JStr action)] @ rest\<rparr>"

definition log_change :: "vault_cfg \<Rightarrow> audit_entry \<Rightarrow> vault_state \<Rightarrow> (thrown, unit) result \<times> vault_state" where
  "log_change vc e s =
     (let (out, rows) = writeAudit EVENT_SCHEMAS (vc_now vc) None e (vs_audit s) in (out, s\<lparr>vs_audit := rows\<rparr>))"

definition invalid :: "string \<Rightarrow> thrown" where
  "invalid m = Routed (router_error0 invalid_request m)"

definition new_credential ::
    "vault_cfg \<Rightarrow> string \<Rightarrow> string \<Rightarrow> string \<times> int \<Rightarrow> string \<Rightarrow> string option \<Rightarrow> vault_state \<Rightarrow> credential_row" where
  "new_credential vc fresh pid sealed plaintext createdBy s =
     \<lparr>crd_id = fresh, crd_providerId = pid, crd_ciphertext = fst sealed, crd_keyVersion = snd sealed,
      crd_last4 = last4 plaintext, crd_status = (if active_credential pid s \<noteq> None then CGrace else CActive),
      crd_graceUntil = None, crd_createdBy = createdBy, crd_rotatedFrom = map_option crd_id (active_credential pid s),
      crd_createdAt = vc_now vc\<rparr>"

definition vault_add ::
    "vault_cfg \<Rightarrow> entropy \<Rightarrow> string \<Rightarrow> string \<Rightarrow> string \<Rightarrow> string option \<Rightarrow> vault_state
      \<Rightarrow> (thrown, credential_meta) result \<times> vault_state" where
  "vault_add vc en fresh pid plaintext createdBy s =
     (if length plaintext < 8 then (Inl (invalid ''credential too short''), s)
      else
        (case find_provider vc pid of
           None \<Rightarrow> (Inl (invalid ''provider not found''), s)
         | Some p \<Rightarrow>
             if prv_deletedAt p \<noteq> None then (Inl (invalid ''provider not found''), s)
             else
               (case encryptCredential (vc_gcm vc) en plaintext (vc_ring vc) of
                  Inl t \<Rightarrow> (Inl t, s)
                | Inr sealed \<Rightarrow>
                    (let row = new_credential vc fresh pid sealed plaintext createdBy s;
                         s1 = s\<lparr>vs_credentials := vs_credentials s @ [row]\<rparr>;
                         (out, s2) = log_change vc (config_entry p fresh ''create''
                           [(''after'', JObj [(''last4'', JStr (crd_last4 row)), (''status'', JStr (credential_status_name (crd_status row))),
                              (''key_version'', JNum (of_int (crd_keyVersion row)))])]) s1
                     in (rbind out (\<lambda>_. Inr (toMeta row)), s2)))))"

text \<open>The two updates of a promotion, given the row that was active when it looked.\<close>

definition promote_rows :: "int \<Rightarrow> string \<Rightarrow> credential_row option \<Rightarrow> vault_state \<Rightarrow> vault_state" where
  "promote_rows graceUntil cid currentActive s =
     update_credential cid (\<lambda>r. r\<lparr>crd_status := CActive, crd_graceUntil := None\<rparr>)
       (case currentActive of
          None \<Rightarrow> s
        | Some a \<Rightarrow> update_credential (crd_id a) (\<lambda>r. r\<lparr>crd_status := CGrace, crd_graceUntil := Some graceUntil\<rparr>) s)"

definition vault_promote :: "vault_cfg \<Rightarrow> string \<Rightarrow> vault_state \<Rightarrow> (thrown, credential_meta) result \<times> vault_state" where
  "vault_promote vc cid s =
     (case find_credential cid s of
        None \<Rightarrow> (Inl (invalid ''credential not found''), s)
      | Some cred \<Rightarrow>
          if crd_status cred = CRevoked then (Inl (invalid ''credential is revoked''), s)
          else if crd_status cred = CActive then (Inr (toMeta cred), s)
          else
            (case find_provider vc (crd_providerId cred) of
               None \<Rightarrow> (Inl (invalid ''provider not found''), s)
             | Some p \<Rightarrow>
                 (let graceUntil = vc_now vc + vc_graceHours vc * 3600000;
                      currentActive = active_credential (crd_providerId cred) s;
                      s1 = promote_rows graceUntil cid currentActive s;
                      (out, s2) = log_change vc (config_entry p cid ''promote''
                        [(''before'', case currentActive of
                             Some a \<Rightarrow> JObj [(''demoted'', JStr (crd_id a)), (''grace_until'', JStr (vc_dateText vc graceUntil))]
                           | None \<Rightarrow> JObj []),
                         (''after'', JObj [(''status'', JStr ''active'')])]) s1
                  in (rbind out (\<lambda>_. Inr (toMeta (cred\<lparr>crd_status := CActive, crd_graceUntil := None\<rparr>))), s2))))"

definition vault_revoke :: "vault_cfg \<Rightarrow> string \<Rightarrow> vault_state \<Rightarrow> (thrown, unit) result \<times> vault_state" where
  "vault_revoke vc cid s =
     (case find_credential cid s of
        None \<Rightarrow> (Inl (invalid ''credential not found''), s)
      | Some cred \<Rightarrow>
          (let s1 = update_credential cid (\<lambda>r. r\<lparr>crd_status := CRevoked\<rparr>) s
           in case find_provider vc (crd_providerId cred) of
                None \<Rightarrow> (Inr (), s1)
              | Some p \<Rightarrow> log_change vc (config_entry p cid ''revoke'' []) s1))"

definition expired :: "int \<Rightarrow> credential_row \<Rightarrow> bool" where
  "expired now r = (crd_status r = CGrace \<and> (case crd_graceUntil r of None \<Rightarrow> False | Some t \<Rightarrow> t < now))"

definition log_expired :: "vault_cfg \<Rightarrow> credential_row \<Rightarrow> (thrown, unit) result \<times> vault_state \<Rightarrow> (thrown, unit) result \<times> vault_state" where
  "log_expired vc r acc =
     (case acc of
        (Inl t, s) \<Rightarrow> (Inl t, s)
      | (Inr _, s) \<Rightarrow>
          (case find_provider vc (crd_providerId r) of
             None \<Rightarrow> (Inr (), s)
           | Some p \<Rightarrow> log_change vc (config_entry p (crd_id r) ''revoke''
                         [(''after'', JObj [(''reason'', JStr ''grace_expired'')])]) s))"

definition autoRevokeExpired :: "vault_cfg \<Rightarrow> vault_state \<Rightarrow> (thrown, nat) result \<times> vault_state" where
  "autoRevokeExpired vc s =
     (let gone = filter (expired (vc_now vc)) (vs_credentials s);
          s1 = s\<lparr>vs_credentials := map (\<lambda>r. if expired (vc_now vc) r then r\<lparr>crd_status := CRevoked\<rparr> else r) (vs_credentials s)\<rparr>;
          (out, s2) = fold (log_expired vc) gone (Inr (), s1)
      in (rbind out (\<lambda>_. Inr (length gone)), s2))"

definition vault_list :: "string \<Rightarrow> vault_state \<Rightarrow> credential_meta list" where
  "vault_list pid s = map toMeta (sort_key crd_createdAt (filter (\<lambda>r. crd_providerId r = pid) (vs_credentials s)))"

definition decrypt_row :: "vault_cfg \<Rightarrow> credential_row \<Rightarrow> (thrown, string) result" where
  "decrypt_row vc r = decryptCredential (vc_gcm vc) (crd_ciphertext r) (crd_keyVersion r) (vc_ring vc)"

definition getActiveApiKey :: "vault_cfg \<Rightarrow> string \<Rightarrow> vault_state \<Rightarrow> (thrown, string option) result" where
  "getActiveApiKey vc pid s =
     (case active_credential pid s of
        None \<Rightarrow> Inr None
      | Some r \<Rightarrow> rbind (decrypt_row vc r) (\<lambda>k. Inr (Some k)))"

text \<open>The key a connection test uses: the named credential, else the active one, else a staged one.\<close>

definition test_credential :: "string option \<Rightarrow> string \<Rightarrow> vault_state \<Rightarrow> credential_row option" where
  "test_credential cid pid s =
     (case given cid of
        Some i \<Rightarrow> find_credential i s
      | None \<Rightarrow>
          (case active_credential pid s of
             Some r \<Rightarrow> Some r
           | None \<Rightarrow> find_first (\<lambda>r. crd_providerId r = pid \<and> crd_status r = CGrace \<and> crd_graceUntil r = None) (vs_credentials s)))"

fun thrown_text :: "thrown \<Rightarrow> string" where
  "thrown_text (Routed e) = message e"
| "thrown_text (OtherError m) = m"
| "thrown_text NonError = ''undefined''"

definition startup_failures :: "vault_cfg \<Rightarrow> credential_row list \<Rightarrow> string list" where
  "startup_failures vc rows =
     List.map_filter (\<lambda>r. case decrypt_row vc r of
         Inr k \<Rightarrow> None
       | Inl t \<Rightarrow> Some (crd_id r @ '' (key_version '' @ show_int (crd_keyVersion r) @ ''): '' @ thrown_text t)) rows"

definition startupCheck :: "vault_cfg \<Rightarrow> vault_state \<Rightarrow> (thrown, nat) result" where
  "startupCheck vc s =
     (let rows = filter (\<lambda>r. crd_status r \<in> {CActive, CGrace}) (vs_credentials s);
          failures = startup_failures vc rows
      in if failures \<noteq> []
         then Inl (OtherError (''credential vault startup check failed '' @ em_dash @ '' '' @ show_nat (length failures)
                @ '' credential(s) cannot decrypt:'' @ [CHR 0x0A] @ join [CHR 0x0A] failures))
         else Inr (length rows))"

section \<open>The envelope\<close>

text \<open>What the cipher promises: opening with the key, nonce and tag of a seal gives the text back.\<close>

definition gcm_ok :: "gcm \<Rightarrow> bool" where
  "gcm_ok g \<longleftrightarrow> (\<forall>k iv p. gcm_dec g k iv (snd (gcm_enc g k iv p)) (fst (gcm_enc g k iv p)) = Some p)"

lemma open_seal: "gcm_ok g \<Longrightarrow> open_box g k (Some (seal g k iv p)) = Inr p"
  by (simp add: open_box_def seal_def bytes_member_def obj_get_def b64_roundtrip gcm_ok_def case_prod_beta)

lemma seal_plain [simp]: "plain_json (seal g k iv p)"
  by (simp add: seal_def case_prod_beta)

lemma envelope_back: "plain_json j \<Longrightarrow> json_parse (b64_decode (b64_encode (json_stringify j))) = Some j"
  by (simp add: b64_roundtrip json_roundtrip)

definition envelope_of :: "json \<Rightarrow> json \<Rightarrow> json" where
  "envelope_of dek payload = JObj [(''alg'', JStr ''A256GCM''), (''dek'', dek), (''payload'', payload)]"

lemma envelope_of_facts [simp]:
  "jget (envelope_of d p) ''alg'' = Some (JStr ''A256GCM'')" "jget (envelope_of d p) ''dek'' = Some d"
  "jget (envelope_of d p) ''payload'' = Some p" "set_member ''dek'' d' (envelope_of d p) = envelope_of d' p"
  "plain_json (envelope_of d p) \<longleftrightarrow> plain_json d \<and> plain_json p"
  by (simp_all add: envelope_of_def obj_get_def)

lemma decrypt_envelope:
  assumes "gcm_ok g" "map_get (kr_keys ring) v = Some master"
  shows "decryptCredential g (b64_encode (json_stringify (envelope_of (seal g master iv dek) (seal g dek iv' p)))) v ring = Inr p"
  using assms by (simp add: decryptCredential_def envelope_back open_seal)

section \<open>The audit never refuses\<close>

lemma config_schema: "map_of EVENT_SCHEMAS ''config_change'' =
  Some [required ''entity'' (TStr None), optional ''entityId'' (TStr None),
       required ''action'' (TEnum [''create'', ''update'', ''delete'', ''rotate'', ''promote'', ''revoke'']),
       optional ''before'' TPrimitives, optional ''after'' TPrimitives]"
  by (simp add: EVENT_SCHEMAS_def catalog_schemas_def)

lemma log_rows [simp]: "vs_credentials (snd (log_change vc e s)) = vs_credentials s"
  by (simp add: log_change_def case_prod_beta)

lemmas log_eval = log_change_def writeAudit_def config_entry_def config_schema obj_get_def in_limit_def case_prod_beta

lemma log_config:
  "action \<in> {''create'', ''promote'', ''revoke''} \<Longrightarrow> fst (log_change vc (config_entry p cid action []) s) = Inr ()"
  "action \<in> {''create'', ''promote'', ''revoke''} \<Longrightarrow> field_ok TPrimitives a
    \<Longrightarrow> fst (log_change vc (config_entry p cid action [(''after'', a)]) s) = Inr ()"
  "action \<in> {''create'', ''promote'', ''revoke''} \<Longrightarrow> field_ok TPrimitives b \<Longrightarrow> field_ok TPrimitives a
    \<Longrightarrow> fst (log_change vc (config_entry p cid action [(''before'', b), (''after'', a)]) s) = Inr ()"
  by (auto simp: log_eval)

section \<open>Runs of the vault\<close>

text \<open>The calls the service makes on the vault, with their clock, random bytes and fresh ids.\<close>

datatype vault_call =
    VAdd int entropy string string string "string option"
  | VPromote int string
  | VRevoke int string
  | VExpire int

fun vault_step :: "vault_cfg \<Rightarrow> vault_call \<Rightarrow> vault_state \<Rightarrow> vault_state" where
  "vault_step vc (VAdd t en fresh pid pt by) s = snd (vault_add (vc\<lparr>vc_now := t\<rparr>) en fresh pid pt by s)"
| "vault_step vc (VPromote t cid) s = snd (vault_promote (vc\<lparr>vc_now := t\<rparr>) cid s)"
| "vault_step vc (VRevoke t cid) s = snd (vault_revoke (vc\<lparr>vc_now := t\<rparr>) cid s)"
| "vault_step vc (VExpire t) s = snd (autoRevokeExpired (vc\<lparr>vc_now := t\<rparr>) s)"

text \<open>A fresh id is not in use.\<close>

fun vault_legal :: "vault_state \<Rightarrow> vault_call \<Rightarrow> bool" where
  "vault_legal s (VAdd t en fresh pid pt by) = (fresh \<notin> crd_id ` set (vs_credentials s))"
| "vault_legal s c = True"

definition empty_vault :: vault_state where
  "empty_vault = \<lparr>vs_credentials = [], vs_audit = []\<rparr>"

definition is_active :: "string \<Rightarrow> credential_row \<Rightarrow> bool" where
  "is_active pid r \<longleftrightarrow> crd_providerId r = pid \<and> crd_status r = CActive"

definition rows_ok :: "vault_cfg \<Rightarrow> credential_row list \<Rightarrow> bool" where
  "rows_ok vc rs \<longleftrightarrow> distinct (map crd_id rs)
     \<and> (\<forall>r\<in>set rs. \<forall>r'\<in>set rs. \<forall>pid. is_active pid r \<longrightarrow> is_active pid r' \<longrightarrow> r = r')
     \<and> (\<forall>r\<in>set rs. \<exists>k. decrypt_row vc r = Inr k)"

definition vault_inv :: "vault_cfg \<Rightarrow> vault_state \<Rightarrow> bool" where
  "vault_inv vc s \<longleftrightarrow> rows_ok vc (vs_credentials s)"

lemma decrypt_row_now [simp]: "decrypt_row (vc\<lparr>vc_now := t\<rparr>) = decrypt_row vc"
  by (simp add: decrypt_row_def fun_eq_iff)

lemma rows_ok_now [simp]: "rows_ok (vc\<lparr>vc_now := t\<rparr>) = rows_ok vc"
  by (simp add: rows_ok_def fun_eq_iff)

lemma decrypt_row_status [simp]:
  "decrypt_row vc (r\<lparr>crd_status := st\<rparr>) = decrypt_row vc r" "decrypt_row vc (r\<lparr>crd_graceUntil := g\<rparr>) = decrypt_row vc r"
  by (simp_all add: decrypt_row_def)

text \<open>A change of rows in place that activates none keeps the invariant.\<close>

lemma rows_ok_map:
  assumes "rows_ok vc rs"
    and "\<And>r. crd_id (f r) = crd_id r" "\<And>r. decrypt_row vc (f r) = decrypt_row vc r"
    and "\<And>r pid. r \<in> set rs \<Longrightarrow> is_active pid (f r) \<Longrightarrow> is_active pid r"
  shows "rows_ok vc (map f rs)"
proof -
  have "f r = f r'" if "r \<in> set rs" "r' \<in> set rs" "is_active pid (f r)" "is_active pid (f r')" for r r' pid
    using that assms(1,4) by (metis rows_ok_def)
  with assms(1-3) show ?thesis
    by (auto simp: rows_ok_def comp_def)
qed

lemma active_None: "active_credential pid s = None \<longleftrightarrow> (\<forall>r\<in>set (vs_credentials s). \<not> is_active pid r)"
  by (auto simp: active_credential_def find_first_None is_active_def)

lemma active_Some: "active_credential pid s = Some r \<Longrightarrow> r \<in> set (vs_credentials s) \<and> is_active pid r"
  by (auto simp: active_credential_def is_active_def dest: find_first_Some)

lemma id_unique: "rows_ok vc rs \<Longrightarrow> r \<in> set rs \<Longrightarrow> r' \<in> set rs \<Longrightarrow> crd_id r = crd_id r' \<Longrightarrow> r = r'"
  by (simp add: rows_ok_def) (metis distinct_map inj_onD)

text \<open>The row that was active steps down: no row of the provider is active any more.\<close>

definition step_down :: "int \<Rightarrow> credential_row option \<Rightarrow> vault_state \<Rightarrow> vault_state" where
  "step_down g currentActive s =
     (case currentActive of
        None \<Rightarrow> s
      | Some a \<Rightarrow> update_credential (crd_id a) (\<lambda>r. r\<lparr>crd_status := CGrace, crd_graceUntil := Some g\<rparr>) s)"

lemma step_down_ok:
  fixes g :: int and pid :: string
  assumes ok: "rows_ok vc (vs_credentials s)"
  defines "s' \<equiv> step_down g (active_credential pid s) s"
  shows "rows_ok vc (vs_credentials s')" "\<forall>r\<in>set (vs_credentials s'). \<not> is_active pid r"
    "\<lbrakk>cred \<in> set (vs_credentials s); \<not> is_active pid cred\<rbrakk> \<Longrightarrow> cred \<in> set (vs_credentials s')"
proof -
  show "rows_ok vc (vs_credentials s')"
    using ok by (auto simp: s'_def step_down_def update_credential_def is_active_def intro!: rows_ok_map split: option.splits if_splits)
  show "\<forall>r\<in>set (vs_credentials s'). \<not> is_active pid r"
  proof (cases "active_credential pid s")
    case None
    then show ?thesis
      by (simp add: s'_def step_down_def) (simp add: active_None)
  next
    case (Some a)
    with ok active_Some have "r = a" if "r \<in> set (vs_credentials s)" "is_active pid r" for r
      using that by (metis rows_ok_def)
    with Some show ?thesis
      by (auto simp: s'_def step_down_def update_credential_def is_active_def)
  qed
  assume cred: "cred \<in> set (vs_credentials s)" "\<not> is_active pid cred"
  show "cred \<in> set (vs_credentials s')"
  proof (cases "active_credential pid s")
    case (Some a)
    with cred active_Some id_unique [OF ok] have "crd_id cred \<noteq> crd_id a"
      by blast
    with cred Some show ?thesis
      by (auto simp: s'_def step_down_def update_credential_def intro!: image_eqI [of _ _ cred])
  qed (use cred in \<open>simp add: s'_def step_down_def\<close>)
qed

text \<open>A row taking over where none of its provider is active.\<close>

lemma take_over:
  assumes ok: "rows_ok vc rs" and there: "cred \<in> set rs" and none: "\<forall>r\<in>set rs. \<not> is_active (crd_providerId cred) r"
  defines "up \<equiv> \<lambda>r. if crd_id r = crd_id cred then r\<lparr>crd_status := CActive, crd_graceUntil := None\<rparr> else r"
  shows "rows_ok vc (map up rs)" "find_first (is_active (crd_providerId cred)) (map up rs) = Some (up cred)"
proof -
  have only: "r = cred" if "r \<in> set rs" "is_active (crd_providerId cred) (up r)" for r
    using that none id_unique [OF ok _ there] by (auto simp: up_def split: if_splits)
  have other: "is_active p r" if "r \<in> set rs" "is_active p (up r)" "p \<noteq> crd_providerId cred" for r p
    using that id_unique [OF ok _ there] by (auto simp: up_def is_active_def split: if_splits)
  have "up r = up r'" if "r \<in> set rs" "r' \<in> set rs" "is_active p (up r)" "is_active p (up r')" for r r' p
    using that only other ok by (metis rows_ok_def)
  moreover have "crd_id (up r) = crd_id r" "decrypt_row vc (up r) = decrypt_row vc r" for r
    by (simp_all add: up_def)
  ultimately show "rows_ok vc (map up rs)"
    using ok by (auto simp: rows_ok_def comp_def)
  have "up cred \<in> set (map up rs)" "is_active (crd_providerId cred) (up cred)"
    using there by (simp_all add: up_def is_active_def)
  then obtain r where r: "find_first (is_active (crd_providerId cred)) (map up rs) = Some r"
    by (metis find_first_None not_Some_eq)
  then obtain r0 where "r = up r0" "r0 \<in> set rs" "is_active (crd_providerId cred) (up r0)"
    using find_first_Some by fastforce
  with only [of r0] r show "find_first (is_active (crd_providerId cred)) (map up rs) = Some (up cred)"
    by simp
qed

lemma active_credential_alt: "active_credential pid s = find_first (is_active pid) (vs_credentials s)"
  by (simp add: active_credential_def is_active_def [abs_def])

lemma promote_rows_ok:
  fixes g :: int
  assumes "rows_ok vc (vs_credentials s)" "cred \<in> set (vs_credentials s)" "crd_status cred \<noteq> CActive"
  defines "s' \<equiv> promote_rows g (crd_id cred) (active_credential (crd_providerId cred) s) s"
  shows "rows_ok vc (vs_credentials s')"
    "active_credential (crd_providerId cred) s' = Some (cred\<lparr>crd_status := CActive, crd_graceUntil := None\<rparr>)"
proof -
  define s0 where "s0 = step_down g (active_credential (crd_providerId cred) s) s"
  have s': "vs_credentials s' = map (\<lambda>r. if crd_id r = crd_id cred then r\<lparr>crd_status := CActive, crd_graceUntil := None\<rparr> else r)
      (vs_credentials s0)"
    by (simp add: s'_def promote_rows_def s0_def step_down_def update_credential_def)
  have "cred \<in> set (vs_credentials s0)"
    unfolding s0_def by (rule step_down_ok(3) [OF assms(1,2)]) (use assms(3) in \<open>simp add: is_active_def\<close>)
  note over = take_over [OF step_down_ok(1) [OF assms(1)] this [unfolded s0_def] step_down_ok(2) [OF assms(1)], folded s0_def]
  show "rows_ok vc (vs_credentials s')"
    using over(1) by (simp add: s')
  show "active_credential (crd_providerId cred) s' = Some (cred\<lparr>crd_status := CActive, crd_graceUntil := None\<rparr>)"
    using over(2) by (simp add: active_credential_alt s')
qed

lemma encrypt_decrypts:
  assumes "gcm_ok g" "encryptCredential g en pt ring = Inr (c, v)"
  shows "decryptCredential g c v ring = Inr pt"
proof -
  obtain master where "map_get (kr_keys ring) v = Some master"
    "c = b64_encode (json_stringify (envelope_of (seal g master (en_ivDek en) (en_dek en)) (seal g (en_dek en) (en_ivPayload en) pt)))"
    using assms(2) by (auto simp: encryptCredential_def envelope_of_def split: option.splits)
  with decrypt_envelope [OF assms(1)] show ?thesis
    by simp
qed

lemma vault_add_rows:
  assumes "vault_add vc en fresh pid pt by s = (out, s')" "vs_credentials s' \<noteq> vs_credentials s"
  shows "\<exists>c v. encryptCredential (vc_gcm vc) en pt (vc_ring vc) = Inr (c, v)
    \<and> vs_credentials s' = vs_credentials s @ [new_credential vc fresh pid (c, v) pt by s]"
  using assms by (auto simp: vault_add_def Let_def case_prod_beta split: if_splits option.splits sum.splits)

lemma vault_add_ok:
  assumes "gcm_ok (vc_gcm vc)" "rows_ok vc (vs_credentials s)" "fresh \<notin> crd_id ` set (vs_credentials s)"
  shows "rows_ok vc (vs_credentials (snd (vault_add vc en fresh pid pt by s)))"
proof (cases "vs_credentials (snd (vault_add vc en fresh pid pt by s)) = vs_credentials s")
  case False
  then obtain c v where add: "encryptCredential (vc_gcm vc) en pt (vc_ring vc) = Inr (c, v)"
    "vs_credentials (snd (vault_add vc en fresh pid pt by s)) = vs_credentials s @ [new_credential vc fresh pid (c, v) pt by s]"
    using vault_add_rows [of vc en fresh pid pt "by" s] by (metis prod.collapse)
  define row where "row = new_credential vc fresh pid (c, v) pt by s"
  have "\<forall>r\<in>set (vs_credentials s). \<not> is_active p r" if "is_active p row" for p
    using that active_None [of p s] by (auto simp: row_def new_credential_def is_active_def split: if_splits)
  moreover have "crd_id row = fresh" "decrypt_row vc row = Inr pt"
    using encrypt_decrypts [OF assms(1) add(1)] by (simp_all add: row_def new_credential_def decrypt_row_def)
  ultimately show ?thesis
    unfolding add(2) row_def [symmetric] using assms(2,3) by (auto simp: rows_ok_def)
qed (use assms in simp)

lemma vault_promote_rows:
  assumes "find_credential cid s = Some cred" "crd_status cred = CGrace" "find_provider vc (crd_providerId cred) = Some p"
  shows "vs_credentials (snd (vault_promote vc cid s)) = vs_credentials
      (promote_rows (vc_now vc + vc_graceHours vc * 3600000) (crd_id cred) (active_credential (crd_providerId cred) s) s)"
    and "fst (vault_promote vc cid s) = Inr (toMeta (cred\<lparr>crd_status := CActive, crd_graceUntil := None\<rparr>))"
proof -
  have "crd_id cred = cid"
    using assms(1) by (auto simp: find_credential_def dest: find_first_Some)
  then show "vs_credentials (snd (vault_promote vc cid s)) = vs_credentials
      (promote_rows (vc_now vc + vc_graceHours vc * 3600000) (crd_id cred) (active_credential (crd_providerId cred) s) s)"
    using assms by (simp add: vault_promote_def Let_def case_prod_beta)
  show "fst (vault_promote vc cid s) = Inr (toMeta (cred\<lparr>crd_status := CActive, crd_graceUntil := None\<rparr>))"
    using assms by (simp add: vault_promote_def Let_def case_prod_beta log_config split: option.split)
qed

lemma vault_promote_ok:
  assumes "rows_ok vc (vs_credentials s)"
  shows "rows_ok vc (vs_credentials (snd (vault_promote vc cid s)))"
proof (cases "vs_credentials (snd (vault_promote vc cid s)) = vs_credentials s")
  case False
  then obtain cred p where c: "find_credential cid s = Some cred" "crd_status cred = CGrace"
    "find_provider vc (crd_providerId cred) = Some p"
    by (cases "find_credential cid s"; cases "crd_status (the (find_credential cid s))")
       (auto simp: vault_promote_def split: option.splits if_splits)
  then have "cred \<in> set (vs_credentials s)"
    by (auto simp: find_credential_def dest: find_first_Some)
  with c show ?thesis
    unfolding vault_promote_rows(1) [OF c] by (intro promote_rows_ok(1) assms) simp_all
qed (use assms in simp)

lemma vault_revoke_ok: "rows_ok vc (vs_credentials s) \<Longrightarrow> rows_ok vc (vs_credentials (snd (vault_revoke vc cid s)))"
  by (auto simp: vault_revoke_def update_credential_def Let_def is_active_def split: option.splits if_splits intro!: rows_ok_map)

lemma log_expired_rows: "vs_credentials (snd (fold (log_expired vc) rs (out, s))) = vs_credentials s"
proof (induction rs arbitrary: out s)
  case (Cons r rs)
  obtain out' s' where step: "log_expired vc r (out, s) = (out', s')"
    by fastforce
  then have "vs_credentials s' = vs_credentials s"
    using log_rows by (auto simp: log_expired_def split: sum.splits option.splits) (metis log_rows snd_conv)
  with Cons step show ?case
    by simp
qed simp

lemma autoRevoke_ok: "rows_ok vc (vs_credentials s) \<Longrightarrow> rows_ok vc (vs_credentials (snd (autoRevokeExpired vc s)))"
  by (auto simp: autoRevokeExpired_def Let_def case_prod_beta log_expired_rows is_active_def split: if_splits intro!: rows_ok_map)

interpretation vault: call_driven empty_vault "vault_step vc" vault_legal "\<lambda>s. gcm_ok (vc_gcm vc) \<longrightarrow> vault_inv vc s"
  for vc
proof unfold_locales
  show "gcm_ok (vc_gcm vc) \<longrightarrow> vault_inv vc empty_vault"
    by (simp add: vault_inv_def empty_vault_def rows_ok_def)
next
  fix s c
  assume inv: "gcm_ok (vc_gcm vc) \<longrightarrow> vault_inv vc s" and legal: "vault_legal s c"
  show "gcm_ok (vc_gcm vc) \<longrightarrow> vault_inv vc (vault_step vc c s)"
  proof
    assume g: "gcm_ok (vc_gcm vc)"
    with inv have ok: "rows_ok (vc\<lparr>vc_now := t\<rparr>) (vs_credentials s)" "gcm_ok (vc_gcm (vc\<lparr>vc_now := t\<rparr>))" for t
      by (simp_all add: vault_inv_def)
    show "vault_inv vc (vault_step vc c s)"
      using legal vault_add_ok [OF ok(2,1)] vault_promote_ok [OF ok(1)] vault_revoke_ok [OF ok(1)] autoRevoke_ok [OF ok(1)]
      by (cases c) (simp_all add: vault_inv_def)
  qed
qed

lemma startup_passes:
  assumes "rows_ok vc (vs_credentials s)"
  shows "startupCheck vc s = Inr (length (filter (\<lambda>r. crd_status r \<in> {CActive, CGrace}) (vs_credentials s)))"
proof -
  have "startup_failures vc rs = []" if "set rs \<subseteq> set (vs_credentials s)" for rs
    using that
  proof (induction rs)
    case (Cons r rs)
    then obtain k where "decrypt_row vc r = Inr k"
      using assms by (auto simp: rows_ok_def)
    with Cons show ?case
      by (simp add: startup_failures_def map_filter_simps)
  qed (simp add: startup_failures_def map_filter_simps)
  then show ?thesis
    by (simp add: startupCheck_def Let_def)
qed

lemma one_active:
  assumes "rows_ok vc rs"
  shows "length (filter (is_active pid) rs) \<le> 1"
proof (rule ccontr)
  assume many: "\<not> length (filter (is_active pid) rs) \<le> 1"
  then obtain r r' xs where two: "filter (is_active pid) rs = r # r' # xs"
    by (cases "filter (is_active pid) rs" rule: remdups_adj.cases) auto
  then have "r \<in> set (filter (is_active pid) rs)" "r' \<in> set (filter (is_active pid) rs)"
    by simp_all
  then have "r = r'"
    using assms by (auto simp: rows_ok_def)
  moreover have "distinct (filter (is_active pid) rs)"
    using assms by (simp add: rows_ok_def distinct_map)
  ultimately show False
    using two by simp
qed

text \<open>Promoting a staged credential.\<close>

lemma promotion_switches:
  assumes ok: "rows_ok vc (vs_credentials s)" and c: "find_credential cid s = Some cred" "crd_status cred = CGrace"
    "find_provider vc (crd_providerId cred) = Some p"
  shows "\<exists>k s'. decrypt_row vc cred = Inr k
    \<and> vault_promote vc cid s = (Inr (toMeta (cred\<lparr>crd_status := CActive, crd_graceUntil := None\<rparr>)), s')
    \<and> getActiveApiKey vc (crd_providerId cred) s' = Inr (Some k)
    \<and> (\<forall>a. active_credential (crd_providerId cred) s = Some a \<longrightarrow>
         a\<lparr>crd_status := CGrace, crd_graceUntil := Some (vc_now vc + vc_graceHours vc * 3600000)\<rparr> \<in> set (vs_credentials s'))"
proof -
  have cred: "cred \<in> set (vs_credentials s)" "crd_id cred = cid"
    using c(1) by (auto simp: find_credential_def dest: find_first_Some)
  then obtain k where k: "decrypt_row vc cred = Inr k"
    using ok by (auto simp: rows_ok_def)
  let ?g = "vc_now vc + vc_graceHours vc * 3600000"
  let ?s1 = "promote_rows ?g (crd_id cred) (active_credential (crd_providerId cred) s) s"
  obtain s' where s': "vault_promote vc cid s = (Inr (toMeta (cred\<lparr>crd_status := CActive, crd_graceUntil := None\<rparr>)), s')"
    "vs_credentials s' = vs_credentials ?s1"
    using vault_promote_rows [OF c] by (metis prod.collapse snd_conv)
  have "active_credential (crd_providerId cred) s' = Some (cred\<lparr>crd_status := CActive, crd_graceUntil := None\<rparr>)"
    using promote_rows_ok(2) [OF ok cred(1), of ?g] c(2) by (simp add: active_credential_def s'(2))
  then have "getActiveApiKey vc (crd_providerId cred) s' = Inr (Some k)"
    by (simp add: getActiveApiKey_def k)
  moreover have "a\<lparr>crd_status := CGrace, crd_graceUntil := Some ?g\<rparr> \<in> set (vs_credentials s')"
    if a: "active_credential (crd_providerId cred) s = Some a" for a
  proof -
    have "a \<in> set (vs_credentials s)" "crd_id a \<noteq> crd_id cred"
      using active_Some [OF a] id_unique [OF ok, of a cred] cred(1) c(2) by (auto simp: is_active_def)
    then show ?thesis
      unfolding s'(2) by (auto simp: promote_rows_def a update_credential_def image_image intro!: image_eqI [of _ _ a])
  qed
  ultimately show ?thesis
    using k s'(1) by blast
qed

section \<open>Properties\<close>

text \<open>
  C14. A stored credential can always be read back: what was encrypted under the current master key decrypts to
  the same secret, and re-wrapping it during a master-key rotation, with a keyring that still holds the old
  key, gives a ciphertext under the new key version that also decrypts to it. The cipher's law (opening undoes sealing) is
  the only assumption.
\<close>

theorem credential_survives_rotation:
  assumes "gcm_ok g" and "encryptCredential g en pt ring = Inr (c, v)"
    and "map_get (kr_keys ring') v = map_get (kr_keys ring) v" and "map_get (kr_keys ring') (kr_currentVersion ring') \<noteq> None"
  shows "decryptCredential g c v ring = Inr pt
    \<and> (\<exists>c'. rewrapCredential g iv c v ring' = Inr (c', kr_currentVersion ring')
           \<and> decryptCredential g c' (kr_currentVersion ring') ring' = Inr pt)"
proof -
  obtain master where m: "map_get (kr_keys ring) v = Some master"
    "c = b64_encode (json_stringify (envelope_of (seal g master (en_ivDek en) (en_dek en)) (seal g (en_dek en) (en_ivPayload en) pt)))"
    using assms(2) by (auto simp: encryptCredential_def envelope_of_def split: option.splits)
  obtain target where t: "map_get (kr_keys ring') (kr_currentVersion ring') = Some target"
    using assms(4) by auto
  show ?thesis
    using assms(1,3) m t encrypt_decrypts [OF assms(1,2)]
    by (simp add: rewrapCredential_def envelope_back open_seal decrypt_envelope)
qed

text \<open>
  C15. Key rotation never leaves a provider with two keys or with one that cannot be read: after any
  sequence of additions, promotions, revocations and expiry runs, a provider has at most one active
  credential and the startup check passes; and promoting a staged credential then succeeds, makes its secret the one
  the router uses, and puts the key it replaces into grace until the configured hours have passed.
\<close>

theorem vault_rotation:
  assumes "gcm_ok (vc_gcm vc)" and "legal_run vault_legal (vault_step vc) empty_vault calls"
    and "s = fold (vault_step vc) calls empty_vault"
  shows "(\<forall>pid. length (filter (is_active pid) (vs_credentials s)) \<le> 1) \<and> (\<exists>n. startupCheck vc s = Inr n)
    \<and> (\<forall>cid cred p. find_credential cid s = Some cred \<and> crd_status cred = CGrace
         \<and> find_provider vc (crd_providerId cred) = Some p \<longrightarrow>
         (\<exists>k s'. decrypt_row vc cred = Inr k
            \<and> vault_promote vc cid s = (Inr (toMeta (cred\<lparr>crd_status := CActive, crd_graceUntil := None\<rparr>)), s')
            \<and> getActiveApiKey vc (crd_providerId cred) s' = Inr (Some k)
            \<and> (\<forall>a. active_credential (crd_providerId cred) s = Some a \<longrightarrow>
                 a\<lparr>crd_status := CGrace, crd_graceUntil := Some (vc_now vc + vc_graceHours vc * 3600000)\<rparr> \<in> set (vs_credentials s'))))"
proof -
  have "rows_ok vc (vs_credentials s)"
    using vault.inv_run [OF assms(2)] assms(1,3) by (simp add: vault_inv_def)
  with one_active startup_passes promotion_switches show ?thesis
    by metis
qed

text \<open>A cipher that keeps its law (and no secret), and a vault with two added keys.\<close>

definition ex_gcm :: gcm where
  "ex_gcm = \<lparr>gcm_enc = (\<lambda>k iv p. (p, [])), gcm_dec = (\<lambda>k iv tag d. Some d)\<rparr>"

definition ex_ring :: keyring where
  "ex_ring = \<lparr>kr_keys = [(1, ''master'')], kr_currentVersion = 1\<rparr>"

definition ex_entropy :: entropy where
  "ex_entropy = \<lparr>en_dek = ''dek'', en_ivDek = ''iv1'', en_ivPayload = ''iv2''\<rparr>"

definition ex_vault :: vault_cfg where
  "ex_vault = \<lparr>vc_gcm = ex_gcm, vc_ring = ex_ring, vc_graceHours = 24, vc_providers = [ex_provider], vc_now = 5,
     vc_dateText = (\<lambda>_. [])\<rparr>"

lemma ex_gcm_ok: "gcm_ok ex_gcm"
  by (simp add: gcm_ok_def ex_gcm_def)

theorem credential_survives_rotation_witness:
  "\<exists>c c'. encryptCredential ex_gcm ex_entropy ''sk-secret'' ex_ring = Inr (c, 1)
     \<and> rewrapCredential ex_gcm ''iv3'' c 1 \<lparr>kr_keys = [(1, ''master''), (2, ''next'')], kr_currentVersion = 2\<rparr> = Inr (c', 2)
     \<and> decryptCredential ex_gcm c' 2 \<lparr>kr_keys = [(1, ''master''), (2, ''next'')], kr_currentVersion = 2\<rparr> = Inr ''sk-secret''"
proof -
  obtain c where c: "encryptCredential ex_gcm ex_entropy ''sk-secret'' ex_ring = Inr (c, 1)"
    by (simp add: encryptCredential_def ex_ring_def map_get_def)
  from credential_survives_rotation [OF ex_gcm_ok c, of "\<lparr>kr_keys = [(1, ''master''), (2, ''next'')], kr_currentVersion = 2\<rparr>" "''iv3''"] c
  show ?thesis
    by (auto simp: ex_ring_def map_get_def)
qed

definition ex_calls :: "vault_call list" where
  "ex_calls = [VAdd 1 ex_entropy ''k1'' ''pr1'' ''first-key'' None, VAdd 2 ex_entropy ''k2'' ''pr1'' ''second-key'' None]"

lemmas vault_eval = ex_calls_def ex_vault_def ex_ring_def map_get_def vault_add_def find_provider_def ex_provider_def
  encryptCredential_def log_change_def case_prod_beta new_credential_def active_credential_def empty_vault_def
  find_credential_def Let_def

lemma ex_vault_run:
  "\<exists>s a cred. s = fold (vault_step ex_vault) ex_calls empty_vault \<and> find_credential ''k2'' s = Some cred \<and> crd_status cred = CGrace
     \<and> crd_providerId cred = ''pr1'' \<and> active_credential ''pr1'' s = Some a \<and> crd_id a = ''k1'' \<and> find_provider ex_vault ''pr1'' = Some ex_provider"
  by (simp add: vault_eval)

theorem vault_rotation_witness:
  "\<exists>k s'. getActiveApiKey ex_vault ''pr1'' (snd (vault_promote ex_vault ''k2'' (fold (vault_step ex_vault) ex_calls empty_vault))) = Inr (Some k)
     \<and> s' = snd (vault_promote ex_vault ''k2'' (fold (vault_step ex_vault) ex_calls empty_vault))
     \<and> (\<exists>a\<in>set (vs_credentials s'). crd_id a = ''k1'' \<and> crd_graceUntil a = Some (5 + 24 * 3600000))"
proof -
  have "gcm_ok (vc_gcm ex_vault)" "legal_run vault_legal (vault_step ex_vault) empty_vault ex_calls"
    by (simp_all add: vault_eval ex_gcm_ok)
  note run = vault_rotation [OF this refl]
  from ex_vault_run obtain a cred where
    c: "find_credential ''k2'' (fold (vault_step ex_vault) ex_calls empty_vault) = Some cred" "crd_status cred = CGrace"
      "crd_providerId cred = ''pr1''" "find_provider ex_vault (crd_providerId cred) = Some ex_provider"
      "active_credential (crd_providerId cred) (fold (vault_step ex_vault) ex_calls empty_vault) = Some a" "crd_id a = ''k1''"
    by auto
  then obtain k s' where
    s': "vault_promote ex_vault ''k2'' (fold (vault_step ex_vault) ex_calls empty_vault)
        = (Inr (toMeta (cred\<lparr>crd_status := CActive, crd_graceUntil := None\<rparr>)), s')"
      "getActiveApiKey ex_vault (crd_providerId cred) s' = Inr (Some k)"
      "a\<lparr>crd_status := CGrace, crd_graceUntil := Some (vc_now ex_vault + vc_graceHours ex_vault * 3600000)\<rparr> \<in> set (vs_credentials s')"
    using run by blast
  have "vc_now ex_vault = 5" "vc_graceHours ex_vault = 24"
    by (simp_all add: ex_vault_def)
  with s' c show ?thesis
    by (intro exI [of _ k] exI [of _ s']) (auto intro!: bexI [OF _ s'(3)])
qed

text \<open>
  The promotions of the code read the active row and then write; two that read before either writes leave two
  active keys.
\<close>

lemma concurrent_promotes_leave_two_active:
  assumes "vs_credentials s = [a, b, c]" "distinct (map crd_id [a, b, c])"
    "is_active pid a" "\<not> is_active pid b" "\<not> is_active pid c" "crd_providerId b = pid" "crd_providerId c = pid"
  shows "length (filter (is_active pid) (vs_credentials
    (promote_rows g (crd_id c) (active_credential pid s) (promote_rows g (crd_id b) (active_credential pid s) s)))) = 2"
proof -
  have "active_credential pid s = Some a"
    using assms by (simp add: active_credential_def is_active_def)
  with assms show ?thesis
    by (auto simp: promote_rows_def update_credential_def is_active_def)
qed

end
