(* ===== verification/Health.thy ===== *)
theory Health
  imports Vault
begin

text \<open>
  Provider health: the monitor of \<^verbatim>\<open>src/src/vault/health.ts\<close> and the connection test of \<^verbatim>\<open>src/src/vault/service.ts\<close>, which
  both write the status columns of a provider. The promise chain of the monitor is a queue of transitions per
  provider; the two database writes of a transition are two steps, so that outcomes can arrive in between. A write that fails drops
  the transition, as the code's \<open>catch\<close> does. The adapter's own test call is an argument.
\<close>

section \<open>Columns\<close>

datatype health_status = HUnknown | HHealthy | HDegraded | HDown

fun health_name :: "health_status \<Rightarrow> string" where
  "health_name HUnknown = ''unknown''"
| "health_name HHealthy = ''healthy''"
| "health_name HDegraded = ''degraded''"
| "health_name HDown = ''down''"

record health_columns =
  hc_status :: health_status
  hc_lastHealthAt :: "int option"
  hc_health :: json

definition no_health :: health_columns where
  "no_health = \<lparr>hc_status = HUnknown, hc_lastHealthAt = None, hc_health = JObj []\<rparr>"

text \<open>\<open>update providers set ... where id\<close> on these columns.\<close>

definition set_columns :: "string \<Rightarrow> (health_columns \<Rightarrow> health_columns) \<Rightarrow> (string, health_columns) jsmap \<Rightarrow> (string, health_columns) jsmap" where
  "set_columns pid f cols = map_set pid (f (nullish (map_get cols pid) no_health)) cols"

section \<open>The monitor\<close>

definition WINDOW_SIZE :: nat where
  "WINDOW_SIZE = 50"

definition MIN_SAMPLES :: nat where
  "MIN_SAMPLES = 10"

definition DOWN_THRESHOLD :: rat where
  "DOWN_THRESHOLD = 1 / 2"

definition DEGRADED_THRESHOLD :: rat where
  "DEGRADED_THRESHOLD = 1 / 5"

record health_window =
  hw_outcomes :: "bool list"
  hw_status :: health_status

definition failures_of :: "bool list \<Rightarrow> nat" where
  "failures_of os = length (filter (\<lambda>ok. \<not> ok) os)"

definition computeStatus :: "health_window \<Rightarrow> health_status" where
  "computeStatus w =
     (if length (hw_outcomes w) < MIN_SAMPLES then hw_status w
      else
        (let rate = rat_of_nat (failures_of (hw_outcomes w)) / rat_of_nat (length (hw_outcomes w))
         in if rate \<ge> DOWN_THRESHOLD then HDown else if rate \<ge> DEGRADED_THRESHOLD then HDegraded else HHealthy))"

text \<open>A transition that waits in the chain; once its first write is done it carries the failures counted before it.\<close>

record transition =
  tr_firmId :: string
  tr_label :: string
  tr_from :: health_status
  tr_to :: health_status
  tr_written :: "nat option"

record health_state =
  hs_windows :: "(string, health_window) jsmap"
  hs_chains :: "(string, transition list) jsmap"
  hs_columns :: "(string, health_columns) jsmap"
  hs_audit :: "audit_row list"

definition window_for :: "string \<Rightarrow> health_state \<Rightarrow> health_window" where
  "window_for pid s = nullish (map_get (hs_windows s) pid) \<lparr>hw_outcomes = [], hw_status = HUnknown\<rparr>"

definition chain_for :: "string \<Rightarrow> health_state \<Rightarrow> transition list" where
  "chain_for pid s = nullish (map_get (hs_chains s) pid) []"

definition push_outcome :: "bool \<Rightarrow> bool list \<Rightarrow> bool list" where
  "push_outcome ok os = (let os1 = os @ [ok] in if length os1 > WINDOW_SIZE then tl os1 else os1)"

definition health_record :: "string \<Rightarrow> string \<Rightarrow> string \<Rightarrow> bool \<Rightarrow> health_state \<Rightarrow> health_state" where
  "health_record pid firmId label ok s =
     (let w0 = window_for pid s;
          w = w0\<lparr>hw_outcomes := push_outcome ok (hw_outcomes w0)\<rparr>;
          status = computeStatus w
      in if status \<noteq> hw_status w
         then s\<lparr>hs_windows := map_set pid (w\<lparr>hw_status := status\<rparr>) (hs_windows s),
                hs_chains := map_set pid (chain_for pid s @
                  [\<lparr>tr_firmId = firmId, tr_label = label, tr_from = hw_status w, tr_to = status, tr_written = None\<rparr>]) (hs_chains s)\<rparr>
         else s\<lparr>hs_windows := map_set pid w (hs_windows s)\<rparr>)"

definition errorRate_of :: "string \<Rightarrow> health_state \<Rightarrow> rat \<times> nat" where
  "errorRate_of pid s =
     (case map_get (hs_windows s) pid of
        None \<Rightarrow> (0, 0)
      | Some w \<Rightarrow>
          if hw_outcomes w = [] then (0, 0)
          else (rat_of_nat (failures_of (hw_outcomes w)) / rat_of_nat (length (hw_outcomes w)), length (hw_outcomes w)))"

definition status_of :: "string \<Rightarrow> health_state \<Rightarrow> health_status" where
  "status_of pid s = (case map_get (hs_windows s) pid of None \<Rightarrow> HUnknown | Some w \<Rightarrow> hw_status w)"

text \<open>\<open>Number(x.toFixed(3))\<close>\<close>

definition fixed3 :: "rat \<Rightarrow> rat" where
  "fixed3 x = rat_of_int (floor (x * 1000 + 1 / 2)) / 1000"

definition health_entry :: "transition \<Rightarrow> nat \<Rightarrow> nat \<Rightarrow> audit_entry" where
  "health_entry t failures samples =
     \<lparr>ae_firmId = tr_firmId t, ae_event = ''provider_health_changed'', ae_app = None, ae_taskClass = None, ae_model = None,
      ae_provider = Some (tr_label t), ae_requestHash = None,
      ae_detail = [(''from'', JStr (health_name (tr_from t))), (''to'', JStr (health_name (tr_to t))),
        (''errorRate'', JNum (fixed3 (rat_of_nat failures / rat_of_nat samples))), (''samples'', JNum (rat_of_nat samples))]\<rparr>"

text \<open>One step of the promise chain of a provider: the first transition writes the status, then its audit entry, then leaves. The
  argument \<open>up\<close> says whether the database accepts the write.\<close>

definition persist :: "bool \<Rightarrow> int \<Rightarrow> string \<Rightarrow> health_state \<Rightarrow> health_state" where
  "persist up now pid s =
     (case chain_for pid s of
        [] \<Rightarrow> s
      | t # ts \<Rightarrow>
          (let gone = s\<lparr>hs_chains := map_set pid ts (hs_chains s)\<rparr>
           in if \<not> up then gone
              else
                (case tr_written t of
                   None \<Rightarrow>
                     s\<lparr>hs_columns := set_columns pid (\<lambda>c. c\<lparr>hc_status := tr_to t, hc_lastHealthAt := Some now\<rparr>) (hs_columns s),
                       hs_chains := map_set pid (t\<lparr>tr_written := Some (failures_of (hw_outcomes (window_for pid s)))\<rparr> # ts) (hs_chains s)\<rparr>
                 | Some failures \<Rightarrow>
                     gone\<lparr>hs_audit := snd (writeAudit EVENT_SCHEMAS now None
                            (health_entry t failures (length (hw_outcomes (window_for pid s)))) (hs_audit s))\<rparr>)))"

section \<open>The connection test\<close>

record connection_result =
  cr_ok :: bool
  cr_latencyMs :: rat
  cr_errorCode :: "string option"
  cr_probed :: "json option"

definition test_ctx :: "provider_row \<Rightarrow> string option \<Rightarrow> string option \<Rightarrow> execute_ctx" where
  "test_ctx p apiKey model =
     \<lparr>ec_providerId = prv_id p, ec_model = nullish model [], ec_baseUrl = prv_baseUrl p, ec_apiKey = given apiKey,
      ec_modelMapping = prv_modelMapping p, ec_promptCaching = False, ec_thinkingBudget = None\<rparr>"

definition test_error :: "connection_result \<Rightarrow> (string \<times> json) list" where
  "test_error r = (case given (cr_errorCode r) of None \<Rightarrow> [] | Some c \<Rightarrow> [(''errorCode'', JStr c)])"

definition test_columns :: "int \<Rightarrow> connection_result \<Rightarrow> health_columns \<Rightarrow> health_columns" where
  "test_columns now r c =
     c\<lparr>hc_status := (if cr_ok r then HHealthy else HDown), hc_lastHealthAt := Some now,
       hc_health := JObj [(''lastTest'', JObj
          ([(''ok'', JBool (cr_ok r)), (''latencyMs'', JNum (cr_latencyMs r))] @ test_error r
           @ (case cr_probed r of None \<Rightarrow> [] | Some p \<Rightarrow> [(''probed'', p)])))]\<rparr>"

definition test_entry :: "provider_row \<Rightarrow> connection_result \<Rightarrow> audit_entry" where
  "test_entry p r =
     \<lparr>ae_firmId = prv_firmId p, ae_event = ''credential_test'', ae_app = None, ae_taskClass = None, ae_model = None,
      ae_provider = Some (prv_label p), ae_requestHash = None,
      ae_detail = [(''ok'', JBool (cr_ok r)), (''latencyMs'', JNum (cr_latencyMs r))] @ test_error r\<rparr>"

text \<open>The key of the test, or none for a provider without authentication.\<close>

definition test_key :: "vault_cfg \<Rightarrow> string option \<Rightarrow> provider_row \<Rightarrow> vault_state \<Rightarrow> (thrown, string option) result" where
  "test_key vc cid p s =
     (if prv_authType p = AuthApiKey
      then (case test_credential cid (prv_id p) s of
              None \<Rightarrow> Inl (invalid ''no credential to test'')
            | Some r \<Rightarrow> rbind (decrypt_row vc r) (\<lambda>k. Inr (Some k)))
      else Inr None)"

definition vault_test ::
    "vault_cfg \<Rightarrow> (execute_ctx \<Rightarrow> (thrown, connection_result) result) \<Rightarrow> string \<Rightarrow> string option \<Rightarrow> string option
      \<Rightarrow> vault_state \<times> (string, health_columns) jsmap \<Rightarrow> (thrown, connection_result) result \<times> vault_state \<times> (string, health_columns) jsmap" where
  "vault_test vc testConnection pid cid model sc =
     (let (s, cols) = sc
      in case find_provider vc pid of
           None \<Rightarrow> (Inl (invalid ''provider not found''), s, cols)
         | Some p \<Rightarrow>
             if prv_deletedAt p \<noteq> None then (Inl (invalid ''provider not found''), s, cols)
             else
               (case rbind (test_key vc cid p s) (\<lambda>k. testConnection (test_ctx p k model)) of
                  Inl t \<Rightarrow> (Inl t, s, cols)
                | Inr r \<Rightarrow>
                    (let (out, s1) = log_change vc (test_entry p r) s
                     in (rbind out (\<lambda>_. Inr r), s1, set_columns pid (test_columns (vc_now vc) r) cols))))"

section \<open>Steps and invariant\<close>

text \<open>What can happen around the monitor while the database is up.\<close>

inductive health_step :: "health_state \<Rightarrow> health_state \<Rightarrow> bool" where
  Recorded: "health_step s (health_record pid firmId label ok s)"
| Persisted: "chain_for pid s \<noteq> [] \<Longrightarrow> health_step s (persist True now pid s)"

definition fresh_monitor :: "(string, health_columns) jsmap \<Rightarrow> audit_row list \<Rightarrow> health_state" where
  "fresh_monitor cols rows = \<lparr>hs_windows = [], hs_chains = [], hs_columns = cols, hs_audit = rows\<rparr>"

inductive health_reachable :: "(string, health_columns) jsmap \<Rightarrow> audit_row list \<Rightarrow> health_state \<Rightarrow> bool"
  for cols rows where
  Start: "health_reachable cols rows (fresh_monitor cols rows)"
| Step: "health_reachable cols rows s \<Longrightarrow> health_step s s' \<Longrightarrow> health_reachable cols rows s'"

definition column_status :: "string \<Rightarrow> health_state \<Rightarrow> health_status" where
  "column_status pid s = hc_status (nullish (map_get (hs_columns s) pid) no_health)"

text \<open>Transitions that follow one another from one status to another.\<close>

fun linked :: "health_status \<Rightarrow> transition list \<Rightarrow> health_status \<Rightarrow> bool" where
  "linked a [] b = (a = b)"
| "linked a (t # ts) b = (tr_from t = a \<and> linked (tr_to t) ts b)"

definition provider_inv :: "health_state \<Rightarrow> string \<Rightarrow> bool" where
  "provider_inv s pid \<longleftrightarrow>
     length (hw_outcomes (window_for pid s)) \<le> WINDOW_SIZE
     \<and> computeStatus (window_for pid s) = hw_status (window_for pid s)
     \<and> (case chain_for pid s of
          [] \<Rightarrow> hw_status (window_for pid s) = HUnknown \<or> column_status pid s = hw_status (window_for pid s)
        | t # ts \<Rightarrow> linked (tr_to t) ts (hw_status (window_for pid s)) \<and> (tr_written t \<noteq> None \<longrightarrow> column_status pid s = tr_to t)
            \<and> (tr_written t = None \<longrightarrow> tr_from t = HUnknown \<or> column_status pid s = tr_from t)
            \<and> list_all (\<lambda>u. tr_written u = None) ts \<and> hw_status (window_for pid s) \<noteq> HUnknown)"

lemma push_outcome_length: "length os \<le> WINDOW_SIZE \<Longrightarrow> length (push_outcome ok os) \<le> WINDOW_SIZE"
  by (simp add: push_outcome_def Let_def)

lemma computeStatus_again [simp]: "computeStatus (w\<lparr>hw_status := computeStatus w\<rparr>) = computeStatus w"
  by (simp add: computeStatus_def Let_def)

lemma computeStatus_known: "computeStatus w = HUnknown \<Longrightarrow> hw_status w = HUnknown"
  by (auto simp: computeStatus_def Let_def split: if_splits)

lemma linked_snoc: "linked a ts b \<Longrightarrow> tr_from t = b \<Longrightarrow> linked a (ts @ [t]) (tr_to t)"
  by (induction ts arbitrary: a) auto

text \<open>The three views of a provider after a step.\<close>

lemma view_record:
  "chain_for q (health_record pid f l ok s) =
     (let w = (window_for q s)\<lparr>hw_outcomes := push_outcome ok (hw_outcomes (window_for q s))\<rparr>
      in if q = pid \<and> computeStatus w \<noteq> hw_status w
         then chain_for q s @ [\<lparr>tr_firmId = f, tr_label = l, tr_from = hw_status w, tr_to = computeStatus w, tr_written = None\<rparr>]
         else chain_for q s)"
  "window_for q (health_record pid f l ok s) =
     (let w = (window_for q s)\<lparr>hw_outcomes := push_outcome ok (hw_outcomes (window_for q s))\<rparr>
      in if q = pid then w\<lparr>hw_status := computeStatus w\<rparr> else window_for q s)"
  "column_status q (health_record pid f l ok s) = column_status q s"
  by (simp_all add: health_record_def chain_for_def window_for_def column_status_def Let_def)

lemma view_persist:
  assumes "chain_for pid s = t # ts"
  shows "chain_for q (persist True now pid s) =
     (if q \<noteq> pid then chain_for q s
      else case tr_written t of None \<Rightarrow> t\<lparr>tr_written := Some (failures_of (hw_outcomes (window_for pid s)))\<rparr> # ts | Some n \<Rightarrow> ts)"
    and "window_for q (persist True now pid s) = window_for q s"
    and "column_status q (persist True now pid s) = (if q = pid \<and> tr_written t = None then tr_to t else column_status q s)"
  using assms
  by (auto simp: persist_def chain_for_def window_for_def column_status_def set_columns_def Let_def split: option.splits)

lemma record_keeps: "provider_inv s q \<Longrightarrow> provider_inv (health_record pid f l ok s) q"
proof (cases "q = pid")
  case True
  let ?w = "(window_for q s)\<lparr>hw_outcomes := push_outcome ok (hw_outcomes (window_for q s))\<rparr>"
  assume inv: "provider_inv s q"
  have known: "computeStatus ?w \<noteq> hw_status ?w \<Longrightarrow> computeStatus ?w \<noteq> HUnknown"
    using computeStatus_known [of ?w] by auto
  show ?thesis
  proof (cases "chain_for q s")
    case Nil
    with inv known True show ?thesis
      by (auto simp: provider_inv_def view_record Let_def push_outcome_length)
  next
    case (Cons t ts)
    with inv known True show ?thesis
      by (auto simp: provider_inv_def view_record Let_def push_outcome_length intro!: linked_snoc [of _ _ _
          "\<lparr>tr_firmId = f, tr_label = l, tr_from = _, tr_to = _, tr_written = None\<rparr>", simplified])
  qed
qed (auto simp: provider_inv_def view_record Let_def split: list.splits)

lemma persist_keeps:
  assumes "provider_inv s q" "chain_for pid s \<noteq> []"
  shows "provider_inv (persist True now pid s) q"
proof -
  obtain t ts where c: "chain_for pid s = t # ts"
    using assms(2) by (cases "chain_for pid s") auto
  show ?thesis
  proof (cases "tr_written t")
    case None
    with assms(1) c show ?thesis
      by (auto simp: provider_inv_def view_persist [OF c] split: list.splits)
  next
    case (Some n)
    with assms(1) c show ?thesis
      by (cases ts) (auto simp: provider_inv_def view_persist [OF c] split: list.splits)
  qed
qed

lemma reachable_inv: "health_reachable cols rows s \<Longrightarrow> provider_inv s pid"
proof (induction rule: health_reachable.induct)
  case Start
  then show ?case
    by (simp add: provider_inv_def fresh_monitor_def window_for_def chain_for_def computeStatus_def MIN_SAMPLES_def)
next
  case (Step s s')
  from Step(2,3) show ?case
    by (cases rule: health_step.cases) (auto intro: record_keeps persist_keeps)
qed

lemma status_of_window: "status_of pid s = hw_status (window_for pid s)"
  by (simp add: status_of_def window_for_def split: option.splits)

section \<open>Properties\<close>

lemma persist_idle: "chain_for pid s = [] \<Longrightarrow> persist up now pid s = s"
  by (simp add: persist_def)

text \<open>The writes a chain still has to do.\<close>

definition pending_writes :: "transition list \<Rightarrow> nat" where
  "pending_writes ts = (\<Sum>t\<leftarrow>ts. if tr_written t = None then 2 else 1)"

lemma persist_progress:
  assumes "chain_for pid s \<noteq> []"
  shows "pending_writes (chain_for pid (persist True now pid s)) < pending_writes (chain_for pid s)"
proof -
  obtain t ts where c: "chain_for pid s = t # ts"
    using assms by (cases "chain_for pid s") auto
  then show ?thesis
    by (auto simp: view_persist [OF c] pending_writes_def split: option.splits)
qed

lemma flush_empties: "pending_writes (chain_for pid s) \<le> n \<Longrightarrow> chain_for pid ((persist True now pid ^^ n) s) = []"
proof (induction n arbitrary: s)
  case 0
  then show ?case
    by (cases "chain_for pid s") (auto simp: pending_writes_def split: if_splits)
next
  case (Suc n)
  show ?case
  proof (cases "chain_for pid s = []")
    case True
    then have "(persist True now pid ^^ k) s = s" for k
      by (induction k) (simp_all add: persist_idle)
    with True show ?thesis
      by (simp add: persist_idle)
  next
    case False
    with persist_progress [OF False, of now] Suc.prems have "pending_writes (chain_for pid (persist True now pid s)) \<le> n"
      by linarith
    from Suc.IH [OF this] show ?thesis
      by (simp add: funpow_swap1)
  qed
qed

lemma pending_writes_bound: "pending_writes ts \<le> 2 * length ts"
  by (induction ts) (auto simp: pending_writes_def)

lemma flush_reachable: "health_reachable cols rows s \<Longrightarrow> health_reachable cols rows ((persist True now pid ^^ n) s)"
proof (induction n)
  case (Suc n)
  let ?s = "(persist True now pid ^^ n) s"
  show ?case
  proof (cases "chain_for pid ?s = []")
    case False
    with Suc show ?thesis
      by (auto intro: health_reachable.Step health_step.Persisted)
  qed (use Suc in \<open>simp add: persist_idle\<close>)
qed simp

lemma flush_window: "window_for q ((persist True now pid ^^ n) s) = window_for q s"
proof (induction n)
  case (Suc n)
  let ?s = "(persist True now pid ^^ n) s"
  show ?case
    using Suc by (cases "chain_for pid ?s") (simp_all add: persist_idle view_persist)
qed simp

text \<open>
  The status a provider is shown with follows the traffic and settles: whatever the interleaving of outcomes and database
  writes, a window holds at most fifty outcomes and from ten on the status is the one its failure rate calls for; and once no
  transition of a provider waits, its row carries the status of the monitor, as soon as the monitor has left unknown.
\<close>

theorem health_follows_traffic:
  assumes "health_reachable cols rows s"
  shows "length (hw_outcomes (window_for pid s)) \<le> 50
    \<and> (10 \<le> length (hw_outcomes (window_for pid s)) \<longrightarrow>
        (let rate = rat_of_nat (failures_of (hw_outcomes (window_for pid s))) / rat_of_nat (length (hw_outcomes (window_for pid s)))
         in status_of pid s = (if rate \<ge> 1 / 2 then HDown else if rate \<ge> 1 / 5 then HDegraded else HHealthy)))
    \<and> (chain_for pid s = [] \<longrightarrow> status_of pid s \<noteq> HUnknown \<longrightarrow> column_status pid s = status_of pid s)"
  using reachable_inv [OF assms, of pid]
  by (auto simp: provider_inv_def status_of_window computeStatus_def Let_def WINDOW_SIZE_def MIN_SAMPLES_def
      DOWN_THRESHOLD_def DEGRADED_THRESHOLD_def split: if_splits)


text \<open>The writes of a test: a failed lookup or a failing adapter changes nothing, a result always reaches the row and the log.\<close>

lemma test_entry_parses: "\<exists>row. writeAudit EVENT_SCHEMAS now uid (test_entry p r) rows = (Inr (), rows @ [row])"
  by (cases "cr_errorCode r = None \<or> cr_errorCode r = Some []")
    (auto simp: writeAudit_def test_entry_def test_error_def given_def EVENT_SCHEMAS_def catalog_schemas_def obj_get_def in_limit_def)

lemma vault_test_outcome:
  "case vault_test vc conn pid cid model (s, cols) of
     (Inl t, s', cols') \<Rightarrow> s' = s \<and> cols' = cols
   | (Inr r, s', cols') \<Rightarrow> vs_credentials s' = vs_credentials s \<and> length (vs_audit s') = Suc (length (vs_audit s))
       \<and> cols' = set_columns pid (test_columns (vc_now vc) r) cols"
proof -
  have "\<exists>row. log_change vc (test_entry p r) s = (Inr (), s\<lparr>vs_audit := vs_audit s @ [row]\<rparr>)" for p r
    using test_entry_parses [of "vc_now vc" None p r "vs_audit s"] by (auto simp: log_change_def)
  note logged = this
  show ?thesis
  proof (cases "find_provider vc pid")
    case (Some p)
    show ?thesis
    proof (cases "prv_deletedAt p = None")
      case True
      obtain out where out: "rbind (test_key vc cid p s) (\<lambda>k. conn (test_ctx p k model)) = out"
        by blast
      show ?thesis
      proof (cases out)
        case (Inr r)
        obtain row where "log_change vc (test_entry p r) s = (Inr (), s\<lparr>vs_audit := vs_audit s @ [row]\<rparr>)"
          using logged by blast
        then show ?thesis
          by (simp add: vault_test_def Some True out Inr)
      qed (simp add: vault_test_def Some True out)
    qed (simp add: vault_test_def Some)
  qed (simp add: vault_test_def)
qed

section \<open>A provider that goes down\<close>

definition ex_health :: health_state where
  "ex_health = (health_record ''v1'' ''f1'' ''box'' False ^^ 10) (fresh_monitor [] [])"

lemma ex_health_reachable: "health_reachable [] [] ex_health"
proof -
  have "health_reachable [] [] ((health_record ''v1'' ''f1'' ''box'' False ^^ n) (fresh_monitor [] []))" for n
    by (induction n) (auto intro: health_reachable.Start health_reachable.Step health_step.Recorded)
  then show ?thesis
    by (simp add: ex_health_def)
qed

lemma ex_health_before:
  "n \<le> 9 \<Longrightarrow> window_for ''v1'' ((health_record ''v1'' ''f1'' ''box'' False ^^ n) (fresh_monitor [] []))
     = \<lparr>hw_outcomes = replicate n False, hw_status = HUnknown\<rparr>"
proof (induction n)
  case 0
  then show ?case
    by (simp add: window_for_def fresh_monitor_def)
next
  case (Suc n)
  then show ?case
    by (simp add: view_record Let_def computeStatus_def MIN_SAMPLES_def push_outcome_def WINDOW_SIZE_def replicate_append_same)
qed

lemma ex_health_window: "window_for ''v1'' ex_health = \<lparr>hw_outcomes = replicate 10 False, hw_status = HDown\<rparr>"
proof -
  have last: "ex_health = health_record ''v1'' ''f1'' ''box'' False ((health_record ''v1'' ''f1'' ''box'' False ^^ 9) (fresh_monitor [] []))"
    unfolding ex_health_def by (simp only: funpow.simps(2) [of 9, simplified] comp_apply)
  have "False # replicate 9 False = replicate 10 False"
    by (simp add: numeral_eq_Suc)
  then show ?thesis
    unfolding last
    by (simp add: ex_health_before view_record Let_def computeStatus_def MIN_SAMPLES_def push_outcome_def WINDOW_SIZE_def failures_of_def
        DOWN_THRESHOLD_def replicate_append_same [of 9, simplified])
qed

theorem health_follows_traffic_witness:
  "length (hw_outcomes (window_for ''v1'' ex_health)) = 10 \<and> status_of ''v1'' ex_health = HDown"
  using health_follows_traffic [OF ex_health_reachable, of "''v1''"]
  by (simp add: ex_health_window failures_of_def Let_def)


end
