(* ===== verification/Executor.thy ===== *)
theory Executor
  imports Gateway
begin

text \<open>
  The resilient executor of \<^verbatim>\<open>src/src/resilience/executor.ts\<close>: the retry loop of one hop, the walk
  over the fallback chain with breaker, shed guard and audits, and the streaming walk with its
  hold-back of non-content frames. Both walks are total functions over the environment of
  \<open>Gateway\<close>; what they do is the trace they leave. The composite abort signal is read as
  \<open>dp_aborted\<close>, its total timer as \<open>dp_timedOut\<close>, the idle timer of a stream as \<open>dp_idleFired\<close>.
\<close>

section \<open>Audits\<close>

definition clipPath :: "string \<Rightarrow> string" where
  "clipPath p = take 200 p"

definition path_member :: "string option \<Rightarrow> (string \<times> json) list" where
  "path_member p = (case given p of None \<Rightarrow> [] | Some s \<Rightarrow> [(''path'', JStr (clipPath s))])"

definition audit_cx ::
    "pipeline_ctx \<Rightarrow> string \<Rightarrow> string option \<Rightarrow> (string \<times> json) list \<Rightarrow> world \<Rightarrow> world" where
  "audit_cx cx ev model det w =
     (case cx_auth cx of
        None \<Rightarrow> w
      | Some au \<Rightarrow>
          emit (Audited ((audit_for cx au ev (map_option tcl_key (cx_taskClass cx)) det)\<lparr>ae_model := model\<rparr>)) w)"

definition auditRejected :: "pipeline_ctx \<Rightarrow> string \<Rightarrow> finding_reason \<Rightarrow> string option \<Rightarrow> world \<Rightarrow> world" where
  "auditRejected cx model reason path w =
     audit_cx cx ''response_rejected'' (Some model) ((''reason'', JStr (reason_name reason)) # path_member path) w"

definition auditSoftFindings :: "pipeline_ctx \<Rightarrow> string \<Rightarrow> soft_finding list \<Rightarrow> world \<Rightarrow> world" where
  "auditSoftFindings cx model soft w =
     audit_cx cx ''response_soft_finding'' (Some model)
       [(''reason'', JStr ''schema_enum_miss''), (''count'', JNum (of_nat (length soft))),
        (''path'', JStr (clipPath (hd soft)))] w"

definition auditHop :: "pipeline_ctx \<Rightarrow> string \<Rightarrow> string \<Rightarrow> string \<Rightarrow> world \<Rightarrow> world" where
  "auditHop cx from to reason w =
     audit_cx cx ''fallback_hop'' None
       [(''from'', JStr from), (''to'', JStr to), (''reason'', JStr (take 300 reason))] w"

definition auditClamp :: "pipeline_ctx \<Rightarrow> route_decision \<Rightarrow> world \<Rightarrow> world" where
  "auditClamp cx r w =
     (case (maxTokens (cx_envelope cx), maxOutput (rt_model r)) of
        (Some requested, Some limit) \<Rightarrow>
          if requested \<le> limit then w
          else audit_cx cx ''max_tokens_clamped'' (Some (canonicalId (rt_model r)))
                 [(''requested'', JNum (of_int requested)), (''served'', JNum (of_int limit))] w
      | _ \<Rightarrow> w)"

section \<open>One hop\<close>

text \<open>Candidates: the selected primary, then the fallback chain without it.\<close>

definition candidateModels :: "pipeline_ctx \<Rightarrow> (thrown, string list) result" where
  "candidateModels cx =
     (case cx_effective cx of
        None \<Rightarrow> Inl (Routed ordering_violation)
      | Some eff \<Rightarrow>
          rbind (selectModel eff (cx_envelope cx)) (\<lambda>(primary, up).
            Inr (mdl_id primary # filter (\<lambda>i. i \<noteq> mdl_id primary) (fallbackChain (ep_policy eff)))))"

text \<open>Cloud hops get the redacted copy when there is one; the clamp is per hop.\<close>

definition hopEnvelope :: "route_decision \<Rightarrow> pipeline_ctx \<Rightarrow> ai_request" where
  "hopEnvelope r cx =
     clampToModel
       (case cx_cloudEnvelope cx of
          Some ce \<Rightarrow> if \<not> isLocalKind (providerKind (rt_model r)) then ce else cx_envelope cx
        | None \<Rightarrow> cx_envelope cx)
       (rt_model r)"

definition breaker_rec :: "deps \<Rightarrow> resilience_cfg \<Rightarrow> string \<Rightarrow> bool \<Rightarrow> world \<Rightarrow> world" where
  "breaker_rec dp cfg p ok w =
     emit (BreakerRecord p ok)
       (w\<lparr>wd_windows := fst (breaker_record (rc_breaker cfg) p ok (now_of dp w) (wd_windows w))\<rparr>)"

definition record_health :: "pipeline_ctx \<Rightarrow> route_decision \<Rightarrow> bool \<Rightarrow> world \<Rightarrow> world" where
  "record_health cx r ok w =
     (case cx_auth cx of
        None \<Rightarrow> w
      | Some au \<Rightarrow> emit (HealthRecord (prv_id (rt_provider r)) (au_firmId au) (prv_label (rt_provider r)) ok) w)"

text \<open>\<open>executeHopOnce\<close>: the adapter call, an await.\<close>

definition executeHopOnce ::
    "deps \<Rightarrow> route_decision \<Rightarrow> pipeline_ctx \<Rightarrow> world \<Rightarrow> (thrown, ai_response) result \<times> world" where
  "executeHopOnce dp r cx w =
     (dp_execute dp (wd_tick w) (hopEnvelope r cx) (rt_executeCtx r),
      yield_others dp (emit (AdapterCall r (hopEnvelope r cx)) w))"

definition finding_error :: "verify_finding \<Rightarrow> router_error" where
  "finding_error f =
     RouterError invalid_response (f_message f)
       (Some ((''reason'', JStr (reason_name (f_reason f))) # path_member (f_path f))) None"

text \<open>The verdict on an answered hop: the response, or the error its finding becomes.\<close>

definition judge ::
    "resilience_cfg \<Rightarrow> route_decision \<Rightarrow> pipeline_ctx \<Rightarrow> ai_response \<Rightarrow> world \<Rightarrow> (thrown, ai_response) result \<times> world" where
  "judge cfg r cx res w =
     (if rc_verifyResponses cfg = Some False then (Inr res, w)
      else
        (let (finding, soft) = verifyResponse res (hopEnvelope r cx) (rc_schemaValidationDefault cfg)
         in case finding of
              Some f \<Rightarrow>
                (Inl (Routed (finding_error f)),
                 auditRejected cx (canonicalId (rt_model r)) (f_reason f) (f_path f) w)
            | None \<Rightarrow>
                (Inr res,
                 if soft \<noteq> [] then auditSoftFindings cx (canonicalId (rt_model r)) soft w else w)))"

definition is_truncation :: "router_error \<Rightarrow> bool" where
  "is_truncation e =
     (code e = invalid_response
      \<and> Option.bind (detail e) (\<lambda>d. obj_get d ''reason'') = Some (JStr ''json_truncated''))"

text \<open>The body of the retry loop: finished, or go round again with the error. \<open>final\<close> tells whether
  this is the attempt number \<open>MAX_RETRIES\<close>.\<close>

datatype attempt_result = Finished "(router_error, ai_response) result" | Again router_error

definition hop_attempt ::
    "deps \<Rightarrow> resilience_cfg \<Rightarrow> route_decision \<Rightarrow> pipeline_ctx \<Rightarrow> bool \<Rightarrow> router_error option \<Rightarrow> world
      \<Rightarrow> attempt_result \<times> world" where
  "hop_attempt dp cfg r cx final lastErr w =
     (if dp_aborted dp (wd_tick w)
      then (Finished (Inl (nullish lastErr (router_error0 unknown ''aborted''))), advance w)
      else
        (let (out, w1) = executeHopOnce dp r cx (advance w);
             (out2, w2) = (case out of Inl t \<Rightarrow> (Inl t, w1) | Inr res \<Rightarrow> judge cfg r cx res w1)
         in case out2 of
              Inr res \<Rightarrow>
                (Finished (Inr res), record_health cx r True (breaker_rec dp cfg (prv_id (rt_provider r)) True w2))
            | Inl t \<Rightarrow>
                (let rerr = toRouterError t;
                     w3 = advance (if dp_aborted dp (wd_tick w2) then w2
                            else record_health cx r False (breaker_rec dp cfg (prv_id (rt_provider r)) False w2))
                 in if is_truncation rerr then (Finished (Inl rerr), w3)
                    else if \<not> retryable (code rerr) \<or> final \<or> dp_aborted dp (wd_tick w3)
                    then (Finished (Inl rerr), w3)
                    else if dp_sleepAborted dp (wd_tick w3) then (Finished (Inl rerr), yield_others dp w3)
                    else (Again rerr, yield_others dp w3))))"

text \<open>
  \<open>executeHopWithRetries\<close>: \<open>left\<close> attempts remain, so the attempt number is
  \<open>MAX_RETRIES + 1 - left\<close>.
\<close>

fun hop_attempts ::
    "deps \<Rightarrow> resilience_cfg \<Rightarrow> route_decision \<Rightarrow> pipeline_ctx \<Rightarrow> nat \<Rightarrow> router_error option \<Rightarrow> world
      \<Rightarrow> (router_error, ai_response) result \<times> world" where
  "hop_attempts dp cfg r cx 0 lastErr w =
     (Inl (nullish lastErr (router_error0 unknown ''retry loop exhausted'')), w)"
| "hop_attempts dp cfg r cx (Suc left) lastErr w =
     (case hop_attempt dp cfg r cx (left = 0) lastErr w of
        (Finished out, w') \<Rightarrow> (out, w')
      | (Again e, w') \<Rightarrow> hop_attempts dp cfg r cx left (Some e) w')"

definition executeHopWithRetries ::
    "deps \<Rightarrow> resilience_cfg \<Rightarrow> route_decision \<Rightarrow> pipeline_ctx \<Rightarrow> world \<Rightarrow> (router_error, ai_response) result \<times> world" where
  "executeHopWithRetries dp cfg r cx w = hop_attempts dp cfg r cx (MAX_RETRIES + 1) None w"

section \<open>Error preference\<close>

definition policySide :: "error_code \<Rightarrow> bool" where
  "policySide c = (c = capability_missing \<or> c = policy_blocked)"

definition preferError :: "router_error option \<Rightarrow> router_error \<Rightarrow> router_error" where
  "preferError prev next =
     (case prev of
        Some p \<Rightarrow> if policySide (code next) \<and> \<not> policySide (code p) then p else next
      | None \<Rightarrow> next)"

section \<open>Slots\<close>

text \<open>\<open>shed.acquire\<close> followed by the wait of a queued ticket, during which others run. A granted wait
  has been booked by the release that granted it.\<close>

definition take_slot :: "deps \<Rightarrow> resilience_cfg \<Rightarrow> string \<Rightarrow> world \<Rightarrow> bool \<times> world" where
  "take_slot dp cfg p w =
     (let (res, sh) = acquire (rc_shed cfg) p (wd_tick w) (wd_shed w);
          w1 = w\<lparr>wd_shed := sh\<rparr>
      in case res of
           Granted \<Rightarrow> (True, emit (SlotTaken p) (advance w1))
         | Rejected \<Rightarrow> (False, advance w1)
         | Queued \<Rightarrow>
             (let w2 = yield_others dp w1
              in if dp_waitGranted dp (wd_tick w2) then (True, emit (SlotTaken p) (advance w2))
                 else (False, advance (w2\<lparr>wd_shed := snd (abort_wait p (wd_tick w) (wd_shed w2))\<rparr>))))"

definition give_back :: "resilience_cfg \<Rightarrow> string \<Rightarrow> world \<Rightarrow> world" where
  "give_back cfg p w =
     emit (SlotReleased p) (w\<lparr>wd_shed := snd (release (rc_shed cfg) p (wd_shed w))\<rparr>)"

definition ask_breaker :: "deps \<Rightarrow> resilience_cfg \<Rightarrow> string \<Rightarrow> world \<Rightarrow> bool \<times> world" where
  "ask_breaker dp cfg p w =
     (let (ok, ws, ev) = allow (rc_breaker cfg) p (now_of dp w) (wd_windows w)
      in (ok, advance (w\<lparr>wd_windows := ws\<rparr>)))"

section \<open>The walk over the chain\<close>

abbreviation no_usable :: router_error where
  "no_usable \<equiv> router_error0 provider_unavailable ''no usable model in policy chain''"

text \<open>The end of the loop, reached by exhaustion or by a break: a fired total timer wins.\<close>

definition chain_end :: "deps \<Rightarrow> string \<Rightarrow> router_error option \<Rightarrow> world \<Rightarrow> router_error" where
  "chain_end dp msg lastErr w =
     (if dp_timedOut dp (wd_tick w)
      then RouterError provider_unavailable msg (Some [(''reason'', JStr ''total_timeout'')]) None
      else nullish lastErr no_usable)"

abbreviation shed_error :: router_error where
  "shed_error \<equiv> RouterError rate_limited ''upstream concurrency limit reached'' None (Some 1)"

definition open_error :: "provider_row \<Rightarrow> router_error" where
  "open_error p = router_error0 provider_unavailable (''circuit open for '' @ prv_label p)"

text \<open>The audits made before a hop that will be tried.\<close>

definition hop_start :: "pipeline_ctx \<Rightarrow> string \<Rightarrow> router_error option \<Rightarrow> route_decision \<Rightarrow> world \<Rightarrow> world" where
  "hop_start cx previousModel lastErr r w =
     auditClamp cx r
       (if previousModel \<noteq> []
        then auditHop cx previousModel (canonicalId (rt_model r))
               (nullish (map_option message lastErr) ''fallback'') w
        else w)"

text \<open>The part of the loop body both walks share, up to the slot: model lookup, routing, breaker,
  shed guard. The non-streaming walk also audits the hops it skips.\<close>

datatype gate_result = Skip "router_error option" string | Go route_decision

definition hop_gate ::
    "bool \<Rightarrow> deps \<Rightarrow> resilience_cfg \<Rightarrow> effective_policy \<Rightarrow> string \<Rightarrow> router_error option \<Rightarrow> string
      \<Rightarrow> pipeline_ctx \<Rightarrow> world \<Rightarrow> gate_result \<times> pipeline_ctx \<times> world" where
  "hop_gate audit_skips dp cfg eff i lastErr previousModel cx w =
     (case map_get (ep_modelsById eff) i of
        None \<Rightarrow> (Skip lastErr previousModel, cx, w)
      | Some m \<Rightarrow>
          (case routeForModel dp m cx w of
             (Inl t, cx1, w1) \<Rightarrow>
               (let rerr = toRouterError t
                in (Skip (Some (preferError lastErr rerr)) (canonicalId m), cx1,
                    if audit_skips \<and> previousModel \<noteq> []
                    then auditHop cx1 previousModel (canonicalId m) (''hop skipped: '' @ message rerr) w1
                    else w1))
           | (Inr r, cx1, w1) \<Rightarrow>
               (let (ok, w2) = ask_breaker dp cfg (prv_id (rt_provider r)) w1
                in if \<not> ok
                   then (Skip (Some (open_error (rt_provider r))) (canonicalId m), cx1,
                         auditHop cx1 (if previousModel \<noteq> [] then previousModel else canonicalId m)
                           (canonicalId m) ''breaker open'' w2)
                   else
                     (let (got, w3) = take_slot dp cfg (prv_id (rt_provider r)) w2
                      in if \<not> got then (Skip (Some shed_error) (canonicalId m), cx1, w3)
                         else (Go r, cx1, w3)))))"

text \<open>One round of the loop: an answer, a break, or the next candidate.\<close>

datatype 'a round = Serve 'a | Break router_error | Next "router_error option" string

definition chain_round ::
    "deps \<Rightarrow> resilience_cfg \<Rightarrow> effective_policy \<Rightarrow> string \<Rightarrow> router_error option \<Rightarrow> string
      \<Rightarrow> pipeline_ctx \<Rightarrow> world \<Rightarrow> ai_response round \<times> pipeline_ctx \<times> world" where
  "chain_round dp cfg eff i lastErr previousModel cx w =
     (case hop_gate True dp cfg eff i lastErr previousModel cx w of
        (Skip le pm, cx1, w1) \<Rightarrow> (Next le pm, cx1, w1)
      | (Go r, cx1, w3) \<Rightarrow>
          (let cx2 = cx1\<lparr>cx_route := Some r\<rparr>;
               w4 = hop_start cx1 previousModel lastErr r w3;
               (out, w5) = executeHopWithRetries dp cfg r cx2 w4;
               w6 = give_back cfg (prv_id (rt_provider r)) (advance w5)
           in (case out of
                 Inr res \<Rightarrow> Serve res
               | Inl e \<Rightarrow> if dp_aborted dp (wd_tick w5) then Break e
                          else Next (Some e) (canonicalId (rt_model r)), cx2, w6)))"

fun walk_chain ::
    "deps \<Rightarrow> resilience_cfg \<Rightarrow> effective_policy \<Rightarrow> string list \<Rightarrow> router_error option \<Rightarrow> string
      \<Rightarrow> pipeline_ctx \<Rightarrow> world \<Rightarrow> (router_error, ai_response) result \<times> pipeline_ctx \<times> world" where
  "walk_chain dp cfg eff [] lastErr previousModel cx w =
     (Inl (chain_end dp ''upstream timed out'' lastErr w), cx, advance w)"
| "walk_chain dp cfg eff (i # is) lastErr previousModel cx w =
     (if dp_aborted dp (wd_tick w)
      then (Inl (chain_end dp ''upstream timed out'' lastErr (advance w)), cx, advance (advance w))
      else
        (case chain_round dp cfg eff i lastErr previousModel cx (advance w) of
           (Serve res, cx', w') \<Rightarrow> (Inr res, cx', w')
         | (Break e, cx', w') \<Rightarrow> (Inl (chain_end dp ''upstream timed out'' (Some e) w'), cx', advance w')
         | (Next le pm, cx', w') \<Rightarrow> walk_chain dp cfg eff is le pm cx' w'))"

definition executeResilient ::
    "deps \<Rightarrow> resilience_cfg \<Rightarrow> pipeline_ctx \<Rightarrow> world \<Rightarrow> (router_error, ai_response) result \<times> pipeline_ctx \<times> world" where
  "executeResilient dp cfg cx w =
     (case cx_effective cx of
        None \<Rightarrow> (Inl ordering_violation, cx, w)
      | Some eff \<Rightarrow>
          (case candidateModels cx of
             Inl t \<Rightarrow> (Inl (toRouterError t), cx, w)
           | Inr ids \<Rightarrow> walk_chain dp cfg eff ids None [] cx w))"

section \<open>Streaming\<close>

fun isContent :: "stream_chunk \<Rightarrow> bool" where
  "isContent (TextDelta d) = True"
| "isContent (ToolCallStart i a b) = True"
| "isContent (ToolCallDelta i a) = True"
| "isContent (Finish f u) = False"

text \<open>
  The relay of one hop's chunks: what is yielded, given whether content has been seen, the frames
  held back, and how many chunks the consumer still takes (\<open>None\<close>: all). The second component
  tells whether the consumer stopped at a yield, the third whether content was seen.
\<close>

fun relay :: "bool \<Rightarrow> stream_chunk list \<Rightarrow> nat option \<Rightarrow> stream_chunk list \<Rightarrow> stream_chunk list \<times> bool \<times> bool" where
  "relay seen pending quota [] = ([], False, seen)"
| "relay seen pending quota (c # cs) =
     (if \<not> seen \<and> \<not> isContent c then relay seen (pending @ [c]) quota cs
      else
        (let out = (if seen then [c] else pending @ [c])
         in case quota of
              None \<Rightarrow> (let (ys, stopped, s) = relay True [] None cs in (out @ ys, stopped, s))
            | Some n \<Rightarrow>
                if length out \<ge> n then (take n out, True, True)
                else (let (ys, stopped, s) = relay True [] (Some (n - length out)) cs in (out @ ys, stopped, s))))"


abbreviation empty_stream_error :: router_error where
  "empty_stream_error \<equiv> RouterError invalid_response ''provider produced a stream with no content''
     (Some [(''reason'', JStr ''empty_response'')]) None"

abbreviation idle_error :: router_error where
  "idle_error \<equiv> RouterError provider_unavailable ''upstream stalled (idle timeout)''
     (Some [(''reason'', JStr ''stream_idle_timeout'')]) None"

text \<open>What a hop's stream comes to: done, stopped by the consumer, or an error with whether content
  was relayed.\<close>

datatype hop_end = HopDone | HopStopped | HopError thrown bool

definition hop_result :: "stream_end \<Rightarrow> stream_chunk list \<times> bool \<times> bool \<Rightarrow> hop_end" where
  "hop_result en rel =
     (let (ys, stopped, seen) = rel
      in if stopped then HopStopped
         else (case en of
                 StreamThrows t \<Rightarrow> HopError t seen
               | StreamDone \<Rightarrow> if seen then HopDone else HopError (Routed empty_stream_error) False))"

definition stream_round ::
    "deps \<Rightarrow> resilience_cfg \<Rightarrow> effective_policy \<Rightarrow> string \<Rightarrow> router_error option \<Rightarrow> string
      \<Rightarrow> pipeline_ctx \<Rightarrow> world \<Rightarrow> (stream_chunk list \<times> stream_outcome) round \<times> pipeline_ctx \<times> world" where
  "stream_round dp cfg eff i lastErr previousModel cx w =
     (case hop_gate False dp cfg eff i lastErr previousModel cx w of
        (Skip le pm, cx1, w1) \<Rightarrow> (Next le pm, cx1, w1)
      | (Go r, cx1, w3) \<Rightarrow>
          (let cx2 = cx1\<lparr>cx_route := Some r\<rparr>;
               w4 = hop_start cx1 previousModel lastErr r w3;
               (chunks, en) = dp_executeStream dp (wd_tick w4) (hopEnvelope r cx2) (rt_executeCtx r);
               w5 = yield_others dp (emit (StreamCall r (hopEnvelope r cx2)) w4);
               rel = relay False [] (dp_consumerTakes dp) chunks;
               p = prv_id (rt_provider r)
           in case hop_result en rel of
                HopDone \<Rightarrow> (Serve (fst rel, Completed), cx2, give_back cfg p (breaker_rec dp cfg p True w5))
              | HopStopped \<Rightarrow> (Serve (fst rel, Stopped), cx2, give_back cfg p w5)
              | HopError t seen \<Rightarrow>
                  (let idle = dp_idleFired dp (wd_tick w5);
                       aborted = dp_aborted dp (wd_tick w5);
                       rerr = (if idle then idle_error else toRouterError t);
                       w6 = advance (if \<not> aborted \<and> \<not> idle
                              then record_health cx2 r False (breaker_rec dp cfg p False w5) else w5);
                       w7 = (if code rerr = invalid_response
                             then auditRejected cx2 (canonicalId (rt_model r)) empty_response None w6 else w6)
                   in (if seen \<or> aborted \<or> idle then Serve (fst rel, Failed rerr)
                       else Next (Some rerr) (canonicalId (rt_model r)), cx2, give_back cfg p w7))))"

fun walk_stream ::
    "deps \<Rightarrow> resilience_cfg \<Rightarrow> effective_policy \<Rightarrow> string list \<Rightarrow> router_error option \<Rightarrow> string
      \<Rightarrow> pipeline_ctx \<Rightarrow> world \<Rightarrow> (stream_chunk list \<times> stream_outcome) \<times> pipeline_ctx \<times> world" where
  "walk_stream dp cfg eff [] lastErr previousModel cx w =
     (([], Failed (chain_end dp ''upstream timed out before first token'' lastErr w)), cx, advance w)"
| "walk_stream dp cfg eff (i # is) lastErr previousModel cx w =
     (if dp_aborted dp (wd_tick w)
      then (([], Failed (chain_end dp ''upstream timed out before first token'' lastErr (advance w))), cx,
            advance (advance w))
      else
        (case stream_round dp cfg eff i lastErr previousModel cx (advance w) of
           (Serve res, cx', w') \<Rightarrow> (res, cx', w')
         | (Break e, cx', w') \<Rightarrow> (([], Failed e), cx', w')
         | (Next le pm, cx', w') \<Rightarrow> walk_stream dp cfg eff is le pm cx' w'))"

definition executeResilientStream ::
    "deps \<Rightarrow> resilience_cfg \<Rightarrow> pipeline_ctx \<Rightarrow> world \<Rightarrow> (stream_chunk list \<times> stream_outcome) \<times> pipeline_ctx \<times> world" where
  "executeResilientStream dp cfg cx w =
     (case cx_effective cx of
        None \<Rightarrow> (([], Failed ordering_violation), cx, w)
      | Some eff \<Rightarrow>
          (case candidateModels cx of
             Inl t \<Rightarrow> (([], Failed (toRouterError t)), cx, w)
           | Inr ids \<Rightarrow> walk_stream dp cfg eff ids None [] cx w))"

end
