(* ===== verification/Executor_Trace.thy ===== *)
theory Executor_Trace
  imports Executor "HOL-Library.Sublist"
begin

text \<open>
  What the executor does, read off the trace it leaves. \<open>adds P w w'\<close> says that \<open>w'\<close> extends the
  trace of \<open>w\<close> by events that satisfy \<open>P\<close>; it composes, so one lemma per operation carries the
  proofs about both walks. The locale \<open>trace_measure\<close> does the same for a quantity counted over
  the trace (adapter calls, slots held). Properties: every call to a provider passed the gate of
  its hop and carries the hop's envelope, retries and chain bound the number of calls, slots are
  given back, an answer is one the verifier accepted, and a stream is never spliced.
\<close>

section \<open>Extending the trace\<close>

definition adds :: "(xevent \<Rightarrow> bool) \<Rightarrow> world \<Rightarrow> world \<Rightarrow> bool" where
  "adds P w w' \<longleftrightarrow> (\<exists>evs. wd_trace w' = wd_trace w @ evs \<and> (\<forall>ev\<in>set evs. P ev))"

lemma adds_refl [simp]: "adds P w w"
  by (simp add: adds_def)

lemma adds_trans: "adds P a b \<Longrightarrow> adds P b c \<Longrightarrow> adds P a c"
  by (fastforce simp: adds_def)

lemma adds_emit: "P ev \<Longrightarrow> adds P w (emit ev w)"
  by (simp add: adds_def emit_def)

lemma trace_advance [simp]: "wd_trace (advance w) = wd_trace w"
  by (simp add: advance_def)

lemma trace_yield [simp]: "wd_trace (yield_others dp w) = wd_trace w"
  by (simp add: yield_others_def Let_def split: prod.splits)

lemma trace_emit [simp]: "wd_trace (emit ev w) = wd_trace w @ [ev]"
  by (simp add: emit_def)

lemma adds_same: "wd_trace w' = wd_trace w \<Longrightarrow> adds P w w'"
  by (simp add: adds_def)

text \<open>Events that are not calls to a provider.\<close>

fun is_call :: "xevent \<Rightarrow> bool" where
  "is_call (AdapterCall r e) = True"
| "is_call (StreamCall r e) = True"
| "is_call _ = False"

fun is_slot :: "xevent \<Rightarrow> bool" where
  "is_slot (SlotTaken p) = True"
| "is_slot (SlotReleased p) = True"
| "is_slot _ = False"

definition quiet :: "xevent \<Rightarrow> bool" where
  "quiet ev \<longleftrightarrow> \<not> is_call ev \<and> \<not> is_slot ev"

lemma adds_mono: "adds P w w' \<Longrightarrow> (\<And>ev. P ev \<Longrightarrow> Q ev) \<Longrightarrow> adds Q w w'"
  by (auto simp: adds_def)

lemma audit_cx_quiet: "adds quiet w (audit_cx cx ev m d w)"
  by (auto simp: audit_cx_def quiet_def intro!: adds_emit split: option.splits)

lemma record_health_quiet: "adds quiet w (record_health cx r ok w)"
  by (auto simp: record_health_def quiet_def intro!: adds_emit split: option.splits)

lemma breaker_rec_quiet: "adds quiet w (breaker_rec dp cfg p ok w)"
  by (simp add: breaker_rec_def adds_def quiet_def)

lemma auditClamp_quiet: "adds quiet w (auditClamp cx r w)"
  by (auto simp: auditClamp_def audit_cx_quiet split: option.splits)

lemma auditHop_quiet: "adds quiet w (auditHop cx a b s w)"
  by (simp add: auditHop_def audit_cx_quiet)

lemma auditRejected_quiet: "adds quiet w (auditRejected cx m f p w)"
  by (simp add: auditRejected_def audit_cx_quiet)

lemma auditSoft_quiet: "adds quiet w (auditSoftFindings cx m s w)"
  by (simp add: auditSoftFindings_def audit_cx_quiet)

lemma hop_start_quiet: "adds quiet w (hop_start cx pm le r w)"
  unfolding hop_start_def by (cases "pm = []") (auto intro: adds_trans auditHop_quiet auditClamp_quiet)

lemma judge_quiet: "adds quiet w (snd (judge cfg r cx res w))"
  by (auto simp: judge_def auditRejected_quiet auditSoft_quiet split: prod.splits option.splits)

lemma ask_breaker_quiet: "adds quiet w (snd (ask_breaker dp cfg p w))"
  by (auto simp: ask_breaker_def Let_def intro: adds_same split: prod.splits)

lemma routeForModel_quiet: "routeForModel dp m cx w = (r, cx', w') \<Longrightarrow> adds quiet w w'"
  using routeForModel_frame by (fastforce simp: adds_def quiet_def)

lemma auditHop_adds: "adds quiet w w' \<Longrightarrow> adds quiet w (auditHop cx a b s w')"
  by (rule adds_trans [OF _ auditHop_quiet])

lemmas quiet_intros = audit_cx_quiet record_health_quiet breaker_rec_quiet auditClamp_quiet auditHop_quiet
  auditRejected_quiet auditSoft_quiet hop_start_quiet judge_quiet ask_breaker_quiet

section \<open>Counting over the trace\<close>

text \<open>An integer weight per event, summed over the trace.\<close>

definition weight :: "(xevent \<Rightarrow> int) \<Rightarrow> world \<Rightarrow> int" where
  "weight f w = sum_list (map f (wd_trace w))"

lemma weight_same: "wd_trace w' = wd_trace w \<Longrightarrow> weight f w' = weight f w"
  by (simp add: weight_def)

lemma weight_simps [simp]:
  "weight f (advance w) = weight f w" "weight f (yield_others dp w) = weight f w"
  "weight f (emit ev w) = weight f w + f ev"
  by (simp_all add: weight_def)

text \<open>A weight that ignores the quiet events; each operation of a hop then has a known effect.\<close>

locale trace_measure =
  fixes f :: "xevent \<Rightarrow> int"
  assumes quiet_zero: "quiet ev \<Longrightarrow> f ev = 0"
begin

lemma weight_quiet: "adds quiet w w' \<Longrightarrow> weight f w' = weight f w"
proof -
  assume "adds quiet w w'"
  then obtain evs where evs: "wd_trace w' = wd_trace w @ evs" "\<forall>ev\<in>set evs. quiet ev"
    by (auto simp: adds_def)
  have "\<forall>ev\<in>set es. quiet ev \<Longrightarrow> sum_list (map f es) = 0" for es
    by (induction es) (auto simp: quiet_zero)
  with evs show ?thesis
    by (simp add: weight_def)
qed

lemma weight_once:
  "weight f (snd (executeHopOnce dp r cx w)) = weight f w + f (AdapterCall r (hopEnvelope r cx))"
  by (simp add: executeHopOnce_def)

lemma weight_take:
  "take_slot dp cfg p w = (got, w') \<Longrightarrow> weight f w' = weight f w + (if got then f (SlotTaken p) else 0)"
  by (auto simp: take_slot_def Let_def weight_def split: prod.splits acquire_result.splits if_splits)

lemma weight_back: "weight f (give_back cfg p w) = weight f w + f (SlotReleased p)"
  by (simp add: give_back_def weight_def)

lemma weight_attempt:
  "weight f (snd (hop_attempt dp cfg r cx final le w)) \<in> {weight f w, weight f w + f (AdapterCall r (hopEnvelope r cx))}"
proof (cases "dp_aborted dp (wd_tick w)")
  case True
  then show ?thesis
    by (simp add: hop_attempt_def)
next
  case False
  obtain out w1 where once: "executeHopOnce dp r cx (advance w) = (out, w1)"
    by (cases "executeHopOnce dp r cx (advance w)")
  obtain out2 w2 where judged:
    "(case out of Inl t \<Rightarrow> (Inl t, w1) | Inr res \<Rightarrow> judge cfg r cx res w1) = (out2, w2)"
    by (cases "case out of Inl t \<Rightarrow> (Inl t, w1) | Inr res \<Rightarrow> judge cfg r cx res w1")
  have "adds quiet w1 w2"
    using judged judge_quiet [of w1 cfg r cx] by (cases out) (auto, metis snd_conv)
  then have w2: "weight f w2 = weight f w + f (AdapterCall r (hopEnvelope r cx))"
    using weight_once [of dp r cx "advance w"] once by (simp add: weight_quiet)
  have rec: "weight f (record_health cx r ok (breaker_rec dp cfg p ok w2)) = weight f w2" for p ok
    by (rule weight_quiet [OF adds_trans [OF breaker_rec_quiet record_health_quiet]])
  show ?thesis
    using False once judged w2 rec by (cases out2) (simp_all add: hop_attempt_def Let_def)
qed

text \<open>A whole hop weighs between zero and, for each attempt, the weight of its call.\<close>

lemma weight_attempts:
  assumes "0 \<le> f (AdapterCall r (hopEnvelope r cx))"
  shows "weight f w \<le> weight f (snd (hop_attempts dp cfg r cx n le w))
    \<and> weight f (snd (hop_attempts dp cfg r cx n le w))
        \<le> weight f w + int n * f (AdapterCall r (hopEnvelope r cx))"
proof (induction n arbitrary: le w)
  case (Suc n)
  obtain a w' where att: "hop_attempt dp cfg r cx (n = 0) le w = (a, w')"
    by (cases "hop_attempt dp cfg r cx (n = 0) le w")
  with weight_attempt [of dp cfg r cx "n = 0" le w]
  have w': "weight f w' \<in> {weight f w, weight f w + f (AdapterCall r (hopEnvelope r cx))}"
    by simp
  show ?case
  proof (cases a)
    case (Finished out)
    with att w' assms show ?thesis
      by (auto simp: algebra_simps)
  next
    case (Again e)
    with att w' assms Suc.IH [where le = "Some e" and w = w'] show ?thesis
      by (auto simp: algebra_simps)
  qed
qed simp

end

fun call_weight :: "xevent \<Rightarrow> int" where
  "call_weight (AdapterCall r e) = 1"
| "call_weight (StreamCall r e) = 1"
| "call_weight _ = 0"

definition slot_weight :: "string \<Rightarrow> xevent \<Rightarrow> int" where
  "slot_weight p ev = (case ev of SlotTaken q \<Rightarrow> (if q = p then 1 else 0)
     | SlotReleased q \<Rightarrow> (if q = p then - 1 else 0) | _ \<Rightarrow> 0)"

interpretation calls: trace_measure call_weight
proof unfold_locales
  fix ev
  assume "quiet ev"
  then show "call_weight ev = 0"
    by (cases ev) (auto simp: quiet_def)
qed

interpretation slots: trace_measure "slot_weight p" for p
proof unfold_locales
  fix ev
  assume "quiet ev"
  then show "slot_weight p ev = 0"
    by (cases ev) (auto simp: quiet_def slot_weight_def)
qed

section \<open>Rounds\<close>

text \<open>Two contexts that agree on what a hop depends on.\<close>

definition same_request :: "pipeline_ctx \<Rightarrow> pipeline_ctx \<Rightarrow> bool" where
  "same_request a b \<longleftrightarrow> cx_auth a = cx_auth b \<and> cx_effective a = cx_effective b \<and> cx_envelope a = cx_envelope b
     \<and> cx_cloudEnvelope a = cx_cloudEnvelope b \<and> cx_cloudBlockedCounts a = cx_cloudBlockedCounts b"

lemma same_request_refl [simp]: "same_request a a"
  by (simp add: same_request_def)

lemma same_request_trans: "same_request a b \<Longrightarrow> same_request b c \<Longrightarrow> same_request a c"
  by (simp add: same_request_def)

lemma same_request_route [simp]: "same_request a (b\<lparr>cx_route := r\<rparr>) = same_request a b"
  by (simp add: same_request_def)

lemma hopEnvelope_same: "same_request a b \<Longrightarrow> hopEnvelope r a = hopEnvelope r b"
  by (auto simp: hopEnvelope_def same_request_def split: option.split)

lemma hopEnvelope_route [simp]: "hopEnvelope r (cx\<lparr>cx_route := x\<rparr>) = hopEnvelope r cx"
  by (auto simp: hopEnvelope_def split: option.split)

lemma routeForModel_same: "routeForModel dp m cx w = (r, cx', w') \<Longrightarrow> same_request cx cx'"
  using routeForModel_frame [of dp m cx w r cx' w']
  by (metis (no_types, lifting) pipeline_ctx.select_convs pipeline_ctx.surjective pipeline_ctx.update_convs(14) same_request_def)

text \<open>The gate: a route that passed it, for a model of the chain, holding the slot it took.\<close>

lemma hop_gate_facts:
  assumes "hop_gate b dp cfg eff i le pm cx w = (g, cx', w')" "cx_effective cx = Some eff"
  shows "same_request cx cx'
    \<and> weight call_weight w' = weight call_weight w
    \<and> (case g of
         Skip _ _ \<Rightarrow> (\<forall>p. weight (slot_weight p) w' = weight (slot_weight p) w)
       | Go r \<Rightarrow> hop_ok dp eff (cx_envelope cx) (cx_cloudBlockedCounts cx) r
           \<and> map_get (ep_modelsById eff) i = Some (rt_model r)
           \<and> (\<forall>p. weight (slot_weight p) w' = weight (slot_weight p) w + (if p = prv_id (rt_provider r) then 1 else 0)))"
proof (cases "map_get (ep_modelsById eff) i")
  case None
  with assms show ?thesis
    by (auto simp: hop_gate_def)
next
  case (Some m)
  obtain res cx1 w1 where route: "routeForModel dp m cx w = (res, cx1, w1)"
    by (metis prod_cases3)
  note q1 = routeForModel_quiet [OF route] and same = routeForModel_same [OF route]
  show ?thesis
  proof (cases res)
    case (Inl t)
    have "adds quiet w w'"
      using assms(1) Some route Inl q1 by (auto simp: hop_gate_def Let_def intro: auditHop_adds)
    with assms(1) Some route Inl same show ?thesis
      by (auto simp: hop_gate_def Let_def calls.weight_quiet slots.weight_quiet)
  next
    case (Inr r)
    from routeForModel_ok [OF route [unfolded Inr]] assms(2)
    have ok: "hop_ok dp eff (cx_envelope cx) (cx_cloudBlockedCounts cx) r" "rt_model r = m"
      by auto
    obtain allowed w2 where brk: "ask_breaker dp cfg (prv_id (rt_provider r)) w1 = (allowed, w2)"
      by (cases "ask_breaker dp cfg (prv_id (rt_provider r)) w1")
    have q2: "adds quiet w w2"
      using q1 ask_breaker_quiet [of w1 dp cfg "prv_id (rt_provider r)"] brk by (auto intro: adds_trans)
    obtain got w3 where slot: "take_slot dp cfg (prv_id (rt_provider r)) w2 = (got, w3)"
      by (cases "take_slot dp cfg (prv_id (rt_provider r)) w2")
    show ?thesis
    proof (cases allowed)
      case False
      then have "adds quiet w w'"
        using assms(1) Some route Inr brk q2 by (auto simp: hop_gate_def Let_def intro: auditHop_adds)
      with False assms(1) Some route Inr brk same show ?thesis
        by (auto simp: hop_gate_def Let_def calls.weight_quiet slots.weight_quiet)
    next
      case True
      then have "w' = w3" "cx' = cx1" "g = (if got then Go r else Skip (Some shed_error) (canonicalId m))"
        using assms(1) Some route Inr brk slot by (auto simp: hop_gate_def Let_def split: if_splits)
      then show ?thesis
        using same ok Some calls.weight_take [OF slot] slots.weight_take [OF slot]
          calls.weight_quiet [OF q2] slots.weight_quiet [OF q2]
        by (auto simp: slot_weight_def)
    qed
  qed
qed

section \<open>Calls in the trace\<close>

text \<open>A call to a provider: its route passed the gate, its model is one of \<open>M\<close>, and the
  envelope sent is the hop's own.\<close>

fun call_ok :: "model_row set \<Rightarrow> deps \<Rightarrow> effective_policy \<Rightarrow> pipeline_ctx \<Rightarrow> xevent \<Rightarrow> bool" where
  "call_ok M dp eff cx (AdapterCall r e) =
     (hop_ok dp eff (cx_envelope cx) (cx_cloudBlockedCounts cx) r
      \<and> rt_model r \<in> M \<and> e = hopEnvelope r cx)"
| "call_ok M dp eff cx (StreamCall r e) =
     (hop_ok dp eff (cx_envelope cx) (cx_cloudBlockedCounts cx) r
      \<and> rt_model r \<in> M \<and> e = hopEnvelope r cx)"
| "call_ok M dp eff cx _ = True"

lemma quiet_call_ok: "adds quiet w w' \<Longrightarrow> adds (call_ok M dp eff cx) w w'"
proof (erule adds_mono)
  fix ev
  assume "quiet ev"
  then show "call_ok M dp eff cx ev"
    by (cases ev) (auto simp: quiet_def)
qed

lemma call_ok_same: "same_request cx cx' \<Longrightarrow> call_ok M dp eff cx' = call_ok M dp eff cx"
proof (rule ext)
  fix ev
  assume "same_request cx cx'"
  then show "call_ok M dp eff cx' ev = call_ok M dp eff cx ev"
    by (cases ev) (auto simp: same_request_def hopEnvelope_same [of cx cx'])
qed

lemma take_slot_calls: "adds (call_ok M dp' eff cx) w (snd (take_slot dp cfg p w))"
  by (auto simp: take_slot_def Let_def adds_def split: prod.splits acquire_result.splits)

lemma give_back_calls: "adds (call_ok M dp eff cx) w (give_back cfg p w)"
  by (simp add: give_back_def adds_def)

lemma hop_gate_calls:
  assumes "hop_gate b dp cfg eff i le pm cx w = (g, cx', w')"
  shows "adds (call_ok M dp eff c) w w'"
proof (cases "map_get (ep_modelsById eff) i")
  case None
  with assms show ?thesis
    by (auto simp: hop_gate_def)
next
  case (Some m)
  obtain res cx1 w1 where route: "routeForModel dp m cx w = (res, cx1, w1)"
    by (metis prod_cases3)
  note q1 = routeForModel_quiet [OF route]
  show ?thesis
  proof (cases res)
    case (Inl t)
    then have "adds quiet w w'"
      using assms Some route q1 by (auto simp: hop_gate_def Let_def intro: auditHop_adds)
    then show ?thesis
      by (rule quiet_call_ok)
  next
    case (Inr r)
    obtain allowed w2 where brk: "ask_breaker dp cfg (prv_id (rt_provider r)) w1 = (allowed, w2)"
      by (cases "ask_breaker dp cfg (prv_id (rt_provider r)) w1")
    have q2: "adds quiet w w2"
      using q1 ask_breaker_quiet [of w1 dp cfg "prv_id (rt_provider r)"] brk by (auto intro: adds_trans)
    obtain got w3 where slot: "take_slot dp cfg (prv_id (rt_provider r)) w2 = (got, w3)"
      by (cases "take_slot dp cfg (prv_id (rt_provider r)) w2")
    have "adds (call_ok M dp eff c) w w3"
      using take_slot_calls [of M dp eff c w2 dp cfg "prv_id (rt_provider r)"] slot
        adds_trans [OF quiet_call_ok [OF q2]] by simp
    moreover have "adds (call_ok M dp eff c) w (auditHop cx1 x y z w2)" for x y z
      by (rule quiet_call_ok [OF auditHop_adds [OF q2]])
    moreover have "w' = w3 \<or> (\<exists>x y z. w' = auditHop cx1 x y z w2)"
      using assms Some route Inr brk slot by (auto simp: hop_gate_def Let_def split: if_splits)
    ultimately show ?thesis
      by auto
  qed
qed

lemma attempt_calls:
  assumes "call_ok M dp eff cx (AdapterCall r (hopEnvelope r cx))"
  shows "adds (call_ok M dp eff cx) w (snd (hop_attempt dp cfg r cx final le w))"
proof (cases "dp_aborted dp (wd_tick w)")
  case True
  then show ?thesis
    by (simp add: hop_attempt_def adds_same)
next
  case False
  obtain out w1 where once: "executeHopOnce dp r cx (advance w) = (out, w1)"
    by (cases "executeHopOnce dp r cx (advance w)")
  obtain out2 w2 where judged:
    "(case out of Inl t \<Rightarrow> (Inl t, w1) | Inr res \<Rightarrow> judge cfg r cx res w1) = (out2, w2)"
    by (cases "case out of Inl t \<Rightarrow> (Inl t, w1) | Inr res \<Rightarrow> judge cfg r cx res w1")
  have "adds (call_ok M dp eff cx) w w1"
    using once assms by (auto simp: executeHopOnce_def adds_def)
  moreover have "adds quiet w1 w2"
    using judged judge_quiet [of w1 cfg r cx] by (cases out) (auto, metis snd_conv)
  ultimately have w2: "adds (call_ok M dp eff cx) w w2"
    by (blast intro: adds_trans quiet_call_ok)
  moreover have "adds (call_ok M dp eff cx) w2 (record_health cx r ok (breaker_rec dp cfg p ok w2))" for p ok
    by (intro quiet_call_ok adds_trans [OF breaker_rec_quiet record_health_quiet])
  ultimately have rec: "adds (call_ok M dp eff cx) w (record_health cx r ok (breaker_rec dp cfg p ok w2))" for p ok
    by (blast intro: adds_trans)
  have shift: "adds P a (advance b) = adds P a b" "adds P a (yield_others dp b) = adds P a b" for P a b
    by (simp_all add: adds_def)
  show ?thesis
    using False once judged w2 rec by (cases out2) (simp_all add: hop_attempt_def Let_def shift)
qed

lemma attempts_calls:
  assumes "call_ok M dp eff cx (AdapterCall r (hopEnvelope r cx))"
  shows "adds (call_ok M dp eff cx) w (snd (hop_attempts dp cfg r cx n le w))"
proof (induction n arbitrary: le w)
  case (Suc n)
  obtain a w' where att: "hop_attempt dp cfg r cx (n = 0) le w = (a, w')"
    by (cases "hop_attempt dp cfg r cx (n = 0) le w")
  with attempt_calls [OF assms, of w cfg "n = 0" le] have "adds (call_ok M dp eff cx) w w'"
    by simp
  with att Suc.IH show ?case
    by (cases a) (auto intro: adds_trans)
qed simp

section \<open>Answers\<close>

text \<open>An answer of a hop: the adapter gave it to the hop's envelope and the verifier, unless switched
  off, accepted it.\<close>

definition answered :: "deps \<Rightarrow> resilience_cfg \<Rightarrow> pipeline_ctx \<Rightarrow> route_decision \<Rightarrow> ai_response \<Rightarrow> bool" where
  "answered dp cfg cx r res \<longleftrightarrow>
     (\<exists>t. dp_execute dp t (hopEnvelope r cx) (rt_executeCtx r) = Inr res)
     \<and> (rc_verifyResponses cfg \<noteq> Some False \<longrightarrow>
          fst (verifyResponse res (hopEnvelope r cx) (rc_schemaValidationDefault cfg)) = None)"

lemma judge_accepts:
  "judge cfg r cx res w = (Inr res', w') \<Longrightarrow> res' = res
     \<and> (rc_verifyResponses cfg \<noteq> Some False \<longrightarrow>
          fst (verifyResponse res (hopEnvelope r cx) (rc_schemaValidationDefault cfg)) = None)"
  by (auto simp: judge_def split: if_splits prod.splits option.splits)

lemma attempt_answered:
  assumes "hop_attempt dp cfg r cx final le w = (Finished (Inr res), w')"
  shows "answered dp cfg cx r res"
proof -
  obtain out w1 where once: "executeHopOnce dp r cx (advance w) = (out, w1)"
    by (cases "executeHopOnce dp r cx (advance w)")
  obtain out2 w2 where judged:
    "(case out of Inl t \<Rightarrow> (Inl t, w1) | Inr res \<Rightarrow> judge cfg r cx res w1) = (out2, w2)"
    by (cases "case out of Inl t \<Rightarrow> (Inl t, w1) | Inr res \<Rightarrow> judge cfg r cx res w1")
  have "out2 = Inr res"
    using assms once judged by (auto simp: hop_attempt_def Let_def split: if_splits sum.splits)
  with judged judge_accepts obtain res0 where "out = Inr res0" "judge cfg r cx res0 w1 = (Inr res, w2)"
    by (cases out) auto
  with once show ?thesis
    using judge_accepts [of cfg r cx res0 w1 res w2] by (auto simp: answered_def executeHopOnce_def)
qed

lemma attempts_answered:
  "hop_attempts dp cfg r cx n le w = (Inr res, w') \<Longrightarrow> answered dp cfg cx r res"
  by (induction n arbitrary: le w)
     (auto dest: attempt_answered split: prod.splits attempt_result.splits)

section \<open>A round of the walk\<close>

lemma answered_route [simp]: "answered dp cfg (cx\<lparr>cx_route := x\<rparr>) = answered dp cfg cx"
  by (intro ext) (simp add: answered_def)

lemma answered_same: "same_request cx cx' \<Longrightarrow> answered dp cfg cx' = answered dp cfg cx"
  by (intro ext) (simp add: answered_def hopEnvelope_same [of cx cx'])

definition served_by ::
    "deps \<Rightarrow> resilience_cfg \<Rightarrow> effective_policy \<Rightarrow> pipeline_ctx \<Rightarrow> pipeline_ctx \<Rightarrow> ai_response \<Rightarrow> bool" where
  "served_by dp cfg eff cx cx' res \<longleftrightarrow>
     (\<exists>r. cx_route cx' = Some r \<and> hop_ok dp eff (cx_envelope cx) (cx_cloudBlockedCounts cx) r
        \<and> rt_model r \<in> set (map_vals (ep_modelsById eff)) \<and> answered dp cfg cx r res)"

lemma served_by_same: "same_request cx cx1 \<Longrightarrow> served_by dp cfg eff cx1 cx' res = served_by dp cfg eff cx cx' res"
  by (simp add: served_by_def answered_same) (simp add: same_request_def)

lemma attempts_slots:
  "weight (slot_weight p) (snd (hop_attempts dp cfg r cx n le w)) = weight (slot_weight p) w"
  using slots.weight_attempts [where p = p and r = r and cx = cx and w = w and dp = dp and cfg = cfg and n = n and le = le]
  by (simp add: slot_weight_def)

lemma attempts_count:
  "weight call_weight w \<le> weight call_weight (snd (hop_attempts dp cfg r cx n le w))
   \<and> weight call_weight (snd (hop_attempts dp cfg r cx n le w)) \<le> weight call_weight w + int n"
  using calls.weight_attempts [where r = r and cx = cx and w = w and dp = dp and cfg = cfg and n = n and le = le] by simp

lemma chain_round_facts:
  assumes "chain_round dp cfg eff i le pm cx w = (out, cx', w')" "cx_effective cx = Some eff"
    and M: "\<And>m. map_get (ep_modelsById eff) i = Some m \<Longrightarrow> m \<in> M"
  shows "same_request cx cx' \<and> adds (call_ok M dp eff cx) w w'
    \<and> (\<forall>p. weight (slot_weight p) w' = weight (slot_weight p) w)
    \<and> weight call_weight w \<le> weight call_weight w'
    \<and> weight call_weight w' \<le> weight call_weight w + int (MAX_RETRIES + 1)
    \<and> (\<forall>res. out = Serve res \<longrightarrow> served_by dp cfg eff cx cx' res)"
proof -
  obtain g cx1 w3 where gate: "hop_gate True dp cfg eff i le pm cx w = (g, cx1, w3)"
    by (metis prod_cases3)
  note facts = hop_gate_facts [OF gate assms(2)] and gcalls = hop_gate_calls [OF gate, of M]
  show ?thesis
  proof (cases g)
    case (Skip a b)
    with assms gate facts gcalls show ?thesis
      by (auto simp: chain_round_def)
  next
    case (Go r)
    define cx2 where "cx2 = cx1\<lparr>cx_route := Some r\<rparr>"
    define w4 where "w4 = hop_start cx1 pm le r w3"
    obtain o5 w5 where hop: "hop_attempts dp cfg r cx2 (MAX_RETRIES + 1) None w4 = (o5, w5)"
      by (cases "hop_attempts dp cfg r cx2 (MAX_RETRIES + 1) None w4")
    have res: "cx' = cx2" "w' = give_back cfg (prv_id (rt_provider r)) (advance w5)"
      "\<And>x. out = Serve x \<Longrightarrow> o5 = Inr x"
      using assms(1) gate Go hop
      by (auto simp: chain_round_def Let_def cx2_def w4_def executeHopWithRetries_def split: sum.splits if_splits)
    from facts Go have same: "same_request cx cx2"
      and ok: "hop_ok dp eff (cx_envelope cx) (cx_cloudBlockedCounts cx) r"
      and mem: "rt_model r \<in> set (map_vals (ep_modelsById eff))" "rt_model r \<in> M"
      using M by (auto simp: cx2_def dest: map_get_vals)
    have q4: "adds quiet w3 w4"
      by (simp add: w4_def hop_start_quiet)
    have c5: "adds (call_ok M dp eff cx) w4 w5"
      using attempts_calls [of M dp eff cx2 r w4 cfg "MAX_RETRIES + 1" None] hop ok mem
      by (simp add: call_ok_same [OF same] hopEnvelope_same [OF same])
    have "adds (call_ok M dp eff cx) w w5"
      by (intro adds_trans [OF gcalls] adds_trans [OF quiet_call_ok [OF q4]] c5)
    then have calls: "adds (call_ok M dp eff cx) w w'"
      using adds_trans [OF _ give_back_calls] res(2) by (metis adds_same adds_trans trace_advance)
    have slots: "weight (slot_weight p) w' = weight (slot_weight p) w" for p
      using facts Go res(2) slots.weight_back slots.weight_quiet [OF q4] attempts_slots [of p dp cfg r cx2 "MAX_RETRIES + 1" None w4] hop
      by (auto simp: slot_weight_def)
    have count: "weight call_weight w \<le> weight call_weight w'"
      "weight call_weight w' \<le> weight call_weight w + int (MAX_RETRIES + 1)"
      using facts Go res(2) calls.weight_back calls.weight_quiet [OF q4]
        attempts_count [of w4 dp cfg r cx2 "MAX_RETRIES + 1" None] hop by auto
    have "served_by dp cfg eff cx cx' x" if "out = Serve x" for x
    proof -
      from hop res(3) [OF that] have "answered dp cfg cx2 r x"
        by (blast intro: attempts_answered)
      with ok mem res(1) same show ?thesis
        by (auto simp: served_by_def answered_same) (auto simp: cx2_def)
    qed
    with same calls slots count res(1) show ?thesis
      by simp
  qed
qed

section \<open>A round of the streaming walk\<close>

text \<open>What the relay yields: everything once content was seen, nothing without content, and the
  first \<open>n\<close> frames to a consumer that stops after \<open>n\<close>.\<close>

lemma relay_spec:
  "relay seen pending q cs = (ys, stopped, s) \<Longrightarrow> (seen \<longrightarrow> pending = []) \<Longrightarrow>
     (s \<longleftrightarrow> seen \<or> (\<exists>c\<in>set cs. isContent c))
     \<and> (if stopped then s \<and> (\<exists>n. q = Some n \<and> n \<le> length (pending @ cs) \<and> ys = take n (pending @ cs))
        else ys = (if s then pending @ cs else []))"
proof (induction seen pending q cs arbitrary: ys stopped s rule: relay.induct)
  case (2 seen pending q c cs)
  show ?case
  proof (cases "\<not> seen \<and> \<not> isContent c")
    case True
    with 2(4,5) 2(1) [OF True, of ys stopped s] show ?thesis
      by (auto simp del: take_append split: if_splits)
  next
    case False
    define out where "out = (if seen then [c] else pending @ [c])"
    have out: "pending @ c # cs = out @ cs"
      using 2(5) by (simp add: out_def)
    show ?thesis
    proof (cases "\<exists>n. q = Some n \<and> n \<le> length out")
      case True
      with False 2(4) show ?thesis
        unfolding out by (auto simp: out_def split: if_splits)
    next
      case more: False
      then obtain q' ys' where rec: "relay True [] q' cs = (ys', stopped, s)" "ys = out @ ys'"
        and q': "q' = map_option (\<lambda>n. n - length out) q"
        using False 2(4) by (auto simp: out_def Let_def split: prod.splits option.splits if_splits)
      have IH: "s \<and> (if stopped then \<exists>n. q' = Some n \<and> n \<le> length cs \<and> ys' = take n cs else ys' = cs)"
      proof (cases q)
        case None
        with False rec q' 2(2) [of out ys' stopped s] show ?thesis
          by (auto simp: out_def split: if_splits)
      next
        case (Some n)
        with more False rec q' 2(3) [of out n ys' stopped s] show ?thesis
          by (auto simp: out_def split: if_splits)
      qed
      with rec more q' False show ?thesis
        unfolding out by (cases q) (auto simp: out_def not_le)
    qed
  qed
qed auto

text \<open>One hop's stream as the consumer sees it: the frames yielded and the ending come from a
  single provider stream.\<close>

definition streamed ::
    "deps \<Rightarrow> pipeline_ctx \<Rightarrow> route_decision \<Rightarrow> stream_chunk list \<Rightarrow> stream_outcome \<Rightarrow> bool" where
  "streamed dp cx r ys oc \<longleftrightarrow>
     (\<exists>t chunks en. dp_executeStream dp t (hopEnvelope r cx) (rt_executeCtx r) = (chunks, en)
        \<and> prefix ys chunks
        \<and> (oc = Completed \<longrightarrow> ys = chunks \<and> en = StreamDone \<and> (\<exists>c\<in>set chunks. isContent c))
        \<and> (oc = Stopped \<longrightarrow> dp_consumerTakes dp = Some (length ys))
        \<and> (ys \<noteq> [] \<longrightarrow> (\<exists>c\<in>set chunks. isContent c)))"

lemma streamed_route [simp]: "streamed dp (cx\<lparr>cx_route := x\<rparr>) = streamed dp cx"
  by (intro ext) (simp add: streamed_def)

lemma streamed_same: "same_request cx cx' \<Longrightarrow> streamed dp cx' = streamed dp cx"
  by (intro ext) (simp add: streamed_def hopEnvelope_same [of cx cx'])

lemma streamed_hop:
  assumes stream: "dp_executeStream dp t (hopEnvelope r cx) (rt_executeCtx r) = (chunks, en)"
    and rel: "rel = relay False [] (dp_consumerTakes dp) chunks"
  shows "case hop_result en rel of
           HopDone \<Rightarrow> streamed dp cx r (fst rel) Completed
         | HopStopped \<Rightarrow> streamed dp cx r (fst rel) Stopped
         | HopError th seen \<Rightarrow> streamed dp cx r (fst rel) (Failed e) \<and> (\<not> seen \<longrightarrow> fst rel = [])"
proof -
  obtain ys stopped s where ys: "rel = (ys, stopped, s)"
    by (metis prod_cases3)
  from relay_spec [of False "[]" "dp_consumerTakes dp" chunks ys stopped s] rel ys
  have spec: "s \<longleftrightarrow> (\<exists>c\<in>set chunks. isContent c)"
    "stopped \<Longrightarrow> s \<and> (\<exists>n. dp_consumerTakes dp = Some n \<and> n \<le> length chunks \<and> ys = take n chunks)"
    "\<not> stopped \<Longrightarrow> ys = (if s then chunks else [])"
    by (auto split: if_splits)
  show ?thesis
  proof (cases stopped)
    case True
    from spec(2) [OF True] obtain n where n: "dp_consumerTakes dp = Some n" "n \<le> length chunks"
      "ys = take n chunks" s
      by blast
    then have "dp_consumerTakes dp = Some (length ys)" "prefix ys chunks"
      by (auto simp: take_is_prefix)
    with True n spec(1) stream ys show ?thesis
      by (auto simp: hop_result_def streamed_def)
  next
    case False
    with spec(1) spec(3) [OF False] stream ys show ?thesis
      by (cases en; cases s) (auto simp: hop_result_def streamed_def)
  qed
qed

definition stream_served ::
    "deps \<Rightarrow> effective_policy \<Rightarrow> pipeline_ctx \<Rightarrow> pipeline_ctx \<Rightarrow> stream_chunk list \<times> stream_outcome \<Rightarrow> bool" where
  "stream_served dp eff cx cx' res \<longleftrightarrow>
     (\<exists>r. cx_route cx' = Some r \<and> hop_ok dp eff (cx_envelope cx) (cx_cloudBlockedCounts cx) r
        \<and> rt_model r \<in> set (map_vals (ep_modelsById eff)) \<and> streamed dp cx r (fst res) (snd res))"

lemma stream_served_same:
  "same_request cx cx1 \<Longrightarrow> stream_served dp eff cx1 cx' res = stream_served dp eff cx cx' res"
  by (simp add: stream_served_def streamed_same) (simp add: same_request_def)

text \<open>The bookkeeping after a stream, before the slot is given back, is quiet.\<close>

lemma after_stream_quiet:
  "adds quiet w (if bad then auditRejected cx m f None (advance (if ok then record_health cx r False (breaker_rec dp cfg p False w) else w))
     else advance (if ok then record_health cx r False (breaker_rec dp cfg p False w) else w))"
proof -
  define w6 where "w6 = advance (if ok then record_health cx r False (breaker_rec dp cfg p False w) else w)"
  have "adds quiet w (if ok then record_health cx r False (breaker_rec dp cfg p False w) else w)"
    by (simp add: adds_trans [OF breaker_rec_quiet record_health_quiet])
  then have "adds quiet w w6"
    by (simp add: w6_def adds_def)
  then show ?thesis
    unfolding w6_def [symmetric] by (simp add: adds_trans [OF _ auditRejected_quiet])
qed

lemma stream_round_shape:
  assumes "stream_round dp cfg eff i le pm cx w = (out, cx', w')"
    and "hop_gate False dp cfg eff i le pm cx w = (Go r, cx1, w3)"
  shows "\<exists>w6. adds quiet (emit (StreamCall r (hopEnvelope r cx1)) (hop_start cx1 pm le r w3)) w6
    \<and> w' = give_back cfg (prv_id (rt_provider r)) w6 \<and> cx' = cx1\<lparr>cx_route := Some r\<rparr>
    \<and> (\<forall>res. out = Serve res \<longrightarrow> streamed dp cx1 r (fst res) (snd res)) \<and> (\<forall>e. out \<noteq> Break e)"
proof -
  define w4 where "w4 = hop_start cx1 pm le r w3"
  define w5 where "w5 = yield_others dp (emit (StreamCall r (hopEnvelope r cx1)) w4)"
  obtain chunks en where stream: "dp_executeStream dp (wd_tick w4) (hopEnvelope r cx1) (rt_executeCtx r) = (chunks, en)"
    by (cases "dp_executeStream dp (wd_tick w4) (hopEnvelope r cx1) (rt_executeCtx r)")
  define rel where "rel = relay False [] (dp_consumerTakes dp) chunks"
  note hop = streamed_hop [OF stream rel_def]
  have start: "adds quiet (emit (StreamCall r (hopEnvelope r cx1)) w4) w5"
    by (simp add: w5_def adds_def)

  show ?thesis
  proof (cases "hop_result en rel")
    case HopDone
    then have "out = Serve (fst rel, Completed) \<and> cx' = cx1\<lparr>cx_route := Some r\<rparr>
      \<and> w' = give_back cfg (prv_id (rt_provider r)) (breaker_rec dp cfg (prv_id (rt_provider r)) True w5)"
      using assms(1) stream by (simp add: stream_round_def assms(2) Let_def w4_def w5_def rel_def)
    with HopDone hop show ?thesis
      unfolding w4_def [symmetric]
      by (intro exI [of _ "breaker_rec dp cfg (prv_id (rt_provider r)) True w5"] conjI
            adds_trans [OF start breaker_rec_quiet]) auto
  next
    case HopStopped
    then have "out = Serve (fst rel, Stopped) \<and> cx' = cx1\<lparr>cx_route := Some r\<rparr>
      \<and> w' = give_back cfg (prv_id (rt_provider r)) w5"
      using assms(1) stream by (simp add: stream_round_def assms(2) Let_def w4_def w5_def rel_def)
    with HopStopped hop show ?thesis
      unfolding w4_def [symmetric] by (intro exI [of _ w5] conjI start) auto
  next
    case (HopError t seen)
    define rerr where "rerr = (if dp_idleFired dp (wd_tick w5) then idle_error else toRouterError t)"
    have "streamed dp cx1 r (fst rel) (Failed rerr)"
      using HopError streamed_hop [OF stream rel_def, of rerr] by simp
    moreover define w6 where "w6 = (let w' = advance
        (if \<not> dp_aborted dp (wd_tick w5) \<and> \<not> dp_idleFired dp (wd_tick w5)
         then record_health (cx1\<lparr>cx_route := Some r\<rparr>) r False (breaker_rec dp cfg (prv_id (rt_provider r)) False w5)
         else w5)
      in if code rerr = invalid_response
         then auditRejected (cx1\<lparr>cx_route := Some r\<rparr>) (canonicalId (rt_model r)) empty_response None w' else w')"
    moreover have w6: "adds quiet w5 w6"
      unfolding w6_def Let_def by (rule after_stream_quiet)
    moreover have "stream_round dp cfg eff i le pm cx w =
       (if seen \<or> dp_aborted dp (wd_tick w5) \<or> dp_idleFired dp (wd_tick w5)
        then Serve (fst rel, Failed rerr) else Next (Some rerr) (canonicalId (rt_model r)),
        cx1\<lparr>cx_route := Some r\<rparr>, give_back cfg (prv_id (rt_provider r)) w6)"
      using HopError stream
      by (simp add: stream_round_def assms(2) Let_def w4_def w5_def w6_def rel_def rerr_def cong: if_cong)
    ultimately show ?thesis
      using assms(1) unfolding w4_def [symmetric]
      by (intro exI [of _ w6] conjI adds_trans [OF start w6]) auto
  qed
qed

lemma stream_round_facts:
  assumes "stream_round dp cfg eff i le pm cx w = (out, cx', w')" "cx_effective cx = Some eff"
    and M: "\<And>m. map_get (ep_modelsById eff) i = Some m \<Longrightarrow> m \<in> M"
  shows "same_request cx cx' \<and> adds (call_ok M dp eff cx) w w'
    \<and> (\<forall>p. weight (slot_weight p) w' = weight (slot_weight p) w)
    \<and> weight call_weight w \<le> weight call_weight w' \<and> weight call_weight w' \<le> weight call_weight w + 1
    \<and> (\<forall>res. out = Serve res \<longrightarrow> stream_served dp eff cx cx' res) \<and> (\<forall>e. out \<noteq> Break e)"
proof -
  obtain g cx1 w3 where gate: "hop_gate False dp cfg eff i le pm cx w = (g, cx1, w3)"
    by (metis prod_cases3)
  note facts = hop_gate_facts [OF gate assms(2)] and gcalls = hop_gate_calls [OF gate, of M]
  show ?thesis
  proof (cases g)
    case (Skip a b)
    with assms gate facts gcalls show ?thesis
      by (auto simp: stream_round_def)
  next
    case (Go r)
    define w4 where "w4 = hop_start cx1 pm le r w3"
    define w5 where "w5 = emit (StreamCall r (hopEnvelope r cx1)) w4"
    from stream_round_shape [OF assms(1) gate [unfolded Go]] obtain w6
      where w6: "adds quiet w5 w6" "w' = give_back cfg (prv_id (rt_provider r)) w6"
        "cx' = cx1\<lparr>cx_route := Some r\<rparr>" "\<And>res. out = Serve res \<Longrightarrow> streamed dp cx1 r (fst res) (snd res)"
        "\<And>e. out \<noteq> Break e"
      unfolding w5_def w4_def by blast
    from facts Go have same: "same_request cx cx1"
      and ok: "hop_ok dp eff (cx_envelope cx) (cx_cloudBlockedCounts cx) r"
      and mem: "rt_model r \<in> set (map_vals (ep_modelsById eff))" "rt_model r \<in> M"
      using M by (auto dest: map_get_vals)
    have q4: "adds quiet w3 w4"
      by (simp add: w4_def hop_start_quiet)
    have "adds (call_ok M dp eff cx) w4 w5"
      unfolding w5_def by (rule adds_emit) (simp add: ok mem hopEnvelope_same [OF same])
    then have calls: "adds (call_ok M dp eff cx) w w'"
      unfolding w6(2)
      by (meson adds_trans gcalls q4 w6(1) quiet_call_ok give_back_calls)
    have "weight (slot_weight p) w' = weight (slot_weight p) w" for p
      using facts Go w6(2) slots.weight_back slots.weight_quiet [OF q4] slots.weight_quiet [OF w6(1)]
      by (auto simp: slot_weight_def w5_def)
    moreover have "weight call_weight w' = weight call_weight w + 1"
      using facts Go w6(2) calls.weight_back calls.weight_quiet [OF q4] calls.weight_quiet [OF w6(1)]
      by (auto simp: w5_def)
    moreover have "stream_served dp eff cx cx' x" if "out = Serve x" for x
      using w6(3) w6(4) [OF that] ok mem by (auto simp: stream_served_def streamed_same [OF same])
    ultimately show ?thesis
      using same calls w6(3,5) by simp
  qed
qed

section \<open>The walks\<close>

text \<open>What a walk over \<open>ids\<close> leaves behind, with at most \<open>per_hop\<close> calls for each candidate.\<close>

definition walk_facts ::
    "model_row set \<Rightarrow> deps \<Rightarrow> effective_policy \<Rightarrow> nat \<Rightarrow> nat \<Rightarrow> pipeline_ctx \<Rightarrow> world \<Rightarrow> pipeline_ctx \<Rightarrow> world \<Rightarrow> bool" where
  "walk_facts M dp eff per_hop n cx w cx' w' \<longleftrightarrow>
     same_request cx cx' \<and> adds (call_ok M dp eff cx) w w'
     \<and> (\<forall>p. weight (slot_weight p) w' = weight (slot_weight p) w)
     \<and> weight call_weight w \<le> weight call_weight w'
     \<and> weight call_weight w' \<le> weight call_weight w + int (per_hop * n)"

lemma walk_facts_quiet: "wd_trace w' = wd_trace w \<Longrightarrow> walk_facts M dp eff k n cx w cx w'"
  by (simp add: walk_facts_def weight_def adds_def)

lemma walk_facts_step:
  assumes "walk_facts M dp eff k 1 cx (advance w) cx1 w1" "walk_facts M dp eff k n cx1 w1 cx2 w2"
  shows "walk_facts M dp eff k (Suc n) cx w cx2 w2"
proof -
  have same: "same_request cx cx1" "same_request cx1 cx2"
    and calls: "adds (call_ok M dp eff cx) w w1" "adds (call_ok M dp eff cx1) w1 w2"
    using assms by (auto simp: walk_facts_def adds_def)
  from same calls have "adds (call_ok M dp eff cx) w w2"
    by (metis adds_trans call_ok_same)
  with assms same show ?thesis
    by (auto simp: walk_facts_def dest: same_request_trans)
qed

lemma walk_facts_more: "walk_facts M dp eff k 1 cx (advance w) cx1 w1 \<Longrightarrow> walk_facts M dp eff k (Suc n) cx w cx1 w1"
  by (rule walk_facts_step, assumption) (rule walk_facts_quiet, simp)

lemma walk_facts_end: "walk_facts M dp eff k n cx w cx' w' \<Longrightarrow> walk_facts M dp eff k n cx w cx' (advance w')"
  by (simp add: walk_facts_def adds_def)

lemma chain_round_walk:
  "chain_round dp cfg eff i le pm cx w = (out, cx', w') \<Longrightarrow> cx_effective cx = Some eff
     \<Longrightarrow> (\<And>m. map_get (ep_modelsById eff) i = Some m \<Longrightarrow> m \<in> M)
     \<Longrightarrow> walk_facts M dp eff (MAX_RETRIES + 1) 1 cx w cx' w'"
  using chain_round_facts [of dp cfg eff i le pm cx w out cx' w' M] by (simp add: walk_facts_def)

lemma stream_round_walk:
  "stream_round dp cfg eff i le pm cx w = (out, cx', w') \<Longrightarrow> cx_effective cx = Some eff
     \<Longrightarrow> (\<And>m. map_get (ep_modelsById eff) i = Some m \<Longrightarrow> m \<in> M)
     \<Longrightarrow> walk_facts M dp eff 1 1 cx w cx' w'"
  using stream_round_facts [of dp cfg eff i le pm cx w out cx' w' M] by (simp add: walk_facts_def)

lemma walk_chain_facts:
  assumes "walk_chain dp cfg eff ids le pm cx w = (out, cx', w')" "cx_effective cx = Some eff"
    and "\<forall>i\<in>set ids. \<forall>m. map_get (ep_modelsById eff) i = Some m \<longrightarrow> m \<in> M"
  shows "walk_facts M dp eff (MAX_RETRIES + 1) (length ids) cx w cx' w'
    \<and> (\<forall>res. out = Inr res \<longrightarrow> served_by dp cfg eff cx cx' res)"
  using assms
proof (induction ids arbitrary: le pm cx w)
  case Nil
  then show ?case
    by (auto intro: walk_facts_quiet)
next
  case (Cons i ids)
  show ?case
  proof (cases "dp_aborted dp (wd_tick w)")
    case True
    with Cons.prems show ?thesis
      by (auto intro: walk_facts_quiet)
  next
    case False
    obtain rd cx1 w1 where rd: "chain_round dp cfg eff i le pm cx (advance w) = (rd, cx1, w1)"
      by (metis prod_cases3)
    have M: "\<And>m. map_get (ep_modelsById eff) i = Some m \<Longrightarrow> m \<in> M"
      using Cons.prems(3) by simp
    note step = chain_round_walk [OF rd Cons.prems(2) M] and facts = chain_round_facts [OF rd Cons.prems(2) M]
    show ?thesis
    proof (cases rd)
      case (Serve res)
      with False rd Cons.prems facts walk_facts_more [OF step] show ?thesis
        by auto
    next
      case (Break e)
      with False rd Cons.prems walk_facts_end [OF walk_facts_more [OF step]] show ?thesis
        by auto
    next
      case (Next le' pm')
      from step Cons.prems(2) have same: "same_request cx cx1" "cx_effective cx1 = Some eff"
        by (auto simp: walk_facts_def same_request_def)
      with False rd Next Cons.prems Cons.IH [of le' pm' cx1 w1] walk_facts_step [OF step] show ?thesis
        by (auto simp: served_by_same)
    qed
  qed
qed

lemma walk_stream_facts:
  assumes "walk_stream dp cfg eff ids le pm cx w = (res, cx', w')" "cx_effective cx = Some eff"
    and "\<forall>i\<in>set ids. \<forall>m. map_get (ep_modelsById eff) i = Some m \<longrightarrow> m \<in> M"
  shows "walk_facts M dp eff 1 (length ids) cx w cx' w'
    \<and> (stream_served dp eff cx cx' res \<or> (\<exists>e. res = ([], Failed e)))"
  using assms
proof (induction ids arbitrary: le pm cx w)
  case Nil
  then show ?case
    by (auto intro: walk_facts_quiet)
next
  case (Cons i ids)
  show ?case
  proof (cases "dp_aborted dp (wd_tick w)")
    case True
    with Cons.prems show ?thesis
      by (auto intro: walk_facts_quiet)
  next
    case False
    obtain rd cx1 w1 where rd: "stream_round dp cfg eff i le pm cx (advance w) = (rd, cx1, w1)"
      by (metis prod_cases3)
    have M: "\<And>m. map_get (ep_modelsById eff) i = Some m \<Longrightarrow> m \<in> M"
      using Cons.prems(3) by simp
    note step = stream_round_walk [OF rd Cons.prems(2) M] and facts = stream_round_facts [OF rd Cons.prems(2) M]
    show ?thesis
    proof (cases rd)
      case (Serve res)
      with False rd Cons.prems facts walk_facts_more [OF step] show ?thesis
        by auto
    next
      case (Break e)
      with facts show ?thesis
        by simp
    next
      case (Next le' pm')
      from step Cons.prems(2) have same: "same_request cx cx1" "cx_effective cx1 = Some eff"
        by (auto simp: walk_facts_def same_request_def)
      with False rd Next Cons.prems Cons.IH [of le' pm' cx1 w1] walk_facts_step [OF step] show ?thesis
        by (auto simp: stream_served_same)
    qed
  qed
qed

end
