(* ===== verification/Executor_Safety.thy ===== *)
theory Executor_Safety
  imports Executor_Trace
begin

text \<open>
  The properties of the resilient executor, over the trace lemmas of \<open>Executor_Trace\<close>: what it sends
  and to whom, how often, that it gives its slots back, what an answer and a stream are, which
  error a failed chain reports, and one flaw in how the breaker's probe and the shed guard meet.
\<close>

text \<open>The provider calls of a trace: the route and the envelope sent.\<close>

fun calls_of :: "xevent list \<Rightarrow> (route_decision \<times> ai_request) list" where
  "calls_of [] = []"
| "calls_of (AdapterCall r e # evs) = (r, e) # calls_of evs"
| "calls_of (StreamCall r e # evs) = (r, e) # calls_of evs"
| "calls_of (_ # evs) = calls_of evs"

lemma calls_of_append [simp]: "calls_of (a @ b) = calls_of a @ calls_of b"
  by (induction a rule: calls_of.induct) simp_all

lemma calls_of_in: "(r, e) \<in> set (calls_of evs) \<longleftrightarrow> AdapterCall r e \<in> set evs \<or> StreamCall r e \<in> set evs"
  by (induction evs rule: calls_of.induct) auto

lemma calls_of_weight: "weight call_weight w = int (length (calls_of (wd_trace w)))"
proof -
  have "sum_list (map call_weight evs) = int (length (calls_of evs))" for evs
    by (induction evs rule: calls_of.induct) simp_all
  then show ?thesis
    by (simp add: weight_def)
qed

text \<open>The calls a run adds to the trace.\<close>

definition calls_between :: "world \<Rightarrow> world \<Rightarrow> (route_decision \<times> ai_request) list" where
  "calls_between w w' = calls_of (drop (length (wd_trace w)) (wd_trace w'))"

lemma calls_between_adds:
  assumes "adds P w w'"
  shows "int (length (calls_between w w')) = weight call_weight w' - weight call_weight w"
    and "(r, e) \<in> set (calls_between w w') \<Longrightarrow> P (AdapterCall r e) \<or> P (StreamCall r e)"
proof -
  from assms obtain evs where evs: "wd_trace w' = wd_trace w @ evs" "\<forall>ev\<in>set evs. P ev"
    by (auto simp: adds_def)
  then show "int (length (calls_between w w')) = weight call_weight w' - weight call_weight w"
    by (simp add: calls_between_def calls_of_weight)
  show "(r, e) \<in> set (calls_between w w') \<Longrightarrow> P (AdapterCall r e) \<or> P (StreamCall r e)"
    using evs by (auto simp: calls_between_def calls_of_in)
qed

text \<open>Both entry points, as walks over the candidates of the request.\<close>

definition candidate_bound :: "effective_policy \<Rightarrow> nat" where
  "candidate_bound eff = Suc (length (fallbackChain (ep_policy eff)))"

lemma candidateModels_length:
  "candidateModels cx = Inr ids \<Longrightarrow> cx_effective cx = Some eff \<Longrightarrow> length ids \<le> candidate_bound eff"
  by (auto simp: candidateModels_def js_simps candidate_bound_def split: sum.splits)

lemma walk_facts_wider: "walk_facts M dp eff k n cx w cx' w' \<Longrightarrow> n \<le> n' \<Longrightarrow> walk_facts M dp eff k n' cx w cx' w'"
  by (auto simp: walk_facts_def intro: order_trans simp flip: of_nat_mult)

text \<open>The models a request may reach: the selected one and those of the fallback chain.\<close>

definition candidates_of :: "effective_policy \<Rightarrow> ai_request \<Rightarrow> model_row set" where
  "candidates_of eff env =
     {m. \<exists>p up i. selectModel eff env = Inr (p, up) \<and> i \<in> set (mdl_id p # fallbackChain (ep_policy eff))
          \<and> map_get (ep_modelsById eff) i = Some m}"

lemma candidates_bound: "m \<in> candidates_of eff env \<Longrightarrow> m \<in> set (map_vals (ep_modelsById eff))"
  by (auto simp: candidates_of_def dest: map_get_vals)

lemma candidateModels_reach:
  assumes "candidateModels cx = Inr ids" "cx_effective cx = Some eff" "i \<in> set ids"
    and "map_get (ep_modelsById eff) i = Some m"
  shows "m \<in> candidates_of eff (cx_envelope cx)"
proof -
  from assms(1,2) obtain p up where "selectModel eff (cx_envelope cx) = Inr (p, up)"
    "ids = mdl_id p # filter (\<lambda>i. i \<noteq> mdl_id p) (fallbackChain (ep_policy eff))"
    by (auto simp: candidateModels_def js_simps split: sum.splits)
  with assms(3,4) show ?thesis
    by (auto simp: candidates_of_def)
qed

lemma executeResilient_facts:
  assumes "cx_effective cx = Some eff" "executeResilient dp cfg cx w = (out, cx', w')"
  shows "walk_facts (candidates_of eff (cx_envelope cx)) dp eff (MAX_RETRIES + 1) (candidate_bound eff) cx w cx' w'
    \<and> (\<forall>res. out = Inr res \<longrightarrow> served_by dp cfg eff cx cx' res)"
proof (cases "candidateModels cx")
  case (Inl t)
  with assms show ?thesis
    by (auto simp: executeResilient_def intro: walk_facts_quiet)
next
  case (Inr ids)
  with assms have "walk_chain dp cfg eff ids None [] cx w = (out, cx', w')"
    by (simp add: executeResilient_def)
  moreover have "\<forall>i\<in>set ids. \<forall>m. map_get (ep_modelsById eff) i = Some m \<longrightarrow> m \<in> candidates_of eff (cx_envelope cx)"
    by (blast intro: candidateModels_reach [OF Inr assms(1)])
  ultimately show ?thesis
    using walk_chain_facts [OF _ assms(1)] candidateModels_length [OF Inr assms(1)] by (blast intro: walk_facts_wider)
qed

lemma executeResilientStream_facts:
  assumes "cx_effective cx = Some eff" "executeResilientStream dp cfg cx w = (res, cx', w')"
  shows "walk_facts (candidates_of eff (cx_envelope cx)) dp eff 1 (candidate_bound eff) cx w cx' w'
    \<and> (stream_served dp eff cx cx' res \<or> (\<exists>e. res = ([], Failed e)))"
proof (cases "candidateModels cx")
  case (Inl t)
  with assms show ?thesis
    by (auto simp: executeResilientStream_def intro: walk_facts_quiet)
next
  case (Inr ids)
  with assms have "walk_stream dp cfg eff ids None [] cx w = (res, cx', w')"
    by (simp add: executeResilientStream_def)
  moreover have "\<forall>i\<in>set ids. \<forall>m. map_get (ep_modelsById eff) i = Some m \<longrightarrow> m \<in> candidates_of eff (cx_envelope cx)"
    by (blast intro: candidateModels_reach [OF Inr assms(1)])
  ultimately show ?thesis
    using walk_stream_facts [OF _ assms(1)] candidateModels_length [OF Inr assms(1)] by (blast intro: walk_facts_wider)
qed

text \<open>The world after a request went through the executor, streamed or not.\<close>

definition execute_world :: "deps \<Rightarrow> resilience_cfg \<Rightarrow> pipeline_ctx \<Rightarrow> world \<Rightarrow> world" where
  "execute_world dp cfg cx w =
     (if stream (cx_envelope cx) then snd (snd (executeResilientStream dp cfg cx w))
      else snd (snd (executeResilient dp cfg cx w)))"

lemma execute_world_facts:
  assumes "cx_effective cx = Some eff"
  shows "\<exists>cx'. walk_facts (candidates_of eff (cx_envelope cx)) dp eff (if stream (cx_envelope cx) then 1 else MAX_RETRIES + 1) (candidate_bound eff) cx w
    cx' (execute_world dp cfg cx w)"
  using executeResilient_facts [OF assms, of dp cfg w] executeResilientStream_facts [OF assms, of dp cfg w]
  by (cases "executeResilient dp cfg cx w"; cases "executeResilientStream dp cfg cx w")
     (auto simp: execute_world_def)

section \<open>Calls\<close>

text \<open>
  C4. Every call the executor makes, first hop, retry or fallback, streamed or not, passed the gate
  of its own hop: the model is the selected one or one of the fallback chain, not sunset, not banned, has every required
  capability, is local when the class is \<open>local_only\<close> and local when the scrubber barred the cloud;
  the provider's kind is not banned and its base URL passes the boundary check. What is sent is
  the request's envelope, the redacted copy for a cloud model when there is one, with the token
  limit of that model.
\<close>

theorem executor_calls_gated:
  assumes "cx_effective cx = Some eff"
    and "(r, e) \<in> set (calls_between w (execute_world dp cfg cx w))"
  shows "rt_model r \<in> candidates_of eff (cx_envelope cx)
    \<and> mdl_status (rt_model r) \<noteq> MSunset
    \<and> modelBanned (rt_model r) (ep_firmSettings eff) = Inr None
    \<and> (\<forall>n\<in>set (requiredCapabilities eff (cx_envelope cx)). effectiveCapability (rt_model r) n)
    \<and> (sensitivity (ep_taskClass eff) = local_only \<or> cx_cloudBlockedCounts cx \<noteq> None
         \<longrightarrow> isLocalKind (providerKind (rt_model r)))
    \<and> kind_name (prv_kind (rt_provider r)) \<notin> set (nullish (banned_provider_kinds (ep_firmSettings eff)) [])
    \<and> (dp_ssrfDenyPrivateCloud dp \<noteq> Some False \<longrightarrow>
         checkBaseUrl (dp_url_of dp) (dp_isIP dp) (prv_kind (rt_provider r)) (prv_baseUrl (rt_provider r)) = None)
    \<and> e = clampToModel
            (if isLocalKind (providerKind (rt_model r)) then cx_envelope cx
             else nullish (cx_cloudEnvelope cx) (cx_envelope cx)) (rt_model r)"
proof -
  from execute_world_facts [OF assms(1)] have "adds (call_ok (candidates_of eff (cx_envelope cx)) dp eff cx) w (execute_world dp cfg cx w)"
    by (auto simp: walk_facts_def)
  from calls_between_adds(2) [OF this assms(2)] show ?thesis
    by (auto simp: hop_ok_def model_ok_def hopEnvelope_def split: option.splits)
qed

text \<open>
  Retries and fallbacks are bounded: a request makes at most three calls for each candidate of
  its chain, the primary included, and a streamed request at most one for each.
\<close>

theorem executor_call_bound:
  assumes "cx_effective cx = Some eff"
  shows "length (calls_between w (execute_world dp cfg cx w))
    \<le> (if stream (cx_envelope cx) then 1 else 3) * (1 + length (fallbackChain (ep_policy eff)))"
proof -
  let ?w = "execute_world dp cfg cx w" and ?k = "if stream (cx_envelope cx) then 1 else 3 :: nat"
  from execute_world_facts [OF assms, of dp w cfg]
  have adds: "adds (call_ok (candidates_of eff (cx_envelope cx)) dp eff cx) w ?w"
    and le: "weight call_weight ?w \<le> weight call_weight w + int (?k * candidate_bound eff)"
    by (auto simp: walk_facts_def MAX_RETRIES_def numeral_3_eq_3)
  from calls_between_adds(1) [OF adds] le have "length (calls_between w ?w) \<le> ?k * candidate_bound eff"
    by linarith
  then show ?thesis
    by (simp add: candidate_bound_def)
qed

text \<open>
  C39. The executor gives back every slot it took: over a request, for every provider, slots taken
  and slots released balance, on success, failure, abort, timeout, and when the consumer of a
  stream walks away.
\<close>

theorem executor_slots_balanced:
  assumes "cx_effective cx = Some eff"
  shows "\<exists>evs. wd_trace (execute_world dp cfg cx w) = wd_trace w @ evs
    \<and> count_list evs (SlotTaken p) = count_list evs (SlotReleased p)"
proof -
  let ?w = "execute_world dp cfg cx w"
  from execute_world_facts [OF assms, of dp w cfg]
  obtain evs where evs: "wd_trace ?w = wd_trace w @ evs" and eq: "weight (slot_weight p) ?w = weight (slot_weight p) w"
    by (auto simp: walk_facts_def adds_def)
  have "sum_list (map (slot_weight p) es) = int (count_list es (SlotTaken p)) - int (count_list es (SlotReleased p))" for es
    by (induction es) (auto simp: slot_weight_def split: xevent.splits)
  with evs eq show ?thesis
    by (intro exI [of _ evs]) (simp add: weight_def)
qed

text \<open>
  C5. A served response is the answer of the hop the context names as its route: an adapter returned
  it for that hop's envelope, the route passed the gate, and, unless verification is switched off,
  the verifier accepted it. A rejected or failed hop's answer is never returned.
\<close>

theorem served_response_verified:
  assumes "cx_effective cx = Some eff"
    and "executeResilient dp cfg cx w = (Inr res, cx', w')"
  shows "\<exists>r t. cx_route cx' = Some r \<and> rt_model r \<in> set (map_vals (ep_modelsById eff))
    \<and> hop_ok dp eff (cx_envelope cx) (cx_cloudBlockedCounts cx) r
    \<and> dp_execute dp t (hopEnvelope r cx) (rt_executeCtx r) = Inr res
    \<and> (rc_verifyResponses cfg = Some False
       \<or> fst (verifyResponse res (hopEnvelope r cx) (rc_schemaValidationDefault cfg)) = None)"
  using executeResilient_facts [OF assms] by (auto simp: served_by_def answered_def)

text \<open>
  C6. A stream is never spliced: whatever the consumer got is a prefix of one provider's stream, the
  route the context names, however many hops failed before it; a completed stream is that whole
  stream and carried content; if the chain fails before content, the consumer got nothing, not
  even a held-back frame.
\<close>

theorem stream_single_source:
  assumes "cx_effective cx = Some eff"
    and "executeResilientStream dp cfg cx w = ((ys, oc), cx', w')"
  shows "(\<exists>r t chunks en. cx_route cx' = Some r
      \<and> dp_executeStream dp t (hopEnvelope r cx) (rt_executeCtx r) = (chunks, en)
      \<and> prefix ys chunks
      \<and> (oc = Completed \<longrightarrow> ys = chunks \<and> en = StreamDone \<and> list_ex isContent chunks)
      \<and> (oc = Stopped \<longrightarrow> dp_consumerTakes dp = Some (length ys))
      \<and> (ys \<noteq> [] \<longrightarrow> list_ex isContent chunks))
    \<or> (ys = [] \<and> (\<exists>e. oc = Failed e))"
  using executeResilientStream_facts [OF assms]
  unfolding stream_served_def streamed_def list_ex_iff fst_conv snd_conv prod.inject by blast

section \<open>Evaluation on the concrete environment\<close>

lemmas exec_eval = ex_world_defs select_eval candidateModels_def js_simps executeResilient_def executeResilientStream_def
  chain_round_def stream_round_def hop_gate_def routeForModel_def providerFor_def provider_gate_def
  engine_new_def firm_key_def map_get_def provider_db_def checkBaseUrl_def classifyHost_def
  strip_brackets_def ends_with_def to_lower_def lower_char_def char_code_def
  ask_breaker_def allow_def allow_window_def window_of_def empty_window_def example_options_def
  take_slot_def acquire_def flying_def shed_new_def example_cfg_def give_back_def release_def
  hop_start_def auditClamp_def auditHop_def audit_cx_def executeHopWithRetries_def hop_attempt_def
  executeHopOnce_def judge_def verifyResponse_def blank_def trim_def is_space_def record_health_def
  breaker_rec_def breaker_record_def record_window_def prune_def transition_def emit_def advance_def now_of_def
  yield_others_def hopEnvelope_def clampToModel_def

lemma ex_run:
  "\<exists>cx' w' r e. executeResilient ex_dp ex_cfg ex_cx ex_world = (Inr ex_answer, cx', w')
     \<and> calls_of (wd_trace w') = [(r, e)] \<and> rt_model r = ex_local_vision"
  by (simp add: exec_eval)

definition ex_stream_cx :: pipeline_ctx where
  "ex_stream_cx = ex_cx\<lparr>cx_envelope := ex_env\<lparr>stream := True\<rparr>\<rparr>"

lemma ex_stream_run:
  "\<exists>cx' w'. executeResilientStream ex_dp ex_cfg ex_stream_cx ex_world
     = (([TextDelta ''ok'', Finish FStop (Some EMPTY_USAGE)], Completed), cx', w')"
  by (simp add: exec_eval ex_stream_cx_def hop_result_def)

lemma ex_facts [simp]: "cx_effective ex_cx = Some ex_eff" "stream (cx_envelope ex_cx) = False"
  "wd_trace ex_world = []"
  by (simp_all add: ex_cx_def new_ctx_def ex_world_def ex_env_def)

lemma ex_calls: "\<exists>r e. calls_between ex_world (execute_world ex_dp ex_cfg ex_cx ex_world) = [(r, e)] \<and> rt_model r = ex_local_vision"
  using ex_run by (auto simp: calls_between_def execute_world_def)

theorem executor_calls_gated_witness:
  "\<exists>r e. (r, e) \<in> set (calls_between ex_world (execute_world ex_dp ex_cfg ex_cx ex_world))
     \<and> checkBaseUrl (dp_url_of ex_dp) (dp_isIP ex_dp) (prv_kind (rt_provider r)) (prv_baseUrl (rt_provider r)) = None
     \<and> e = clampToModel ex_env ex_local_vision"
proof -
  from ex_calls obtain r e where
    call: "(r, e) \<in> set (calls_between ex_world (execute_world ex_dp ex_cfg ex_cx ex_world))" "rt_model r = ex_local_vision"
    by auto
  have "isLocalKind (providerKind ex_local_vision)" "cx_envelope ex_cx = ex_env"
    by (simp_all add: ex_local_vision_def ex_cx_def new_ctx_def)
  with executor_calls_gated [OF ex_facts(1) call(1)] call show ?thesis
    by (auto simp: ex_dp_def)
qed

theorem executor_call_bound_witness:
  "length (calls_between ex_world (execute_world ex_dp ex_cfg ex_cx ex_world)) \<in> {1..3}"
  using executor_call_bound [of ex_cx ex_eff ex_world ex_dp ex_cfg] ex_calls
  by (auto simp: ex_eff_def ex_policy_def example_policy_def)

theorem executor_slots_balanced_witness:
  "\<exists>evs. wd_trace (execute_world ex_dp ex_cfg ex_cx ex_world) = evs
     \<and> count_list evs (SlotTaken ''pr1'') = count_list evs (SlotReleased ''pr1'')"
  using executor_slots_balanced [of ex_cx ex_eff ex_dp ex_cfg ex_world "''pr1''"] by simp

theorem served_response_verified_witness:
  "\<exists>r. fst (verifyResponse ex_answer (hopEnvelope r ex_cx) Structural) = None
     \<and> rt_model r \<in> set (map_vals (ep_modelsById ex_eff))"
proof -
  from ex_run obtain cx' w' where "executeResilient ex_dp ex_cfg ex_cx ex_world = (Inr ex_answer, cx', w')"
    by blast
  from served_response_verified [OF ex_facts(1) this] show ?thesis
    by (auto simp: ex_cfg_def)
qed

theorem stream_single_source_witness:
  "\<exists>r t. dp_executeStream ex_dp t (hopEnvelope r ex_stream_cx) (rt_executeCtx r)
     = ([TextDelta ''ok'', Finish FStop (Some EMPTY_USAGE)], StreamDone)"
proof -
  from ex_stream_run obtain cx' w' where "executeResilientStream ex_dp ex_cfg ex_stream_cx ex_world
     = (([TextDelta ''ok'', Finish FStop (Some EMPTY_USAGE)], Completed), cx', w')"
    by blast
  from stream_single_source [OF _ this, of ex_eff] show ?thesis
    by (auto simp: ex_stream_cx_def)
qed

section \<open>Which error a failed chain reports\<close>

text \<open>Adapters report provider failures: what they throw is never a policy-side code
  (\<^verbatim>\<open>mapHttpError\<close> and the transport errors of the adapters yield provider-side codes only).\<close>

definition provider_side_adapters :: "deps \<Rightarrow> bool" where
  "provider_side_adapters dp \<longleftrightarrow>
     (\<forall>t e c x. dp_execute dp t e c = Inl x \<longrightarrow> \<not> policySide (code (toRouterError x)))"

definition provider_side :: "router_error option \<Rightarrow> bool" where
  "provider_side le \<longleftrightarrow> (\<exists>e. le = Some e \<and> \<not> policySide (code e))"

lemma preferError_provider_side: "provider_side le \<Longrightarrow> provider_side (Some (preferError le e))"
  by (auto simp: provider_side_def preferError_def split: if_splits)

lemma attempt_provider_side:
  assumes "provider_side_adapters dp" "le = None \<or> provider_side le"
    and "hop_attempt dp cfg r cx final le w = (a, w')"
  shows "(\<forall>e. a = Finished (Inl e) \<or> a = Again e \<longrightarrow> \<not> policySide (code e))"
proof -
  obtain out w1 where once: "executeHopOnce dp r cx (advance w) = (out, w1)"
    by (cases "executeHopOnce dp r cx (advance w)")
  obtain out2 w2 where judged:
    "(case out of Inl t \<Rightarrow> (Inl t, w1) | Inr res \<Rightarrow> judge cfg r cx res w1) = (out2, w2)"
    by (cases "case out of Inl t \<Rightarrow> (Inl t, w1) | Inr res \<Rightarrow> judge cfg r cx res w1")
  have "\<not> policySide (code (toRouterError t))" if "out2 = Inl t" for t
  proof (cases out)
    case (Inl x)
    with that judged once assms(1) show ?thesis
      by (auto simp: executeHopOnce_def provider_side_adapters_def)
  next
    case (Inr res)
    with that judged show ?thesis
      by (auto simp: judge_def finding_error_def policySide_def split: if_splits prod.splits option.splits)
  qed
  with assms(2,3) once judged show ?thesis
    by (auto simp: hop_attempt_def Let_def provider_side_def policySide_def split: if_splits sum.splits)
qed

lemma attempts_provider_side:
  assumes "provider_side_adapters dp"
  shows "le = None \<or> provider_side le \<Longrightarrow> hop_attempts dp cfg r cx n le w = (Inl e, w') \<Longrightarrow> \<not> policySide (code e)"
proof (induction n arbitrary: le w)
  case 0
  then show ?case
    by (auto simp: provider_side_def policySide_def)
next
  case (Suc n)
  obtain a w1 where att: "hop_attempt dp cfg r cx (n = 0) le w = (a, w1)"
    by (cases "hop_attempt dp cfg r cx (n = 0) le w")
  note side = attempt_provider_side [OF assms Suc.prems(1) att]
  show ?case
  proof (cases a)
    case (Finished out)
    with Suc.prems att side show ?thesis
      by auto
  next
    case (Again e')
    with Suc.prems att side Suc.IH [of "Some e'" w1] show ?thesis
      by (auto simp: provider_side_def)
  qed
qed

text \<open>A gate that lets nothing through keeps a provider-side error and makes no call.\<close>

lemma hop_gate_provider_side:
  assumes "hop_gate b dp cfg eff i le pm cx w = (Skip le' pm', cx', w')" "provider_side le"
  shows "provider_side le'"
  using assms
  by (auto simp: hop_gate_def Let_def preferError_provider_side
      split: option.splits prod.splits sum.splits if_splits)
     (simp_all add: provider_side_def policySide_def open_error_def)

lemma chain_round_provider_side:
  assumes "provider_side_adapters dp" "cx_effective cx = Some eff"
    and "chain_round dp cfg eff i le pm cx w = (out, cx', w')"
    and "provider_side le \<or> weight call_weight w < weight call_weight w'"
  shows "(\<forall>e. out = Break e \<longrightarrow> \<not> policySide (code e)) \<and> (\<forall>le' pm'. out = Next le' pm' \<longrightarrow> provider_side le')"
proof -
  obtain g cx1 w3 where gate: "hop_gate True dp cfg eff i le pm cx w = (g, cx1, w3)"
    by (metis prod_cases3)
  show ?thesis
  proof (cases g)
    case (Skip a b)
    with hop_gate_facts [OF gate assms(2)] assms(3,4) gate have "provider_side le"
      by (auto simp: chain_round_def)
    with hop_gate_provider_side [OF gate [unfolded Skip]] have "provider_side a"
      by blast
    moreover have "out = Next a b"
      using Skip gate assms(3) by (simp add: chain_round_def)
    ultimately show ?thesis
      by simp
  next
    case (Go r)
    obtain o5 w5 where hop: "executeHopWithRetries dp cfg r (cx1\<lparr>cx_route := Some r\<rparr>) (hop_start cx1 pm le r w3) = (o5, w5)"
      by (cases "executeHopWithRetries dp cfg r (cx1\<lparr>cx_route := Some r\<rparr>) (hop_start cx1 pm le r w3)")
    have "\<not> policySide (code e)" if "o5 = Inl e" for e
      by (rule attempts_provider_side [OF assms(1) disjI1 [OF refl] hop [unfolded executeHopWithRetries_def that]])
    moreover have "out = (case o5 of Inr res \<Rightarrow> Serve res
        | Inl e \<Rightarrow> if dp_aborted dp (wd_tick w5) then Break e else Next (Some e) (canonicalId (rt_model r)))"
      using Go gate hop assms(3) by (simp add: chain_round_def Let_def)
    ultimately show ?thesis
      by (cases o5) (simp_all add: provider_side_def)
  qed
qed

lemma chain_end_provider_side: "provider_side le \<Longrightarrow> \<not> policySide (code (chain_end dp msg le w))"
  by (auto simp: chain_end_def provider_side_def policySide_def)

lemma walk_chain_provider_side:
  assumes "provider_side_adapters dp"
  shows "cx_effective cx = Some eff \<Longrightarrow> walk_chain dp cfg eff ids le pm cx w = (Inl e, cx', w')
    \<Longrightarrow> provider_side le \<or> weight call_weight w < weight call_weight w' \<Longrightarrow> \<not> policySide (code e)"
proof (induction ids arbitrary: le pm cx w)
  case Nil
  then show ?case
    by (auto simp: chain_end_provider_side)
next
  case (Cons i ids)
  show ?case
  proof (cases "dp_aborted dp (wd_tick w)")
    case True
    with Cons.prems show ?thesis
      by (auto simp: chain_end_provider_side)
  next
    case False
    obtain rd cx1 w1 where rd: "chain_round dp cfg eff i le pm cx (advance w) = (rd, cx1, w1)"
      by (metis prod_cases3)
    note side = chain_round_provider_side [OF assms Cons.prems(1) rd]
    show ?thesis
    proof (cases rd)
      case (Serve res)
      with False rd Cons.prems show ?thesis
        by simp
    next
      case (Break e')
      with False rd Cons.prems side show ?thesis
        by (auto intro!: chain_end_provider_side simp: provider_side_def)
    next
      case (Next le' pm')
      from chain_round_facts [OF rd Cons.prems(1), of UNIV] Cons.prems(1)
      have eff: "cx_effective cx1 = Some eff" and grows: "weight call_weight w \<le> weight call_weight w1"
        by (auto simp: same_request_def)
      have "provider_side le' \<or> weight call_weight w1 < weight call_weight w'"
      proof (cases "provider_side le \<or> weight call_weight w < weight call_weight w1")
        case True
        with side Next show ?thesis
          by simp
      next
        case False
        with Cons.prems(3) grows show ?thesis
          by simp
      qed
      with False rd Next Cons.prems(2) eff Cons.IH [of cx1 le' pm' w1] show ?thesis
        by simp
    qed
  qed
qed

text \<open>
  A provider-side failure is never hidden behind a policy-side skip: if at least one provider was
  called and the chain failed, the reported error is not \<open>capability_missing\<close> or \<open>policy_blocked\<close>,
  whatever the later candidates were skipped for. (A candidate barred by the scrubber is not
  covered by this ranking: its \<open>scrubber_blocked\<close> does replace the earlier error.)
\<close>

theorem provider_failure_not_masked:
  assumes "provider_side_adapters dp" and "cx_effective cx = Some eff"
    and "executeResilient dp cfg cx w = (Inl e, cx', w')"
    and "calls_between w w' \<noteq> []"
  shows "code e \<noteq> capability_missing \<and> code e \<noteq> policy_blocked"
proof (cases "candidateModels cx")
  case (Inl t)
  with assms show ?thesis
    by (auto simp: executeResilient_def calls_between_def)
next
  case (Inr ids)
  then have walk: "walk_chain dp cfg eff ids None [] cx w = (Inl e, cx', w')"
    using assms(2,3) by (simp add: executeResilient_def)
  from walk_chain_facts [OF walk assms(2), of UNIV] have "adds (call_ok UNIV dp eff cx) w w'"
    by (simp add: walk_facts_def)
  from calls_between_adds(1) [OF this] assms(4) have "weight call_weight w < weight call_weight w'"
    by (cases "calls_between w w'") auto
  with walk_chain_provider_side [OF assms(1,2) walk] show ?thesis
    by (simp add: policySide_def)
qed

definition ex_down_dp :: deps where
  "ex_down_dp = ex_dp\<lparr>dp_execute := (\<lambda>t e c. Inl (Routed (router_error0 context_exceeded ''too long'')))\<rparr>"

lemma ex_down_attempts:
  "hop_attempts ex_down_dp cfg r cx (Suc n) le w =
     (Inl (router_error0 context_exceeded ''too long''),
      advance (record_health cx r False (breaker_rec ex_down_dp cfg (prv_id (rt_provider r)) False
        (yield_others ex_down_dp (emit (AdapterCall r (hopEnvelope r cx)) (advance w))))))"
  by (simp add: hop_attempt_def executeHopOnce_def ex_down_dp_def ex_dp_def is_truncation_def Let_def)

lemma ex_down_gate:
  "\<exists>r w'. hop_gate True ex_down_dp ex_cfg ex_eff ''m3'' None [] ex_cx (advance ex_world) = (Go r, ex_cx, w')"
  by (simp add: exec_eval ex_down_dp_def)

lemma ex_down_run:
  "\<exists>e cx' w'. executeResilient ex_down_dp ex_cfg ex_cx ex_world = (Inl e, cx', w') \<and> calls_between ex_world w' \<noteq> []"
proof -
  obtain r w3 where gate: "hop_gate True ex_down_dp ex_cfg ex_eff ''m3'' None [] ex_cx (advance ex_world) = (Go r, ex_cx, w3)"
    using ex_down_gate by blast
  have cand: "candidateModels ex_cx = Inr [''m3'']"
    by (simp add: exec_eval)
  have live: "dp_aborted ex_down_dp = (\<lambda>t. False)"
    by (simp add: ex_down_dp_def ex_dp_def)
  have health: "calls_of (wd_trace (record_health cx r ok w)) = calls_of (wd_trace w)" for cx r ok w
    by (simp add: record_health_def split: option.split)
  show ?thesis
    by (simp add: executeResilient_def cand live chain_round_def gate Let_def executeHopWithRetries_def
        ex_down_attempts calls_between_def give_back_def health breaker_rec_def del: hop_attempts.simps)
qed

theorem provider_failure_not_masked_witness:
  "\<exists>e cx' w'. executeResilient ex_down_dp ex_cfg ex_cx ex_world = (Inl e, cx', w')
     \<and> code e \<noteq> capability_missing \<and> code e \<noteq> policy_blocked"
proof -
  have "provider_side_adapters ex_down_dp"
    by (simp add: provider_side_adapters_def ex_down_dp_def policySide_def)
  with ex_down_run provider_failure_not_masked [OF _ ex_facts(1)] show ?thesis
    by meson
qed

section \<open>The probe and the shed guard\<close>

text \<open>
  A probe can be lost: the breaker is asked before the shed guard, so when a circuit that is not
  closed admits its probe and the shed guard then rejects the hop, the hop is skipped, no outcome
  is recorded, and from then on the breaker refuses the provider at every later time, until some
  other call records an outcome for it, which a refused provider never gets.
\<close>

theorem shed_rejection_loses_probe:
  fixes p :: string
  assumes "map_get (ep_modelsById eff) i = Some m"
    and "routeForModel dp m cx w = (Inr r, cx1, w1)" and "p = prv_id (rt_provider r)"
    and "wstate (window_of (wd_windows w1) p) \<noteq> Closed"
    and "fst (allow (rc_breaker cfg) p (now_of dp w1) (wd_windows w1))"
    and "int (maxConcurrent (rc_shed cfg)) \<le> flying (wd_shed w1) p"
    and "queueCap (rc_shed cfg) \<le> length (queue_of (wd_shed w1) p)"
    and "\<forall>c\<in>set cs. \<not> is_outcome_on p c"
  shows "case hop_gate b dp cfg eff i le pm cx w of (g, cx', w') \<Rightarrow>
    g = Skip (Some shed_error) (canonicalId m)
    \<and> wd_trace w' = wd_trace w1
    \<and> \<not> fst (allow (rc_breaker cfg) p later (fold (breaker_step (rc_breaker cfg)) cs (wd_windows w')))"
proof -
  define ws where "ws = fst (snd (allow (rc_breaker cfg) p (now_of dp w1) (wd_windows w1)))"
  have probing: "wstate (window_of ws p) = HalfOpen" "halfOpenProbeInFlight (window_of ws p)"
    using assms(4,5) by (auto simp: ws_def allow_window_of allow_fst window_ops split: breaker_state.splits if_splits)
  have brk: "ask_breaker dp cfg p w1 = (True, advance (w1\<lparr>wd_windows := ws\<rparr>))"
    using assms(5) by (auto simp: ask_breaker_def ws_def Let_def split: prod.splits)
  have slot: "take_slot dp cfg p (advance (w1\<lparr>wd_windows := ws\<rparr>)) = (False, advance (advance (w1\<lparr>wd_windows := ws\<rparr>)))"
    using assms(6,7) by (simp add: take_slot_def acquire_def Let_def advance_def)
  have "hop_gate b dp cfg eff i le pm cx w = (Skip (Some shed_error) (canonicalId m), cx1, advance (advance (w1\<lparr>wd_windows := ws\<rparr>)))"
    using assms(1,2,3) brk slot by (simp add: hop_gate_def)
  with probing_run [OF probing assms(8), of "rc_breaker cfg"] probing show ?thesis
    by (simp add: advance_def allow_fst allow_answer)
qed

definition ex_busy_world :: world where
  "ex_busy_world = ex_world\<lparr>wd_windows := [(''pr1'', \<lparr>outcomes = [], wstate = Open, openedAt = - 1000,
       halfOpenProbeInFlight = False\<rparr>)],
     wd_shed := \<lparr>inFlight = [(''pr1'', 1)], queues = [(''pr1'', [7])]\<rparr>\<rparr>"

lemma ex_busy_route:
  "\<exists>r w1. routeForModel ex_dp ex_local_vision ex_cx ex_busy_world = (Inr r, ex_cx, w1) \<and> prv_id (rt_provider r) = ''pr1''
     \<and> wd_windows w1 = wd_windows ex_busy_world \<and> wd_shed w1 = wd_shed ex_busy_world \<and> now_of ex_dp w1 = 0"
  by (simp add: exec_eval ex_busy_world_def)

theorem shed_rejection_loses_probe_witness:
  "case hop_gate True ex_dp ex_cfg ex_eff ''m3'' None [] ex_cx ex_busy_world of (g, cx', w') \<Rightarrow>
     \<not> fst (allow example_options ''pr1'' 999999999 (wd_windows w'))"
proof -
  obtain r w1 where r: "routeForModel ex_dp ex_local_vision ex_cx ex_busy_world = (Inr r, ex_cx, w1)"
    "''pr1'' = prv_id (rt_provider r)"
    "wd_windows w1 = wd_windows ex_busy_world" "wd_shed w1 = wd_shed ex_busy_world" "now_of ex_dp w1 = 0"
    using ex_busy_route by metis
  have m: "map_get (ep_modelsById ex_eff) ''m3'' = Some ex_local_vision"
    by (simp add: ex_eff_def map_get_def)
  note defs = r(3-5) ex_busy_world_def ex_cfg_def window_of_def map_get_def allow_def allow_window_def
    example_options_def example_cfg_def transition_def flying_def queue_of_def
  have hyps: "wstate (window_of (wd_windows w1) ''pr1'') \<noteq> Closed"
    "fst (allow (rc_breaker ex_cfg) ''pr1'' (now_of ex_dp w1) (wd_windows w1))"
    "int (maxConcurrent (rc_shed ex_cfg)) \<le> flying (wd_shed w1) ''pr1''"
    "queueCap (rc_shed ex_cfg) \<le> length (queue_of (wd_shed w1) ''pr1'')"
    by (simp_all add: defs)
  show ?thesis
    using shed_rejection_loses_probe [OF m r(1,2) hyps, where cs = "[]" and b = True and le = None and pm = "[]"
        and later = 999999999]
    by (auto simp: ex_cfg_def)
qed

end
