(* ===== verification/Writer.thy ===== *)
theory Writer
  imports Gateway
begin

text \<open>
  The ledger writer of \<^verbatim>\<open>src/src/ledger/writer.ts\<close>: one row per request id, whose first write also books
  the spend. A database failure at the insert or at the booking is an observation of the
  environment (\<open>dp_ledgerFails\<close>). The lemmas show that repeated writes are absorbed and where the
  amounts of a row come from.
\<close>

section \<open>Status\<close>

definition statusFor :: "pipeline_ctx \<Rightarrow> request_status" where
  "statusFor cx =
     (case cx_error cx of
        None \<Rightarrow> St_ok
      | Some e \<Rightarrow>
          (case code e of
             policy_blocked \<Rightarrow> St_policy_blocked
           | scrubber_blocked \<Rightarrow> St_scrubber_blocked
           | budget_exceeded \<Rightarrow> St_budget_exceeded
           | rate_limited \<Rightarrow> St_rate_limited
           | capability_missing \<Rightarrow> St_capability_missing
           | no_vision_provider \<Rightarrow> St_no_vision_provider
           | provider_unavailable \<Rightarrow> St_provider_error
           | context_exceeded \<Rightarrow> St_provider_error
           | content_filtered \<Rightarrow> St_provider_error
           | unknown \<Rightarrow> if message e = ''client aborted'' then St_client_abort else St_error
           | _ \<Rightarrow> St_error))"

section \<open>Pricing cache\<close>

definition pricingFor :: "deps \<Rightarrow> string \<Rightarrow> int \<Rightarrow> world \<Rightarrow> pricing_row option \<times> world" where
  "pricingFor dp modelId ts w =
     (let row = pricingAt (wd_db w) modelId ts;
          miss = (row, advance (w\<lparr>wd_pricing := map_set modelId (row, now_of dp w + 60000) (wd_pricing w)\<rparr>))
      in case map_get (wd_pricing w) modelId of
           Some (hit, expires) \<Rightarrow> if expires > now_of dp w then (hit, w) else miss
         | None \<Rightarrow> miss)"

section \<open>The row and its write\<close>

definition ledger_usage :: "pipeline_ctx \<Rightarrow> ai_usage" where
  "ledger_usage cx =
     (if cx_cacheHit cx then EMPTY_USAGE
      else (case cx_response cx of None \<Rightarrow> EMPTY_USAGE | Some r \<Rightarrow> usage r))"

definition ledger_cost :: "deps \<Rightarrow> pipeline_ctx \<Rightarrow> world \<Rightarrow> cost_result \<times> world" where
  "ledger_cost dp cx w =
     (if cx_response cx = None \<or> cx_cacheHit cx
      then (\<lparr>cr_costCents = Some 0, cr_costUnknown = False, cr_cacheSavingsCents = None\<rparr>, w)
      else
        (case cx_route cx of
           None \<Rightarrow> (computeCost (ledger_usage cx) None, w)
         | Some r \<Rightarrow>
             (let (pricing, w') = pricingFor dp (mdl_id (rt_model r)) (cx_startedAt cx) w
              in (computeCost (ledger_usage cx) pricing, w'))))"

definition ledger_row_of :: "pipeline_ctx \<Rightarrow> auth_context \<Rightarrow> cost_result \<Rightarrow> int \<Rightarrow> ledger_row" where
  "ledger_row_of cx au cost now =
     \<lparr>l_requestId = cx_requestId cx, l_ts = now, l_firmId = au_firmId au, l_app = au_app au,
      l_taskClassId = map_option tcl_id (cx_taskClass cx),
      l_modelRequested = modelRequested (cx_envelope cx),
      l_modelServed = map_option served_model (cx_response cx),
      l_providerId = map_option (\<lambda>r. prv_id (rt_provider r)) (cx_route cx),
      l_usage = ledger_usage cx, l_costCents = cr_costCents cost, l_costUnknown = cr_costUnknown cost,
      l_latencyMs = now - cx_startedAt cx, l_status = statusFor cx,
      l_engagementRef = md_engagementRef (metadata (cx_envelope cx)),
      l_clientRef = md_clientRef (metadata (cx_envelope cx)), l_requestHash = cx_requestHash cx\<rparr>"

text \<open>\<open>insert ... on conflict do nothing ... returning\<close>: whether a row was inserted.\<close>

definition insert_ledger :: "ledger_row \<Rightarrow> db \<Rightarrow> bool \<times> db" where
  "insert_ledger row d =
     (if l_requestId row \<in> l_requestId ` set (usageLedger d) then (False, d)
      else (True, d\<lparr>usageLedger := usageLedger d @ [row]\<rparr>))"

definition db_failure :: thrown where
  "db_failure = OtherError ''database error''"

definition ledger_write :: "deps \<Rightarrow> pipeline_ctx \<Rightarrow> world \<Rightarrow> (thrown, unit) result \<times> world" where
  "ledger_write dp cx w =
     (case cx_auth cx of
        None \<Rightarrow> (Inr (), w)
      | Some au \<Rightarrow>
          (let (cost, w1) = ledger_cost dp cx w;
               now = now_of dp w1
           in if dp_ledgerFails dp (wd_tick w1) then (Inl db_failure, advance w1)
              else
                (let (inserted, d) = insert_ledger (ledger_row_of cx au cost now) (wd_db w1);
                     w2 = advance (w1\<lparr>wd_db := d\<rparr>);
                     cents = nullish (cr_costCents cost) 0
                 in if inserted \<and> cents > 0
                    then
                      (if dp_ledgerFails dp (wd_tick w2) then (Inl db_failure, advance w2)
                       else (Inr (), advance (w2\<lparr>wd_db :=
                              recordSpend (au_firmId au) (au_app au) (given (md_userId (metadata (cx_envelope cx))))
                                cents (now_of dp w2) (wd_db w2)\<rparr>)))
                    else (Inr (), w2))))"

section \<open>Lemmas\<close>

definition rows_for :: "string \<Rightarrow> db \<Rightarrow> ledger_row list" where
  "rows_for rid d = filter (\<lambda>r. l_requestId r = rid) (usageLedger d)"

lemma pricingFor_frame [simp]:
  "wd_db (snd (pricingFor dp m ts w)) = wd_db w" "wd_trace (snd (pricingFor dp m ts w)) = wd_trace w"
  by (auto simp: pricingFor_def Let_def advance_def split: option.splits)

lemma ledger_cost_frame [simp]:
  "wd_db (snd (ledger_cost dp cx w)) = wd_db w" "wd_trace (snd (ledger_cost dp cx w)) = wd_trace w"
  by (auto simp: ledger_cost_def Let_def split: option.splits prod.splits intro: pricingFor_frame)
     (metis pricingFor_frame snd_conv)+

lemma recordSpend_ledger [simp]: "usageLedger (recordSpend f a u c now d) = usageLedger d"
  by (simp add: recordSpend_def)

lemma insert_ledger_rows:
  "rows_for rid (snd (insert_ledger row d)) =
     (if l_requestId row = rid \<and> rows_for rid d = [] then [row] else rows_for rid d)"
  by (auto simp: insert_ledger_def rows_for_def filter_empty_conv image_iff)

lemma insert_ledger_again: "rows_for (l_requestId row) d \<noteq> [] \<Longrightarrow> insert_ledger row d = (False, d)"
  by (auto simp: insert_ledger_def rows_for_def filter_empty_conv intro: rev_image_eqI [OF _ sym])

lemma insert_ledger_first:
  "rows_for (l_requestId row) d = [] \<Longrightarrow> insert_ledger row d = (True, d\<lparr>usageLedger := usageLedger d @ [row]\<rparr>)"
  by (auto simp: insert_ledger_def rows_for_def filter_empty_conv)

lemma row_id [simp]: "l_requestId (ledger_row_of cx au cost now) = cx_requestId cx"
  by (simp add: ledger_row_of_def)

lemma spentFor_ledger [simp]: "spentFor (d\<lparr>usageLedger := l\<rparr>) = spentFor d"
  by (intro ext) (simp add: spentFor_def)

lemma ledger_write_trace: "wd_trace (snd (ledger_write dp cx w)) = wd_trace w"
proof (cases "cx_auth cx")
  case (Some au)
  obtain cost w1 where c: "ledger_cost dp cx w = (cost, w1)"
    by (cases "ledger_cost dp cx w")
  then have "wd_trace w1 = wd_trace w"
    using ledger_cost_frame(2) [of dp cx w] by simp
  with Some c show ?thesis
    by (auto simp: ledger_write_def Let_def advance_def split: prod.splits if_splits)
qed (simp add: ledger_write_def)

lemma ledger_write_again:
  assumes "rows_for (cx_requestId cx) (wd_db w) \<noteq> []"
  shows "wd_db (snd (ledger_write dp cx w)) = wd_db w"
proof (cases "cx_auth cx")
  case (Some au)
  obtain cost w1 where c: "ledger_cost dp cx w = (cost, w1)"
    by (cases "ledger_cost dp cx w")
  then have "wd_db w1 = wd_db w"
    using ledger_cost_frame(1) [of dp cx w] by simp
  with Some c assms show ?thesis
    by (auto simp: ledger_write_def Let_def advance_def insert_ledger_again split: prod.splits)
qed (simp add: ledger_write_def)

lemma ledger_write_rows:
  "rows_for rid (wd_db (snd (ledger_write dp cx w))) = rows_for rid (wd_db w)
   \<or> (rid = cx_requestId cx \<and> rows_for rid (wd_db w) = []
       \<and> (\<exists>au cost now. cx_auth cx = Some au
            \<and> rows_for rid (wd_db (snd (ledger_write dp cx w))) = [ledger_row_of cx au cost now]))"
proof (cases "cx_auth cx")
  case (Some au)
  obtain cost w1 where c: "ledger_cost dp cx w = (cost, w1)"
    by (cases "ledger_cost dp cx w")
  then have w1: "wd_db w1 = wd_db w"
    using ledger_cost_frame(1) [of dp cx w] by simp
  obtain ins d where i: "insert_ledger (ledger_row_of cx au cost (now_of dp w1)) (wd_db w1) = (ins, d)"
    by (cases "insert_ledger (ledger_row_of cx au cost (now_of dp w1)) (wd_db w1)")
  have "rows_for rid (wd_db (snd (ledger_write dp cx w))) \<in> {rows_for rid (wd_db w), rows_for rid d}"
    using Some c i w1 by (auto simp: ledger_write_def Let_def advance_def rows_for_def)
  moreover have "rows_for rid d = (if cx_requestId cx = rid \<and> rows_for rid (wd_db w) = []
      then [ledger_row_of cx au cost (now_of dp w1)] else rows_for rid (wd_db w))"
    using insert_ledger_rows [of rid "ledger_row_of cx au cost (now_of dp w1)" "wd_db w1"] i w1 by simp
  ultimately show ?thesis
    using Some by (auto split: if_splits)
qed (simp add: ledger_write_def)

section \<open>Properties\<close>

text \<open>
  C18. One row, one booking per request id. Writing a request whose id is already in the ledger changes
  nothing in the database, whatever the context says by then. The first write, when the database
  does not fail, adds exactly one row, which carries the computed cost, leaves the rows of other
  requests alone, and adds the cost, fixed to six decimals, exactly once to each of the firm, app
  and user counters of the current month; an unknown or zero cost adds nothing.
\<close>

theorem ledger_one_row_one_booking:
  assumes "cx_auth cx = Some au" and "\<And>t. \<not> dp_ledgerFails dp t"
    and "ledger_cost dp cx w = (cost, w1)" and "now = now_of dp (advance w1)"
  shows "(rows_for (cx_requestId cx) (wd_db w) \<noteq> [] \<longrightarrow> wd_db (snd (ledger_write dp cx w)) = wd_db w)
    \<and> (rows_for (cx_requestId cx) (wd_db w) = [] \<longrightarrow>
        (\<exists>ts. rows_for (cx_requestId cx) (wd_db (snd (ledger_write dp cx w))) = [ledger_row_of cx au cost ts])
        \<and> (\<forall>rid. rid \<noteq> cx_requestId cx \<longrightarrow>
             rows_for rid (wd_db (snd (ledger_write dp cx w))) = rows_for rid (wd_db w))
        \<and> (\<forall>sc ref per. spentFor (wd_db (snd (ledger_write dp cx w))) sc ref per
             = spentFor (wd_db w) sc ref per
               + (if (sc, ref, per) \<in> set (spend_scopes (au_firmId au) (au_app au)
                       (given (md_userId (metadata (cx_envelope cx)))) (currentPeriod now))
                  then fixed6 (max 0 (nullish (cr_costCents cost) 0)) else 0)))"
proof (intro conjI impI)
  show "rows_for (cx_requestId cx) (wd_db w) \<noteq> [] \<Longrightarrow> wd_db (snd (ledger_write dp cx w)) = wd_db w"
    by (rule ledger_write_again)
next
  assume fresh: "rows_for (cx_requestId cx) (wd_db w) = []"
  have w1: "wd_db w1 = wd_db w"
    using ledger_cost_frame(1) [of dp cx w] assms(3) by simp
  define row where "row = ledger_row_of cx au cost (now_of dp w1)"
  define d where "d = (wd_db w)\<lparr>usageLedger := usageLedger (wd_db w) @ [row]\<rparr>"
  let ?cents = "nullish (cr_costCents cost) 0"
  have ins: "insert_ledger row (wd_db w1) = (True, d)"
    using fresh w1 by (simp add: insert_ledger_first row_def d_def)
  have now: "now_of dp (advance (w1\<lparr>wd_db := d\<rparr>)) = now"
    by (simp add: assms(4) now_of_def advance_def)
  have w': "wd_db (snd (ledger_write dp cx w)) =
      (if ?cents > 0 then recordSpend (au_firmId au) (au_app au)
         (given (md_userId (metadata (cx_envelope cx)))) ?cents now d else d)"
    using assms(1,3) ins now by (simp add: ledger_write_def assms(2) Let_def row_def [symmetric]) (simp add: advance_def)
  have rows: "rows_for rid (wd_db (snd (ledger_write dp cx w))) = rows_for rid d" for rid
    by (simp add: w' rows_for_def)
  show "\<exists>ts. rows_for (cx_requestId cx) (wd_db (snd (ledger_write dp cx w))) = [ledger_row_of cx au cost ts]"
    using fresh rows by (auto simp: d_def rows_for_def row_def)
  show "\<forall>rid. rid \<noteq> cx_requestId cx \<longrightarrow> rows_for rid (wd_db (snd (ledger_write dp cx w))) = rows_for rid (wd_db w)"
    using rows by (simp add: d_def rows_for_def row_def)
  show "\<forall>sc ref per. spentFor (wd_db (snd (ledger_write dp cx w))) sc ref per = spentFor (wd_db w) sc ref per
      + (if (sc, ref, per) \<in> set (spend_scopes (au_firmId au) (au_app au)
             (given (md_userId (metadata (cx_envelope cx)))) (currentPeriod now)) then fixed6 (max 0 ?cents) else 0)"
    by (simp add: w' spentFor_recordSpend d_def max_def not_less)
qed

definition ex_done_cx :: pipeline_ctx where
  "ex_done_cx = ex_cx\<lparr>cx_response := Some (ex_answer\<lparr>usage := ex_usage\<rparr>)\<rparr>"

theorem ledger_one_row_one_booking_witness:
  "\<exists>row. rows_for ''req1'' (wd_db (snd (ledger_write ex_dp ex_done_cx ex_world))) = [row]
     \<and> l_costUnknown row"
proof -
  have cost: "ledger_cost ex_dp ex_done_cx ex_world
      = (\<lparr>cr_costCents = None, cr_costUnknown = True, cr_cacheSavingsCents = None\<rparr>, ex_world)"
    by (simp add: ledger_cost_def ex_done_cx_def ledger_usage_def computeCost_def ex_cx_def new_ctx_def ex_usage_def Let_def)
  have auth: "cx_auth ex_done_cx = Some \<lparr>au_firmId = ''f1'', au_app = ''vibe'', au_scopes = [''chat''], au_tokenId = ''tk1''\<rparr>"
    and id: "cx_requestId ex_done_cx = ''req1''" and live: "\<And>t. \<not> dp_ledgerFails ex_dp t"
    and fresh: "rows_for ''req1'' (wd_db ex_world) = []"
    by (simp_all add: ex_done_cx_def ex_world_defs rows_for_def)
  from ledger_one_row_one_booking [OF auth live cost refl] fresh id show ?thesis
    by (auto simp: ledger_row_of_def)
qed

end
