(* ===== verification/Pipeline.thy ===== *)
theory Pipeline
  imports Executor_Safety Writer
begin

text \<open>
  The request pipeline of \<^verbatim>\<open>src/src/gateway/pipeline.ts\<close>: authentication with rate limits, the policy,
  budget and scrub stages, routing, the adapt stage with the response cache, the terminal audit
  and the runner. A stage takes the context and the world and returns its outcome with both, as
  the code mutates the context even when it throws. The database is read without failures; only
  the ledger write may fail. Metrics are not modelled.
\<close>

type_synonym stage = "pipeline_ctx \<Rightarrow> world \<Rightarrow> (thrown, unit) result \<times> pipeline_ctx \<times> world"

text \<open>\<open>await a; await b\<close>: the second stage runs only if the first did not throw.\<close>

definition then_stage :: "stage \<Rightarrow> stage \<Rightarrow> stage" where
  "then_stage f g cx w =
     (case f cx w of (Inl t, cx', w') \<Rightarrow> (Inl t, cx', w') | (Inr _, cx', w') \<Rightarrow> g cx' w')"

definition audit_stage :: "pipeline_ctx \<Rightarrow> auth_context \<Rightarrow> string \<Rightarrow> string option \<Rightarrow> (string \<times> json) list \<Rightarrow> world \<Rightarrow> world" where
  "audit_stage cx au ev tc det w = emit (Audited (audit_for cx au ev tc det)) w"

section \<open>Context and authentication\<close>

definition newPipelineCtx :: "(string \<Rightarrow> string) \<Rightarrow> string \<Rightarrow> int \<Rightarrow> ai_request \<Rightarrow> pipeline_ctx" where
  "newPipelineCtx sha256 uuid now env = new_ctx uuid (requestHash sha256 (messages env)) now env"

definition hashToken :: "(string \<Rightarrow> string) \<Rightarrow> string \<Rightarrow> string" where
  "hashToken sha256 token = sha256 token"

definition touch_token :: "string \<Rightarrow> int \<Rightarrow> db \<Rightarrow> db" where
  "touch_token i now d =
     d\<lparr>appTokens := map (\<lambda>r. if tok_id r = i then r\<lparr>lastUsedAt := Some now\<rparr> else r) (appTokens d)\<rparr>"

definition authenticateAppToken ::
    "(string \<Rightarrow> string) \<Rightarrow> string option \<Rightarrow> int \<Rightarrow> db \<Rightarrow> (router_error, auth_context) result \<times> db" where
  "authenticateAppToken sha256 bearer now d =
     (case given bearer of
        None \<Rightarrow> (Inl (router_error0 auth_error ''missing bearer token''), d)
      | Some token \<Rightarrow>
          (let presented = hashToken sha256 token
           in case find_first (\<lambda>r. tokenHash r = presented \<and> revokedAt r = None) (appTokens d) of
                None \<Rightarrow> (Inl (router_error0 auth_error ''invalid app token''), d)
              | Some row \<Rightarrow>
                  if ''chat'' \<notin> set (tok_scopes row)
                  then (Inl (router_error0 auth_error ''token lacks required scope: chat''), d)
                  else (Inr \<lparr>au_firmId = tok_firmId row, au_app = tok_app row, au_scopes = tok_scopes row,
                             au_tokenId = tok_id row\<rparr>,
                        touch_token (tok_id row) now d)))"

text \<open>The two buckets of a request; both are charged.\<close>

definition take_limits ::
    "deps \<Rightarrow> auth_context \<Rightarrow> string option \<Rightarrow> world \<Rightarrow> int option \<times> int option \<times> world" where
  "take_limits dp au userId w =
     (case dp_rateLimits dp of
        None \<Rightarrow> (None, None, w)
      | Some (perToken, perUser) \<Rightarrow>
          (let (tokenWait, tb) = limiter_take perToken (''t:'' @ au_tokenId au) (now_of dp w) (wd_tokenBuckets w);
               w1 = w\<lparr>wd_tokenBuckets := tb\<rparr>
           in case given userId of
                None \<Rightarrow> (tokenWait, None, w1)
              | Some u \<Rightarrow>
                  (let (userWait, ub) = limiter_take perUser (''u:'' @ au_firmId au @ '':'' @ u) (now_of dp w1)
                                          (wd_userBuckets w1)
                   in (tokenWait, userWait, w1\<lparr>wd_userBuckets := ub\<rparr>))))"

definition stageAuth :: "deps \<Rightarrow> string option \<Rightarrow> stage" where
  "stageAuth dp bearer cx w =
     (let (res, d) = authenticateAppToken (dp_sha256 dp) bearer (now_of dp w) (wd_db w);
          w1 = advance (w\<lparr>wd_db := d\<rparr>)
      in case res of
           Inl e \<Rightarrow> (Inl (Routed e), cx, w1)
         | Inr au \<Rightarrow>
             (let env = (cx_envelope cx)\<lparr>metadata := (metadata (cx_envelope cx))\<lparr>md_app := au_app au\<rparr>\<rparr>;
                  cx1 = cx\<lparr>cx_auth := Some au, cx_envelope := env\<rparr>;
                  (tokenWait, userWait, w2) = take_limits dp au (md_userId (metadata env)) w1;
                  wait = max (nullish tokenWait 0) (nullish userWait 0)
              in if wait > 0
                 then (Inl (Routed (RouterError rate_limited ''rate limit exceeded'' None (Some (of_int wait)))), cx1,
                       emit (Audited ((audit_for cx1 au ''rate_limited'' None
                         [(''key'', JStr (if nullish tokenWait 0 \<noteq> 0 then ''app_token'' else ''user'')),
                          (''retryAfterSeconds'', JNum (of_int wait))])\<lparr>ae_requestHash := None\<rparr>)) w2)
                 else (Inr (), cx1, w2)))"

section \<open>Task class, policy, budget\<close>

definition stageResolveTaskClass :: stage where
  "stageResolveTaskClass cx w =
     (if taskClass (cx_envelope cx) = []
      then (Inl (Routed (router_error0 policy_blocked ''missing X-Vibe-Task-Class header'')), cx, w)
      else (Inr (), cx, w))"

definition stagePolicy :: "deps \<Rightarrow> stage" where
  "stagePolicy dp cx w =
     (case cx_auth cx of
        None \<Rightarrow> (Inl (Routed ordering_violation), cx, w)
      | Some au \<Rightarrow>
          (let (st, e1) = firmSettings (dp_engineTtlMs dp) (wd_db w) (now_of dp w) (au_firmId au) (wd_engine w);
               w1 = advance (w\<lparr>wd_engine := e1\<rparr>);
               (res, e2) = resolve (dp_engineTtlMs dp) (wd_db w1) (now_of dp w1) (au_firmId au)
                             (taskClass (cx_envelope cx)) st (wd_engine w1);
               w2 = advance (w1\<lparr>wd_engine := e2\<rparr>)
           in case res of
                Inl e \<Rightarrow> (Inl (Routed e), cx, w2)
              | Inr eff \<Rightarrow>
                  (let cx1 = cx\<lparr>cx_taskClass := Some (ep_taskClass eff)\<rparr>
                   in case checkRole eff (md_userRole (metadata (cx_envelope cx1))) of
                        Inl t \<Rightarrow> (Inl t, cx1, w2)
                      | Inr _ \<Rightarrow>
                          (Inr (), cx1\<lparr>cx_envelope := applyLimits eff (cx_envelope cx1), cx_effective := Some eff\<rparr>, w2))))"

definition no_budgets :: budget_settings where
  "no_budgets = \<lparr>firm_monthly_cents = None, apps_cents = None, users_cents = None, soft_pct = None\<rparr>"

definition budget_params_of :: "pipeline_ctx \<Rightarrow> auth_context \<Rightarrow> effective_policy \<Rightarrow> budget_params" where
  "budget_params_of cx au eff =
     \<lparr>bp_firmId = au_firmId au, bp_app = au_app au, bp_userId = given (md_userId (metadata (cx_envelope cx))),
      bp_taskClassId = tcl_id (ep_taskClass eff),
      bp_settings = nullish (budgets (ep_firmSettings eff)) no_budgets,
      bp_policyMonthlyCents = monthlyBudgetCents (ep_policy eff)\<rparr>"

definition audit_warning :: "deps \<Rightarrow> pipeline_ctx \<Rightarrow> auth_context \<Rightarrow> effective_policy \<Rightarrow> budget_check \<Rightarrow> world \<Rightarrow> world" where
  "audit_warning dp cx au eff c w =
     emit (Audited ((audit_for cx au ''budget_soft_warning'' (Some (tcl_key (ep_taskClass eff)))
       [(''scope'', JStr (check_scope_name (bc_scope c))), (''scopeRef'', JStr (bc_scopeRef c)),
        (''period'', JStr (currentPeriod (now_of dp w))), (''spentCents'', JNum (bc_spentCents c)),
        (''limitCents'', JNum (bc_limitCents c))])\<lparr>ae_requestHash := None\<rparr>)) w"

definition stageBudget :: "deps \<Rightarrow> stage" where
  "stageBudget dp cx w =
     (case (cx_auth cx, cx_effective cx) of
        (Some au, Some eff) \<Rightarrow>
          (case checkBudgets (wd_db w) (budget_params_of cx au eff) (now_of dp w) of
             Inl e \<Rightarrow> (Inl (Routed e), cx, advance w)
           | Inr soft \<Rightarrow>
               (Inr (), if soft \<noteq> [] then cx\<lparr>cx_budgetWarnings := soft\<rparr> else cx,
                fold (audit_warning dp cx au eff) soft (advance w)))
      | _ \<Rightarrow> (Inl (Routed ordering_violation), cx, w))"

section \<open>Scrub\<close>

text \<open>The part inside the \<open>try\<close>: nothing to do, or the verdict with the context it leaves.\<close>

definition cloud_in_chain :: "effective_policy \<Rightarrow> bool" where
  "cloud_in_chain eff =
     list_ex (\<lambda>i. case map_get (ep_modelsById eff) i of
                    None \<Rightarrow> False | Some m \<Rightarrow> \<not> isLocalKind (providerKind m)) (fallbackChain (ep_policy eff))"

definition scrub_redact :: "bool \<Rightarrow> pipeline_ctx \<Rightarrow> scrub_report \<times> pipeline_ctx" where
  "scrub_redact cloudPrimary cx =
     (let (env, report) = redactEnvelope (cx_envelope cx)
      in (report,
          if total report > 0
          then (if cloudPrimary then cx\<lparr>cx_envelope := env\<rparr> else cx\<lparr>cx_cloudEnvelope := Some env\<rparr>)
                 \<lparr>cx_scrubbed := Some (ModeRedact, counts report)\<rparr>
          else cx))"

definition scrub_scan :: "scrubber_mode \<Rightarrow> pipeline_ctx \<Rightarrow> scrub_report \<times> pipeline_ctx" where
  "scrub_scan mode cx =
     (let report = scanEnvelope (cx_envelope cx)
      in (report, if total report > 0 then cx\<lparr>cx_scrubbed := Some (mode, counts report)\<rparr> else cx))"

definition scrub_mode :: "effective_policy \<Rightarrow> scrubber_mode" where
  "scrub_mode eff = nullish (scrubber_mode_set (ep_firmSettings eff)) ModeRedact"

definition scrubber_failure :: router_error where
  "scrubber_failure =
     RouterError scrubber_blocked (''scrubber error '' @ em_dash @ '' cloud egress blocked'')
       (Some [(''reason'', JStr ''scrubber_failure'')]) None"

definition scrub_verdict ::
    "effective_policy \<Rightarrow> pipeline_ctx \<Rightarrow> (router_error, (bool \<times> scrub_report \<times> pipeline_ctx) option) result" where
  "scrub_verdict eff cx =
     (case selectModel eff (cx_envelope cx) of
        Inl (Routed e) \<Rightarrow> Inl e
      | Inl _ \<Rightarrow> Inl scrubber_failure
      | Inr (m, up) \<Rightarrow>
          (let cloudPrimary = (\<not> isLocalKind (providerKind m))
           in if \<not> cloudPrimary \<and> \<not> cloud_in_chain eff then Inr None
              else if scrub_mode eff = ModeRedact
              then Inr (Some (cloudPrimary, scrub_redact cloudPrimary cx))
              else Inr (Some (cloudPrimary, scrub_scan (scrub_mode eff) cx))))"

definition stageScrub :: stage where
  "stageScrub cx w =
     (case (cx_effective cx, cx_auth cx) of
        (Some eff, Some au) \<Rightarrow>
          (case scrub_verdict eff cx of
             Inl e \<Rightarrow> (Inl (Routed e), cx, w)
           | Inr None \<Rightarrow> (Inr (), cx, w)
           | Inr (Some (cloudPrimary, report, cx1)) \<Rightarrow>
               if total report = 0 then (Inr (), cx1, w)
               else if scrub_mode eff = ModeBlock then
                 (if \<not> cloudPrimary then (Inr (), cx1\<lparr>cx_cloudBlockedCounts := Some (counts report)\<rparr>, w)
                  else
                    (Inl (Routed (RouterError scrubber_blocked ''request contains protected data''
                        (Some [(''matches'', counts_json (counts report))]) None)), cx1,
                     audit_stage cx1 au ''blocked_scrubber'' (Some (tcl_key (ep_taskClass eff)))
                       [(''mode'', JStr ''block''), (''matches'', counts_json (counts report))] w))
               else
                 (Inr (), cx1,
                  audit_stage cx1 au (if scrub_mode eff = ModeRedact then ''scrubber_redacted'' else ''scrubber_warning'')
                    (Some (tcl_key (ep_taskClass eff)))
                    ((''matches'', counts_json (counts report))
                     # (if cloudPrimary then [] else [(''scope'', JStr ''fallback_only'')])) w))
      | _ \<Rightarrow> (Inl (Routed ordering_violation), cx, w))"

section \<open>Route\<close>

definition audit_upgrade :: "pipeline_ctx \<Rightarrow> auth_context \<Rightarrow> effective_policy \<Rightarrow> upgrade_info option \<Rightarrow> world \<Rightarrow> world" where
  "audit_upgrade cx au eff up w =
     (case up of
        None \<Rightarrow> w
      | Some u \<Rightarrow>
          audit_stage cx au ''capability_upgrade'' (Some (tcl_key (ep_taskClass eff)))
            [(''from'', JStr (up_from u)), (''to'', JStr (up_to u)),
             (''missing'', JStr (take 100 (join '','' (map cap_name (up_missing u)))))] w)"

definition stageRoute :: "deps \<Rightarrow> stage" where
  "stageRoute dp cx w =
     (case (cx_effective cx, cx_auth cx) of
        (Some eff, Some au) \<Rightarrow>
          (case selectModel eff (cx_envelope cx) of
             Inl t \<Rightarrow> (Inl t, cx, w)
           | Inr (m, up) \<Rightarrow>
               (case routeForModel dp m cx (audit_upgrade cx au eff up w) of
                  (Inr r, cx1, w1) \<Rightarrow> (Inr (), cx1\<lparr>cx_route := Some r\<rparr>, w1)
                | (Inl t, cx1, w1) \<Rightarrow>
                    (if dp_resilience dp = None then (Inl (Routed (toRouterError t)), cx1, w1)
                     else (Inr (), cx1\<lparr>cx_routeError := Some (toRouterError t)\<rparr>, w1))))
      | _ \<Rightarrow> (Inl (Routed ordering_violation), cx, w))"

section \<open>Adapt\<close>

fun tool_choice_json :: "tool_choice \<Rightarrow> json" where
  "tool_choice_json ChooseAuto = JStr ''auto''"
| "tool_choice_json ChooseNone = JStr ''none''"
| "tool_choice_json ChooseRequired = JStr ''required''"
| "tool_choice_json (ChooseName n) = JObj [(''name'', JStr n)]"

definition opt_member :: "string \<Rightarrow> json option \<Rightarrow> (string \<times> json) list" where
  "opt_member k v = (case v of None \<Rightarrow> [] | Some j \<Rightarrow> [(k, j)])"

definition tool_def_json :: "tool_def \<Rightarrow> json" where
  "tool_def_json t =
     JObj ([(''name'', JStr (td_name t))] @ opt_member ''description'' (map_option JStr (td_description t))
           @ opt_member ''parameters'' (td_parameters t))"

fun response_format_json :: "response_format \<Rightarrow> json" where
  "response_format_json RFText = JObj [(''type'', JStr ''text'')]"
| "response_format_json RFJsonObject = JObj [(''type'', JStr ''json_object'')]"
| "response_format_json (RFJsonSchema n sc st va) =
     JObj ([(''type'', JStr ''json_schema''), (''name'', JStr n)] @ opt_member ''schema'' sc
           @ opt_member ''strict'' (map_option JBool st)
           @ opt_member ''validation''
               (map_option (\<lambda>v. JStr (case v of Structural \<Rightarrow> ''structural'' | Strict \<Rightarrow> ''strict'')) va))"

definition or_null :: "json option \<Rightarrow> json" where
  "or_null v = nullish v JNull"

definition params_json :: "ai_request \<Rightarrow> json" where
  "params_json env =
     JArr [or_null (map_option (\<lambda>ts. JArr (map tool_def_json ts)) (tools env)),
           or_null (map_option tool_choice_json (toolChoice env)),
           or_null (map_option response_format_json (responseFormat env)),
           or_null (map_option (\<lambda>n. JNum (of_int n)) (maxTokens env)),
           or_null (map_option JNum (temperature env)), or_null (map_option JNum (topP env)),
           or_null (map_option (\<lambda>ss. JArr (map JStr ss)) (stop env))]"

definition cache_requires :: "pipeline_ctx \<Rightarrow> task_class_requires" where
  "cache_requires cx = (case cx_effective cx of None \<Rightarrow> no_requires | Some eff \<Rightarrow> classRequires (ep_taskClass eff))"

definition cache_ttl :: "pipeline_ctx \<Rightarrow> int" where
  "cache_ttl cx = nullish (req_cache_ttl_s (cache_requires cx)) 0"

definition cache_eligible :: "deps \<Rightarrow> pipeline_ctx \<Rightarrow> bool" where
  "cache_eligible dp cx = (\<not> stream (cx_envelope cx) \<and> dp_cacheMax dp \<noteq> None \<and> cache_ttl cx > 0)"

definition keyFor :: "deps \<Rightarrow> pipeline_ctx \<Rightarrow> auth_context \<Rightarrow> route_decision \<Rightarrow> string option" where
  "keyFor dp cx au r =
     (if \<not> cache_eligible dp cx then None
      else if \<not> isLocalKind (providerKind (rt_model r)) \<and> req_cache_cloud (cache_requires cx) \<noteq> Some True then None
      else Some (cache_key (au_firmId au) (canonicalId (rt_model r)) (cx_requestHash cx)
                   (take 16 (dp_sha256 dp (json_stringify (params_json (cx_envelope cx)))))))"

definition store_response :: "deps \<Rightarrow> string option \<Rightarrow> ai_response \<Rightarrow> int \<Rightarrow> world \<Rightarrow> world" where
  "store_response dp key res ttl w =
     (case (key, dp_cacheMax dp) of
        (Some k, Some n) \<Rightarrow> w\<lparr>wd_cache := cache_set n k res ttl (now_of dp w) (wd_cache w)\<rparr>
      | _ \<Rightarrow> w)"

text \<open>The lookup before any provider is asked.\<close>

definition cache_lookup :: "deps \<Rightarrow> string option \<Rightarrow> world \<Rightarrow> ai_response option \<times> world" where
  "cache_lookup dp key w =
     (case key of
        None \<Rightarrow> (None, w)
      | Some k \<Rightarrow> (let (hit, c) = cache_get k (now_of dp w) (wd_cache w) in (hit, w\<lparr>wd_cache := c\<rparr>)))"

definition adapt_resilient :: "deps \<Rightarrow> resilience_cfg \<Rightarrow> auth_context \<Rightarrow> string option \<Rightarrow> stage" where
  "adapt_resilient dp cfg au cacheKey cx w =
     (if stream (cx_envelope cx)
      then
        (case executeResilientStream dp cfg cx w of
           (([], Failed e), cx1, w1) \<Rightarrow> (Inl (Routed e), cx1, w1)
         | (res, cx1, w1) \<Rightarrow> (Inr (), cx1\<lparr>cx_stream := Some res\<rparr>, w1))
      else
        (case executeResilient dp cfg cx w of
           (Inl e, cx1, w1) \<Rightarrow> (Inl (Routed e), cx1, w1)
         | (Inr res, cx1, w1) \<Rightarrow>
             (let servedKey = (case cacheKey of
                                 Some k \<Rightarrow> Some k
                               | None \<Rightarrow> (case cx_route cx1 of None \<Rightarrow> None | Some r \<Rightarrow> keyFor dp cx1 au r))
              in (Inr (), cx1\<lparr>cx_response := Some res\<rparr>, store_response dp servedKey res (cache_ttl cx1) w1))))"

definition adapt_direct :: "deps \<Rightarrow> route_decision \<Rightarrow> auth_context \<Rightarrow> string option \<Rightarrow> stage" where
  "adapt_direct dp r au cacheKey cx w =
     (let env = clampToModel (cx_envelope cx) (rt_model r)
      in if stream (cx_envelope cx)
         then
           (let (chunks, en) = dp_executeStream dp (wd_tick w) env (rt_executeCtx r)
            in (Inr (), cx\<lparr>cx_stream := Some (case dp_consumerTakes dp of None \<Rightarrow> chunks | Some n \<Rightarrow> take n chunks,
                  case dp_consumerTakes dp of
                    Some n \<Rightarrow> if n \<le> length chunks then Stopped
                              else (case en of StreamDone \<Rightarrow> Completed | StreamThrows t \<Rightarrow> Failed (toRouterError t))
                  | None \<Rightarrow> (case en of StreamDone \<Rightarrow> Completed | StreamThrows t \<Rightarrow> Failed (toRouterError t)))\<rparr>,
                yield_others dp (emit (StreamCall r env) w)))
         else
           (let w1 = yield_others dp (emit (AdapterCall r env) w)
            in case dp_execute dp (wd_tick w) env (rt_executeCtx r) of
                 Inl t \<Rightarrow> (Inl t, cx, record_health cx r False w1)
               | Inr res \<Rightarrow>
                   (Inr (), cx\<lparr>cx_response := Some res\<rparr>,
                    store_response dp cacheKey res (cache_ttl cx) (record_health cx r True w1))))"

definition stageAdapt :: "deps \<Rightarrow> stage" where
  "stageAdapt dp cx w =
     (case cx_auth cx of
        None \<Rightarrow> (Inl (Routed ordering_violation), cx, w)
      | Some au \<Rightarrow>
          if cx_route cx = None \<and> dp_resilience dp = None
          then (Inl (Routed (nullish (cx_routeError cx) ordering_violation)), cx, w)
          else
            (let cacheKey = (case cx_route cx of None \<Rightarrow> None | Some r \<Rightarrow> keyFor dp cx au r);
                 (hit, w1) = cache_lookup dp cacheKey w
             in case hit of
                  Some res \<Rightarrow>
                    (Inr (), cx\<lparr>cx_response := Some (res\<lparr>served_latencyMs := now_of dp w1 - cx_startedAt cx\<rparr>),
                               cx_cacheHit := True\<rparr>, w1)
                | None \<Rightarrow>
                    (case dp_resilience dp of
                       Some cfg \<Rightarrow> adapt_resilient dp cfg au cacheKey cx w1
                     | None \<Rightarrow>
                         (case cx_route cx of
                            None \<Rightarrow> (Inl (Routed (nullish (cx_routeError cx) ordering_violation)), cx, w1)
                          | Some r \<Rightarrow> adapt_direct dp r au cacheKey cx w1))))"

section \<open>The runner\<close>

definition terminal_entry :: "pipeline_ctx \<Rightarrow> auth_context \<Rightarrow> string \<Rightarrow> (string \<times> json) list \<Rightarrow> audit_entry" where
  "terminal_entry cx au ev det =
     (audit_for cx au ev (map_option tcl_key (cx_taskClass cx)) det)
       \<lparr>ae_model := map_option (\<lambda>r. canonicalId (rt_model r)) (cx_route cx),
        ae_provider := map_option (\<lambda>r. prv_label (rt_provider r)) (cx_route cx)\<rparr>"

definition provider_status :: "router_error \<Rightarrow> (string \<times> json) list" where
  "provider_status e =
     (case Option.bind (detail e) (\<lambda>d. obj_get d ''providerStatus'') of
        Some (JNum n) \<Rightarrow> [(''providerStatus'', JNum n)]
      | _ \<Rightarrow> [])"

definition emitTerminalAudit :: "pipeline_ctx \<Rightarrow> world \<Rightarrow> world" where
  "emitTerminalAudit cx w =
     (case cx_auth cx of
        None \<Rightarrow> w
      | Some au \<Rightarrow>
          (case cx_error cx of
             None \<Rightarrow>
               emit (Audited (terminal_entry cx au ''request''
                 ([(''status'', JStr ''ok''), (''stream'', JBool (stream (cx_envelope cx)))]
                  @ opt_member ''modelRequested'' (map_option JStr (given (modelRequested (cx_envelope cx))))
                  @ (case cx_response cx of None \<Rightarrow> []
                     | Some r \<Rightarrow> [(''modelServed'', JStr (served_model r)),
                                  (''latencyMs'', JNum (of_int (served_latencyMs r)))])))) w
           | Some e \<Rightarrow>
               if code e = scrubber_blocked then w
               else if code e \<in> {policy_blocked, capability_missing, no_vision_provider}
               then emit (Audited (terminal_entry cx au ''blocked_policy''
                      [(''code'', JStr (code_name (code e))), (''reason'', JStr (take 300 (message e)))])) w
               else if retryable (code e) \<or> code e = context_exceeded
               then emit (Audited (terminal_entry cx au ''provider_error''
                      ([(''code'', JStr (code_name (code e)))] @ provider_status e
                       @ [(''retryable'', JBool (retryable (code e)))]))) w
               else w))"

definition stages :: "deps \<Rightarrow> string option \<Rightarrow> stage" where
  "stages dp bearer =
     then_stage (stageAuth dp bearer) (then_stage stageResolveTaskClass (then_stage (stagePolicy dp)
       (then_stage (stageBudget dp) (then_stage stageScrub (then_stage (stageRoute dp) (stageAdapt dp))))))"

text \<open>The catch block: the error is recorded, the ledger written, its failure only logged.\<close>

definition fail_request :: "deps \<Rightarrow> thrown \<Rightarrow> stage" where
  "fail_request dp t cx w =
     (let cx' = cx\<lparr>cx_error := Some (toRouterError t)\<rparr>
      in (Inl (Routed (toRouterError t)), cx', emitTerminalAudit cx' (snd (ledger_write dp cx' w))))"

definition runPipeline :: "deps \<Rightarrow> string option \<Rightarrow> stage" where
  "runPipeline dp bearer cx w =
     (case stages dp bearer cx w of
        (Inl t, cx1, w1) \<Rightarrow> fail_request dp t cx1 w1
      | (Inr _, cx1, w1) \<Rightarrow>
          if stream (cx_envelope cx1) then (Inr (), cx1, w1)
          else
            (case ledger_write dp cx1 w1 of
               (Inl t, w2) \<Rightarrow> fail_request dp t cx1 w2
             | (Inr _, w2) \<Rightarrow> (Inr (), cx1, emitTerminalAudit cx1 w2)))"

end
