(* ===== verification/Pipeline_Safety.thy ===== *)
theory Pipeline_Safety
  imports Pipeline
begin

text \<open>
  What the pipeline guarantees end to end: who gets to call a provider, what leaves for a cloud
  model, that \<open>local_only\<close> stays local, and that every authenticated request leaves one ledger row.
  Each stage has one lemma on the context it leaves and one on its trace; the theorems compose
  them along \<open>stages\<close>.
\<close>

section \<open>Stages make no calls\<close>

lemma then_stage_cases:
  assumes "then_stage f g cx w = (out, cx', w')"
  obtains t where "f cx w = (Inl t, cx', w')" "out = Inl t"
  | cx1 w1 where "f cx w = (Inr (), cx1, w1)" "g cx1 w1 = (out, cx', w')"
  using assms by (cases "f cx w") (auto simp: then_stage_def split: sum.splits)

lemma advance_sel [simp]:
  "wd_engine (advance w) = wd_engine w" "wd_db (advance w) = wd_db w" "wd_cache (advance w) = wd_cache w"
  by (simp_all add: advance_def)

lemma audit_quiet: "quiet (Audited a)"
  by (simp add: quiet_def)

lemma emit_audit_quiet: "adds quiet w (emit (Audited a) w)"
  by (rule adds_emit) (rule audit_quiet)

lemma take_limits_trace [simp]: "wd_trace (snd (snd (take_limits dp au u w))) = wd_trace w"
  by (auto simp: take_limits_def Let_def split: option.splits prod.splits)

lemma take_limits_frame [simp]:
  "wd_engine (snd (snd (take_limits dp au u w))) = wd_engine w" "wd_db (snd (snd (take_limits dp au u w))) = wd_db w"
  by (auto simp: take_limits_def Let_def split: option.splits prod.splits)

lemma stageAuth_quiet: "stageAuth dp bearer cx w = (out, cx', w') \<Longrightarrow> adds quiet w w'"
proof -
  assume run: "stageAuth dp bearer cx w = (out, cx', w')"
  obtain res d where auth: "authenticateAppToken (dp_sha256 dp) bearer (now_of dp w) (wd_db w) = (res, d)"
    by (cases "authenticateAppToken (dp_sha256 dp) bearer (now_of dp w) (wd_db w)")
  show ?thesis
  proof (cases res)
    case (Inl e)
    with run auth show ?thesis
      by (auto simp: stageAuth_def adds_same)
  next
    case (Inr au)
    obtain tw uw w2 where lim: "take_limits dp au (md_userId (metadata (cx_envelope cx))) (advance (w\<lparr>wd_db := d\<rparr>)) = (tw, uw, w2)"
      by (metis prod_cases3)
    from take_limits_trace [of dp au "md_userId (metadata (cx_envelope cx))" "advance (w\<lparr>wd_db := d\<rparr>)"] lim
    have "wd_trace w2 = wd_trace w"
      by simp
    with run auth Inr lim show ?thesis
      by (auto simp: stageAuth_def Let_def adds_def audit_quiet split: if_splits)
  qed
qed

lemma stagePolicy_quiet: "stagePolicy dp cx w = (out, cx', w') \<Longrightarrow> adds quiet w w'"
  by (auto simp: stagePolicy_def Let_def intro!: adds_same split: option.splits prod.splits sum.splits)

lemma warnings_quiet: "adds quiet w (fold (audit_warning dp cx au eff) cs w)"
proof (induction cs arbitrary: w)
  case (Cons c cs)
  have "adds quiet w (audit_warning dp cx au eff c w)"
    unfolding audit_warning_def by (rule emit_audit_quiet)
  with Cons [of "audit_warning dp cx au eff c w"] show ?case
    by (auto intro: adds_trans)
qed simp

lemma stageBudget_quiet: "stageBudget dp cx w = (out, cx', w') \<Longrightarrow> adds quiet w w'"
  using warnings_quiet [of "advance w"]
  by (auto simp: stageBudget_def adds_same split: option.splits sum.splits)
     (simp_all add: adds_def)

lemma stageScrub_quiet: "stageScrub cx w = (out, cx', w') \<Longrightarrow> adds quiet w w'"
  by (auto simp: stageScrub_def audit_stage_def emit_audit_quiet
      split: option.splits prod.splits sum.splits if_splits)

lemma audit_upgrade_quiet: "adds quiet w (audit_upgrade cx au eff up w)"
  by (auto simp: audit_upgrade_def audit_stage_def emit_audit_quiet split: option.splits)

lemma stageRoute_quiet: "stageRoute dp cx w = (out, cx', w') \<Longrightarrow> adds quiet w w'"
  by (auto simp: stageRoute_def split: option.splits prod.splits sum.splits if_splits
      dest!: routeForModel_quiet intro: adds_trans [OF audit_upgrade_quiet])

lemma emitTerminalAudit_quiet: "adds quiet w (emitTerminalAudit cx w)"
  by (auto simp: emitTerminalAudit_def emit_audit_quiet split: option.splits)

section \<open>What each stage leaves in the context\<close>

text \<open>A token that authenticates: presented, stored, not revoked, with the chat scope.\<close>

definition token_for :: "deps \<Rightarrow> db \<Rightarrow> string option \<Rightarrow> auth_context \<Rightarrow> bool" where
  "token_for dp d bearer au \<longleftrightarrow>
     (\<exists>token. bearer = Some token \<and> token \<noteq> []
        \<and> (\<exists>row\<in>set (appTokens d). tokenHash row = dp_sha256 dp token \<and> revokedAt row = None \<and> ''chat'' \<in> set (tok_scopes row)
             \<and> au_firmId au = tok_firmId row \<and> au_app au = tok_app row \<and> au_tokenId au = tok_id row))"

definition with_app :: "ai_request \<Rightarrow> string \<Rightarrow> ai_request" where
  "with_app env app = env\<lparr>metadata := (metadata env)\<lparr>md_app := app\<rparr>\<rparr>"

lemma authenticate_ok:
  assumes "authenticateAppToken (dp_sha256 dp) bearer now d = (Inr au, d')"
  shows "token_for dp d bearer au"
  using assms
  by (auto simp: authenticateAppToken_def token_for_def hashToken_def given_def Let_def
      split: option.splits if_splits dest!: find_first_Some)

lemma stageAuth_ok:
  assumes "stageAuth dp bearer cx w = (Inr (), cx', w')"
  shows "\<exists>au. token_for dp (wd_db w) bearer au
    \<and> cx' = cx\<lparr>cx_auth := Some au, cx_envelope := with_app (cx_envelope cx) (au_app au)\<rparr> \<and> wd_engine w' = wd_engine w"
proof -
  obtain res d where auth: "authenticateAppToken (dp_sha256 dp) bearer (now_of dp w) (wd_db w) = (res, d)"
    by (cases "authenticateAppToken (dp_sha256 dp) bearer (now_of dp w) (wd_db w)")
  with assms obtain au where au: "res = Inr au"
    by (cases res) (auto simp: stageAuth_def)
  obtain tw uw w2 where lim: "take_limits dp au (md_userId (metadata (cx_envelope cx))) (advance (w\<lparr>wd_db := d\<rparr>)) = (tw, uw, w2)"
    by (metis prod_cases3)
  with take_limits_frame(1) [of dp au "md_userId (metadata (cx_envelope cx))" "advance (w\<lparr>wd_db := d\<rparr>)"]
  have "wd_engine w2 = wd_engine w"
    by simp
  with assms auth au lim authenticate_ok [of dp bearer "now_of dp w" "wd_db w" au d] show ?thesis
    by (auto simp: stageAuth_def Let_def with_app_def split: if_splits)
qed

text \<open>Cached policies were resolved ones.\<close>

definition engine_ok :: "engine \<Rightarrow> bool" where
  "engine_ok e \<longleftrightarrow> (\<forall>k v x. map_get (cache e) k = Some (v, x) \<longrightarrow> eff_ok v)"

lemma engine_new_ok: "engine_ok engine_new"
  by (simp add: engine_ok_def engine_new_def)

lemma firmSettings_cache [simp]: "cache (snd (firmSettings ttl d now f e)) = cache e"
  by (simp add: firmSettings_def split: option.splits prod.splits)

lemma resolve_ok:
  assumes "resolve ttl d now f k st e = (Inr eff, e')" "engine_ok e"
  shows "eff_ok eff"
  using assms resolve_db_ok [of d f k st]
  by (auto simp: resolve_def Let_def engine_ok_def split: option.splits prod.splits sum.splits if_splits)

lemma stagePolicy_ok:
  assumes "stagePolicy dp cx w = (Inr (), cx', w')" "engine_ok (wd_engine w)"
  shows "\<exists>eff. eff_ok eff \<and> cx' = cx\<lparr>cx_taskClass := Some (ep_taskClass eff),
      cx_envelope := applyLimits eff (cx_envelope cx), cx_effective := Some eff\<rparr>
    \<and> checkRole eff (md_userRole (metadata (cx_envelope cx))) = Inr ()"
proof -
  from assms(1) obtain au where au: "cx_auth cx = Some au"
    by (auto simp: stagePolicy_def split: option.splits)
  obtain st e1 where fs: "firmSettings (dp_engineTtlMs dp) (wd_db w) (now_of dp w) (au_firmId au) (wd_engine w) = (st, e1)"
    by (cases "firmSettings (dp_engineTtlMs dp) (wd_db w) (now_of dp w) (au_firmId au) (wd_engine w)")
  define w1 where "w1 = advance (w\<lparr>wd_engine := e1\<rparr>)"
  obtain res e2 where res: "resolve (dp_engineTtlMs dp) (wd_db w1) (now_of dp w1) (au_firmId au)
      (taskClass (cx_envelope cx)) st (wd_engine w1) = (res, e2)"
    by (cases "resolve (dp_engineTtlMs dp) (wd_db w1) (now_of dp w1) (au_firmId au)
      (taskClass (cx_envelope cx)) st (wd_engine w1)")
  have ok: "engine_ok (wd_engine w1)"
    using assms(2) firmSettings_cache [of "dp_engineTtlMs dp" "wd_db w" "now_of dp w" "au_firmId au" "wd_engine w"] fs
    by (simp add: w1_def advance_def engine_ok_def)
  from assms(1) au fs res obtain eff where eff: "res = Inr eff"
    by (cases res) (auto simp: stagePolicy_def Let_def w1_def)
  with resolve_ok [OF _ ok] res have "eff_ok eff"
    by blast
  with assms(1) au fs res eff show ?thesis
    by (auto simp: stagePolicy_def Let_def w1_def split: sum.splits)
qed

lemma stageBudget_ok:
  assumes "stageBudget dp cx w = (Inr (), cx', w')"
  shows "same_request cx cx' \<and> cx_route cx' = cx_route cx
    \<and> (\<exists>au eff soft. cx_auth cx = Some au \<and> cx_effective cx = Some eff
         \<and> checkBudgets (wd_db w) (budget_params_of cx au eff) (now_of dp w) = Inr soft)"
  using assms by (auto simp: stageBudget_def same_request_def split: option.splits sum.splits if_splits)

lemma stageRoute_ok:
  assumes "stageRoute dp cx w = (Inr (), cx', w')"
  shows "same_request cx cx'
    \<and> (cx_route cx = None \<longrightarrow> (case cx_route cx' of None \<Rightarrow> True
         | Some r \<Rightarrow> \<exists>eff up. cx_effective cx = Some eff \<and> selectModel eff (cx_envelope cx) = Inr (rt_model r, up)
             \<and> hop_ok dp eff (cx_envelope cx) (cx_cloudBlockedCounts cx) r))"
proof -
  from assms obtain eff au where ctx: "cx_effective cx = Some eff" "cx_auth cx = Some au"
    by (auto simp: stageRoute_def split: option.splits)
  with assms obtain m up where sel: "selectModel eff (cx_envelope cx) = Inr (m, up)"
    by (auto simp: stageRoute_def split: sum.splits)
  obtain res cx1 w1 where route: "routeForModel dp m cx (audit_upgrade cx au eff up w) = (res, cx1, w1)"
    by (metis prod_cases3)
  have same: "same_request cx cx1"
    by (rule routeForModel_same [OF route])
  show ?thesis
  proof (cases res)
    case (Inl t)
    have "cx_route cx1 = cx_route cx"
      using routeForModel_frame [OF route] by (metis pipeline_ctx.select_convs(8) pipeline_ctx.surjective pipeline_ctx.update_convs(14))
    with Inl assms ctx sel route same show ?thesis
      by (auto simp: stageRoute_def same_request_def split: if_splits option.splits)
  next
    case (Inr r)
    with routeForModel_ok [of dp m cx _ r cx1 w1] route ctx
    have "hop_ok dp eff (cx_envelope cx) (cx_cloudBlockedCounts cx) r" "rt_model r = m"
      by auto
    with Inr assms ctx sel route same show ?thesis
      by (auto simp: stageRoute_def)
  qed
qed

section \<open>What the scrubber lets out\<close>

lemma scrub_text_clean: "scanText t = [] \<Longrightarrow> scrub_text t = t"
  by (simp add: scrub_text_def)

lemma part_map_clean: "\<forall>t\<in>set (part_texts ps). scanText t = [] \<Longrightarrow> map part_map ps = ps"
proof (induction ps)
  case (Cons p ps)
  then show ?case
    by (cases p) (auto simp: part_texts_def scrub_text_clean)
qed simp

lemma message_map_clean: "\<forall>t\<in>set (message_texts m). scanText t = [] \<Longrightarrow> message_map m = m"
proof -
  assume clean: "\<forall>t\<in>set (message_texts m). scanText t = []"
  then have "content_map (m_content m) = m_content m"
    by (cases "m_content m") (auto simp: message_texts_def part_map_clean scrub_text_clean)
  moreover have "map_option (map call_map) (m_toolCalls m) = m_toolCalls m"
    using clean by (cases "m_toolCalls m") (auto simp: message_texts_def call_map_def scrub_text_clean intro!: map_idI)
  ultimately show ?thesis
    by (simp add: message_map_def)
qed

lemma redact_clean: "total (scanEnvelope env) = 0 \<Longrightarrow> fst (redactEnvelope env) = env"
proof -
  assume "total (scanEnvelope env) = 0"
  then have "\<forall>t\<in>set (textFields env). scanText t = []"
    by (simp add: total_scan)
  then have "map message_map (messages env) = messages env"
    by (intro map_idI message_map_clean) (auto simp: textFields_def)
  then show ?thesis
    by (simp add: redactEnvelope_eq)
qed

text \<open>What may go to a cloud model, by the firm's mode: the redacted copy; the original, only if the
  scan found nothing; the original.\<close>

definition cloud_text :: "effective_policy \<Rightarrow> ai_request \<Rightarrow> ai_request option" where
  "cloud_text eff env =
     (case scrub_mode eff of
        ModeRedact \<Rightarrow> Some (fst (redactEnvelope env))
      | ModeBlock \<Rightarrow> if total (scanEnvelope env) = 0 then Some env else None
      | ModeWarn \<Rightarrow> Some env)"

text \<open>A context the scrub stage has cleared: a reachable cloud model gets \<open>cloud_text\<close> or nothing.\<close>

definition cleared :: "effective_policy \<Rightarrow> ai_request \<Rightarrow> pipeline_ctx \<Rightarrow> bool" where
  "cleared eff env cx \<longleftrightarrow>
     cx_effective cx = Some eff
     \<and> (\<forall>m\<in>candidates_of eff (cx_envelope cx). \<not> isLocalKind (providerKind m) \<longrightarrow> cx_cloudBlockedCounts cx = None \<longrightarrow>
          Some (nullish (cx_cloudEnvelope cx) (cx_envelope cx)) = cloud_text eff env)
     \<and> (\<forall>m up. selectModel eff (cx_envelope cx) = Inr (m, up) \<longrightarrow> \<not> isLocalKind (providerKind m) \<longrightarrow> cx_cloudEnvelope cx = None)
     \<and> cx_envelope cx \<in> {env, fst (redactEnvelope env)}"

lemma cleared_same: "same_request cx cx' \<Longrightarrow> cleared eff env cx' = cleared eff env cx"
  by (simp add: cleared_def same_request_def)

lemma local_chain_candidates:
  assumes "eff_ok eff" "selectModel eff env = Inr (m, up)" "isLocalKind (providerKind m)" "\<not> cloud_in_chain eff"
    and "x \<in> candidates_of eff env"
  shows "isLocalKind (providerKind x)"
proof -
  from assms(2,5) obtain i where i: "i \<in> set (mdl_id m # fallbackChain (ep_policy eff))" "map_get (ep_modelsById eff) i = Some x"
    by (auto simp: candidates_of_def)
  show ?thesis
  proof (cases "i = mdl_id m")
    case True
    with i selectModel_bound [OF assms(1,2)] assms(3) show ?thesis
      by simp
  next
    case False
    with i assms(4) show ?thesis
      by (force simp: cloud_in_chain_def list_ex_iff)
  qed
qed

lemma scrub_redact_eq:
  "scrub_redact cloud cx =
     (scanEnvelope (cx_envelope cx),
      if total (scanEnvelope (cx_envelope cx)) = 0 then cx
      else (if cloud then cx\<lparr>cx_envelope := fst (redactEnvelope (cx_envelope cx))\<rparr>
            else cx\<lparr>cx_cloudEnvelope := Some (fst (redactEnvelope (cx_envelope cx)))\<rparr>)
             \<lparr>cx_scrubbed := Some (ModeRedact, counts (scanEnvelope (cx_envelope cx)))\<rparr>)"
  by (simp add: scrub_redact_def redactEnvelope_eq)

lemma scrub_scan_eq:
  "scrub_scan mode cx =
     (scanEnvelope (cx_envelope cx),
      if total (scanEnvelope (cx_envelope cx)) = 0 then cx
      else cx\<lparr>cx_scrubbed := Some (mode, counts (scanEnvelope (cx_envelope cx)))\<rparr>)"
  by (simp add: scrub_scan_def Let_def)

text \<open>The context after a scrub stage that lets the request pass.\<close>

lemma stageScrub_context:
  assumes "stageScrub cx w = (Inr (), cx', w')" "cx_effective cx = Some eff" "selectModel eff (cx_envelope cx) = Inr (m, up)"
  defines "cloud \<equiv> \<not> isLocalKind (providerKind m)" and "found \<equiv> total (scanEnvelope (cx_envelope cx)) \<noteq> 0"
  shows "cx' =
    (if \<not> cloud \<and> \<not> cloud_in_chain eff then cx
     else if scrub_mode eff = ModeRedact then snd (scrub_redact cloud cx)
     else if scrub_mode eff = ModeBlock \<and> found
     then (snd (scrub_scan ModeBlock cx))\<lparr>cx_cloudBlockedCounts := Some (counts (scanEnvelope (cx_envelope cx)))\<rparr>
     else snd (scrub_scan (scrub_mode eff) cx))
    \<and> (cloud \<and> scrub_mode eff = ModeBlock \<longrightarrow> \<not> found)"
proof -
  from assms(1,2) obtain au where au: "cx_auth cx = Some au"
    by (auto simp: stageScrub_def split: option.splits)
  have cl: "isLocalKind (providerKind m) \<longleftrightarrow> \<not> cloud"
    by (simp add: cloud_def)
  obtain R where R: "scrub_redact cloud cx = (scanEnvelope (cx_envelope cx), R)"
    by (simp add: scrub_redact_eq)
  obtain S where S: "scrub_scan (scrub_mode eff) cx = (scanEnvelope (cx_envelope cx), S)"
    by (simp add: scrub_scan_eq)
  note st = assms(1) [unfolded stageScrub_def scrub_verdict_def]
  consider "\<not> cloud" "\<not> cloud_in_chain eff"
    | "cloud \<or> cloud_in_chain eff" "scrub_mode eff = ModeRedact"
    | "cloud \<or> cloud_in_chain eff" "scrub_mode eff = ModeBlock"
    | "cloud \<or> cloud_in_chain eff" "scrub_mode eff = ModeWarn"
    by (cases "scrub_mode eff") auto
  then show ?thesis
  proof cases
    case 1
    with st assms(2,3) au show ?thesis
      by (simp add: cloud_def)
  next
    case 2
    with st assms(2,3) au show ?thesis
      by (auto simp: R Let_def cl split: if_splits)
  next
    case 3
    with st assms(2,3) au S show ?thesis
      by (auto simp: Let_def found_def cl split: if_splits)
  next
    case 4
    with st assms(2,3) au S show ?thesis
      by (auto simp: Let_def cl split: if_splits)
  qed
qed

lemma stageScrub_selects:
  assumes "stageScrub cx w = (Inr (), cx', w')" "cx_effective cx = Some eff"
  shows "\<exists>m up. selectModel eff (cx_envelope cx) = Inr (m, up)"
  using assms
  by (auto simp: stageScrub_def scrub_verdict_def split: option.splits sum.splits thrown.splits)

lemma stageScrub_ok:
  assumes "stageScrub cx w = (Inr (), cx', w')" "cx_effective cx = Some eff" "eff_ok eff"
    and "cx_cloudEnvelope cx = None" "cx_cloudBlockedCounts cx = None"
  shows "cleared eff (cx_envelope cx) cx' \<and> cx_auth cx' = cx_auth cx \<and> cx_route cx' = cx_route cx"
proof -
  let ?env = "cx_envelope cx"
  from stageScrub_selects [OF assms(1,2)] obtain m up where sel: "selectModel eff ?env = Inr (m, up)"
    by blast
  note cx' = stageScrub_context [OF assms(1,2) sel]
  consider (local) "isLocalKind (providerKind m)" "\<not> cloud_in_chain eff"
    | (redact) "\<not> isLocalKind (providerKind m) \<or> cloud_in_chain eff" "scrub_mode eff = ModeRedact"
    | (scan) "\<not> isLocalKind (providerKind m) \<or> cloud_in_chain eff" "scrub_mode eff \<noteq> ModeRedact"
    by blast
  then show ?thesis
  proof cases
    case local
    with cx' have "cx' = cx"
      by simp
    with local_chain_candidates [OF assms(3) sel local] local sel assms(2,4) show ?thesis
      by (auto simp: cleared_def)
  next
    case redact
    then have eq: "cx' = snd (scrub_redact (\<not> isLocalKind (providerKind m)) cx)"
      using cx' by auto
    show ?thesis
    proof (cases "total (scanEnvelope ?env) = 0")
      case True
      with eq redact sel assms(2,4) redact_clean [OF True] show ?thesis
        by (simp add: cleared_def cloud_text_def scrub_redact_eq)
    next
      case False
      with eq redact sel assms(2,4,5) show ?thesis
        by (simp add: cleared_def cloud_text_def scrub_redact_eq)
    qed
  next
    case scan
    show ?thesis
    proof (cases "total (scanEnvelope ?env) = 0")
      case True
      with scan cx' have "cx' = cx"
        by (auto simp: scrub_scan_eq)
      with True scan sel assms(2,4) show ?thesis
        by (cases "scrub_mode eff") (simp_all add: cleared_def cloud_text_def)
    next
      case False
      with scan cx' sel assms(2,4,5) show ?thesis
        by (cases "scrub_mode eff") (simp_all add: cleared_def cloud_text_def scrub_scan_eq)
    qed
  qed
qed

section \<open>Calls of the adapt stage\<close>

text \<open>What may be sent from a cleared context: to a reachable model that passes the gate, and the
  cleared text.\<close>

definition egress_ok :: "deps \<Rightarrow> effective_policy \<Rightarrow> ai_request \<Rightarrow> route_decision \<Rightarrow> ai_request \<Rightarrow> bool" where
  "egress_ok dp eff env r e \<longleftrightarrow>
     rt_model r \<in> set (map_vals (ep_modelsById eff))
     \<and> mdl_status (rt_model r) \<noteq> MSunset
     \<and> modelBanned (rt_model r) (ep_firmSettings eff) = Inr None
     \<and> (sensitivity (ep_taskClass eff) = local_only \<longrightarrow> isLocalKind (providerKind (rt_model r)))
     \<and> (dp_ssrfDenyPrivateCloud dp \<noteq> Some False \<longrightarrow>
          checkBaseUrl (dp_url_of dp) (dp_isIP dp) (prv_kind (rt_provider r)) (prv_baseUrl (rt_provider r)) = None)
     \<and> (\<exists>t. e = clampToModel t (rt_model r) \<and>
          (if isLocalKind (providerKind (rt_model r)) then t \<in> {env, fst (redactEnvelope env)} else cloud_text eff env = Some t))"

lemma hop_egress:
  assumes "cleared eff env cx" "rt_model r \<in> candidates_of eff (cx_envelope cx)"
    and "hop_ok dp eff (cx_envelope cx) (cx_cloudBlockedCounts cx) r"
  shows "egress_ok dp eff env r (hopEnvelope r cx)"
proof -
  have "hopEnvelope r cx = clampToModel (if isLocalKind (providerKind (rt_model r)) then cx_envelope cx
      else nullish (cx_cloudEnvelope cx) (cx_envelope cx)) (rt_model r)"
    by (auto simp: hopEnvelope_def split: option.splits)
  with assms candidates_bound [OF assms(2)] show ?thesis
    by (auto simp: egress_ok_def cleared_def hop_ok_def model_ok_def)
qed

definition egress_event :: "deps \<Rightarrow> effective_policy \<Rightarrow> ai_request \<Rightarrow> xevent \<Rightarrow> bool" where
  "egress_event dp eff env ev \<longleftrightarrow>
     (\<forall>r e. ev = AdapterCall r e \<or> ev = StreamCall r e \<longrightarrow> egress_ok dp eff env r e)"

lemma quiet_egress: "quiet ev \<Longrightarrow> egress_event dp eff env ev"
  by (cases ev) (auto simp: quiet_def egress_event_def)

lemma quiet_adds_egress: "adds quiet w w' \<Longrightarrow> adds (egress_event dp eff env) w w'"
  by (erule adds_mono) (rule quiet_egress)

lemma call_ok_egress:
  assumes "cleared eff env cx" "call_ok (candidates_of eff (cx_envelope cx)) dp eff cx ev"
  shows "egress_event dp eff env ev"
  using assms hop_egress [OF assms(1)] by (cases ev) (auto simp: egress_event_def)

lemma store_response_trace [simp]: "wd_trace (store_response dp k res ttl w) = wd_trace w"
  by (auto simp: store_response_def split: option.splits)

lemma cache_lookup_trace: "cache_lookup dp k w = (hit, w') \<Longrightarrow> wd_trace w' = wd_trace w"
  by (auto simp: cache_lookup_def split: option.splits prod.splits)

lemma adapt_resilient_egress:
  assumes "adapt_resilient dp cfg au key cx w = (out, cx', w')" "cleared eff env cx"
  shows "adds (egress_event dp eff env) w w'"
proof -
  have eff: "cx_effective cx = Some eff"
    using assms(2) by (simp add: cleared_def)
  obtain o1 c1 w1 where plain: "executeResilient dp cfg cx w = (o1, c1, w1)"
    by (metis prod_cases3)
  obtain o2 c2 w2 where str: "executeResilientStream dp cfg cx w = (o2, c2, w2)"
    by (metis prod_cases3)
  have "adds (egress_event dp eff env) w w1"
    using executeResilient_facts [OF eff plain] call_ok_egress [OF assms(2)]
    by (auto simp: walk_facts_def elim: adds_mono)
  moreover have "adds (egress_event dp eff env) w w2"
    using executeResilientStream_facts [OF eff str] call_ok_egress [OF assms(2)]
    by (auto simp: walk_facts_def elim: adds_mono)
  moreover have "wd_trace w' = wd_trace w1 \<or> wd_trace w' = wd_trace w2"
    using assms(1) plain str
    by (auto simp: adapt_resilient_def Let_def split: if_splits sum.splits list.splits prod.splits stream_outcome.splits)
  ultimately show ?thesis
    by (auto simp: adds_def)
qed

lemma adapt_direct_egress:
  assumes "adapt_direct dp r au key cx w = (out, cx', w')"
    and "egress_ok dp eff env r (clampToModel (cx_envelope cx) (rt_model r))"
  shows "adds (egress_event dp eff env) w w'"
proof -
  let ?e = "clampToModel (cx_envelope cx) (rt_model r)"
  have health: "adds (egress_event dp eff env) v (record_health cx r ok v)" for v ok
    by (rule quiet_adds_egress [OF record_health_quiet])
  have "adds (egress_event dp eff env) w (yield_others dp (emit (AdapterCall r ?e) w))"
    "adds (egress_event dp eff env) w (yield_others dp (emit (StreamCall r ?e) w))"
    using assms(2) by (auto simp: adds_def egress_event_def)
  moreover have "wd_trace w' = wd_trace (yield_others dp (emit (StreamCall r ?e) w))
      \<or> (\<exists>ok. wd_trace w' = wd_trace (record_health cx r ok (yield_others dp (emit (AdapterCall r ?e) w))))"
    using assms(1) by (auto simp: adapt_direct_def Let_def split: if_splits sum.splits prod.splits)
  ultimately show ?thesis
    using adds_trans [OF _ health] by (smt (verit) adds_def)
qed

lemma stageAdapt_egress:
  assumes "stageAdapt dp cx w = (out, cx', w')" "cleared eff env cx" "eff_ok eff"
    and route: "\<And>r. cx_route cx = Some r \<Longrightarrow> (\<exists>up. selectModel eff (cx_envelope cx) = Inr (rt_model r, up))
          \<and> hop_ok dp eff (cx_envelope cx) (cx_cloudBlockedCounts cx) r"
  shows "adds (egress_event dp eff env) w w'"
proof -
  have direct: "egress_ok dp eff env r (clampToModel (cx_envelope cx) (rt_model r))" if r: "cx_route cx = Some r" for r
  proof -
    from route [OF r] obtain up where sel: "selectModel eff (cx_envelope cx) = Inr (rt_model r, up)"
      and ok: "hop_ok dp eff (cx_envelope cx) (cx_cloudBlockedCounts cx) r"
      by blast
    from selectModel_bound [OF assms(3) sel] sel have "rt_model r \<in> candidates_of eff (cx_envelope cx)"
      by (auto simp: candidates_of_def)
    moreover have "isLocalKind (providerKind (rt_model r)) \<or> cx_cloudEnvelope cx = None"
      using assms(2) sel by (auto simp: cleared_def)
    then have "hopEnvelope r cx = clampToModel (cx_envelope cx) (rt_model r)"
      by (auto simp: hopEnvelope_def split: option.splits)
    ultimately show ?thesis
      using hop_egress [OF assms(2) _ ok] by simp
  qed
  show ?thesis
  proof (cases "cx_auth cx = None \<or> cx_route cx = None \<and> dp_resilience dp = None")
    case True
    with assms(1) show ?thesis
      by (auto simp: stageAdapt_def split: option.splits)
  next
    case False
    then obtain au where au: "cx_auth cx = Some au"
      by auto
    have no: "(cx_route cx = None \<and> dp_resilience dp = None) = False"
      using False by blast
    define key where "key = (case cx_route cx of None \<Rightarrow> None | Some r \<Rightarrow> keyFor dp cx au r)"
    obtain hit w1 where look: "cache_lookup dp key w = (hit, w1)"
      by (cases "cache_lookup dp key w")
    have same: "adds (egress_event dp eff env) w w1"
      using cache_lookup_trace [OF look] by (rule adds_same)
    have st: "stageAdapt dp cx w =
      (case hit of
         Some res \<Rightarrow> (Inr (), cx\<lparr>cx_response := Some (res\<lparr>served_latencyMs := now_of dp w1 - cx_startedAt cx\<rparr>),
                               cx_cacheHit := True\<rparr>, w1)
       | None \<Rightarrow> (case dp_resilience dp of
                   Some cfg \<Rightarrow> adapt_resilient dp cfg au key cx w1
                 | None \<Rightarrow> (case cx_route cx of
                     None \<Rightarrow> (Inl (Routed (nullish (cx_routeError cx) ordering_violation)), cx, w1)
                   | Some r \<Rightarrow> adapt_direct dp r au key cx w1)))"
      by (simp add: stageAdapt_def Let_def au look no flip: key_def)
    show ?thesis
      using assms(1) same adapt_resilient_egress [OF _ assms(2)] adapt_direct_egress [OF _ direct]
      by (auto simp: st split: option.splits intro: adds_trans)
  qed
qed

section \<open>Along the stages\<close>

lemma checkBudgets_token [simp]: "checkBudgets (touch_token i n d) p now = checkBudgets d p now"
  by (simp add: checkBudgets_def budget_checks_def firm_check_def app_check_def user_check_def task_class_check_def
      ledger_total_def spentFor_def touch_token_def cong: option.case_cong)

lemma stageAuth_db: "stageAuth dp bearer cx w = (Inr (), cx', w') \<Longrightarrow> \<exists>i n. wd_db w' = touch_token i n (wd_db w)"
proof -
  assume run: "stageAuth dp bearer cx w = (Inr (), cx', w')"
  obtain res d where auth: "authenticateAppToken (dp_sha256 dp) bearer (now_of dp w) (wd_db w) = (res, d)"
    by (cases "authenticateAppToken (dp_sha256 dp) bearer (now_of dp w) (wd_db w)")
  with run obtain au where au: "res = Inr au"
    by (cases res) (auto simp: stageAuth_def)
  with auth have "\<exists>i n. d = touch_token i n (wd_db w)"
    by (auto simp: authenticateAppToken_def Let_def split: option.splits if_splits)
  moreover obtain tw uw w2 where
    lim: "take_limits dp au (md_userId (metadata (cx_envelope cx))) (advance (w\<lparr>wd_db := d\<rparr>)) = (tw, uw, w2)"
    by (metis prod_cases3)
  then have "wd_db w2 = d"
    using take_limits_frame(2) [of dp au "md_userId (metadata (cx_envelope cx))" "advance (w\<lparr>wd_db := d\<rparr>)"] by simp
  ultimately show ?thesis
    using run auth au lim by (auto simp: stageAuth_def Let_def split: if_splits)
qed

lemma stagePolicy_db: "stagePolicy dp cx w = (out, cx', w') \<Longrightarrow> wd_db w' = wd_db w"
  by (auto simp: stagePolicy_def Let_def split: option.splits prod.splits sum.splits)

lemma stageResolve_ok: "stageResolveTaskClass cx w = (out, cx', w') \<Longrightarrow> cx' = cx \<and> w' = w"
  by (auto simp: stageResolveTaskClass_def split: if_splits)

text \<open>A context as the route layer creates it.\<close>

definition fresh :: "pipeline_ctx \<Rightarrow> bool" where
  "fresh cx \<longleftrightarrow> cx_auth cx = None \<and> cx_effective cx = None \<and> cx_route cx = None \<and> cx_cloudEnvelope cx = None
     \<and> cx_cloudBlockedCounts cx = None"

text \<open>What a request must have passed before a provider is called.\<close>

definition admitted_as :: "deps \<Rightarrow> db \<Rightarrow> string option \<Rightarrow> ai_request \<Rightarrow> auth_context \<Rightarrow> effective_policy \<Rightarrow> ai_request \<Rightarrow> bool" where
  "admitted_as dp d bearer env0 au eff env \<longleftrightarrow>
     token_for dp d bearer au \<and> eff_ok eff \<and> env = applyLimits eff (with_app env0 (au_app au))
     \<and> checkRole eff (md_userRole (metadata env0)) = Inr ()
     \<and> (\<exists>p now soft. bp_firmId p = au_firmId au \<and> bp_app p = au_app au \<and> bp_userId p = given (md_userId (metadata env0))
          \<and> bp_settings p = nullish (budgets (ep_firmSettings eff)) no_budgets
          \<and> bp_policyMonthlyCents p = monthlyBudgetCents (ep_policy eff) \<and> checkBudgets d p now = Inr soft)"

lemma with_app_metadata [simp]:
  "md_userRole (metadata (with_app env a)) = md_userRole (metadata env)"
  "md_userId (metadata (with_app env a)) = md_userId (metadata env)"
  by (simp_all add: with_app_def)

lemma applyLimits_metadata [simp]: "metadata (applyLimits eff env) = metadata env"
  by (simp add: applyLimits_def)

section \<open>The policy of a request is never exchanged\<close>

lemma scrub_effective [simp]:
  "cx_effective (snd (scrub_redact b cx)) = cx_effective cx" "cx_effective (snd (scrub_scan md cx)) = cx_effective cx"
  by (simp_all add: scrub_redact_eq scrub_scan_eq)

lemma scrub_verdict_effective:
  assumes "scrub_verdict eff cx = Inr (Some (b, rep, cx1))"
  shows "cx_effective cx1 = cx_effective cx"
proof -
  have "scrub_redact b cx = (rep, cx1) \<or> (\<exists>md. scrub_scan md cx = (rep, cx1))"
    using assms by (auto simp: scrub_verdict_def Let_def split: sum.splits thrown.splits if_splits)
  then show ?thesis
    using scrub_effective by (metis snd_conv)
qed

lemma stageScrub_effective:
  assumes "stageScrub cx w = (out, cx', w')"
  shows "cx_effective cx' = cx_effective cx"
proof (cases "\<exists>eff au. cx_effective cx = Some eff \<and> cx_auth cx = Some au")
  case False
  with assms show ?thesis
    by (auto simp: stageScrub_def split: option.splits)
next
  case True
  then obtain eff au where ctx: "cx_effective cx = Some eff" "cx_auth cx = Some au"
    by blast
  show ?thesis
  proof (cases "\<exists>b rep cx1. scrub_verdict eff cx = Inr (Some (b, rep, cx1))")
    case False
    with assms ctx show ?thesis
      by (auto simp: stageScrub_def split: sum.splits option.splits)
  next
    case True
    then obtain b rep cx1 where v: "scrub_verdict eff cx = Inr (Some (b, rep, cx1))"
      by blast
    with assms ctx have "cx' = cx1 \<or> (\<exists>c. cx' = cx1\<lparr>cx_cloudBlockedCounts := c\<rparr>)"
      by (auto simp: stageScrub_def split: if_splits)
    with scrub_verdict_effective [OF v] show ?thesis
      by auto
  qed
qed

lemma stageRoute_effective: "stageRoute dp cx w = (out, cx', w') \<Longrightarrow> cx_effective cx' = cx_effective cx"
  by (auto simp: stageRoute_def same_request_def split: option.splits sum.splits prod.splits if_splits
      dest!: routeForModel_same)

lemma stageAdapt_effective:
  assumes "stageAdapt dp cx w = (out, cx', w')" "cx_effective cx = Some eff"
  shows "cx_effective cx' = Some eff"
proof -
  have res: "cx_effective c = Some eff" if "adapt_resilient dp cfg au key cx w1 = (r, c, w2)" for cfg au key w1 r c w2
  proof -
    obtain o1 c1 v1 where plain: "executeResilient dp cfg cx w1 = (o1, c1, v1)"
      by (metis prod_cases3)
    obtain o2 c2 v2 where str: "executeResilientStream dp cfg cx w1 = (o2, c2, v2)"
      by (metis prod_cases3)
    have "cx_effective c1 = Some eff" "cx_effective c2 = Some eff"
      using executeResilient_facts [OF assms(2) plain] executeResilientStream_facts [OF assms(2) str] assms(2)
      by (auto simp: walk_facts_def same_request_def)
    moreover have "cx_effective c = cx_effective c1 \<or> cx_effective c = cx_effective c2"
      using that plain str
      by (auto simp: adapt_resilient_def Let_def split: if_splits sum.splits list.splits prod.splits stream_outcome.splits)
    ultimately show ?thesis
      by auto
  qed
  have dir: "cx_effective c = Some eff" if "adapt_direct dp rt au key cx w1 = (r, c, w2)" for rt au key w1 r c w2
    using that assms(2) by (auto simp: adapt_direct_def Let_def split: if_splits prod.splits sum.splits)
  show ?thesis
    using assms by (auto simp: stageAdapt_def Let_def split: option.splits if_splits prod.splits dest: res dir)
qed

text \<open>From the scrub stage on.\<close>

lemma back_egress:
  assumes "then_stage stageScrub (then_stage (stageRoute dp) (stageAdapt dp)) cx w = (out, cx', w')"
    and "cx_effective cx = Some eff" "eff_ok eff"
    and "cx_cloudEnvelope cx = None" "cx_cloudBlockedCounts cx = None" "cx_route cx = None"
  shows "adds (egress_event dp eff (cx_envelope cx)) w w' \<and> cx_effective cx' = Some eff"
  using assms(1)
proof (cases rule: then_stage_cases)
  case (1 t)
  then show ?thesis
    using stageScrub_effective assms(2) by (fastforce intro: quiet_adds_egress stageScrub_quiet)
next
  case (2 cx5 w5)
  note q5 = stageScrub_quiet [OF 2(1)]
  have eff5: "cx_effective cx5 = Some eff"
    using stageScrub_effective [OF 2(1)] assms(2) by simp
  from stageScrub_ok [OF 2(1) assms(2-5)] assms(6)
  have clr: "cleared eff (cx_envelope cx) cx5" and route5: "cx_route cx5 = None"
    by simp_all
  from 2(2) show ?thesis
  proof (cases rule: then_stage_cases)
    case (1 t)
    then show ?thesis
      using stageRoute_effective eff5 by (fastforce intro: quiet_adds_egress adds_trans [OF q5 stageRoute_quiet])
  next
    case (2 cx6 w6)
    have q6: "adds quiet w w6"
      by (rule adds_trans [OF q5 stageRoute_quiet [OF 2(1)]])
    from stageRoute_ok [OF 2(1)] route5 have same: "same_request cx5 cx6"
      and r6: "\<And>r. cx_route cx6 = Some r \<Longrightarrow> \<exists>eff up. cx_effective cx5 = Some eff
         \<and> selectModel eff (cx_envelope cx5) = Inr (rt_model r, up)
         \<and> hop_ok dp eff (cx_envelope cx5) (cx_cloudBlockedCounts cx5) r"
      by auto
    have "adds (egress_event dp eff (cx_envelope cx)) w6 w'"
    proof (rule stageAdapt_egress [OF 2(2) _ assms(3)])
      show "cleared eff (cx_envelope cx) cx6"
        using clr cleared_same [OF same] by simp
      show "(\<exists>up. selectModel eff (cx_envelope cx6) = Inr (rt_model r, up))
        \<and> hop_ok dp eff (cx_envelope cx6) (cx_cloudBlockedCounts cx6) r" if "cx_route cx6 = Some r" for r
        using r6 [OF that] same clr by (auto simp: same_request_def cleared_def)
    qed
    with quiet_adds_egress [OF q6] stageAdapt_effective [OF 2(2)] stageRoute_effective [OF 2(1)] eff5 show ?thesis
      by (auto intro: adds_trans)
  qed
qed

text \<open>From the policy stage on, for an authenticated request.\<close>

lemma middle_egress:
  assumes "then_stage (stagePolicy dp) (then_stage (stageBudget dp)
      (then_stage stageScrub (then_stage (stageRoute dp) (stageAdapt dp)))) cx w = (out, cx', w')"
    and "cx_auth cx = Some au" "engine_ok (wd_engine w)"
    and "cx_cloudEnvelope cx = None" "cx_cloudBlockedCounts cx = None" "cx_route cx = None"
  shows "adds quiet w w' \<or> (\<exists>eff p now soft. eff_ok eff \<and> checkRole eff (md_userRole (metadata (cx_envelope cx))) = Inr ()
    \<and> p = budget_params_of cx au eff \<and> checkBudgets (wd_db w) p now = Inr soft
    \<and> adds (egress_event dp eff (applyLimits eff (cx_envelope cx))) w w' \<and> cx_effective cx' = Some eff)"
  using assms(1)
proof (cases rule: then_stage_cases)
  case (1 t)
  then show ?thesis
    using stagePolicy_quiet by blast
next
  case (2 cx3 w3)
  note q3 = stagePolicy_quiet [OF 2(1)]
  from stagePolicy_ok [OF 2(1) assms(3)] obtain eff where eff: "eff_ok eff"
    "cx3 = cx\<lparr>cx_taskClass := Some (ep_taskClass eff), cx_envelope := applyLimits eff (cx_envelope cx), cx_effective := Some eff\<rparr>"
    "checkRole eff (md_userRole (metadata (cx_envelope cx))) = Inr ()"
    by blast
  from 2(2) show ?thesis
  proof (cases rule: then_stage_cases)
    case (1 t)
    with adds_trans [OF q3 stageBudget_quiet] show ?thesis
      by blast
  next
    case (2 cx4 w4)
    from stageBudget_ok [OF 2(1)] assms(2) eff(2) obtain soft where
      same: "same_request cx3 cx4" "cx_route cx4 = cx_route cx3"
      and soft: "checkBudgets (wd_db w3) (budget_params_of cx3 au eff) (now_of dp w3) = Inr soft"
      by auto
    have params: "budget_params_of cx3 au eff = budget_params_of cx au eff" "wd_db w3 = wd_db w"
      using stagePolicy_db \<open>stagePolicy dp cx w = (Inr (), cx3, w3)\<close> by (auto simp: budget_params_of_def eff(2))
    have cx4: "cx_effective cx4 = Some eff" "cx_cloudEnvelope cx4 = None" "cx_cloudBlockedCounts cx4 = None"
      "cx_route cx4 = None" and env4: "cx_envelope cx4 = applyLimits eff (cx_envelope cx)"
      using same assms(4-6) by (auto simp: same_request_def eff(2))
    have "adds (egress_event dp eff (applyLimits eff (cx_envelope cx))) w w4"
      by (rule quiet_adds_egress [OF adds_trans [OF q3 stageBudget_quiet [OF 2(1)]]])
    with back_egress [OF 2(2) cx4(1) eff(1) cx4(2-4)] env4
    have "adds (egress_event dp eff (applyLimits eff (cx_envelope cx))) w w' \<and> cx_effective cx' = Some eff"
      by (auto intro: adds_trans)
    with eff(1,3) soft params show ?thesis
      by auto
  qed
qed

lemma stages_egress:
  assumes "stages dp bearer cx w = (out, cx', w')" "fresh cx" "engine_ok (wd_engine w)"
  shows "adds quiet w w' \<or> (\<exists>au eff env. admitted_as dp (wd_db w) bearer (cx_envelope cx) au eff env
    \<and> adds (egress_event dp eff env) w w' \<and> cx_effective cx' = Some eff)"
  using assms(1) unfolding stages_def
proof (cases rule: then_stage_cases)
  case (1 t)
  then show ?thesis
    using stageAuth_quiet by blast
next
  case (2 cx1 w1)
  note q1 = stageAuth_quiet [OF 2(1)]
  from stageAuth_ok [OF 2(1)] obtain au where au: "token_for dp (wd_db w) bearer au"
    "cx1 = cx\<lparr>cx_auth := Some au, cx_envelope := with_app (cx_envelope cx) (au_app au)\<rparr>" "wd_engine w1 = wd_engine w"
    by blast
  from stageAuth_db [OF 2(1)] obtain ti tn where db1: "wd_db w1 = touch_token ti tn (wd_db w)"
    by blast
  from 2(2) show ?thesis
  proof (cases rule: then_stage_cases)
    case (1 t)
    with q1 stageResolve_ok show ?thesis
      by blast
  next
    case (2 cx2 w2)
    with stageResolve_ok have [simp]: "cx2 = cx1" "w2 = w1"
      by blast+
    from middle_egress [OF 2(2), of au] assms(2,3) au(2,3) db1
    consider "adds quiet w1 w'" | eff now soft where "eff_ok eff" "checkRole eff (md_userRole (metadata (cx_envelope cx))) = Inr ()"
      "checkBudgets (wd_db w) (budget_params_of cx1 au eff) now = Inr soft"
      "adds (egress_event dp eff (applyLimits eff (cx_envelope cx1))) w1 w'" "cx_effective cx' = Some eff"
      by (auto simp: fresh_def)
    then show ?thesis
    proof cases
      case 1
      with q1 show ?thesis
        by (blast intro: adds_trans)
    next
      case (2 eff now soft)
      have "admitted_as dp (wd_db w) bearer (cx_envelope cx) au eff (applyLimits eff (cx_envelope cx1))"
        unfolding admitted_as_def
      proof (intro conjI exI)
        show "checkBudgets (wd_db w) (budget_params_of cx1 au eff) now = Inr soft"
          by (rule 2(3))
      qed (use au(1) 2(1,2) in \<open>simp_all add: au(2) budget_params_of_def\<close>)
      moreover have "adds (egress_event dp eff (applyLimits eff (cx_envelope cx1))) w w'"
        using 2(4) quiet_adds_egress [OF q1] by (blast intro: adds_trans)
      ultimately show ?thesis
        using 2(5) by blast
    qed
  qed
qed

section \<open>The runner\<close>

lemma fail_request_quiet: "fail_request dp t cx w = (out, cx', w') \<Longrightarrow> adds quiet w w'"
  using emitTerminalAudit_quiet [of "snd (ledger_write dp (cx\<lparr>cx_error := Some (toRouterError t)\<rparr>) w)"]
    ledger_write_trace [of dp "cx\<lparr>cx_error := Some (toRouterError t)\<rparr>" w]
  by (auto simp: fail_request_def Let_def adds_def)

lemma fail_request_effective [simp]:
  "fail_request dp t cx w = (out, cx', w') \<Longrightarrow> cx_effective cx' = cx_effective cx"
  by (auto simp: fail_request_def Let_def)

lemma runPipeline_tail:
  assumes "runPipeline dp bearer cx w = (out, cx', w')" "stages dp bearer cx w = (o1, cx1, w1)"
  shows "adds quiet w1 w' \<and> cx_effective cx' = cx_effective cx1"
proof (cases o1)
  case (Inl t)
  then have "fail_request dp t cx1 w1 = (out, cx', w')"
    using assms by (simp add: runPipeline_def)
  then show ?thesis
    using fail_request_quiet fail_request_effective by blast
next
  case (Inr u)
  obtain res w2 where wr: "ledger_write dp cx1 w1 = (res, w2)"
    by (cases "ledger_write dp cx1 w1")
  then have w2: "adds quiet w1 w2"
    using ledger_write_trace [of dp cx1 w1] by (simp add: adds_same)
  have "(cx' = cx1 \<and> (w' = w1 \<or> w' = emitTerminalAudit cx1 w2)) \<or> (\<exists>t. fail_request dp t cx1 w2 = (out, cx', w'))"
    using assms Inr wr by (auto simp: runPipeline_def split: if_splits sum.splits)
  then show ?thesis
    using w2 emitTerminalAudit_quiet fail_request_quiet fail_request_effective by (blast intro: adds_trans adds_refl)
qed

lemma runPipeline_egress:
  assumes "runPipeline dp bearer cx w = (out, cx', w')" "fresh cx" "engine_ok (wd_engine w)"
    and "(r, e) \<in> set (calls_between w w')"
  shows "\<exists>au eff env. admitted_as dp (wd_db w) bearer (cx_envelope cx) au eff env \<and> egress_ok dp eff env r e
    \<and> cx_effective cx' = Some eff"
proof -
  obtain o1 cx1 w1 where st: "stages dp bearer cx w = (o1, cx1, w1)"
    by (metis prod_cases3)
  note tail = runPipeline_tail [OF assms(1) st]
  from stages_egress [OF st assms(2,3)] show ?thesis
  proof
    assume "adds quiet w w1"
    with tail have "adds quiet w w'"
      by (blast intro: adds_trans)
    from calls_between_adds(2) [OF this assms(4)] show ?thesis
      by (simp add: quiet_def)
  next
    assume "\<exists>au eff env. admitted_as dp (wd_db w) bearer (cx_envelope cx) au eff env
      \<and> adds (egress_event dp eff env) w w1 \<and> cx_effective cx1 = Some eff"
    then obtain au eff env where adm: "admitted_as dp (wd_db w) bearer (cx_envelope cx) au eff env"
      "adds (egress_event dp eff env) w w1" "cx_effective cx1 = Some eff"
      by blast
    with tail have "adds (egress_event dp eff env) w w'"
      by (blast intro: adds_trans quiet_adds_egress)
    from calls_between_adds(2) [OF this assms(4)] adm tail show ?thesis
      by (auto simp: egress_event_def)
  qed
qed

section \<open>Properties\<close>


text \<open>
  C2. What leaves for a cloud model has passed the scrubber, on the first hop as on every fallback: in
  redact mode (the default) it is the redacted copy of the limited request, with every text field
  redacted; in block mode it is the request itself and not one text field holds a match; only in
  warn mode the text goes out as it is. Nothing but the token limit differs beyond that.
\<close>

theorem cloud_egress_scrubbed:
  assumes "runPipeline dp bearer cx w = (out, cx', w')" and "fresh cx" and "engine_ok (wd_engine w)"
    and "(r, e) \<in> set (calls_between w w')" and "\<not> isLocalKind (providerKind (rt_model r))"
  shows "\<exists>au eff env. token_for dp (wd_db w) bearer au \<and> cx_effective cx' = Some eff
    \<and> env = applyLimits eff (with_app (cx_envelope cx) (au_app au))
    \<and> (case scrub_mode eff of
          ModeRedact \<Rightarrow> e = clampToModel (fst (redactEnvelope env)) (rt_model r)
            \<and> textFields e = map (\<lambda>t. redactText t (scanText t)) (textFields env)
        | ModeBlock \<Rightarrow> e = clampToModel env (rt_model r) \<and> list_all (\<lambda>t. scanText t = []) (textFields e)
        | ModeWarn \<Rightarrow> e = clampToModel env (rt_model r))"
proof -
  have texts: "textFields (clampToModel env m) = textFields env" for env m
    by (auto simp: clampToModel_def textFields_def split: option.splits)
  from runPipeline_egress [OF assms(1-4)] obtain au eff env where
    "admitted_as dp (wd_db w) bearer (cx_envelope cx) au eff env" "egress_ok dp eff env r e" "cx_effective cx' = Some eff"
    by blast
  with assms(5) have facts: "token_for dp (wd_db w) bearer au" "cx_effective cx' = Some eff" "env = applyLimits eff (with_app (cx_envelope cx) (au_app au))"
    "\<exists>t. e = clampToModel t (rt_model r) \<and> cloud_text eff env = Some t"
    by (auto simp: admitted_as_def egress_ok_def)
  show ?thesis
    by (intro exI [of _ au] exI [of _ eff] exI [of _ env] conjI)
       (use facts in \<open>auto simp: cloud_text_def texts texts_redacted total_scan list_all_iff
          split: scrubber_mode.splits if_splits\<close>)
qed

text \<open>
  C3. A \<open>local_only\<close> task class never leaves the premises: under a policy whose class is \<open>local_only\<close> every
  provider call of the request, fallbacks and streams included, goes to a model of a local kind.
\<close>

theorem local_only_stays_local:
  assumes "runPipeline dp bearer cx w = (out, cx', w')" and "fresh cx" and "engine_ok (wd_engine w)"
    and "cx_effective cx' = Some eff" and "sensitivity (ep_taskClass eff) = local_only"
    and "(r, e) \<in> set (calls_between w w')"
  shows "isLocalKind (providerKind (rt_model r))"
  using runPipeline_egress [OF assms(1-3,6)] assms(4,5) by (auto simp: egress_ok_def)

section \<open>Example runs\<close>

lemmas pipe_eval = stages_def then_stage_def stageAuth_def authenticateAppToken_def hashToken_def take_limits_def
  touch_token_def stageResolveTaskClass_def stagePolicy_def firmSettings_def firm_settings_db_def resolve_def resolve_db_def
  checkRole_def applyLimits_def token_cap_def clamp_temperature_def temperature_maxima_def stageBudget_def
  budget_params_of_def checkBudgets_def budget_checks_def firm_check_def app_check_def user_check_def
  task_class_check_def no_budgets_def stageScrub_def scrub_verdict_def cloud_in_chain_def scrub_mode_def stageRoute_def
  audit_upgrade_def audit_stage_def audit_for_def given_def stageAdapt_def adapt_direct_def keyFor_def cache_eligible_def
  cache_lookup_def store_response_def lookup_cents_def

text \<open>The example request through the whole pipeline, without a resilience layer.\<close>

definition ex_direct :: deps where
  "ex_direct = ex_dp\<lparr>dp_resilience := None\<rparr>"

definition ex_fresh :: pipeline_ctx where
  "ex_fresh = new_ctx ''req1'' ''h'' 0 ex_env"

lemma ex_stages:
  "\<exists>cx' w' r e. stages ex_direct (Some ''secret'') ex_fresh ex_world = (Inr (), cx', w')
     \<and> calls_of (wd_trace w') = [(r, e)] \<and> cx_response cx' = Some ex_answer
     \<and> stream (cx_envelope cx') = False \<and> cx_auth cx' \<noteq> None"
  by (simp add: ex_direct_def ex_fresh_def pipe_eval exec_eval)


text \<open>What a run's calls are, from those of its stages.\<close>

lemma runPipeline_calls:
  assumes "stages dp bearer cx w = (o1, cx1, w1)" "wd_trace w = []" "(r, e) \<in> set (calls_of (wd_trace w1))"
  shows "\<exists>out cx' w'. runPipeline dp bearer cx w = (out, cx', w') \<and> cx_effective cx' = cx_effective cx1
    \<and> (r, e) \<in> set (calls_between w w')"
proof -
  obtain out cx' w' where run: "runPipeline dp bearer cx w = (out, cx', w')"
    by (metis prod_cases3)
  from runPipeline_tail [OF run assms(1)] assms(2,3) run show ?thesis
    by (auto simp: adds_def calls_between_def)
qed

lemma ex_engine: "fresh ex_fresh" "engine_ok (wd_engine ex_world)" "wd_trace ex_world = []"
  by (simp_all add: ex_fresh_def ex_world_defs fresh_def engine_new_ok)


text \<open>A class that must stay local, and a policy whose only usable model is a cloud one.\<close>

definition ex_private_world :: world where
  "ex_private_world = ex_world\<lparr>wd_db := ex_db\<lparr>taskClasses := [ex_task_class\<lparr>sensitivity := local_only\<rparr>],
     policies := [ex_policy\<lparr>defaultModelId := ''m3''\<rparr>]\<rparr>\<rparr>"

lemma ex_private_stages:
  "\<exists>cx' w' r e eff. stages ex_direct (Some ''secret'') ex_fresh ex_private_world = (Inr (), cx', w')
     \<and> calls_of (wd_trace w') = [(r, e)] \<and> cx_effective cx' = Some eff \<and> sensitivity (ep_taskClass eff) = local_only"
  by (simp add: ex_direct_def ex_fresh_def ex_private_world_def pipe_eval exec_eval)

theorem local_only_stays_local_witness:
  "\<exists>w' r e. (r, e) \<in> set (calls_between ex_private_world w') \<and> isLocalKind (providerKind (rt_model r))"
proof -
  from ex_private_stages obtain cx1 w1 r e eff where
    "stages ex_direct (Some ''secret'') ex_fresh ex_private_world = (Inr (), cx1, w1)"
    "(r, e) \<in> set (calls_of (wd_trace w1))" and eff: "cx_effective cx1 = Some eff" "sensitivity (ep_taskClass eff) = local_only"
    by (metis list.set_intros(1))
  moreover have start: "engine_ok (wd_engine ex_private_world)" "wd_trace ex_private_world = []"
    using ex_engine by (simp_all add: ex_private_world_def)
  ultimately obtain out cx' w' where
    run: "runPipeline ex_direct (Some ''secret'') ex_fresh ex_private_world = (out, cx', w')"
      "cx_effective cx' = Some eff" "(r, e) \<in> set (calls_between ex_private_world w')"
    using runPipeline_calls by metis
  from local_only_stays_local [OF run(1) ex_engine(1) start(1) run(2) eff(2) run(3)] run(3) show ?thesis
    by blast
qed

definition ex_cloud_dp :: deps where
  "ex_cloud_dp = ex_direct\<lparr>dp_url_of := (\<lambda>u. Some (''https:'', ''api.x.com''))\<rparr>"

definition ex_cloud_world :: world where
  "ex_cloud_world = ex_world\<lparr>wd_db := ex_db\<lparr>providers := [ex_provider\<lparr>prv_kind := openai_compat\<rparr>]\<rparr>\<rparr>"

definition ex_secret_cx :: pipeline_ctx where
  "ex_secret_cx = new_ctx ''req1'' ''h'' 0 (ex_env\<lparr>messages :=
     [\<lparr>m_role = RUser, m_content = CText ''id 123-45-6789'', m_toolCalls = None, m_toolCallId = None\<rparr>]\<rparr>)"

lemma ex_scan: "scanText ''id 123-45-6789'' = [\<lparr>sm_type = M_ssn, sm_start = 3, sm_end = 14\<rparr>]"
  by code_simp

lemma ex_cloud_stages:
  "\<exists>cx' w' r e eff. stages ex_cloud_dp (Some ''secret'') ex_secret_cx ex_cloud_world = (Inr (), cx', w')
     \<and> calls_of (wd_trace w') = [(r, e)] \<and> cx_effective cx' = Some eff \<and> scrub_mode eff = ModeRedact
     \<and> \<not> isLocalKind (providerKind (rt_model r))"
  by (simp add: ex_cloud_dp_def ex_direct_def ex_secret_cx_def ex_cloud_world_def pipe_eval exec_eval
      scrub_redact_def redactEnvelope_eq message_map_def scrub_text_def ex_scan total_scan textFields_def message_texts_def)

lemma textFields_limited [simp]: "textFields (applyLimits eff (with_app env a)) = textFields env"
  by (simp add: applyLimits_def with_app_def textFields_def)

theorem cloud_egress_scrubbed_witness:
  "\<exists>w' r e. (r, e) \<in> set (calls_between ex_cloud_world w') \<and> \<not> isLocalKind (providerKind (rt_model r))
     \<and> textFields e = [''id [SSN]'']"
proof -
  from ex_cloud_stages obtain cx1 w1 r e eff where
    "stages ex_cloud_dp (Some ''secret'') ex_secret_cx ex_cloud_world = (Inr (), cx1, w1)"
    "(r, e) \<in> set (calls_of (wd_trace w1))" and eff: "cx_effective cx1 = Some eff" "scrub_mode eff = ModeRedact"
    "\<not> isLocalKind (providerKind (rt_model r))"
    by (metis list.set_intros(1))
  moreover have start: "fresh ex_secret_cx" "engine_ok (wd_engine ex_cloud_world)" "wd_trace ex_cloud_world = []"
    using ex_engine by (simp_all add: ex_cloud_world_def ex_secret_cx_def new_ctx_def fresh_def)
  ultimately obtain out cx' w' where
    run: "runPipeline ex_cloud_dp (Some ''secret'') ex_secret_cx ex_cloud_world = (out, cx', w')"
      "cx_effective cx' = Some eff" "(r, e) \<in> set (calls_between ex_cloud_world w')"
    using runPipeline_calls by metis
  have "redactText ''id 123-45-6789'' (scanText ''id 123-45-6789'') = ''id [SSN]''"
    unfolding ex_scan by (simp add: redactText_def slice_def)
  moreover have "textFields (cx_envelope ex_secret_cx) = [''id 123-45-6789'']"
    by (simp add: ex_secret_cx_def new_ctx_def textFields_def message_texts_def)
  ultimately show ?thesis
    using cloud_egress_scrubbed [OF run(1) start(1,2) run(3) eff(3)] run(2,3) eff(2,3) by auto
qed

text \<open>
  A fallback's answer is cached as the primary's: when the route of the request has a cache key and
  the lookup misses, the answer is stored under that key whichever hop served it, so the next equal
  request gets it back as the primary's. The serving model is not looked at: a cloud fallback of a
  local primary is cached this way although its own key is withheld by \<open>cache_cloud\<close>.
\<close>

theorem fallback_answer_cached_under_primary_key:
  assumes "cx_auth cx = Some au" and "cx_route cx = Some primary" and "keyFor dp cx au primary = Some k"
    and "cache_lookup dp (Some k) w = (None, w0)" and "dp_resilience dp = Some cfg"
    and "executeResilient dp cfg cx w0 = (Inr res, cx1, w1)"
  shows "\<exists>w'. stageAdapt dp cx w = (Inr (), cx1\<lparr>cx_response := Some res\<rparr>, w')
    \<and> fst (cache_get k (now_of dp w1) (wd_cache w')) = Some res"
proof -
  from assms(3) obtain n where el: "\<not> stream (cx_envelope cx)" "dp_cacheMax dp = Some n" "cache_ttl cx > 0"
    by (auto simp: keyFor_def cache_eligible_def split: if_splits)
  then obtain eff where eff: "cx_effective cx = Some eff"
    by (cases "cx_effective cx") (simp_all add: cache_ttl_def cache_requires_def no_requires_def)
  from executeResilient_facts [OF eff assms(6)] eff have "cx_effective cx1 = cx_effective cx"
    by (simp add: walk_facts_def same_request_def)
  then have ttl: "cache_ttl cx1 > 0"
    using el(3) by (simp add: cache_ttl_def cache_requires_def)
  have "stageAdapt dp cx w = (Inr (), cx1\<lparr>cx_response := Some res\<rparr>, store_response dp (Some k) res (cache_ttl cx1) w1)"
    using assms el(1) by (simp add: stageAdapt_def adapt_resilient_def)
  moreover have "fst (cache_get k (now_of dp w1) (wd_cache (store_response dp (Some k) res (cache_ttl cx1) w1))) = Some res"
    using ttl el(2) by (simp add: store_response_def cache_set_def cache_get_def Let_def map_get_set)
  ultimately show ?thesis
    by blast
qed

text \<open>A local primary whose provider is removed after routing and a cloud fallback that answers, for a class
  that does not cache cloud answers.\<close>

definition ex_mixed_dp :: deps where
  "ex_mixed_dp = ex_dp\<lparr>dp_url_of := (\<lambda>u. Some (''https:'', ''api.x.com'')), dp_cacheMax := Some 10\<rparr>"

definition ex_mixed_world :: world where
  "ex_mixed_world = ex_world\<lparr>wd_db := ex_db\<lparr>providers := [ex_provider\<lparr>prv_id := ''pr2'', prv_kind := anthropic,
     prv_baseUrl := ''https://api''\<rparr>]\<rparr>\<rparr>"

definition ex_mixed_cx :: pipeline_ctx where
  "ex_mixed_cx = ex_cx\<lparr>cx_effective := Some (ex_eff\<lparr>ep_policy := ex_policy\<lparr>fallbackChain := [''m2'']\<rparr>,
     ep_taskClass := ex_task_class\<lparr>requires := Some (no_requires\<lparr>req_cache_ttl_s := Some 60\<rparr>)\<rparr>\<rparr>),
     cx_route := Some \<lparr>rt_provider = ex_provider, rt_model = ex_local_vision,
       rt_executeCtx = \<lparr>ec_providerId = ''pr1'', ec_model = ''ollama/v'', ec_baseUrl = ''http://gpu'', ec_apiKey = None,
         ec_modelMapping = None, ec_promptCaching = False, ec_thinkingBudget = None\<rparr>\<rparr>\<rparr>"

lemma ex_mixed_run:
  "\<exists>cx1 w1 r. executeResilient ex_mixed_dp ex_cfg ex_mixed_cx ex_mixed_world = (Inr ex_answer, cx1, w1)
     \<and> cx_route cx1 = Some r \<and> providerKind (rt_model r) = anthropic"
  by (simp add: ex_mixed_dp_def ex_mixed_cx_def ex_mixed_world_def exec_eval)

theorem fallback_answer_cached_under_primary_key_witness:
  "\<exists>k cx' w' r. stageAdapt ex_mixed_dp ex_mixed_cx ex_mixed_world = (Inr (), cx', w')
     \<and> cx_route cx' = Some r \<and> providerKind (rt_model r) = anthropic
     \<and> req_cache_cloud (cache_requires ex_mixed_cx) = None \<and> fst (cache_get k 0 (wd_cache w')) = Some ex_answer"
proof -
  obtain cx1 w1 r where run: "executeResilient ex_mixed_dp ex_cfg ex_mixed_cx ex_mixed_world = (Inr ex_answer, cx1, w1)"
    and r: "cx_route cx1 = Some r" "providerKind (rt_model r) = anthropic"
    using ex_mixed_run by blast
  define au where "au = \<lparr>au_firmId = ''f1'', au_app = ''vibe'', au_scopes = [''chat''], au_tokenId = ''tk1''\<rparr>"
  have auth: "cx_auth ex_mixed_cx = Some au" and cfg: "dp_resilience ex_mixed_dp = Some ex_cfg"
    by (simp_all add: ex_mixed_cx_def ex_mixed_dp_def ex_cx_def ex_dp_def au_def)
  obtain primary where primary: "cx_route ex_mixed_cx = Some primary" "rt_model primary = ex_local_vision"
    by (simp add: ex_mixed_cx_def)
  have requires: "cache_requires ex_mixed_cx = no_requires\<lparr>req_cache_ttl_s := Some 60\<rparr>"
    by (simp add: cache_requires_def ex_mixed_cx_def classRequires_def)
  then obtain k where k: "keyFor ex_mixed_dp ex_mixed_cx au primary = Some k"
    using primary by (simp add: keyFor_def cache_eligible_def cache_ttl_def ex_mixed_cx_def ex_cx_def new_ctx_def ex_env_def
        ex_mixed_dp_def ex_local_vision_def example_model_def)
  have miss: "cache_lookup ex_mixed_dp (Some k) ex_mixed_world = (None, ex_mixed_world)"
    by (simp add: cache_lookup_def cache_get_def ex_mixed_world_def ex_world_def map_get_def)
  have now: "now_of ex_mixed_dp w1 = 0"
    by (simp add: now_of_def ex_mixed_dp_def ex_dp_def)
  have "req_cache_cloud (cache_requires ex_mixed_cx) = None"
    by (simp add: requires no_requires_def)
  with fallback_answer_cached_under_primary_key [OF auth primary(1) k miss cfg run] r now show ?thesis
    by (intro exI [of _ k]) auto
qed

end
