(* ===== verification/Pipeline_Ledger.thy ===== *)
theory Pipeline_Ledger
  imports Pipeline_Safety
begin

text \<open>
  The books of a request. Nothing between authentication and the ledger write touches the database:
  the executor, streamed or not, and every stage after the first leave it alone, and the request
  id and the authenticated caller stay what they were. So the one row a request leaves comes from
  the ledger write of the runner.
\<close>

section \<open>The executor leaves the database alone\<close>

lemma emit_frame [simp]:
  "wd_db (emit ev w) = wd_db w" "wd_cache (emit ev w) = wd_cache w"
  by (simp_all add: emit_def)

lemma yield_frame [simp]:
  "wd_db (yield_others dp w) = wd_db w" "wd_cache (yield_others dp w) = wd_cache w"
  by (simp_all add: yield_others_def split: prod.splits)

lemma audit_db [simp]:
  "wd_db (audit_cx cx ev m det w) = wd_db w"
  "wd_db (auditRejected cx c rs p w) = wd_db w"
  "wd_db (auditSoftFindings cx c ss w) = wd_db w"
  "wd_db (auditHop cx a b rsn w) = wd_db w"
  "wd_db (auditClamp cx r w) = wd_db w"
  by (auto simp: audit_cx_def auditRejected_def auditSoftFindings_def auditHop_def auditClamp_def Let_def
      split: option.splits)

lemma hop_parts_db [simp]:
  "wd_db (breaker_rec dp cfg p ok w) = wd_db w"
  "wd_db (record_health cx r ok w) = wd_db w"
  "wd_db (snd (executeHopOnce dp r cx w)) = wd_db w"
  "wd_db (snd (judge cfg r cx res w)) = wd_db w"
  "wd_db (hop_start cx pm le r w) = wd_db w"
  "wd_db (give_back cfg p w) = wd_db w"
  "wd_db (snd (ask_breaker dp cfg p w)) = wd_db w"
  "wd_db (snd (take_slot dp cfg p w)) = wd_db w"
  by (auto simp: breaker_rec_def record_health_def executeHopOnce_def judge_def hop_start_def give_back_def
      ask_breaker_def take_slot_def Let_def split: option.splits prod.splits acquire_result.splits if_splits)

lemma attempt_db [simp]: "wd_db (snd (hop_attempt dp cfg r cx final le w)) = wd_db w"
proof (cases "dp_aborted dp (wd_tick w)")
  case False
  obtain out w1 where once: "executeHopOnce dp r cx (advance w) = (out, w1)"
    by (cases "executeHopOnce dp r cx (advance w)")
  with hop_parts_db(3) [of dp r cx "advance w"] have w1: "wd_db w1 = wd_db w"
    by simp
  obtain out2 w2 where judged: "(case out of Inl t \<Rightarrow> (Inl t, w1) | Inr res \<Rightarrow> judge cfg r cx res w1) = (out2, w2)"
    by (cases "case out of Inl t \<Rightarrow> (Inl t, w1) | Inr res \<Rightarrow> judge cfg r cx res w1")
  have "wd_db (snd (case out of Inl t \<Rightarrow> (Inl t, w1) | Inr res \<Rightarrow> judge cfg r cx res w1)) = wd_db w1"
    by (cases out) simp_all
  then have "wd_db w2 = wd_db w1"
    by (simp add: judged)
  with False once judged w1 show ?thesis
    by (cases out2) (simp_all add: hop_attempt_def Let_def)
qed (simp add: hop_attempt_def)

lemma attempts_db [simp]: "wd_db (snd (hop_attempts dp cfg r cx n le w)) = wd_db w"
proof (induction n arbitrary: le w)
  case (Suc n)
  obtain a w' where att: "hop_attempt dp cfg r cx (n = 0) le w = (a, w')"
    by (cases "hop_attempt dp cfg r cx (n = 0) le w")
  with attempt_db [of dp cfg r cx "n = 0" le w] Suc.IH show ?case
    by (cases a) auto
qed simp

text \<open>What a step keeps of a request: its id, its caller, whether it streams, and the database.\<close>

definition kept :: "pipeline_ctx \<times> world \<Rightarrow> pipeline_ctx \<times> world \<Rightarrow> bool" where
  "kept s s' \<longleftrightarrow> cx_requestId (fst s') = cx_requestId (fst s) \<and> cx_auth (fst s') = cx_auth (fst s)
     \<and> stream (cx_envelope (fst s')) = stream (cx_envelope (fst s)) \<and> wd_db (snd s') = wd_db (snd s)"

lemma kept_refl [simp]: "kept s s"
  by (simp add: kept_def)

lemma kept_trans [trans]: "kept a b \<Longrightarrow> kept b c \<Longrightarrow> kept a c"
  by (simp add: kept_def)

lemma routeForModel_kept: "kept (cx, w) (snd (routeForModel dp m cx w))"
  by (auto simp: routeForModel_def audit_barred_def kept_def Let_def split: option.splits sum.splits prod.splits if_splits)

lemma hop_gate_kept: "kept (cx, w) (snd (hop_gate b dp cfg eff i le pm cx w))"
proof (cases "map_get (ep_modelsById eff) i")
  case (Some m)
  obtain out cx1 w1 where rt: "routeForModel dp m cx w = (out, cx1, w1)"
    by (metis prod_cases3)
  with routeForModel_kept [of cx w dp m] have k: "kept (cx, w) (cx1, w1)"
    by simp
  show ?thesis
  proof (cases out)
    case (Inl t)
    with Some rt k show ?thesis
      by (simp add: hop_gate_def Let_def kept_def)
  next
    case (Inr r)
    obtain ok w2 where br: "ask_breaker dp cfg (prv_id (rt_provider r)) w1 = (ok, w2)"
      by (cases "ask_breaker dp cfg (prv_id (rt_provider r)) w1")
    obtain got w3 where sl: "take_slot dp cfg (prv_id (rt_provider r)) w2 = (got, w3)"
      by (cases "take_slot dp cfg (prv_id (rt_provider r)) w2")
    from br sl hop_parts_db(7) [of dp cfg "prv_id (rt_provider r)" w1] hop_parts_db(8) [of dp cfg "prv_id (rt_provider r)" w2]
    have "wd_db w2 = wd_db w1" "wd_db w3 = wd_db w1"
      by simp_all
    with Some rt Inr br sl k show ?thesis
      by (simp add: hop_gate_def Let_def kept_def)
  qed
qed (simp add: hop_gate_def)

lemma chain_round_kept: "kept (cx, w) (snd (chain_round dp cfg eff i le pm cx w))"
proof -
  obtain g cx1 w1 where gate: "hop_gate True dp cfg eff i le pm cx w = (g, cx1, w1)"
    by (metis prod_cases3)
  with hop_gate_kept [of cx w True dp cfg eff i le pm] have k: "kept (cx, w) (cx1, w1)"
    by simp
  show ?thesis
  proof (cases g)
    case (Go r)
    obtain out w5 where run: "executeHopWithRetries dp cfg r (cx1\<lparr>cx_route := Some r\<rparr>) (hop_start cx1 pm le r w1) = (out, w5)"
      by (cases "executeHopWithRetries dp cfg r (cx1\<lparr>cx_route := Some r\<rparr>) (hop_start cx1 pm le r w1)")
    with attempts_db [of dp cfg r "cx1\<lparr>cx_route := Some r\<rparr>" "MAX_RETRIES + 1" None "hop_start cx1 pm le r w1"]
    have "wd_db w5 = wd_db w1"
      by (simp add: executeHopWithRetries_def)
    with gate Go run k show ?thesis
      by (simp add: chain_round_def Let_def kept_def)
  qed (use gate k in \<open>simp add: chain_round_def\<close>)
qed

lemma stream_round_kept: "kept (cx, w) (snd (stream_round dp cfg eff i le pm cx w))"
proof -
  obtain g cx1 w1 where gate: "hop_gate False dp cfg eff i le pm cx w = (g, cx1, w1)"
    by (metis prod_cases3)
  with hop_gate_kept [of cx w False dp cfg eff i le pm] have k: "kept (cx, w) (cx1, w1)"
    by simp
  show ?thesis
  proof (cases g)
    case (Go r)
    with gate k show ?thesis
      by (auto simp: stream_round_def Let_def kept_def split: prod.splits hop_end.splits)
  qed (use gate k in \<open>simp add: stream_round_def\<close>)
qed

lemma walk_chain_kept: "kept (cx, w) (snd (walk_chain dp cfg eff is le pm cx w))"
proof (induction "is" arbitrary: le pm cx w)
  case (Cons i "is")
  obtain rd cx' w' where rd: "chain_round dp cfg eff i le pm cx (advance w) = (rd, cx', w')"
    by (metis prod_cases3)
  with chain_round_kept [of cx "advance w" dp cfg eff i le pm] have "kept (cx, w) (cx', w')"
    by (simp add: kept_def)
  with rd Cons.IH [where cx = cx' and w = w'] show ?case
    by (cases rd) (auto simp: kept_def)
qed (simp add: kept_def)

lemma walk_stream_kept: "kept (cx, w) (snd (walk_stream dp cfg eff is le pm cx w))"
proof (induction "is" arbitrary: le pm cx w)
  case (Cons i "is")
  obtain rd cx' w' where rd: "stream_round dp cfg eff i le pm cx (advance w) = (rd, cx', w')"
    by (metis prod_cases3)
  with stream_round_kept [of cx "advance w" dp cfg eff i le pm] have "kept (cx, w) (cx', w')"
    by (simp add: kept_def)
  with rd Cons.IH [where cx = cx' and w = w'] show ?case
    by (cases rd) (auto simp: kept_def)
qed (simp add: kept_def)

lemma executor_kept:
  "kept (cx, w) (snd (executeResilient dp cfg cx w))"
  "kept (cx, w) (snd (executeResilientStream dp cfg cx w))"
  using walk_chain_kept walk_stream_kept
  by (auto simp: executeResilient_def executeResilientStream_def split: option.splits sum.splits)

section \<open>The stages\<close>

lemma then_stage_kept:
  assumes "\<And>cx w. kept (cx, w) (snd (f cx w))" "\<And>cx w. kept (cx, w) (snd (g cx w))"
  shows "kept (cx, w) (snd (then_stage f g cx w))"
proof -
  obtain out cx1 w1 where f: "f cx w = (out, cx1, w1)"
    by (metis prod_cases3)
  with assms(1) [of cx w] have "kept (cx, w) (cx1, w1)"
    by simp
  with f assms(2) [of cx1 w1] show ?thesis
    by (cases out) (auto simp: then_stage_def intro: kept_trans)
qed

lemma stageResolve_kept: "kept (cx, w) (snd (stageResolveTaskClass cx w))"
  by (simp add: stageResolveTaskClass_def)

lemma envelope_stream [simp]:
  "stream (applyLimits eff env) = stream env" "stream (fst (redactEnvelope env)) = stream env"
  by (simp_all add: applyLimits_def redactEnvelope_eq)

lemma stagePolicy_kept: "kept (cx, w) (snd (stagePolicy dp cx w))"
  by (auto simp: stagePolicy_def kept_def Let_def split: option.splits prod.splits sum.splits)

lemma warnings_db: "wd_db (fold (audit_warning dp cx au eff) cs w) = wd_db w"
  by (induction cs arbitrary: w) (simp_all add: audit_warning_def)

lemma stageBudget_kept: "kept (cx, w) (snd (stageBudget dp cx w))"
  by (auto simp: stageBudget_def kept_def warnings_db split: option.splits sum.splits)

lemma scrub_kept [simp]:
  "cx_requestId (snd (scrub_redact b cx)) = cx_requestId cx" "cx_auth (snd (scrub_redact b cx)) = cx_auth cx"
  "cx_requestId (snd (scrub_scan md cx)) = cx_requestId cx" "cx_auth (snd (scrub_scan md cx)) = cx_auth cx"
  "stream (cx_envelope (snd (scrub_redact b cx))) = stream (cx_envelope cx)"
  "stream (cx_envelope (snd (scrub_scan md cx))) = stream (cx_envelope cx)"
  by (simp_all add: scrub_redact_eq scrub_scan_eq)

lemma scrub_verdict_kept:
  assumes "scrub_verdict eff cx = Inr (Some (b, rep, cx1))"
  shows "cx_requestId cx1 = cx_requestId cx \<and> cx_auth cx1 = cx_auth cx \<and> stream (cx_envelope cx1) = stream (cx_envelope cx)"
proof -
  have "scrub_redact b cx = (rep, cx1) \<or> (\<exists>md. scrub_scan md cx = (rep, cx1))"
    using assms by (auto simp: scrub_verdict_def Let_def split: sum.splits thrown.splits if_splits)
  then show ?thesis
    using scrub_kept by (metis snd_conv)
qed

lemma stageScrub_kept: "kept (cx, w) (snd (stageScrub cx w))"
  by (auto simp: stageScrub_def kept_def audit_stage_def
      split: option.splits prod.splits sum.splits if_splits dest: scrub_verdict_kept)

lemma audit_upgrade_db [simp]: "wd_db (audit_upgrade cx au eff up w) = wd_db w"
  by (simp add: audit_upgrade_def audit_stage_def split: option.splits)

lemma stageRoute_kept: "kept (cx, w) (snd (stageRoute dp cx w))"
proof -
  have "cx_requestId cx1 = cx_requestId cx \<and> cx_auth cx1 = cx_auth cx
      \<and> stream (cx_envelope cx1) = stream (cx_envelope cx) \<and> wd_db w1 = wd_db w"
    if "routeForModel dp m cx (audit_upgrade cx au eff up w) = (out, cx1, w1)" for m au eff up out cx1 w1
    using routeForModel_kept [of cx "audit_upgrade cx au eff up w" dp m] that by (simp add: kept_def)
  then show ?thesis
    by (auto simp: stageRoute_def kept_def split: option.splits prod.splits sum.splits if_splits)
qed

lemma cache_parts_db [simp]:
  "wd_db (store_response dp k res ttl w) = wd_db w" "wd_db (snd (cache_lookup dp k w)) = wd_db w"
  by (auto simp: store_response_def cache_lookup_def split: option.splits prod.splits)

lemma adapt_resilient_kept: "kept (cx, w) (snd (adapt_resilient dp cfg au key cx w))"
proof (cases "stream (cx_envelope cx)")
  case True
  obtain o2 c2 w2 where run: "executeResilientStream dp cfg cx w = (o2, c2, w2)"
    by (metis prod_cases3)
  have "kept (cx, w) (c2, w2)"
    using executor_kept(2) [of cx w dp cfg] run by simp
  with True run show ?thesis
    by (auto simp: adapt_resilient_def kept_def split: prod.splits list.splits stream_outcome.splits)
next
  case False
  obtain o1 c1 w1 where run: "executeResilient dp cfg cx w = (o1, c1, w1)"
    by (metis prod_cases3)
  have "kept (cx, w) (c1, w1)"
    using executor_kept(1) [of cx w dp cfg] run by simp
  with False run show ?thesis
    by (cases o1) (simp_all add: adapt_resilient_def kept_def)
qed

lemma adapt_direct_kept: "kept (cx, w) (snd (adapt_direct dp r au key cx w))"
  by (auto simp: adapt_direct_def kept_def Let_def split: prod.splits sum.splits)

lemma stageAdapt_kept: "kept (cx, w) (snd (stageAdapt dp cx w))"
proof -
  have *: "kept (cx, w) s" if "kept (cx, w1) s" "cache_lookup dp k w = (hit, w1)" for k hit w1 s
    using that cache_parts_db(2) [of dp k w] by (simp add: kept_def)
  show ?thesis
    by (auto simp: stageAdapt_def Let_def split: option.splits prod.splits
        intro: * adapt_resilient_kept adapt_direct_kept) (auto simp: kept_def dest: * [OF kept_refl])
qed

lemma after_auth_kept:
  "kept (cx, w) (snd (then_stage stageResolveTaskClass (then_stage (stagePolicy dp) (then_stage (stageBudget dp)
     (then_stage stageScrub (then_stage (stageRoute dp) (stageAdapt dp))))) cx w))"
  by (intro then_stage_kept stageResolve_kept stagePolicy_kept stageBudget_kept stageScrub_kept stageRoute_kept
      stageAdapt_kept)

lemma stageAuth_rows:
  assumes "stageAuth dp bearer cx w = (out, cx', w')"
  shows "cx_requestId cx' = cx_requestId cx \<and> stream (cx_envelope cx') = stream (cx_envelope cx)
    \<and> rows_for rid (wd_db w') = rows_for rid (wd_db w)
    \<and> ((cx_auth cx' = cx_auth cx \<and> out \<noteq> Inr ()) \<or> (\<exists>au. cx_auth cx' = Some au \<and> token_for dp (wd_db w) bearer au))"
proof -
  obtain res d where auth: "authenticateAppToken (dp_sha256 dp) bearer (now_of dp w) (wd_db w) = (res, d)"
    by (cases "authenticateAppToken (dp_sha256 dp) bearer (now_of dp w) (wd_db w)")
  then have d: "rows_for rid d = rows_for rid (wd_db w)"
    by (auto simp: authenticateAppToken_def touch_token_def rows_for_def Let_def split: option.splits if_splits)
  show ?thesis
  proof (cases res)
    case (Inl e)
    with assms auth d show ?thesis
      by (auto simp: stageAuth_def)
  next
    case (Inr au)
    obtain tw uw w2 where lim: "take_limits dp au (md_userId (metadata (cx_envelope cx))) (advance (w\<lparr>wd_db := d\<rparr>)) = (tw, uw, w2)"
      by (metis prod_cases3)
    with take_limits_frame(2) [of dp au "md_userId (metadata (cx_envelope cx))" "advance (w\<lparr>wd_db := d\<rparr>)"]
    have "wd_db w2 = d"
      by simp
    with assms auth Inr lim d authenticate_ok [OF auth [unfolded Inr]] show ?thesis
      by (auto simp: stageAuth_def Let_def split: if_splits)
  qed
qed

lemma stages_rows:
  assumes "stages dp bearer cx w = (out, cx', w')"
  shows "cx_requestId cx' = cx_requestId cx \<and> stream (cx_envelope cx') = stream (cx_envelope cx)
    \<and> rows_for rid (wd_db w') = rows_for rid (wd_db w)
    \<and> ((cx_auth cx' = cx_auth cx \<and> out \<noteq> Inr ()) \<or> (\<exists>au. cx_auth cx' = Some au \<and> token_for dp (wd_db w) bearer au))"
  using assms unfolding stages_def
proof (cases rule: then_stage_cases)
  case (1 t)
  with stageAuth_rows [OF 1(1), of rid] show ?thesis
    by simp
next
  case (2 cx1 w1)
  from after_auth_kept [of cx1 w1 dp] 2(2) have "kept (cx1, w1) (cx', w')"
    by simp
  with stageAuth_rows [OF 2(1), of rid] show ?thesis
    by (auto simp: kept_def)
qed

text \<open>A chain that ends well has produced what the handler sends: a stream for a streamed request, else a response.\<close>

lemma stageAdapt_answers:
  assumes "stageAdapt dp cx w = (Inr (), cx', w')"
  shows "if stream (cx_envelope cx') then cx_stream cx' \<noteq> None else cx_response cx' \<noteq> None"
proof -
  have direct: "(if stream (cx_envelope cx) then cx_stream cx' \<noteq> None else cx_response cx' \<noteq> None)"
    if "adapt_direct dp r au key cx w1 = (Inr (), cx', w')" for r au key w1
    using that by (auto simp: adapt_direct_def Let_def split: prod.splits sum.splits if_splits)
  have resilient: "(if stream (cx_envelope cx) then cx_stream cx' \<noteq> None else cx_response cx' \<noteq> None)"
    if "adapt_resilient dp cfg au key cx w1 = (Inr (), cx', w')" for cfg au key w1
    using that by (auto simp: adapt_resilient_def Let_def split: prod.splits sum.splits if_splits list.splits stream_outcome.splits)
  have hit: "\<not> stream (cx_envelope cx)" if "cache_lookup dp (case cx_route cx of None \<Rightarrow> None | Some r \<Rightarrow> keyFor dp cx au r) w = (Some res, w1)"
    for au res w1
    using that by (auto simp: cache_lookup_def keyFor_def cache_eligible_def split: option.splits prod.splits if_splits)
  have "stream (cx_envelope cx') = stream (cx_envelope cx)"
    using stageAdapt_kept [of cx w dp] assms by (simp add: kept_def)
  moreover have "if stream (cx_envelope cx) then cx_stream cx' \<noteq> None else cx_response cx' \<noteq> None"
    using assms direct resilient hit
    by (auto simp: stageAdapt_def Let_def split: option.splits prod.splits if_splits)
  ultimately show ?thesis
    by simp
qed

lemma then_stage_last:
  assumes "then_stage f g cx w = (Inr (), cx', w')"
  obtains cx1 w1 where "g cx1 w1 = (Inr (), cx', w')"
  using assms by (auto simp: then_stage_def split: prod.splits sum.splits)

lemma stages_answer:
  assumes "stages dp bearer cx w = (Inr (), cx', w')"
  shows "if stream (cx_envelope cx') then cx_stream cx' \<noteq> None else cx_response cx' \<noteq> None"
  using assms unfolding stages_def by (elim then_stage_last) (rule stageAdapt_answers)

text \<open>A write when the database answers: the first for its id leaves the one row.\<close>

lemma ledger_write_first:
  assumes "\<And>t. \<not> dp_ledgerFails dp t" "rows_for (cx_requestId cx) (wd_db w) = []"
  shows "fst (ledger_write dp cx w) = Inr ()
    \<and> (case cx_auth cx of
          None \<Rightarrow> rows_for (cx_requestId cx) (wd_db (snd (ledger_write dp cx w))) = []
        | Some au \<Rightarrow> \<exists>cost ts. rows_for (cx_requestId cx) (wd_db (snd (ledger_write dp cx w))) = [ledger_row_of cx au cost ts])"
proof (cases "cx_auth cx")
  case (Some au)
  obtain cost w1 where c: "ledger_cost dp cx w = (cost, w1)"
    by (cases "ledger_cost dp cx w")
  then have "wd_db w1 = wd_db w"
    using ledger_cost_frame(1) [of dp cx w] by simp
  with Some c assms show ?thesis
    by (auto simp: ledger_write_def Let_def insert_ledger_first) (auto simp: rows_for_def)
qed (use assms in \<open>simp add: ledger_write_def\<close>)

lemma ledger_write_others:
  "rid \<noteq> cx_requestId cx \<Longrightarrow> rows_for rid (wd_db (snd (ledger_write dp cx w))) = rows_for rid (wd_db w)"
  using ledger_write_rows [of rid dp cx w] by auto

lemma emitTerminalAudit_db [simp]: "wd_db (emitTerminalAudit cx w) = wd_db w"
  by (auto simp: emitTerminalAudit_def split: option.splits)

section \<open>The runner\<close>

text \<open>
  When the ledger answers and the request id is new, then after the runner the rows of that id are one row
  made from the final context, unless the request did not authenticate, which leaves none, or is a
  stream that has started, whose row the relay writes at its end.
\<close>

lemma runPipeline_rows:
  assumes "runPipeline dp bearer cx w = (out, cx', w')" and "fresh cx"
    and "\<And>t. \<not> dp_ledgerFails dp t" and "rows_for (cx_requestId cx) (wd_db w) = []"
  shows "(case cx_auth cx' of
        None \<Rightarrow> rows_for (cx_requestId cx) (wd_db w') = [] \<and> out \<noteq> Inr ()
      | Some au \<Rightarrow> token_for dp (wd_db w) bearer au
          \<and> (out = Inr () \<longrightarrow> (if stream (cx_envelope cx') then cx_stream cx' \<noteq> None else cx_response cx' \<noteq> None))
          \<and> (if out = Inr () \<and> stream (cx_envelope cx') then rows_for (cx_requestId cx) (wd_db w') = []
             else \<exists>cost ts. rows_for (cx_requestId cx) (wd_db w') = [ledger_row_of cx' au cost ts]))
    \<and> cx_requestId cx' = cx_requestId cx \<and> stream (cx_envelope cx') = stream (cx_envelope cx)
    \<and> (\<forall>rid. rid \<noteq> cx_requestId cx \<longrightarrow> rows_for rid (wd_db w') = rows_for rid (wd_db w))"
proof -
  obtain o1 cx1 w1 where st: "stages dp bearer cx w = (o1, cx1, w1)"
    by (metis prod_cases3)
  note rows = stages_rows [OF st]
  have id: "cx_requestId cx1 = cx_requestId cx" and same: "stream (cx_envelope cx1) = stream (cx_envelope cx)"
    and none: "rows_for (cx_requestId cx) (wd_db w1) = []"
    using rows [of "cx_requestId cx"] assms(4) by simp_all
  have auth: "cx_auth cx1 = None \<and> o1 \<noteq> Inr () \<or> (\<exists>au. cx_auth cx1 = Some au \<and> token_for dp (wd_db w) bearer au)"
    using rows [of "cx_requestId cx"] assms(2) by (auto simp: fresh_def)
  have wrote: "fst (ledger_write dp c w1) = Inr ()
      \<and> (case cx_auth c of
            None \<Rightarrow> rows_for (cx_requestId cx) (wd_db (snd (ledger_write dp c w1))) = []
          | Some au \<Rightarrow> \<exists>cost ts. rows_for (cx_requestId cx) (wd_db (snd (ledger_write dp c w1))) = [ledger_row_of c au cost ts])"
    if "cx_requestId c = cx_requestId cx" for c
    using ledger_write_first [OF assms(3), of c w1] that none by (simp split: option.splits)
  have others: "rows_for rid (wd_db (snd (ledger_write dp c w1))) = rows_for rid (wd_db w)"
    if "cx_requestId c = cx_requestId cx" "rid \<noteq> cx_requestId cx" for c rid
    using ledger_write_others [of rid c dp w1] rows [of rid] that by simp
  show ?thesis
  proof (cases o1)
    case (Inl t)
    define c where "c = cx1\<lparr>cx_error := Some (toRouterError t)\<rparr>"
    have "out \<noteq> Inr ()" "cx' = c" "wd_db w' = wd_db (snd (ledger_write dp c w1))"
      using assms(1) st Inl by (auto simp: runPipeline_def fail_request_def Let_def c_def)
    with wrote [of c] others [of c] id same auth show ?thesis
      by (auto simp: c_def split: option.splits)
  next
    case (Inr u)
    then obtain au where au: "cx_auth cx1 = Some au" "token_for dp (wd_db w) bearer au"
      using auth by auto
    have answer: "if stream (cx_envelope cx1) then cx_stream cx1 \<noteq> None else cx_response cx1 \<noteq> None"
      by (rule stages_answer) (use st Inr in simp)
    show ?thesis
    proof (cases "stream (cx_envelope cx1)")
      case True
      with assms(1) st Inr have "out = Inr ()" "cx' = cx1" "w' = w1"
        by (auto simp: runPipeline_def)
      with True au none rows answer show ?thesis
        by simp
    next
      case False
      obtain w2 where "ledger_write dp cx1 w1 = (Inr (), w2)"
        using wrote [OF id] by (cases "ledger_write dp cx1 w1") auto
      with assms(1) st Inr False have "cx' = cx1" "wd_db w' = wd_db (snd (ledger_write dp cx1 w1))"
        by (auto simp: runPipeline_def)
      with False wrote [OF id] others [OF id] id same au answer show ?thesis
        by auto
    qed
  qed
qed

end
