(* ===== verification/Sse.thy ===== *)
theory Sse
  imports Prelude
begin

text \<open>
  The incremental reader of server-sent events in \<^verbatim>\<open>src/src/adapters/http.ts\<close> (\<open>postSse\<close>). The network
  read is the argument: the list of decoded chunks, in order, and the text \<open>final\<close> that the last call of
  the decoder flushes. The lemmas show that the events do not depend on where the chunks were cut, and
  that what a writer of frames sends comes out as the payloads it put in.
\<close>

section \<open>Blank lines\<close>

text \<open>\<open>\r?\n\<close> at the front of a text: what follows it.\<close>

definition nl :: char where
  "nl = CHR 0x0A"

definition cr :: char where
  "cr = CHR 0x0D"

fun drop_eol :: "string \<Rightarrow> string option" where
  "drop_eol [] = None"
| "drop_eol (c # cs) =
     (if c = nl then Some cs
      else if c = cr then (case cs of [] \<Rightarrow> None | d # ds \<Rightarrow> if d = nl then Some ds else None)
      else None)"

text \<open>\<open>/^\r?\n\r?\n/\<close>\<close>

definition drop_sep :: "string \<Rightarrow> string option" where
  "drop_sep s = Option.bind (drop_eol s) drop_eol"

text \<open>\<open>buffer.search(/\r?\n\r?\n/)\<close>: the text before the first blank line and the text after it.\<close>

fun search_sep :: "string \<Rightarrow> (string \<times> string) option" where
  "search_sep [] = None"
| "search_sep (c # cs) =
     (case drop_sep (c # cs) of
        Some rest \<Rightarrow> Some ([], rest)
      | None \<Rightarrow> map_option (\<lambda>(a, r). (c # a, r)) (search_sep cs))"

text \<open>\<open>rawEvent.split(/\r?\n/)\<close>\<close>

fun split_lines :: "string \<Rightarrow> string list" where
  "split_lines [] = [[]]"
| "split_lines (c # cs) =
     (if c = nl then [] # split_lines cs
      else if c = cr \<and> (case cs of [] \<Rightarrow> False | d # ds \<Rightarrow> d = nl) then split_lines cs
      else (case split_lines cs of [] \<Rightarrow> [[c]] | l # ls \<Rightarrow> (c # l) # ls))"

definition trim_start :: "string \<Rightarrow> string" where
  "trim_start s = dropWhile is_space s"

definition data_lines :: "string \<Rightarrow> string list" where
  "data_lines raw = map (\<lambda>l. trim_start (drop 5 l)) (filter (starts_with ''data:'') (split_lines raw))"

definition emit_event :: "string \<Rightarrow> string list" where
  "emit_event raw = (if data_lines raw \<noteq> [] then [join [nl] (data_lines raw)] else [])"

section \<open>The reader\<close>

lemma drop_eol_shorter: "drop_eol s = Some r \<Longrightarrow> length r < length s"
  by (cases s) (auto split: list.splits if_splits)

lemma drop_sep_shorter: "drop_sep s = Some r \<Longrightarrow> length r < length s"
  by (auto simp: drop_sep_def bind_eq_Some_conv dest!: drop_eol_shorter)

lemma search_sep_shorter: "search_sep s = Some (a, r) \<Longrightarrow> length r < length s"
  by (induction s arbitrary: a) (auto split: option.splits dest: drop_sep_shorter)

text \<open>The inner loop: every complete event in the buffer, and what stays in it. The client library reads its streams
  with the same loop, so what a raw event yields is an argument.\<close>

function drain :: "(string \<Rightarrow> 'e list) \<Rightarrow> string \<Rightarrow> 'e list \<times> string" where
  "drain emit buffer =
     (case search_sep buffer of
        None \<Rightarrow> ([], buffer)
      | Some (raw, rest) \<Rightarrow> (emit raw @ fst (drain emit rest), snd (drain emit rest)))"
  by pat_completeness auto
termination
  by (relation "measure (length \<circ> snd)") (auto dest: search_sep_shorter)

declare drain.simps [simp del]

fun read_events :: "(string \<Rightarrow> 'e list) \<Rightarrow> string \<Rightarrow> string \<Rightarrow> string list \<Rightarrow> 'e list" where
  "read_events emit buffer final [] =
     (if trim (buffer @ final) \<noteq> [] then emit (buffer @ final) else [])"
| "read_events emit buffer final (c # cs) =
     fst (drain emit (buffer @ c)) @ read_events emit (snd (drain emit (buffer @ c))) final cs"

definition postSse :: "string \<Rightarrow> string list \<Rightarrow> string list" where
  "postSse final chunks = read_events emit_event [] final chunks"

section \<open>Cutting the text elsewhere changes nothing\<close>

lemma drop_eol_append: "drop_eol s = Some r \<Longrightarrow> drop_eol (s @ t) = Some (r @ t)"
  by (cases s) (auto split: list.splits if_splits)

lemma drop_sep_append: "drop_sep s = Some r \<Longrightarrow> drop_sep (s @ t) = Some (r @ t)"
  by (auto simp: drop_sep_def bind_eq_Some_conv intro: drop_eol_append)

lemma drop_eol_Some: "drop_eol s = Some r \<longleftrightarrow> s = nl # r \<or> s = cr # nl # r"
  by (cases s) (auto simp: nl_def cr_def split: list.splits)

lemma drop_eol_incomplete: "drop_eol s = None \<Longrightarrow> drop_eol (s @ t) \<noteq> None \<Longrightarrow> s = [] \<or> s = [cr]"
  by (cases s) (auto split: list.splits if_splits)

text \<open>A blank line that only the following text completes cannot precede one that is already complete.\<close>

lemma drop_sep_incomplete:
  assumes "drop_sep s = None" "drop_sep (s @ t) \<noteq> None"
  shows "s \<in> {[], [cr], [nl], [cr, nl], [nl, cr], [cr, nl, cr]}"
proof (cases "drop_eol s")
  case None
  moreover have "drop_eol (s @ t) \<noteq> None"
    using assms(2) by (cases "drop_eol (s @ t)") (simp_all add: drop_sep_def)
  ultimately show ?thesis
    using drop_eol_incomplete by blast
next
  case (Some u)
  with assms have "drop_eol u = None" "drop_eol (u @ t) \<noteq> None"
    using drop_eol_append [OF Some, of t] by (auto simp: drop_sep_def)
  from drop_eol_incomplete [OF this] Some show ?thesis
    by (auto simp: drop_eol_Some)
qed

lemma no_earlier_sep:
  assumes "drop_sep (c # cs) = None" "search_sep cs = Some x"
  shows "drop_sep (c # cs @ t) = None"
proof (rule ccontr)
  assume "drop_sep (c # cs @ t) \<noteq> None"
  with drop_sep_incomplete [OF assms(1), of t] assms(2) show False
    by (auto simp: drop_sep_def nl_def cr_def)
qed

lemma search_sep_append: "search_sep s = Some (a, r) \<Longrightarrow> search_sep (s @ t) = Some (a, r @ t)"
proof (induction s arbitrary: a)
  case (Cons c cs)
  show ?case
  proof (cases "drop_sep (c # cs)")
    case None
    with Cons show ?thesis
      by (auto simp: no_earlier_sep)
  next
    case (Some rest)
    with Cons drop_sep_append [OF Some, of t] show ?thesis
      by simp
  qed
qed simp

lemma drain_append:
  "fst (drain emit (s @ t)) = fst (drain emit s) @ fst (drain emit (snd (drain emit s) @ t))
   \<and> snd (drain emit (s @ t)) = snd (drain emit (snd (drain emit s) @ t))"
proof (induction emit s rule: drain.induct)
  case (1 emit s)
  show ?case
  proof (cases "search_sep s")
    case None
    then show ?thesis
      by (simp add: drain.simps [of emit s])
  next
    case (Some p)
    obtain raw rest where p: "p = (raw, rest)"
      by (cases p)
    with Some have "search_sep (s @ t) = Some (raw, rest @ t)"
      by (simp add: search_sep_append)
    with Some p 1 show ?thesis
      by (simp add: drain.simps [of emit s] drain.simps [of emit "s @ t"])
  qed
qed

lemma drain_done: "search_sep (snd (drain emit s)) = None"
  by (induction emit s rule: drain.induct) (subst drain.simps, auto split: option.splits)

lemma read_events_concat: "read_events emit b fin (c # cs) = read_events emit b fin [concat (c # cs)]"
proof (induction cs arbitrary: b c)
  case (Cons d ds)
  have "read_events emit b fin (c # d # ds) = fst (drain emit (b @ c)) @ read_events emit (snd (drain emit (b @ c))) fin (d # ds)"
    by simp
  also have "\<dots> = fst (drain emit (b @ c)) @ read_events emit (snd (drain emit (b @ c))) fin [concat (d # ds)]"
    by (simp only: Cons.IH)
  also have "\<dots> = read_events emit b fin [concat (c # d # ds)]"
    using drain_append [of emit "b @ c" "concat (d # ds)"] by simp
  finally show ?case .
qed simp

section \<open>Frames\<close>

text \<open>What the gateway's relay writes: a data frame or a heartbeat comment.\<close>

datatype sse_frame = DataFrame string | Heartbeat

fun render_frame :: "sse_frame \<Rightarrow> string" where
  "render_frame (DataFrame p) = ''data: '' @ p @ [nl, nl]"
| "render_frame Heartbeat = '': heartbeat'' @ [nl, nl]"

fun frame_payloads :: "sse_frame \<Rightarrow> string list" where
  "frame_payloads (DataFrame p) = [p]"
| "frame_payloads Heartbeat = []"

text \<open>A payload on one line that does not start with a blank.\<close>

definition one_line :: "string \<Rightarrow> bool" where
  "one_line p \<longleftrightarrow> nl \<notin> set p \<and> cr \<notin> set p \<and> p \<noteq> [] \<and> \<not> is_space (hd p)"

fun frame_ok :: "sse_frame \<Rightarrow> bool" where
  "frame_ok (DataFrame p) = one_line p"
| "frame_ok Heartbeat = True"

lemma search_line:
  assumes "nl \<notin> set l" "cr \<notin> set l"
  shows "search_sep (l @ nl # nl # rest) = Some (l, rest)"
  using assms by (induction l) (auto simp: drop_sep_def nl_def cr_def)

lemma split_one_line: "nl \<notin> set l \<Longrightarrow> cr \<notin> set l \<Longrightarrow> split_lines l = [l]"
  by (induction l) auto

text \<open>A frame without the blank line that ends it.\<close>

fun frame_text :: "sse_frame \<Rightarrow> string" where
  "frame_text (DataFrame p) = ''data: '' @ p"
| "frame_text Heartbeat = '': heartbeat''"

lemma frame_line:
  assumes "frame_ok f"
  shows "render_frame f = frame_text f @ [nl, nl]" "nl \<notin> set (frame_text f)" "cr \<notin> set (frame_text f)"
  using assms by (cases f; auto simp: one_line_def nl_def cr_def)+

text \<open>
  A reader of frames: what it makes of a data line depends on the payload alone, and a comment line is nothing to it.
\<close>

locale frame_reader =
  fixes emit :: "string \<Rightarrow> 'e list" and payload :: "string \<Rightarrow> 'e list"
  assumes emit_data: "one_line p \<Longrightarrow> emit (''data: '' @ p) = payload p"
    and emit_comment: "emit '': heartbeat'' = []"
begin

lemma emit_of_frame: "frame_ok f \<Longrightarrow> emit (frame_text f) = concat (map payload (frame_payloads f))"
  by (cases f) (simp_all add: emit_data emit_comment del: append_Cons)

lemma drain_frame:
  "frame_ok f \<Longrightarrow> drain emit (render_frame f @ rest) = (concat (map payload (frame_payloads f)) @ fst (drain emit rest), snd (drain emit rest))"
  using search_line [OF frame_line(2,3), of f rest] frame_line(1) [of f] emit_of_frame [of f] by (subst drain.simps) simp

lemma drain_frames:
  "list_all frame_ok fs \<Longrightarrow> drain emit (concat (map render_frame fs)) = (concat (map payload (concat (map frame_payloads fs))), [])"
  by (induction fs) (simp_all add: drain_frame, simp add: drain.simps)

text \<open>
  What the relay writes is what a reader gets: for any sequence of one-line data frames and
  heartbeats, cut into chunks anywhere, the reader yields exactly what the payloads stand for, in order.
\<close>

lemma frames_read:
  assumes "list_all frame_ok fs" and "concat cs = concat (map render_frame fs)"
  shows "read_events emit [] [] cs = concat (map payload (concat (map frame_payloads fs)))"
proof (cases cs)
  case Nil
  have "render_frame f \<noteq> []" for f
    by (cases f) simp_all
  with Nil assms have "fs = []"
    by (cases fs) auto
  with Nil show ?thesis
    by (simp add: trim_def)
next
  case (Cons d ds)
  have "read_events emit [] [] cs = read_events emit [] [] [concat (map render_frame fs)]"
    using read_events_concat [of emit "[]" "[]" d ds] assms(2) Cons by (simp only:)
  also have "\<dots> = concat (map payload (concat (map frame_payloads fs)))"
    using drain_frames [OF assms(1)] by (simp add: trim_def)
  finally show ?thesis .
qed

end

interpretation adapter_reader: frame_reader emit_event "\<lambda>p. [p]"
proof unfold_locales
  fix p
  assume p: "one_line p"
  then have "trim_start (CHR '' '' # p) = p"
    by (cases p) (auto simp: one_line_def trim_start_def is_space_def char_code_def)
  with p split_one_line [of "''data: '' @ p"] show "emit_event (''data: '' @ p) = [p]"
    by (auto simp: emit_event_def data_lines_def one_line_def nl_def cr_def)
next
  show "emit_event '': heartbeat'' = []"
    by (simp add: emit_event_def data_lines_def nl_def cr_def)
qed

lemma postSse_frames:
  assumes "list_all frame_ok fs" and "concat cs = concat (map render_frame fs)"
  shows "postSse [] cs = concat (map frame_payloads fs)"
  using adapter_reader.frames_read [OF assms] by (simp add: postSse_def)

section \<open>Properties\<close>

text \<open>
  The events a provider's stream yields do not depend on how the network cut it into chunks: any
  two non-empty sequences of chunks with the same text give the same events, whether the cuts fall
  inside a line, inside a \<open>CRLF\<close> or inside the blank line that ends an event.
\<close>

theorem sse_chunking_irrelevant:
  assumes "concat cs = concat ds" and "cs \<noteq> []" and "ds \<noteq> []"
  shows "postSse fin cs = postSse fin ds"
proof -
  have "postSse fin xs = read_events emit_event [] fin [concat xs]" if "xs \<noteq> []" for xs
  proof (cases xs)
    case (Cons d ds)
    then show ?thesis
      by (simp only: postSse_def read_events_concat [of emit_event "[]" fin d ds])
  qed (use that in simp)
  with assms show ?thesis
    by simp
qed

theorem sse_chunking_irrelevant_witness:
  "postSse [] [''data: a'' @ [cr], [nl, cr], [nl] @ ''data: b''] = [''a'', ''b'']"
proof -
  have "postSse [] [''data: a'' @ [cr], [nl, cr], [nl] @ ''data: b'']
      = postSse [] [''data: a'' @ [cr, nl, cr, nl] @ ''data: b'']"
    by (rule sse_chunking_irrelevant) simp_all
  also have "\<dots> = [''a'', ''b'']"
    by code_simp
  finally show ?thesis .
qed

end
