(* ===== verification/Routes.thy ===== *)
theory Routes
  imports Pipeline_Ledger Openai_Compat Sse
begin

text \<open>
  The HTTP surface of \<^verbatim>\<open>src/src/gateway/routes.ts\<close>: the chat handler from the headers to the reply, and the
  relay of a stream as server-sent events with its single ledger write. A reply is a value: status,
  headers and body, or the frames written to the raw socket. Heartbeats are timer events between
  frames and left to the reader of the frames. The identifier of the request (\<open>uuid\<close>), the clock at each
  relayed chunk (\<open>clock\<close>) and the words of the schema library are arguments.
\<close>

section \<open>Requests and replies\<close>

record http_request =
  hq_headers :: "(string \<times> string) list"
  hq_body :: json

datatype http_reply =
    JsonReply int "(string \<times> string) list" json
  | SseReply "(string \<times> string) list" "sse_frame list"

definition headerString :: "http_request \<Rightarrow> string \<Rightarrow> string option" where
  "headerString req name = non_empty (map_of (hq_headers req) name)"

fun role_of_header :: "string option \<Rightarrow> user_role option" where
  "role_of_header None = None"
| "role_of_header (Some r) =
     (if r = ''admin'' then Some Admin else if r = ''partner'' then Some Partner
      else if r = ''staff'' then Some Staff else None)"

definition metadata_of :: "http_request \<Rightarrow> request_metadata" where
  "metadata_of req =
     \<lparr>md_app = ''unknown'', md_userId = headerString req ''x-vibe-user'',
      md_userRole = role_of_header (headerString req ''x-vibe-user-role''),
      md_engagementRef = headerString req ''x-vibe-engagement'', md_clientRef = headerString req ''x-vibe-client''\<rparr>"

definition bearer_of :: "http_request \<Rightarrow> string option" where
  "bearer_of req =
     (case map_of (hq_headers req) ''authorization'' of
        Some h \<Rightarrow> if starts_with ''Bearer '' h then Some (drop 7 h) else None
      | None \<Rightarrow> None)"

text \<open>The warnings of the budget stage as the response header carries them.\<close>

definition warning_text :: "budget_check \<Rightarrow> string" where
  "warning_text c =
     check_scope_name (bc_scope c) @ '':'' @ show_int (floor (bc_spentCents c / bc_limitCents c * 100 + 1 / 2)) @ ''%''"

definition warning_header :: "pipeline_ctx \<Rightarrow> (string \<times> string) list" where
  "warning_header cx =
     (if cx_budgetWarnings cx \<noteq> []
      then [(''x-vibe-budget-warning'', join '','' (map warning_text (cx_budgetWarnings cx)))] else [])"

definition error_reply :: "(string \<times> string) list \<Rightarrow> router_error \<Rightarrow> http_reply" where
  "error_reply headers e =
     JsonReply (status e)
       (headers @ (case retryAfterSeconds e of None \<Rightarrow> [] | Some s \<Rightarrow> [(''retry-after'', show_num s)])) (errorBody e)"

section \<open>The relay\<close>

fun relay_frames :: "(nat \<Rightarrow> int) \<Rightarrow> string \<Rightarrow> string \<Rightarrow> nat \<Rightarrow> bool \<Rightarrow> stream_chunk list \<Rightarrow> sse_frame list" where
  "relay_frames clock rid model n first [] = []"
| "relay_frames clock rid model n first (c # cs) =
     map (\<lambda>obj. DataFrame (json_stringify obj)) (toChunkObjects (clock n) rid model c first)
     @ relay_frames clock rid model (Suc n) False cs"

text \<open>The last finish chunk relayed, and the number of characters of text.\<close>

fun finish_chunk :: "stream_chunk list \<Rightarrow> (finish_reason \<times> ai_usage option) option" where
  "finish_chunk [] = None"
| "finish_chunk (c # cs) =
     (case finish_chunk cs of
        Some f \<Rightarrow> Some f
      | None \<Rightarrow> (case c of Finish f u \<Rightarrow> Some (f, u) | _ \<Rightarrow> None))"

fun streamed_chars :: "stream_chunk list \<Rightarrow> nat" where
  "streamed_chars [] = 0"
| "streamed_chars (c # cs) = (case c of TextDelta d \<Rightarrow> length d | _ \<Rightarrow> 0) + streamed_chars cs"

definition estimated_usage :: "ai_request \<Rightarrow> nat \<Rightarrow> ai_usage" where
  "estimated_usage env chars =
     \<lparr>promptTokens = max 1 (ceil4 (length (json_stringify (JArr (map message_json (messages env)))))),
      completionTokens = max (if chars > 0 then 1 else 0) (ceil4 chars),
      cachedReadTokens = 0, cacheWriteTokens = 0, estimated = True\<rparr>"

text \<open>The response recorded for a stream: the usage of its finish chunk, or an estimate.\<close>

definition stream_response :: "pipeline_ctx \<Rightarrow> string \<Rightarrow> int \<Rightarrow> stream_chunk list \<Rightarrow> ai_response option" where
  "stream_response cx model now cs =
     (case cx_route cx of
        None \<Rightarrow> cx_response cx
      | Some r \<Rightarrow>
          (let base = \<lparr>r_content = [], r_toolCalls = None, finishReason = FError,
                       usage = estimated_usage (cx_envelope cx) (streamed_chars cs), served_model = model,
                       served_providerId = prv_id (rt_provider r), served_latencyMs = now - cx_startedAt cx, thinking = None\<rparr>
           in case finish_chunk cs of
                Some (f, Some u) \<Rightarrow> Some (base\<lparr>finishReason := f, usage := u\<rparr>)
              | _ \<Rightarrow> Some base))"

definition relay_end ::
    "deps \<Rightarrow> bool \<Rightarrow> pipeline_ctx \<Rightarrow> world \<Rightarrow> pipeline_ctx \<times> world" where
  "relay_end dp aborted cx w =
     (let cx1 = (if aborted \<and> cx_error cx = None
                 then cx\<lparr>cx_error := Some (router_error0 unknown ''client aborted'')\<rparr> else cx);
          w1 = (case (cx_route cx1, cx_auth cx1) of
                  (Some r, Some au) \<Rightarrow>
                    if aborted then w
                    else emit (HealthRecord (prv_id (rt_provider r)) (au_firmId au) (prv_label (rt_provider r))
                           (cx_error cx1 = None)) w
                | _ \<Rightarrow> w)
      in (cx1, emitTerminalAudit cx1 (snd (ledger_write dp cx1 w1))))"

text \<open>
  The loop over the stream and its \<open>finally\<close>. A stream the consumer stopped was left because the client
  was gone: the chunk it was left at is not written.
\<close>

definition sse_relay ::
    "deps \<Rightarrow> (nat \<Rightarrow> int) \<Rightarrow> stream_chunk list \<times> stream_outcome \<Rightarrow> pipeline_ctx \<Rightarrow> world
      \<Rightarrow> sse_frame list \<times> pipeline_ctx \<times> world" where
  "sse_relay dp clock st cx w =
     (let (chunks, outcome) = st;
          model = (case cx_route cx of Some r \<Rightarrow> canonicalId (rt_model r) | None \<Rightarrow> ''unknown'');
          relayed = (if outcome = Stopped then butlast chunks else chunks);
          aborted = (outcome = Stopped \<or> dp_aborted dp (wd_tick w));
          frames = relay_frames clock (cx_requestId cx) model 0 True relayed
            @ (case outcome of
                 Failed e \<Rightarrow> [DataFrame (json_stringify (errorBody e)), DataFrame ''[DONE]'']
               | _ \<Rightarrow> if aborted then [] else [DataFrame ''[DONE]'']);
          cx1 = (case outcome of Failed e \<Rightarrow> cx\<lparr>cx_error := Some e\<rparr> | _ \<Rightarrow> cx);
          cx2 = cx1\<lparr>cx_response := stream_response cx1 model (now_of dp w) relayed\<rparr>;
          (cx3, w') = relay_end dp aborted cx2 w
      in (frames, cx3, w'))"

section \<open>The handler\<close>

definition sse_headers :: "pipeline_ctx \<Rightarrow> (string \<times> string) list" where
  "sse_headers cx =
     [(''content-type'', ''text/event-stream; charset=utf-8''), (''cache-control'', ''no-cache, no-transform''),
      (''connection'', ''keep-alive''), (''x-request-id'', cx_requestId cx)] @ warning_header cx"

definition chat_completions ::
    "(json \<Rightarrow> string) \<Rightarrow> envelope_limits \<Rightarrow> deps \<Rightarrow> string \<Rightarrow> (nat \<Rightarrow> int) \<Rightarrow> http_request \<Rightarrow> world
      \<Rightarrow> http_reply \<times> pipeline_ctx option \<times> world" where
  "chat_completions zod_issue limits dp uuid clock req w =
     (case headerString req ''x-vibe-task-class'' of
        None \<Rightarrow> (error_reply [] (router_error0 policy_blocked ''missing required header X-Vibe-Task-Class''), None, w)
      | Some tc \<Rightarrow>
          (case toEnvelope zod_issue (hq_body req) tc (metadata_of req) limits of
             Inl e \<Rightarrow> (error_reply [] e, None, w)
           | Inr env \<Rightarrow>
               (let cx = newPipelineCtx (dp_sha256 dp) uuid (now_of dp w) env;
                    rid = [(''x-request-id'', cx_requestId cx)]
                in case runPipeline dp (bearer_of req) cx w of
                     (Inl t, cx1, w1) \<Rightarrow> (error_reply rid (toRouterError t), Some cx1, w1)
                   | (Inr _, cx1, w1) \<Rightarrow>
                       if \<not> stream env then
                         (case cx_response cx1 of
                            None \<Rightarrow> (error_reply (rid @ warning_header cx1)
                                       (router_error0 unknown ''pipeline produced no response''), Some cx1, w1)
                          | Some res \<Rightarrow>
                              (JsonReply 200 (rid @ warning_header cx1)
                                 (toChatCompletion (now_of dp w1) (cx_requestId cx1) res), Some cx1, w1))
                       else
                         (case cx_stream cx1 of
                            None \<Rightarrow> (error_reply (rid @ warning_header cx1)
                                       (router_error0 unknown ''pipeline produced no stream''), Some cx1, w1)
                          | Some st \<Rightarrow>
                              (let (frames, cx2, w2) = sse_relay dp clock st cx1 w1
                               in (SseReply (sse_headers cx1) frames, Some cx2, w2))))))"

section \<open>Lemmas\<close>

lemma new_ctx_facts [simp]:
  "fresh (newPipelineCtx h uuid now env)" "cx_requestId (newPipelineCtx h uuid now env) = uuid"
  "stream (cx_envelope (newPipelineCtx h uuid now env)) = stream env"
  by (simp_all add: newPipelineCtx_def new_ctx_def fresh_def)

text \<open>The end of a relay writes the row of its request.\<close>

lemma relay_end_rows:
  assumes "relay_end dp ab cx w = (cx', w')" "\<And>t. \<not> dp_ledgerFails dp t" "rows_for (cx_requestId cx) (wd_db w) = []"
    "cx_auth cx = Some au"
  shows "cx_auth cx' = Some au \<and> cx_response cx' = cx_response cx
    \<and> (\<exists>cost ts. rows_for (cx_requestId cx) (wd_db w') = [ledger_row_of cx' au cost ts])
    \<and> (\<forall>rid. rid \<noteq> cx_requestId cx \<longrightarrow> rows_for rid (wd_db w') = rows_for rid (wd_db w))"
proof -
  define w1 where "w1 = (case (cx_route cx', cx_auth cx') of
      (Some r, Some a) \<Rightarrow> if ab then w else emit (HealthRecord (prv_id (rt_provider r)) (au_firmId a)
         (prv_label (rt_provider r)) (cx_error cx' = None)) w | _ \<Rightarrow> w)"
  have same: "wd_db w1 = wd_db w"
    by (simp add: w1_def split: option.splits)
  have cx': "cx' = (if ab \<and> cx_error cx = None then cx\<lparr>cx_error := Some (router_error0 unknown ''client aborted'')\<rparr> else cx)"
    and "wd_db w' = wd_db (snd (ledger_write dp cx' w1))"
    using assms(1) by (auto simp: relay_end_def Let_def w1_def)
  moreover have "cx_auth cx' = Some au" "cx_requestId cx' = cx_requestId cx" "cx_response cx' = cx_response cx"
    using assms(4) by (simp_all add: cx')
  ultimately show ?thesis
    using ledger_write_first [OF assms(2), of cx' w1] ledger_write_others [of _ cx' dp w1] assms(3) same
    by auto
qed

lemma sse_relay_rows:
  assumes "sse_relay dp clock st cx w = (frames, cx', w')" "\<And>t. \<not> dp_ledgerFails dp t" "cx_auth cx = Some au"
    "rows_for (cx_requestId cx) (wd_db w) = []"
  shows "cx_auth cx' = Some au \<and> (\<exists>cost ts. rows_for (cx_requestId cx) (wd_db w') = [ledger_row_of cx' au cost ts])
    \<and> (\<forall>rid. rid \<noteq> cx_requestId cx \<longrightarrow> rows_for rid (wd_db w') = rows_for rid (wd_db w))"
proof -
  obtain ab cx2 where "relay_end dp ab cx2 w = (cx', w')" "cx_requestId cx2 = cx_requestId cx" "cx_auth cx2 = cx_auth cx"
    using assms(1) by (auto simp: sse_relay_def Let_def split: prod.splits stream_outcome.splits)
  with relay_end_rows [of dp ab cx2 w cx' w' au] assms show ?thesis
    by auto
qed

section \<open>Properties\<close>

text \<open>
  C7. Every authenticated chat request leaves exactly one ledger row, streamed or not, whatever becomes
  of it: when the ledger answers and the request id is new, then after the handler the rows of that id
  are the one row made from the final context of the request. A request that does not authenticate leaves
  none and is answered with an error. Rows of other requests are not touched.
\<close>

theorem chat_request_leaves_one_row:
  assumes "chat_completions zod_issue limits dp uuid clock req w = (reply, Some cx', w')"
    and "\<And>t. \<not> dp_ledgerFails dp t" and "rows_for uuid (wd_db w) = []"
  shows "(case cx_auth cx' of
        None \<Rightarrow> rows_for uuid (wd_db w') = [] \<and> (\<exists>e. reply = error_reply [(''x-request-id'', uuid)] e)
      | Some au \<Rightarrow> token_for dp (wd_db w) (bearer_of req) au
          \<and> (\<exists>cost ts. rows_for uuid (wd_db w') = [ledger_row_of cx' au cost ts]))
    \<and> (\<forall>rid. rid \<noteq> uuid \<longrightarrow> rows_for rid (wd_db w') = rows_for rid (wd_db w))"
proof -
  obtain tc env where env: "headerString req ''x-vibe-task-class'' = Some tc"
    "toEnvelope zod_issue (hq_body req) tc (metadata_of req) limits = Inr env"
    using assms(1) by (auto simp: chat_completions_def split: option.splits sum.splits)
  define cx where "cx = newPipelineCtx (dp_sha256 dp) uuid (now_of dp w) env"
  have cx: "fresh cx" "cx_requestId cx = uuid" "stream (cx_envelope cx) = stream env"
    by (simp_all add: cx_def)
  obtain out cx1 w1 where run: "runPipeline dp (bearer_of req) cx w = (out, cx1, w1)"
    by (metis prod_cases3)
  note rows = runPipeline_rows [OF run cx(1) assms(2), unfolded cx(2,3), OF assms(3)]
  note chat = assms(1) [unfolded chat_completions_def Let_def env option.case sum.case cx_def [symmetric] run cx(2)]
  show ?thesis
  proof (cases out)
    case (Inl t)
    then have "reply = error_reply [(''x-request-id'', uuid)] (toRouterError t)" "cx' = cx1" "w' = w1"
      using chat by auto
    with rows Inl show ?thesis
      by (auto split: option.splits)
  next
    case (Inr u)
    then obtain au where au: "cx_auth cx1 = Some au" "token_for dp (wd_db w) (bearer_of req) au"
      using rows by (auto split: option.splits)
    show ?thesis
    proof (cases "stream env")
      case False
      with chat Inr rows au have "cx' = cx1" "w' = w1"
        by (auto split: option.splits)
      with rows Inr False au show ?thesis
        by auto
    next
      case True
      with rows Inr au obtain st where st: "cx_stream cx1 = Some st"
        by auto
      obtain fs cx2 w2 where rel: "sse_relay dp clock st cx1 w1 = (fs, cx2, w2)"
        by (metis prod_cases3)
      with chat Inr True st have "cx' = cx2" "w' = w2"
        by auto
      with sse_relay_rows [OF rel assms(2) au(1)] rows Inr True au show ?thesis
        by auto
    qed
  qed
qed

text \<open>
  No stream is free: whenever a relay had a provider, it records a response under the routed model and
  provider, and either the stream's last finish carried usage, which is what is recorded, or the usage is
  an estimate marked as such that charges at least one prompt token and a token for every four characters
  relayed. A client that disconnects before the finish is charged that estimate.
\<close>

theorem streams_are_billed:
  assumes "sse_relay dp clock (chunks, outcome) cx w = (frames, cx', w')" and "cx_route cx = Some r"
  shows "\<exists>res. cx_response cx' = Some res \<and> served_model res = canonicalId (rt_model r)
    \<and> served_providerId res = prv_id (rt_provider r)
    \<and> (case finish_chunk (if outcome = Stopped then butlast chunks else chunks) of
          Some (f, Some u) \<Rightarrow> usage res = u \<and> finishReason res = f
        | _ \<Rightarrow> estimated (usage res) \<and> 1 \<le> promptTokens (usage res)
            \<and> int (streamed_chars (if outcome = Stopped then butlast chunks else chunks)) \<le> 4 * completionTokens (usage res))"
proof -
  define relayed where "relayed = (if outcome = Stopped then butlast chunks else chunks)"
  define cx1 where "cx1 = (case outcome of Failed e \<Rightarrow> cx\<lparr>cx_error := Some e\<rparr> | _ \<Rightarrow> cx)"
  have r: "cx_route cx1 = Some r"
    using assms(2) by (simp add: cx1_def split: stream_outcome.splits)
  have "cx_response cx' = stream_response cx1 (canonicalId (rt_model r)) (now_of dp w) relayed"
    using assms by (auto simp: sse_relay_def relay_end_def Let_def relayed_def cx1_def split: prod.splits)
  then show ?thesis
    unfolding relayed_def [symmetric] using r
    by (auto simp: stream_response_def Let_def estimated_usage_def ceil4_def split: option.splits)
qed

text \<open>A streamed request through the handler.\<close>

definition ex_request :: http_request where
  "ex_request =
     \<lparr>hq_headers = [(''authorization'', ''Bearer secret''), (''x-vibe-task-class'', ''doc_read'')],
      hq_body = JObj [(''messages'', JArr [JObj [(''role'', JStr ''user''), (''content'', JStr ''hi'')]]), (''stream'', JBool True)]\<rparr>"

definition ex_chat_env :: ai_request where
  "ex_chat_env =
     \<lparr>taskClass = ''doc_read'',
      messages = [\<lparr>m_role = RUser, m_content = CText ''hi'', m_toolCalls = None, m_toolCallId = None\<rparr>],
      tools = None, toolChoice = None, responseFormat = None, maxTokens = None, temperature = None, topP = None,
      stop = None, stream = True, modelRequested = None,
      metadata = \<lparr>md_app = ''unknown'', md_userId = None, md_userRole = None, md_engagementRef = None, md_clientRef = None\<rparr>\<rparr>"

lemma ex_request_parsed:
  "headerString ex_request ''x-vibe-task-class'' = Some ''doc_read''" "bearer_of ex_request = Some ''secret''"
  "toEnvelope (\<lambda>_. []) (hq_body ex_request) ''doc_read'' (metadata_of ex_request) example_limits = Inr ex_chat_env"
  by (simp_all add: headerString_def bearer_of_def metadata_of_def ex_request_def ex_chat_env_def toEnvelope_def
      schema_eval example_limits_def envelope_of_body_def message_of_wire_def)

lemma ex_chat_stages:
  "\<exists>cx' w'. stages ex_direct (Some ''secret'') (newPipelineCtx h ''req1'' n ex_chat_env) ex_private_world = (Inr (), cx', w')
     \<and> cx_auth cx' \<noteq> None \<and> stream (cx_envelope cx') \<and> cx_stream cx' = Some ([TextDelta ''ok'', Finish FStop (Some EMPTY_USAGE)], Completed)"
  by (simp add: ex_direct_def newPipelineCtx_def ex_chat_env_def ex_private_world_def pipe_eval exec_eval)

lemma ex_chat_live: "\<not> dp_ledgerFails ex_direct t" "rows_for rid (wd_db ex_private_world) = []"
  by (simp_all add: ex_direct_def ex_private_world_def ex_world_defs rows_for_def)

theorem chat_request_leaves_one_row_witness:
  "\<exists>row. rows_for ''req1'' (wd_db (snd (snd (chat_completions (\<lambda>_. []) example_limits ex_direct ''req1'' (\<lambda>_. 0)
     ex_request ex_private_world)))) = [row]"
proof -
  let ?cx = "newPipelineCtx (dp_sha256 ex_direct) ''req1'' (now_of ex_direct ex_private_world) ex_chat_env"
  from ex_chat_stages [of "dp_sha256 ex_direct" "now_of ex_direct ex_private_world"] obtain cx1 w1 st where
    "stages ex_direct (Some ''secret'') ?cx ex_private_world = (Inr (), cx1, w1)" "stream (cx_envelope cx1)"
    "cx_auth cx1 \<noteq> None" and st: "cx_stream cx1 = Some st"
    by blast
  then have run: "runPipeline ex_direct (Some ''secret'') ?cx ex_private_world = (Inr (), cx1, w1)" "cx_auth cx1 \<noteq> None"
    "cx_stream cx1 = Some st"
    by (simp_all add: runPipeline_def)
  obtain fs cx2 w2 where rel: "sse_relay ex_direct (\<lambda>_. 0) st cx1 w1 = (fs, cx2, w2)"
    by (metis prod_cases3)
  then have auth: "cx_auth cx2 = cx_auth cx1"
    by (auto simp: sse_relay_def relay_end_def Let_def split: prod.splits stream_outcome.splits)
  have "stream ex_chat_env"
    by (simp add: ex_chat_env_def)
  with run rel have chat: "chat_completions (\<lambda>_. []) example_limits ex_direct ''req1'' (\<lambda>_. 0) ex_request ex_private_world
      = (SseReply (sse_headers cx1) fs, Some cx2, w2)"
    by (simp add: chat_completions_def ex_request_parsed Let_def)
  from chat_request_leaves_one_row [OF chat] ex_chat_live auth run(2) chat show ?thesis
    by auto
qed

theorem streams_are_billed_witness:
  "\<exists>res. cx_response (fst (snd (sse_relay ex_direct (\<lambda>_. 0) ([TextDelta ''hello'', TextDelta ''x''], Stopped) ex_mixed_cx ex_world)))
     = Some res \<and> estimated (usage res) \<and> 5 \<le> 4 * completionTokens (usage res)"
proof -
  obtain fs cx' w' where rel: "sse_relay ex_direct (\<lambda>_. 0) ([TextDelta ''hello'', TextDelta ''x''], Stopped) ex_mixed_cx ex_world = (fs, cx', w')"
    by (metis prod_cases3)
  obtain r where "cx_route ex_mixed_cx = Some r"
    by (simp add: ex_mixed_cx_def)
  from streams_are_billed [OF rel this] rel show ?thesis
    by auto
qed

end
