(* ===== verification/Cascade.thy ===== *)
theory Cascade
  imports Routes Json_Roundtrip
begin

text \<open>
  One gateway in front of another: what the relay of \<^verbatim>\<open>src/src/gateway/routes.ts\<close> writes, read by the
  adapter of \<^verbatim>\<open>src/src/adapters/openai-compat\<close> over \<^verbatim>\<open>src/src/adapters/http.ts\<close>. The chunks of the first stream
  are the chunks of the second.
\<close>

section \<open>One chunk object\<close>

lemma chunk_objects_plain: "obj \<in> set (toChunkObjects now rid model c first) \<Longrightarrow> plain_json obj"
  by (cases c) (auto simp: chunk_object_def delta_choice_def role_delta_def toOpenAiUsage_def Let_def split: option.splits)

lemma chunk_choice:
  "chunkSchema (chunk_object now rid model (delta_choice d fin)) =
     map_option (\<lambda>w. (Some w, None)) (deltaSchema (JObj [(''index'', JNum 0), (''delta'', JObj d), (''finish_reason'', fin)]))"
  by (simp add: chunkSchema_def chunk_object_def delta_choice_def z_defs split: option.splits)

lemma handle_text:
  assumes "d \<noteq> []"
  shows "handle (chunk_object now rid model (delta_choice (role_delta first @ [(''content'', JStr d)]) JNull)) st = ([TextDelta d], st)"
  using assms unfolding handle_def chunk_choice
  by (simp add: deltaSchema_def role_delta_def z_defs)

text \<open>The reader's map of indices when the writer always sends them.\<close>

definition identity_map :: "openai_stream_state \<Rightarrow> bool" where
  "identity_map st \<longleftrightarrow> (\<forall>i j. map_get (os_indexMap st) i = Some j \<longrightarrow> j = i)"

definition started_calls :: "openai_stream_state \<Rightarrow> nat set" where
  "started_calls st = {i. map_get (os_started st) (int i) = Some True}"

lemma resolve_given:
  assumes "identity_map st"
  shows "\<exists>st'. resolveIndex (Some i) b st = (i, st') \<and> identity_map st' \<and> os_started st' = os_started st"
  using assms by (cases "map_get (os_indexMap st) i") (auto simp: resolveIndex_def identity_map_def)

lemma handle_start:
  assumes "identity_map st" "i \<notin> started_calls st"
  shows "\<exists>st'. handle (chunk_object now rid model (delta_choice (role_delta first @ [(''tool_calls'', JArr [JObj
        [(''index'', JNum (of_nat i)), (''id'', JStr cid), (''type'', JStr ''function''),
         (''function'', JObj [(''name'', JStr name), (''arguments'', JStr [])])]])]) JNull)) st = ([ToolCallStart i cid name], st')
    \<and> identity_map st' \<and> started_calls st' = insert i (started_calls st)"
proof -
  obtain st' where st': "resolveIndex (Some (int i)) True st = (int i, st')" "identity_map st'" "os_started st' = os_started st"
    using resolve_given [OF assms(1)] by blast
  then show ?thesis
    using assms(2) unfolding handle_def chunk_choice
    by (auto simp: deltaSchema_def role_delta_def fragmentSchema_def z_defs handle_fragment_def started_calls_def identity_map_def)
qed

lemma handle_args:
  assumes "identity_map st" "args \<noteq> []"
  shows "\<exists>st'. handle (chunk_object now rid model (delta_choice [(''tool_calls'', JArr [JObj
        [(''index'', JNum (of_nat i)), (''function'', JObj [(''arguments'', JStr args)])]])] JNull)) st = ([ToolCallDelta i args], st')
    \<and> identity_map st' \<and> started_calls st' = started_calls st"
proof -
  obtain st' where st': "resolveIndex (Some (int i)) False st = (int i, st')" "identity_map st'" "os_started st' = os_started st"
    using resolve_given [OF assms(1)] by blast
  then show ?thesis
    using assms(2) unfolding handle_def chunk_choice
    by (cases args) (auto simp: deltaSchema_def role_delta_def fragmentSchema_def z_defs handle_fragment_def started_calls_def)
qed

lemma handle_finish:
  "handle (chunk_object now rid model (delta_choice [] (JStr (FINISH_MAP f)))) st = ([Finish (relabel f) None], st)"
  unfolding handle_def chunk_choice
  by (simp add: deltaSchema_def z_defs normalize_FINISH_MAP)

lemma handle_usage:
  assumes "counts_ok u"
  shows "handle (chunk_object now rid model [(''choices'', JArr []), (''usage'', toOpenAiUsage u)]) st
    = ([Finish FStop (Some (folded_usage u))], st)"
proof -
  obtain wu where wu: "usageSchema (toOpenAiUsage u) = Some wu" "wu_prompt_tokens wu \<noteq> None" "extractUsage (Some wu) = folded_usage u"
    using usage_wire [OF assms] by blast
  have "z_nullish ''usage'' usageSchema (chunk_object now rid model [(''choices'', JArr []), (''usage'', toOpenAiUsage u)]) = Some (Some wu)"
    by (rule z_nullish_given [where w = "toOpenAiUsage u"]) (simp_all add: usage_not_null wu chunk_object_def obj_get_def)
  then have "chunkSchema (chunk_object now rid model [(''choices'', JArr []), (''usage'', toOpenAiUsage u)]) = Some (None, Some wu)"
    by (simp add: chunkSchema_def chunk_object_def z_optional_def obj_get_def)
  with wu show ?thesis
    by (simp add: handle_def)
qed

section \<open>A whole stream\<close>

text \<open>A stream as the adapters yield it: no empty deltas, each tool call started once.\<close>

fun chunks_ok :: "nat set \<Rightarrow> stream_chunk list \<Rightarrow> bool" where
  "chunks_ok S [] = True"
| "chunks_ok S (TextDelta d # cs) = (d \<noteq> [] \<and> chunks_ok S cs)"
| "chunks_ok S (ToolCallStart i cid name # cs) = (i \<notin> S \<and> chunks_ok (insert i S) cs)"
| "chunks_ok S (ToolCallDelta i args # cs) = (args \<noteq> [] \<and> chunks_ok S cs)"
| "chunks_ok S (Finish f u # cs) = False"

definition payloads :: "sse_frame list \<Rightarrow> string list" where
  "payloads fs = concat (map frame_payloads fs)"

lemma payloads_simps [simp]:
  "payloads [] = []" "payloads (DataFrame p # fs) = p # payloads fs" "payloads (Heartbeat # fs) = payloads fs"
  "payloads (fs @ gs) = payloads fs @ payloads gs" "payloads (map (\<lambda>x. DataFrame (h x)) xs) = map h xs"
  by (simp_all add: payloads_def) (induction xs, simp_all)

lemma object_payload:
  assumes "plain_json (JObj ms)"
  shows "relay_payloads (json_stringify (JObj ms) # ps) st acc =
    (let (cs, st1) = handle (JObj ms) st in relay_payloads ps st1 (fold relay_chunk cs acc))"
  using json_roundtrip [OF assms] by simp

lemma relay_done: "relay_payloads (''[DONE]'' # ps) st acc = acc"
  by simp

declare relay_payloads.simps(2) [simp del]

lemma chunk_payload:
  assumes "plain_json (chunk_object now rid model rest)"
  shows "relay_payloads (json_stringify (chunk_object now rid model rest) # ps) st acc =
    (let (cs, st1) = handle (chunk_object now rid model rest) st in relay_payloads ps st1 (fold relay_chunk cs acc))"
  using object_payload assms unfolding chunk_object_def by blast

lemma relay_one:
  assumes "chunks_ok (started_calls st) (c # cs)" "identity_map st"
  shows "\<exists>st' txt'. chunks_ok (started_calls st') cs \<and> identity_map st'
    \<and> relay_payloads (map json_stringify (toChunkObjects now rid model c first) @ ps) st (out, None, False, t)
      = relay_payloads ps st' (out @ [c], None, False, txt')"
proof -
  note plain = chunk_objects_plain [of _ now rid model c first]
  show ?thesis
  proof (cases c)
    case (TextDelta d)
    with assms plain show ?thesis
      by (auto simp: chunk_payload handle_text)
  next
    case (ToolCallStart i cid name)
    with assms handle_start [of st i now rid model first cid name] obtain st' where
      "handle (hd (toChunkObjects now rid model c first)) st = ([c], st')" "identity_map st'"
      "started_calls st' = insert i (started_calls st)"
      by auto
    with ToolCallStart assms plain show ?thesis
      by (intro exI [of _ st'] exI [of _ t]) (simp add: chunk_payload)
  next
    case (ToolCallDelta i args)
    with assms handle_args [of st args now rid model i] obtain st' where
      "handle (hd (toChunkObjects now rid model c first)) st = ([c], st')" "identity_map st'"
      "started_calls st' = started_calls st"
      by auto
    with ToolCallDelta assms plain show ?thesis
      by (intro exI [of _ st'] exI [of _ t]) (simp add: chunk_payload)
  qed (use assms in simp)
qed

lemma relay_body:
  assumes "chunks_ok (started_calls st) body" "identity_map st"
  shows "\<exists>st' t' m first'. relay_payloads (payloads (relay_frames clock rid model n first (body @ cs)) @ ps) st (out, None, False, t)
      = relay_payloads (payloads (relay_frames clock rid model m first' cs) @ ps) st' (out @ body, None, False, t')"
  using assms
proof (induction body arbitrary: st n first out t)
  case Nil
  then show ?case
    by auto
next
  case (Cons c body)
  obtain st1 t1 where one: "chunks_ok (started_calls st1) body" "identity_map st1"
    "relay_payloads (map json_stringify (toChunkObjects (clock n) rid model c first)
        @ (payloads (relay_frames clock rid model (Suc n) False (body @ cs)) @ ps)) st (out, None, False, t)
      = relay_payloads (payloads (relay_frames clock rid model (Suc n) False (body @ cs)) @ ps) st1 (out @ [c], None, False, t1)"
    using relay_one [OF Cons.prems] by blast
  with Cons.IH [OF one(1,2), of "Suc n" False "out @ [c]" t1] show ?case
    by simp
qed

lemma frames_ok: "list_all frame_ok (relay_frames clock rid model n first cs)"
proof (induction cs arbitrary: n first)
  case (Cons c cs)
  have "one_line (json_stringify obj)" if "obj \<in> set (toChunkObjects (clock n) rid model c first)" for obj
  proof -
    have "\<exists>rest. obj = chunk_object (clock n) rid model rest"
      using that by (cases c) (auto simp: Let_def split: option.splits)
    then have "hd (json_stringify obj) = CHR ''{''" "json_stringify obj \<noteq> []"
      by (auto simp: chunk_object_def)
    moreover have "nl \<notin> set (json_stringify obj)" "cr \<notin> set (json_stringify obj)"
      using stringify_line [OF chunk_objects_plain [OF that]] by (fastforce simp: nl_def cr_def char_code_def)+
    ultimately show ?thesis
      by (simp add: one_line_def is_space_def char_code_def)
  qed
  with Cons show ?case
    by (auto simp: list_all_iff)
qed simp

section \<open>Properties\<close>

text \<open>
  C8. A stream relayed by one gateway and read by another is the same stream: for a well-formed stream
  that ends with a finish and its usage, the frames the relay writes, with heartbeats anywhere between
  them and cut into network chunks anywhere, are read by the adapter as the same text and tool-call
  chunks in the same order, followed by one finish with the same reason (an \<open>error\<close> finish is written as
  \<open>stop\<close>) and the same usage, the cache writes counted as prompt.
\<close>

theorem relayed_stream_read_back:
  assumes "chunks_ok {} body" and "counts_ok u" and "list_all frame_ok fs"
    and "payloads fs = payloads (relay_frames clock rid model 0 True (body @ [Finish f (Some u)]) @ [DataFrame ''[DONE]''])"
    and "concat cs = concat (map render_frame fs)"
  shows "adapter_stream env (postSse [] cs, None) = (body @ [Finish (relabel f) (Some (folded_usage u))], None)"
proof -
  have new: "started_calls stream_state_new = {}" "identity_map stream_state_new"
    by (simp_all add: stream_state_new_def started_calls_def identity_map_def)
  have read: "postSse [] cs = payloads (relay_frames clock rid model 0 True (body @ [Finish f (Some u)])) @ [''[DONE]'']"
    using postSse_frames [OF assms(3,5)] assms(4) by (simp add: payloads_def)
  obtain st t m first where "relay_payloads (postSse [] cs) stream_state_new ([], None, False, [])
      = relay_payloads (payloads (relay_frames clock rid model m first [Finish f (Some u)]) @ [''[DONE]'']) st (body, None, False, t)"
    using relay_body [of stream_state_new body clock rid model 0 True "[Finish f (Some u)]" "[''[DONE]'']" "[]" "[]"] assms(1) new read
    by auto
  also have "\<dots> = (body @ [Finish (relabel f) (Some (folded_usage u))], Some (relabel f), True, t)"
    using chunk_objects_plain [of _ "clock m" rid model "Finish f (Some u)" first] assms(2)
    by (simp add: chunk_payload handle_finish handle_usage relay_done)
  finally show ?thesis
    by (simp add: adapter_stream_def)
qed

theorem relayed_stream_read_back_witness:
  "adapter_stream ex_call
     (postSse [] [concat (map render_frame (Heartbeat # relay_frames (\<lambda>_. 0) ''r'' ''m'' 0 True
        [TextDelta ''hi'', ToolCallStart 0 ''c'' ''f'', ToolCallDelta 0 ''{}'', Finish FToolCalls (Some EMPTY_USAGE)]
        @ [DataFrame ''[DONE]'']))], None)
   = ([TextDelta ''hi'', ToolCallStart 0 ''c'' ''f'', ToolCallDelta 0 ''{}'', Finish FToolCalls (Some EMPTY_USAGE)], None)"
proof -
  let ?body = "[TextDelta ''hi'', ToolCallStart 0 ''c'' ''f'', ToolCallDelta 0 ''{}'']"
  let ?data = "relay_frames (\<lambda>_. 0) ''r'' ''m'' 0 True (?body @ [Finish FToolCalls (Some EMPTY_USAGE)]) @ [DataFrame ''[DONE]'']"
  have ok: "chunks_ok {} ?body" "counts_ok EMPTY_USAGE" and usage: "folded_usage EMPTY_USAGE = EMPTY_USAGE"
    by (simp_all add: counts_ok_def EMPTY_USAGE_def folded_usage_def)
  have fs: "list_all frame_ok (Heartbeat # ?data)"
    using frames_ok [of "\<lambda>_. 0" "''r''" "''m''" 0 True "?body @ [Finish FToolCalls (Some EMPTY_USAGE)]"]
    by (simp add: one_line_def nl_def cr_def is_space_def char_code_def del: relay_frames.simps)
  have "payloads (Heartbeat # ?data) = payloads ?data" "concat [concat (map render_frame (Heartbeat # ?data))] = concat (map render_frame (Heartbeat # ?data))"
    by (simp_all only: payloads_simps concat.simps append_Nil2)
  from relayed_stream_read_back [OF ok fs this, of ex_call] usage show ?thesis
    by (simp only: append_Cons append_Nil relabel.simps)
qed

end
