(* ===== verification/Policy_Save.thy ===== *)
theory Policy_Save
  imports Audit_Log
begin

text \<open>
  Policy administration of \<^verbatim>\<open>src/src/policy/save.ts\<close>: the gate of a save, the save itself with its acknowledgements,
  cache invalidation and audit entry, export and import, and the two scans for bindings that are no longer
  right. An import arrives as the values its schema reads out of the file, or as the words of the first issue.
  Fresh ids and the clock are arguments. Calls run one after the other.
\<close>

section \<open>Saving\<close>

record admin_state =
  ad_db :: db
  ad_engine :: engine
  ad_audit :: "audit_row list"

record save_input =
  si_firmId :: string
  si_taskClassKey :: string
  si_defaultModel :: string
  si_allowed :: "string list option"
  si_fallback :: "string list option"
  si_maxTokensOverride :: "int option"
  si_temperatureMin :: "rat option"
  si_temperatureMax :: "rat option"
  si_monthlyBudgetCents :: "rat option"
  si_enabled :: "bool option"
  si_acknowledged :: "string list option"
  si_acknowledgedVia :: "string option"

text \<open>The capabilities a class asks of its models when it is configured.\<close>

definition config_needs :: "task_class_requires \<Rightarrow> capability list" where
  "config_needs req =
     (if nullish (req_tools req) False then [Cap_tools] else [])
     @ (if nullish (req_json_schema req) False then [Cap_json_schema] else [])
     @ (if nullish (req_vision req) False then [Cap_vision] else [])"

definition configTimeViolation :: "model_row \<Rightarrow> task_class_row \<Rightarrow> string option" where
  "configTimeViolation m tc =
     (if sensitivity tc = local_only \<and> \<not> isLocalKind (providerKind m)
      then Some (canonicalId m @ '': local_only class requires a local model (model is '' @ kind_name (providerKind m) @ '')'')
      else
        (let missing = missingCapabilities m (config_needs (classRequires tc))
         in if missing \<noteq> []
            then Some (canonicalId m @ '': missing capability '' @ join '', '' (map cap_name missing)) else None))"

definition save_ids :: "save_input \<Rightarrow> string list" where
  "save_ids i = si_defaultModel i # nullish (si_allowed i) [] @ nullish (si_fallback i) []"

definition by_canonical :: "db \<Rightarrow> string \<Rightarrow> model_row option" where
  "by_canonical d c = find_first (\<lambda>m. canonicalId m = c) (models d)"

definition retention_default :: string where
  "retention_default = ''retention terms are the upstream vendor'' @ [CHR 0x92] @ ''s''"

definition model_problems ::
    "task_class_row \<Rightarrow> db \<Rightarrow> string list \<Rightarrow> string \<Rightarrow> string list" where
  "model_problems tc d acknowledged c =
     (case by_canonical d c of
        None \<Rightarrow> [c @ '': not in catalog'']
      | Some m \<Rightarrow>
          (case configTimeViolation m tc of None \<Rightarrow> [] | Some v \<Rightarrow> [v])
          @ (if thirdPartyHosted m \<and> c \<notin> set acknowledged
             then [c @ '': third-party hosted '' @ em_dash @ '' '' @ nullish (retentionNote m) retention_default
                   @ '' (acknowledge it in acknowledgedModels to bind)'']
             else []))"

definition find_policy :: "string \<Rightarrow> string \<Rightarrow> db \<Rightarrow> policy_row option" where
  "find_policy firmId tcId d = find_first (\<lambda>p. pol_firmId p = firmId \<and> pol_taskClassId p = tcId) (policies d)"

definition find_class :: "string \<Rightarrow> db \<Rightarrow> task_class_row option" where
  "find_class key d = find_first (\<lambda>t. tcl_key t = key) (taskClasses d)"

definition acknowledged_before :: "policy_row option \<Rightarrow> string list" where
  "acknowledged_before existing = (case existing of None \<Rightarrow> [] | Some p \<Rightarrow> acknowledgedModels p)"

definition bound_flagged :: "db \<Rightarrow> save_input \<Rightarrow> string list" where
  "bound_flagged d i =
     filter (\<lambda>c. case by_canonical d c of None \<Rightarrow> False | Some m \<Rightarrow> thirdPartyHosted m) (dedupe (save_ids i))"

definition acknowledged_now :: "db \<Rightarrow> save_input \<Rightarrow> string list \<Rightarrow> string list" where
  "acknowledged_now d i acknowledged = sort (filter (\<lambda>c. c \<in> set acknowledged) (bound_flagged d i))"

definition newly_acknowledged :: "db \<Rightarrow> save_input \<Rightarrow> policy_row option \<Rightarrow> string list \<Rightarrow> string list" where
  "newly_acknowledged d i existing acknowledged =
     filter (\<lambda>c. c \<notin> set (acknowledged_before existing)) (acknowledged_now d i acknowledged)"

definition model_id :: "db \<Rightarrow> string \<Rightarrow> string" where
  "model_id d c = (case by_canonical d c of None \<Rightarrow> [] | Some m \<Rightarrow> mdl_id m)"

text \<open>The columns a save sets.\<close>

definition policy_values ::
    "int \<Rightarrow> db \<Rightarrow> save_input \<Rightarrow> policy_row option \<Rightarrow> string list \<Rightarrow> policy_row \<Rightarrow> policy_row" where
  "policy_values now d i existing acknowledged p =
     (let ackNow = acknowledged_now d i acknowledged
      in p\<lparr>defaultModelId := model_id d (si_defaultModel i),
           allowedModelIds := map (model_id d) (nullish (si_allowed i) []),
           fallbackChain := map (model_id d) (nullish (si_fallback i) []),
           maxTokensOverride := si_maxTokensOverride i, temperatureMin := si_temperatureMin i,
           temperatureMax := si_temperatureMax i, monthlyBudgetCents := si_monthlyBudgetCents i,
           enabled := nullish (si_enabled i) True, acknowledgedModels := ackNow,
           acknowledgedAt :=
             (if newly_acknowledged d i existing acknowledged \<noteq> [] then Some now
              else if ackNow \<noteq> [] then Some (nullish (Option.bind existing acknowledgedAt) now)
              else None)\<rparr>)"

definition blank_policy :: "string \<Rightarrow> string \<Rightarrow> string \<Rightarrow> policy_row" where
  "blank_policy i firmId tcId =
     \<lparr>pol_id = i, pol_firmId = firmId, pol_taskClassId = tcId, defaultModelId = [], allowedModelIds = [], fallbackChain = [],
      maxTokensOverride = None, temperatureMin = None, temperatureMax = None, monthlyBudgetCents = None, enabled = True,
      acknowledgedModels = [], acknowledgedAt = None\<rparr>"

definition num_or_null :: "int option \<Rightarrow> json" where
  "num_or_null x = (case x of None \<Rightarrow> JNull | Some n \<Rightarrow> JNum (of_int n))"

definition policy_entry :: "task_class_row \<Rightarrow> string \<Rightarrow> db \<Rightarrow> save_input \<Rightarrow> policy_row option \<Rightarrow> string list \<Rightarrow> audit_entry" where
  "policy_entry tc pid d i existing acknowledged =
     (let newly = newly_acknowledged d i existing acknowledged
      in \<lparr>ae_firmId = si_firmId i, ae_event = ''config_change'', ae_app = None, ae_taskClass = Some (tcl_key tc),
          ae_model = None, ae_provider = None, ae_requestHash = None,
          ae_detail =
            [(''entity'', JStr ''policy''), (''entityId'', JStr pid),
             (''action'', JStr (if existing \<noteq> None then ''update'' else ''create''))]
            @ (case existing of
                 None \<Rightarrow> []
               | Some p \<Rightarrow> [(''before'', JObj [(''defaultModelId'', JStr (defaultModelId p)), (''enabled'', JBool (enabled p)),
                                          (''maxTokensOverride'', num_or_null (maxTokensOverride p))])])
            @ [(''after'', JObj
                 ([(''defaultModel'', JStr (si_defaultModel i)), (''allowed'', JStr (join '','' (nullish (si_allowed i) []))),
                   (''fallback'', JStr (join '','' (nullish (si_fallback i) []))), (''enabled'', JBool (nullish (si_enabled i) True))]
                  @ (if bound_flagged d i \<noteq> []
                     then [(''acknowledgedThirdParty'', JStr (join '','' (acknowledged_now d i acknowledged)))] else [])
                  @ (if newly \<noteq> []
                     then [(''newlyAcknowledged'', JStr (join '','' newly)),
                           (''acknowledgedVia'', JStr (nullish (si_acknowledgedVia i) ''console''))] else [])))]\<rparr>)"

definition rejected :: "string list \<Rightarrow> router_error" where
  "rejected problems =
     RouterError invalid_request (''policy rejected: '' @ join ''; '' problems)
       (Some [(''problems'', JArr (map JStr problems))]) None"

definition store_policy :: "int \<Rightarrow> string \<Rightarrow> save_input \<Rightarrow> task_class_row \<Rightarrow> policy_row option \<Rightarrow> string list \<Rightarrow> db \<Rightarrow> db" where
  "store_policy now fresh i tc existing acknowledged d =
     (case existing of
        Some old \<Rightarrow>
          d\<lparr>policies := map (\<lambda>p. if pol_id p = pol_id old then policy_values now d i existing acknowledged p else p) (policies d)\<rparr>
      | None \<Rightarrow>
          d\<lparr>policies := policies d @ [policy_values now d i existing acknowledged (blank_policy fresh (si_firmId i) (tcl_id tc))]\<rparr>)"

definition savePolicy ::
    "int \<Rightarrow> string \<Rightarrow> save_input \<Rightarrow> admin_state \<Rightarrow> (thrown, string) result \<times> admin_state" where
  "savePolicy now fresh i st =
     (let d = ad_db st
      in case find_class (si_taskClassKey i) d of
           None \<Rightarrow> (Inl (Routed (router_error0 invalid_request (''unknown task class: '' @ si_taskClassKey i))), st)
         | Some tc \<Rightarrow>
             (let existing = find_policy (si_firmId i) (tcl_id tc) d;
                  acknowledged = acknowledged_before existing @ nullish (si_acknowledged i) [];
                  problems = concat (map (model_problems tc d acknowledged) (dedupe (save_ids i)))
              in if problems \<noteq> [] then (Inl (Routed (rejected problems)), st)
                 else
                   (let pid = (case existing of Some p \<Rightarrow> pol_id p | None \<Rightarrow> fresh);
                        d1 = store_policy now fresh i tc existing acknowledged d;
                        (out, rows) = writeAudit EVENT_SCHEMAS now None (policy_entry tc pid d i existing acknowledged) (ad_audit st)
                    in (rbind out (\<lambda>_. Inr pid),
                        st\<lparr>ad_db := d1, ad_engine := invalidate (Some (si_firmId i)) (ad_engine st), ad_audit := rows\<rparr>))))"

section \<open>Export and import\<close>

record export_class =
  xc_key :: string
  xc_app :: string
  xc_description :: string
  xc_sensitivity :: sensitivity_level
  xc_requires :: "task_class_requires option"
  xc_defaultMaxTokens :: int

record export_policy =
  xp_taskClassKey :: string
  xp_defaultModel :: string
  xp_allowedModels :: "string list"
  xp_fallbackChain :: "string list"
  xp_maxTokensOverride :: "int option"
  xp_temperatureMin :: "rat option"
  xp_temperatureMax :: "rat option"
  xp_monthlyBudgetCents :: "rat option"
  xp_enabled :: bool
  xp_acknowledgedModels :: "string list"

record policy_export =
  px_taskClasses :: "export_class list"
  px_policies :: "export_policy list"

definition canonical_of :: "db \<Rightarrow> string \<Rightarrow> string" where
  "canonical_of d i = (case find_first (\<lambda>m. mdl_id m = i) (models d) of None \<Rightarrow> ''unknown'' | Some m \<Rightarrow> canonicalId m)"

definition class_by_id :: "db \<Rightarrow> string \<Rightarrow> task_class_row option" where
  "class_by_id d i = find_first (\<lambda>t. tcl_id t = i) (taskClasses d)"

definition export_class_of :: "task_class_row \<Rightarrow> export_class" where
  "export_class_of c =
     \<lparr>xc_key = tcl_key c, xc_app = tcl_app c, xc_description = tcl_description c, xc_sensitivity = sensitivity c,
      xc_requires = requires c, xc_defaultMaxTokens = defaultMaxTokens c\<rparr>"

definition export_policy_of :: "db \<Rightarrow> policy_row \<Rightarrow> export_policy option" where
  "export_policy_of d p =
     (case class_by_id d (pol_taskClassId p) of
        None \<Rightarrow> None
      | Some c \<Rightarrow>
          Some \<lparr>xp_taskClassKey = tcl_key c, xp_defaultModel = canonical_of d (defaultModelId p),
                xp_allowedModels = map (canonical_of d) (allowedModelIds p),
                xp_fallbackChain = map (canonical_of d) (fallbackChain p), xp_maxTokensOverride = maxTokensOverride p,
                xp_temperatureMin = temperatureMin p, xp_temperatureMax = temperatureMax p,
                xp_monthlyBudgetCents = monthlyBudgetCents p, xp_enabled = enabled p,
                xp_acknowledgedModels = acknowledgedModels p\<rparr>)"

definition exportPolicies :: "db \<Rightarrow> string \<Rightarrow> (router_error, policy_export) result" where
  "exportPolicies d firmId =
     (case find_first (\<lambda>f. firm_id f = firmId) (firms d) of
        None \<Rightarrow> Inl (router_error0 invalid_request ''firm not found'')
      | Some _ \<Rightarrow>
          Inr \<lparr>px_taskClasses = map export_class_of (sort_key tcl_key (taskClasses d)),
               px_policies = List.map_filter (export_policy_of d) (filter (\<lambda>p. pol_firmId p = firmId) (policies d))\<rparr>)"

fun sensitivity_order :: "sensitivity_level \<Rightarrow> nat" where
  "sensitivity_order local_only = 0"
| "sensitivity_order cloud_deidentified = 1"
| "sensitivity_order cloud_allowed = 2"

definition import_class :: "string \<Rightarrow> export_class \<Rightarrow> db \<Rightarrow> db" where
  "import_class fresh c d =
     (case find_class (xc_key c) d of
        Some old \<Rightarrow>
          (let tighter = (if sensitivity_order (xc_sensitivity c) < sensitivity_order (sensitivity old)
                          then xc_sensitivity c else sensitivity old)
           in d\<lparr>taskClasses := map (\<lambda>t. if tcl_id t = tcl_id old
                  then t\<lparr>tcl_description := xc_description c, requires := xc_requires c,
                         defaultMaxTokens := xc_defaultMaxTokens c, sensitivity := tighter\<rparr> else t) (taskClasses d)\<rparr>)
      | None \<Rightarrow>
          d\<lparr>taskClasses := taskClasses d @
             [\<lparr>tcl_id = fresh, tcl_key = xc_key c, tcl_app = xc_app c, tcl_description = xc_description c,
               sensitivity = xc_sensitivity c, requires = xc_requires c, defaultMaxTokens = xc_defaultMaxTokens c,
               registeredByAppVersion = Some ''import''\<rparr>]\<rparr>)"

definition import_input :: "string \<Rightarrow> export_policy \<Rightarrow> save_input" where
  "import_input firmId p =
     \<lparr>si_firmId = firmId, si_taskClassKey = xp_taskClassKey p, si_defaultModel = xp_defaultModel p,
      si_allowed = Some (xp_allowedModels p), si_fallback = Some (xp_fallbackChain p),
      si_maxTokensOverride = xp_maxTokensOverride p, si_temperatureMin = xp_temperatureMin p,
      si_temperatureMax = xp_temperatureMax p, si_monthlyBudgetCents = xp_monthlyBudgetCents p,
      si_enabled = Some (xp_enabled p), si_acknowledged = Some (xp_acknowledgedModels p), si_acknowledgedVia = Some ''import''\<rparr>"

text \<open>The loops of an import; the ids the database would draw are the streams of an argument.\<close>

fun import_classes :: "(nat \<Rightarrow> string) \<Rightarrow> nat \<Rightarrow> export_class list \<Rightarrow> db \<Rightarrow> db" where
  "import_classes ids n [] d = d"
| "import_classes ids n (c # cs) d = import_classes ids (Suc n) cs (import_class (ids n) c d)"

fun import_saves ::
    "int \<Rightarrow> (nat \<Rightarrow> string) \<Rightarrow> string \<Rightarrow> nat \<Rightarrow> export_policy list \<Rightarrow> admin_state
      \<Rightarrow> (thrown, unit) result \<times> admin_state" where
  "import_saves now ids firmId n [] st = (Inr (), st)"
| "import_saves now ids firmId n (p # ps) st =
     (case savePolicy now (ids n) (import_input firmId p) st of
        (Inl t, st1) \<Rightarrow> (Inl t, st1)
      | (Inr _, st1) \<Rightarrow> import_saves now ids firmId (Suc n) ps st1)"

definition importPolicies ::
    "int \<Rightarrow> (nat \<Rightarrow> string) \<Rightarrow> (nat \<Rightarrow> string) \<Rightarrow> string \<Rightarrow> (string, policy_export) result \<Rightarrow> admin_state
      \<Rightarrow> (thrown, nat \<times> nat) result \<times> admin_state" where
  "importPolicies now classIds policyIds firmId parsed st =
     (case parsed of
        Inl issue \<Rightarrow> (Inl (Routed (router_error0 invalid_request (''invalid policy export: '' @ issue))), st)
      | Inr data \<Rightarrow>
          (let st1 = st\<lparr>ad_db := import_classes classIds 0 (px_taskClasses data) (ad_db st)\<rparr>
           in case import_saves now policyIds firmId 0 (px_policies data) st1 of
                (Inl t, st2) \<Rightarrow> (Inl t, st2)
              | (Inr _, st2) \<Rightarrow>
                  (Inr (length (px_taskClasses data), length (px_policies data)),
                   st2\<lparr>ad_engine := invalidate (Some firmId) (ad_engine st2)\<rparr>)))"

section \<open>Scans\<close>

definition policy_models :: "policy_row \<Rightarrow> string list" where
  "policy_models p = defaultModelId p # allowedModelIds p @ fallbackChain p"

record unacknowledged_binding =
  ub_firmId :: string
  ub_policyId :: string
  ub_taskClassKey :: string
  ub_models :: "string list"

definition flagged_canonical :: "db \<Rightarrow> string \<Rightarrow> string option" where
  "flagged_canonical d i =
     (case find_first (\<lambda>m. mdl_id m = i) (filter thirdPartyHosted (models d)) of
        None \<Rightarrow> None
      | Some m \<Rightarrow> if canonicalId m = [] then None else Some (canonicalId m))"

definition unacknowledged_models :: "db \<Rightarrow> policy_row \<Rightarrow> string list" where
  "unacknowledged_models d p =
     filter (\<lambda>c. c \<notin> set (acknowledgedModels p)) (dedupe (List.map_filter (flagged_canonical d) (policy_models p)))"

definition findUnacknowledgedThirdPartyBindings :: "db \<Rightarrow> unacknowledged_binding list" where
  "findUnacknowledgedThirdPartyBindings d =
     (if filter thirdPartyHosted (models d) = [] then []
      else List.map_filter (\<lambda>p.
             if unacknowledged_models d p = [] then None
             else Some \<lparr>ub_firmId = pol_firmId p, ub_policyId = pol_id p,
                        ub_taskClassKey = (case class_by_id d (pol_taskClassId p) of None \<Rightarrow> pol_taskClassId p | Some c \<Rightarrow> tcl_key c),
                        ub_models = unacknowledged_models d p\<rparr>) (policies d))"

record invalid_binding =
  ib_firmId :: string
  ib_policyId :: string
  ib_taskClassKey :: string
  ib_model :: string
  ib_reason :: string

definition invalid_models :: "db \<Rightarrow> policy_row \<Rightarrow> invalid_binding list" where
  "invalid_models d p =
     (case class_by_id d (pol_taskClassId p) of
        None \<Rightarrow> []
      | Some tc \<Rightarrow>
          List.map_filter (\<lambda>i.
            case find_first (\<lambda>m. mdl_id m = i) (models d) of
              None \<Rightarrow> None
            | Some m \<Rightarrow> map_option (\<lambda>r. \<lparr>ib_firmId = pol_firmId p, ib_policyId = pol_id p, ib_taskClassKey = tcl_key tc,
                           ib_model = canonicalId m, ib_reason = r\<rparr>) (configTimeViolation m tc)) (dedupe (policy_models p)))"

definition findInvalidBindings :: "db \<Rightarrow> invalid_binding list" where
  "findInvalidBindings d = concat (map (invalid_models d) (policies d))"

section \<open>The save gate\<close>

lemma policy_entry_parses:
  "\<exists>sch det. map_of EVENT_SCHEMAS ''config_change'' = Some sch
     \<and> parse_detail sch (ae_detail (policy_entry tc pid d i existing acknowledged)) = Some det"
  by (cases existing; cases "maxTokensOverride (the existing)")
    (simp_all add: EVENT_SCHEMAS_def catalog_schemas_def policy_entry_def num_or_null_def obj_get_def in_limit_def Let_def)

lemma save_audited:
  "\<exists>row. writeAudit EVENT_SCHEMAS now uid (policy_entry tc pid d i existing acknowledged) rows = (Inr (), rows @ [row])
     \<and> ar_event row = ''config_change'' \<and> ar_firmId row = si_firmId i"
  using policy_entry_parses [of tc pid d i existing acknowledged]
  by (auto simp: writeAudit_def policy_entry_def Let_def)

definition save_acknowledged :: "db \<Rightarrow> save_input \<Rightarrow> task_class_row \<Rightarrow> string list" where
  "save_acknowledged d i tc =
     acknowledged_before (find_policy (si_firmId i) (tcl_id tc) d) @ nullish (si_acknowledged i) []"

text \<open>The ways a save can go.\<close>

lemma savePolicy_cases:
  obtains (unknown) "find_class (si_taskClassKey i) (ad_db st) = None"
      "savePolicy now fresh i st = (Inl (Routed (router_error0 invalid_request (''unknown task class: '' @ si_taskClassKey i))), st)"
  | (refused) tc c where "find_class (si_taskClassKey i) (ad_db st) = Some tc" "c \<in> set (save_ids i)"
      "model_problems tc (ad_db st) (save_acknowledged (ad_db st) i tc) c \<noteq> []"
      "\<exists>problems. savePolicy now fresh i st = (Inl (Routed (rejected problems)), st)"
  | (saved) tc row where "find_class (si_taskClassKey i) (ad_db st) = Some tc"
      "\<And>c. c \<in> set (save_ids i) \<Longrightarrow> model_problems tc (ad_db st) (save_acknowledged (ad_db st) i tc) c = []"
      "ar_event row = ''config_change''" "ar_firmId row = si_firmId i"
      "savePolicy now fresh i st =
        (Inr (case find_policy (si_firmId i) (tcl_id tc) (ad_db st) of Some p \<Rightarrow> pol_id p | None \<Rightarrow> fresh),
         st\<lparr>ad_db := store_policy now fresh i tc (find_policy (si_firmId i) (tcl_id tc) (ad_db st))
                      (save_acknowledged (ad_db st) i tc) (ad_db st),
            ad_engine := invalidate (Some (si_firmId i)) (ad_engine st), ad_audit := ad_audit st @ [row]\<rparr>)"
proof (cases "find_class (si_taskClassKey i) (ad_db st)")
  case None
  then show ?thesis
    using unknown by (simp add: savePolicy_def Let_def)
next
  case (Some tc)
  let ?d = "ad_db st" and ?ex = "find_policy (si_firmId i) (tcl_id tc) (ad_db st)"
  let ?ps = "concat (map (model_problems tc ?d (save_acknowledged ?d i tc)) (dedupe (save_ids i)))"
  show ?thesis
  proof (cases "?ps = []")
    case False
    then have "savePolicy now fresh i st = (Inl (Routed (rejected ?ps)), st)"
      using Some by (simp add: savePolicy_def Let_def save_acknowledged_def)
    moreover from False obtain c where "c \<in> set (save_ids i)" "model_problems tc ?d (save_acknowledged ?d i tc) c \<noteq> []"
      by auto
    ultimately show ?thesis
      using refused Some by blast
  next
    case True
    define pid where "pid = (case ?ex of Some p \<Rightarrow> pol_id p | None \<Rightarrow> fresh)"
    obtain row where row:
      "writeAudit EVENT_SCHEMAS now None (policy_entry tc pid ?d i ?ex (save_acknowledged ?d i tc)) (ad_audit st)
        = (Inr (), ad_audit st @ [row])" "ar_event row = ''config_change''" "ar_firmId row = si_firmId i"
      using save_audited by blast
    have none: "model_problems tc ?d (save_acknowledged ?d i tc) c = []" if "c \<in> set (save_ids i)" for c
      using True that by simp
    have "savePolicy now fresh i st =
        (Inr pid, st\<lparr>ad_db := store_policy now fresh i tc ?ex (save_acknowledged ?d i tc) ?d,
            ad_engine := invalidate (Some (si_firmId i)) (ad_engine st), ad_audit := ad_audit st @ [row]\<rparr>)"
      using Some True row(1) unfolding savePolicy_def Let_def save_acknowledged_def pid_def
      by simp
    then show ?thesis
      using saved [OF Some none row(2,3)] unfolding pid_def by blast
  qed
qed

lemma problem_free:
  assumes "model_problems tc d acknowledged c = []"
  shows "\<exists>m. by_canonical d c = Some m \<and> m \<in> set (models d) \<and> canonicalId m = c \<and> model_id d c = mdl_id m
           \<and> configTimeViolation m tc = None \<and> (thirdPartyHosted m \<longrightarrow> c \<in> set acknowledged)"
proof (cases "by_canonical d c")
  case None
  with assms show ?thesis
    by (simp add: model_problems_def)
next
  case (Some m)
  moreover from this have "m \<in> set (models d)" "canonicalId m = c"
    unfolding by_canonical_def by (auto dest: find_first_Some)
  ultimately show ?thesis
    using assms by (auto simp: model_problems_def model_id_def split: option.splits if_splits)
qed

text \<open>The row a save leaves behind.\<close>

definition saved_row :: "int \<Rightarrow> string \<Rightarrow> save_input \<Rightarrow> task_class_row \<Rightarrow> policy_row option \<Rightarrow> string list \<Rightarrow> db \<Rightarrow> policy_row" where
  "saved_row now fresh i tc existing acknowledged d =
     policy_values now d i existing acknowledged
       (case existing of Some p \<Rightarrow> p | None \<Rightarrow> blank_policy fresh (si_firmId i) (tcl_id tc))"

lemma policy_values_columns [simp]:
  "pol_id (policy_values now d i ex ack p) = pol_id p"
  "pol_firmId (policy_values now d i ex ack p) = pol_firmId p"
  "pol_taskClassId (policy_values now d i ex ack p) = pol_taskClassId p"
  "enabled (policy_values now d i ex ack p) = nullish (si_enabled i) True"
  "defaultModelId (policy_values now d i ex ack p) = model_id d (si_defaultModel i)"
  "policy_models (policy_values now d i ex ack p) = map (model_id d) (save_ids i)"
  "acknowledgedModels (policy_values now d i ex ack p) = acknowledged_now d i ack"
  by (simp_all add: policy_values_def policy_models_def save_ids_def Let_def)

lemma find_policy_columns:
  "find_policy f t d = Some p \<Longrightarrow> p \<in> set (policies d) \<and> pol_firmId p = f \<and> pol_taskClassId p = t"
  unfolding find_policy_def by (auto dest: find_first_Some)

lemma saved_row_columns:
  assumes "ex = find_policy (si_firmId i) (tcl_id tc) d"
  shows "pol_id (saved_row now fresh i tc ex ack d) = (case ex of Some p \<Rightarrow> pol_id p | None \<Rightarrow> fresh)"
    and "pol_firmId (saved_row now fresh i tc ex ack d) = si_firmId i"
    and "pol_taskClassId (saved_row now fresh i tc ex ack d) = tcl_id tc"
    and "policy_models (saved_row now fresh i tc ex ack d) = map (model_id d) (save_ids i)"
    and "acknowledgedModels (saved_row now fresh i tc ex ack d) = acknowledged_now d i ack"
    and "enabled (saved_row now fresh i tc ex ack d) = nullish (si_enabled i) True"
  using assms find_policy_columns [of "si_firmId i" "tcl_id tc" d]
  by (auto simp: saved_row_def blank_policy_def split: option.splits)

lemma store_policy_row:
  assumes "ex = find_policy (si_firmId i) (tcl_id tc) d"
  shows "saved_row now fresh i tc ex ack d \<in> set (policies (store_policy now fresh i tc ex ack d))"
  using assms find_policy_columns [of "si_firmId i" "tcl_id tc" d]
  by (auto simp: store_policy_def saved_row_def split: option.splits)

lemma store_policy_others:
  "q \<in> set (policies (store_policy now fresh i tc ex ack d))
    \<Longrightarrow> pol_id q \<noteq> (case ex of Some p \<Rightarrow> pol_id p | None \<Rightarrow> fresh) \<Longrightarrow> q \<in> set (policies d)"
  by (auto simp: store_policy_def blank_policy_def split: option.splits if_splits)

lemma acknowledged_kept:
  "c \<in> set (save_ids i) \<Longrightarrow> by_canonical d c = Some m \<Longrightarrow> thirdPartyHosted m \<Longrightarrow> c \<in> set ack \<Longrightarrow> c \<in> set (acknowledged_now d i ack)"
  by (simp add: acknowledged_now_def bound_flagged_def)


section \<open>A saved policy in force\<close>

lemma store_policy_columns [simp]:
  "taskClasses (store_policy now fresh i tc ex ack d) = taskClasses d"
  "models (store_policy now fresh i tc ex ack d) = models d"
  by (simp_all add: store_policy_def split: option.splits)

lemma store_policy_found:
  assumes "ex = find_policy (si_firmId i) (tcl_id tc) d"
  shows "find_policy (si_firmId i) (tcl_id tc) (store_policy now fresh i tc ex ack d) = Some (saved_row now fresh i tc ex ack d)"
proof (cases ex)
  case None
  with assms show ?thesis
    by (simp add: store_policy_def find_policy_def find_first_append saved_row_def blank_policy_def)
next
  case (Some p)
  let ?g = "\<lambda>q. if pol_id q = pol_id p then policy_values now d i ex ack q else q"
  have "find_policy (si_firmId i) (tcl_id tc) (store_policy now fresh i tc ex ack d) = map_option ?g ex"
    unfolding store_policy_def find_policy_def assms Some [symmetric, unfolded assms]
    using Some assms by (simp add: find_policy_def find_first_map)
  with Some show ?thesis
    by (simp add: saved_row_def)
qed

lemma by_id_get_other:
  "k \<notin> mdl_id ` set rows \<Longrightarrow> map_get (fold (\<lambda>m. map_set (mdl_id m) m) rows acc) k = map_get acc k"
  by (induction rows arbitrary: acc) auto

lemma by_id_get:
  "m \<in> set rows \<Longrightarrow> distinct (map mdl_id rows) \<Longrightarrow> map_get (fold (\<lambda>m. map_set (mdl_id m) m) rows acc) (mdl_id m) = Some m"
  by (induction rows arbitrary: acc) (auto simp: by_id_get_other)

lemma resolve_saved:
  assumes tc: "find_class k d = Some tc" and pol: "find_policy f (tcl_id tc) d = Some p" "enabled p"
    and dm: "m \<in> set (models d)" "mdl_id m = defaultModelId p" and dist: "distinct (map mdl_id (models d))"
  shows "\<exists>eff. resolve_db d f k st = Inr eff \<and> ep_policy eff = p \<and> ep_taskClass eff = tc \<and> ep_defaultModel eff = m"
proof -
  let ?rows = "filter (\<lambda>m. mdl_id m \<in> set (dedupe (defaultModelId p # allowedModelIds p @ fallbackChain p))) (models d)"
  have "map_get (fold (\<lambda>m. map_set (mdl_id m) m) ?rows []) (mdl_id m) = Some m"
    by (rule by_id_get) (use dm dist in \<open>auto simp: distinct_map_filter\<close>)
  then show ?thesis
    using tc pol dm(2) unfolding find_class_def find_policy_def resolve_db_def by (simp add: Let_def)
qed

lemma invalidated_key:
  "CHR '':'' \<notin> set f \<Longrightarrow> f \<noteq> [] \<Longrightarrow> map_get (cache (invalidate (Some f) e)) (firm_key f k) = None"
  by (simp add: invalidate_def map_get_filter_keys starts_with_firm_key)

lemma resolve_uncached: "map_get (cache e) (firm_key f k) = None \<Longrightarrow> fst (resolve ttl d now f k st e) = resolve_db d f k st"
  by (simp add: resolve_def Let_def split: sum.splits)


section \<open>Imports\<close>

text \<open>From one database to another no class has gone, changed its id or become less restrictive.\<close>

definition classes_kept :: "db \<Rightarrow> db \<Rightarrow> bool" where
  "classes_kept d d' \<longleftrightarrow>
     (\<forall>k t. find_class k d = Some t \<longrightarrow>
        (\<exists>t'. find_class k d' = Some t' \<and> tcl_id t' = tcl_id t \<and> sensitivity_order (sensitivity t') \<le> sensitivity_order (sensitivity t)))"

lemma classes_kept_refl [simp]: "taskClasses d' = taskClasses d \<Longrightarrow> classes_kept d d'"
  by (auto simp: classes_kept_def find_class_def)

lemma classes_keptD:
  assumes "classes_kept d d'" "find_class k d = Some t"
  obtains t' where "find_class k d' = Some t'" "tcl_id t' = tcl_id t"
    "sensitivity_order (sensitivity t') \<le> sensitivity_order (sensitivity t)"
  using assms unfolding classes_kept_def by blast

lemma classes_kept_trans [trans]: "classes_kept d d1 \<Longrightarrow> classes_kept d1 d2 \<Longrightarrow> classes_kept d d2"
  by (subst classes_kept_def) (auto elim!: classes_keptD intro: order_trans)

definition class_ids :: "db \<Rightarrow> string list" where
  "class_ids d = map tcl_id (taskClasses d)"

lemma class_ids_import:
  "class_ids (import_class fresh c d) = (if find_class (xc_key c) d = None then class_ids d @ [fresh] else class_ids d)"
  by (auto simp: import_class_def class_ids_def Let_def split: option.splits)

lemma find_class_same_id:
  "find_class k d = Some t \<Longrightarrow> find_class k' d = Some t' \<Longrightarrow> distinct (class_ids d) \<Longrightarrow> tcl_id t = tcl_id t' \<Longrightarrow> t = t'"
  unfolding find_class_def class_ids_def
  by (metis (no_types, lifting) distinct_map find_first_Some inj_onD)

lemma import_class_old:
  assumes old: "find_class (xc_key c) d = Some old"
  shows "find_class k (import_class fresh c d) = map_option (\<lambda>t. if tcl_id t = tcl_id old
           then t\<lparr>tcl_description := xc_description c, requires := xc_requires c, defaultMaxTokens := xc_defaultMaxTokens c,
                  sensitivity := (if sensitivity_order (xc_sensitivity c) < sensitivity_order (sensitivity old)
                                  then xc_sensitivity c else sensitivity old)\<rparr> else t) (find_class k d)"
  unfolding import_class_def old Let_def option.case by (simp add: find_class_def find_first_map)

lemma import_class_new:
  assumes "find_class (xc_key c) d = None"
  shows "find_class k (import_class fresh c d) =
     (if k = xc_key c then Some \<lparr>tcl_id = fresh, tcl_key = xc_key c, tcl_app = xc_app c, tcl_description = xc_description c,
               sensitivity = xc_sensitivity c, requires = xc_requires c, defaultMaxTokens = xc_defaultMaxTokens c,
               registeredByAppVersion = Some ''import''\<rparr> else find_class k d)"
  using assms unfolding import_class_def by (auto simp: find_class_def find_first_append split: option.splits)

lemma import_class_kept:
  assumes "distinct (class_ids d)"
  shows "classes_kept d (import_class fresh c d)
    \<and> (\<exists>t. find_class (xc_key c) (import_class fresh c d) = Some t
         \<and> sensitivity_order (sensitivity t) \<le> sensitivity_order (xc_sensitivity c))"
proof (cases "find_class (xc_key c) d")
  case None
  then show ?thesis
    by (auto simp: classes_kept_def import_class_new)
next
  case (Some old)
  then show ?thesis
    using find_class_same_id [OF _ Some assms]
    by (fastforce simp: classes_kept_def import_class_old)
qed

lemma import_classes_kept:
  "distinct (class_ids d) \<Longrightarrow> inj ids \<Longrightarrow> \<forall>m\<ge>n. ids m \<notin> set (class_ids d) \<Longrightarrow>
    classes_kept d (import_classes ids n cs d)
    \<and> (\<forall>c\<in>set cs. \<exists>t. find_class (xc_key c) (import_classes ids n cs d) = Some t
         \<and> sensitivity_order (sensitivity t) \<le> sensitivity_order (xc_sensitivity c))"
proof (induction cs arbitrary: n d)
  case (Cons c cs)
  let ?d1 = "import_class (ids n) c d"
  have fresh: "\<forall>m\<ge>Suc n. ids m \<notin> set (class_ids ?d1)" "distinct (class_ids ?d1)"
    using Cons.prems by (auto simp: class_ids_import dest!: injD [OF Cons.prems(2)])
  note one = import_class_kept [OF Cons.prems(1), of "ids n" c]
  note rest = Cons.IH [OF fresh(2) Cons.prems(2) fresh(1)]
  from one obtain t where "find_class (xc_key c) ?d1 = Some t" "sensitivity_order (sensitivity t) \<le> sensitivity_order (xc_sensitivity c)"
    by blast
  with rest have "\<exists>t. find_class (xc_key c) (import_classes ids n (c # cs) d) = Some t
      \<and> sensitivity_order (sensitivity t) \<le> sensitivity_order (xc_sensitivity c)"
    by (auto elim!: classes_keptD [where d = ?d1] intro: order_trans)
  moreover have "classes_kept d (import_classes ids n (c # cs) d)"
    using classes_kept_trans one rest by auto
  ultimately show ?case
    using rest by simp
qed simp

lemma savePolicy_classes: "taskClasses (ad_db (snd (savePolicy now fresh i st))) = taskClasses (ad_db st)"
  by (cases rule: savePolicy_cases [of i st now fresh]) auto

lemma savePolicy_cache:
  assumes "CHR '':'' \<notin> set (si_firmId i)" "si_firmId i \<noteq> []" "CHR '':'' \<notin> set g" "g \<noteq> si_firmId i"
  shows "map_get (cache (ad_engine (snd (savePolicy now fresh i st)))) (firm_key g k) = map_get (cache (ad_engine st)) (firm_key g k)"
  by (cases rule: savePolicy_cases [of i st now fresh])
    (use assms in \<open>auto simp: invalidate_def map_get_filter_keys starts_with_firm_key\<close>)

lemma import_saves_classes:
  "taskClasses (ad_db (snd (import_saves now ids f n ps st))) = taskClasses (ad_db st)"
proof (induction ps arbitrary: n st)
  case (Cons p ps)
  then show ?case
    using savePolicy_classes [of now "ids n" "import_input f p" st] by (auto split: prod.splits sum.splits)
qed simp

lemma import_saves_cache:
  assumes "CHR '':'' \<notin> set f" "f \<noteq> []" "CHR '':'' \<notin> set g" "g \<noteq> f"
  shows "map_get (cache (ad_engine (snd (import_saves now ids f n ps st)))) (firm_key g k) = map_get (cache (ad_engine st)) (firm_key g k)"
proof (induction ps arbitrary: n st)
  case (Cons p ps)
  have "si_firmId (import_input f p) = f"
    by (simp add: import_input_def)
  with Cons assms show ?case
    using savePolicy_cache [of "import_input f p" g now "ids n" st k] by (auto split: prod.splits sum.splits)
qed simp

text \<open>
  C22. An import never relaxes a task class, whether it succeeds or stops half way: every class is still there
  under its key and id and at least as restrictive as before; and once the file has been read every class it
  names exists and is at least as restrictive as the file asks.
\<close>

theorem import_never_relaxes:
  assumes "distinct (class_ids (ad_db st))" "inj classIds" "\<forall>m. classIds m \<notin> set (class_ids (ad_db st))"
  shows "classes_kept (ad_db st) (ad_db (snd (importPolicies now classIds policyIds f parsed st)))
    \<and> (\<forall>data c. parsed = Inr data \<longrightarrow> c \<in> set (px_taskClasses data) \<longrightarrow>
         (\<exists>t. find_class (xc_key c) (ad_db (snd (importPolicies now classIds policyIds f parsed st))) = Some t
            \<and> sensitivity_order (sensitivity t) \<le> sensitivity_order (xc_sensitivity c)))"
proof (cases parsed)
  case (Inl issue)
  then show ?thesis
    by (simp add: importPolicies_def)
next
  case (Inr data)
  let ?d1 = "import_classes classIds 0 (px_taskClasses data) (ad_db st)"
  have same: "taskClasses (ad_db (snd (importPolicies now classIds policyIds f parsed st))) = taskClasses ?d1"
    using import_saves_classes [of now policyIds f 0 "px_policies data" "st\<lparr>ad_db := ?d1\<rparr>"] Inr
    by (auto simp: importPolicies_def Let_def split: prod.splits sum.splits)
  then have "find_class k (ad_db (snd (importPolicies now classIds policyIds f parsed st))) = find_class k ?d1" for k
    by (simp add: find_class_def)
  then show ?thesis
    using import_classes_kept [of "ad_db st" classIds 0 "px_taskClasses data"] assms Inr
    by (auto simp: classes_kept_def)
qed

text \<open>
  An import takes effect late for the other firms: task classes are shared by all firms, but only the importing firm's
  resolved policies are dropped from the cache, so another firm whose policy is cached is served with
  the class as it was (with its old sensitivity) until the entry expires, whatever the import changed.
\<close>

theorem import_stale_for_other_firms:
  assumes "CHR '':'' \<notin> set f" "f \<noteq> []" "CHR '':'' \<notin> set g" "g \<noteq> f"
    and cached: "map_get (cache (ad_engine st)) (firm_key g k) = Some (eff, expires)" "later < expires"
  shows "let st' = snd (importPolicies now classIds policyIds f parsed st)
         in fst (resolve ttl (ad_db st') later g k fs (ad_engine st')) = Inr eff"
proof -
  let ?st' = "snd (importPolicies now classIds policyIds f parsed st)"
  have keeps: "map_get (cache (invalidate (Some f) e)) (firm_key g k) = map_get (cache e) (firm_key g k)" for e
    using assms by (simp add: invalidate_def map_get_filter_keys starts_with_firm_key)
  have "map_get (cache (ad_engine ?st')) (firm_key g k) = Some (eff, expires)"
  proof (cases parsed)
    case (Inr data)
    then show ?thesis
      using import_saves_cache [OF assms(1-4), of now policyIds 0 "px_policies data"
          "st\<lparr>ad_db := import_classes classIds 0 (px_taskClasses data) (ad_db st)\<rparr>" k] cached(1) keeps
      by (auto simp: importPolicies_def Let_def split: prod.splits sum.splits)
  qed (simp add: importPolicies_def cached(1))
  then show ?thesis
    using cached(2) by (simp add: resolve_def Let_def)
qed

section \<open>A concrete console\<close>

definition ex_hosted :: model_row where
  "ex_hosted = ex_cloud_vision\<lparr>thirdPartyHosted := True\<rparr>"

definition ex_admin :: admin_state where
  "ex_admin = \<lparr>ad_db = example_db\<lparr>models := [example_model, ex_hosted], taskClasses := [ex_task_class]\<rparr>,
     ad_engine = engine_new\<lparr>cache := [(firm_key ''f2'' ''doc_read'', (ex_eff, 100))]\<rparr>, ad_audit = []\<rparr>"

definition ex_save :: "string list option \<Rightarrow> save_input" where
  "ex_save ack = \<lparr>si_firmId = ''f1'', si_taskClassKey = ''doc_read'', si_defaultModel = ''openai/gpt'', si_allowed = Some [''anthropic/v''],
     si_fallback = None, si_maxTokensOverride = None, si_temperatureMin = None, si_temperatureMax = None,
     si_monthlyBudgetCents = None, si_enabled = None, si_acknowledged = ack, si_acknowledgedVia = None\<rparr>"

lemmas ex_save_eval = ex_save_def ex_admin_def ex_hosted_def ex_defs example_db_def find_class_def find_policy_def save_ids_def
  dedupe_def model_problems_def by_canonical_def configTimeViolation_def config_needs_def missingCapabilities_def classRequires_def
  no_requires_def save_acknowledged_def acknowledged_before_def

lemma ex_no_problems:
  "c \<in> set (save_ids (ex_save (Some [''anthropic/v''])))
    \<Longrightarrow> model_problems ex_task_class (ad_db ex_admin) (save_acknowledged (ad_db ex_admin) (ex_save (Some [''anthropic/v''])) ex_task_class) c = []"
  by (auto simp: ex_save_eval)

lemma ex_saved: "\<exists>st'. savePolicy 5 ''p9'' (ex_save (Some [''anthropic/v''])) ex_admin = (Inr ''p1'', st')"
proof (cases rule: savePolicy_cases [of "ex_save (Some [''anthropic/v''])" ex_admin 5 "''p9''"])
  case (saved tc row)
  from saved(1) have tc: "tc = ex_task_class"
    by (simp add: ex_save_eval)
  have "find_policy (si_firmId (ex_save (Some [''anthropic/v'']))) (tcl_id tc) (ad_db ex_admin) = Some example_policy"
    unfolding tc by (simp add: ex_save_eval)
  then show ?thesis
    unfolding saved(5) by (simp add: example_policy_def)
next
  case (refused tc c)
  moreover from refused(1) have "tc = ex_task_class"
    by (simp add: ex_save_eval)
  ultimately show ?thesis
    using ex_no_problems by blast
qed (simp add: ex_save_eval)



definition ex_import :: policy_export where
  "ex_import = \<lparr>px_taskClasses = [(export_class_of ex_task_class)\<lparr>xc_sensitivity := local_only\<rparr>], px_policies = []\<rparr>"

theorem import_never_relaxes_witness:
  "\<exists>t. find_class ''doc_read'' (ad_db (snd (importPolicies 5 (\<lambda>n. replicate n CHR ''c'') (\<lambda>n. replicate n CHR ''p'') ''f1''
      (Inr ex_import) ex_admin))) = Some t \<and> sensitivity t = local_only"
proof -
  have ids: "distinct (class_ids (ad_db ex_admin))" "inj (\<lambda>n. replicate n CHR ''c'')"
    "\<forall>n. replicate n CHR ''c'' \<notin> set (class_ids (ad_db ex_admin))"
    by (auto simp: ex_save_eval class_ids_def inj_def replicate_eq_replicate set_replicate_conv_if
      dest!: arg_cong [where f = set] split: if_splits)
  have "xc_key (export_class_of ex_task_class) = ''doc_read''"
    by (simp add: export_class_of_def ex_task_class_def)
  with import_never_relaxes [OF ids, of 5 "\<lambda>n. replicate n CHR ''p''" "''f1''" "Inr ex_import"] obtain t where
    "find_class ''doc_read'' (ad_db (snd (importPolicies 5 (\<lambda>n. replicate n CHR ''c'') (\<lambda>n. replicate n CHR ''p'') ''f1''
      (Inr ex_import) ex_admin))) = Some t" "sensitivity_order (sensitivity t) \<le> 0"
    by (auto simp: ex_import_def)
  then show ?thesis
    by (cases "sensitivity t") auto
qed

theorem import_stale_for_other_firms_witness:
  "let st' = snd (importPolicies 5 (\<lambda>n. replicate n CHR ''c'') (\<lambda>n. replicate n CHR ''p'') ''f1'' (Inr ex_import) ex_admin)
   in fst (resolve 30000 (ad_db st') 6 ''f2'' ''doc_read'' default_firm_settings (ad_engine st')) = Inr ex_eff
     \<and> sensitivity (ep_taskClass ex_eff) = cloud_allowed"
proof -
  have "CHR '':'' \<notin> set ''f1''" "''f1'' \<noteq> []" "CHR '':'' \<notin> set ''f2''" "''f2'' \<noteq> ''f1''"
    and "map_get (cache (ad_engine ex_admin)) (firm_key ''f2'' ''doc_read'') = Some (ex_eff, 100)" "(6::int) < 100"
    by (simp_all add: ex_admin_def map_get_def)
  from import_stale_for_other_firms [OF this, of 5 "\<lambda>n. replicate n CHR ''c''" "\<lambda>n. replicate n CHR ''p''" "Inr ex_import"
      30000 default_firm_settings] show ?thesis
    by (simp add: Let_def ex_eff_def ex_task_class_def)
qed

end
