(* ===== verification/Policy_Pack.thy ===== *)
theory Policy_Pack
  imports Policy_Save Pipeline
begin

text \<open>
  The default policy pack of \<^verbatim>\<open>src/src/policy/pack.ts\<close> and the registration of task classes by the applications
  (\<^verbatim>\<open>src/src/policy/registration.ts\<close>). \<open>Array.prototype.sort\<close> is a stable insertion sort; for a comparator that is not
  consistent the language leaves the order open, and no lemma here depends on it then. Fresh ids and the clock are arguments.
\<close>

section \<open>The pack\<close>

record pack_entry =
  pk_key :: string
  pk_app :: string
  pk_description :: string
  pk_sensitivity :: sensitivity_level
  pk_requires :: task_class_requires
  pk_defaultMaxTokens :: int
  pk_rationale :: string

definition pack_trial_balance :: "pack_entry list" where
  "pack_trial_balance =
     [\<lparr>pk_key = ''tb_classification'', pk_app = ''vibe-tb'',
       pk_description = ''Trial-balance account classification'',
       pk_sensitivity = local_only, pk_requires = no_requires\<lparr>req_json_schema := Some True\<rparr>, pk_defaultMaxTokens = 2048,
       pk_rationale = ''Full client GL account names/balances; highest volume; local tier is proven here.''\<rparr>,
      \<lparr>pk_key = ''tb_doc_extract'', pk_app = ''vibe-tb'',
       pk_description = ''Source-document field extraction'',
       pk_sensitivity = cloud_deidentified, pk_requires = no_requires\<lparr>req_json_schema := Some True, req_vision := Some True\<rparr>, pk_defaultMaxTokens = 4096,
       pk_rationale = ''Documents may carry TINs/account numbers '' @ em_dash @ '' scrubber must clear before cloud.''\<rparr>,
      \<lparr>pk_key = ''tb_research_summary'', pk_app = ''vibe-tb'',
       pk_description = ''Public-guidance research summarization'',
       pk_sensitivity = cloud_allowed, pk_requires = no_requires, pk_defaultMaxTokens = 8192,
       pk_rationale = ''Public authority text only; no client data enters the prompt by construction.''\<rparr>]"

definition pack_1099 :: "pack_entry list" where
  "pack_1099 =
     [\<lparr>pk_key = ''v1099_payee_match'', pk_app = ''vibe-1099'',
       pk_description = ''Vendor/payee record matching + dedupe assistance'',
       pk_sensitivity = local_only, pk_requires = no_requires\<lparr>req_json_schema := Some True\<rparr>, pk_defaultMaxTokens = 2048,
       pk_rationale = ''Payee names + partial TINs are inherently identifying; must stay local.''\<rparr>,
      \<lparr>pk_key = ''v1099_w9_extract'', pk_app = ''vibe-1099'',
       pk_description = ''W-9 field extraction'',
       pk_sensitivity = local_only, pk_requires = no_requires\<lparr>req_json_schema := Some True, req_vision := Some True\<rparr>, pk_defaultMaxTokens = 2048,
       pk_rationale = ''W-9s contain full TINs by definition '' @ em_dash @ '' scrubbing would destroy the payload.''\<rparr>,
      \<lparr>pk_key = ''v1099_correspondence'', pk_app = ''vibe-1099'',
       pk_description = ''Recipient correspondence drafting'',
       pk_sensitivity = cloud_deidentified, pk_requires = no_requires, pk_defaultMaxTokens = 2048,
       pk_rationale = ''Letter drafting benefits from stronger models; identifiers scrub cleanly.''\<rparr>]"

definition pack_mybooks :: "pack_entry list" where
  "pack_mybooks =
     [\<lparr>pk_key = ''mybooks_txn_categorize'', pk_app = ''vibe-mybooks'',
       pk_description = ''Bank transaction categorization'',
       pk_sensitivity = local_only, pk_requires = no_requires\<lparr>req_json_schema := Some True\<rparr>, pk_defaultMaxTokens = 2048,
       pk_rationale = ''Bank descriptors carry account fragments and payee identities; high volume.''\<rparr>,
      \<lparr>pk_key = ''mybooks_receipt_extract'', pk_app = ''vibe-mybooks'',
       pk_description = ''Receipt/invoice OCR field extraction'',
       pk_sensitivity = cloud_deidentified, pk_requires = no_requires\<lparr>req_json_schema := Some True, req_vision := Some True\<rparr>, pk_defaultMaxTokens = 4096,
       pk_rationale = ''Receipts rarely carry TINs; card numbers are Luhn-scrubbed before egress.''\<rparr>,
      \<lparr>pk_key = ''mybooks_bill_extract'', pk_app = ''vibe-mybooks'',
       pk_description = ''Vendor bill / invoice field extraction'',
       pk_sensitivity = local_only, pk_requires = no_requires\<lparr>req_json_schema := Some True, req_vision := Some True\<rparr>, pk_defaultMaxTokens = 4096,
       pk_rationale = ''Vendor bills carry account numbers and occasional TINs; local until reviewed.''\<rparr>,
      \<lparr>pk_key = ''mybooks_doc_classify'', pk_app = ''vibe-mybooks'',
       pk_description = ''Uploaded-document type classification'',
       pk_sensitivity = local_only, pk_requires = no_requires\<lparr>req_json_schema := Some True, req_vision := Some True\<rparr>, pk_defaultMaxTokens = 1024,
       pk_rationale = ''Classifier sees full statement/check images with account numbers throughout.''\<rparr>,
      \<lparr>pk_key = ''mybooks_statement_extract'', pk_app = ''vibe-mybooks'',
       pk_description = ''Bank-statement / check field extraction'',
       pk_sensitivity = local_only, pk_requires = no_requires\<lparr>req_json_schema := Some True, req_vision := Some True\<rparr>, pk_defaultMaxTokens = 32768,
       pk_rationale = ''Full bank statements + check reads: account numbers + transaction detail throughout.''\<rparr>,
      \<lparr>pk_key = ''mybooks_vendor_enrich'', pk_app = ''vibe-mybooks'',
       pk_description = ''Merchant / vendor enrichment'',
       pk_sensitivity = local_only, pk_requires = no_requires\<lparr>req_json_schema := Some True\<rparr>, pk_defaultMaxTokens = 1024,
       pk_rationale = ''Payee/merchant names are mildly identifying; local until reviewed for cloud.''\<rparr>,
      \<lparr>pk_key = ''mybooks_chat'', pk_app = ''vibe-mybooks'',
       pk_description = ''Bookkeeping assistant / support chat'',
       pk_sensitivity = local_only, pk_requires = no_requires, pk_defaultMaxTokens = 2048,
       pk_rationale = ''Assistant can surface live client ledger/company data; conservative default.''\<rparr>,
      \<lparr>pk_key = ''mybooks_report_narrative'', pk_app = ''vibe-mybooks'',
       pk_description = ''Client-facing report narration'',
       pk_sensitivity = local_only, pk_requires = no_requires, pk_defaultMaxTokens = 1024,
       pk_rationale = ''Narration names clients + financials; local until reviewed for cloud drafting.''\<rparr>]"

definition pack_other_apps :: "pack_entry list" where
  "pack_other_apps =
     [\<lparr>pk_key = ''payroll_anomaly_review'', pk_app = ''vibe-payroll-time'',
       pk_description = ''Payroll run anomaly detection narrative'',
       pk_sensitivity = local_only, pk_requires = no_requires\<lparr>req_json_schema := Some True\<rparr>, pk_defaultMaxTokens = 4096,
       pk_rationale = ''Wages + SSNs are the definition of local-only data.''\<rparr>,
      \<lparr>pk_key = ''taxresearch_chat'', pk_app = ''vibe-tax-research'',
       pk_description = ''Interactive tax research chat over public authority'',
       pk_sensitivity = cloud_allowed, pk_requires = no_requires\<lparr>req_tools := Some True\<rparr>, pk_defaultMaxTokens = 8192,
       pk_rationale = ''Public-guidance RAG; app-side prompt discipline keeps client facts out.''\<rparr>,
      \<lparr>pk_key = ''taxresearch_memo_draft'', pk_app = ''vibe-tax-research'',
       pk_description = ''Client memo drafting from research threads'',
       pk_sensitivity = cloud_deidentified, pk_requires = no_requires, pk_defaultMaxTokens = 8192,
       pk_rationale = ''Memos name clients/facts '' @ em_dash @ '' scrub before cloud drafting.''\<rparr>,
      \<lparr>pk_key = ''connect_doc_summarize'', pk_app = ''vibe-connect'',
       pk_description = ''Client-uploaded document summarization'',
       pk_sensitivity = local_only, pk_requires = no_requires, pk_defaultMaxTokens = 4096,
       pk_rationale = ''Uploads are arbitrary client documents '' @ em_dash @ '' assume identifying content.''\<rparr>,
      \<lparr>pk_key = ''txconv_statement_parse'', pk_app = ''vibe-tx-converter'',
       pk_description = ''Bank statement structure detection assistance'',
       pk_sensitivity = local_only, pk_requires = no_requires\<lparr>req_json_schema := Some True\<rparr>, pk_defaultMaxTokens = 32768,
       pk_rationale = ''Full statements: account numbers + transaction detail throughout.''\<rparr>]"

definition pack_time_billing :: "pack_entry list" where
  "pack_time_billing =
     [\<lparr>pk_key = ''tb_invoice_narrative'', pk_app = ''vibe-time-billing'',
       pk_description = ''Invoice line narrative polish'',
       pk_sensitivity = cloud_deidentified, pk_requires = no_requires, pk_defaultMaxTokens = 1024,
       pk_rationale = ''WIP narratives name clients/matters; scrub then draft.''\<rparr>,
      \<lparr>pk_key = ''timebill_practice_analytics'', pk_app = ''vibe-time-billing'',
       pk_description = ''Practice analytics narratives + NL query (realization, pricing, capacity, anomalies)'',
       pk_sensitivity = local_only, pk_requires = no_requires, pk_defaultMaxTokens = 600,
       pk_rationale = ''Runs over internal firm billing/practice metrics with client + engagement names.''\<rparr>,
      \<lparr>pk_key = ''timebill_support_chat'', pk_app = ''vibe-time-billing'',
       pk_description = ''KB-grounded staff/portal support chat + report parameter parsing'',
       pk_sensitivity = local_only, pk_requires = no_requires, pk_defaultMaxTokens = 1024,
       pk_rationale = ''Assistant grounds on internal KB and can surface firm data; conservative default.''\<rparr>,
      \<lparr>pk_key = ''timebill_file_naming'', pk_app = ''vibe-time-billing'',
       pk_description = ''Filename proposal from an uploaded document'' @ [CHR 0x92] @ ''s first pages (firm naming pattern)'',
       pk_sensitivity = cloud_deidentified, pk_requires = no_requires\<lparr>req_vision := Some True, req_json_schema := Some True\<rparr>, pk_defaultMaxTokens = 300,
       pk_rationale = ''Filename proposal has receipt-extract-grade exposure; text scrubbed, images pass as-is (Q-087).''\<rparr>]"

definition DEFAULT_PACK :: "pack_entry list" where
  "DEFAULT_PACK = pack_trial_balance @ pack_1099 @ pack_mybooks @ pack_other_apps @ pack_time_billing"

section \<open>Choosing a model\<close>

fun sort_insert :: "('a \<Rightarrow> 'a \<Rightarrow> int) \<Rightarrow> 'a \<Rightarrow> 'a list \<Rightarrow> 'a list" where
  "sort_insert cmp x [] = [x]"
| "sort_insert cmp x (y # ys) = (if cmp x y < 0 then x # y # ys else y # sort_insert cmp x ys)"

definition js_sort :: "('a \<Rightarrow> 'a \<Rightarrow> int) \<Rightarrow> 'a list \<Rightarrow> 'a list" where
  "js_sort cmp xs = fold (sort_insert cmp) xs []"

definition pack_capable :: "pack_entry \<Rightarrow> provider_kind list \<Rightarrow> model_row \<Rightarrow> bool" where
  "pack_capable e availableKinds m =
     (mdl_status m = MActive \<and> providerKind m \<in> set availableKinds \<and> \<not> thirdPartyHosted m
      \<and> \<not> (nullish (req_tools (pk_requires e)) False \<and> \<not> effectiveCapability m Cap_tools)
      \<and> \<not> (nullish (req_json_schema (pk_requires e)) False \<and> \<not> effectiveCapability m Cap_json_schema)
      \<and> \<not> (nullish (req_vision (pk_requires e)) False \<and> \<not> effectiveCapability m Cap_vision))"

definition pack_order :: "model_row \<Rightarrow> model_row \<Rightarrow> int" where
  "pack_order a b =
     (if mdl_source a \<noteq> mdl_source b then if mdl_source a = SrcCustom then -1 else 1
      else contextWindow b - contextWindow a)"

definition pick :: "model_row list \<Rightarrow> model_row option" where
  "pick xs = (case js_sort pack_order xs of [] \<Rightarrow> None | m # _ \<Rightarrow> Some m)"

definition pickDefaultModel :: "model_row list \<Rightarrow> pack_entry \<Rightarrow> provider_kind list \<Rightarrow> model_row option" where
  "pickDefaultModel entries e availableKinds =
     (let capable = filter (pack_capable e availableKinds) entries;
          pool = (if pk_sensitivity e = local_only then filter (\<lambda>m. isLocalKind (providerKind m)) capable else capable);
          locals = filter (\<lambda>m. isLocalKind (providerKind m)) pool
      in case pick locals of Some m \<Rightarrow> Some m | None \<Rightarrow> pick pool)"

section \<open>Applying the pack\<close>

record pack_result =
  classesCreated :: nat
  policiesCreated :: nat
  unresolved :: "string list"

definition pack_class :: "string \<Rightarrow> pack_entry \<Rightarrow> task_class_row" where
  "pack_class fresh e =
     \<lparr>tcl_id = fresh, tcl_key = pk_key e, tcl_app = pk_app e, tcl_description = pk_description e,
      sensitivity = pk_sensitivity e, requires = Some (pk_requires e), defaultMaxTokens = pk_defaultMaxTokens e,
      registeredByAppVersion = Some ''default-pack''\<rparr>"

definition pack_policy :: "string \<Rightarrow> string \<Rightarrow> string \<Rightarrow> model_row \<Rightarrow> policy_row" where
  "pack_policy fresh firmId tcId m =
     (blank_policy fresh firmId tcId)\<lparr>defaultModelId := mdl_id m, allowedModelIds := [mdl_id m], fallbackChain := []\<rparr>"

definition ensure_class :: "string \<Rightarrow> pack_entry \<Rightarrow> db \<Rightarrow> task_class_row \<times> bool \<times> db" where
  "ensure_class fresh e d =
     (case find_class (pk_key e) d of
        Some tc \<Rightarrow> (tc, False, d)
      | None \<Rightarrow> (pack_class fresh e, True, d\<lparr>taskClasses := taskClasses d @ [pack_class fresh e]\<rparr>))"

definition apply_entry ::
    "string \<Rightarrow> string \<Rightarrow> string \<Rightarrow> model_row list \<Rightarrow> provider_kind list \<Rightarrow> pack_entry \<Rightarrow> db \<times> pack_result \<Rightarrow> db \<times> pack_result" where
  "apply_entry classId policyId firmId allModels availableKinds e s =
     (let (d, r) = s;
          (tc, created, d1) = ensure_class classId e d;
          r1 = (if created then r\<lparr>classesCreated := classesCreated r + 1\<rparr> else r)
      in if find_policy firmId (tcl_id tc) d1 \<noteq> None then (d1, r1)
         else
           (case pickDefaultModel allModels e availableKinds of
              None \<Rightarrow> (d1, r1\<lparr>unresolved := unresolved r1 @ [pk_key e]\<rparr>)
            | Some m \<Rightarrow>
                (d1\<lparr>policies := policies d1 @ [pack_policy policyId firmId (tcl_id tc) m]\<rparr>,
                 r1\<lparr>policiesCreated := policiesCreated r1 + 1\<rparr>)))"

fun apply_entries ::
    "(nat \<Rightarrow> string) \<Rightarrow> (nat \<Rightarrow> string) \<Rightarrow> string \<Rightarrow> model_row list \<Rightarrow> provider_kind list \<Rightarrow> nat \<Rightarrow> pack_entry list
      \<Rightarrow> db \<times> pack_result \<Rightarrow> db \<times> pack_result" where
  "apply_entries cIds pIds firmId ms kinds n [] s = s"
| "apply_entries cIds pIds firmId ms kinds n (e # es) s =
     apply_entries cIds pIds firmId ms kinds (Suc n) es (apply_entry (cIds n) (pIds n) firmId ms kinds e s)"

definition configured_kinds :: "db \<Rightarrow> string \<Rightarrow> provider_kind list" where
  "configured_kinds d firmId =
     map prv_kind (filter (\<lambda>p. prv_firmId p = firmId \<and> prv_deletedAt p = None) (providers d))"

definition no_result :: pack_result where
  "no_result = \<lparr>classesCreated = 0, policiesCreated = 0, unresolved = []\<rparr>"

definition applyDefaultPack :: "(nat \<Rightarrow> string) \<Rightarrow> (nat \<Rightarrow> string) \<Rightarrow> string \<Rightarrow> db \<Rightarrow> db \<times> pack_result" where
  "applyDefaultPack cIds pIds firmId d =
     apply_entries cIds pIds firmId (models d) (configured_kinds d firmId) 0 DEFAULT_PACK (d, no_result)"

section \<open>Registration\<close>

record registered_class =
  rc_key :: string
  rc_description :: string
  rc_requires :: task_class_requires
  rc_defaultMaxTokens :: int

record registration =
  rg_app :: string
  rg_version :: string
  rg_classes :: "registered_class list"

definition z_min_string :: "string reader" where
  "z_min_string v = (case z_string v of Some s \<Rightarrow> if s = [] then None else Some s | None \<Rightarrow> None)"

definition class_key_char :: "char \<Rightarrow> bool" where
  "class_key_char c = ((CHR ''a'' \<le> c \<and> c \<le> CHR ''z'') \<or> (CHR ''0'' \<le> c \<and> c \<le> CHR ''9''))"

text \<open>\<open>/^[a-z0-9][a-z0-9_]*$/\<close>\<close>

definition z_class_key :: "string reader" where
  "z_class_key v =
     (case z_string v of
        Some (c # cs) \<Rightarrow> if class_key_char c \<and> list_all (\<lambda>x. class_key_char x \<or> x = CHR ''_'') cs then Some (c # cs) else None
      | _ \<Rightarrow> None)"

definition z_description :: "string reader" where
  "z_description v = (case z_string v of Some s \<Rightarrow> if length s \<le> 500 then Some s else None | None \<Rightarrow> None)"

definition requires_keys :: "string list" where
  "requires_keys = [''tools'', ''json_schema'', ''vision'', ''caching'', ''thinking_budget'']"

fun z_requires :: "task_class_requires reader" where
  "z_requires (JObj ms) =
     (if \<not> list_all (\<lambda>m. fst m \<in> set requires_keys) ms then None
      else
        (case (z_optional ''tools'' z_boolean (JObj ms), z_optional ''json_schema'' z_boolean (JObj ms),
               z_optional ''vision'' z_boolean (JObj ms), z_optional ''caching'' z_boolean (JObj ms),
               z_optional ''thinking_budget'' z_positive_int (JObj ms)) of
           (Some t, Some j, Some v, Some c, Some b) \<Rightarrow>
             Some (no_requires\<lparr>req_tools := t, req_json_schema := j, req_vision := v, req_caching := c, req_thinking_budget := b\<rparr>)
         | _ \<Rightarrow> None))"
| "z_requires _ = None"

definition z_max_tokens :: "int reader" where
  "z_max_tokens v = (case z_positive_int v of Some n \<Rightarrow> if n \<le> 200000 then Some n else None | None \<Rightarrow> None)"

definition registered_class_schema :: "registered_class reader" where
  "registered_class_schema v =
     (case (z_required ''key'' z_class_key v, z_optional ''description'' z_description v, z_optional ''requires'' z_requires v,
            z_optional ''defaultMaxTokens'' z_max_tokens v) of
        (Some k, Some d, Some r, Some n) \<Rightarrow>
          Some \<lparr>rc_key = k, rc_description = nullish d [], rc_requires = nullish r no_requires, rc_defaultMaxTokens = nullish n 1024\<rparr>
      | _ \<Rightarrow> None)"

definition registrationSchema :: "registration reader" where
  "registrationSchema v =
     (case (z_required ''app'' z_min_string v, z_required ''version'' z_min_string v,
            z_required ''classes'' (z_array registered_class_schema) v) of
        (Some a, Some ver, Some cs) \<Rightarrow>
          if 1 \<le> length cs \<and> length cs \<le> 50 then Some \<lparr>rg_app = a, rg_version = ver, rg_classes = cs\<rparr> else None
      | _ \<Rightarrow> None)"

definition pack_find :: "string \<Rightarrow> pack_entry option" where
  "pack_find key = find_first (\<lambda>p. pk_key p = key) DEFAULT_PACK"

definition pack_floor :: "registered_class \<Rightarrow> int" where
  "pack_floor c = max (rc_defaultMaxTokens c) (case pack_find (rc_key c) of None \<Rightarrow> 0 | Some p \<Rightarrow> pk_defaultMaxTokens p)"

definition register_class ::
    "string \<Rightarrow> registration \<Rightarrow> registered_class \<Rightarrow> db \<Rightarrow> (string \<times> bool \<times> sensitivity_level) \<times> db" where
  "register_class fresh body c d =
     (let stamp = Some (rg_app body @ ''@'' @ rg_version body)
      in case find_class (rc_key c) d of
           Some old \<Rightarrow>
             ((rc_key c, False, sensitivity old),
              d\<lparr>taskClasses := map (\<lambda>t. if tcl_id t = tcl_id old
                  then t\<lparr>tcl_description := (if rc_description c = [] then tcl_description old else rc_description c),
                         requires := Some (rc_requires c), defaultMaxTokens := pack_floor c, registeredByAppVersion := stamp\<rparr>
                  else t) (taskClasses d)\<rparr>)
         | None \<Rightarrow>
             (let level = (case pack_find (rc_key c) of None \<Rightarrow> local_only | Some p \<Rightarrow> pk_sensitivity p)
              in ((rc_key c, True, level),
                  d\<lparr>taskClasses := taskClasses d @
                     [\<lparr>tcl_id = fresh, tcl_key = rc_key c, tcl_app = rg_app body, tcl_description = rc_description c, sensitivity = level,
                       requires = Some (rc_requires c), defaultMaxTokens = pack_floor c, registeredByAppVersion = stamp\<rparr>]\<rparr>)))"

fun register_classes ::
    "(nat \<Rightarrow> string) \<Rightarrow> nat \<Rightarrow> registration \<Rightarrow> registered_class list \<Rightarrow> db \<Rightarrow> (string \<times> bool \<times> sensitivity_level) list \<times> db" where
  "register_classes ids n body [] d = ([], d)"
| "register_classes ids n body (c # cs) d =
     (let (r, d1) = register_class (ids n) body c d; (rs, d2) = register_classes ids (Suc n) body cs d1 in (r # rs, d2))"

text \<open>The bearer token of an \<open>Authorization\<close> header; the words of a schema's first issue are the argument \<open>issue\<close>.\<close>

definition bearer_of :: "string option \<Rightarrow> string option" where
  "bearer_of header =
     (case header of None \<Rightarrow> None | Some h \<Rightarrow> if starts_with ''Bearer '' h then Some (drop 7 h) else None)"

definition register_task_classes ::
    "(string \<Rightarrow> string) \<Rightarrow> (json \<Rightarrow> string) \<Rightarrow> (nat \<Rightarrow> string) \<Rightarrow> int \<Rightarrow> string option \<Rightarrow> json \<Rightarrow> admin_state
      \<Rightarrow> (router_error, (string \<times> bool \<times> sensitivity_level) list) result \<times> admin_state" where
  "register_task_classes sha256 issue ids now header raw st =
     (case authenticateAppToken sha256 (bearer_of header) now (ad_db st) of
        (Inl e, d) \<Rightarrow> (Inl e, st\<lparr>ad_db := d\<rparr>)
      | (Inr au, d) \<Rightarrow>
          (case registrationSchema raw of
             None \<Rightarrow> (Inl (router_error0 invalid_request (''invalid registration: '' @ issue raw)), st\<lparr>ad_db := d\<rparr>)
           | Some body \<Rightarrow>
               if rg_app body \<noteq> au_app au
               then (Inl (router_error0 auth_error (''token is for app '' @ au_app au @ '', not '' @ rg_app body)), st\<lparr>ad_db := d\<rparr>)
               else
                 (let (rs, d1) = register_classes ids 0 body (rg_classes body) d
                  in (Inr rs, st\<lparr>ad_db := d1, ad_engine := invalidate (Some (au_firmId au)) (ad_engine st)\<rparr>))))"

section \<open>Lemmas\<close>

lemma sort_insert_set [simp]: "set (sort_insert cmp x ys) = insert x (set ys)"
  by (induction ys) auto

lemma js_sort_set [simp]: "set (js_sort cmp xs) = set xs"
proof -
  have "set (fold (sort_insert cmp) xs acc) = set xs \<union> set acc" for acc
    by (induction xs arbitrary: acc) auto
  then show ?thesis
    by (simp add: js_sort_def)
qed

lemma js_sort_Nil [simp]: "js_sort cmp xs = [] \<longleftrightarrow> xs = []"
  by (metis js_sort_set set_empty)

text \<open>The head of a sorted list is a least element, when the comparator orders the elements.\<close>

definition comparison_on :: "'a set \<Rightarrow> ('a \<Rightarrow> 'a \<Rightarrow> int) \<Rightarrow> bool" where
  "comparison_on A cmp \<longleftrightarrow>
     (\<forall>x\<in>A. \<forall>y\<in>A. \<not> cmp x y < 0 \<longrightarrow> cmp y x \<le> 0) \<and> (\<forall>x\<in>A. cmp x x \<le> 0)
     \<and> (\<forall>x\<in>A. \<forall>y\<in>A. \<forall>z\<in>A. cmp x y \<le> 0 \<longrightarrow> cmp y z \<le> 0 \<longrightarrow> cmp x z \<le> 0)"

lemma sort_insert_least:
  assumes "comparison_on A cmp" "x \<in> A" "set (y # ys) \<subseteq> A" "\<forall>z\<in>set (y # ys). cmp y z \<le> 0"
  shows "\<forall>z\<in>set (sort_insert cmp x (y # ys)). cmp (hd (sort_insert cmp x (y # ys))) z \<le> 0"
proof (cases "cmp x y < 0")
  case True
  with assms have "cmp x z \<le> 0" if "z \<in> set (y # ys)" for z
    using that unfolding comparison_on_def by (metis less_imp_le list.set_intros(1) subset_iff)
  moreover have "cmp x x \<le> 0"
    using assms by (simp add: comparison_on_def)
  ultimately show ?thesis
    using True by auto
next
  case False
  with assms have "cmp y x \<le> 0"
    by (simp add: comparison_on_def)
  with False assms(4) show ?thesis
    by auto
qed

lemma js_sort_least:
  assumes "comparison_on (set xs) cmp" "js_sort cmp xs = m # rest"
  shows "m \<in> set xs \<and> (\<forall>z\<in>set xs. cmp m z \<le> 0)"
proof -
  have step: "(\<forall>z\<in>set (fold (sort_insert cmp) ys acc). cmp (hd (fold (sort_insert cmp) ys acc)) z \<le> 0)"
    if "set ys \<subseteq> set xs" "set acc \<subseteq> set xs" "\<forall>z\<in>set acc. cmp (hd acc) z \<le> 0" for ys acc
    using that
  proof (induction ys arbitrary: acc)
    case (Cons y ys)
    have "\<forall>z\<in>set (sort_insert cmp y acc). cmp (hd (sort_insert cmp y acc)) z \<le> 0"
      using Cons.prems sort_insert_least [OF assms(1), of y] assms(1)
      by (cases acc) (auto simp: comparison_on_def)
    with Cons show ?case
      by simp
  qed simp
  from step [of xs "[]"] assms(2) have "\<forall>z\<in>set (js_sort cmp xs). cmp m z \<le> 0"
    by (simp add: js_sort_def)
  moreover have "m \<in> set (js_sort cmp xs)"
    by (simp add: assms(2))
  ultimately show ?thesis
    by simp
qed

lemma pick_in: "pick xs = Some m \<Longrightarrow> m \<in> set xs"
  unfolding pick_def by (metis (no_types, lifting) js_sort_set list.case_eq_if list.set_sel(1) option.distinct(1) option.inject)

lemma pick_None [simp]: "pick xs = None \<longleftrightarrow> xs = []"
  by (simp add: pick_def split: list.splits) (metis js_sort_Nil list.distinct(1))

lemma pick_best:
  assumes "pick xs = Some m" "\<forall>a\<in>set xs. \<forall>b\<in>set xs. mdl_source a \<noteq> mdl_source b \<longrightarrow> mdl_source a = SrcCustom \<or> mdl_source b = SrcCustom"
  shows "m \<in> set xs \<and> (\<forall>x\<in>set xs. (mdl_source x = SrcCustom \<longrightarrow> mdl_source m = SrcCustom)
    \<and> (mdl_source x = mdl_source m \<longrightarrow> contextWindow x \<le> contextWindow m))"
proof -
  have "comparison_on (set xs) pack_order"
    using assms(2) unfolding comparison_on_def pack_order_def by (auto split: if_splits)
  moreover obtain rest where "js_sort pack_order xs = m # rest"
    using assms(1) by (auto simp: pick_def split: list.splits)
  ultimately have "m \<in> set xs" "\<forall>z\<in>set xs. pack_order m z \<le> 0"
    by (auto dest: js_sort_least)
  then show ?thesis
    by (force simp: pack_order_def split: if_splits)
qed

lemma pickDefaultModel_sound:
  assumes "pickDefaultModel ms e kinds = Some m"
  shows "m \<in> set ms \<and> pack_capable e kinds m \<and> (pk_sensitivity e = local_only \<longrightarrow> isLocalKind (providerKind m))
    \<and> ((\<exists>x\<in>set ms. pack_capable e kinds x \<and> isLocalKind (providerKind x)) \<longrightarrow> isLocalKind (providerKind m))"
proof -
  let ?pool = "if pk_sensitivity e = local_only then filter (\<lambda>m. isLocalKind (providerKind m)) (filter (pack_capable e kinds) ms)
               else filter (pack_capable e kinds) ms"
  let ?locals = "filter (\<lambda>m. isLocalKind (providerKind m)) ?pool"
  have locals: "x \<in> set ?locals" if "x \<in> set ms" "pack_capable e kinds x" "isLocalKind (providerKind x)" for x
    using that by simp
  show ?thesis
  proof (cases "pick ?locals")
    case None
    with assms have "m \<in> set ?pool"
      by (simp only: pickDefaultModel_def Let_def option.case pick_in)
    moreover from None have "?locals = []"
      by (simp only: pick_None)
    ultimately show ?thesis
      using locals by (fastforce split: if_splits)
  next
    case (Some x)
    with assms have "m \<in> set ?locals"
      by (simp only: pickDefaultModel_def Let_def option.case pick_in option.inject)
    then show ?thesis
      by (auto split: if_splits)
  qed
qed

text \<open>What a run over entries keeps: tables only grow at the end.\<close>

lemma ensure_class_facts:
  assumes "ensure_class fresh e d = (tc, created, d1)"
  shows "find_class (pk_key e) d1 = Some tc" "\<exists>new. d1 = d\<lparr>taskClasses := taskClasses d @ new\<rparr>"
    "created \<longleftrightarrow> find_class (pk_key e) d = None" "\<not> created \<Longrightarrow> d1 = d"
  using assms
  by (auto simp: ensure_class_def find_class_def find_first_append pack_class_def intro: exI [of _ "[]"] split: option.splits)

definition grown :: "db \<Rightarrow> task_class_row list \<Rightarrow> policy_row list \<Rightarrow> db" where
  "grown d cs ps = d\<lparr>taskClasses := taskClasses d @ cs, policies := policies d @ ps\<rparr>"

lemma grown_grown [simp]: "grown (grown d cs ps) cs' ps' = grown d (cs @ cs') (ps @ ps')"
  by (simp add: grown_def)

lemma grown_Nil [simp]: "grown d [] [] = d"
  by (simp add: grown_def)

lemma grown_class: "find_class k d = Some tc \<Longrightarrow> find_class k (grown d cs ps) = Some tc"
  by (simp add: grown_def find_class_def find_first_append)

lemma grown_policy: "find_policy f t d = Some p \<Longrightarrow> find_policy f t (grown d cs ps) = Some p"
  by (simp add: grown_def find_policy_def find_first_append)

text \<open>An entry with nothing left to do: its class is there, with a policy of the firm unless no model fits.\<close>

definition settled :: "string \<Rightarrow> model_row list \<Rightarrow> provider_kind list \<Rightarrow> db \<Rightarrow> pack_entry \<Rightarrow> bool" where
  "settled f ms kinds d e \<longleftrightarrow>
     (\<exists>tc. find_class (pk_key e) d = Some tc \<and> (find_policy f (tcl_id tc) d \<noteq> None \<or> pickDefaultModel ms e kinds = None))"

lemma settled_grown: "settled f ms kinds d e \<Longrightarrow> settled f ms kinds (grown d cs ps) e"
  using grown_class grown_policy unfolding settled_def by fastforce

definition pack_bound :: "string \<Rightarrow> model_row list \<Rightarrow> provider_kind list \<Rightarrow> pack_entry list \<Rightarrow> policy_row \<Rightarrow> bool" where
  "pack_bound f ms kinds es p \<longleftrightarrow>
     pol_firmId p = f \<and> (\<exists>e\<in>set es. \<exists>m. pickDefaultModel ms e kinds = Some m \<and> policy_models p = [mdl_id m, mdl_id m])"

lemma apply_entry_grows:
  "\<exists>cs ps. fst (apply_entry cId pId f ms kinds e (d, r)) = grown d cs ps \<and> (\<forall>p\<in>set ps. pack_bound f ms kinds [e] p)
     \<and> settled f ms kinds (grown d cs ps) e"
proof -
  obtain tc created d1 where en: "ensure_class cId e d = (tc, created, d1)"
    by (cases "ensure_class cId e d") auto
  note facts = ensure_class_facts [OF en]
  from facts(2) obtain new where d1: "d1 = grown d new []"
    by (auto simp: grown_def)
  show ?thesis
  proof (cases "find_policy f (tcl_id tc) d1 \<noteq> None \<or> pickDefaultModel ms e kinds = None")
    case True
    then have "fst (apply_entry cId pId f ms kinds e (d, r)) = d1"
      by (auto simp: apply_entry_def en Let_def)
    with True facts(1) show ?thesis
      by (intro exI [of _ new] exI [of _ "[]"]) (auto simp: settled_def d1)
  next
    case False
    then obtain m where m: "pickDefaultModel ms e kinds = Some m"
      by auto
    let ?p = "pack_policy pId f (tcl_id tc) m"
    from m False have "fst (apply_entry cId pId f ms kinds e (d, r)) = grown d1 [] [?p]"
      by (auto simp: apply_entry_def en Let_def grown_def)
    moreover have "find_policy f (tcl_id tc) (grown d1 [] [?p]) = Some ?p"
      using False by (simp add: find_policy_def grown_def find_first_append pack_policy_def blank_policy_def)
    moreover have "find_class (pk_key e) (grown d1 [] [?p]) = Some tc"
      using facts(1) by (rule grown_class)
    ultimately show ?thesis
      using m by (intro exI [of _ new] exI [of _ "[?p]"])
        (auto simp: d1 settled_def pack_bound_def pack_policy_def blank_policy_def policy_models_def)
  qed
qed

lemma apply_entries_grow:
  "\<exists>cs ps. fst (apply_entries cIds pIds f ms kinds n es s) = grown (fst s) cs ps \<and> (\<forall>p\<in>set ps. pack_bound f ms kinds es p)
     \<and> (\<forall>e\<in>set es. settled f ms kinds (grown (fst s) cs ps) e)"
proof (induction es arbitrary: n s)
  case Nil
  then show ?case
    by (intro exI [of _ "[]"]) simp
next
  case (Cons e es)
  let ?s1 = "apply_entry (cIds n) (pIds n) f ms kinds e s"
  obtain cs ps where 1: "fst ?s1 = grown (fst s) cs ps" "\<forall>p\<in>set ps. pack_bound f ms kinds [e] p" "settled f ms kinds (grown (fst s) cs ps) e"
    using apply_entry_grows [of "cIds n" "pIds n" f ms kinds e "fst s" "snd s"] by auto
  obtain cs' ps' where 2: "fst (apply_entries cIds pIds f ms kinds (Suc n) es ?s1) = grown (fst ?s1) cs' ps'"
    "\<forall>p\<in>set ps'. pack_bound f ms kinds es p" "\<forall>e\<in>set es. settled f ms kinds (grown (fst ?s1) cs' ps') e"
    using Cons.IH by blast
  have "settled f ms kinds (grown (grown (fst s) cs ps) cs' ps') e"
    using 1(3) by (rule settled_grown)
  with 1 2 show ?case
    by (intro exI [of _ "cs @ cs'"] exI [of _ "ps @ ps'"]) (auto simp: pack_bound_def)
qed

lemma apply_entry_settled:
  assumes "settled f ms kinds d e"
  shows "\<exists>un. apply_entry cId pId f ms kinds e (d, r) = (d, r\<lparr>unresolved := un\<rparr>)"
proof -
  from assms obtain tc where tc: "find_class (pk_key e) d = Some tc"
      "find_policy f (tcl_id tc) d \<noteq> None \<or> pickDefaultModel ms e kinds = None"
    by (auto simp: settled_def)
  then have "apply_entry cId pId f ms kinds e (d, r) \<in> {(d, r\<lparr>unresolved := unresolved r\<rparr>), (d, r\<lparr>unresolved := unresolved r @ [pk_key e]\<rparr>)}"
    by (auto simp: apply_entry_def ensure_class_def Let_def)
  then show ?thesis
    by blast
qed

lemma apply_entries_settled:
  "\<forall>e\<in>set es. settled f ms kinds d e \<Longrightarrow> \<exists>un. apply_entries cIds pIds f ms kinds n es (d, r) = (d, r\<lparr>unresolved := un\<rparr>)"
proof (induction es arbitrary: n r)
  case Nil
  then show ?case
    by (intro exI [of _ "unresolved r"]) simp
next
  case (Cons e es)
  then obtain un where "apply_entry (cIds n) (pIds n) f ms kinds e (d, r) = (d, r\<lparr>unresolved := un\<rparr>)"
    using apply_entry_settled by fastforce
  with Cons.IH [of "Suc n" "r\<lparr>unresolved := un\<rparr>"] Cons.prems show ?case
    by simp
qed

section \<open>Properties of the pack\<close>


section \<open>Properties of registration\<close>

definition pack_level :: "string \<Rightarrow> sensitivity_level" where
  "pack_level k = (case pack_find k of None \<Rightarrow> local_only | Some p \<Rightarrow> pk_sensitivity p)"

text \<open>What registrations of an application may do to the class of a key: an existing one keeps its id, its owner and its
  sensitivity, a new one belongs to the application and has the pack's sensitivity, or is local-only.\<close>

definition class_registered :: "string \<Rightarrow> db \<Rightarrow> db \<Rightarrow> string \<Rightarrow> bool" where
  "class_registered app d d' k \<longleftrightarrow>
     (case find_class k d of
        Some t \<Rightarrow> (\<exists>t'. find_class k d' = Some t' \<and> tcl_id t' = tcl_id t \<and> tcl_app t' = tcl_app t \<and> sensitivity t' = sensitivity t)
      | None \<Rightarrow> (\<forall>t'. find_class k d' = Some t' \<longrightarrow> tcl_app t' = app \<and> sensitivity t' = pack_level k))"

lemma class_registered_refl [simp]: "taskClasses d' = taskClasses d \<Longrightarrow> class_registered app d d' k"
  by (simp add: class_registered_def find_class_def split: option.splits)

lemma class_registered_trans [trans]:
  "class_registered app d d1 k \<Longrightarrow> class_registered app d1 d2 k \<Longrightarrow> class_registered app d d2 k"
  unfolding class_registered_def by (cases "find_class k d"; cases "find_class k d1") auto

lemma register_class_step:
  assumes "register_class fresh body c d = ((k, created, level), d1)"
  shows "class_registered (rg_app body) d d1 x \<and> policies d1 = policies d \<and> k = rc_key c
    \<and> (\<exists>t. find_class k d1 = Some t \<and> sensitivity t = level)"
proof (cases "find_class (rc_key c) d")
  case None
  with assms show ?thesis
    by (auto simp: register_class_def class_registered_def pack_level_def Let_def find_class_def find_first_append
        split: option.splits if_splits)
next
  case (Some old)
  let ?g = "\<lambda>t. if tcl_id t = tcl_id old
      then t\<lparr>tcl_description := (if rc_description c = [] then tcl_description old else rc_description c),
             requires := Some (rc_requires c), defaultMaxTokens := pack_floor c,
             registeredByAppVersion := Some (rg_app body @ ''@'' @ rg_version body)\<rparr> else t"
  from Some assms have d1: "d1 = d\<lparr>taskClasses := map ?g (taskClasses d)\<rparr>" "k = rc_key c" "level = sensitivity old"
    by (auto simp: register_class_def Let_def)
  have found: "find_class y d1 = map_option ?g (find_class y d)" for y
    unfolding d1 find_class_def by (simp add: find_first_map)
  show ?thesis
    using Some d1(2,3) unfolding class_registered_def found by (simp add: d1(1) split: option.splits)
qed

lemma register_classes_step:
  "register_classes ids n body cs d = (rs, d') \<Longrightarrow>
    (\<forall>x. class_registered (rg_app body) d d' x) \<and> policies d' = policies d
    \<and> (\<forall>(k, created, level)\<in>set rs. \<exists>t. find_class k d' = Some t \<and> sensitivity t = level)"
proof (induction cs arbitrary: n d rs)
  case (Cons c cs)
  obtain k created level d1 where one: "register_class (ids n) body c d = ((k, created, level), d1)"
    by (cases "register_class (ids n) body c d") auto
  obtain rs' where rest: "register_classes ids (Suc n) body cs d1 = (rs', d')" "rs = (k, created, level) # rs'"
    using Cons.prems one by (auto simp: Let_def split: prod.splits)
  note s1 = register_class_step [OF one] and s2 = Cons.IH [OF rest(1)]
  from s1 obtain t where "find_class k d1 = Some t" "sensitivity t = level"
    by blast
  moreover from s2 have "class_registered (rg_app body) d1 d' k"
    by blast
  ultimately have "\<exists>t. find_class k d' = Some t \<and> sensitivity t = level"
    by (auto simp: class_registered_def)
  moreover have "class_registered (rg_app body) d d' x" for x
    using class_registered_trans s1 s2 by blast
  ultimately show ?case
    using s1 s2 rest(2) by simp
qed auto

lemma authenticate_tables:
  "taskClasses (snd (authenticateAppToken sha256 b now d)) = taskClasses d \<and> policies (snd (authenticateAppToken sha256 b now d)) = policies d"
  by (auto simp: authenticateAppToken_def touch_token_def Let_def split: option.splits)

lemma class_registered_cong: "taskClasses d1 = taskClasses d \<Longrightarrow> class_registered app d1 d' k = class_registered app d d' k"
  by (simp add: class_registered_def find_class_def)

text \<open>
  C13. Registering task classes cannot widen where data may go: without a valid token of the very application named in
  the body, or with a body that does not fit the schema, no class, policy or cached policy changes; otherwise
  every existing class keeps its id, owner and sensitivity, every new class belongs to the application and has the
  sensitivity of the reviewed pack, or is local-only when the pack does not list it; no policy changes, and the
  sensitivities reported back are those in force.
\<close>

theorem registration_never_widens:
  "case register_task_classes sha issue ids now header raw st of
     (Inl e, st') \<Rightarrow> taskClasses (ad_db st') = taskClasses (ad_db st) \<and> policies (ad_db st') = policies (ad_db st)
       \<and> ad_engine st' = ad_engine st
   | (Inr rs, st') \<Rightarrow>
       (\<exists>au body. fst (authenticateAppToken sha (bearer_of header) now (ad_db st)) = Inr au
          \<and> registrationSchema raw = Some body \<and> rg_app body = au_app au \<and> policies (ad_db st') = policies (ad_db st)
          \<and> (\<forall>k. class_registered (au_app au) (ad_db st) (ad_db st') k)
          \<and> (\<forall>(k, created, level)\<in>set rs. \<exists>t. find_class k (ad_db st') = Some t \<and> sensitivity t = level))"
proof -
  obtain out d where auth: "authenticateAppToken sha (bearer_of header) now (ad_db st) = (out, d)"
    by (cases "authenticateAppToken sha (bearer_of header) now (ad_db st)")
  have tables: "taskClasses d = taskClasses (ad_db st)" "policies d = policies (ad_db st)"
    using authenticate_tables [of sha "bearer_of header" now "ad_db st"] by (simp_all add: auth)
  show ?thesis
  proof (cases out)
    case (Inl e)
    then show ?thesis
      by (simp add: register_task_classes_def auth tables)
  next
    case (Inr au)
    show ?thesis
    proof (cases "\<exists>body. registrationSchema raw = Some body \<and> rg_app body = au_app au")
      case False
      with Inr tables show ?thesis
        by (auto simp: register_task_classes_def auth split: option.splits)
    next
      case True
      then obtain body where body: "registrationSchema raw = Some body" "rg_app body = au_app au"
        by blast
      obtain rs d1 where run: "register_classes ids 0 body (rg_classes body) d = (rs, d1)"
        by (cases "register_classes ids 0 body (rg_classes body) d")
      from register_classes_step [OF run] show ?thesis
        using Inr body tables by (auto simp: register_task_classes_def auth run class_registered_cong [OF tables(1)])
    qed
  qed
qed

section \<open>A concrete registration\<close>

definition ex_app_token :: app_token_row where
  "ex_app_token = \<lparr>tok_id = ''k1'', tok_firmId = ''f1'', tok_app = ''vibe-mybooks'', tokenHash = ''tok'', tok_scopes = [''chat''],
     lastUsedAt = None, revokedAt = None\<rparr>"

definition ex_registering :: admin_state where
  "ex_registering = ex_admin\<lparr>ad_db := (ad_db ex_admin)\<lparr>appTokens := [ex_app_token]\<rparr>\<rparr>"

definition ex_registration :: json where
  "ex_registration = JObj [(''app'', JStr ''vibe-mybooks''), (''version'', JStr ''1''),
     (''classes'', JArr [JObj [(''key'', JStr ''doc_read''), (''requires'', JObj [(''vision'', JBool True)])],
                      JObj [(''key'', JStr ''x''), (''description'', JStr ''new'')]])]"

lemma registrationSchema_ex:
  "registrationSchema ex_registration = Some \<lparr>rg_app = ''vibe-mybooks'', rg_version = ''1'',
     rg_classes = [\<lparr>rc_key = ''doc_read'', rc_description = [], rc_requires = no_requires\<lparr>req_vision := Some True\<rparr>, rc_defaultMaxTokens = 1024\<rparr>,
                   \<lparr>rc_key = ''x'', rc_description = ''new'', rc_requires = no_requires, rc_defaultMaxTokens = 1024\<rparr>]\<rparr>"
  by (simp add: ex_registration_def registrationSchema_def registered_class_schema_def z_required_def z_optional_def z_min_string_def
      z_class_key_def class_key_char_def z_description_def requires_keys_def obj_get_def no_requires_def)

lemma pack_find_ex [simp]: "pack_find ''doc_read'' = None" "pack_find ''x'' = None"
  by (simp_all add: pack_find_def DEFAULT_PACK_def pack_trial_balance_def pack_1099_def pack_mybooks_def pack_other_apps_def pack_time_billing_def)

lemma ex_registered:
  "fst (register_task_classes (\<lambda>s. s) (\<lambda>_. []) (\<lambda>n. ''n'') 7 (Some ''Bearer tok'') ex_registration ex_registering)
    = Inr [(''doc_read'', False, cloud_allowed), (''x'', True, local_only)]"
  by (simp add: register_task_classes_def registrationSchema_ex authenticateAppToken_def bearer_of_def hashToken_def given_def
      ex_registering_def ex_app_token_def ex_save_eval touch_token_def register_class_def Let_def)

text \<open>A class of another application is rewritten all the same: only its sensitivity and owner are kept.\<close>

lemma registration_rewrites_foreign_class:
  "map_option (\<lambda>t. (tcl_app t, requires t))
     (find_class ''doc_read'' (ad_db (snd (register_task_classes (\<lambda>s. s) (\<lambda>_. []) (\<lambda>n. ''n'') 7 (Some ''Bearer tok'') ex_registration ex_registering))))
    = Some (''vibe'', Some (no_requires\<lparr>req_vision := Some True\<rparr>))"
  by (simp add: register_task_classes_def registrationSchema_ex authenticateAppToken_def bearer_of_def hashToken_def given_def
      ex_registering_def ex_app_token_def ex_save_eval touch_token_def register_class_def Let_def)

theorem registration_never_widens_witness:
  "\<exists>t. find_class ''x'' (ad_db (snd (register_task_classes (\<lambda>s. s) (\<lambda>_. []) (\<lambda>n. ''n'') 7 (Some ''Bearer tok'') ex_registration ex_registering)))
     = Some t \<and> sensitivity t = local_only"
proof -
  obtain st' where "register_task_classes (\<lambda>s. s) (\<lambda>_. []) (\<lambda>n. ''n'') 7 (Some ''Bearer tok'') ex_registration ex_registering
      = (Inr [(''doc_read'', False, cloud_allowed), (''x'', True, local_only)], st')"
    using ex_registered by (metis prod.collapse)
  with registration_never_widens [where sha = "\<lambda>s. s" and issue = "\<lambda>_. []" and ids = "\<lambda>n. ''n''" and now = 7
      and header = "Some ''Bearer tok''" and raw = ex_registration and st = ex_registering] show ?thesis
    by auto
qed

text \<open>Where the pack and the class disagree, the pack decides: a class that has been tightened to local-only since is bound to a cloud
  model that the gate of a save refuses.\<close>

lemma pack_ignores_tightened_class:
  assumes "find_class (pk_key e) d = Some tc" "find_policy f (tcl_id tc) d = None" "pickDefaultModel ms e kinds = Some m"
    and "sensitivity tc = local_only" "\<not> isLocalKind (providerKind m)"
  shows "pack_policy pId f (tcl_id tc) m \<in> set (policies (fst (apply_entry cId pId f ms kinds e (d, r)))) \<and> configTimeViolation m tc \<noteq> None"
  using assms by (simp add: apply_entry_def ensure_class_def configTimeViolation_def Let_def)

text \<open>Between a synced model and a discovered one the comparator says both are the later.\<close>

lemma pack_order_inconsistent:
  "mdl_source a = SrcSynced \<Longrightarrow> mdl_source b = SrcProvider \<Longrightarrow> pack_order a b > 0 \<and> pack_order b a > 0"
  by (simp add: pack_order_def)

definition ex_appliance :: db where
  "ex_appliance = example_db\<lparr>models := [ex_default, ex_local_vision], policies := [],
     providers := [\<lparr>prv_id = ''v1'', prv_firmId = ''f1'', prv_kind = local, prv_label = ''box'', prv_baseUrl = ''http://box'',
       prv_authType = AuthNone, prv_modelMapping = None, prv_deletedAt = None\<rparr>]\<rparr>"

definition ex_entry :: pack_entry where
  "ex_entry = pack_other_apps ! 3"

lemma ex_entry_picks: "pickDefaultModel (models ex_appliance) ex_entry (configured_kinds ex_appliance ''f1'') = Some ex_local_vision"
  by (simp add: ex_entry_def pack_other_apps_def ex_appliance_def ex_defs configured_kinds_def pickDefaultModel_def pack_capable_def
      pick_def js_sort_def no_requires_def example_db_def)


end
