(* ===== verification/Js_Text.thy ===== *)
theory Js_Text
  imports Json_Roundtrip
begin

text \<open>
  Functions of the language on texts that the client library and the admin sessions use: \<open>Number\<close>, \<open>split\<close>, the
  encodings of \<open>URLSearchParams\<close> and \<open>encodeURIComponent\<close>, and \<open>decodeURIComponent\<close>, which inverts the latter.
\<close>

section \<open>Splitting and trimming\<close>

fun split_on :: "char \<Rightarrow> string \<Rightarrow> string list" where
  "split_on x [] = [[]]"
| "split_on x (c # cs) =
     (if c = x then [] # split_on x cs
      else (case split_on x cs of [] \<Rightarrow> [[c]] | l # ls \<Rightarrow> (c # l) # ls))"

lemma split_on_plain: "x \<notin> set s \<Longrightarrow> split_on x s = [s]"
  by (induction s) auto

lemma split_on_cons: "x \<notin> set s \<Longrightarrow> split_on x (s @ x # t) = s # split_on x t"
  by (induction s) auto

definition tight :: "string \<Rightarrow> bool" where
  "tight s \<longleftrightarrow> s = [] \<or> (\<not> is_space (hd s) \<and> \<not> is_space (last s))"

lemma dropWhile_start: "s = [] \<or> \<not> P (hd s) \<Longrightarrow> dropWhile P s = s"
  by (cases s) auto

lemma trim_tight: "tight s \<Longrightarrow> trim s = s"
  using dropWhile_start [of s is_space] dropWhile_start [of "rev s" is_space] by (auto simp: tight_def trim_def hd_rev)

lemma tight_trim: "tight (trim s)"
proof -
  let ?d = "dropWhile is_space s"
  have "hd (trim s) = hd ?d" "?d \<noteq> []" if "trim s \<noteq> []"
  proof -
    show "?d \<noteq> []"
      using that by (auto simp: trim_def dest: set_dropWhileD)
    then obtain x xs where d: "?d = x # xs" "\<not> is_space x"
      by (metis hd_dropWhile list.exhaust list.sel(1))
    have "\<exists>ys. trim s = x # ys"
      using d by (auto simp: trim_def dropWhile_append) (metis rev_rev_ident)
    with d show "hd (trim s) = hd ?d"
      by auto
  qed
  moreover have "\<not> is_space (last (trim s))" if "trim s \<noteq> []"
    using that hd_dropWhile [of is_space "rev ?d"] by (simp add: trim_def last_rev)
  ultimately show ?thesis
    using hd_dropWhile [of is_space s] by (auto simp: tight_def)
qed

section \<open>Numbers\<close>

text \<open>What \<open>Number\<close> makes of a text.\<close>

datatype js_number = Fin rat | Infinite bool | NaN

text \<open>\<open>Number(s)\<close>: decimal literals with an optional sign, radix prefixes, \<open>Infinity\<close>; the empty text is zero.\<close>

definition js_decimal :: "string \<Rightarrow> rat option" where
  "js_decimal s =
     (let whole_part = takeWhile is_digit s; r = dropWhile is_digit s;
          frac_part = (case r of c # cs \<Rightarrow> if c = CHR ''.'' then takeWhile is_digit cs else [] | [] \<Rightarrow> []);
          r2 = (case r of c # cs \<Rightarrow> if c = CHR ''.'' then dropWhile is_digit cs else r | [] \<Rightarrow> [])
      in if whole_part @ frac_part = [] then None
         else (case p_exp r2 of
                 Some (ex, []) \<Rightarrow> Some (of_nat (digits_val (whole_part @ frac_part)) / 10 ^ length frac_part * ex)
               | _ \<Rightarrow> None))"

definition radix_value :: "nat \<Rightarrow> string \<Rightarrow> rat option" where
  "radix_value b ds =
     (if ds \<noteq> [] \<and> list_all (\<lambda>c. case hex_val c of Some k \<Rightarrow> k < b | None \<Rightarrow> False) ds
      then Some (of_nat (foldl (\<lambda>n c. n * b + the (hex_val c)) 0 ds)) else None)"

definition finite_or_nan :: "rat option \<Rightarrow> js_number" where
  "finite_or_nan x = (case x of Some v \<Rightarrow> Fin v | None \<Rightarrow> NaN)"

definition signed_decimal :: "bool \<Rightarrow> string \<Rightarrow> js_number" where
  "signed_decimal neg s =
     (if s = ''Infinity'' then Infinite neg else finite_or_nan (map_option (\<lambda>x. if neg then - x else x) (js_decimal s)))"

definition js_Number :: "string \<Rightarrow> js_number" where
  "js_Number text =
     (let s = trim text; p = to_lower (take 2 s); r = drop 2 s
      in if s = [] then Fin 0
         else if p = ''0x'' then finite_or_nan (radix_value 16 r)
         else if p = ''0o'' then finite_or_nan (radix_value 8 r)
         else if p = ''0b'' then finite_or_nan (radix_value 2 r)
         else if hd s = CHR ''-'' then signed_decimal True (tl s)
         else if hd s = CHR ''+'' then signed_decimal False (tl s)
         else signed_decimal False s)"

lemma digit_plain:
  assumes "is_digit c"
  shows "\<not> is_space c" "c \<notin> {CHR ''-'', CHR ''+'', CHR ''I''}" "lower_char c \<notin> {CHR ''x'', CHR ''o'', CHR ''b''}"
proof -
  have "lower_char c = c"
    using assms by (simp add: is_digit_def lower_char_def Let_def)
  with assms show "\<not> is_space c" "c \<notin> {CHR ''-'', CHR ''+'', CHR ''I''}" "lower_char c \<notin> {CHR ''x'', CHR ''o'', CHR ''b''}"
    by (auto simp: is_digit_def is_space_def char_code_def)
qed

lemma number_of_digits: "js_Number (show_nat n) = Fin (of_nat n)"
proof -
  obtain a ds where s: "show_nat n = a # ds"
    by (cases "show_nat n") simp_all
  have digits: "is_digit a" "list_all is_digit ds"
    using show_nat_digits [of n] by (simp_all add: s list_all_iff)
  then have "is_digit (last (a # ds))"
    by (metis last_in_set list.distinct(1) s show_nat_digits)
  then have trimmed: "trim (a # ds) = a # ds"
    using digits digit_plain(1) by (intro trim_tight) (simp add: tight_def)
  have lead: "a \<noteq> CHR ''-''" "a \<noteq> CHR ''+''" "a # ds \<noteq> ''Infinity''"
    using digit_plain(2) [OF digits(1)] by auto
  have prefix: "to_lower (take 2 (a # ds)) \<notin> {''0x'', ''0o'', ''0b''}"
  proof (cases ds)
    case (Cons b rest)
    with digits digit_plain(3) [of b] show ?thesis
      by (simp add: to_lower_def)
  qed (simp add: to_lower_def)
  have all: "takeWhile is_digit (a # ds) = a # ds" "dropWhile is_digit (a # ds) = []"
    using digits by (simp_all add: list_all_iff)
  have "js_decimal (a # ds) = Some (of_nat (digits_val (a # ds)))"
    unfolding js_decimal_def Let_def all by (simp add: p_exp_def)
  with lead prefix digits_val_show [of n] show ?thesis
    unfolding s by (simp add: js_Number_def Let_def trimmed signed_decimal_def finite_or_nan_def)
qed

section \<open>Percent encoding\<close>

text \<open>\<open>URLSearchParams\<close>: the form encoding of names and values.\<close>

definition form_plain :: "char \<Rightarrow> bool" where
  "form_plain c \<longleftrightarrow> is_digit c \<or> (97 \<le> char_code c \<and> char_code c \<le> 122) \<or> (65 \<le> char_code c \<and> char_code c \<le> 90) \<or> c \<in> set ''*-._''"

definition upper_hex :: "nat \<Rightarrow> char" where
  "upper_hex n = char_of (if n < 10 then 48 + n else 55 + n)"

definition utf8_bytes :: "char \<Rightarrow> nat list" where
  "utf8_bytes c = (let n = char_code c in if n < 128 then [n] else [192 + n div 64, 128 + n mod 64])"

definition percent_encode :: "char \<Rightarrow> string" where
  "percent_encode c = concat (map (\<lambda>n. [CHR ''%'', upper_hex (n div 16), upper_hex (n mod 16)]) (utf8_bytes c))"

definition form_encode :: "string \<Rightarrow> string" where
  "form_encode s =
     concat (map (\<lambda>c. if form_plain c then [c] else if c = CHR '' '' then ''+''
                      else percent_encode c) s)"

text \<open>\<open>encodeURIComponent\<close>\<close>

definition uri_plain :: "char \<Rightarrow> bool" where
  "uri_plain c \<longleftrightarrow> is_digit c \<or> (97 \<le> char_code c \<and> char_code c \<le> 122) \<or> (65 \<le> char_code c \<and> char_code c \<le> 90)
     \<or> c \<in> set ''-_.!~*()'' \<or> char_code c = 39"

definition encodeURIComponent :: "string \<Rightarrow> string" where
  "encodeURIComponent s = concat (map (\<lambda>c. if uri_plain c then [c] else percent_encode c) s)"

text \<open>\<open>decodeURIComponent\<close>: one escaped byte, one escaped code point (its UTF-8 form checked), the whole text; \<open>None\<close> is
  the \<open>URIError\<close>.\<close>

fun pct_byte :: "string \<Rightarrow> (nat \<times> string) option" where
  "pct_byte (p # a # b # r) =
     (if p = CHR ''%'' then (case (hex_val a, hex_val b) of (Some x, Some y) \<Rightarrow> Some (x * 16 + y, r) | _ \<Rightarrow> None) else None)"
| "pct_byte _ = None"

fun pct_tail :: "nat \<Rightarrow> nat \<Rightarrow> string \<Rightarrow> (nat \<times> string) option" where
  "pct_tail 0 acc s = Some (acc, s)"
| "pct_tail (Suc k) acc s =
     (case pct_byte s of
        Some (b, r) \<Rightarrow> if 128 \<le> b \<and> b < 192 then pct_tail k (acc * 64 + (b - 128)) r else None
      | None \<Rightarrow> None)"

definition utf16_units :: "nat \<Rightarrow> string" where
  "utf16_units n =
     (if n < 65536 then [unit_char n]
      else [unit_char (55296 + (n - 65536) div 1024), unit_char (56320 + (n - 65536) mod 1024)])"

definition pct_point :: "string \<Rightarrow> (string \<times> string) option" where
  "pct_point s =
     (case pct_byte s of
        None \<Rightarrow> None
      | Some (b, r) \<Rightarrow>
          if b < 128 then Some ([char_of b], r)
          else
            (case (if 192 \<le> b \<and> b < 224 then pct_tail 1 (b - 192) r
                   else if 224 \<le> b \<and> b < 240 then pct_tail 2 (b - 224) r
                   else if 240 \<le> b \<and> b < 248 then pct_tail 3 (b - 240) r else None) of
               Some (n, rest) \<Rightarrow>
                 if (b < 224 \<and> n < 128) \<or> (224 \<le> b \<and> b < 240 \<and> (n < 2048 \<or> (55296 \<le> n \<and> n < 57344)))
                    \<or> (240 \<le> b \<and> (n < 65536 \<or> 1114112 \<le> n))
                 then None else Some (utf16_units n, rest)
             | None \<Rightarrow> None))"

lemma pct_byte_shorter: "pct_byte s = Some (b, r) \<Longrightarrow> length r < length s"
  by (induction s rule: pct_byte.induct) (auto split: if_splits option.splits)

lemma pct_tail_shorter: "pct_tail k acc s = Some (n, r) \<Longrightarrow> length r \<le> length s"
  by (induction k arbitrary: acc s) (auto split: if_splits option.splits dest!: pct_byte_shorter, fastforce)

lemma pct_point_shorter: "pct_point s = Some (u, r) \<Longrightarrow> length r < length s"
  by (auto simp: pct_point_def split: option.splits if_splits dest!: pct_byte_shorter pct_tail_shorter)

function decodeURIComponent :: "string \<Rightarrow> string option" where
  "decodeURIComponent [] = Some []"
| "decodeURIComponent (c # cs) =
     (if c \<noteq> CHR ''%'' then map_option ((#) c) (decodeURIComponent cs)
      else (case pct_point (c # cs) of
              None \<Rightarrow> None
            | Some (u, r) \<Rightarrow> map_option ((@) u) (decodeURIComponent r)))"
  by pat_completeness auto
termination
  by (relation "measure length") (auto dest: pct_point_shorter)

declare decodeURIComponent.simps(2) [simp del]

lemma upper_hex_back: "k < 16 \<Longrightarrow> hex_val (upper_hex k) = Some k"
  by (simp add: hex_val_def upper_hex_def Let_def)

lemma pct_byte_back: "n < 256 \<Longrightarrow> pct_byte (CHR ''%'' # upper_hex (n div 16) # upper_hex (n mod 16) # r) = Some (n, r)"
  by (simp add: upper_hex_back)

lemma pct_point_back: "pct_point (percent_encode c @ r) = Some ([c], r)"
proof (cases "char_code c < 128")
  case True
  then show ?thesis
    by (simp add: percent_encode_def utf8_bytes_def pct_point_def pct_byte_back del: pct_byte.simps)
next
  case False
  let ?n = "char_code c"
  have n: "128 \<le> ?n" "?n < 256"
    using False char_code_bound [of c] by simp_all
  then have b: "192 + ?n div 64 < 224" "128 + ?n mod 64 < 192" "?n div 64 * 64 + ?n mod 64 = ?n"
    by auto
  then have "pct_tail 1 (?n div 64) (CHR ''%'' # upper_hex ((128 + ?n mod 64) div 16) # upper_hex ((128 + ?n mod 64) mod 16) # r) = Some (?n, r)"
    by (simp add: pct_byte_back del: pct_byte.simps)
  moreover have "percent_encode c = [CHR ''%'', upper_hex ((192 + ?n div 64) div 16), upper_hex ((192 + ?n div 64) mod 16),
      CHR ''%'', upper_hex ((128 + ?n mod 64) div 16), upper_hex ((128 + ?n mod 64) mod 16)]"
    using n by (simp add: percent_encode_def utf8_bytes_def Let_def)
  ultimately show ?thesis
    using n b by (simp add: pct_point_def pct_byte_back utf16_units_def unit_char_def del: pct_byte.simps)
qed

lemma uri_component_roundtrip: "decodeURIComponent (encodeURIComponent s) = Some s"
proof (induction s)
  case (Cons c s)
  have "uri_plain c \<Longrightarrow> c \<noteq> CHR ''%''"
    by (auto simp: uri_plain_def is_digit_def char_code_def)
  moreover have "\<exists>cs. percent_encode c = CHR ''%'' # cs"
    by (cases "char_code c < 128") (simp_all add: percent_encode_def utf8_bytes_def Let_def)
  ultimately show ?case
    using Cons pct_point_back [of c "encodeURIComponent s"]
    by (auto simp: encodeURIComponent_def decodeURIComponent.simps)
qed (simp add: encodeURIComponent_def)

end
