(* ===== verification/Sdk.thy ===== *)
theory Sdk
  imports Cascade Policy_Pack Verify Js_Text
begin

text \<open>
  The client library \<^verbatim>\<open>src/packages/sdk/src/index.ts\<close>: requests as it writes them, and replies, errors and streams
  as it reads them. It casts what it reads to its interfaces without a check, so a value it returns is
  whatever the reply holds: a \<open>json\<close>, or \<open>None\<close> for \<open>undefined\<close>. The network is the argument \<open>fetch\<close>, a function
  from a request to a response, or \<open>None\<close> when the call is rejected or aborted. The theorems put the
  client and the gateway of \<open>Routes\<close> and \<open>Policy_Pack\<close> together.
\<close>

section \<open>Errors\<close>

definition VIBE_AI_ERROR_CODES :: "string list" where
  "VIBE_AI_ERROR_CODES =
     [''invalid_request'', ''auth_error'', ''rate_limited'', ''provider_unavailable'', ''context_exceeded'', ''content_filtered'',
      ''policy_blocked'', ''scrubber_blocked'', ''capability_missing'', ''no_vision_provider'', ''invalid_response'',
      ''budget_exceeded'', ''output_truncated'', ''unknown'']"

definition SDK_INVALID_RESPONSE_REASONS :: "string list" where
  "SDK_INVALID_RESPONSE_REASONS =
     [''empty_response'', ''provider_error_finish'', ''tool_arguments_not_json'', ''response_not_json'', ''json_truncated'',
      ''schema_violation'']"

record vibe_error =
  ve_code :: json
  ve_status :: int
  ve_message :: json
  ve_retryAfterSeconds :: "js_number option"
  ve_detail :: "json option"

definition VibeAiError :: "json \<Rightarrow> int \<Rightarrow> json \<Rightarrow> js_number option \<Rightarrow> json option \<Rightarrow> vibe_error" where
  "VibeAiError c st m ra dt = \<lparr>ve_code = c, ve_status = st, ve_message = m, ve_retryAfterSeconds = ra, ve_detail = dt\<rparr>"

definition sdk_retryable :: "vibe_error \<Rightarrow> bool" where
  "sdk_retryable e \<longleftrightarrow> ve_code e \<in> {JStr ''rate_limited'', JStr ''provider_unavailable'', JStr ''invalid_response''}"

text \<open>What a call can throw: an error of the library, a \<open>TypeError\<close> or \<open>SyntaxError\<close> of the language, a rejected fetch.\<close>

datatype sdk_exn = Vibe vibe_error | TypeErr | SyntaxErr | FetchFailed

section \<open>Values without types\<close>

text \<open>\<open>v?.k\<close>, \<open>v.k\<close>, \<open>v[0]\<close> and \<open>v ?? d\<close>.\<close>

fun opt_prop :: "json option \<Rightarrow> string \<Rightarrow> json option" where
  "opt_prop (Some (JObj ms)) k = obj_get ms k"
| "opt_prop _ k = None"

fun is_nullish :: "json option \<Rightarrow> bool" where
  "is_nullish None = True"
| "is_nullish (Some JNull) = True"
| "is_nullish _ = False"

definition js_prop :: "json option \<Rightarrow> string \<Rightarrow> (sdk_exn, json option) result" where
  "js_prop v k = (if is_nullish v then Inl TypeErr else Inr (opt_prop v k))"

fun index0 :: "json option \<Rightarrow> json option" where
  "index0 (Some (JArr (x # _))) = Some x"
| "index0 (Some (JStr (c # _))) = Some (JStr [c])"
| "index0 (Some (JObj ms)) = obj_get ms ''0''"
| "index0 _ = None"

definition coalesce :: "json option \<Rightarrow> json \<Rightarrow> json" where
  "coalesce v d = (if is_nullish v then d else the v)"

fun truthy :: "json option \<Rightarrow> bool" where
  "truthy None = False"
| "truthy (Some JNull) = False"
| "truthy (Some (JBool b)) = b"
| "truthy (Some (JNum x)) = (x \<noteq> 0)"
| "truthy (Some (JStr s)) = (s \<noteq> [])"
| "truthy _ = True"

text \<open>\<open>String(v)\<close>, as a template literal writes a value.\<close>

fun js_string :: "json \<Rightarrow> string" where
  "js_string JNull = ''null''"
| "js_string (JBool b) = (if b then ''true'' else ''false'')"
| "js_string (JNum x) = show_num x"
| "js_string (JStr s) = s"
| "js_string (JArr vs) = join '','' (map (\<lambda>v. if v = JNull then [] else js_string v) vs)"
| "js_string (JObj ms) = ''[object Object]''"

definition isInvalidResponse :: "sdk_exn \<Rightarrow> bool" where
  "isInvalidResponse e =
     (case e of
        Vibe v \<Rightarrow> ve_code v = JStr ''invalid_response''
          \<and> (case opt_prop (ve_detail v) ''reason'' of
               Some (JStr r) \<Rightarrow> r \<in> set SDK_INVALID_RESPONSE_REASONS
             | _ \<Rightarrow> False)
      | _ \<Rightarrow> False)"

section \<open>Requests\<close>

record chat_message =
  cm_role :: msg_role
  cm_content :: "msg_content option"
  cm_tool_calls :: "tool_call list option"
  cm_tool_call_id :: "string option"

record request_options =
  ro_model :: "string option"
  ro_maxTokens :: "rat option"
  ro_temperature :: "rat option"
  ro_topP :: "rat option"
  ro_stop :: "string list option"
  ro_tools :: "tool_def list option"
  ro_toolChoice :: "tool_choice option"
  ro_responseFormat :: "response_format option"
  ro_userId :: "string option"
  ro_userRole :: "user_role option"
  ro_engagementRef :: "string option"
  ro_clientRef :: "string option"
  ro_signal :: bool

text \<open>The signal a request carries: none, the caller's, the time-out's, or both. Whether it fires is up to the network.\<close>

datatype abort_signal = NoSignal | CallerSignal | TimeoutSignal int | EitherSignal int

record vibe_client =
  vc_baseUrl :: string
  vc_token :: string
  vc_timeoutMs :: int

definition new_client :: "string \<Rightarrow> string \<Rightarrow> int option \<Rightarrow> vibe_client" where
  "new_client baseUrl tok timeoutMs =
     \<lparr>vc_baseUrl = strip_slashes baseUrl, vc_token = tok, vc_timeoutMs = nullish timeoutMs 120000\<rparr>"

definition withTimeout :: "vibe_client \<Rightarrow> bool \<Rightarrow> abort_signal" where
  "withTimeout c signal =
     (if vc_timeoutMs c \<le> 0 then (if signal then CallerSignal else NoSignal)
      else if \<not> signal then TimeoutSignal (vc_timeoutMs c)
      else EitherSignal (vc_timeoutMs c))"

fun sdk_role_name :: "user_role \<Rightarrow> string" where
  "sdk_role_name Admin = ''admin''"
| "sdk_role_name Partner = ''partner''"
| "sdk_role_name Staff = ''staff''"

definition opt_header :: "string \<Rightarrow> string option \<Rightarrow> (string \<times> string) list" where
  "opt_header k v = (case non_empty v of None \<Rightarrow> [] | Some s \<Rightarrow> [(k, s)])"

definition sdk_headers :: "vibe_client \<Rightarrow> string \<Rightarrow> request_options \<Rightarrow> (string \<times> string) list" where
  "sdk_headers c tc opts =
     [(''content-type'', ''application/json''), (''authorization'', ''Bearer '' @ vc_token c), (''x-vibe-task-class'', tc)]
     @ opt_header ''x-vibe-user'' (ro_userId opts)
     @ opt_header ''x-vibe-user-role'' (map_option sdk_role_name (ro_userRole opts))
     @ opt_header ''x-vibe-engagement'' (ro_engagementRef opts)
     @ opt_header ''x-vibe-client'' (ro_clientRef opts)"

definition chat_message_json :: "chat_message \<Rightarrow> json" where
  "chat_message_json m =
     JObj ([(''role'', JStr (role_name (cm_role m))),
            (''content'', case cm_content m of
               None \<Rightarrow> JNull | Some (CText s) \<Rightarrow> JStr s | Some (CParts ps) \<Rightarrow> JArr (map part_wire ps))]
           @ opt_wire ''tool_calls'' (map_option (\<lambda>cs. JArr (map tool_call_wire cs)) (cm_tool_calls m))
           @ opt_wire ''tool_call_id'' (map_option JStr (cm_tool_call_id m)))"

fun validation_name :: "validation_mode \<Rightarrow> string" where
  "validation_name Structural = ''structural''"
| "validation_name Strict = ''strict''"

fun sdk_format_json :: "response_format \<Rightarrow> json" where
  "sdk_format_json (RFJsonSchema n sc st va) =
     JObj [(''type'', JStr ''json_schema''),
           (''json_schema'', JObj ([(''name'', JStr n)] @ opt_wire ''schema'' sc @ opt_wire ''strict'' (map_option JBool st)
              @ opt_wire ''validation'' (map_option (\<lambda>v. JStr (validation_name v)) va)))]"
| "sdk_format_json RFText = JObj [(''type'', JStr ''text'')]"
| "sdk_format_json RFJsonObject = JObj [(''type'', JStr ''json_object'')]"

definition sdk_body :: "chat_message list \<Rightarrow> request_options \<Rightarrow> bool \<Rightarrow> json" where
  "sdk_body ms opts streaming =
     JObj ([(''messages'', JArr (map chat_message_json ms)), (''stream'', JBool streaming)]
           @ (if streaming then [(''stream_options'', JObj [(''include_usage'', JBool True)])] else [])
           @ opt_wire ''model'' (map_option JStr (non_empty (ro_model opts)))
           @ opt_wire ''max_tokens'' (map_option JNum (ro_maxTokens opts))
           @ opt_wire ''temperature'' (map_option JNum (ro_temperature opts))
           @ opt_wire ''top_p'' (map_option JNum (ro_topP opts))
           @ opt_wire ''stop'' (map_option (\<lambda>ss. JArr (map JStr ss)) (ro_stop opts))
           @ opt_wire ''tools'' (map_option (\<lambda>ts. JArr (map tool_wire ts)) (ro_tools opts))
           @ opt_wire ''tool_choice'' (map_option tool_choice_wire (ro_toolChoice opts))
           @ opt_wire ''response_format'' (map_option sdk_format_json (ro_responseFormat opts)))"

section \<open>Replies\<close>

record fetch_request =
  fq_url :: string
  fq_method :: string
  fq_headers :: "(string \<times> string) list"
  fq_body :: "string option"
  fq_signal :: abort_signal

text \<open>A response: its text for \<open>res.json()\<close> (\<open>None\<close> when reading it fails), and for a stream the decoded chunks, the
  text the decoder flushes at the end, and whether a read failed instead of ending.\<close>

record fetch_response =
  fr_status :: int
  fr_headers :: "(string \<times> string) list"
  fr_text :: "string option"
  fr_stream :: "(string list \<times> string \<times> bool) option"

type_synonym network = "fetch_request \<Rightarrow> fetch_response option"

definition res_ok :: "fetch_response \<Rightarrow> bool" where
  "res_ok r \<longleftrightarrow> 200 \<le> fr_status r \<and> fr_status r \<le> 299"

definition res_json :: "fetch_response \<Rightarrow> (sdk_exn, json) result" where
  "res_json r =
     (case fr_text r of
        None \<Rightarrow> Inl FetchFailed
      | Some t \<Rightarrow> (case json_parse t of None \<Rightarrow> Inl SyntaxErr | Some v \<Rightarrow> Inr v))"

definition throwFor :: "fetch_response \<Rightarrow> sdk_exn" where
  "throwFor r =
     (let body = (case res_json r of Inr v \<Rightarrow> Some v | Inl _ \<Rightarrow> None); err = opt_prop body ''error''
      in Vibe (VibeAiError (coalesce (opt_prop err ''code'') (JStr ''unknown'')) (fr_status r)
           (coalesce (opt_prop err ''message'') (JStr (''HTTP '' @ show_int (fr_status r))))
           (map_option js_Number (non_empty (map_of (fr_headers r) ''retry-after''))) (opt_prop err ''detail'')))"

record sdk_usage =
  su_promptTokens :: json
  su_completionTokens :: json
  su_cachedTokens :: json

definition toUsage :: "json option \<Rightarrow> sdk_usage" where
  "toUsage u =
     \<lparr>su_promptTokens = coalesce (opt_prop u ''prompt_tokens'') (JNum 0),
      su_completionTokens = coalesce (opt_prop u ''completion_tokens'') (JNum 0),
      su_cachedTokens = coalesce (opt_prop (opt_prop u ''prompt_tokens_details'') ''cached_tokens'') (JNum 0)\<rparr>"

record completion_result =
  cr_content :: json
  cr_toolCalls :: "(json option \<times> json option \<times> json option) list"
  cr_finishReason :: json
  cr_model :: "json option"
  cr_usage :: sdk_usage
  cr_requestId :: string
  cr_budgetWarnings :: "string list"

text \<open>\<open>tool_calls.map(\<dots>)\<close>; each call must have its function.\<close>

fun read_calls :: "json list \<Rightarrow> (sdk_exn, (json option \<times> json option \<times> json option) list) result" where
  "read_calls [] = Inr []"
| "read_calls (tc # tcs) =
     (if tc = JNull \<or> is_nullish (opt_prop (Some tc) ''function'') then Inl TypeErr
      else (case read_calls tcs of
              Inl e \<Rightarrow> Inl e
            | Inr rs \<Rightarrow>
                (let f = opt_prop (Some tc) ''function''
                 in Inr ((opt_prop (Some tc) ''id'', opt_prop f ''name'', opt_prop f ''arguments'') # rs))))"

definition map_calls :: "json option \<Rightarrow> (sdk_exn, (json option \<times> json option \<times> json option) list) result" where
  "map_calls v = (if is_nullish v then Inr [] else (case v of Some (JArr tcs) \<Rightarrow> read_calls tcs | _ \<Rightarrow> Inl TypeErr))"

definition read_completion :: "(string \<times> string) list \<Rightarrow> json \<Rightarrow> (sdk_exn, completion_result) result" where
  "read_completion headers wire =
     (case js_prop (Some wire) ''choices'' of
        Inl e \<Rightarrow> Inl e
      | Inr choices \<Rightarrow>
          if is_nullish choices then Inl TypeErr
          else
            (let choice = index0 choices; msg = opt_prop choice ''message''
             in if \<not> is_nullish choice \<and> is_nullish msg then Inl TypeErr
                else
                  (case map_calls (opt_prop msg ''tool_calls'') of
                     Inl e \<Rightarrow> Inl e
                   | Inr calls \<Rightarrow>
                       Inr \<lparr>cr_content = coalesce (opt_prop msg ''content'') (JStr []), cr_toolCalls = calls,
                            cr_finishReason = coalesce (opt_prop choice ''finish_reason'') (JStr ''stop''),
                            cr_model = opt_prop (Some wire) ''model'', cr_usage = toUsage (opt_prop (Some wire) ''usage''),
                            cr_requestId = nullish (map_of headers ''x-request-id'') [],
                            cr_budgetWarnings = filter (\<lambda>s. s \<noteq> [])
                              (split_on CHR '','' (nullish (map_of headers ''x-vibe-budget-warning'') []))\<rparr>)))"

definition chat_request :: "vibe_client \<Rightarrow> string \<Rightarrow> chat_message list \<Rightarrow> request_options \<Rightarrow> bool \<Rightarrow> fetch_request" where
  "chat_request c tc ms opts streaming =
     \<lparr>fq_url = vc_baseUrl c @ ''/v1/chat/completions'', fq_method = ''POST'', fq_headers = sdk_headers c tc opts,
      fq_body = Some (json_stringify (sdk_body ms opts streaming)), fq_signal = withTimeout c (ro_signal opts)\<rparr>"

definition complete :: "network \<Rightarrow> vibe_client \<Rightarrow> string \<Rightarrow> chat_message list \<Rightarrow> request_options \<Rightarrow> (sdk_exn, completion_result) result" where
  "complete fetch c tc ms opts =
     (case fetch (chat_request c tc ms opts False) of
        None \<Rightarrow> Inl FetchFailed
      | Some r \<Rightarrow>
          if \<not> res_ok r then Inl (throwFor r)
          else if \<not> includes_str ''application/json'' (nullish (map_of (fr_headers r) ''content-type'') [])
          then Inl (Vibe (VibeAiError (JStr ''unknown'') (fr_status r)
                 (JStr ''router returned a non-JSON response (proxy/login page?)'') None None))
          else (case res_json r of Inl e \<Rightarrow> Inl e | Inr wire \<Rightarrow> read_completion (fr_headers r) wire))"

section \<open>Streams\<close>

datatype stream_event =
    DeltaEvent json
  | ToolDeltaEvent "json option" "json option" "json option" "json option"
  | FinishEvent json
  | UsageEvent sdk_usage

text \<open>What the generator of a block yields: an event, the end marker, or an exception.\<close>

datatype stream_item = Event stream_event | DoneItem | ThrowItem sdk_exn

definition given :: "json option \<Rightarrow> json option" where
  "given v = (if is_nullish v then None else v)"

definition call_item :: "json \<Rightarrow> stream_item" where
  "call_item tc =
     (if tc = JNull then ThrowItem TypeErr
      else let f = opt_prop (Some tc) ''function''
           in Event (ToolDeltaEvent (opt_prop (Some tc) ''index'') (given (opt_prop (Some tc) ''id''))
                (given (opt_prop f ''name'')) (given (opt_prop f ''arguments''))))"

text \<open>\<open>for (const tc of v ?? [])\<close>: arrays and texts can be iterated.\<close>

definition call_items :: "json option \<Rightarrow> stream_item list" where
  "call_items v =
     (if is_nullish v then []
      else (case v of
              Some (JArr tcs) \<Rightarrow> map call_item tcs
            | Some (JStr s) \<Rightarrow> map (\<lambda>ch. call_item (JStr [ch])) s
            | _ \<Rightarrow> [ThrowItem TypeErr]))"

definition parsed_items :: "json \<Rightarrow> stream_item list" where
  "parsed_items v =
     (let err = opt_prop (Some v) ''error''; choice = index0 (opt_prop (Some v) ''choices''); delta = opt_prop choice ''delta'';
          u = opt_prop (Some v) ''usage''
      in if v = JNull then [ThrowItem TypeErr]
         else if truthy err
         then [ThrowItem (Vibe (VibeAiError (coalesce (opt_prop err ''code'') (JStr ''unknown'')) 502
                (coalesce (opt_prop err ''message'') (JStr ''stream error'')) None None))]
         else (if truthy (opt_prop delta ''content'') then [Event (DeltaEvent (the (opt_prop delta ''content'')))] else [])
              @ call_items (opt_prop delta ''tool_calls'')
              @ (if truthy (opt_prop choice ''finish_reason'') then [Event (FinishEvent (the (opt_prop choice ''finish_reason'')))] else [])
              @ (if truthy u then [Event (UsageEvent (toUsage u))] else []))"

definition data_items :: "string \<Rightarrow> stream_item list" where
  "data_items data =
     (if data = ''[DONE]'' then [DoneItem]
      else (case json_parse data of None \<Rightarrow> [] | Some v \<Rightarrow> parsed_items v))"

definition parseSseBlock :: "string \<Rightarrow> stream_item list" where
  "parseSseBlock raw =
     concat (map (\<lambda>l. data_items (trim (drop 5 l))) (filter (starts_with ''data:'') (split_lines raw)))"

text \<open>A consumer sees the events up to the first end marker or exception.\<close>

fun consume :: "stream_item list \<Rightarrow> stream_event list \<times> sdk_exn option" where
  "consume [] = ([], None)"
| "consume (Event ev # xs) = (let (evs, r) = consume xs in (ev # evs, r))"
| "consume (DoneItem # xs) = ([], None)"
| "consume (ThrowItem e # xs) = ([], Some e)"

text \<open>The events of complete blocks, when a read fails and nothing is flushed.\<close>

fun read_open :: "string \<Rightarrow> string list \<Rightarrow> stream_item list" where
  "read_open buffer [] = []"
| "read_open buffer (c # cs) =
     fst (drain parseSseBlock (buffer @ c)) @ read_open (snd (drain parseSseBlock (buffer @ c))) cs"

definition vibe_stream ::
    "network \<Rightarrow> vibe_client \<Rightarrow> string \<Rightarrow> chat_message list \<Rightarrow> request_options \<Rightarrow> stream_event list \<times> sdk_exn option" where
  "vibe_stream fetch c tc ms opts =
     (case fetch (chat_request c tc ms opts True) of
        None \<Rightarrow> ([], Some FetchFailed)
      | Some r \<Rightarrow>
          if \<not> res_ok r then ([], Some (throwFor r))
          else (case fr_stream r of
                  None \<Rightarrow> ([], Some (Vibe (VibeAiError (JStr ''unknown'') 502 (JStr ''no response body'') None None)))
                | Some (chunks, final, failed) \<Rightarrow>
                    if \<not> includes_str ''text/event-stream'' (nullish (map_of (fr_headers r) ''content-type'') [])
                    then ([], Some (Vibe (VibeAiError (JStr ''unknown'') (fr_status r)
                           (JStr ''router returned a non-SSE response to a stream request'') None None)))
                    else consume (if failed then read_open [] chunks @ [ThrowItem FetchFailed]
                                  else read_events parseSseBlock [] final chunks)))"

section \<open>Forced JSON\<close>

definition unfence :: "string \<Rightarrow> string" where
  "unfence raw = strip_close_fence (strip_open_fence (trim raw))"

definition json_text :: "completion_result \<Rightarrow> (sdk_exn, string) result" where
  "json_text r =
     (case cr_content r of
        JStr s \<Rightarrow>
          if trim s \<noteq> [] then Inr s
          else (case coalesce (case cr_toolCalls r of [] \<Rightarrow> None | (_, _, a) # _ \<Rightarrow> a) (JStr []) of
                  JStr a \<Rightarrow> Inr a
                | _ \<Rightarrow> Inl TypeErr)
      | _ \<Rightarrow> Inl TypeErr)"

definition json_of_completion :: "string \<Rightarrow> completion_result \<Rightarrow> (sdk_exn, completion_result \<times> json) result" where
  "json_of_completion name r =
     (if cr_finishReason r = JStr ''length''
      then Inl (Vibe (VibeAiError (JStr ''output_truncated'') 502
             (JStr (''response for '' @ name @ '' truncated at max_tokens (served ''
                @ js_string (su_completionTokens (cr_usage r)) @ '' completion tokens)'')) None
             (Some (JObj [(''requestId'', JStr (cr_requestId r)), (''completionTokens'', su_completionTokens (cr_usage r))]))))
      else
        (case json_text r of
           Inl e \<Rightarrow> Inl e
         | Inr raw \<Rightarrow>
             (case json_parse (unfence raw) of
                Some v \<Rightarrow> Inr (r, v)
              | None \<Rightarrow> Inl (Vibe (VibeAiError (JStr ''unknown'') 502 (JStr (''response for '' @ name @ '' was not valid JSON'')) None
                          (Some (JObj [(''requestId'', JStr (cr_requestId r))])))))))"

definition completeJson ::
    "network \<Rightarrow> vibe_client \<Rightarrow> string \<Rightarrow> chat_message list \<Rightarrow> string \<times> json option \<times> bool option \<times> validation_mode option
      \<Rightarrow> request_options \<Rightarrow> (sdk_exn, completion_result \<times> json) result" where
  "completeJson fetch c tc ms schema opts =
     (let (name, sc, st, va) = schema
      in case complete fetch c tc ms (opts\<lparr>ro_responseFormat := Some (RFJsonSchema name sc st va)\<rparr>) of
           Inl e \<Rightarrow> Inl e
         | Inr r \<Rightarrow> json_of_completion name r)"

section \<open>The other calls\<close>

record class_declaration =
  cd_key :: string
  cd_description :: "string option"
  cd_requires :: "(string \<times> bool) list option"
  cd_defaultMaxTokens :: "rat option"

definition declaration_json :: "class_declaration \<Rightarrow> json" where
  "declaration_json d =
     JObj [(''key'', JStr (cd_key d)), (''description'', JStr (nullish (cd_description d) [])),
           (''requires'', JObj (map (\<lambda>(k, b). (k, JBool b)) (nullish (cd_requires d) []))),
           (''defaultMaxTokens'', JNum (nullish (cd_defaultMaxTokens d) 1024))]"

definition registration_json :: "string \<Rightarrow> string \<Rightarrow> class_declaration list \<Rightarrow> json" where
  "registration_json app version ds =
     JObj [(''app'', JStr app), (''version'', JStr version), (''classes'', JArr (map declaration_json ds))]"

text \<open>The tail of these calls: the request, an error for a bad status, else the JSON of the reply.\<close>

definition json_call :: "network \<Rightarrow> fetch_request \<Rightarrow> (sdk_exn, json) result" where
  "json_call fetch q =
     (case fetch q of
        None \<Rightarrow> Inl FetchFailed
      | Some r \<Rightarrow> if \<not> res_ok r then Inl (throwFor r) else res_json r)"

definition registerTaskClasses ::
    "network \<Rightarrow> vibe_client \<Rightarrow> string \<Rightarrow> string \<Rightarrow> class_declaration list \<Rightarrow> bool \<Rightarrow> (sdk_exn, json) result" where
  "registerTaskClasses fetch c app version ds signal =
     json_call fetch
       \<lparr>fq_url = vc_baseUrl c @ ''/v1/task-classes/register'', fq_method = ''POST'',
        fq_headers = [(''content-type'', ''application/json''), (''authorization'', ''Bearer '' @ vc_token c)],
        fq_body = Some (json_stringify (registration_json app version ds)), fq_signal = withTimeout c signal\<rparr>"

definition billing_query :: "string \<Rightarrow> string option \<Rightarrow> string" where
  "billing_query period clientRef =
     ''period='' @ form_encode period @ (case non_empty clientRef of None \<Rightarrow> [] | Some r \<Rightarrow> ''&client_ref='' @ form_encode r)"

definition billingUsage :: "network \<Rightarrow> vibe_client \<Rightarrow> string \<Rightarrow> string option \<Rightarrow> bool \<Rightarrow> (sdk_exn, json) result" where
  "billingUsage fetch c period clientRef signal =
     json_call fetch
       \<lparr>fq_url = vc_baseUrl c @ ''/v1/billing/usage?'' @ billing_query period clientRef, fq_method = ''GET'',
        fq_headers = [(''authorization'', ''Bearer '' @ vc_token c)], fq_body = None, fq_signal = withTimeout c signal\<rparr>"

definition precheck_json :: "string \<Rightarrow> string option \<Rightarrow> json" where
  "precheck_json tc user = JObj ([(''task_class'', JStr tc)] @ opt_wire ''user_id'' (map_option JStr (non_empty user)))"

definition sdk_budgetPrecheck :: "network \<Rightarrow> vibe_client \<Rightarrow> string \<Rightarrow> string option \<Rightarrow> bool \<Rightarrow> (sdk_exn, json) result" where
  "sdk_budgetPrecheck fetch c tc user signal =
     json_call fetch
       \<lparr>fq_url = vc_baseUrl c @ ''/v1/budget/precheck'', fq_method = ''POST'',
        fq_headers = [(''authorization'', ''Bearer '' @ vc_token c), (''content-type'', ''application/json'')],
        fq_body = Some (json_stringify (precheck_json tc user)), fq_signal = withTimeout c signal\<rparr>"

definition TASK_CLASSES :: "(string \<times> string) list" where
  "TASK_CLASSES =
     [(''TB_CLASSIFICATION'', ''tb_classification''), (''TB_DOC_EXTRACT'', ''tb_doc_extract''),
      (''TB_RESEARCH_SUMMARY'', ''tb_research_summary''), (''V1099_PAYEE_MATCH'', ''v1099_payee_match''),
      (''V1099_W9_EXTRACT'', ''v1099_w9_extract''), (''V1099_CORRESPONDENCE'', ''v1099_correspondence''),
      (''MYBOOKS_TXN_CATEGORIZE'', ''mybooks_txn_categorize''), (''MYBOOKS_RECEIPT_EXTRACT'', ''mybooks_receipt_extract''),
      (''PAYROLL_ANOMALY_REVIEW'', ''payroll_anomaly_review''), (''TAXRESEARCH_CHAT'', ''taxresearch_chat''),
      (''TAXRESEARCH_MEMO_DRAFT'', ''taxresearch_memo_draft''), (''CONNECT_DOC_SUMMARIZE'', ''connect_doc_summarize''),
      (''TXCONV_STATEMENT_PARSE'', ''txconv_statement_parse''), (''TB_INVOICE_NARRATIVE'', ''tb_invoice_narrative''),
      (''TIMEBILL_PRACTICE_ANALYTICS'', ''timebill_practice_analytics''), (''TIMEBILL_SUPPORT_CHAT'', ''timebill_support_chat''),
      (''TIMEBILL_FILE_NAMING'', ''timebill_file_naming'')]"

section \<open>Requests arrive\<close>

text \<open>The envelope a call means: what the gateway should build from it.\<close>

definition meant_message :: "chat_message \<Rightarrow> ai_message" where
  "meant_message m =
     \<lparr>m_role = cm_role m, m_content = nullish (cm_content m) (CText []), m_toolCalls = cm_tool_calls m,
      m_toolCallId = non_empty (cm_tool_call_id m)\<rparr>"

definition meant_request :: "string \<Rightarrow> chat_message list \<Rightarrow> request_options \<Rightarrow> bool \<Rightarrow> ai_request" where
  "meant_request tc ms opts streaming =
     \<lparr>taskClass = tc, messages = map meant_message ms, tools = ro_tools opts, toolChoice = ro_toolChoice opts,
      responseFormat = ro_responseFormat opts, maxTokens = map_option floor (ro_maxTokens opts), temperature = ro_temperature opts,
      topP = ro_topP opts, stop = ro_stop opts, stream = streaming, modelRequested = non_empty (ro_model opts),
      metadata = \<lparr>md_app = ''unknown'', md_userId = non_empty (ro_userId opts), md_userRole = ro_userRole opts,
        md_engagementRef = non_empty (ro_engagementRef opts), md_clientRef = non_empty (ro_clientRef opts)\<rparr>\<rparr>"

definition options_ok :: "request_options \<Rightarrow> bool" where
  "options_ok opts \<longleftrightarrow> (\<forall>x. ro_maxTokens opts = Some x \<longrightarrow> 0 < x \<and> x = of_int (floor x))
     \<and> (\<forall>x. ro_temperature opts = Some x \<longrightarrow> 0 \<le> x \<and> x \<le> 2) \<and> (\<forall>x. ro_topP opts = Some x \<longrightarrow> 0 \<le> x \<and> x \<le> 1)"

lemma chat_message_fields:
  "z_optional ''tool_calls'' (z_array wire_tool_call) (chat_message_json m) = Some (cm_tool_calls m)"
  "z_optional ''tool_call_id'' z_string (chat_message_json m) = Some (cm_tool_call_id m)"
  "z_optional ''name'' z_string (chat_message_json m) = Some None"
  by (cases "cm_tool_calls m"; cases "cm_tool_call_id m"; simp add: chat_message_json_def z_defs opt_wire_def calls_back)+

lemma chat_message_content:
  "\<exists>c. z_optional ''content'' wire_content_of (chat_message_json m) = Some (Some c) \<and> content_of_wire c = nullish (cm_content m) (CText [])"
  by (auto simp: chat_message_json_def z_defs parts_back split: option.split msg_content.split)

lemma chat_message_back: "\<exists>wm. messageSchema (chat_message_json m) = Some wm \<and> message_of_wire wm = meant_message m"
proof -
  obtain w where w: "wire_role_of (JStr (role_name (cm_role m))) = Some w" "role_of_wire w = cm_role m"
    using role_back by blast
  obtain c where c: "z_optional ''content'' wire_content_of (chat_message_json m) = Some (Some c)"
    "content_of_wire c = nullish (cm_content m) (CText [])"
    using chat_message_content by blast
  have "z_required ''role'' wire_role_of (chat_message_json m) = Some w"
    using w by (simp add: chat_message_json_def z_required_def obj_get_def del: wire_role_of.simps)
  moreover have "(if x = Some [] then None else x) = non_empty x" for x :: "string option"
    by (cases x) auto
  ultimately show ?thesis
    using w c chat_message_fields [of m] by (auto simp: messageSchema_def message_of_wire_def meant_message_def)
qed

lemma chat_messages_back:
  "\<exists>wms. z_all messageSchema (map chat_message_json ms) = Some wms \<and> map message_of_wire wms = map meant_message ms"
proof (induction ms)
  case (Cons m ms)
  with chat_message_back [of m] show ?case
    by fastforce
qed simp

lemma sdk_format_back: "wire_response_format (sdk_format_json rf) = Some rf"
proof (cases rf)
  case (RFJsonSchema n sc st va)
  then show ?thesis
    by (cases va rule: option.exhaust; cases "the va")
       (auto simp: wire_response_format_def opt_wire_def z_defs z_unknown_def split: option.splits)
qed (simp_all add: wire_response_format_def z_defs)

lemma sdk_body_read:
  assumes "options_ok opts" "ms \<noteq> []"
  shows "\<exists>body. openAiChatBodySchema (sdk_body ms opts streaming) = Some body \<and> b_n body = None \<and> length (b_messages body) = length ms
    \<and> envelope_of_body body tc (metadata (meant_request tc ms opts streaming)) = meant_request tc ms opts streaming"
proof -
  let ?b = "sdk_body ms opts streaming"
  obtain wms where wms: "z_all messageSchema (map chat_message_json ms) = Some wms" "map message_of_wire wms = map meant_message ms"
    using chat_messages_back by blast
  have get: "jget ?b k = map_of ([(''messages'', JArr (map chat_message_json ms)), (''stream'', JBool streaming)]
      @ (if streaming then [(''stream_options'', JObj [(''include_usage'', JBool True)])] else [])
      @ opt_wire ''model'' (map_option JStr (non_empty (ro_model opts))) @ opt_wire ''max_tokens'' (map_option JNum (ro_maxTokens opts))
      @ opt_wire ''temperature'' (map_option JNum (ro_temperature opts)) @ opt_wire ''top_p'' (map_option JNum (ro_topP opts))
      @ opt_wire ''stop'' (map_option (\<lambda>ss. JArr (map JStr ss)) (ro_stop opts))
      @ opt_wire ''tools'' (map_option (\<lambda>ts. JArr (map tool_wire ts)) (ro_tools opts))
      @ opt_wire ''tool_choice'' (map_option tool_choice_wire (ro_toolChoice opts))
      @ opt_wire ''response_format'' (map_option sdk_format_json (ro_responseFormat opts))) k" for k
    by (simp add: sdk_body_def obj_get_def)
  have mt: "z_optional ''max_tokens'' z_positive_int ?b = Some (map_option floor (ro_maxTokens opts))"
    using assms(1) by (cases "ro_maxTokens opts") (auto simp: z_optional_def get body_lookup options_ok_def split: option.split)
  have te: "z_optional ''temperature'' (z_number_in 0 2) ?b = Some (ro_temperature opts)"
    by (rule member_back [where g = JNum]) (use assms in \<open>auto simp: get body_lookup options_ok_def split: option.split\<close>)
  have tp: "z_optional ''top_p'' (z_number_in 0 1) ?b = Some (ro_topP opts)"
    by (rule member_back [where g = JNum]) (use assms in \<open>auto simp: get body_lookup options_ok_def split: option.split\<close>)
  have sp: "z_optional ''stop'' wire_stop ?b = Some (ro_stop opts)"
    by (rule member_back [where g = "\<lambda>ss. JArr (map JStr ss)"]) (simp_all add: get body_lookup strings_back split: option.split)
  have ts: "z_optional ''tools'' (z_array wire_tool) ?b = Some (ro_tools opts)"
    by (rule member_back [where g = "\<lambda>ts. JArr (map tool_wire ts)"]) (simp_all add: get body_lookup tools_back split: option.split)
  have tch: "z_optional ''tool_choice'' wire_tool_choice ?b = Some (ro_toolChoice opts)"
    by (rule member_back [where g = tool_choice_wire]) (simp_all add: get body_lookup tool_choice_back split: option.split)
  have rf: "z_optional ''response_format'' wire_response_format ?b = Some (ro_responseFormat opts)"
    by (rule member_back [where g = sdk_format_json]) (simp_all add: get body_lookup sdk_format_back split: option.split)
  have md: "z_optional ''model'' z_string ?b = Some (non_empty (ro_model opts))"
    by (rule member_back [where g = JStr]) (simp_all add: get body_lookup split: option.split)
  have rest: "z_optional ''stream'' z_boolean ?b = Some (Some streaming)" "z_required ''messages'' (z_array messageSchema) ?b = Some wms"
    "z_optional ''max_completion_tokens'' z_positive_int ?b = Some None" "z_optional ''n'' z_positive_int ?b = Some None"
    "z_optional ''user'' z_string ?b = Some None"
    by (simp_all add: z_optional_def z_required_def get body_lookup wms)
  have "\<exists>so. z_optional ''stream_options'' wire_stream_options ?b = Some so"
    by (simp add: z_optional_def get body_lookup wire_stream_options_def obj_get_def)
  moreover have "wms \<noteq> []" "length wms = length ms"
    using wms(2) assms(2) by (auto dest: map_eq_imp_length_eq)
  ultimately show ?thesis
    using wms(2) by (auto simp: openAiChatBodySchema_def mt te tp sp ts tch rf md rest envelope_of_body_def meant_request_def)
qed

lemma sdk_header_read:
  assumes "hq_headers req = sdk_headers c tc opts"
  shows "Routes.bearer_of req = Some (vc_token c)" "headerString req ''x-vibe-task-class'' = non_empty (Some tc)"
    "metadata_of req = metadata (meant_request tc ms opts streaming)"
proof -
  have look: "map_of (opt_header k v) = (\<lambda>k'. if k' = k then non_empty v else None)" for k v
    by (auto simp: opt_header_def fun_eq_iff split: option.split)
  have role: "role_of_header (non_empty (map_option sdk_role_name r)) = r" for r
    by (cases r; cases "the r") simp_all
  have self: "non_empty (non_empty x) = non_empty x" for x :: "string option"
    by (cases x) auto
  show "Routes.bearer_of req = Some (vc_token c)" "headerString req ''x-vibe-task-class'' = non_empty (Some tc)"
    by (simp_all add: Routes.bearer_of_def headerString_def assms sdk_headers_def map_add_def look)
  show "metadata_of req = metadata (meant_request tc ms opts streaming)"
    by (simp add: metadata_of_def headerString_def assms sdk_headers_def map_add_def look meant_request_def self role cong: option.case_cong)
qed

section \<open>Completions arrive\<close>

definition client_usage :: "ai_usage \<Rightarrow> sdk_usage" where
  "client_usage u =
     \<lparr>su_promptTokens = JNum (of_int (promptTokens u + cachedReadTokens u + cacheWriteTokens u)),
      su_completionTokens = JNum (of_int (completionTokens u)), su_cachedTokens = JNum (of_int (max 0 (cachedReadTokens u)))\<rparr>"

lemma coalesce_simps [simp]:
  "coalesce None d = d" "coalesce (Some JNull) d = d" "coalesce (Some (JStr s)) d = JStr s" "coalesce (Some (JNum x)) d = JNum x"
  "coalesce (Some (JObj ms)) d = JObj ms" "coalesce (Some (JArr vs)) d = JArr vs"
  by (simp_all add: coalesce_def)

lemma toUsage_wire: "toUsage (Some (toOpenAiUsage u)) = client_usage u"
  by (simp add: toUsage_def toOpenAiUsage_def client_usage_def Let_def obj_get_def)

lemma read_calls_wire:
  "read_calls (map tool_call_wire tcs) = Inr (map (\<lambda>tc. (Some (JStr (tc_id tc)), Some (JStr (tc_name tc)), Some (JStr (tc_arguments tc)))) tcs)"
  by (induction tcs) (simp_all add: tool_call_wire_def obj_get_def)

definition client_result :: "(string \<times> string) list \<Rightarrow> ai_response \<Rightarrow> completion_result" where
  "client_result headers res =
     \<lparr>cr_content = JStr (r_content res),
      cr_toolCalls = map (\<lambda>tc. (Some (JStr (tc_id tc)), Some (JStr (tc_name tc)), Some (JStr (tc_arguments tc)))) (nullish (r_toolCalls res) []),
      cr_finishReason = JStr (FINISH_MAP (finishReason res)), cr_model = Some (JStr (served_model res)),
      cr_usage = client_usage (usage res), cr_requestId = nullish (map_of headers ''x-request-id'') [],
      cr_budgetWarnings = filter (\<lambda>s. s \<noteq> []) (split_on CHR '','' (nullish (map_of headers ''x-vibe-budget-warning'') []))\<rparr>"

lemma completion_read:
  "read_completion headers (toChatCompletion now rid res) = Inr (client_result headers res)"
proof -
  have "map_calls (opt_prop (Some (completion_message res)) ''tool_calls'')
      = Inr (map (\<lambda>tc. (Some (JStr (tc_id tc)), Some (JStr (tc_name tc)), Some (JStr (tc_arguments tc)))) (nullish (r_toolCalls res) []))"
    by (simp add: completion_message_def Let_def obj_get_def map_calls_def read_calls_wire)
  moreover have "coalesce (opt_prop (Some (completion_message res)) ''content'') (JStr []) = JStr (r_content res)"
    "\<not> is_nullish (Some (completion_message res))"
    by (auto simp: completion_message_def Let_def obj_get_def)
  ultimately show ?thesis
    by (simp add: read_completion_def toChatCompletion_def js_prop_def obj_get_def client_result_def toUsage_wire)
qed

text \<open>The reply of a call: a JSON completion of the gateway.\<close>

definition completion_reply :: "fetch_response \<Rightarrow> json \<Rightarrow> bool" where
  "completion_reply r wire \<longleftrightarrow> res_ok r \<and> includes_str ''application/json'' (nullish (map_of (fr_headers r) ''content-type'') [])
     \<and> res_json r = Inr wire"

lemma complete_reply:
  assumes "fetch (chat_request c tc ms opts False) = Some r" "completion_reply r (toChatCompletion now rid res)"
  shows "complete fetch c tc ms opts = Inr (client_result (fr_headers r) res)"
  using assms by (simp add: complete_def completion_reply_def completion_read)

section \<open>Fences\<close>

text \<open>The last trim of the gateway's \<open>stripFence\<close> never finds anything, so the client, which leaves it out, unwraps the same way.\<close>

lemma tight_open: "tight s \<Longrightarrow> tight (strip_open_fence s)"
proof -
  assume s: "tight s"
  have "tight (dropWhile is_space (drop n s))" for n
  proof (cases "dropWhile is_space (drop n s) = []")
    case False
    have "suffix (dropWhile is_space (drop n s)) s"
      by (meson suffix_dropWhile suffix_drop suffix_order.trans)
    then have "last (dropWhile is_space (drop n s)) = last s"
      using False by (metis last_appendR suffix_def)
    moreover have "s \<noteq> []"
      using False by auto
    ultimately show ?thesis
      using s False hd_dropWhile [of is_space "drop n s"] by (simp add: tight_def)
  qed (simp add: tight_def)
  with s show ?thesis
    by (simp add: strip_open_fence_def Let_def)
qed

lemma tight_close: "tight s \<Longrightarrow> tight (strip_close_fence s)"
proof -
  assume s: "tight s"
  let ?r = "dropWhile is_space (drop 3 (rev s))"
  have "tight (rev ?r)"
  proof (cases "?r = []")
    case False
    have "suffix ?r (rev s)"
      by (meson suffix_dropWhile suffix_drop suffix_order.trans)
    then have "last ?r = last (rev s)"
      using False by (metis last_appendR suffix_def)
    moreover have "s \<noteq> []"
      using False by auto
    ultimately have "hd (rev ?r) = hd s" "\<not> is_space (hd s)"
      using s by (simp_all only: hd_rev last_rev tight_def, simp)
    then show ?thesis
      using False hd_dropWhile [of is_space "drop 3 (rev s)"] by (simp only: tight_def last_rev) blast
  qed (simp add: tight_def)
  with s show ?thesis
    by (simp add: strip_close_fence_def)
qed

lemma unfence_is_stripFence: "unfence raw = stripFence raw"
  by (simp add: unfence_def stripFence_def trim_tight tight_close tight_open tight_trim)

section \<open>Streams arrive\<close>

interpretation sdk_reader: frame_reader parseSseBlock "\<lambda>p. data_items (trim p)"
proof unfold_locales
  fix p
  assume p: "one_line p"
  have "trim (CHR '' '' # p) = trim p"
    by (simp add: trim_def is_space_def char_code_def)
  with p split_one_line [of "''data: '' @ p"] show "parseSseBlock (''data: '' @ p) = data_items (trim p)"
    by (auto simp: parseSseBlock_def one_line_def nl_def cr_def)
next
  show "parseSseBlock '': heartbeat'' = []"
    by (simp add: parseSseBlock_def nl_def cr_def)
qed

text \<open>The events a chunk of the gateway's stream means to the client. An empty delta is none.\<close>

fun chunk_events :: "stream_chunk \<Rightarrow> stream_event list" where
  "chunk_events (TextDelta d) = (if d = [] then [] else [DeltaEvent (JStr d)])"
| "chunk_events (ToolCallStart i cid name) =
     [ToolDeltaEvent (Some (JNum (of_nat i))) (Some (JStr cid)) (Some (JStr name)) (Some (JStr []))]"
| "chunk_events (ToolCallDelta i args) = [ToolDeltaEvent (Some (JNum (of_nat i))) None None (Some (JStr args))]"
| "chunk_events (Finish f u) =
     FinishEvent (JStr (FINISH_MAP f)) # (case u of None \<Rightarrow> [] | Some us \<Rightarrow> [UsageEvent (client_usage us)])"

lemma object_text: "trim (json_stringify (JObj ms)) = json_stringify (JObj ms)"
  by (rule trim_tight) (simp add: tight_def is_space_def char_code_def)

lemma object_items: "plain_json (JObj ms) \<Longrightarrow> data_items (trim (json_stringify (JObj ms))) = parsed_items (JObj ms)"
  using json_roundtrip [of "JObj ms"] unfolding object_text by (simp add: data_items_def)

lemmas item_defs = parsed_items_def delta_choice_def role_delta_def call_items_def call_item_def given_def Let_def obj_get_def

lemma chunk_object_items:
  assumes "plain_json (chunk_object now rid model rest)"
  shows "data_items (trim (json_stringify (chunk_object now rid model rest)))
    = parsed_items (chunk_object now rid model rest)"
  using assms object_items unfolding chunk_object_def by blast

lemma chunk_items:
  "concat (map (\<lambda>obj. data_items (trim (json_stringify obj))) (toChunkObjects now rid model c first)) = map Event (chunk_events c)"
proof -
  note plain = chunk_objects_plain [of _ now rid model c first]
  show ?thesis
  proof (cases c)
    case (Finish f u)
    have "parsed_items (chunk_object now rid model [(''choices'', JArr []), (''usage'', toOpenAiUsage us)]) = [Event (UsageEvent (client_usage us))]" for us
    proof -
      have "truthy (Some (toOpenAiUsage us))"
        by (simp add: toOpenAiUsage_def Let_def)
      then show ?thesis
        by (simp add: chunk_object_def item_defs toUsage_wire)
    qed
    moreover have "parsed_items (chunk_object now rid model (delta_choice [] (JStr (FINISH_MAP f)))) = [Event (FinishEvent (JStr (FINISH_MAP f)))]"
      by (simp add: chunk_object_def item_defs)
    ultimately show ?thesis
      using Finish plain by (cases u) (simp_all add: chunk_object_items Let_def)
  qed (use plain in \<open>auto simp: chunk_object_items, auto simp: chunk_object_def item_defs\<close>)
qed

lemma relay_items:
  "concat (map (\<lambda>p. data_items (trim p)) (payloads (relay_frames clock rid model n first cs))) = map Event (concat (map chunk_events cs))"
proof (induction cs arbitrary: n first)
  case (Cons c cs)
  with chunk_items [of "clock n" rid model c first] show ?case
    by (simp add: comp_def)
qed simp

lemma consume_events: "consume (map Event es @ xs) = (es @ fst (consume xs), snd (consume xs))"
  by (induction es) (simp_all add: case_prod_beta)

lemma consume_all [simp]: "consume (map Event es) = (es, None)"
  using consume_events [of es "[]"] by simp

lemma done_items: "data_items (trim ''[DONE]'') = [DoneItem]"
  by (simp add: data_items_def trim_def is_space_def char_code_def)

lemma error_items:
  assumes "plain_json (errorBody e)"
  shows "data_items (trim (json_stringify (errorBody e))) =
    [ThrowItem (Vibe (VibeAiError (JStr (code_name (code e))) 502 (JStr (message e)) None None))]"
proof -
  have "data_items (trim (json_stringify (errorBody e))) = parsed_items (errorBody e)"
    using object_items assms unfolding errorBody_def by blast
  then show ?thesis
    by (simp add: errorBody_def parsed_items_def Let_def obj_get_def)
qed

text \<open>How the gateway's stream ends for the client.\<close>

definition client_end :: "stream_outcome \<Rightarrow> sdk_exn option" where
  "client_end oc =
     (case oc of Failed e \<Rightarrow> Some (Vibe (VibeAiError (JStr (code_name (code e))) 502 (JStr (message e)) None None)) | _ \<Rightarrow> None)"

lemma relay_consumed:
  assumes "\<And>e. snd st = Failed e \<Longrightarrow> plain_json (errorBody e)"
  shows "consume (concat (map (\<lambda>p. data_items (trim p)) (payloads (fst (sse_relay dp clock st cx w)))))
    = (concat (map chunk_events (if snd st = Stopped then butlast (fst st) else fst st)), client_end (snd st))"
proof (cases st)
  case (Pair chunks oc)
  then show ?thesis
    using assms done_items
    by (cases oc)
       (auto simp: sse_relay_def Let_def case_prod_beta relay_items consume_events error_items client_end_def
          simp del: relay_frames.simps)
qed

section \<open>Errors arrive\<close>

lemma error_codes_known: "set VIBE_AI_ERROR_CODES = insert ''output_truncated'' (code_name ` set ERROR_CODES)"
  by (auto simp: VIBE_AI_ERROR_CODES_def ERROR_CODES_def)

lemma reasons_known: "SDK_INVALID_RESPONSE_REASONS = map reason_name INVALID_RESPONSE_REASONS"
  by (simp add: SDK_INVALID_RESPONSE_REASONS_def INVALID_RESPONSE_REASONS_def)

section \<open>Registrations arrive\<close>

definition declaration_ok :: "class_declaration \<Rightarrow> bool" where
  "declaration_ok d \<longleftrightarrow> z_class_key (JStr (cd_key d)) \<noteq> None \<and> length (nullish (cd_description d) []) \<le> 500
     \<and> set (map fst (nullish (cd_requires d) [])) \<subseteq> {''tools'', ''json_schema'', ''vision'', ''caching''}
     \<and> (\<forall>x. cd_defaultMaxTokens d = Some x \<longrightarrow> 0 < x \<and> x \<le> 200000 \<and> x = of_int (floor x))"

definition meant_class :: "class_declaration \<Rightarrow> registered_class" where
  "meant_class d =
     (let req = map_of (nullish (cd_requires d) [])
      in \<lparr>rc_key = cd_key d, rc_description = nullish (cd_description d) [],
          rc_requires = no_requires\<lparr>req_tools := req ''tools'', req_json_schema := req ''json_schema'', req_vision := req ''vision'',
            req_caching := req ''caching'', req_thinking_budget := None\<rparr>,
          rc_defaultMaxTokens = floor (nullish (cd_defaultMaxTokens d) 1024)\<rparr>)"

lemma map_of_bools: "map_of (map (\<lambda>(k, b). (k, JBool b)) xs) k = map_option JBool (map_of xs k)"
  by (induction xs) auto

lemma declaration_back:
  assumes "declaration_ok d"
  shows "registered_class_schema (declaration_json d) = Some (meant_class d)"
proof -
  let ?ms = "map (\<lambda>(k, b). (k, JBool b)) (nullish (cd_requires d) [])"
  have keys: "set (map fst (nullish (cd_requires d) [])) \<subseteq> {''tools'', ''json_schema'', ''vision'', ''caching''}"
    using assms by (simp add: declaration_ok_def)
  have opt: "z_optional k z_boolean (JObj ?ms) = Some (map_of (nullish (cd_requires d) []) k)" for k
    by (rule member_back [where g = JBool]) (simp_all add: obj_get_def map_of_bools)
  have "map_of (nullish (cd_requires d) []) ''thinking_budget'' = None"
    using keys by (auto simp: map_of_eq_None_iff)
  then have "z_optional ''thinking_budget'' z_positive_int (JObj ?ms) = Some None"
    by (simp add: z_optional_def obj_get_def map_of_bools)
  moreover have "list_all (\<lambda>m. fst m \<in> set requires_keys) ?ms"
    using keys by (auto simp: list_all_iff requires_keys_def)
  ultimately have req: "z_requires (JObj ?ms) = Some (rc_requires (meant_class d))"
    by (simp add: opt meant_class_def Let_def)
  have key: "z_class_key (JStr (cd_key d)) = Some (cd_key d)"
    using assms by (auto simp: declaration_ok_def z_class_key_def split: list.splits if_splits)
  have toks: "z_max_tokens (JNum (nullish (cd_defaultMaxTokens d) 1024)) = Some (floor (nullish (cd_defaultMaxTokens d) 1024))"
    using assms by (cases "cd_defaultMaxTokens d") (auto simp: declaration_ok_def z_max_tokens_def floor_le_iff)
  have "z_description (JStr (nullish (cd_description d) [])) = Some (nullish (cd_description d) [])"
    using assms by (simp add: declaration_ok_def z_description_def)
  with key req toks show ?thesis
    by (simp add: registered_class_schema_def declaration_json_def z_required_def z_optional_def obj_get_def del: z_requires.simps)
       (simp add: meant_class_def Let_def)
qed

section \<open>A concrete client\<close>

definition ex_client :: vibe_client where
  "ex_client = new_client ''http://router/'' ''tok'' None"

definition ex_opts :: request_options where
  "ex_opts = \<lparr>ro_model = None, ro_maxTokens = Some 10, ro_temperature = Some (1 / 2), ro_topP = None, ro_stop = None, ro_tools = None,
     ro_toolChoice = None, ro_responseFormat = None, ro_userId = Some ''u'', ro_userRole = Some Staff, ro_engagementRef = None,
     ro_clientRef = Some [], ro_signal = False\<rparr>"

definition ex_msgs :: "chat_message list" where
  "ex_msgs = [\<lparr>cm_role = RUser, cm_content = Some (CText ''hi''), cm_tool_calls = None, cm_tool_call_id = None\<rparr>]"

definition json_response :: "int \<Rightarrow> (string \<times> string) list \<Rightarrow> json \<Rightarrow> fetch_response" where
  "json_response st hs body =
     \<lparr>fr_status = st, fr_headers = (''content-type'', ''application/json; charset=utf-8'') # hs, fr_text = Some (json_stringify body),
      fr_stream = None\<rparr>"

definition stream_reply :: "sse_frame list \<Rightarrow> fetch_response" where
  "stream_reply fs =
     \<lparr>fr_status = 200, fr_headers = [(''content-type'', ''text/event-stream; charset=utf-8'')], fr_text = None,
      fr_stream = Some ([concat (map render_frame fs)], [], False)\<rparr>"

lemma json_response_read:
  "plain_json body \<Longrightarrow> res_json (json_response st hs body) = Inr body" "fr_status (json_response st hs body) = st"
  "includes_str ''application/json'' (nullish (map_of (fr_headers (json_response st hs body)) ''content-type'') [])"
  by (simp_all add: json_response_def res_json_def json_roundtrip)

lemma relay_frames_ok:
  assumes "snd st = Completed"
  shows "list_all frame_ok (fst (sse_relay dp clock st cx w))"
  using assms frames_ok
  by (cases st) (simp add: sse_relay_def Let_def case_prod_beta one_line_def nl_def cr_def is_space_def char_code_def)

section \<open>Properties\<close>

text \<open>
  C24. What an application asks is what the gateway is asked: for every call within the ranges of the interface, the headers
  and body the client library writes give the gateway the application's token, its task class and, under the
  depth and size limits, exactly the envelope the call means: messages, tools, formats with their validation mode,
  limits and the attribution of the user, role, engagement and client.
\<close>

theorem sdk_request_accepted:
  assumes "options_ok opts" "ms \<noteq> []" "tc \<noteq> []" "length ms \<le> maxMessages limits"
    and "jsonDepth (maxJsonDepth limits) 0 (sdk_body ms opts streaming) \<le> maxJsonDepth limits"
    and "hq_headers req = sdk_headers c tc opts" "hq_body req = sdk_body ms opts streaming"
  shows "Routes.bearer_of req = Some (vc_token c) \<and> headerString req ''x-vibe-task-class'' = Some tc
    \<and> toEnvelope zod_issue (hq_body req) tc (metadata_of req) limits = Inr (meant_request tc ms opts streaming)"
proof -
  obtain body where "openAiChatBodySchema (sdk_body ms opts streaming) = Some body" "b_n body = None" "length (b_messages body) = length ms"
    "envelope_of_body body tc (metadata (meant_request tc ms opts streaming)) = meant_request tc ms opts streaming"
    using sdk_body_read [OF assms(1,2)] by blast
  with assms sdk_header_read [OF assms(6)] show ?thesis
    by (auto simp: toEnvelope_def)
qed

theorem sdk_request_accepted_witness:
  "toEnvelope (\<lambda>_. []) (sdk_body ex_msgs ex_opts True) ''t''
     (metadata_of \<lparr>hq_headers = sdk_headers ex_client ''t'' ex_opts, hq_body = sdk_body ex_msgs ex_opts True\<rparr>)
     \<lparr>maxMessages = 5, maxJsonDepth = 9\<rparr>
   = Inr (meant_request ''t'' ex_msgs ex_opts True)"
proof -
  have "jsonDepth 9 0 (sdk_body ex_msgs ex_opts True) \<le> 9"
    by (simp add: sdk_body_def ex_msgs_def ex_opts_def chat_message_json_def opt_wire_def)
  with sdk_request_accepted [of ex_opts ex_msgs "''t''" "\<lparr>maxMessages = 5, maxJsonDepth = 9\<rparr>" True
      "\<lparr>hq_headers = sdk_headers ex_client ''t'' ex_opts, hq_body = sdk_body ex_msgs ex_opts True\<rparr>" ex_client "\<lambda>_. []"]
  show ?thesis
    by (simp add: options_ok_def ex_opts_def ex_msgs_def)
qed

text \<open>
  C25. The client library reads the stream the relay writes: for every stream of chunks, with heartbeats anywhere and cut by
  the network anywhere, the events are those of the chunks in order, and the call ends as the stream did: without an
  error after the end marker, and with the code and message of the gateway's error when it failed on the way.
\<close>

theorem sdk_stream_read_back:
  assumes "fetch (chat_request c tc ms opts True) = Some r" "res_ok r"
    and "includes_str ''text/event-stream'' (nullish (map_of (fr_headers r) ''content-type'') [])"
    and "fr_stream r = Some (cs, [], False)" "list_all frame_ok fs" "concat cs = concat (map render_frame fs)"
    and "payloads fs = payloads (fst (sse_relay dp clock st cx w))"
    and "\<And>e. snd st = Failed e \<Longrightarrow> plain_json (errorBody e)"
  shows "vibe_stream fetch c tc ms opts
    = (concat (map chunk_events (if snd st = Stopped then butlast (fst st) else fst st)), client_end (snd st))"
proof -
  have "read_events parseSseBlock [] [] cs = concat (map (\<lambda>p. data_items (trim p)) (payloads (fst (sse_relay dp clock st cx w))))"
    using sdk_reader.frames_read [OF assms(5,6)] assms(7) by (simp add: payloads_def)
  with assms relay_consumed [of st dp clock cx w, OF assms(8)] show ?thesis
    by (simp add: vibe_stream_def)
qed

theorem sdk_stream_read_back_witness:
  "\<forall>dp cx w. vibe_stream (\<lambda>_. Some (stream_reply (fst (sse_relay dp (\<lambda>_. 0) ([TextDelta ''hi'', Finish FLength None], Completed) cx w))))
      ex_client ''t'' ex_msgs ex_opts = ([DeltaEvent (JStr ''hi''), FinishEvent (JStr ''length'')], None)"
proof (intro allI)
  fix dp cx w
  let ?st = "([TextDelta ''hi'', Finish FLength None], Completed)"
  let ?fs = "fst (sse_relay dp (\<lambda>_. 0) ?st cx w)"
  have "list_all frame_ok ?fs"
    by (rule relay_frames_ok) simp
  moreover have "res_ok (stream_reply ?fs)"
    "includes_str ''text/event-stream'' (nullish (map_of (fr_headers (stream_reply ?fs)) ''content-type'') [])"
    "fr_stream (stream_reply ?fs) = Some ([concat (map render_frame ?fs)], [], False)"
    by (simp_all add: res_ok_def stream_reply_def)
  ultimately show "vibe_stream (\<lambda>_. Some (stream_reply ?fs)) ex_client ''t'' ex_msgs ex_opts
      = ([DeltaEvent (JStr ''hi''), FinishEvent (JStr ''length'')], None)"
    using sdk_stream_read_back [of "\<lambda>_. Some (stream_reply ?fs)" ex_client "''t''" ex_msgs ex_opts "stream_reply ?fs"
        "[concat (map render_frame ?fs)]" ?fs dp "\<lambda>_. 0" ?st cx w]
    by (simp add: client_end_def)
qed

text \<open>
  C26. Client and gateway agree on forced JSON: a completion that passed the gateway's verification is returned by
  \<open>completeJson\<close> with exactly the value the gateway checked against the schema, never a fragment of a truncated
  answer; one that was cut off at the token limit is always the error \<open>output_truncated\<close>, which is not retryable.
\<close>

theorem sdk_forced_json_agrees:
  assumes "fetch (chat_request c tc ms (opts\<lparr>ro_responseFormat := Some (RFJsonSchema name sc strict va)\<rparr>) False) = Some r"
    and "completion_reply r (toChatCompletion now rid res)"
  shows "(wantsJson (responseFormat env) \<and> fst (verifyResponse res env mode) = None \<longrightarrow>
      (\<exists>v. json_parse (stripFence (json_source res)) = Some v \<and> fst (schema_verdict (responseFormat env) mode v) = None
         \<and> completeJson fetch c tc ms (name, sc, strict, va) opts = Inr (client_result (fr_headers r) res, v)))
    \<and> (finishReason res = FLength \<longrightarrow>
      (\<exists>e. completeJson fetch c tc ms (name, sc, strict, va) opts = Inl (Vibe e) \<and> ve_code e = JStr ''output_truncated'' \<and> \<not> sdk_retryable e))"
proof -
  let ?r = "client_result (fr_headers r) res"
  have call: "completeJson fetch c tc ms (name, sc, strict, va) opts = json_of_completion name ?r"
    using complete_reply [of fetch c tc ms "opts\<lparr>ro_responseFormat := Some (RFJsonSchema name sc strict va)\<rparr>" r now rid res] assms
    by (simp add: completeJson_def)
  have src: "json_text ?r = Inr (json_source res)"
    by (auto simp: json_text_def client_result_def json_source_def blank_def split: list.split)
  have len: "cr_finishReason ?r = JStr ''length'' \<longleftrightarrow> finishReason res = FLength"
    by (cases "finishReason res") (simp_all add: client_result_def)
  have "json_of_completion name ?r = Inr (?r, v)" if "finishReason res \<noteq> FLength" "json_parse (stripFence (json_source res)) = Some v" for v
    using that by (simp add: json_of_completion_def len src unfence_is_stripFence)
  moreover have "\<exists>e. json_of_completion name ?r = Inl (Vibe e) \<and> ve_code e = JStr ''output_truncated'' \<and> \<not> sdk_retryable e"
    if "finishReason res = FLength"
    using that by (simp add: json_of_completion_def len VibeAiError_def sdk_retryable_def)
  ultimately show ?thesis
    unfolding call verifyResponse_def by (auto simp: Let_def split: if_splits option.splits)
qed

theorem sdk_forced_json_agrees_witness:
  "completeJson (\<lambda>_. Some (json_response 200 [] (toChatCompletion 0 ''r'' ex_response))) ex_client ''t'' ex_msgs
     (''out'', None, None, None) ex_opts
   = Inr (client_result [(''content-type'', ''application/json; charset=utf-8'')] ex_response, JObj [])"
proof -
  let ?r = "json_response 200 [] (toChatCompletion 0 ''r'' ex_response)"
  have parse: "json_parse (stripFence (json_source ex_response)) = Some (JObj [])"
    by code_simp
  have "fst (verifyResponse ex_response Verify.ex_request Structural) = None"
    using parse ex_not_blank
    by (simp add: verifyResponse_def Let_def Verify.ex_request_def schema_verdict_def) (simp add: ex_response_def schema_verdict_def)
  moreover have "plain_json (toChatCompletion 0 ''r'' ex_response)"
    by (simp add: toChatCompletion_def completion_message_def toOpenAiUsage_def ex_response_def EMPTY_USAGE_def Let_def)
  then have "completion_reply ?r (toChatCompletion 0 ''r'' ex_response)"
    by (simp add: completion_reply_def json_response_read res_ok_def)
  moreover have "wantsJson (responseFormat Verify.ex_request)" "fr_headers ?r = [(''content-type'', ''application/json; charset=utf-8'')]"
    by (simp_all add: Verify.ex_request_def json_response_def)
  ultimately show ?thesis
    using sdk_forced_json_agrees [of "\<lambda>_. Some ?r" ex_client "''t''" ex_msgs "''out''" None None None ex_opts ?r 0 "''r''" ex_response
        Verify.ex_request Structural] parse
    by auto
qed



text \<open>
  An application can register what the library lets it declare: the body of \<open>registerTaskClasses\<close> is accepted by the
  gateway's schema, for declarations within its ranges, and read as the same classes, with the defaults the library
  documents; and every well-known task class of the library is one of the gateway's default pack.
\<close>

theorem sdk_registration_accepted:
  assumes "list_all declaration_ok ds" "ds \<noteq> []" "length ds \<le> 50" "app \<noteq> []" "version \<noteq> []"
  shows "registrationSchema (registration_json app version ds) = Some \<lparr>rg_app = app, rg_version = version, rg_classes = map meant_class ds\<rparr>
    \<and> snd ` set TASK_CLASSES \<subseteq> pk_key ` set DEFAULT_PACK"
proof -
  have "z_all registered_class_schema (map declaration_json ds) = Some (map meant_class ds)"
    by (rule z_all_map) (use assms(1) declaration_back in \<open>auto simp: list_all_iff\<close>)
  moreover have "1 \<le> length ds"
    using assms(2) by (cases ds) auto
  moreover have "snd ` set TASK_CLASSES \<subseteq> pk_key ` set DEFAULT_PACK"
    by (simp add: TASK_CLASSES_def DEFAULT_PACK_def pack_trial_balance_def pack_1099_def pack_mybooks_def pack_other_apps_def
        pack_time_billing_def)
  ultimately show ?thesis
    using assms by (simp add: registrationSchema_def registration_json_def z_required_def obj_get_def z_min_string_def)
qed

theorem sdk_registration_accepted_witness:
  "registrationSchema (registration_json ''mb'' ''1'' [\<lparr>cd_key = ''k_1'', cd_description = None, cd_requires = Some [(''tools'', True)],
     cd_defaultMaxTokens = None\<rparr>])
   = Some \<lparr>rg_app = ''mb'', rg_version = ''1'', rg_classes = [\<lparr>rc_key = ''k_1'', rc_description = [],
       rc_requires = no_requires\<lparr>req_tools := Some True, req_json_schema := None, req_vision := None, req_caching := None,
         req_thinking_budget := None\<rparr>, rc_defaultMaxTokens = 1024\<rparr>]\<rparr>"
proof -
  let ?d = "\<lparr>cd_key = ''k_1'', cd_description = None, cd_requires = Some [(''tools'', True)], cd_defaultMaxTokens = None\<rparr>"
  have "declaration_ok ?d"
    by (simp add: declaration_ok_def z_class_key_def class_key_char_def less_eq_char_def)
  with sdk_registration_accepted [of "[?d]" "''mb''" "''1''"] show ?thesis
    by (simp add: meant_class_def Let_def)
qed

end
