(* ===== verification/Sessions.thy ===== *)
theory Sessions
  imports Js_Text Envelope Base64
begin

text \<open>
  Admin sessions and passwords: \<^verbatim>\<open>src/src/admin-api/session.ts\<close> and \<^verbatim>\<open>src/src/lib/password.ts\<close>. The clock, the random
  identifier of a new session, the keyed hash (\<open>hmac\<close>) and the key derivation (\<open>scrypt\<close>) are arguments. A call of the
  store is a function from its map to its map; the theorems are about every sequence of calls.
\<close>

section \<open>The store\<close>

record session_data =
  ss_userId :: string
  ss_firmId :: string
  ss_email :: string
  ss_role :: user_role
  ss_expiresAt :: int

type_synonym sessions = "(string, session_data) jsmap"

definition SESSION_COOKIE :: string where
  "SESSION_COOKIE = ''vibe_admin_sess''"

definition TTL_MS :: int where
  "TTL_MS = 12 * 3600000"

text \<open>The first entry among those that expire soonest.\<close>

fun find_oldest :: "sessions \<Rightarrow> (string \<times> int) option \<Rightarrow> (string \<times> int) option" where
  "find_oldest [] acc = acc"
| "find_oldest ((i, s) # m) acc =
     find_oldest m (case acc of
        None \<Rightarrow> Some (i, ss_expiresAt s)
      | Some (_, t) \<Rightarrow> if ss_expiresAt s < t then Some (i, ss_expiresAt s) else acc)"

lemma find_oldest_in:
  "find_oldest m acc = Some (i, t) \<Longrightarrow> acc = Some (i, t) \<or> (\<exists>s. (i, s) \<in> set m \<and> ss_expiresAt s = t)"
  by (induction m acc rule: find_oldest.induct) (auto split: option.splits if_splits prod.splits)

function evict_loop :: "int \<Rightarrow> sessions \<Rightarrow> sessions" where
  "evict_loop maxSessions m =
     (if int (length m) \<ge> maxSessions
      then (case find_oldest m None of None \<Rightarrow> m | Some (i, _) \<Rightarrow> evict_loop maxSessions (map_delete i m))
      else m)"
  by pat_completeness auto
termination
proof (relation "measure (length \<circ> snd)")
  fix maxSessions :: int and m :: sessions and p i t
  assume "find_oldest m None = Some p" "(i, t) = p"
  then have "i \<in> fst ` set m"
    using find_oldest_in [of m None i t] by force
  then show "((maxSessions, map_delete i m), maxSessions, m) \<in> measure (length \<circ> snd)"
    by (simp add: length_map_delete_present)
qed simp

declare evict_loop.simps [simp del]

definition evictIfNeeded :: "int \<Rightarrow> int \<Rightarrow> sessions \<Rightarrow> sessions" where
  "evictIfNeeded maxSessions now m = evict_loop maxSessions (filter (\<lambda>(_, s). \<not> ss_expiresAt s < now) m)"

definition session_cookie :: "(string \<Rightarrow> string) \<Rightarrow> string \<Rightarrow> string" where
  "session_cookie hmac i = i @ ''.'' @ hmac i"

definition session_create ::
    "(string \<Rightarrow> string) \<Rightarrow> int \<Rightarrow> session_data \<Rightarrow> string \<Rightarrow> int \<Rightarrow> sessions \<Rightarrow> string \<times> sessions" where
  "session_create hmac maxSessions d i now m =
     (session_cookie hmac i, map_set i (d\<lparr>ss_expiresAt := now + TTL_MS\<rparr>) (evictIfNeeded maxSessions now m))"

text \<open>The text before and after the last dot.\<close>

definition last_dot :: "string \<Rightarrow> (string \<times> string) option" where
  "last_dot s =
     (case dropWhile (\<lambda>c. c \<noteq> CHR ''.'') (rev s) of
        [] \<Rightarrow> None
      | _ # i \<Rightarrow> Some (rev i, rev (takeWhile (\<lambda>c. c \<noteq> CHR ''.'') (rev s))))"

definition session_get :: "(string \<Rightarrow> string) \<Rightarrow> string option \<Rightarrow> int \<Rightarrow> sessions \<Rightarrow> session_data option \<times> sessions" where
  "session_get hmac cookie now m =
     (case Option.bind cookie last_dot of
        None \<Rightarrow> (None, m)
      | Some (i, sig) \<Rightarrow>
          if sig \<noteq> hmac i then (None, m)
          else (case map_get m i of
                  None \<Rightarrow> (None, m)
                | Some s \<Rightarrow>
                    if ss_expiresAt s < now then (None, map_delete i m)
                    else (let s' = s\<lparr>ss_expiresAt := now + TTL_MS\<rparr> in (Some s', map_set i s' m))))"

text \<open>Without a dot, \<open>slice(0, -1)\<close> drops the last character.\<close>

definition destroyed_id :: "string \<Rightarrow> string" where
  "destroyed_id cookie = (case last_dot cookie of None \<Rightarrow> butlast cookie | Some (i, _) \<Rightarrow> i)"

definition session_destroy :: "string option \<Rightarrow> sessions \<Rightarrow> sessions" where
  "session_destroy cookie m =
     (case cookie of None \<Rightarrow> m | Some c \<Rightarrow> if c = [] then m else map_delete (destroyed_id c) m)"

definition destroyByUser :: "string \<Rightarrow> sessions \<Rightarrow> nat \<times> sessions" where
  "destroyByUser u m =
     (length (filter (\<lambda>(_, s). ss_userId s = u) m), filter (\<lambda>(_, s). ss_userId s \<noteq> u) m)"

section \<open>Cookies\<close>

fun add_cookie :: "string \<Rightarrow> (string, string) jsmap \<Rightarrow> (string, string) jsmap" where
  "add_cookie part out =
     (case dropWhile (\<lambda>c. c \<noteq> CHR ''='') part of
        [] \<Rightarrow> out
      | _ # v \<Rightarrow>
          (case decodeURIComponent (trim v) of
             None \<Rightarrow> out
           | Some val \<Rightarrow> map_set (trim (takeWhile (\<lambda>c. c \<noteq> CHR ''='') part)) val out))"

definition parseCookies :: "string option \<Rightarrow> (string, string) jsmap" where
  "parseCookies header =
     (case header of
        None \<Rightarrow> []
      | Some h \<Rightarrow> if h = [] then [] else fold add_cookie (split_on CHR '';'' h) [])"

definition cookie_pair :: "string \<Rightarrow> string" where
  "cookie_pair v = SESSION_COOKIE @ ''='' @ encodeURIComponent v"

definition setSessionCookie :: "string \<Rightarrow> bool \<Rightarrow> string" where
  "setSessionCookie v secure =
     join ''; '' ([cookie_pair v, ''Path=/'', ''HttpOnly'', ''SameSite=Strict'', ''Max-Age='' @ show_int (TTL_MS div 1000)]
       @ (if secure then [''Secure''] else []))"

definition clearSessionCookie :: string where
  "clearSessionCookie = SESSION_COOKIE @ ''=; Path=/; HttpOnly; SameSite=Strict; Max-Age=0''"

section \<open>Passwords\<close>

text \<open>The derived key, or \<open>None\<close> when the parameters are refused; byte strings are texts.\<close>

type_synonym kdf = "string \<Rightarrow> string \<Rightarrow> js_number \<Rightarrow> js_number \<Rightarrow> js_number \<Rightarrow> string option"

definition hashPassword :: "kdf \<Rightarrow> string \<Rightarrow> string \<Rightarrow> string option" where
  "hashPassword scrypt salt pw =
     map_option (\<lambda>key. ''scrypt$16384$8$1$'' @ b64_encode salt @ ''$'' @ b64_encode key) (scrypt pw salt (Fin 16384) (Fin 8) (Fin 1))"

text \<open>The answer, or \<open>None\<close> when the derivation throws.\<close>

definition verifyPassword :: "kdf \<Rightarrow> string \<Rightarrow> string \<Rightarrow> bool option" where
  "verifyPassword scrypt pw stored =
     (case split_on CHR ''$'' stored of
        [tag, n, r, p, salt, hash] \<Rightarrow>
          if tag \<noteq> ''scrypt'' then Some False
          else map_option (\<lambda>key. key = b64_decode hash) (scrypt pw (b64_decode salt) (js_Number n) (js_Number r) (js_Number p))
      | _ \<Rightarrow> Some False)"

section \<open>Calls\<close>

datatype session_op =
    CreateOp session_data string int
  | GetOp "string option" int
  | DestroyOp "string option"
  | DestroyUserOp string

fun session_call :: "(string \<Rightarrow> string) \<Rightarrow> int \<Rightarrow> session_op \<Rightarrow> sessions \<Rightarrow> sessions" where
  "session_call hmac maxSessions (CreateOp d i now) m = snd (session_create hmac maxSessions d i now m)"
| "session_call hmac maxSessions (GetOp c now) m = snd (session_get hmac c now m)"
| "session_call hmac maxSessions (DestroyOp c) m = session_destroy c m"
| "session_call hmac maxSessions (DestroyUserOp u) m = snd (destroyByUser u m)"

section \<open>Eviction\<close>

lemma find_oldest_None: "find_oldest m acc = None \<longleftrightarrow> m = [] \<and> acc = None"
  by (induction m acc rule: find_oldest.induct) (auto split: option.splits)

text \<open>What eviction drops is gone, the rest is unchanged.\<close>

definition part_of :: "sessions \<Rightarrow> sessions \<Rightarrow> bool" where
  "part_of m' m \<longleftrightarrow> map_ok m' \<and> (\<forall>i s. map_get m' i = Some s \<longrightarrow> map_get m i = Some s) \<and> length m' \<le> length m"

lemma map_get_iff: "map_ok m \<Longrightarrow> map_get m i = Some s \<longleftrightarrow> (i, s) \<in> set m"
  by (simp add: map_get_def map_ok_def)

lemma part_filter: "map_ok m \<Longrightarrow> part_of (filter P m) m"
  using map_ok_filter [of m P] by (simp add: part_of_def map_get_iff)

lemma part_delete: "map_ok m \<Longrightarrow> part_of (map_delete i m) m"
  unfolding map_delete_def by (rule part_filter)

lemma part_trans: "part_of a b \<Longrightarrow> part_of b c \<Longrightarrow> part_of a c"
  by (auto simp: part_of_def)

lemma evict_part: "map_ok m \<Longrightarrow> part_of (evict_loop k m) m"
proof (induction k m rule: evict_loop.induct)
  case (1 k m)
  show ?case
  proof (cases "int (length m) \<ge> k \<and> find_oldest m None \<noteq> None")
    case True
    then obtain i t where o: "find_oldest m None = Some (i, t)"
      by auto
    have "part_of (evict_loop k (map_delete i m)) (map_delete i m)"
      using 1 True o by auto
    with part_trans part_delete [OF "1.prems"] True o show ?thesis
      by (subst evict_loop.simps) auto
  next
    case False
    then have "evict_loop k m = m"
      by (subst evict_loop.simps) (auto split: option.split)
    with "1.prems" show ?thesis
      by (simp add: part_of_def)
  qed
qed

lemma evict_room: "1 \<le> k \<Longrightarrow> int (length (evict_loop k m)) < k"
proof (induction k m rule: evict_loop.induct)
  case (1 k m)
  then show ?case
    by (subst evict_loop.simps) (auto split: option.splits simp: find_oldest_None)
qed

lemma evictIfNeeded_part: "map_ok m \<Longrightarrow> part_of (evictIfNeeded k now m) m"
  unfolding evictIfNeeded_def by (meson evict_part map_ok_filter part_filter part_trans)

definition store_ok :: "int \<Rightarrow> sessions \<Rightarrow> bool" where
  "store_ok maxSessions m \<longleftrightarrow> map_ok m \<and> int (length m) \<le> maxSessions"

lemma store_part: "part_of m' m \<Longrightarrow> store_ok k m \<Longrightarrow> store_ok k m'"
  by (auto simp: part_of_def store_ok_def)

lemma store_delete: "store_ok k m \<Longrightarrow> store_ok k (map_delete i m)"
  by (rule store_part [OF part_delete]) (simp_all add: store_ok_def)

lemma last_dot_split:
  assumes "last_dot v = Some (i, sig)"
  shows "v = i @ ''.'' @ sig"
proof -
  obtain x r where d: "dropWhile (\<lambda>c. c \<noteq> CHR ''.'') (rev v) = x # r"
    and ir: "i = rev r" "sig = rev (takeWhile (\<lambda>c. c \<noteq> CHR ''.'') (rev v))"
    using assms by (auto simp: last_dot_def split: list.splits)
  then have "x = CHR ''.''"
    using hd_dropWhile [of "\<lambda>c. c \<noteq> CHR ''.''" "rev v"] by simp
  then have "rev v = rev sig @ CHR ''.'' # rev i"
    using takeWhile_dropWhile_id [of "\<lambda>c. c \<noteq> CHR ''.''" "rev v"] d ir by simp
  then have "rev (rev v) = rev (rev sig @ CHR ''.'' # rev i)"
    by (rule arg_cong)
  then show ?thesis
    by simp
qed

text \<open>The three things a lookup can do to the store.\<close>

lemma get_map:
  "snd (session_get hmac c now m) = m
   \<or> (\<exists>i. snd (session_get hmac c now m) = map_delete i m)
   \<or> (\<exists>i s. map_get m i = Some s \<and> c = Some (session_cookie hmac i)
        \<and> snd (session_get hmac c now m) = map_set i (s\<lparr>ss_expiresAt := now + TTL_MS\<rparr>) m)"
proof (cases "Option.bind c last_dot")
  case (Some p)
  obtain i sig where p: "p = (i, sig)"
    by (cases p)
  from Some p obtain v where v: "c = Some v" "last_dot v = Some (i, sig)"
    by (cases c) auto
  with Some p last_dot_split [OF v(2)] show ?thesis
    by (auto simp: session_get_def session_cookie_def Let_def split: option.splits)
qed (simp add: session_get_def)

lemma store_ok_step: "1 \<le> k \<Longrightarrow> store_ok k m \<Longrightarrow> store_ok k (session_call hmac k op m)"
proof (cases op)
  case (CreateOp d i now)
  assume "1 \<le> k" "store_ok k m"
  then have "map_ok (evictIfNeeded k now m)" "int (length (evictIfNeeded k now m)) < k"
    using evictIfNeeded_part [of m k now] evict_room unfolding evictIfNeeded_def by (auto simp: store_ok_def part_of_def)
  then show ?thesis
    using CreateOp by (simp add: store_ok_def session_create_def length_map_set)
next
  case (GetOp c now)
  assume "store_ok k m"
  then have "map_get m i = Some s \<Longrightarrow> store_ok k (map_set i s' m)" for i s s'
    by (simp add: store_ok_def length_map_set)
  with \<open>store_ok k m\<close> show ?thesis
    using get_map [of hmac c now m] store_delete GetOp by fastforce
next
  case (DestroyOp c)
  assume "store_ok k m"
  with DestroyOp show ?thesis
    by (simp add: session_destroy_def store_delete split: option.splits)
next
  case (DestroyUserOp u)
  assume "store_ok k m"
  then have "store_ok k (filter P m)" for P
    by (intro store_part [OF part_filter]) (simp_all add: store_ok_def)
  with DestroyUserOp show ?thesis
    by (simp add: destroyByUser_def)
qed

text \<open>The store under every sequence of calls; a bound below one is not kept, since a login always enters its session.\<close>

interpretation bounded_store: call_driven "[]" "session_call hmac (max 1 k)" "\<lambda>_ _. True" "store_ok (max 1 k)"
  by unfold_locales (simp add: store_ok_def, rule store_ok_step, simp)

section \<open>Where a session comes from\<close>

text \<open>A login that nothing has ended since: the entry of the store it accounts for.\<close>

definition origin :: "(string \<Rightarrow> string) \<Rightarrow> session_op list \<Rightarrow> string \<Rightarrow> session_data \<Rightarrow> bool" where
  "origin hmac cs i s \<longleftrightarrow>
     (\<exists>pre d t post t'. cs = pre @ CreateOp d i t # post \<and> s = d\<lparr>ss_expiresAt := t' + TTL_MS\<rparr>
        \<and> (t' = t \<or> GetOp (Some (session_cookie hmac i)) t' \<in> set post)
        \<and> DestroyUserOp (ss_userId d) \<notin> set post
        \<and> (\<forall>c. c \<noteq> [] \<and> DestroyOp (Some c) \<in> set post \<longrightarrow> destroyed_id c \<noteq> i))"

lemma origin_later:
  assumes "origin hmac cs i s" "op \<noteq> DestroyUserOp (ss_userId s)" "\<And>c. op = DestroyOp (Some c) \<Longrightarrow> c \<noteq> [] \<Longrightarrow> destroyed_id c \<noteq> i"
  shows "origin hmac (cs @ [op]) i s"
proof -
  obtain pre d t post t' where o: "cs = pre @ CreateOp d i t # post" "s = d\<lparr>ss_expiresAt := t' + TTL_MS\<rparr>"
    "t' = t \<or> GetOp (Some (session_cookie hmac i)) t' \<in> set post" "DestroyUserOp (ss_userId d) \<notin> set post"
    "\<forall>c. c \<noteq> [] \<and> DestroyOp (Some c) \<in> set post \<longrightarrow> destroyed_id c \<noteq> i"
    using assms(1) unfolding origin_def by blast
  have "cs @ [op] = pre @ CreateOp d i t # (post @ [op])" "DestroyUserOp (ss_userId d) \<notin> set (post @ [op])"
    "t' = t \<or> GetOp (Some (session_cookie hmac i)) t' \<in> set (post @ [op])"
    "\<forall>c. c \<noteq> [] \<and> DestroyOp (Some c) \<in> set (post @ [op]) \<longrightarrow> destroyed_id c \<noteq> i"
    using o assms(2,3) by auto
  with o(2) show ?thesis
    unfolding origin_def by blast
qed

lemma origin_created: "origin hmac (cs @ [CreateOp d i t]) i (d\<lparr>ss_expiresAt := t + TTL_MS\<rparr>)"
  unfolding origin_def by (rule exI [of _ cs]) fastforce

lemma origin_used:
  assumes "origin hmac cs i s"
  shows "origin hmac (cs @ [GetOp (Some (session_cookie hmac i)) now]) i (s\<lparr>ss_expiresAt := now + TTL_MS\<rparr>)"
proof -
  let ?op = "GetOp (Some (session_cookie hmac i)) now"
  obtain pre d t post t' where o: "cs = pre @ CreateOp d i t # post" "s = d\<lparr>ss_expiresAt := t' + TTL_MS\<rparr>"
    "DestroyUserOp (ss_userId d) \<notin> set post" "\<forall>c. c \<noteq> [] \<and> DestroyOp (Some c) \<in> set post \<longrightarrow> destroyed_id c \<noteq> i"
    using assms unfolding origin_def by blast
  then have "cs @ [?op] = pre @ CreateOp d i t # (post @ [?op])" "s\<lparr>ss_expiresAt := now + TTL_MS\<rparr> = d\<lparr>ss_expiresAt := now + TTL_MS\<rparr>"
    "?op \<in> set (post @ [?op])" "DestroyUserOp (ss_userId d) \<notin> set (post @ [?op])"
    "\<forall>c. c \<noteq> [] \<and> DestroyOp (Some c) \<in> set (post @ [?op]) \<longrightarrow> destroyed_id c \<noteq> i"
    by auto
  then show ?thesis
    unfolding origin_def by blast
qed

lemma origin_step:
  assumes "map_ok m" "\<And>i s. map_get m i = Some s \<Longrightarrow> origin hmac cs i s"
    and "map_get (session_call hmac k op m) i = Some s"
  shows "origin hmac (cs @ [op]) i s"
proof (cases op)
  case (CreateOp d j t)
  have "part_of (evictIfNeeded k t m) m"
    by (rule evictIfNeeded_part [OF assms(1)])
  then have "i \<noteq> j \<Longrightarrow> map_get m i = Some s"
    using assms(3) CreateOp by (simp add: session_create_def part_of_def)
  with assms CreateOp origin_created show ?thesis
    by (cases "i = j") (auto simp: session_create_def intro: origin_later)
next
  case (GetOp c now)
  have kept: "map_get m i = Some s \<Longrightarrow> origin hmac (cs @ [op]) i s"
    using assms(2) GetOp by (auto intro: origin_later)
  consider "map_get m i = Some s"
    | s0 where "map_get m i = Some s0" "c = Some (session_cookie hmac i)" "s = s0\<lparr>ss_expiresAt := now + TTL_MS\<rparr>"
    using get_map [of hmac c now m] assms(3) GetOp by (auto split: if_splits)
  then show ?thesis
    using kept origin_used assms(2) GetOp by cases auto
next
  case (DestroyOp c)
  with assms have "map_get m i = Some s" "\<And>v. c = Some v \<Longrightarrow> v \<noteq> [] \<Longrightarrow> destroyed_id v \<noteq> i"
    by (auto simp: session_destroy_def split: option.splits if_splits)
  with assms(2) DestroyOp show ?thesis
    by (auto intro: origin_later)
next
  case (DestroyUserOp u)
  with assms have "map_get m i = Some s" "ss_userId s \<noteq> u"
    using part_filter [OF assms(1)] map_ok_filter [OF assms(1)] by (auto simp: destroyByUser_def map_get_iff)
  with assms(2) DestroyUserOp show ?thesis
    by (auto intro: origin_later)
qed

lemma origin_run:
  assumes "1 \<le> k"
  shows "map_get (fold (session_call hmac k) cs []) i = Some s \<Longrightarrow> origin hmac cs i s"
proof (induction cs arbitrary: i s rule: rev_induct)
  case (snoc op cs)
  have "map_ok (fold (session_call hmac k) cs [])"
    using bounded_store.inv_run [of hmac k cs] assms by (simp add: max_absorb2 store_ok_def)
  with origin_step [OF this, of hmac cs k op i s] snoc show ?case
    by simp
qed simp

section \<open>Cookies read back\<close>

lemma last_dot_cookie:
  assumes "CHR ''.'' \<notin> set (hmac i)"
  shows "last_dot (session_cookie hmac i) = Some (i, hmac i)"
proof -
  have "dropWhile (\<lambda>c. c \<noteq> CHR ''.'') (rev (hmac i) @ CHR ''.'' # rev i) = CHR ''.'' # rev i"
    using assms by (subst dropWhile_append2) auto
  moreover have "takeWhile (\<lambda>c. c \<noteq> CHR ''.'') (rev (hmac i) @ CHR ''.'' # rev i) = rev (hmac i)"
    using assms by (subst takeWhile_append2) auto
  ultimately show ?thesis
    by (simp add: last_dot_def session_cookie_def)
qed

lemma encoded_chars: "c \<in> set (encodeURIComponent v) \<Longrightarrow> uri_plain c \<or> c = CHR ''%''"
proof -
  have hex: "uri_plain (upper_hex k)" if "k < 16" for k
    using that by (auto simp: uri_plain_def upper_hex_def is_digit_def)
  have "c \<in> set (percent_encode d) \<Longrightarrow> uri_plain c \<or> c = CHR ''%''" for d
    using char_code_bound [of d] by (auto simp: percent_encode_def utf8_bytes_def Let_def intro!: hex split: if_splits)
  moreover assume "c \<in> set (encodeURIComponent v)"
  ultimately show ?thesis
    by (auto simp: encodeURIComponent_def split: if_splits)
qed

lemma uri_plain_safe: "uri_plain c \<Longrightarrow> \<not> is_space c \<and> c \<noteq> CHR '';''"
  by (auto simp: uri_plain_def is_digit_def is_space_def char_code_def)

lemma encoded_safe: "c \<in> set (encodeURIComponent v) \<Longrightarrow> \<not> is_space c \<and> c \<noteq> CHR '';''"
  using encoded_chars [of c v] uri_plain_safe [of c] by (auto simp: is_space_def char_code_def)

lemma encoded_tight: "trim (encodeURIComponent v) = encodeURIComponent v"
  using encoded_safe [OF hd_in_set, of v] encoded_safe [OF last_in_set, of v] by (intro trim_tight) (auto simp: tight_def)

lemma cookie_read: "parseCookies (Some (cookie_pair v)) = [(SESSION_COOKIE, v)]"
proof -
  have "CHR '';'' \<notin> set (cookie_pair v)"
    using encoded_safe [of "CHR '';''" v] by (auto simp: cookie_pair_def SESSION_COOKIE_def)
  then have "parseCookies (Some (cookie_pair v)) = add_cookie (cookie_pair v) []"
    by (simp add: parseCookies_def split_on_plain del: add_cookie.simps) (simp add: cookie_pair_def)
  moreover have "dropWhile (\<lambda>c. c \<noteq> CHR ''='') (cookie_pair v) = CHR ''='' # encodeURIComponent v"
    "takeWhile (\<lambda>c. c \<noteq> CHR ''='') (cookie_pair v) = SESSION_COOKIE"
    by (simp_all add: cookie_pair_def SESSION_COOKIE_def)
  moreover have "trim SESSION_COOKIE = SESSION_COOKIE"
    by (simp add: trim_def SESSION_COOKIE_def is_space_def char_code_def)
  ultimately show ?thesis
    by (simp add: encoded_tight uri_component_roundtrip)
qed

section \<open>Properties\<close>

text \<open>
  C28. Nobody gets an admin session without a login: whenever the store answers a cookie with a session, after any sequence of
  calls, the cookie is an identifier with the store's own signature, a login created exactly this session, neither a logout with
  that identifier nor an invalidation of the user has happened since, and the login or the last use of the cookie is at most
  twelve hours old. The store never holds more sessions than its bound.
\<close>

theorem session_authentic:
  assumes "1 \<le> k" and "session_get hmac (Some v) now (fold (session_call hmac k) cs []) = (Some s, m)"
  shows "(\<exists>i pre d t post t'. v = session_cookie hmac i \<and> cs = pre @ CreateOp d i t # post
      \<and> s = d\<lparr>ss_expiresAt := now + TTL_MS\<rparr> \<and> DestroyUserOp (ss_userId d) \<notin> set post
      \<and> (\<forall>c. c \<noteq> [] \<and> DestroyOp (Some c) \<in> set post \<longrightarrow> destroyed_id c \<noteq> i)
      \<and> (t' = t \<or> GetOp (Some v) t' \<in> set post) \<and> now \<le> t' + TTL_MS)
    \<and> int (length (fold (session_call hmac k) cs [])) \<le> k"
proof
  let ?m = "fold (session_call hmac k) cs []"
  show "int (length ?m) \<le> k"
    using bounded_store.inv_run [of hmac k cs] assms(1) by (simp add: max_absorb2 store_ok_def)
  obtain i s0 where i: "v = session_cookie hmac i" "map_get ?m i = Some s0" "now \<le> ss_expiresAt s0"
    "s = s0\<lparr>ss_expiresAt := now + TTL_MS\<rparr>"
    using assms(2) by (auto simp: session_get_def session_cookie_def Let_def dest!: last_dot_split split: option.splits if_splits)
  obtain pre d t post t' where "cs = pre @ CreateOp d i t # post" "s0 = d\<lparr>ss_expiresAt := t' + TTL_MS\<rparr>"
    "t' = t \<or> GetOp (Some (session_cookie hmac i)) t' \<in> set post" "DestroyUserOp (ss_userId d) \<notin> set post"
    "\<forall>c. c \<noteq> [] \<and> DestroyOp (Some c) \<in> set post \<longrightarrow> destroyed_id c \<noteq> i"
    using origin_run [OF assms(1) i(2)] unfolding origin_def by blast
  with i show "\<exists>i pre d t post t'. v = session_cookie hmac i \<and> cs = pre @ CreateOp d i t # post
      \<and> s = d\<lparr>ss_expiresAt := now + TTL_MS\<rparr> \<and> DestroyUserOp (ss_userId d) \<notin> set post
      \<and> (\<forall>c. c \<noteq> [] \<and> DestroyOp (Some c) \<in> set post \<longrightarrow> destroyed_id c \<noteq> i)
      \<and> (t' = t \<or> GetOp (Some v) t' \<in> set post) \<and> now \<le> t' + TTL_MS"
    by (intro exI [of _ i] exI [of _ pre] exI [of _ d] exI [of _ t] exI [of _ post] exI [of _ t']) simp
qed

definition ex_admin :: session_data where
  "ex_admin = \<lparr>ss_userId = ''u'', ss_firmId = ''f'', ss_email = ''e'', ss_role = Admin, ss_expiresAt = 0\<rparr>"

theorem session_authentic_witness:
  "\<exists>i pre d t post. ''a.s'' = session_cookie (\<lambda>_. ''s'') i \<and> [CreateOp ex_admin ''a'' 0, DestroyUserOp ''w''] = pre @ CreateOp d i t # post"
proof -
  have "session_get (\<lambda>_. ''s'') (Some ''a.s'') 5 (fold (session_call (\<lambda>_. ''s'') 1) [CreateOp ex_admin ''a'' 0, DestroyUserOp ''w''] [])
      = (Some (ex_admin\<lparr>ss_expiresAt := 5 + TTL_MS\<rparr>), [(''a'', ex_admin\<lparr>ss_expiresAt := 5 + TTL_MS\<rparr>)])"
    by (simp add: session_create_def evictIfNeeded_def evict_loop.simps destroyByUser_def session_get_def last_dot_def map_get_def
        TTL_MS_def ex_admin_def Let_def)
  from session_authentic [OF _ this] show ?thesis
    by simp blast
qed

text \<open>
  A login works: the cookie that \<open>setSessionCookie\<close> writes for a new session, sent back by the browser and parsed, is
  answered with that session at any time within twelve hours, whatever the store held before.
\<close>

theorem login_cookie_roundtrip:
  assumes "CHR ''.'' \<notin> set (hmac i)" "now \<le> t + TTL_MS" "session_create hmac k d i t m = (v, m')"
  shows "\<exists>rest. setSessionCookie v secure = cookie_pair v @ ''; Path=/; HttpOnly; SameSite=Strict'' @ rest
    \<and> fst (session_get hmac (map_get (parseCookies (Some (cookie_pair v))) SESSION_COOKIE) now m')
      = Some (d\<lparr>ss_expiresAt := now + TTL_MS\<rparr>)"
proof -
  have "map_get (parseCookies (Some (cookie_pair v))) SESSION_COOKIE = Some v"
    by (simp add: cookie_read map_get_def)
  moreover have "v = session_cookie hmac i" "map_get m' i = Some (d\<lparr>ss_expiresAt := t + TTL_MS\<rparr>)"
    using assms(3) by (auto simp: session_create_def)
  ultimately show ?thesis
    using assms(1,2) by (simp add: setSessionCookie_def session_get_def last_dot_cookie Let_def)
qed

theorem login_cookie_roundtrip_witness:
  "fst (session_get (\<lambda>_. ''s'') (map_get (parseCookies (Some (cookie_pair ''a.s''))) SESSION_COOKIE) 7
     (snd (session_create (\<lambda>_. ''s'') 1 ex_admin ''a'' 3 [(''b'', ex_admin)]))) = Some (ex_admin\<lparr>ss_expiresAt := 7 + TTL_MS\<rparr>)"
proof -
  have "session_create (\<lambda>_. ''s'') 1 ex_admin ''a'' 3 [(''b'', ex_admin)]
      = (''a.s'', snd (session_create (\<lambda>_. ''s'') 1 ex_admin ''a'' 3 [(''b'', ex_admin)]))"
    by (simp add: session_create_def session_cookie_def)
  from login_cookie_roundtrip [OF _ _ this, of 7] show ?thesis
    by (simp add: TTL_MS_def)
qed

text \<open>
  A password is accepted exactly when it derives the stored key: the stored text is read back with the salt and the cost
  parameters it was made with.
\<close>

theorem password_verified:
  assumes "hashPassword scrypt salt pw = Some stored" and "scrypt pw salt (Fin 16384) (Fin 8) (Fin 1) = Some key"
  shows "verifyPassword scrypt attempt stored = map_option (\<lambda>key'. key' = key) (scrypt attempt salt (Fin 16384) (Fin 8) (Fin 1))"
proof -
  have plain: "CHR ''$'' \<notin> set (b64_encode x)" for x
  proof -
    have "b64_char k \<noteq> CHR ''$''" if "k < 64" for k
      using sextet_char [OF that] by (auto simp: sextet_def char_code_def)
    moreover have "\<forall>y\<in>set (map char_code x). y < 256"
      by (simp add: char_code_bound)
    then have "k < 64" if "k \<in> set (b64_sextets (map char_code x))" for k
      using sextets_bound that by blast
    moreover have "\<exists>k\<in>set (b64_sextets (map char_code x)). b64_char k = CHR ''$''" if "CHR ''$'' \<in> set (b64_encode x)"
      using that by (auto simp: b64_encode_def b64_padding_def split: if_splits)
    ultimately show ?thesis
      by blast
  qed
  have stored: "stored = ''scrypt$16384$8$1$'' @ b64_encode salt @ CHR ''$'' # b64_encode key"
    using assms by (simp add: hashPassword_def)
  have "split_on CHR ''$'' stored = [''scrypt'', ''16384'', ''8'', ''1'', b64_encode salt, b64_encode key]"
    unfolding stored using split_on_cons [OF plain, of salt "b64_encode key"] split_on_plain [OF plain, of key] by simp
  moreover have "js_Number ''16384'' = Fin 16384" "js_Number ''8'' = Fin 8" "js_Number ''1'' = Fin 1"
    using number_of_digits [of 16384] number_of_digits [of 8] number_of_digits [of 1] by (simp_all add: show_nat.simps char_of_def bit_0)
  ultimately show ?thesis
    by (simp add: verifyPassword_def b64_roundtrip)
qed

end
