(* ===== verification/Calendar.thy ===== *)
theory Calendar
  imports Ledger Json_Roundtrip
begin

text \<open>
  The calendar behind \<^verbatim>\<open>new Date(now)\<close> and \<^verbatim>\<open>Date.UTC\<close> as the ledger uses them: months follow one another without gap or
  overlap, and the month computed for a timestamp is the one whose first instants enclose it.
\<close>

section \<open>Months follow one another\<close>

definition year_days :: "int \<Rightarrow> int" where
  "year_days y = 365 * y + y div 4 - y div 100 + y div 400"

lemma era_days: "y div 400 * 146097 + ((y mod 400) * 365 + (y mod 400) div 4 - (y mod 400) div 100) = year_days y" for y :: int
proof -
  define q where "q = y div 400"
  define u where "u = y mod 400"
  have y: "y = u + 400 * q"
    by (simp add: q_def u_def)
  have "(u + 4 * (100 * q)) div 4 = 100 * q + u div 4" "(u + 100 * (4 * q)) div 100 = 4 * q + u div 100"
    by (simp_all only: div_mult_self2)
  moreover have "y = u + 4 * (100 * q)" "y = u + 100 * (4 * q)"
    using y by simp_all
  ultimately have "y div 4 = 100 * q + u div 4" "y div 100 = 4 * q + u div 100"
    by metis+
  then have "year_days y = 365 * y + (100 * q + u div 4) - (4 * q + u div 100) + q"
    by (simp add: year_days_def q_def)
  with y show ?thesis
    unfolding q_def [symmetric] u_def [symmetric] by linarith
qed

lemma div_before:
  fixes y k :: int
  assumes "0 < k" "\<not> k dvd y"
  shows "(y - 1) div k = y div k"
proof -
  have "y mod k \<noteq> 0" "0 \<le> y mod k" "y mod k < k"
    using assms by (auto simp: dvd_eq_mod_eq_0)
  then have "(y mod k - 1) div k = 0"
    by (intro div_pos_pos_trivial) linarith+
  then have "(y mod k - 1 + k * (y div k)) div k = y div k"
    using assms(1) by (simp only: div_mult_self2)
  moreover have "y mod k - 1 + k * (y div k) = y - 1"
    using mult_div_mod_eq [of k y] by linarith
  ultimately show ?thesis
    by simp
qed

lemma year_days_step: "year_days (y - 1) + 365 \<le> year_days y"
proof -
  have mono: "(y - 1) div 4 \<le> y div 4" "(y - 1) div 400 \<le> y div 400"
    by (simp_all add: zdiv_mono1)
  show ?thesis
  proof (cases "100 dvd y")
    case True
    then obtain k where k: "y = 100 * k" ..
    have "(3 + 4 * (25 * k - 1)) div 4 = 25 * k - 1 + 3 div 4" "(99 + 100 * (k - 1)) div 100 = k - 1 + 99 div 100"
      by (simp_all only: div_mult_self2)
    moreover have "3 + 4 * (25 * k - 1) = y - 1" "99 + 100 * (k - 1) = y - 1"
      using k by simp_all
    ultimately have "(y - 1) div 4 = 25 * k - 1" "(y - 1) div 100 = k - 1"
      by simp_all
    moreover have "y div 4 = 25 * k" "y div 100 = k"
      using k by simp_all
    ultimately show ?thesis
      using mono by (simp add: year_days_def)
  next
    case False
    with mono div_before [of 100 y] show ?thesis
      by (simp add: year_days_def)
  qed
qed

definition month_start :: "int \<Rightarrow> int" where
  "month_start n = month_first_day (n div 12, n mod 12 + 1) * MS_PER_DAY"

lemma month_first_day_eq:
  "month_first_day (y, m) = year_days (if m \<le> 2 then y - 1 else y) + (153 * (if m > 2 then m - 3 else m + 9) + 2) div 5 - 719468"
  using era_days by (simp add: month_first_day_def Let_def algebra_simps)

lemma month_within_year:
  assumes "0 \<le> m" "m < 11"
  shows "month_first_day (y, m + 1) < month_first_day (y, m + 2)"
proof -
  have "m = 0 \<or> m = 1 \<or> m = 2 \<or> m = 3 \<or> m = 4 \<or> m = 5 \<or> m = 6 \<or> m = 7 \<or> m = 8 \<or> m = 9 \<or> m = 10"
    using assms by presburger
  then show ?thesis
    using year_days_step [of y] by (elim disjE) (simp_all add: month_first_day_eq)
qed

lemma month_across_year: "month_first_day (y, 12) < month_first_day (y + 1, 1)"
  unfolding month_first_day_eq by simp

lemma month_start_split: "0 \<le> m \<Longrightarrow> m < 12 \<Longrightarrow> month_start (m + 12 * y) = month_first_day (y, m + 1) * MS_PER_DAY"
  unfolding month_start_def by (simp only: div_mult_self2 mod_mult_self2) (simp add: div_pos_pos_trivial mod_pos_pos_trivial)

lemma month_start_step: "month_start n < month_start (n + 1)"
proof -
  define y m where "y = n div 12" and "m = n mod 12"
  have n: "n = m + 12 * y" and m: "0 \<le> m" "m < 12"
    by (simp_all add: y_def m_def)
  show ?thesis
  proof (cases "m = 11")
    case True
    then have "n = 11 + 12 * y" "n + 1 = 0 + 12 * (y + 1)"
      using n by simp_all
    then show ?thesis
      using month_start_split [of 11 y] month_start_split [of 0 "y + 1"] month_across_year [of y]
      by (simp add: MS_PER_DAY_def add.commute)
  next
    case False
    then have suc: "n + 1 = m + 1 + 12 * y" and "m < 11"
      using n m by simp_all
    have "month_start n = month_first_day (y, m + 1) * MS_PER_DAY" "month_start (n + 1) = month_first_day (y, m + 1 + 1) * MS_PER_DAY"
      unfolding suc unfolding n by (rule month_start_split; use m \<open>m < 11\<close> in simp)+
    then show ?thesis
      using m \<open>m < 11\<close> month_within_year [of m y] by (simp add: MS_PER_DAY_def add.commute)
  qed
qed

lemma month_start_mono: "a < b \<Longrightarrow> month_start a < month_start b"
proof (induction b rule: int_gr_induct [where k = a])
  case (step i)
  then show ?case
    using month_start_step [of i] by simp
qed (simp_all add: month_start_step)

lemma months_disjoint:
  assumes "month_start a \<le> t" "t < month_start (a + 1)" "month_start b \<le> t" "t < month_start (b + 1)"
  shows "a = b"
proof (rule ccontr)
  assume "a \<noteq> b"
  then have "a + 1 \<le> b \<or> b + 1 \<le> a"
    by linarith
  then have "month_start (a + 1) \<le> month_start b \<or> month_start (b + 1) \<le> month_start a"
    using month_start_mono by (metis order.order_iff_strict)
  with assms show False
    by linarith
qed

lemma enclosing:
  fixes f :: "int \<Rightarrow> int"
  assumes "a < b" "f a \<le> t" "t < f b"
  shows "\<exists>n. a \<le> n \<and> n < b \<and> f n \<le> t \<and> t < f (n + 1)"
  using assms
proof (induction b rule: int_gr_induct [where k = a])
  case (step i)
  then show ?case
    by (cases "t < f i") (fastforce, intro exI [of _ i], auto)
qed auto

section \<open>The month of a timestamp\<close>

definition era_day :: "int \<Rightarrow> int" where
  "era_day d = d - d div 1460 + d div 36524 - d div 146096"

lemma div_step:
  fixes d k :: int
  assumes "0 < k"
  shows "(d + 1) div k = d div k \<or> (d + 1) div k = d div k + 1"
proof -
  have "d div k \<le> (d + 1) div k" "(d + 1) div k \<le> (d + k) div k"
    by (rule zdiv_mono1; use assms in linarith)+
  then show ?thesis
    using assms by simp linarith
qed

lemma era_day_step: "era_day d \<le> era_day (d + 1)"
proof -
  define a a' where "a = d div 36524" and "a' = (d + 1) div 36524"
  have four: "e div 146096 = e div 36524 div 4" for e :: int
    by (rule zdiv_zmult2_eq [of 4 e 36524, simplified])
  have "a - a div 4 \<le> a' - a' div 4"
    using div_step [of 36524 d] div_step [of 4 a] unfolding a_def [symmetric] a'_def [symmetric] by auto
  moreover have "d - d div 1460 \<le> d + 1 - (d + 1) div 1460"
    using div_step [of 1460 d] by auto
  ultimately show ?thesis
    unfolding era_day_def four a_def [symmetric] a'_def [symmetric] by linarith
qed

lemma era_day_mono: "a \<le> b \<Longrightarrow> era_day a \<le> era_day b"
proof (induction b rule: int_ge_induct [where k = a])
  case (step i)
  then show ?case
    using era_day_step [of i] by simp
qed simp

definition year_start :: "int \<Rightarrow> int" where
  "year_start u = 365 * u + u div 4 - u div 100"

lemma era_years: "list_all (\<lambda>u. u \<le> era_day (year_start u) div 365
    \<and> era_day (year_start (u + 1) - (if u = 399 then 0 else 1)) div 365 \<le> u) [0..399]"
  by code_simp

lemma era_year:
  assumes "0 \<le> d" "d < 146097"
  shows "\<exists>u. era_day d div 365 = u \<and> 0 \<le> u \<and> u < 400 \<and> year_start u \<le> d
    \<and> d < year_start (u + 1) + (if u = 399 then 1 else 0)"
proof -
  let ?f = "\<lambda>u. year_start u + (if u = 400 then 1 else 0)"
  obtain u where u: "0 \<le> u" "u < 400" "?f u \<le> d" "d < ?f (u + 1)"
    using enclosing [of 0 400 ?f d] assms by (auto simp: year_start_def)
  then have "u \<le> era_day (year_start u) div 365 \<and> era_day (year_start (u + 1) - (if u = 399 then 0 else 1)) div 365 \<le> u"
    using era_years by (simp add: list_all_iff)
  moreover have "era_day (year_start u) div 365 \<le> era_day d div 365"
    "era_day d div 365 \<le> era_day (year_start (u + 1) - (if u = 399 then 0 else 1)) div 365"
    using u by (auto intro!: zdiv_mono1 era_day_mono split: if_splits)
  ultimately have "era_day d div 365 = u"
    by linarith
  with u show ?thesis
    by (auto split: if_splits)
qed

lemma month_in_year:
  fixes y :: int
  assumes "0 \<le> y" "y < 366" "p = (5 * y + 2) div 153"
  shows "0 \<le> p \<and> p \<le> 11 \<and> (153 * p + 2) div 5 \<le> y \<and> y < (153 * (p + 1) + 2) div 5"
proof -
  have p: "153 * p \<le> 5 * y + 2" "5 * y + 2 < 153 * p + 153"
    using assms(3) by presburger+
  have "153 * p + 2 \<le> 5 * y + 4" "5 * (y + 1) \<le> 153 * (p + 1) + 2"
    using p by simp_all
  then have "(153 * p + 2) div 5 \<le> (5 * y + 4) div 5" "(5 * (y + 1)) div 5 \<le> (153 * (p + 1) + 2) div 5"
    by (simp_all only: zdiv_mono1 zero_less_numeral)
  then show ?thesis
    using assms(1,2) p by simp
qed

lemma year_days_of: "0 \<le> u \<Longrightarrow> u < 400 \<Longrightarrow> year_days (u + e * 400) = e * 146097 + year_start u"
  using era_days [of "u + e * 400"] by (simp add: year_start_def)

lemma year_of_day:
  assumes "z = d + e * 146097" "0 \<le> d" "d < 146097" "u = era_day d div 365" "y = u + e * 400"
  shows "0 \<le> u \<and> u < 400 \<and> year_days y + (d - year_start u) = z \<and> 0 \<le> d - year_start u \<and> d - year_start u < 366 \<and> z < year_days (y + 1)"
proof -
  have u: "0 \<le> u" "u < 400" "year_start u \<le> d" "d < year_start (u + 1) + (if u = 399 then 1 else 0)"
    using era_year [OF assms(2,3)] assms(4) by auto
  have y: "year_days y = e * 146097 + year_start u"
    using year_days_of [OF u(1,2)] assms(5) by simp
  have "(u + 1) div 4 \<le> u div 4 + 1" "u div 100 \<le> (u + 1) div 100"
    using div_step [of 4 u] div_step [of 100 u] by auto
  then have small: "year_start (u + 1) \<le> year_start u + 366"
    by (simp add: year_start_def)
  have "z < year_days (y + 1) \<and> d - year_start u < 366"
  proof (cases "u = 399")
    case True
    then have "y + 1 = 0 + (e + 1) * 400" "year_start u = 145731"
      using assms(5) by (simp_all add: year_start_def)
    then show ?thesis
      using year_days_of [of 0 "e + 1"] assms(1,3) by (simp add: year_start_def add.commute)
  next
    case False
    then have "year_days (y + 1) = e * 146097 + year_start (u + 1)"
      using year_days_of [of "u + 1" e] u assms(5) by (simp add: add.assoc add.commute [of 1])
    with u small False assms(1) show ?thesis
      by simp
  qed
  with u y assms(1) show ?thesis
    by simp
qed

definition next_month :: "int \<times> int \<Rightarrow> int \<times> int" where
  "next_month ym = (if snd ym = 12 then (fst ym + 1, 1) else (fst ym, snd ym + 1))"

lemma shifted_month:
  assumes "0 \<le> p" "p \<le> 11" "m = (if p < 10 then p + 3 else p - 9)" "y = Y + (if m \<le> 2 then 1 else 0)"
  shows "1 \<le> m \<and> m \<le> 12 \<and> month_first_day (y, m) = year_days Y + (153 * p + 2) div 5 - 719468
    \<and> month_first_day (next_month (y, m)) = (if p = 11 then year_days (Y + 1) else year_days Y + (153 * (p + 1) + 2) div 5) - 719468"
proof -
  have "p = 0 \<or> p = 1 \<or> p = 2 \<or> p = 3 \<or> p = 4 \<or> p = 5 \<or> p = 6 \<or> p = 7 \<or> p = 8 \<or> p = 9 \<or> p = 10 \<or> p = 11"
    using assms(1,2) by presburger
  then show ?thesis
    unfolding assms(4) unfolding assms(3) by (elim disjE) (simp_all add: next_month_def month_first_day_eq)
qed

lemma civil_shape:
  assumes "z = days + 719468" "e = z div 146097" "d = z mod 146097" "u = era_day d div 365"
    "p = (5 * (d - year_start u) + 2) div 153" "m = (if p < 10 then p + 3 else p - 9)"
  shows "civil_year_month days = (u + e * 400 + (if m \<le> 2 then 1 else 0), m)"
  unfolding assms civil_year_month_def Let_def era_day_def year_start_def ..

lemma civil_encloses:
  assumes "civil_year_month days = (y, m)"
  shows "1 \<le> m \<and> m \<le> 12 \<and> month_first_day (y, m) \<le> days \<and> days < month_first_day (next_month (y, m))"
proof -
  define z e d u where "z = days + 719468" and "e = z div 146097" and "d = z mod 146097" and "u = era_day d div 365"
  define doy p where "doy = d - year_start u" and "p = (5 * doy + 2) div 153"
  define Y where "Y = u + e * 400"
  have split: "z = d + e * 146097" "0 \<le> d" "d < 146097"
    by (simp_all add: e_def d_def)
  have yr: "year_days Y + doy = z" "0 \<le> doy" "doy < 366" "z < year_days (Y + 1)"
    using year_of_day [OF split u_def Y_def] by (simp_all add: doy_def)
  have p: "0 \<le> p" "p \<le> 11" "(153 * p + 2) div 5 \<le> doy" "doy < (153 * (p + 1) + 2) div 5"
    using month_in_year [OF yr(2,3) p_def] by simp_all
  define m' where "m' = (if p < 10 then p + 3 else p - 9)"
  have civ: "civil_year_month days = (Y + (if m' \<le> 2 then 1 else 0), m')"
    using civil_shape [OF z_def e_def d_def u_def p_def [unfolded doy_def] m'_def] by (simp only: Y_def)
  have "y = Y + (if m' \<le> 2 then 1 else 0) \<and> m = m'"
    by (rule prod.inject [THEN iffD1, OF trans [OF assms [symmetric] civ]])
  then have ym: "m = m'" "y = Y + (if m' \<le> 2 then 1 else 0)"
    by (rule conjunct2, rule conjunct1)
  have mth: "1 \<le> m" "m \<le> 12" "month_first_day (y, m) = year_days Y + (153 * p + 2) div 5 - 719468"
    "month_first_day (next_month (y, m)) = (if p = 11 then year_days (Y + 1) else year_days Y + (153 * (p + 1) + 2) div 5) - 719468"
    using shifted_month [OF p(1,2) m'_def ym(2)] unfolding ym(1) by simp_all
  have z: "days = z - 719468"
    by (simp add: z_def)
  show ?thesis
    unfolding mth(3,4) using mth(1,2) yr p unfolding z by (cases "p = 11") auto
qed

lemma month_of_encloses:
  assumes "month_of t = (y, m)"
  shows "1 \<le> m \<and> m \<le> 12 \<and> month_start (m - 1 + 12 * y) \<le> t \<and> t < month_start (m - 1 + 12 * y + 1)"
proof -
  let ?d = "t div MS_PER_DAY"
  have enc: "1 \<le> m" "m \<le> 12" "month_first_day (y, m) \<le> ?d" "?d < month_first_day (next_month (y, m))"
    using civil_encloses [of ?d y m] assms by (simp_all add: month_of_def)
  have first: "month_start (m - 1 + 12 * y) = month_first_day (y, m) * MS_PER_DAY"
    using month_start_split [of "m - 1" y] enc by simp
  have after: "month_start (m - 1 + 12 * y + 1) = month_first_day (next_month (y, m)) * MS_PER_DAY"
  proof (cases "m = 12")
    case True
    then show ?thesis
      using month_start_split [of 0 "y + 1"] by (simp add: next_month_def algebra_simps)
  next
    case False
    then show ?thesis
      using month_start_split [of m y] enc by (simp add: next_month_def)
  qed
  have "month_first_day (y, m) * MS_PER_DAY \<le> t"
    using enc(3) by (simp add: MS_PER_DAY_def)
  moreover have "t < month_first_day (next_month (y, m)) * MS_PER_DAY"
    using enc(4) by (simp add: MS_PER_DAY_def)
  ultimately show ?thesis
    using enc(1,2) first after by simp
qed

section \<open>Period texts\<close>

definition period_year :: "string \<Rightarrow> int" where
  "period_year p = int (digits_val (take 4 p))"

definition period_month :: "string \<Rightarrow> int" where
  "period_month p = int (digits_val (take 2 (drop 4 p)))"

text \<open>A period text \<open>yyyymm\<close> that names a month of a year from 1000.\<close>

definition valid_period :: "string \<Rightarrow> bool" where
  "valid_period p \<longleftrightarrow> length p = 6 \<and> list_all is_digit p \<and> 1000 \<le> period_year p \<and> 1 \<le> period_month p \<and> period_month p \<le> 12"

definition period_index :: "string \<Rightarrow> int" where
  "period_index p = period_month p - 1 + 12 * period_year p"

lemma digit_val_cancel: "is_digit a \<Longrightarrow> is_digit b \<Longrightarrow> digit_val a = digit_val b \<Longrightarrow> a = b"
  by (simp add: is_digit_def digit_val_def char_code_def) (metis eq_diff_iff of_char_eq_iff)

lemma digits_val_inj:
  "length xs = length ys \<Longrightarrow> list_all is_digit xs \<Longrightarrow> list_all is_digit ys \<Longrightarrow> digits_val xs = digits_val ys \<Longrightarrow> xs = ys"
proof (induction xs arbitrary: ys rule: rev_induct)
  case (snoc a xs)
  then obtain b zs where ys: "ys = zs @ [b]"
    by (cases ys rule: rev_exhaust) auto
  have "digit_val a < 10" "digit_val b < 10"
    using snoc.prems ys by (auto simp: is_digit_def digit_val_def)
  then have "digits_val xs = digits_val zs" "digit_val a = digit_val b"
    using snoc.prems(4) unfolding ys digits_val_snoc by presburger+
  with snoc ys show ?case
    by (auto intro: digit_val_cancel)
qed simp

lemma show_nat_4: "1000 \<le> n \<Longrightarrow> n < 10000 \<Longrightarrow> length (show_nat n) = 4"
  by (simp add: show_nat.simps [of n] show_nat.simps [of "n div 10"] show_nat.simps [of "n div 100"] show_nat.simps [of "n div 1000"]
      div_mult2_eq [symmetric] div_less_iff_less_mult)

definition two_digits :: "int \<Rightarrow> string" where
  "two_digits m = (if m < 10 then ''0'' else []) @ show_int m"

lemma two_digits_facts:
  assumes "1 \<le> m" "m \<le> 12"
  shows "length (two_digits m) = 2 \<and> list_all is_digit (two_digits m) \<and> int (digits_val (two_digits m)) = m"
proof -
  have "list_all (\<lambda>m. length (two_digits m) = 2 \<and> list_all is_digit (two_digits m) \<and> int (digits_val (two_digits m)) = m) [1..12]"
    by code_simp
  with assms show ?thesis
    by (simp add: list_all_iff)
qed

lemma currentPeriod_text: "month_of t = (y, m) \<Longrightarrow> currentPeriod t = show_int y @ two_digits m"
  by (simp add: currentPeriod_def two_digits_def)

lemma digits_val_bound: "list_all is_digit ds \<Longrightarrow> digits_val ds < 10 ^ length ds"
proof (induction ds rule: rev_induct)
  case (snoc d ds)
  then have "digit_val d < 10" "digits_val ds < 10 ^ length ds"
    by (auto simp: is_digit_def digit_val_def)
  then show ?case
    by (simp add: digits_val_snoc)
qed (simp add: digits_val_def)


lemma period_parts:
  assumes "valid_period p"
  shows "p = take 4 p @ take 2 (drop 4 p)" "length (take 4 p) = 4" "length (take 2 (drop 4 p)) = 2"
    "list_all is_digit (take 4 p)" "list_all is_digit (take 2 (drop 4 p))" "period_year p < 10000"
proof -
  show digits: "list_all is_digit (take 4 p)" "list_all is_digit (take 2 (drop 4 p))"
    using assms by (auto simp: valid_period_def list_all_iff dest: in_set_takeD in_set_dropD)
  show "length (take 4 p) = 4" "length (take 2 (drop 4 p)) = 2" "p = take 4 p @ take 2 (drop 4 p)"
    using assms by (simp_all add: valid_period_def)
  then show "period_year p < 10000"
    using digits_val_bound [OF digits(1)] by (simp add: period_year_def)
qed

lemma period_text:
  assumes "valid_period p"
  shows "show_int (period_year p) = take 4 p" "two_digits (period_month p) = take 2 (drop 4 p)"
proof -
  note parts = period_parts [OF assms]
  define n where "n = digits_val (take 4 p)"
  have n: "1000 \<le> n" "n < 10000" "period_year p = int n"
    using assms parts(6) by (simp_all add: valid_period_def period_year_def n_def)
  have "show_nat n = take 4 p"
    using parts show_nat_4 [OF n(1,2)] show_nat_digits [of n]
    by (intro digits_val_inj) (simp_all add: digits_val_show n_def list_all_iff)
  then show "show_int (period_year p) = take 4 p"
    by (simp add: show_int_def n)
  have "1 \<le> period_month p" "period_month p \<le> 12"
    using assms by (simp_all add: valid_period_def)
  from two_digits_facts [OF this] show "two_digits (period_month p) = take 2 (drop 4 p)"
    using parts by (intro digits_val_inj) (simp_all add: period_month_def)
qed

lemma currentPeriod_inj:
  assumes "valid_period p" "currentPeriod t = p"
  shows "month_of t = (period_year p, period_month p)"
proof -
  obtain y m where ym: "month_of t = (y, m)"
    by fastforce
  have m: "length (two_digits m) = 2" "int (digits_val (two_digits m)) = m"
    using month_of_encloses [OF ym] two_digits_facts by simp_all
  have p: "p = show_int y @ two_digits m"
    using assms(2) currentPeriod_text [OF ym] by simp
  with m assms(1) have "length (show_int y) = 4"
    by (simp add: valid_period_def)
  then have parts: "take 4 p = show_int y" "take 2 (drop 4 p) = two_digits m"
    using p m by simp_all
  have "\<not> y < 0"
    using period_parts(4) [OF assms(1)] unfolding parts by (auto simp: show_int_def is_digit_def char_code_def)
  with parts m ym show ?thesis
    by (simp add: period_year_def period_month_def show_int_def digits_val_show)
qed

lemma index_inj: "1 \<le> a \<Longrightarrow> a \<le> 12 \<Longrightarrow> 1 \<le> b \<Longrightarrow> b \<le> 12 \<Longrightarrow> a + 12 * y = b + 12 * z \<Longrightarrow> y = z \<and> a = b" for a b y z :: int
  by presburger

lemma period_encloses:
  assumes "valid_period p"
  shows "month_start (period_index p) \<le> t \<and> t < month_start (period_index p + 1) \<longleftrightarrow> currentPeriod t = p"
proof
  obtain y m where ym: "month_of t = (y, m)"
    by fastforce
  assume "month_start (period_index p) \<le> t \<and> t < month_start (period_index p + 1)"
  then have "period_index p = m - 1 + 12 * y" "1 \<le> m" "m \<le> 12"
    using months_disjoint [of "period_index p" t "m - 1 + 12 * y"] month_of_encloses [OF ym] by simp_all
  then have "period_year p = y" "period_month p = m"
    using assms index_inj [of "period_month p" m "period_year p" y] by (simp_all add: period_index_def valid_period_def)
  then show "currentPeriod t = p"
    using currentPeriod_text [OF ym] period_text [OF assms] period_parts(1) [OF assms] by metis
next
  assume "currentPeriod t = p"
  from currentPeriod_inj [OF assms this] show "month_start (period_index p) \<le> t \<and> t < month_start (period_index p + 1)"
    using month_of_encloses by (simp add: period_index_def)
qed

end
