(* ===== verification/Billing.thy ===== *)
theory Billing
  imports Calendar Pipeline_Safety Routes Audit_Log "HOL-Library.Multiset"
begin

text \<open>
  Reports over the ledger (\<^verbatim>\<open>src/src/ledger/aggregate.ts\<close>) and the two routes of \<^verbatim>\<open>src/src/ledger/billing-route.ts\<close>:
  the billing feed of a period and the budget precheck. A query is a function of the tables: a filter, a left
  join, a grouping. The order the database gives to groups is the argument \<open>arrange\<close>, a permutation; the day of a
  timestamp in the session's time zone is the argument \<open>dayText\<close>.
\<close>

section \<open>Filters and groups\<close>

record ledger_filter =
  lf_firmId :: string
  lf_from :: "int option"
  lf_to :: "int option"

definition conds :: "ledger_filter \<Rightarrow> ledger_row \<Rightarrow> bool" where
  "conds f r \<longleftrightarrow> l_firmId r = lf_firmId f
     \<and> (case lf_from f of None \<Rightarrow> True | Some a \<Rightarrow> l_ts r \<ge> a) \<and> (case lf_to f of None \<Rightarrow> True | Some b \<Rightarrow> l_ts r \<le> b)"

text \<open>\<open>leftJoin(taskClasses, eq(usageLedger.taskClassId, taskClasses.id))\<close>: every row with the key of each class it
  matches, or with none.\<close>

definition join_row :: "task_class_row list \<Rightarrow> ledger_row \<Rightarrow> (ledger_row \<times> string option) list" where
  "join_row tcs r =
     (case filter (\<lambda>t. l_taskClassId r = Some (tcl_id t)) tcs of
        [] \<Rightarrow> [(r, None)]
      | ts \<Rightarrow> map (\<lambda>t. (r, Some (tcl_key t))) ts)"

definition left_join :: "task_class_row list \<Rightarrow> ledger_row list \<Rightarrow> (ledger_row \<times> string option) list" where
  "left_join tcs rs = concat (map (join_row tcs) rs)"

definition group_by :: "('k list \<Rightarrow> 'k list) \<Rightarrow> ('r \<Rightarrow> 'k) \<Rightarrow> 'r list \<Rightarrow> ('k \<times> 'r list) list" where
  "group_by arrange key rs = map (\<lambda>k. (k, filter (\<lambda>r. key r = k) rs)) (arrange (dedupe (map key rs)))"

section \<open>Spend\<close>

datatype spend_dimension = ByDay | ByModel | ByApp | ByTaskClass | ByClient

fun dimension_column :: "(int \<Rightarrow> string) \<Rightarrow> spend_dimension \<Rightarrow> ledger_row \<times> string option \<Rightarrow> string" where
  "dimension_column dayText ByDay (r, k) = dayText (l_ts r)"
| "dimension_column dayText ByModel (r, k) = nullish (l_modelServed r) ''(none)''"
| "dimension_column dayText ByApp (r, k) = l_app r"
| "dimension_column dayText ByTaskClass (r, k) = nullish k ''(none)''"
| "dimension_column dayText ByClient (r, k) = nullish (l_clientRef r) ''(none)''"

text \<open>The sums every report carries; \<open>costCents\<close> is printed as text by the database.\<close>

record totals =
  tt_requests :: int
  tt_promptTokens :: int
  tt_completionTokens :: int
  tt_cachedReadTokens :: int
  tt_costCents :: rat
  tt_costUnknownCount :: int
  tt_estimatedCount :: int

definition totals_of :: "ledger_row list \<Rightarrow> totals" where
  "totals_of rs =
     \<lparr>tt_requests = int (length rs), tt_promptTokens = sum_list (map (\<lambda>r. promptTokens (l_usage r)) rs),
      tt_completionTokens = sum_list (map (\<lambda>r. completionTokens (l_usage r)) rs),
      tt_cachedReadTokens = sum_list (map (\<lambda>r. cachedReadTokens (l_usage r)) rs),
      tt_costCents = sum_list (map (\<lambda>r. nullish (l_costCents r) 0) rs),
      tt_costUnknownCount = int (length (filter l_costUnknown rs)),
      tt_estimatedCount = int (length (filter (\<lambda>r. estimated (l_usage r)) rs))\<rparr>"

definition spendBy ::
    "(string list \<Rightarrow> string list) \<Rightarrow> (int \<Rightarrow> string) \<Rightarrow> db \<Rightarrow> spend_dimension \<Rightarrow> ledger_filter \<Rightarrow> (string \<times> totals) list" where
  "spendBy arrange dayText d dm f =
     (let rs = filter (conds f) (usageLedger d);
          joined = (if dm = ByTaskClass then left_join (taskClasses d) rs else map (\<lambda>r. (r, None)) rs)
      in map (\<lambda>(k, g). (k, totals_of (map fst g))) (group_by arrange (dimension_column dayText dm) joined))"

definition costBreakdown ::
    "((string \<times> string \<times> string) list \<Rightarrow> (string \<times> string \<times> string) list) \<Rightarrow> db \<Rightarrow> ledger_filter
      \<Rightarrow> ((string \<times> string \<times> string) \<times> totals) list" where
  "costBreakdown arrange d f =
     sort_key (\<lambda>(_, t). - tt_costCents t)
       (map (\<lambda>(k, g). (k, totals_of (map fst g)))
         (group_by arrange (\<lambda>(r, k). (l_app r, nullish k ''(none)'', nullish (l_modelServed r) ''(none)''))
           (left_join (taskClasses d) (filter (conds f) (usageLedger d)))))"

text \<open>\<open>percentile_cont(p)\<close> of a sorted list: linear interpolation.\<close>

definition percentile_cont :: "rat \<Rightarrow> int list \<Rightarrow> rat option" where
  "percentile_cont p xs =
     (if xs = [] then None
      else let s = sort xs; pos = p * of_nat (length s - 1); lo = nat \<lfloor>pos\<rfloor>; hi = nat \<lceil>pos\<rceil>
           in Some (of_int (s ! lo) + (pos - of_nat lo) * of_int (s ! hi - s ! lo)))"

definition latencyStats :: "db \<Rightarrow> ledger_filter \<Rightarrow> rat option \<times> rat option \<times> int" where
  "latencyStats d f =
     (let xs = map l_latencyMs (filter (\<lambda>r. conds f r \<and> l_status r = St_ok) (usageLedger d))
      in (percentile_cont (1 / 2) xs, percentile_cont (95 / 100) xs, int (length xs)))"

section \<open>The billing feed\<close>

text \<open>\<open>Date.UTC(y, m, 1)\<close> for any month number from zero: the month carries into the year, and a year below 100 is one of
  the twentieth century.\<close>

definition date_utc :: "int \<Rightarrow> int \<Rightarrow> int" where
  "date_utc y m =
     month_first_day ((if 0 \<le> y \<and> y \<le> 99 then 1900 + y else y) + m div 12, m mod 12 + 1) * MS_PER_DAY"

definition period_bounds :: "string \<Rightarrow> int \<times> int" where
  "period_bounds period =
     (let y = int (digits_val (take 4 period)); m = int (digits_val (take 2 (drop 4 period)))
      in (date_utc y (m - 1), date_utc y m))"

definition billed :: "string \<Rightarrow> string \<Rightarrow> string option \<Rightarrow> ledger_row \<Rightarrow> bool" where
  "billed firmId period clientRef r \<longleftrightarrow> l_firmId r = firmId \<and> fst (period_bounds period) \<le> l_ts r \<and> l_ts r < snd (period_bounds period)
     \<and> l_clientRef r \<noteq> None \<and> (case given clientRef of None \<Rightarrow> True | Some c \<Rightarrow> l_clientRef r = Some c)"

type_synonym billing_key = "string option \<times> string option \<times> string \<times> string option"

definition billing_key_of :: "ledger_row \<times> string option \<Rightarrow> billing_key" where
  "billing_key_of rk = (l_clientRef (fst rk), l_engagementRef (fst rk), l_app (fst rk), snd rk)"

definition billing_items ::
    "(billing_key list \<Rightarrow> billing_key list) \<Rightarrow> db \<Rightarrow> string \<Rightarrow> string \<Rightarrow> string option \<Rightarrow> (billing_key \<times> totals) list" where
  "billing_items arrange d firmId period clientRef =
     map (\<lambda>(k, g). (k, totals_of (map fst g)))
       (group_by arrange billing_key_of (left_join (taskClasses d) (filter (billed firmId period clientRef) (usageLedger d))))"

section \<open>Export\<close>

text \<open>A row as the text of each column, \<open>None\<close> where it is null.\<close>

definition rowsToCsv :: "(string \<Rightarrow> string option) list \<Rightarrow> string list \<Rightarrow> string" where
  "rowsToCsv rows columns =
     join [csv_nl] (join '','' columns # map (\<lambda>r. join '','' (map (\<lambda>c. csvEscape (nullish (r c) [])) columns)) rows) @ [csv_nl]"

definition ledgerRows :: "db \<Rightarrow> ledger_filter \<Rightarrow> nat \<Rightarrow> ledger_row list" where
  "ledgerRows d f n = take n (sort_key (\<lambda>r. - l_ts r) (filter (conds f) (usageLedger d)))"

section \<open>Routes\<close>

definition z_period :: "string reader" where
  "z_period v = (case z_string v of Some s \<Rightarrow> if length s = 6 \<and> list_all is_digit s then Some s else None | None \<Rightarrow> None)"

definition querySchema :: "(string \<times> string option) reader" where
  "querySchema v =
     (case (z_required ''period'' z_period v, z_optional ''client_ref'' z_string v) of
        (Some p, Some c) \<Rightarrow> Some (p, c)
      | _ \<Rightarrow> None)"

definition z_bounded :: "nat \<Rightarrow> nat \<Rightarrow> string reader" where
  "z_bounded lo hi v = (case z_string v of Some s \<Rightarrow> if lo \<le> length s \<and> length s \<le> hi then Some s else None | None \<Rightarrow> None)"

fun precheckSchema :: "(string \<times> string option) reader" where
  "precheckSchema (JObj ms) =
     (if \<not> list_all (\<lambda>m. fst m \<in> {''task_class'', ''user_id''}) ms then None
      else (case (z_required ''task_class'' (z_bounded 1 120) (JObj ms), z_optional ''user_id'' (z_bounded 0 200) (JObj ms)) of
              (Some tc, Some u) \<Rightarrow> Some (tc, u)
            | _ \<Rightarrow> None))"
| "precheckSchema _ = None"

definition feed_error :: "router_error \<Rightarrow> http_reply" where
  "feed_error e = JsonReply (status e) [] (errorBody e)"

definition feed_authenticate :: "deps \<Rightarrow> http_request \<Rightarrow> world \<Rightarrow> (router_error, auth_context) result \<times> world" where
  "feed_authenticate dp req w =
     (let (res, d) = authenticateAppToken (dp_sha256 dp) (bearer_of req) (now_of dp w) (wd_db w);
          w1 = advance (w\<lparr>wd_db := d\<rparr>)
      in case res of
           Inl e \<Rightarrow> (Inl e, w1)
         | Inr au \<Rightarrow>
             (case dp_rateLimits dp of
                None \<Rightarrow> (Inr au, w1)
              | Some (perToken, _) \<Rightarrow>
                  (let (wait, tb) = limiter_take perToken (''t:'' @ au_tokenId au) (now_of dp w1) (wd_tokenBuckets w1);
                       w2 = w1\<lparr>wd_tokenBuckets := tb\<rparr>
                   in case wait of
                        Some n \<Rightarrow> if n > 0 then (Inl (RouterError rate_limited ''rate limit exceeded'' None (Some (of_int n))), w2)
                                  else (Inr au, w2)
                      | None \<Rightarrow> (Inr au, w2))))"

definition item_json :: "billing_key \<times> totals \<Rightarrow> json" where
  "item_json it =
     (case it of ((client, eng, app, tc), t) \<Rightarrow>
        JObj [(''clientRef'', case client of None \<Rightarrow> JNull | Some c \<Rightarrow> JStr c), (''engagementRef'', case eng of None \<Rightarrow> JNull | Some e \<Rightarrow> JStr e),
              (''app'', JStr app), (''taskClass'', case tc of None \<Rightarrow> JNull | Some k \<Rightarrow> JStr k),
              (''requests'', JNum (of_int (tt_requests t))), (''promptTokens'', JNum (of_int (tt_promptTokens t))),
              (''completionTokens'', JNum (of_int (tt_completionTokens t))), (''costCents'', JStr (show_num (tt_costCents t)))])"

definition billing_usage_route ::
    "(billing_key list \<Rightarrow> billing_key list) \<Rightarrow> deps \<Rightarrow> http_request \<Rightarrow> json \<Rightarrow> world \<Rightarrow> http_reply \<times> world" where
  "billing_usage_route arrange dp req query w =
     (case feed_authenticate dp req w of
        (Inl e, w1) \<Rightarrow> (feed_error e, w1)
      | (Inr au, w1) \<Rightarrow>
          (case querySchema query of
             None \<Rightarrow> (feed_error (router_error0 invalid_request ''period=yyyymm required''), w1)
           | Some (p, c) \<Rightarrow>
               (JsonReply 200 [] (JObj [(''period'', JStr p),
                  (''items'', JArr (map item_json (billing_items arrange (wd_db w1) (au_firmId au) p c)))]), advance w1)))"

definition precheck_params :: "auth_context \<Rightarrow> string option \<Rightarrow> firm_settings \<Rightarrow> effective_policy \<Rightarrow> budget_params" where
  "precheck_params au user st eff =
     \<lparr>bp_firmId = au_firmId au, bp_app = au_app au, bp_userId = given user, bp_taskClassId = tcl_id (ep_taskClass eff),
      bp_settings = nullish (budgets st) no_budgets, bp_policyMonthlyCents = monthlyBudgetCents (ep_policy eff)\<rparr>"

definition warning_json :: "budget_check \<Rightarrow> json" where
  "warning_json c = JObj [(''scope'', JStr (check_scope_name (bc_scope c))), (''limit_cents'', JNum (bc_limitCents c)),
     (''spent_cents'', JNum (bc_spentCents c))]"

definition affordable :: "budget_check list \<Rightarrow> http_reply" where
  "affordable ws = JsonReply 200 [] (JObj [(''ok'', JBool True), (''soft_warnings'', JArr (map warning_json ws))])"

definition exhausted :: "router_error \<Rightarrow> http_reply" where
  "exhausted e = JsonReply 200 [] (JObj ([(''ok'', JBool False), (''reason'', JStr ''budget_exceeded'')] @ nullish (detail e) []))"

definition precheck_verdict :: "db \<Rightarrow> budget_params \<Rightarrow> int \<Rightarrow> http_reply" where
  "precheck_verdict d p now =
     (case checkBudgets d p now of
        Inr ws \<Rightarrow> affordable ws
      | Inl e \<Rightarrow> if code e = budget_exceeded then exhausted e else feed_error e)"

definition precheck_route :: "deps \<Rightarrow> http_request \<Rightarrow> world \<Rightarrow> http_reply \<times> world" where
  "precheck_route dp req w =
     (case feed_authenticate dp req w of
        (Inl e, w1) \<Rightarrow> (feed_error e, w1)
      | (Inr au, w1) \<Rightarrow>
          (case precheckSchema (hq_body req) of
             None \<Rightarrow> (feed_error (router_error0 invalid_request ''task_class required''), w1)
           | Some (tc, user) \<Rightarrow>
               (let (st, e1) = firmSettings (dp_engineTtlMs dp) (wd_db w1) (now_of dp w1) (au_firmId au) (wd_engine w1);
                    w2 = advance (w1\<lparr>wd_engine := e1\<rparr>);
                    (res, e2) = resolve (dp_engineTtlMs dp) (wd_db w2) (now_of dp w2) (au_firmId au) tc st (wd_engine w2);
                    w3 = advance (w2\<lparr>wd_engine := e2\<rparr>)
                in case res of
                     Inl e \<Rightarrow> (feed_error e, w3)
                   | Inr eff \<Rightarrow> (precheck_verdict (wd_db w3) (precheck_params au user st eff) (now_of dp w3), advance w3))))"

section \<open>Grouping loses nothing\<close>

definition is_order :: "('k list \<Rightarrow> 'k list) \<Rightarrow> bool" where
  "is_order arrange \<longleftrightarrow> (\<forall>ks. mset (arrange ks) = mset ks)"

lemma partition_mset:
  assumes "finite K" "key ` set rs \<subseteq> K"
  shows "(\<Sum>k\<in>K. mset (filter (\<lambda>r. key r = k) rs)) = mset rs"
  using assms(2)
proof (induction rs)
  case (Cons r rs)
  have "(\<Sum>k\<in>K. mset (filter (\<lambda>r. key r = k) (r # rs)))
      = (\<Sum>k\<in>K. (if k = key r then {#r#} else {#}) + mset (filter (\<lambda>r. key r = k) rs))"
    by (rule sum.cong) auto
  also have "\<dots> = {#r#} + mset rs"
    using Cons assms(1) by (simp add: sum.distrib sum.delta)
  finally show ?case
    by simp
qed simp

lemma group_mset:
  assumes "is_order arrange"
  shows "mset (concat (map snd (group_by arrange key rs))) = mset rs"
proof -
  let ?h = "\<lambda>k. mset (filter (\<lambda>r. key r = k) rs)"
  let ?ks = "dedupe (map key rs)"
  have "mset (concat (map snd (group_by arrange key rs))) = sum_list (map ?h (arrange ?ks))"
    by (simp add: group_by_def mset_concat comp_def)
  also have "\<dots> = sum_mset (image_mset ?h (mset (arrange ?ks)))"
    by (simp flip: sum_mset_sum_list)
  also have "\<dots> = sum_list (map ?h ?ks)"
    using assms by (simp add: is_order_def flip: sum_mset_sum_list)
  also have "\<dots> = (\<Sum>k\<in>set ?ks. ?h k)"
    by (rule sum_list_distinct_conv_sum_set) simp
  also have "\<dots> = mset rs"
    by (rule partition_mset) simp_all
  finally show ?thesis .
qed

lemma joined_once:
  assumes "distinct (map tcl_id tcs)"
  shows "map fst (left_join tcs rs) = rs"
proof -
  have one: "(\<exists>t. filter (\<lambda>t. x = Some (tcl_id t)) tcs = [t]) \<or> filter (\<lambda>t. x = Some (tcl_id t)) tcs = []" for x
    using assms
  proof (induction tcs)
    case (Cons t tcs)
    have "x = Some (tcl_id t) \<Longrightarrow> filter (\<lambda>t. x = Some (tcl_id t)) tcs = []"
      using Cons.prems by (auto simp: filter_empty_conv)
    with Cons show ?case
      by auto
  qed simp
  have "map fst (join_row tcs r) = [r]" for r
    using one [of "l_taskClassId r"] by (auto simp: join_row_def)
  then show ?thesis
    by (induction rs) (simp_all add: left_join_def)
qed

definition add_totals :: "totals \<Rightarrow> totals \<Rightarrow> totals" where
  "add_totals a b =
     \<lparr>tt_requests = tt_requests a + tt_requests b, tt_promptTokens = tt_promptTokens a + tt_promptTokens b,
      tt_completionTokens = tt_completionTokens a + tt_completionTokens b,
      tt_cachedReadTokens = tt_cachedReadTokens a + tt_cachedReadTokens b, tt_costCents = tt_costCents a + tt_costCents b,
      tt_costUnknownCount = tt_costUnknownCount a + tt_costUnknownCount b,
      tt_estimatedCount = tt_estimatedCount a + tt_estimatedCount b\<rparr>"

definition sum_totals :: "totals list \<Rightarrow> totals" where
  "sum_totals ts = foldr add_totals ts (totals_of [])"

lemma totals_append: "totals_of (xs @ ys) = add_totals (totals_of xs) (totals_of ys)"
  by (simp add: totals_of_def add_totals_def)

lemma sum_totals_concat: "sum_totals (map totals_of gs) = totals_of (concat gs)"
  by (induction gs) (simp_all add: sum_totals_def totals_append)

lemma sum_totals_eq:
  "sum_totals ts =
     \<lparr>tt_requests = sum_list (map tt_requests ts), tt_promptTokens = sum_list (map tt_promptTokens ts),
      tt_completionTokens = sum_list (map tt_completionTokens ts),
      tt_cachedReadTokens = sum_list (map tt_cachedReadTokens ts), tt_costCents = sum_list (map tt_costCents ts),
      tt_costUnknownCount = sum_list (map tt_costUnknownCount ts),
      tt_estimatedCount = sum_list (map tt_estimatedCount ts)\<rparr>"
  by (induction ts) (simp_all add: sum_totals_def totals_of_def add_totals_def)

lemma sum_totals_append: "sum_totals (xs @ ys) = add_totals (sum_totals xs) (sum_totals ys)"
  by (simp add: sum_totals_eq add_totals_def)

lemma sum_list_mset: "mset xs = mset ys \<Longrightarrow> sum_list (map g xs) = sum_list (map g ys)" for g :: "'r \<Rightarrow> 'a::comm_monoid_add"
  by (metis mset_map sum_mset_sum_list)

lemma sum_totals_mset: "mset xs = mset ys \<Longrightarrow> sum_totals xs = sum_totals ys"
  by (simp add: sum_totals_eq sum_list_mset [of xs ys])

lemma length_filter_mset: "mset xs = mset ys \<Longrightarrow> length (filter P xs) = length (filter P ys)"
  by (metis mset_filter size_mset)

lemma totals_mset: "mset xs = mset ys \<Longrightarrow> totals_of xs = totals_of ys"
  by (simp add: totals_of_def sum_list_mset [of xs ys] length_filter_mset [of xs ys] mset_eq_length [of xs ys])

lemma report_complete:
  assumes "is_order arrange"
  shows "sum_totals (map snd (map (\<lambda>(k, g). (k, totals_of (map fst g))) (group_by arrange key xs))) = totals_of (map fst xs)"
proof -
  let ?gs = "group_by arrange key xs"
  have "map snd (map (\<lambda>(k, g). (k, totals_of (map fst g))) ?gs) = map totals_of (map (map fst) (map snd ?gs))"
    by (simp add: case_prod_beta comp_def)
  then have "sum_totals (map snd (map (\<lambda>(k, g). (k, totals_of (map fst g))) ?gs)) = totals_of (map fst (concat (map snd ?gs)))"
    by (simp only: sum_totals_concat map_concat)
  also have "\<dots> = totals_of (map fst xs)"
    by (rule totals_mset) (simp add: group_mset [OF assms])
  finally show ?thesis .
qed

section \<open>Periods\<close>

lemma date_utc_start: "1000 \<le> y \<Longrightarrow> date_utc y m = month_start (m + 12 * y)"
  unfolding date_utc_def month_start_def by (simp only: div_mult_self2 mod_mult_self2) (simp add: add.commute)

lemma bounds_of_valid:
  assumes "valid_period p"
  shows "period_bounds p = (month_start (period_index p), month_start (period_index p + 1))"
proof -
  have "1000 \<le> period_year p" "period_index p + 1 = period_month p + 12 * period_year p"
    using assms by (simp_all add: valid_period_def period_index_def)
  then show ?thesis
    by (simp add: period_bounds_def Let_def date_utc_start period_index_def flip: period_year_def period_month_def)
qed

lemma billed_iff:
  assumes "valid_period p"
  shows "billed f p None r \<longleftrightarrow> l_firmId r = f \<and> l_clientRef r \<noteq> None \<and> currentPeriod (l_ts r) = p"
  using period_encloses [OF assms, of "l_ts r"] by (auto simp: billed_def bounds_of_valid [OF assms] given_def)

lemma feed_totals:
  assumes "distinct (map tcl_id (taskClasses d))" "is_order arrange"
  shows "sum_totals (map snd (billing_items arrange d f p c)) = totals_of (filter (billed f p c) (usageLedger d))"
  unfolding billing_items_def report_complete [OF assms(2)] joined_once [OF assms(1)] ..

lemma budget_error_code: "code (budget_error c period) = budget_exceeded"
  by (simp add: budget_error_def)

lemma stopped_code: "checkBudgets d p now = Inl e \<Longrightarrow> code e = budget_exceeded"
  unfolding checkBudgets_def
  using evaluate_checks_cases [where period = "currentPeriod now" and sp = "nullish (soft_pct (bp_settings p)) 80 / 100"
      and cs = "budget_checks d p now"]
  by (auto simp: budget_error_code)

lemma mset_filter_either:
  "\<forall>x\<in>set xs. \<not> (P x \<and> Q x) \<Longrightarrow> mset (filter (\<lambda>x. P x \<or> Q x) xs) = mset (filter P xs @ filter Q xs)"
  by (induction xs) auto

section \<open>Properties\<close>

text \<open>
  The reports account for every request exactly once: whatever the dimension and whatever the order in which the
  database returns the groups, the rows of the spend report and of the cost breakdown add up to the totals of
  the ledger rows of the firm in the range, with the number of unpriced and of estimated requests alongside.
\<close>

theorem reports_complete:
  assumes "distinct (map tcl_id (taskClasses d))" "is_order arrange" "is_order arrange'"
  shows "sum_totals (map snd (spendBy arrange dayText d dm f)) = totals_of (filter (conds f) (usageLedger d))
    \<and> sum_totals (map snd (costBreakdown arrange' d f)) = totals_of (filter (conds f) (usageLedger d))"
proof
  have once: "map fst (if dm = ByTaskClass then left_join (taskClasses d) rs else map (\<lambda>r. (r, None)) rs) = rs" for rs
    using joined_once [OF assms(1)] by (simp add: comp_def)
  show "sum_totals (map snd (spendBy arrange dayText d dm f)) = totals_of (filter (conds f) (usageLedger d))"
    unfolding spendBy_def Let_def report_complete [OF assms(2)] once ..
  let ?g = "map (\<lambda>(k, g). (k, totals_of (map fst g)))
     (group_by arrange' (\<lambda>(r, k). (l_app r, nullish k ''(none)'', nullish (l_modelServed r) ''(none)''))
       (left_join (taskClasses d) (filter (conds f) (usageLedger d))))"
  have "sum_totals (map snd (costBreakdown arrange' d f)) = sum_totals (map snd ?g)"
    unfolding costBreakdown_def by (rule sum_totals_mset) (simp only: mset_map mset_sort)
  then show "sum_totals (map snd (costBreakdown arrange' d f)) = totals_of (filter (conds f) (usageLedger d))"
    unfolding report_complete [OF assms(3)] joined_once [OF assms(1)] .
qed

definition ex_billed_row :: "string \<Rightarrow> int \<Rightarrow> ledger_row" where
  "ex_billed_row rid ts =
     \<lparr>l_requestId = rid, l_ts = ts, l_firmId = ''f1'', l_app = ''a'', l_taskClassId = None, l_modelRequested = None,
      l_modelServed = None, l_providerId = None,
      l_usage = \<lparr>promptTokens = 10, completionTokens = 5, cachedReadTokens = 0, cacheWriteTokens = 0, estimated = False\<rparr>,
      l_costCents = Some 2, l_costUnknown = False, l_latencyMs = 100, l_status = St_ok, l_engagementRef = None,
      l_clientRef = Some ''c1'', l_requestHash = ''h''\<rparr>"

text \<open>The last instant of January 2026 and the first of February.\<close>

definition ex_billing_db :: db where
  "ex_billing_db = example_db\<lparr>usageLedger := [ex_billed_row ''r1'' 1769903999999, ex_billed_row ''r2'' 1769904000000]\<rparr>"

lemmas ex_billing_defs = ex_billing_db_def ex_billed_row_def totals_of_def conds_def example_db_def

theorem reports_complete_witness:
  "distinct (map tcl_id (taskClasses ex_billing_db)) \<and> is_order (\<lambda>ks. ks)
   \<and> tt_costCents (sum_totals (map snd (spendBy (\<lambda>ks. ks) (\<lambda>t. ''day'') ex_billing_db ByModel
        \<lparr>lf_firmId = ''f1'', lf_from = None, lf_to = None\<rparr>))) = 4"
  using reports_complete [of ex_billing_db "\<lambda>ks. ks" "\<lambda>ks. ks" "\<lambda>t. ''day''" ByModel "\<lparr>lf_firmId = ''f1'', lf_from = None, lf_to = None\<rparr>"]
  by (simp add: is_order_def ex_billing_defs)


lemma ex_periods: "list_all valid_period [''202601'', ''202602'']" "currentPeriod 1769903999999 = ''202601''"
  "currentPeriod 1769904000000 = ''202602''"
  by code_simp+


text \<open>
  C30. The precheck tells what the pipeline will do: for a caller and a task class whose cached policy was resolved
  with the current firm settings, the reply says \<open>ok: false\<close> with the scope and period of the error exactly when the budget
  stage of a request of that user at that moment stops with \<open>budget_exceeded\<close>, and \<open>ok: true\<close> with the same
  warnings exactly when the stage lets the request through.
\<close>

theorem precheck_agrees:
  assumes "feed_authenticate dp req w = (Inr au, w1)" "precheckSchema (hq_body req) = Some (tc, user)"
    "firmSettings (dp_engineTtlMs dp) (wd_db w1) (now_of dp w1) (au_firmId au) (wd_engine w1) = (st, e1)"
    "w2 = advance (w1\<lparr>wd_engine := e1\<rparr>)"
    "resolve (dp_engineTtlMs dp) (wd_db w2) (now_of dp w2) (au_firmId au) tc st (wd_engine w2) = (Inr eff, e2)"
    "w3 = advance (w2\<lparr>wd_engine := e2\<rparr>)"
    "ep_firmSettings eff = st" "cx_auth cx = Some au" "cx_effective cx = Some eff"
    "given (md_userId (metadata (cx_envelope cx))) = given user"
  shows "(\<exists>e. fst (stageBudget dp cx w3) = Inl (Routed e) \<and> code e = budget_exceeded \<and> fst (precheck_route dp req w) = exhausted e)
    \<or> fst (stageBudget dp cx w3) = Inr () \<and> (\<exists>ws. fst (precheck_route dp req w) = affordable ws
        \<and> fst (snd (stageBudget dp cx w3)) = (if ws \<noteq> [] then cx\<lparr>cx_budgetWarnings := ws\<rparr> else cx))"
proof -
  have same: "precheck_params au user st eff = budget_params_of cx au eff"
    using assms(7,10) by (simp add: precheck_params_def budget_params_of_def)
  have route: "fst (precheck_route dp req w) = precheck_verdict (wd_db w3) (budget_params_of cx au eff) (now_of dp w3)"
    using assms(1-6) by (simp add: precheck_route_def Let_def same)
  show ?thesis
  proof (cases "checkBudgets (wd_db w3) (budget_params_of cx au eff) (now_of dp w3)")
    case (Inl e)
    moreover have "code e = budget_exceeded"
      using Inl by (rule stopped_code)
    ultimately show ?thesis
      using route assms(8,9) by (simp add: stageBudget_def precheck_verdict_def)
  next
    case (Inr ws)
    then show ?thesis
      using route assms(8,9) by (auto simp: stageBudget_def precheck_verdict_def)
  qed
qed

definition ex_precheck :: http_request where
  "ex_precheck = \<lparr>hq_headers = [(''authorization'', ''Bearer secret'')], hq_body = JObj [(''task_class'', JStr ''doc_read'')]\<rparr>"

lemma ex_settled:
  "case feed_authenticate ex_dp ex_precheck ex_world of
     (Inr au, w1) \<Rightarrow>
       (case firmSettings (dp_engineTtlMs ex_dp) (wd_db w1) (now_of ex_dp w1) (au_firmId au) (wd_engine w1) of
          (st, e1) \<Rightarrow>
            (case resolve (dp_engineTtlMs ex_dp) (wd_db (advance (w1\<lparr>wd_engine := e1\<rparr>))) (now_of ex_dp (advance (w1\<lparr>wd_engine := e1\<rparr>)))
                (au_firmId au) ''doc_read'' st (wd_engine (advance (w1\<lparr>wd_engine := e1\<rparr>))) of
               (Inr eff, e2) \<Rightarrow> ep_firmSettings eff = st
             | _ \<Rightarrow> False))
   | _ \<Rightarrow> False"
  by code_simp

lemma ex_affordable: "fst (precheck_route ex_dp ex_precheck ex_world) = affordable []"
  by code_simp

theorem precheck_agrees_witness:
  "\<exists>cx w3. fst (stageBudget ex_dp cx w3) = Inr () \<and> fst (precheck_route ex_dp ex_precheck ex_world) = affordable []"
proof -
  let ?go = "\<lambda>w e. advance (w\<lparr>wd_engine := e\<rparr>)"
  obtain au w1 where auth: "feed_authenticate ex_dp ex_precheck ex_world = (Inr au, w1)"
    using ex_settled by (cases "feed_authenticate ex_dp ex_precheck ex_world", cases "fst (feed_authenticate ex_dp ex_precheck ex_world)") auto
  obtain st e1 where firm: "firmSettings (dp_engineTtlMs ex_dp) (wd_db w1) (now_of ex_dp w1) (au_firmId au) (wd_engine w1) = (st, e1)"
    by fastforce
  obtain res e2 where res: "resolve (dp_engineTtlMs ex_dp) (wd_db (?go w1 e1)) (now_of ex_dp (?go w1 e1)) (au_firmId au) ''doc_read'' st
      (wd_engine (?go w1 e1)) = (res, e2)"
    by fastforce
  from ex_settled obtain eff where eff: "res = Inr eff" "ep_firmSettings eff = st"
    unfolding auth firm prod.case sum.case res by (cases res) simp_all
  have body: "precheckSchema (hq_body ex_precheck) = Some (''doc_read'', None)"
    by code_simp
  define cx where "cx = ex_fresh\<lparr>cx_auth := Some au, cx_effective := Some eff\<rparr>"
  have cx: "cx_auth cx = Some au" "cx_effective cx = Some eff" "given (md_userId (metadata (cx_envelope cx))) = given None"
    by (simp_all add: cx_def ex_fresh_def new_ctx_def ex_env_def example_md_def given_def)
  from precheck_agrees [OF auth body firm refl res [unfolded eff(1)] refl eff(2) cx] ex_affordable show ?thesis
    by (auto simp: exhausted_def affordable_def)
qed

end
