(* ===== verification/Sync.thy ===== *)
theory Sync
  imports Ledger
begin

text \<open>
  The catalog synchronisation of \<^verbatim>\<open>src/src/catalog/sync.ts\<close>: the vendored feed files merged into one, the feed read
  into catalog entries, and a run that adds and updates models, appends prices and flags what has vanished. File contents, the digest,
  fresh ids and the clock are arguments; so is \<open>dateOk\<close>, the date texts the database takes. A number the feed gives for an
  integer column must be one, or the database refuses the write. Canonical ids are unique in the table.
\<close>

section \<open>The feed\<close>

fun z_number :: "rat reader" where
  "z_number (JNum x) = Some x"
| "z_number _ = None"

record feed_entry =
  fe_max_tokens :: "rat option"
  fe_max_input_tokens :: "rat option"
  fe_max_output_tokens :: "rat option"
  fe_input_cost :: "rat option"
  fe_output_cost :: "rat option"
  fe_cache_read_cost :: "rat option"
  fe_cache_creation_cost :: "rat option"
  fe_provider :: string
  fe_mode :: "string option"
  fe_function_calling :: "bool option"
  fe_vision :: "bool option"
  fe_response_schema :: "bool option"
  fe_prompt_caching :: "bool option"
  fe_reasoning :: "bool option"
  fe_deprecation_date :: "string option"

definition litellmEntry :: "feed_entry reader" where
  "litellmEntry v =
     (case (z_optional ''max_tokens'' z_number v, z_optional ''max_input_tokens'' z_number v, z_optional ''max_output_tokens'' z_number v,
            z_optional ''input_cost_per_token'' z_number v, z_optional ''output_cost_per_token'' z_number v,
            z_optional ''cache_read_input_token_cost'' z_number v, z_optional ''cache_creation_input_token_cost'' z_number v) of
        (Some mt, Some mi, Some mo, Some ic, Some oc, Some rc, Some cc) \<Rightarrow>
          (case (z_required ''litellm_provider'' z_string v, z_optional ''mode'' z_string v,
                 z_optional ''supports_function_calling'' z_boolean v, z_optional ''supports_vision'' z_boolean v,
                 z_optional ''supports_response_schema'' z_boolean v, z_optional ''supports_prompt_caching'' z_boolean v,
                 z_optional ''supports_reasoning'' z_boolean v, z_optional ''deprecation_date'' z_string v) of
             (Some p, Some md, Some fc, Some vi, Some rs, Some pc, Some re, Some dd) \<Rightarrow>
               Some \<lparr>fe_max_tokens = mt, fe_max_input_tokens = mi, fe_max_output_tokens = mo, fe_input_cost = ic,
                     fe_output_cost = oc, fe_cache_read_cost = rc, fe_cache_creation_cost = cc, fe_provider = p, fe_mode = md,
                     fe_function_calling = fc, fe_vision = vi, fe_response_schema = rs, fe_prompt_caching = pc,
                     fe_reasoning = re, fe_deprecation_date = dd\<rparr>
           | _ \<Rightarrow> None)
      | _ \<Rightarrow> None)"

definition PROVIDER_TO_KIND :: "(string \<times> provider_kind) list" where
  "PROVIDER_TO_KIND =
     [(''openai'', openai_compat), (''azure'', openai_compat), (''groq'', openai_compat), (''deepseek'', openai_compat),
      (''anthropic'', anthropic), (''ollama'', local), (''digitalocean'', digitalocean)]"

record prices =
  pc_input :: "rat option"
  pc_output :: "rat option"
  pc_cacheRead :: "rat option"
  pc_cacheWrite :: "rat option"

record synced_model =
  sm_canonicalId :: string
  sm_providerKind :: provider_kind
  sm_displayName :: string
  sm_contextWindow :: "rat option"
  sm_maxOutput :: "rat option"
  sm_capabilities :: "(capability \<times> bool) list"
  sm_deprecationDate :: "string option"
  sm_pricing :: prices

text \<open>\<open>Number(x.toPrecision(12))\<close>: twelve significant digits, halves away from zero. The decimal exponent of a positive number
  is read off the digits of its whole part, or of the whole part of its inverse.\<close>

definition power10 :: "int \<Rightarrow> rat" where
  "power10 k = (if 0 \<le> k then 10 ^ nat k else 1 / 10 ^ nat (- k))"

definition decimal_exponent :: "rat \<Rightarrow> int" where
  "decimal_exponent x =
     (if 1 \<le> x then int (length (show_nat (nat (floor x)))) - 1
      else
        (let k = int (length (show_nat (nat (floor (1 / x)))))
         in if x = power10 (1 - k) then 1 - k else - k))"

definition round12 :: "rat \<Rightarrow> rat" where
  "round12 x =
     (if x = 0 then 0
      else
        (let u = power10 (decimal_exponent (abs x) - 11)
         in sgn x * (rat_of_int (floor (abs x / u + 1 / 2)) * u)))"

definition perMtok :: "rat option \<Rightarrow> rat option" where
  "perMtok perToken = map_option (\<lambda>x. round12 (x * 1000000)) perToken"

definition word_char :: "char \<Rightarrow> bool" where
  "word_char c = ((CHR ''a'' \<le> c \<and> c \<le> CHR ''z'') \<or> (CHR ''A'' \<le> c \<and> c \<le> CHR ''Z'') \<or> is_digit c \<or> c = CHR ''_'')"

text \<open>\<open>/-cloud\b/i\<close>\<close>

fun cloud_tagged :: "string \<Rightarrow> bool" where
  "cloud_tagged [] = False"
| "cloud_tagged (c # cs) =
     ((starts_with ''-cloud'' (to_lower (c # cs))
       \<and> (case drop 6 (c # cs) of [] \<Rightarrow> True | d # _ \<Rightarrow> \<not> word_char d))
      \<or> cloud_tagged cs)"

definition after_slash :: "string \<Rightarrow> string" where
  "after_slash s = rev (takeWhile (\<lambda>c. c \<noteq> CHR ''/'') (rev s))"

definition carriesData :: "feed_entry \<Rightarrow> bool" where
  "carriesData e =
     (fe_input_cost e \<noteq> None \<or> fe_output_cost e \<noteq> None \<or> fe_function_calling e \<noteq> None \<or> fe_response_schema e \<noteq> None
      \<or> fe_vision e \<noteq> None \<or> fe_prompt_caching e \<noteq> None \<or> fe_reasoning e \<noteq> None)"

definition opt_cap :: "capability \<Rightarrow> bool option \<Rightarrow> (capability \<times> bool) list" where
  "opt_cap c b = (case b of None \<Rightarrow> [] | Some v \<Rightarrow> [(c, v)])"

definition synced_of :: "string \<Rightarrow> string \<Rightarrow> provider_kind \<Rightarrow> feed_entry \<Rightarrow> synced_model" where
  "synced_of key cid kind e =
     \<lparr>sm_canonicalId = cid, sm_providerKind = kind,
      sm_displayName = (if CHR ''/'' \<in> set key then after_slash key else key),
      sm_contextWindow = (case fe_max_input_tokens e of Some n \<Rightarrow> Some n | None \<Rightarrow> fe_max_tokens e),
      sm_maxOutput = fe_max_output_tokens e,
      sm_capabilities = opt_cap Cap_tools (fe_function_calling e) @ opt_cap Cap_json_schema (fe_response_schema e)
        @ opt_cap Cap_vision (fe_vision e) @ opt_cap Cap_caching (fe_prompt_caching e) @ opt_cap Cap_reasoning (fe_reasoning e),
      sm_deprecationDate = fe_deprecation_date e,
      sm_pricing = \<lparr>pc_input = perMtok (fe_input_cost e), pc_output = perMtok (fe_output_cost e),
                    pc_cacheRead = perMtok (fe_cache_read_cost e), pc_cacheWrite = perMtok (fe_cache_creation_cost e)\<rparr>\<rparr>"

type_synonym parse_state = "(string, synced_model \<times> bool) jsmap \<times> string list"

text \<open>The map holds each entry and whether its key was namespaced; a namespaced declaration replaces a bare one.\<close>

definition put_entry :: "string \<Rightarrow> provider_kind \<Rightarrow> feed_entry \<Rightarrow> parse_state \<Rightarrow> parse_state" where
  "put_entry key kind e s =
     (let (byId, skipped) = s;
          namespaced = (CHR ''/'' \<in> set key);
          cid = (if namespaced then key else fe_provider e @ ''/'' @ key);
          put = map_set cid (synced_of key cid kind e, namespaced) byId
      in case map_get byId cid of
           None \<Rightarrow> (put, skipped)
         | Some (_, before) \<Rightarrow>
             if namespaced \<and> \<not> before then (put, skipped @ [cid @ '' (duplicate, superseded)''])
             else (byId, skipped @ [key @ '' (duplicate)'']))"

definition parse_key :: "string \<times> json \<Rightarrow> parse_state \<Rightarrow> parse_state" where
  "parse_key kv s =
     (let (key, raw) = kv; skip = (\<lambda>why. (fst s, snd s @ [why]))
      in if key = ''sample_spec'' then s
         else
           (case litellmEntry raw of
              None \<Rightarrow> skip key
            | Some e \<Rightarrow>
                if fe_mode e \<noteq> None \<and> fe_mode e \<noteq> Some ''chat'' then skip key
                else
                  (case map_of PROVIDER_TO_KIND (fe_provider e) of
                     None \<Rightarrow> skip key
                   | Some kind \<Rightarrow>
                       if fe_provider e = ''ollama'' \<and> cloud_tagged key
                       then skip (key @ '' (ollama cloud-hosted, not a local model)'')
                       else if fe_max_input_tokens e = None \<and> fe_max_tokens e = None \<and> \<not> carriesData e then skip key
                       else put_entry key kind e s)))"

definition parseFeed :: "(string \<times> json) list \<Rightarrow> synced_model list \<times> string list" where
  "parseFeed feed = (let (byId, skipped) = fold parse_key feed ([], []) in (map (\<lambda>kv. fst (snd kv)) byId, skipped))"

section \<open>The vendored files\<close>

definition VENDORED_FILES :: "string list" where
  "VENDORED_FILES = [''litellm-prices.json'', ''digitalocean-models.json'']"

text \<open>Reading a file from the first root that has it; \<open>join\<close> of paths and the error of the file system are in \<open>missing\<close>.\<close>

fun read_vendored :: "(string \<Rightarrow> string \<Rightarrow> string option) \<Rightarrow> string list \<Rightarrow> string \<Rightarrow> string option" where
  "read_vendored readFile [] name = None"
| "read_vendored readFile (dir # dirs) name =
     (case readFile dir name of Some t \<Rightarrow> Some t | None \<Rightarrow> read_vendored readFile dirs name)"

fun merge_members :: "(string \<times> json) list \<Rightarrow> (string \<times> json) list \<Rightarrow> (string, (string \<times> json) list) result" where
  "merge_members [] feed = Inr feed"
| "merge_members ((k, v) # ms) feed =
     (if k \<noteq> ''sample_spec'' \<and> map_get feed k \<noteq> None
      then Inl (''vendored feed key collision: '' @ k @ '' appears in more than one file'')
      else merge_members ms (map_set k v feed))"

fun load_files ::
    "(string \<Rightarrow> string \<Rightarrow> string option) \<Rightarrow> (string \<Rightarrow> string) \<Rightarrow> string list \<Rightarrow> string list \<Rightarrow> (string \<times> json) list \<Rightarrow> string
      \<Rightarrow> (string, (string \<times> json) list \<times> string) result" where
  "load_files readFile missing roots [] feed hashed = Inr (feed, hashed)"
| "load_files readFile missing roots (name # names) feed hashed =
     (case read_vendored readFile roots name of
        None \<Rightarrow> Inl (missing name)
      | Some t \<Rightarrow>
          (case json_parse t of
             Some (JObj ms) \<Rightarrow>
               rbind (merge_members ms feed) (\<lambda>feed1. load_files readFile missing roots names feed1 (hashed @ t))
           | _ \<Rightarrow> Inl ''Unexpected token in JSON''))"

definition loadVendoredFeed ::
    "(string \<Rightarrow> string \<Rightarrow> string option) \<Rightarrow> (string \<Rightarrow> string) \<Rightarrow> string list \<Rightarrow> (string \<Rightarrow> string)
      \<Rightarrow> (string, (string \<times> json) list \<times> string) result" where
  "loadVendoredFeed readFile missing roots sha256 =
     rbind (load_files readFile missing roots VENDORED_FILES [] []) (\<lambda>(feed, hashed). Inr (feed, sha256 hashed))"

definition loadCuratedIds ::
    "(string \<Rightarrow> string \<Rightarrow> string option) \<Rightarrow> (string \<Rightarrow> string) \<Rightarrow> string list \<Rightarrow> (string, string list) result" where
  "loadCuratedIds readFile missing roots =
     rbind (loadVendoredFeed readFile missing roots (\<lambda>s. s)) (\<lambda>(feed, _). Inr (map sm_canonicalId (fst (parseFeed feed))))"

section \<open>A run\<close>

record diff_report =
  dr_added :: "string list"
  dr_updated :: "string list"
  dr_pricingChanged :: "string list"
  dr_deprecated :: "string list"
  dr_skipped :: "string list"
  dr_unchanged :: nat

text \<open>\<open>stable\<close> of \<open>jsonEq\<close>: the text of a value with the members of every object in the order of their keys.\<close>

fun stable :: "json \<Rightarrow> string" where
  "stable (JArr vs) = ''['' @ join '','' (map stable vs) @ '']''"
| "stable (JObj ms) =
     ''{'' @ join '','' (map snd (sort_key fst (map (\<lambda>m. (fst m, json_stringify (JStr (fst m)) @ '':'' @ stable (snd m))) ms))) @ ''}''"
| "stable v = json_stringify v"

definition jsonEq :: "json \<Rightarrow> json \<Rightarrow> bool" where
  "jsonEq a b = (stable a = stable b)"

definition caps_json :: "(capability \<times> bool) list \<Rightarrow> json" where
  "caps_json cs = JObj (map (\<lambda>c. (cap_name (fst c), JBool (snd c))) cs)"

text \<open>The latest price of a model, whatever its date.\<close>

definition latest_pricing :: "db \<Rightarrow> string \<Rightarrow> pricing_row option" where
  "latest_pricing d mid =
     find_first (\<lambda>r. True) (sort_key (\<lambda>r. - pr_effectiveFrom r) (filter (\<lambda>r. pr_modelId r = mid) (pricings d)))"

definition numEq :: "rat option \<Rightarrow> rat option \<Rightarrow> bool" where
  "numEq a b = (a = b)"

definition price_due :: "db \<Rightarrow> string \<Rightarrow> prices \<Rightarrow> bool" where
  "price_due d mid p =
     ((case latest_pricing d mid of
         None \<Rightarrow> True
       | Some l \<Rightarrow> \<not> numEq (inputPerMtok l) (pc_input p) \<or> \<not> numEq (outputPerMtok l) (pc_output p)
           \<or> \<not> numEq (cacheReadPerMtok l) (pc_cacheRead p) \<or> \<not> numEq (cacheWritePerMtok l) (pc_cacheWrite p))
      \<and> (pc_input p \<noteq> None \<or> pc_output p \<noteq> None \<or> pc_cacheRead p \<noteq> None \<or> pc_cacheWrite p \<noteq> None))"

text \<open>What a column of six decimals keeps of a price; prices below the column's limit of ten to the eighth are assumed.\<close>

definition numeric6 :: "rat option \<Rightarrow> rat option" where
  "numeric6 x = map_option fixed6 x"

definition appendPricingIfChanged :: "string \<Rightarrow> prices \<Rightarrow> int \<Rightarrow> db \<Rightarrow> bool \<times> db" where
  "appendPricingIfChanged mid p now d =
     (if price_due d mid p
      then (True, d\<lparr>pricings := pricings d @
              [\<lparr>pr_modelId = mid, pr_effectiveFrom = now, inputPerMtok = numeric6 (pc_input p), outputPerMtok = numeric6 (pc_output p),
                cacheReadPerMtok = numeric6 (pc_cacheRead p), cacheWritePerMtok = numeric6 (pc_cacheWrite p)\<rparr>]\<rparr>)
      else (False, d))"

definition row_of :: "db \<Rightarrow> string \<Rightarrow> model_row option" where
  "row_of d cid = find_first (\<lambda>m. canonicalId m = cid) (models d)"

text \<open>What the database says to the values of an entry: nothing, or why it refuses them.\<close>

definition whole :: "rat option \<Rightarrow> bool" where
  "whole x = (case x of None \<Rightarrow> True | Some v \<Rightarrow> v = of_int (floor v))"

definition in_int4 :: "rat option \<Rightarrow> bool" where
  "in_int4 x = (case x of None \<Rightarrow> True | Some v \<Rightarrow> - 2147483648 \<le> v \<and> v \<le> 2147483647)"

definition refuses :: "(string \<Rightarrow> bool) \<Rightarrow> synced_model \<Rightarrow> string option" where
  "refuses dateOk e =
     (if \<not> whole (sm_contextWindow e) \<or> \<not> whole (sm_maxOutput e) then Some ''invalid input syntax for type integer''
      else if \<not> in_int4 (sm_contextWindow e) \<or> \<not> in_int4 (sm_maxOutput e) then Some ''value out of range for type integer''
      else
        (case sm_deprecationDate e of
           None \<Rightarrow> None
         | Some t \<Rightarrow> if dateOk t then None else Some ''invalid input syntax for type date''))"

definition next_context :: "synced_model \<Rightarrow> model_row \<Rightarrow> rat" where
  "next_context e m = nullish (sm_contextWindow e) (of_int (contextWindow m))"

definition next_max_output :: "synced_model \<Rightarrow> model_row \<Rightarrow> rat option" where
  "next_max_output e m = (if sm_contextWindow e = None then map_option of_int (maxOutput m) else sm_maxOutput e)"

definition changed :: "synced_model \<Rightarrow> model_row \<Rightarrow> bool" where
  "changed e m =
     (of_int (contextWindow m) \<noteq> next_context e m \<or> map_option of_int (maxOutput m) \<noteq> next_max_output e m
      \<or> \<not> jsonEq (caps_json (capabilities m)) (caps_json (sm_capabilities e))
      \<or> deprecationDate m \<noteq> sm_deprecationDate e \<or> mdl_status m = MDeprecated)"

definition updated_row :: "synced_model \<Rightarrow> model_row \<Rightarrow> model_row" where
  "updated_row e m =
     m\<lparr>contextWindow := floor (next_context e m), maxOutput := map_option floor (next_max_output e m),
       capabilities := sm_capabilities e, deprecationDate := sm_deprecationDate e, mdl_status := MActive\<rparr>"

definition inserted_row :: "string \<Rightarrow> rat \<Rightarrow> synced_model \<Rightarrow> model_row" where
  "inserted_row fresh window e =
     \<lparr>mdl_id = fresh, canonicalId = sm_canonicalId e, providerKind = sm_providerKind e, displayName = sm_displayName e,
      contextWindow = floor window, maxOutput = map_option floor (sm_maxOutput e), capabilities = sm_capabilities e,
      capabilityOverrides = [], mdl_status = MActive, deprecationDate = sm_deprecationDate e, mdl_source = SrcSynced,
      thirdPartyHosted = False, retentionNote = None\<rparr>"

text \<open>\<open>insert ... on conflict (canonical_id) do update\<close>: the id of the row and the new table.\<close>

definition insert_synced :: "string \<Rightarrow> rat \<Rightarrow> synced_model \<Rightarrow> db \<Rightarrow> string \<times> db" where
  "insert_synced fresh window e d =
     (case row_of d (sm_canonicalId e) of
        None \<Rightarrow> (fresh, d\<lparr>models := models d @ [inserted_row fresh window e]\<rparr>)
      | Some m \<Rightarrow>
          (mdl_id m, update_models (mdl_id m) (\<lambda>r. r\<lparr>contextWindow := floor window, maxOutput := map_option floor (sm_maxOutput e)\<rparr>) d))"

text \<open>The prices of an entry, and the count of the rows nothing happened to.\<close>

definition sync_price :: "int \<Rightarrow> synced_model \<Rightarrow> bool \<Rightarrow> string \<Rightarrow> db \<times> diff_report \<Rightarrow> db \<times> diff_report" where
  "sync_price now e known mid s =
     (let (d, r) = s; (appended, d1) = appendPricingIfChanged mid (sm_pricing e) now d
      in if appended then (d1, r\<lparr>dr_pricingChanged := dr_pricingChanged r @ [sm_canonicalId e]\<rparr>)
         else if known \<and> sm_canonicalId e \<notin> set (dr_updated r) \<and> sm_canonicalId e \<notin> set (dr_added r)
         then (d1, r\<lparr>dr_unchanged := dr_unchanged r + 1\<rparr>) else (d1, r))"

definition skip_entry :: "string \<Rightarrow> db \<times> diff_report \<Rightarrow> db \<times> diff_report" where
  "skip_entry why s = (fst s, (snd s)\<lparr>dr_skipped := dr_skipped (snd s) @ [why]\<rparr>)"

definition syncOneModel ::
    "(string \<Rightarrow> bool) \<Rightarrow> string \<Rightarrow> int \<Rightarrow> synced_model \<Rightarrow> model_row option \<Rightarrow> db \<times> diff_report \<Rightarrow> (string, db \<times> diff_report) result" where
  "syncOneModel dateOk fresh now e current s =
     (let (d, r) = s; cid = sm_canonicalId e
      in case current of
           Some m \<Rightarrow>
             if mdl_source m = SrcCustom then Inr (d, r\<lparr>dr_unchanged := dr_unchanged r + 1\<rparr>)
             else if changed e m
             then (case refuses dateOk e of
                     Some err \<Rightarrow> Inl err
                   | None \<Rightarrow> Inr (sync_price now e True (mdl_id m)
                               (update_models (mdl_id m) (updated_row e) d, r\<lparr>dr_updated := dr_updated r @ [cid]\<rparr>)))
             else Inr (sync_price now e True (mdl_id m) (d, r))
         | None \<Rightarrow>
             (case sm_contextWindow e of
                None \<Rightarrow> Inr (skip_entry (cid @ '' (enrich-only: no context window published; awaiting discovery)'') s)
              | Some window \<Rightarrow>
                  (case refuses dateOk e of
                     Some err \<Rightarrow> Inl err
                   | None \<Rightarrow>
                       (let (mid, d1) = insert_synced fresh window e d
                        in Inr (sync_price now e False mid (d1, r\<lparr>dr_added := dr_added r @ [cid]\<rparr>))))))"

text \<open>An entry that throws is skipped; the rows looked up are those at the start of the run.\<close>

definition sync_step ::
    "(string \<Rightarrow> bool) \<Rightarrow> string \<Rightarrow> int \<Rightarrow> db \<Rightarrow> synced_model \<Rightarrow> db \<times> diff_report \<Rightarrow> db \<times> diff_report" where
  "sync_step dateOk fresh now d0 e s =
     (case syncOneModel dateOk fresh now e (row_of d0 (sm_canonicalId e)) s of
        Inr s1 \<Rightarrow> s1
      | Inl err \<Rightarrow> skip_entry (sm_canonicalId e @ '' ('' @ err @ '')'') s)"

fun sync_entries ::
    "(string \<Rightarrow> bool) \<Rightarrow> (nat \<Rightarrow> string) \<Rightarrow> int \<Rightarrow> db \<Rightarrow> nat \<Rightarrow> synced_model list \<Rightarrow> db \<times> diff_report \<Rightarrow> db \<times> diff_report" where
  "sync_entries dateOk ids now d0 n [] s = s"
| "sync_entries dateOk ids now d0 n (e # es) s = sync_entries dateOk ids now d0 (Suc n) es (sync_step dateOk (ids n) now d0 e s)"

definition vanished :: "db \<Rightarrow> synced_model list \<Rightarrow> model_row list" where
  "vanished d0 es =
     filter (\<lambda>m. mdl_source m = SrcSynced \<and> mdl_status m = MActive \<and> canonicalId m \<notin> sm_canonicalId ` set es) (models d0)"

definition flag_vanished :: "model_row list \<Rightarrow> db \<times> diff_report \<Rightarrow> db \<times> diff_report" where
  "flag_vanished gone s =
     (let (d, r) = s
      in if gone = [] then s
         else (d\<lparr>models := map (\<lambda>m. if mdl_id m \<in> mdl_id ` set gone \<and> mdl_source m \<noteq> SrcCustom then m\<lparr>mdl_status := MDeprecated\<rparr> else m)
                  (models d)\<rparr>,
               r\<lparr>dr_deprecated := dr_deprecated r @ map canonicalId gone\<rparr>))"

definition syncCatalog ::
    "(string \<Rightarrow> bool) \<Rightarrow> (nat \<Rightarrow> string) \<Rightarrow> int \<Rightarrow> (string \<times> json) list \<Rightarrow> db \<Rightarrow> db \<times> diff_report" where
  "syncCatalog dateOk ids now feed d =
     (let (es, skipped) = parseFeed feed;
          r0 = \<lparr>dr_added = [], dr_updated = [], dr_pricingChanged = [], dr_deprecated = [], dr_skipped = skipped, dr_unchanged = 0\<rparr>
      in flag_vanished (vanished d es) (sync_entries dateOk ids now d 0 es (d, r0)))"

section \<open>Reading the feed\<close>

lemma tagged_ollama: "cloud_tagged (''ollama/'' @ key) = cloud_tagged key"
  by (simp add: to_lower_def lower_char_def char_code_def)

definition parse_ok :: "parse_state \<Rightarrow> bool" where
  "parse_ok s \<longleftrightarrow> map_ok (fst s) \<and> (\<forall>(c, e, b)\<in>set (fst s). sm_canonicalId e = c
     \<and> (sm_providerKind e = local \<longrightarrow> \<not> cloud_tagged c))"

lemma local_is_ollama: "map_of PROVIDER_TO_KIND p = Some local \<Longrightarrow> p = ''ollama''"
  by (auto simp: PROVIDER_TO_KIND_def split: if_splits)

lemma parse_ok_skip: "parse_ok s \<Longrightarrow> parse_ok (fst s, sk)"
  by (simp add: parse_ok_def)

lemma put_entry_ok:
  assumes "parse_ok s" "kind = local \<longrightarrow> fe_provider e = ''ollama'' \<and> \<not> cloud_tagged key"
  shows "parse_ok (put_entry key kind e s)"
proof -
  let ?cid = "if CHR ''/'' \<in> set key then key else fe_provider e @ ''/'' @ key"
  let ?row = "(synced_of key ?cid kind e, CHR ''/'' \<in> set key)"
  have tag: "kind = local \<longrightarrow> \<not> cloud_tagged ?cid"
    using assms(2) tagged_ollama [of key] by auto
  have row: "sm_canonicalId (fst ?row) = ?cid" "sm_providerKind (fst ?row) = kind"
    by (simp_all add: synced_of_def)
  have "parse_ok (map_set ?cid ?row (fst s), sk)" for sk
    unfolding parse_ok_def fst_conv
  proof
    show "map_ok (map_set ?cid ?row (fst s))"
      using assms(1) by (simp add: parse_ok_def)
    show "\<forall>(c, x, b)\<in>set (map_set ?cid ?row (fst s)). sm_canonicalId x = c \<and> (sm_providerKind x = local \<longrightarrow> \<not> cloud_tagged c)"
    proof (clarify, goal_cases)
      case (1 c x b)
      then have "(c, x, b) = (?cid, ?row) \<or> (c, x, b) \<in> set (fst s)"
        using map_set_subset [of ?cid ?row "fst s"] by blast
      then show ?case
        using assms(1) tag row unfolding parse_ok_def by auto
    qed
  qed
  then show ?thesis
    using parse_ok_skip [OF assms(1)]
    by (cases s; cases "CHR ''/'' \<in> set key") (simp_all add: put_entry_def Let_def split: option.splits prod.splits)
qed

lemma parse_key_ok:
  assumes "parse_ok s"
  shows "parse_ok (parse_key kv s)"
proof -
  have "parse_ok (put_entry key kind e s)"
    if "map_of PROVIDER_TO_KIND (fe_provider e) = Some kind" "\<not> (fe_provider e = ''ollama'' \<and> cloud_tagged key)" for key kind e
    by (rule put_entry_ok [OF assms]) (use local_is_ollama [of "fe_provider e"] that in auto)
  then show ?thesis
    using assms parse_ok_skip [OF assms] by (simp add: parse_key_def Let_def split: option.splits prod.splits)
qed

lemma parseFeed_ok: "parse_ok (fold parse_key feed ([], []))"
proof -
  have "parse_ok s \<Longrightarrow> parse_ok (fold parse_key feed s)" for s
    by (induction feed arbitrary: s) (simp_all add: parse_key_ok)
  moreover have "parse_ok ([], [])"
    by (simp add: parse_ok_def)
  ultimately show ?thesis
    by blast
qed

lemma parseFeed_entries:
  "distinct (map sm_canonicalId (fst (parseFeed feed)))
   \<and> (\<forall>e\<in>set (fst (parseFeed feed)). sm_providerKind e = local \<longrightarrow> \<not> cloud_tagged (sm_canonicalId e))"
proof -
  obtain byId skipped where run: "fold parse_key feed ([], []) = (byId, skipped)"
    by (cases "fold parse_key feed ([], [])")
  with parseFeed_ok [of feed] have ok: "map_ok byId" "\<forall>(c, e, b)\<in>set byId. sm_canonicalId e = c \<and> (sm_providerKind e = local \<longrightarrow> \<not> cloud_tagged c)"
    by (simp_all add: parse_ok_def)
  then have keys: "map sm_canonicalId (map (\<lambda>kv. fst (snd kv)) byId) = map fst byId"
    by auto
  have entries: "fst (parseFeed feed) = map (\<lambda>kv. fst (snd kv)) byId"
    by (simp add: parseFeed_def run)
  have "distinct (map sm_canonicalId (fst (parseFeed feed)))"
    unfolding entries keys using ok(1) by (simp add: map_ok_def)
  with ok(2) show ?thesis
    unfolding entries by auto
qed

section \<open>What a run keeps\<close>

text \<open>The columns of a row that belong to the operator or identify the model.\<close>

definition row_kept :: "model_row \<Rightarrow> model_row \<Rightarrow> bool" where
  "row_kept m m' \<longleftrightarrow>
     mdl_id m' = mdl_id m \<and> canonicalId m' = canonicalId m \<and> providerKind m' = providerKind m \<and> displayName m' = displayName m
     \<and> mdl_source m' = mdl_source m \<and> capabilityOverrides m' = capabilityOverrides m \<and> thirdPartyHosted m' = thirdPartyHosted m
     \<and> retentionNote m' = retentionNote m \<and> (mdl_source m = SrcCustom \<longrightarrow> m' = m)"

lemma row_kept_refl [simp]: "row_kept m m"
  by (simp add: row_kept_def)

lemma row_kept_trans: "row_kept m m' \<Longrightarrow> row_kept m' m'' \<Longrightarrow> row_kept m m''"
  by (auto simp: row_kept_def)

definition catalog_kept :: "db \<Rightarrow> db \<Rightarrow> bool" where
  "catalog_kept d d' \<longleftrightarrow>
     (\<forall>m\<in>set (models d). \<exists>m'\<in>set (models d'). row_kept m m') \<and> (\<exists>new. pricings d' = pricings d @ new)
     \<and> policies d' = policies d \<and> taskClasses d' = taskClasses d"

lemma catalog_kept_refl [simp]: "catalog_kept d d"
  by (auto simp: catalog_kept_def intro: rev_bexI)

lemma catalog_kept_trans: "catalog_kept d d1 \<Longrightarrow> catalog_kept d1 d2 \<Longrightarrow> catalog_kept d d2"
  unfolding catalog_kept_def by (metis append.assoc row_kept_trans)

definition catalog_wf :: "db \<Rightarrow> bool" where
  "catalog_wf d \<longleftrightarrow> distinct (map mdl_id (models d)) \<and> distinct (map canonicalId (models d))"

lemma wf_same_id: "catalog_wf d \<Longrightarrow> m \<in> set (models d) \<Longrightarrow> m' \<in> set (models d) \<Longrightarrow> mdl_id m = mdl_id m' \<Longrightarrow> m = m'"
  by (auto simp: catalog_wf_def distinct_map inj_on_def)

lemma row_of_Some: "row_of d c = Some m \<Longrightarrow> m \<in> set (models d) \<and> canonicalId m = c"
  unfolding row_of_def by (auto dest: find_first_Some)

text \<open>Writing one row of the table: the row of its canonical id changes, every other stays.\<close>

lemma update_row:
  assumes wf: "catalog_wf d" and m: "row_of d c = Some m" and f: "\<And>r. mdl_id (f r) = mdl_id r" "\<And>r. canonicalId (f r) = canonicalId r"
  shows "row_of (update_models (mdl_id m) f d) c' = (if c' = c then Some (f m) else row_of d c')"
    and "catalog_wf (update_models (mdl_id m) f d)"
    and "mdl_id ` set (models (update_models (mdl_id m) f d)) = mdl_id ` set (models d)"
proof -
  let ?g = "\<lambda>r. if mdl_id r = mdl_id m then f r else r"
  have "row_of (update_models (mdl_id m) f d) c' = map_option ?g (row_of d c')"
    unfolding row_of_def update_models_def using f by (simp add: find_first_map)
  moreover have "mdl_id r \<noteq> mdl_id m" if "row_of d c' = Some r" "c' \<noteq> c" for r
    using wf_same_id [OF wf] row_of_Some [OF that(1)] row_of_Some [OF m] that(2) by blast
  ultimately show "row_of (update_models (mdl_id m) f d) c' = (if c' = c then Some (f m) else row_of d c')"
    using m by (cases "row_of d c'") auto
  have "map mdl_id (models (update_models (mdl_id m) f d)) = map mdl_id (models d)"
    "map canonicalId (models (update_models (mdl_id m) f d)) = map canonicalId (models d)"
    using f by (auto simp: update_models_def)
  then show "catalog_wf (update_models (mdl_id m) f d)"
    "mdl_id ` set (models (update_models (mdl_id m) f d)) = mdl_id ` set (models d)"
    using wf unfolding catalog_wf_def by (metis set_map)+
qed

lemma update_kept:
  assumes "\<And>r. r \<in> set (models d) \<Longrightarrow> mdl_id r = i \<Longrightarrow> row_kept r (f r)"
  shows "catalog_kept d (update_models i f d)"
proof -
  have "\<exists>m'\<in>set (models (update_models i f d)). row_kept m m'" if "m \<in> set (models d)" for m
    by (rule bexI [of _ "if mdl_id m = i then f m else m"]) (use assms that in \<open>auto simp: update_models_def\<close>)
  then show ?thesis
    by (simp add: catalog_kept_def update_models_def)
qed

lemma row_kept_updated: "mdl_source m \<noteq> SrcCustom \<Longrightarrow> row_kept m (updated_row e m)"
  by (simp add: row_kept_def updated_row_def)

lemma updated_settles: "refuses dateOk e = None \<Longrightarrow> \<not> changed e (updated_row e m)"
  by (auto simp: changed_def updated_row_def next_context_def next_max_output_def jsonEq_def refuses_def whole_def
      option.map_comp comp_def split: option.splits if_splits)

lemma inserted_settles: "refuses dateOk e = None \<Longrightarrow> sm_contextWindow e = Some w \<Longrightarrow> \<not> changed e (inserted_row fresh w e)"
  by (auto simp: changed_def inserted_row_def next_context_def next_max_output_def jsonEq_def refuses_def whole_def
      option.map_comp comp_def split: option.splits if_splits)

text \<open>A price just written is the latest.\<close>

lemma latest_new:
  assumes "\<And>r. r \<in> set (pricings d) \<Longrightarrow> pr_modelId r = mid \<Longrightarrow> pr_effectiveFrom r < now"
    and "pr_modelId p = mid" "pr_effectiveFrom p = now"
  shows "latest_pricing (d\<lparr>pricings := pricings d @ [p]\<rparr>) mid = Some p"
proof -
  let ?rows = "filter (\<lambda>r. pr_modelId r = mid) (pricings d) @ [p]"
  obtain r rest where sorted: "sort_key (\<lambda>r. - pr_effectiveFrom r) ?rows = r # rest"
    by (cases "sort_key (\<lambda>r. - pr_effectiveFrom r) ?rows") (auto dest: arg_cong [where f = length])
  then have rows: "set (r # rest) = set ?rows"
    by (metis set_sort)
  have "sorted (map (\<lambda>r. - pr_effectiveFrom r) (r # rest))"
    using sorted_sort_key [of "\<lambda>r. - pr_effectiveFrom r" ?rows] unfolding sorted .
  then have "\<forall>q\<in>set (r # rest). pr_effectiveFrom q \<le> pr_effectiveFrom r"
    by auto
  moreover have "p \<in> set (r # rest)"
    unfolding rows by simp
  moreover have "r \<in> set ?rows"
    unfolding rows [symmetric] by simp
  ultimately have "r = p"
    using assms by fastforce
  with sorted assms(2) show ?thesis
    by (simp add: latest_pricing_def)
qed

text \<open>Prices the columns keep exactly.\<close>

definition six_decimals :: "prices \<Rightarrow> bool" where
  "six_decimals p \<longleftrightarrow> numeric6 (pc_input p) = pc_input p \<and> numeric6 (pc_output p) = pc_output p
     \<and> numeric6 (pc_cacheRead p) = pc_cacheRead p \<and> numeric6 (pc_cacheWrite p) = pc_cacheWrite p"

definition settled_entry :: "(string \<Rightarrow> bool) \<Rightarrow> db \<Rightarrow> synced_model \<Rightarrow> bool" where
  "settled_entry dateOk d e \<longleftrightarrow>
     (case row_of d (sm_canonicalId e) of
        None \<Rightarrow> sm_contextWindow e = None \<or> refuses dateOk e \<noteq> None
      | Some m \<Rightarrow> mdl_source m = SrcCustom \<or> (changed e m \<and> refuses dateOk e \<noteq> None)
          \<or> (\<not> changed e m \<and> (six_decimals (sm_pricing e) \<longrightarrow> \<not> price_due d (mdl_id m) (sm_pricing e))))"

text \<open>What the work on one entry does to the database.\<close>

definition step_result :: "(string \<Rightarrow> bool) \<Rightarrow> string \<Rightarrow> synced_model \<Rightarrow> db \<Rightarrow> db \<Rightarrow> bool" where
  "step_result dateOk fresh e d d' \<longleftrightarrow>
     catalog_wf d' \<and> catalog_kept d d' \<and> settled_entry dateOk d' e
     \<and> (\<forall>c. c \<noteq> sm_canonicalId e \<longrightarrow> row_of d' c = row_of d c)
     \<and> mdl_id ` set (models d') \<subseteq> insert fresh (mdl_id ` set (models d))
     \<and> (\<exists>new. pricings d' = pricings d @ new \<and>
          (\<forall>p\<in>set new. \<exists>m. row_of d' (sm_canonicalId e) = Some m \<and> pr_modelId p = mdl_id m))"

lemma price_phase:
  assumes "\<And>r. r \<in> set (pricings d) \<Longrightarrow> pr_modelId r = mid \<Longrightarrow> pr_effectiveFrom r < now"
  shows "\<exists>new. fst (sync_price now e known mid (d, r)) = d\<lparr>pricings := pricings d @ new\<rparr> \<and> (\<forall>p\<in>set new. pr_modelId p = mid)
    \<and> (six_decimals (sm_pricing e) \<longrightarrow> \<not> price_due (d\<lparr>pricings := pricings d @ new\<rparr>) mid (sm_pricing e))"
proof (cases "price_due d mid (sm_pricing e)")
  case False
  then show ?thesis
    by (intro exI [of _ "[]"]) (simp add: sync_price_def appendPricingIfChanged_def)
next
  case True
  let ?p = "\<lparr>pr_modelId = mid, pr_effectiveFrom = now, inputPerMtok = numeric6 (pc_input (sm_pricing e)),
    outputPerMtok = numeric6 (pc_output (sm_pricing e)), cacheReadPerMtok = numeric6 (pc_cacheRead (sm_pricing e)),
    cacheWritePerMtok = numeric6 (pc_cacheWrite (sm_pricing e))\<rparr>"
  have last: "latest_pricing (d\<lparr>pricings := pricings d @ [?p]\<rparr>) mid = Some ?p"
    by (rule latest_new) (use assms in auto)
  have "six_decimals (sm_pricing e) \<longrightarrow> \<not> price_due (d\<lparr>pricings := pricings d @ [?p]\<rparr>) mid (sm_pricing e)"
    unfolding price_due_def last by (simp add: six_decimals_def numEq_def)
  with True show ?thesis
    by (intro exI [of _ "[?p]"]) (simp add: sync_price_def appendPricingIfChanged_def)
qed

lemma row_of_pricings [simp]: "row_of (d\<lparr>pricings := ps\<rparr>) c = row_of d c"
  by (simp add: row_of_def)

text \<open>From a database where the row is as the entry wants it, through the prices, to the end of the step.\<close>

lemma finish_entry:
  assumes d1: "catalog_wf d1" "catalog_kept d d1" "pricings d1 = pricings d" "\<forall>c. c \<noteq> sm_canonicalId e \<longrightarrow> row_of d1 c = row_of d c"
      "mdl_id ` set (models d1) \<subseteq> insert fresh (mdl_id ` set (models d))"
    and row: "row_of d1 (sm_canonicalId e) = Some m" "\<not> changed e m"
    and old: "\<And>r. r \<in> set (pricings d) \<Longrightarrow> pr_modelId r = mdl_id m \<Longrightarrow> pr_effectiveFrom r < now"
  shows "step_result dateOk fresh e d (fst (sync_price now e known (mdl_id m) (d1, r)))"
proof -
  obtain new where new: "fst (sync_price now e known (mdl_id m) (d1, r)) = d1\<lparr>pricings := pricings d1 @ new\<rparr>"
      "\<forall>p\<in>set new. pr_modelId p = mdl_id m"
      "six_decimals (sm_pricing e) \<longrightarrow> \<not> price_due (d1\<lparr>pricings := pricings d1 @ new\<rparr>) (mdl_id m) (sm_pricing e)"
    using price_phase [of d1 "mdl_id m" now e known r] old d1(3) by auto
  have "catalog_kept d1 (d1\<lparr>pricings := pricings d1 @ new\<rparr>)"
    by (auto simp: catalog_kept_def intro: rev_bexI)
  with d1 row new show ?thesis
    unfolding step_result_def new(1)
    by (auto simp: settled_entry_def catalog_wf_def intro: catalog_kept_trans)
qed

lemma no_write:
  assumes "catalog_wf d" "settled_entry dateOk d e"
  shows "step_result dateOk fresh e d d"
  using assms by (auto simp: step_result_def intro!: exI [of _ "[]"])

lemma append_row:
  assumes "catalog_wf d" "row_of d (canonicalId m) = None" "mdl_id m \<notin> mdl_id ` set (models d)"
  shows "catalog_wf (d\<lparr>models := models d @ [m]\<rparr>)"
    and "row_of (d\<lparr>models := models d @ [m]\<rparr>) c = (if c = canonicalId m then Some m else row_of d c)"
    and "catalog_kept d (d\<lparr>models := models d @ [m]\<rparr>)"
proof -
  have "canonicalId m \<notin> canonicalId ` set (models d)"
    using assms(2) by (auto simp: row_of_def find_first_None)
  then show "catalog_wf (d\<lparr>models := models d @ [m]\<rparr>)"
    using assms by (simp add: catalog_wf_def)
  show "row_of (d\<lparr>models := models d @ [m]\<rparr>) c = (if c = canonicalId m then Some m else row_of d c)"
    using assms(2) by (auto simp: row_of_def find_first_append split: option.splits)
  show "catalog_kept d (d\<lparr>models := models d @ [m]\<rparr>)"
    by (auto simp: catalog_kept_def intro: rev_bexI)
qed

lemma step_entry:
  assumes wf: "catalog_wf d" and same: "row_of d0 (sm_canonicalId e) = row_of d (sm_canonicalId e)"
    and fresh: "fresh \<notin> mdl_id ` set (models d)"
    and old: "\<And>r m. r \<in> set (pricings d) \<Longrightarrow> row_of d (sm_canonicalId e) = Some m \<Longrightarrow> pr_modelId r = mdl_id m \<Longrightarrow> pr_effectiveFrom r < now"
    and older: "\<And>r. r \<in> set (pricings d) \<Longrightarrow> pr_modelId r = fresh \<Longrightarrow> pr_effectiveFrom r < now"
  shows "step_result dateOk fresh e d (fst (sync_step dateOk fresh now d0 e (d, r)))"
proof (cases "row_of d (sm_canonicalId e)")
  case None
  show ?thesis
  proof (cases "sm_contextWindow e = None \<or> refuses dateOk e \<noteq> None")
    case True
    then have "fst (sync_step dateOk fresh now d0 e (d, r)) = d"
      using None same by (auto simp: sync_step_def syncOneModel_def skip_entry_def Let_def split: option.splits)
    with True None show ?thesis
      using no_write [OF wf] by (simp add: settled_entry_def)
  next
    case False
    then obtain w where w: "sm_contextWindow e = Some w" "refuses dateOk e = None"
      by auto
    let ?m = "inserted_row fresh w e"
    let ?d1 = "d\<lparr>models := models d @ [?m]\<rparr>"
    have m: "mdl_id ?m = fresh" "canonicalId ?m = sm_canonicalId e"
      by (simp_all add: inserted_row_def)
    note appended = append_row [of d ?m, unfolded m, OF wf None fresh]
    have "fst (sync_step dateOk fresh now d0 e (d, r))
        = fst (sync_price now e False (mdl_id ?m) (?d1, r\<lparr>dr_added := dr_added r @ [sm_canonicalId e]\<rparr>))"
      using w None same by (simp add: sync_step_def syncOneModel_def insert_synced_def m)
    moreover have "step_result dateOk fresh e d \<dots>"
      by (rule finish_entry) (use appended m older inserted_settles [OF w(2,1)] in auto)
    ultimately show ?thesis
      by simp
  qed
next
  case (Some m)
  consider (custom) "mdl_source m = SrcCustom" | (refused) "mdl_source m \<noteq> SrcCustom" "changed e m" "refuses dateOk e \<noteq> None"
    | (written) "mdl_source m \<noteq> SrcCustom" "changed e m" "refuses dateOk e = None" | (same) "mdl_source m \<noteq> SrcCustom" "\<not> changed e m"
    by blast
  then show ?thesis
  proof cases
    case custom
    then show ?thesis
      using no_write [OF wf, of dateOk e fresh] Some same by (simp add: sync_step_def syncOneModel_def settled_entry_def)
  next
    case refused
    then have "fst (sync_step dateOk fresh now d0 e (d, r)) = d"
      using Some same by (auto simp: sync_step_def syncOneModel_def skip_entry_def)
    then show ?thesis
      using refused Some no_write [OF wf, of dateOk e fresh] by (simp add: settled_entry_def)
  next
    case written
    let ?d1 = "update_models (mdl_id m) (updated_row e) d"
    have f: "mdl_id (updated_row e x) = mdl_id x" "canonicalId (updated_row e x) = canonicalId x" for x
      by (simp_all add: updated_row_def)
    note upd = update_row [OF wf Some f]
    have kept: "catalog_kept d ?d1"
      by (rule update_kept) (use wf_same_id [OF wf] row_of_Some [OF Some] written(1) row_kept_updated in metis)
    have "fst (sync_step dateOk fresh now d0 e (d, r))
        = fst (sync_price now e True (mdl_id (updated_row e m)) (?d1, r\<lparr>dr_updated := dr_updated r @ [sm_canonicalId e]\<rparr>))"
      using written Some same by (simp add: sync_step_def syncOneModel_def f)
    moreover have "step_result dateOk fresh e d \<dots>"
      by (rule finish_entry) (use upd kept old Some updated_settles [OF written(3)] in \<open>auto simp: f update_models_def [of _ _ d]\<close>)
    ultimately show ?thesis
      by simp
  next
    case same
    then have "fst (sync_step dateOk fresh now d0 e (d, r)) = fst (sync_price now e True (mdl_id m) (d, r))"
      using Some assms(2) by (simp add: sync_step_def syncOneModel_def)
    moreover have "step_result dateOk fresh e d \<dots>"
      by (rule finish_entry) (use wf Some same old in auto)
    ultimately show ?thesis
      by simp
  qed
qed

lemma settled_frame:
  assumes step: "step_result dateOk fresh e d d'" and other: "sm_canonicalId e' \<noteq> sm_canonicalId e" and "settled_entry dateOk d e'"
  shows "settled_entry dateOk d' e'"
proof -
  obtain new where new: "pricings d' = pricings d @ new"
      "\<And>p. p \<in> set new \<Longrightarrow> \<exists>m. row_of d' (sm_canonicalId e) = Some m \<and> pr_modelId p = mdl_id m"
    using step by (auto simp: step_result_def)
  have same: "row_of d' (sm_canonicalId e') = row_of d (sm_canonicalId e')" and wf: "catalog_wf d'"
    using step other by (auto simp: step_result_def)
  have "price_due d' (mdl_id m') ps = price_due d (mdl_id m') ps" if m': "row_of d' (sm_canonicalId e') = Some m'" for m' ps
  proof -
    have "pr_modelId p \<noteq> mdl_id m'" if "p \<in> set new" for p
      using new(2) [OF that] wf_same_id [OF wf] row_of_Some m' other by metis
    then have "filter (\<lambda>r. pr_modelId r = mdl_id m') new = []"
      by (simp add: filter_empty_conv)
    then show ?thesis
      by (simp add: price_due_def latest_pricing_def new(1))
  qed
  with assms(3) show ?thesis
    by (auto simp: settled_entry_def same split: option.splits)
qed

definition run_inv :: "(string \<Rightarrow> bool) \<Rightarrow> (nat \<Rightarrow> string) \<Rightarrow> int \<Rightarrow> db \<Rightarrow> synced_model set \<Rightarrow> nat \<Rightarrow> db \<Rightarrow> bool" where
  "run_inv dateOk ids now d0 finished n d \<longleftrightarrow>
     catalog_wf d \<and> catalog_kept d0 d \<and> (\<forall>k\<ge>n. ids k \<notin> mdl_id ` set (models d))
     \<and> (\<forall>c. c \<notin> sm_canonicalId ` finished \<longrightarrow> row_of d c = row_of d0 c) \<and> (\<forall>e\<in>finished. settled_entry dateOk d e)
     \<and> (\<forall>r\<in>set (pricings d). pr_effectiveFrom r < now
          \<or> (\<exists>e\<in>finished. \<exists>m. row_of d (sm_canonicalId e) = Some m \<and> pr_modelId r = mdl_id m))"

lemma run_inv_step:
  assumes inv: "run_inv dateOk ids now d0 finished n d" and e: "sm_canonicalId e \<notin> sm_canonicalId ` finished" and "inj ids"
  shows "run_inv dateOk ids now d0 (insert e finished) (Suc n) (fst (sync_step dateOk (ids n) now d0 e (d, r)))"
proof -
  let ?d' = "fst (sync_step dateOk (ids n) now d0 e (d, r))"
  have wf: "catalog_wf d"
    using inv by (simp add: run_inv_def)
  have late: "\<exists>e'\<in>finished. \<exists>m'. row_of d (sm_canonicalId e') = Some m' \<and> pr_modelId q = mdl_id m'"
    if "q \<in> set (pricings d)" "\<not> pr_effectiveFrom q < now" for q
    using inv that by (auto simp: run_inv_def)
  have step: "step_result dateOk (ids n) e d ?d'"
  proof (rule step_entry [OF wf])
    show "row_of d0 (sm_canonicalId e) = row_of d (sm_canonicalId e)"
      using inv e by (simp add: run_inv_def)
    show fresh: "ids n \<notin> mdl_id ` set (models d)"
      using inv by (simp add: run_inv_def)
    show "pr_effectiveFrom q < now" if "q \<in> set (pricings d)" "row_of d (sm_canonicalId e) = Some m" "pr_modelId q = mdl_id m" for q m
      using late [OF that(1)] wf_same_id [OF wf] row_of_Some that(2,3) e by (metis image_eqI)
    show "pr_effectiveFrom q < now" if "q \<in> set (pricings d)" "pr_modelId q = ids n" for q
      using late [OF that(1)] row_of_Some that(2) fresh by (metis image_eqI)
  qed
  then have frame: "c \<noteq> sm_canonicalId e \<Longrightarrow> row_of ?d' c = row_of d c" for c
    by (simp add: step_result_def)
  have settled: "settled_entry dateOk ?d' e'" if "e' \<in> insert e finished" for e'
  proof (cases "e' = e")
    case False
    with that e have "sm_canonicalId e' \<noteq> sm_canonicalId e"
      by (metis image_eqI insertE)
    then show ?thesis
      using settled_frame [OF step] inv that False by (auto simp: run_inv_def)
  qed (use step in \<open>simp add: step_result_def\<close>)
  have priced: "pr_effectiveFrom q < now \<or> (\<exists>e'\<in>insert e finished. \<exists>m. row_of ?d' (sm_canonicalId e') = Some m \<and> pr_modelId q = mdl_id m)"
    if "q \<in> set (pricings ?d')" for q
  proof (cases "q \<in> set (pricings d)")
    case True
    then show ?thesis
      using late [OF True] frame e by (metis image_eqI insertI2)
  next
    case False
    with step that show ?thesis
      by (auto simp: step_result_def)
  qed
  have ids: "ids k \<notin> mdl_id ` set (models ?d')" if "Suc n \<le> k" for k
  proof -
    have "ids k \<noteq> ids n" "ids k \<notin> mdl_id ` set (models d)"
      using that inv injD [OF assms(3), of k n] by (auto simp: run_inv_def)
    then show ?thesis
      using step unfolding step_result_def by blast
  qed
  have "catalog_kept d0 ?d'" "catalog_wf ?d'"
    using step inv catalog_kept_trans by (auto simp: step_result_def run_inv_def)
  then show ?thesis
    using settled priced ids inv frame unfolding run_inv_def by simp
qed

lemma run_inv_entries:
  "run_inv dateOk ids now d0 finished n d \<Longrightarrow> distinct (map sm_canonicalId es) \<Longrightarrow> sm_canonicalId ` set es \<inter> sm_canonicalId ` finished = {}
    \<Longrightarrow> inj ids \<Longrightarrow> \<exists>m. run_inv dateOk ids now d0 (finished \<union> set es) m (fst (sync_entries dateOk ids now d0 n es (d, r)))"
proof (induction es arbitrary: finished n d r)
  case (Cons e es)
  let ?s = "sync_step dateOk (ids n) now d0 e (d, r)"
  have "run_inv dateOk ids now d0 (insert e finished) (Suc n) (fst ?s)"
    using Cons.prems by (intro run_inv_step) auto
  from Cons.IH [OF this, of "snd ?s"] Cons.prems show ?case
    by auto
qed auto

text \<open>Flagging what has vanished: only rows outside the feed change.\<close>

lemma flag_kept: "catalog_kept d (fst (flag_vanished gone (d, r)))"
proof -
  let ?g = "\<lambda>m. if mdl_id m \<in> mdl_id ` set gone \<and> mdl_source m \<noteq> SrcCustom then m\<lparr>mdl_status := MDeprecated\<rparr> else m"
  have "\<exists>m'\<in>set (models (d\<lparr>models := map ?g (models d)\<rparr>)). row_kept m m'" if "m \<in> set (models d)" for m
    by (rule bexI [of _ "?g m"]) (use that in \<open>auto simp: row_kept_def\<close>)
  then have "catalog_kept d (d\<lparr>models := map ?g (models d)\<rparr>)"
    by (simp add: catalog_kept_def)
  then show ?thesis
    by (simp add: flag_vanished_def)
qed

lemma flag_row:
  "row_of (fst (flag_vanished gone (d, r))) c =
     map_option (\<lambda>m. if mdl_id m \<in> mdl_id ` set gone \<and> mdl_source m \<noteq> SrcCustom then m\<lparr>mdl_status := MDeprecated\<rparr> else m) (row_of d c)"
  by (cases "gone = []") (auto simp: flag_vanished_def row_of_def find_first_map option.map_ident cong: option.map_cong)

lemma flag_pricings: "pricings (fst (flag_vanished gone (d, r))) = pricings d"
  by (simp add: flag_vanished_def)

lemma flag_wf: "catalog_wf d \<Longrightarrow> catalog_wf (fst (flag_vanished gone (d, r)))"
  by (auto simp: flag_vanished_def catalog_wf_def comp_def if_distrib cong: if_cong)

section \<open>Properties\<close>

definition new_report :: "string list \<Rightarrow> diff_report" where
  "new_report skipped =
     \<lparr>dr_added = [], dr_updated = [], dr_pricingChanged = [], dr_deprecated = [], dr_skipped = skipped, dr_unchanged = 0\<rparr>"

lemma syncCatalog_eq:
  "syncCatalog dateOk ids now feed d =
     flag_vanished (vanished d (fst (parseFeed feed)))
       (sync_entries dateOk ids now d 0 (fst (parseFeed feed)) (d, new_report (snd (parseFeed feed))))"
  by (simp add: syncCatalog_def new_report_def split: prod.splits)

lemma run_inv_start:
  "catalog_wf d \<Longrightarrow> \<forall>k. ids k \<notin> mdl_id ` set (models d) \<Longrightarrow> \<forall>r\<in>set (pricings d). pr_effectiveFrom r < now
    \<Longrightarrow> run_inv dateOk ids now d {} 0 d"
  by (simp add: run_inv_def)

lemma row_of_member: "catalog_wf d \<Longrightarrow> m \<in> set (models d) \<Longrightarrow> row_of d (canonicalId m) = Some m"
proof -
  assume wf: "catalog_wf d" and m: "m \<in> set (models d)"
  then obtain x where x: "row_of d (canonicalId m) = Some x"
    unfolding row_of_def by (cases "find_first (\<lambda>r. canonicalId r = canonicalId m) (models d)") (auto simp: find_first_None)
  with row_of_Some [OF x] wf m show ?thesis
    by (auto simp: catalog_wf_def distinct_map inj_on_def)
qed

text \<open>An entry that is settled is worked on without effect.\<close>

lemma step_settled:
  assumes "settled_entry dateOk d e" "six_decimals (sm_pricing e)"
  shows "\<exists>sk un. sync_step dateOk fresh now d e (d, r) = (d, r\<lparr>dr_skipped := sk, dr_unchanged := un\<rparr>)"
proof (cases "row_of d (sm_canonicalId e)")
  case None
  with assms have "sync_step dateOk fresh now d e (d, r) \<in> range (\<lambda>why. skip_entry why (d, r))"
    by (auto simp: settled_entry_def sync_step_def syncOneModel_def Let_def split: option.splits)
  then obtain why where "sync_step dateOk fresh now d e (d, r) = (d, r\<lparr>dr_skipped := dr_skipped r @ [why], dr_unchanged := dr_unchanged r\<rparr>)"
    by (auto simp: skip_entry_def)
  then show ?thesis
    by blast
next
  case (Some m)
  show ?thesis
  proof (cases "mdl_source m = SrcCustom \<or> \<not> changed e m")
    case True
    with assms Some have "\<exists>un. sync_step dateOk fresh now d e (d, r) = (d, r\<lparr>dr_skipped := dr_skipped r, dr_unchanged := un\<rparr>)"
      by (auto simp: settled_entry_def sync_step_def syncOneModel_def Let_def sync_price_def appendPricingIfChanged_def
          intro: exI [of _ "dr_unchanged r"])
    then show ?thesis
      by blast
  next
    case False
    with assms Some obtain err where "refuses dateOk e = Some err"
      by (auto simp: settled_entry_def)
    with False Some have "sync_step dateOk fresh now d e (d, r)
        = (d, r\<lparr>dr_skipped := dr_skipped r @ [sm_canonicalId e @ '' ('' @ err @ '')''], dr_unchanged := dr_unchanged r\<rparr>)"
      by (simp add: sync_step_def syncOneModel_def Let_def skip_entry_def)
    then show ?thesis
      by blast
  qed
qed

lemma entries_settled:
  "\<forall>e\<in>set es. settled_entry dateOk d e \<and> six_decimals (sm_pricing e) \<Longrightarrow> \<exists>sk un. sync_entries dateOk ids now d n es (d, r) = (d, r\<lparr>dr_skipped := sk, dr_unchanged := un\<rparr>)"
proof (induction es arbitrary: n r)
  case Nil
  have "(d, r) = (d, r\<lparr>dr_skipped := dr_skipped r, dr_unchanged := dr_unchanged r\<rparr>)"
    by simp
  then show ?case
    by (metis sync_entries.simps(1))
next
  case (Cons e es)
  then obtain sk un where "sync_step dateOk (ids n) now d e (d, r) = (d, r\<lparr>dr_skipped := sk, dr_unchanged := un\<rparr>)"
    using step_settled by (metis list.set_intros(1))
  with Cons.IH [of "Suc n" "r\<lparr>dr_skipped := sk, dr_unchanged := un\<rparr>"] Cons.prems show ?case
    by simp
qed

text \<open>The database after a run: every entry is settled and nothing of the feed's is left to flag.\<close>

lemma run_end:
  assumes wf: "catalog_wf d" "\<forall>k. ids k \<notin> mdl_id ` set (models d)" "\<forall>r\<in>set (pricings d). pr_effectiveFrom r < now" "inj ids"
    and run: "d1 = fst (syncCatalog dateOk ids now feed d)"
  shows "catalog_kept d d1" "\<forall>e\<in>set (fst (parseFeed feed)). settled_entry dateOk d1 e" "vanished d1 (fst (parseFeed feed)) = []"
proof -
  let ?es = "fst (parseFeed feed)" and ?gone = "vanished d (fst (parseFeed feed))"
  obtain mid r where mid: "sync_entries dateOk ids now d 0 ?es (d, new_report (snd (parseFeed feed))) = (mid, r)"
    by (cases "sync_entries dateOk ids now d 0 ?es (d, new_report (snd (parseFeed feed)))")
  obtain n where inv: "run_inv dateOk ids now d (set ?es) n mid"
    using run_inv_entries [OF run_inv_start [OF wf(1-3)], where es = ?es and r = "new_report (snd (parseFeed feed))" and dateOk = dateOk]
      parseFeed_entries [of feed] wf(4) mid
    by auto
  have d1: "d1 = fst (flag_vanished ?gone (mid, r))"
    by (simp add: run syncCatalog_eq mid)
  have wfm: "catalog_wf mid" and kept: "catalog_kept d mid"
    and rows: "\<And>c. c \<notin> sm_canonicalId ` set ?es \<Longrightarrow> row_of mid c = row_of d c"
    and done_es: "\<And>e. e \<in> set ?es \<Longrightarrow> settled_entry dateOk mid e"
    using inv by (auto simp: run_inv_def)
  show "catalog_kept d d1"
    unfolding d1 using kept flag_kept catalog_kept_trans by blast
  have gone: "g \<in> set (models mid) \<and> canonicalId g \<notin> sm_canonicalId ` set ?es" if "g \<in> set ?gone" for g
  proof -
    have g: "g \<in> set (models d)" "canonicalId g \<notin> sm_canonicalId ` set ?es"
      using that by (auto simp: vanished_def)
    then have "row_of mid (canonicalId g) = Some g"
      using rows row_of_member [OF wf(1)] by simp
    with g(2) row_of_Some show ?thesis
      by blast
  qed
  have untouched: "row_of d1 c = row_of mid c" if "c \<in> sm_canonicalId ` set ?es" for c
  proof (cases "row_of mid c")
    case (Some m)
    have "mdl_id m \<notin> mdl_id ` set ?gone"
      using gone wf_same_id [OF wfm] row_of_Some [OF Some] that by (metis imageE)
    with Some show ?thesis
      unfolding d1 flag_row by simp
  qed (simp add: d1 flag_row)
  show "\<forall>e\<in>set ?es. settled_entry dateOk d1 e"
  proof
    fix e
    assume e: "e \<in> set ?es"
    have "price_due d1 i ps = price_due mid i ps" for i ps
      using flag_pricings [of ?gone mid r] by (simp add: price_due_def latest_pricing_def d1)
    with done_es [OF e] untouched [of "sm_canonicalId e"] e show "settled_entry dateOk d1 e"
      by (simp add: settled_entry_def split: option.splits)
  qed
  have "\<not> (mdl_source m = SrcSynced \<and> mdl_status m = MActive)" if m: "m \<in> set (models d1)" "canonicalId m \<notin> sm_canonicalId ` set ?es" for m
  proof -
    have "row_of d1 (canonicalId m) = Some m"
      using row_of_member m(1) flag_wf [OF wfm] unfolding d1 by blast
    then obtain m0 where m0: "row_of d (canonicalId m) = Some m0"
        "m = (if mdl_id m0 \<in> mdl_id ` set ?gone \<and> mdl_source m0 \<noteq> SrcCustom then m0\<lparr>mdl_status := MDeprecated\<rparr> else m0)"
      using rows [OF m(2)] unfolding d1 flag_row by auto
    have "m0 \<in> set ?gone" if "mdl_source m0 = SrcSynced" "mdl_status m0 = MActive"
      using that row_of_Some [OF m0(1)] m(2) by (simp add: vanished_def)
    then show ?thesis
      using m0(2) by (auto split: if_splits)
  qed
  then show "vanished d1 ?es = []"
    by (auto simp: vanished_def filter_empty_conv)
qed

text \<open>
  A run of the catalog synchronisation is additive: no model is deleted, an operator's own rows are untouched, every other row keeps its
  id, name, provider kind, source, capability overrides and hosting flags, prices are only appended, and no policy loses a
  model; of what the feed brings, canonical ids are unique and nothing that is hosted in the cloud is filed under the local tier.
\<close>

theorem sync_additive:
  assumes "catalog_wf d" "\<forall>k. ids k \<notin> mdl_id ` set (models d)" "\<forall>r\<in>set (pricings d). pr_effectiveFrom r < now" "inj ids"
  shows "catalog_kept d (fst (syncCatalog dateOk ids now feed d))
    \<and> (refs_ok d \<longrightarrow> refs_ok (fst (syncCatalog dateOk ids now feed d)))
    \<and> distinct (map sm_canonicalId (fst (parseFeed feed)))
    \<and> (\<forall>e\<in>set (fst (parseFeed feed)). sm_providerKind e = local \<longrightarrow> \<not> cloud_tagged (sm_canonicalId e))"
proof -
  have kept: "catalog_kept d (fst (syncCatalog dateOk ids now feed d))"
    by (rule run_end(1) [OF assms refl])
  then have "mdl_id ` set (models d) \<subseteq> mdl_id ` set (models (fst (syncCatalog dateOk ids now feed d)))"
    by (auto simp: catalog_kept_def row_kept_def) (metis image_eqI)
  with kept have "refs_ok d \<longrightarrow> refs_ok (fst (syncCatalog dateOk ids now feed d))"
    using refs_ok_same_ids unfolding catalog_kept_def by blast
  with kept parseFeed_entries show ?thesis
    by blast
qed


section \<open>A concrete feed\<close>

definition ex_feed :: "(string \<times> json) list" where
  "ex_feed =
     [(''gpt'', JObj [(''litellm_provider'', JStr ''openai''), (''max_tokens'', JNum 8000), (''input_cost_per_token'', JNum (1 / 1000000))]),
      (''x:480b-cloud'', JObj [(''litellm_provider'', JStr ''ollama''), (''max_tokens'', JNum 9000)])]"

lemma ex_feed_parsed:
  "fst (parseFeed ex_feed) =
     [\<lparr>sm_canonicalId = ''openai/gpt'', sm_providerKind = openai_compat, sm_displayName = ''gpt'', sm_contextWindow = Some 8000,
       sm_maxOutput = None, sm_capabilities = [], sm_deprecationDate = None,
       sm_pricing = \<lparr>pc_input = Some (round12 1), pc_output = None, pc_cacheRead = None, pc_cacheWrite = None\<rparr>\<rparr>]"
  by (simp add: parseFeed_def ex_feed_def parse_key_def put_entry_def litellmEntry_def z_optional_def z_required_def obj_get_def
      PROVIDER_TO_KIND_def synced_of_def opt_cap_def perMtok_def to_lower_def lower_char_def char_code_def Let_def)

lemma round12_one: "round12 1 = 1"
  by code_simp

lemma numeric6_one: "numeric6 (Some 1) = Some 1"
  by code_simp

text \<open>A price below the sixth decimal is stored as zero, compared with its text again and appended by every run.\<close>

lemma fine_price_appended_again:
  "fst (appendPricingIfChanged ''m1'' \<lparr>pc_input = Some (1 / 10000000), pc_output = None, pc_cacheRead = None, pc_cacheWrite = None\<rparr> 6
     (snd (appendPricingIfChanged ''m1'' \<lparr>pc_input = Some (1 / 10000000), pc_output = None, pc_cacheRead = None, pc_cacheWrite = None\<rparr> 5
        example_db)))"
  by code_simp

theorem sync_additive_witness:
  "catalog_kept (example_db\<lparr>models := []\<rparr>) (fst (syncCatalog (\<lambda>_. True) (\<lambda>n. replicate n CHR ''x'') 5 ex_feed (example_db\<lparr>models := []\<rparr>)))
   \<and> length (fst (parseFeed ex_feed)) = 1"
proof -
  have "catalog_wf (example_db\<lparr>models := []\<rparr>)" "\<forall>k. replicate k CHR ''x'' \<notin> mdl_id ` set (models (example_db\<lparr>models := []\<rparr>))"
    "\<forall>r\<in>set (pricings (example_db\<lparr>models := []\<rparr>)). pr_effectiveFrom r < 5" "inj (\<lambda>n. replicate n CHR ''x'')"
    by (simp_all add: catalog_wf_def example_db_def inj_def replicate_eq_replicate)
  from sync_additive [OF this, of "\<lambda>_. True" ex_feed] show ?thesis
    by (simp add: ex_feed_parsed)
qed


end
