(* ===== verification/Discovery.thy ===== *)
theory Discovery
  imports Sync Anthropic Js_Text
begin

text \<open>
  The live model lists of \<^verbatim>\<open>src/src/catalog/discovery.ts\<close> and the live price feed of \<^verbatim>\<open>src/src/catalog/live-pricing.ts\<close>: what a
  provider serves is added to the catalog, and rows discovered earlier are completed. The network is the argument \<open>get\<close> (the
  body of a reply, or the message of what is thrown), a fresh id is a function of the database, an operation that can throw
  returns what it has written by then beside its result.
\<close>

section \<open>Completing a discovered row\<close>

definition DISCOVERED_CONTEXT_WINDOW :: int where
  "DISCOVERED_CONTEXT_WINDOW = 8192"

definition DISCOVERED_CAPABILITIES :: "(capability \<times> bool) list" where
  "DISCOVERED_CAPABILITIES = [(Cap_json_schema, True)]"

text \<open>The loop every writer has: a capability that is offered and not yet true becomes true.\<close>

definition caps_changed :: "(capability \<times> bool) list \<Rightarrow> (capability \<times> bool) list \<Rightarrow> bool" where
  "caps_changed offered base = list_ex (\<lambda>(k, v). v \<and> map_get base k \<noteq> Some True) offered"

definition grow_caps :: "(capability \<times> bool) list \<Rightarrow> (capability \<times> bool) list \<Rightarrow> (capability \<times> bool) list" where
  "grow_caps offered base = fold (\<lambda>(k, v) b. if v \<and> map_get b k \<noteq> Some True then map_set k True b else b) offered base"

text \<open>The partial row \<open>set\<close>: what is to be written to a row, numbers as the source gives them.\<close>

record spec_fill =
  sf_caps :: "(capability \<times> bool) list option"
  sf_window :: "rat option"
  sf_max :: "rat option"

definition spec_fill_for :: "(capability \<times> bool) list \<Rightarrow> rat option \<Rightarrow> rat option \<Rightarrow> model_row \<Rightarrow> spec_fill" where
  "spec_fill_for offered window maxOut m =
     \<lparr>sf_caps = (if caps_changed offered (capabilities m) then Some (grow_caps offered (capabilities m)) else None),
      sf_window = (if contextWindow m = DISCOVERED_CONTEXT_WINDOW then window else None),
      sf_max = (if maxOutput m = None then maxOut else None)\<rparr>"

definition fills_specs :: "spec_fill \<Rightarrow> bool" where
  "fills_specs f = (sf_window f \<noteq> None \<or> sf_max f \<noteq> None)"

definition fill_row :: "spec_fill \<Rightarrow> model_row \<Rightarrow> model_row" where
  "fill_row f m =
     m\<lparr>capabilities := nullish (sf_caps f) (capabilities m),
       contextWindow := (case sf_window f of None \<Rightarrow> contextWindow m | Some w \<Rightarrow> floor w),
       maxOutput := (case sf_max f of None \<Rightarrow> maxOutput m | Some n \<Rightarrow> Some (floor n))\<rparr>"

text \<open>What the database says to a number for an integer column.\<close>

definition column_error :: "rat option \<Rightarrow> string option" where
  "column_error x =
     (if \<not> whole x then Some ''invalid input syntax for type integer''
      else if \<not> in_int4 x then Some ''value out of range for type integer'' else None)"

definition write_fill :: "spec_fill \<Rightarrow> string \<Rightarrow> db \<Rightarrow> (string, db) result" where
  "write_fill f mid d =
     (if sf_caps f = None \<and> \<not> fills_specs f then Inr d
      else (case (column_error (sf_window f), column_error (sf_max f)) of
              (Some e, _) \<Rightarrow> Inl e
            | (None, Some e) \<Rightarrow> Inl e
            | (None, None) \<Rightarrow> Inr (update_models mid (fill_row f) d)))"

text \<open>\<open>insert ... on conflict (canonical_id) do nothing\<close>: whether a row was written.\<close>

definition insert_if_absent :: "model_row \<Rightarrow> db \<Rightarrow> bool \<times> db" where
  "insert_if_absent m d =
     (if row_of d (canonicalId m) = None then (True, d\<lparr>models := models d @ [m]\<rparr>) else (False, d))"

definition discovered_row ::
    "string \<Rightarrow> string \<Rightarrow> provider_kind \<Rightarrow> string \<Rightarrow> int \<Rightarrow> int option \<Rightarrow> (capability \<times> bool) list \<Rightarrow> string option \<Rightarrow> model_row" where
  "discovered_row fresh cid kind name window maxOut caps retention =
     \<lparr>mdl_id = fresh, canonicalId = cid, providerKind = kind, displayName = name, contextWindow = window, maxOutput = maxOut,
      capabilities = caps, capabilityOverrides = [], mdl_status = MActive, deprecationDate = None, mdl_source = SrcProvider,
      thirdPartyHosted = (retention \<noteq> None), retentionNote = retention\<rparr>"

record discover_result =
  ds_providerId :: string
  ds_providerLabel :: string
  ds_discovered :: "string list"
  ds_alreadyKnown :: nat
  ds_skipped :: "string list"
  ds_thirdPartyHosted :: "string list"

section \<open>DigitalOcean\<close>

definition DO_NAMESPACE :: string where
  "DO_NAMESPACE = ''digitalocean''"

datatype hosting_vendor = VendorAnthropic | VendorOpenai

record third_party_hosting =
  tp_vendor :: hosting_vendor
  tp_retentionNote :: string

text \<open>The table with the two expressions \<open>/^anthropic-/\<close> and \<open>/^openai-(?!gpt-oss-)/\<close> as tests.\<close>

definition THIRD_PARTY_HOSTED :: "((string \<Rightarrow> bool) \<times> third_party_hosting) list" where
  "THIRD_PARTY_HOSTED =
     [(\<lambda>s. starts_with ''anthropic-'' s,
       \<lparr>tp_vendor = VendorAnthropic,
        tp_retentionNote = ''Hosted by DigitalOcean but served under Anthropic's terms: zero retention, EXCEPT Claude Fable 5.1 / Fable 5, which require a mandatory 30-day retention of prompts and completions for trust-and-safety review (docs.digitalocean.com data-privacy page, 2026-09-03). Confirm against the firm's WISP before binding.''\<rparr>),
      (\<lambda>s. starts_with ''openai-'' s \<and> \<not> starts_with ''gpt-oss-'' (drop 7 s),
       \<lparr>tp_vendor = VendorOpenai,
        tp_retentionNote = ''Hosted by DigitalOcean but served under OpenAI's terms. DigitalOcean's data-privacy page (2026-09-03) states OpenAI's zero-data-retention policy applies and excludes customer content from abuse-monitoring logs; those are OpenAI's terms, not DigitalOcean's. Confirm against the firm's WISP before binding.''\<rparr>)]"

definition thirdPartyHostingFor :: "string \<Rightarrow> third_party_hosting option" where
  "thirdPartyHostingFor native = map_option snd (find_first (\<lambda>(test, _). test native) THIRD_PARTY_HOSTED)"

record planned_model =
  pm_canonicalId :: string
  pm_displayName :: string
  pm_thirdPartyHosted :: "third_party_hosting option"

record discovery_plan =
  pl_toInsert :: "planned_model list"
  pl_alreadyKnown :: "string list"
  pl_skipped :: "string list"

definition plan_step :: "string list \<Rightarrow> string \<Rightarrow> string \<Rightarrow> discovery_plan \<times> string list \<Rightarrow> discovery_plan \<times> string list" where
  "plan_step existing ns raw s =
     (let (plan, seen) = s; i = trim raw
      in if i = [] then (plan\<lparr>pl_skipped := pl_skipped plan @ [raw]\<rparr>, seen)
         else
           (let native = (if starts_with (ns @ ''/'') i then drop (length ns + 1) i else i); cid = ns @ ''/'' @ native
            in if native = [] then (plan\<lparr>pl_skipped := pl_skipped plan @ [i]\<rparr>, seen)
               else if cid \<in> set seen then s
               else if cid \<in> set existing
               then (plan\<lparr>pl_alreadyKnown := pl_alreadyKnown plan @ [cid]\<rparr>, cid # seen)
               else (plan\<lparr>pl_toInsert := pl_toInsert plan @ [\<lparr>pm_canonicalId = cid, pm_displayName = native,
                             pm_thirdPartyHosted = thirdPartyHostingFor native\<rparr>]\<rparr>, cid # seen)))"

definition planDiscovery :: "string list \<Rightarrow> string list \<Rightarrow> string \<Rightarrow> discovery_plan" where
  "planDiscovery served existing ns =
     fst (fold (plan_step existing ns) served (\<lparr>pl_toInsert = [], pl_alreadyKnown = [], pl_skipped = []\<rparr>, []))"

type_synonym json_net = "string \<Rightarrow> (string \<times> string) list \<Rightarrow> (string, json) result"

definition null_body :: "string" where
  "null_body = ''Cannot read properties of null (reading 'data')''"

definition listServedModelIds :: "json_net \<Rightarrow> string \<Rightarrow> string option \<Rightarrow> (string, string list) result" where
  "listServedModelIds get baseUrl apiKey =
     (let headers = [(''accept'', ''application/json'')]
            @ (case given apiKey of None \<Rightarrow> [] | Some k \<Rightarrow> [(''authorization'', ''Bearer '' @ k)])
      in case get (strip_slashes baseUrl @ ''/models'') headers of
           Inl e \<Rightarrow> Inl e
         | Inr body \<Rightarrow>
             if body = JNull then Inl null_body
             else (case jget body ''data'' of
                     Some (JArr ms) \<Rightarrow> Inr (List.map_filter (\<lambda>m. case jget m ''id'' of Some (JStr i) \<Rightarrow> Some i | _ \<Rightarrow> None) ms)
                   | _ \<Rightarrow> Inr []))"

definition insert_step ::
    "(db \<Rightarrow> string) \<Rightarrow> planned_model \<Rightarrow> db \<times> string list \<times> string list \<Rightarrow> db \<times> string list \<times> string list" where
  "insert_step fresh m s =
     (let (d, found, third) = s;
          (new, d1) = insert_if_absent (discovered_row (fresh d) (pm_canonicalId m) digitalocean (pm_displayName m)
                        DISCOVERED_CONTEXT_WINDOW None DISCOVERED_CAPABILITIES
                        (map_option tp_retentionNote (pm_thirdPartyHosted m))) d
      in (d1, if new then found @ [pm_canonicalId m] else found,
          if pm_thirdPartyHosted m \<noteq> None then third @ [pm_canonicalId m] else third))"

definition flag_hosted :: "string \<Rightarrow> string \<Rightarrow> db \<Rightarrow> db" where
  "flag_hosted cid retention d =
     d\<lparr>models := map (\<lambda>m. if canonicalId m = cid then m\<lparr>thirdPartyHosted := True, retentionNote := Some retention\<rparr> else m) (models d)\<rparr>"

definition retag_step :: "db \<Rightarrow> string \<Rightarrow> db \<times> string list \<Rightarrow> db \<times> string list" where
  "retag_step d0 cid s =
     (let (d, third) = s
      in case thirdPartyHostingFor (drop (length DO_NAMESPACE + 1) cid) of
           None \<Rightarrow> s
         | Some h \<Rightarrow>
             (case row_of d0 cid of
                Some m \<Rightarrow>
                  if thirdPartyHosted m \<and> retentionNote m = Some (tp_retentionNote h) then (d, third @ [cid])
                  else (flag_hosted cid (tp_retentionNote h) d, third @ [cid])
              | None \<Rightarrow> (flag_hosted cid (tp_retentionNote h) d, third @ [cid])))"

definition discoverDigitalOceanModels ::
    "json_net \<Rightarrow> (db \<Rightarrow> string) \<Rightarrow> provider_row \<Rightarrow> string option \<Rightarrow> db \<Rightarrow> (string, discover_result) result \<times> db" where
  "discoverDigitalOceanModels get fresh provider apiKey d =
     (case listServedModelIds get (prv_baseUrl provider) apiKey of
        Inl e \<Rightarrow> (Inl e, d)
      | Inr served \<Rightarrow>
          (let plan = planDiscovery served (map canonicalId (models d)) DO_NAMESPACE;
               (d1, found, third) = fold (insert_step fresh) (pl_toInsert plan) (d, [], []);
               (d2, hosted) = fold (retag_step d) (pl_alreadyKnown plan) (d1, third)
           in (Inr \<lparr>ds_providerId = prv_id provider, ds_providerLabel = prv_label provider, ds_discovered = found,
                    ds_alreadyKnown = length (pl_alreadyKnown plan), ds_skipped = pl_skipped plan, ds_thirdPartyHosted = hosted\<rparr>,
               d2)))"

section \<open>Anthropic\<close>

record anthropic_model =
  am_id :: string
  am_display_name :: "string option"
  am_max_input_tokens :: "int option"
  am_max_tokens :: "int option"
  am_capabilities :: "(string \<times> json) list option"

definition id_char :: "char \<Rightarrow> bool" where
  "id_char c = (word_char c \<or> c = CHR ''.'' \<or> c = CHR '':'' \<or> c = CHR ''-'')"

definition z_model_id :: "string reader" where
  "z_model_id v =
     (case z_string v of Some s \<Rightarrow> if list_all id_char s \<and> 1 \<le> length s \<and> length s \<le> 200 then Some s else None | None \<Rightarrow> None)"

definition z_label :: "string reader" where
  "z_label v = (case z_string v of Some s \<Rightarrow> if 1 \<le> length s \<and> length s \<le> 200 then Some s else None | None \<Rightarrow> None)"

fun z_record :: "(string \<times> json) list reader" where
  "z_record (JObj ms) = Some ms"
| "z_record _ = None"

definition anthropicModelSchema :: "anthropic_model reader" where
  "anthropicModelSchema v =
     (case (z_required ''id'' z_model_id v, z_optional ''display_name'' z_label v, z_optional ''max_input_tokens'' z_positive_int v,
            z_optional ''max_tokens'' z_positive_int v, z_optional ''capabilities'' z_record v) of
        (Some i, Some n, Some w, Some t, Some c) \<Rightarrow>
          Some \<lparr>am_id = i, am_display_name = n, am_max_input_tokens = w, am_max_tokens = t, am_capabilities = c\<rparr>
      | _ \<Rightarrow> None)"

definition ANTHROPIC_NAMESPACE :: string where
  "ANTHROPIC_NAMESPACE = ''anthropic''"

definition cap_supported :: "(string \<times> json) list option \<Rightarrow> string \<Rightarrow> bool option" where
  "cap_supported tree key =
     (case Option.bind tree (\<lambda>ms. obj_get ms key) of
        None \<Rightarrow> None
      | Some node \<Rightarrow> (case jget node ''supported'' of Some (JBool b) \<Rightarrow> Some b | _ \<Rightarrow> None))"

definition anthropicCapabilities :: "(string \<times> json) list option \<Rightarrow> (capability \<times> bool) list" where
  "anthropicCapabilities tree =
     [(Cap_tools, True), (Cap_caching, True)] @ opt_cap Cap_vision (cap_supported tree ''image_input'')
       @ opt_cap Cap_json_schema (cap_supported tree ''structured_outputs'') @ opt_cap Cap_reasoning (cap_supported tree ''thinking'')"

definition ANTHROPIC_MAX_PAGES :: nat where
  "ANTHROPIC_MAX_PAGES = 10"

definition page_query :: "string option \<Rightarrow> string" where
  "page_query afterId = ''limit=1000'' @ (case given afterId of None \<Rightarrow> [] | Some i \<Rightarrow> ''&after_id='' @ encodeURIComponent i)"

text \<open>The loop over pages, bounded by its counter.\<close>

fun list_pages ::
    "json_net \<Rightarrow> string \<Rightarrow> (string \<times> string) list \<Rightarrow> nat \<Rightarrow> string option \<Rightarrow> json list \<Rightarrow> (string, json list) result" where
  "list_pages get base headers 0 afterId found = Inr found"
| "list_pages get base headers (Suc n) afterId found =
     (case get (base @ ''/v1/models?'' @ page_query afterId) headers of
        Inl e \<Rightarrow> Inl e
      | Inr body \<Rightarrow>
          if body = JNull then Inl null_body
          else
            (case jget body ''data'' of
               Some (JArr ms) \<Rightarrow>
                 (case jget body ''last_id'' of
                    Some (JStr i) \<Rightarrow>
                      if jget body ''has_more'' \<noteq> Some (JBool True) \<or> Some i = afterId then Inr (found @ ms)
                      else list_pages get base headers n (Some i) (found @ ms)
                  | _ \<Rightarrow> Inr (found @ ms))
             | _ \<Rightarrow> Inr found))"

definition listAnthropicModels :: "json_net \<Rightarrow> string \<Rightarrow> string option \<Rightarrow> (string, json list) result" where
  "listAnthropicModels get baseUrl apiKey =
     list_pages get (strip_slashes baseUrl)
       ([(''accept'', ''application/json''), (''anthropic-version'', ANTHROPIC_VERSION)]
        @ (case given apiKey of None \<Rightarrow> [] | Some k \<Rightarrow> [(''x-api-key'', k)]))
       ANTHROPIC_MAX_PAGES None []"

record pull_state =
  ps_db :: db
  ps_discovered :: "string list"
  ps_skipped :: "string list"
  ps_seen :: "string list"
  ps_known :: nat

definition curated_has :: "string list option \<Rightarrow> string \<Rightarrow> bool" where
  "curated_has curated cid = (case curated of None \<Rightarrow> False | Some ids \<Rightarrow> cid \<in> set ids)"

definition insert_anthropic :: "(db \<Rightarrow> string) \<Rightarrow> anthropic_model \<Rightarrow> string \<Rightarrow> pull_state \<Rightarrow> (string, pull_state) result" where
  "insert_anthropic fresh m cid s =
     (case (column_error (map_option of_int (am_max_input_tokens m)), column_error (map_option of_int (am_max_tokens m))) of
        (Some e, _) \<Rightarrow> Inl e
      | (None, Some e) \<Rightarrow> Inl e
      | (None, None) \<Rightarrow>
          (let (new, d1) = insert_if_absent (discovered_row (fresh (ps_db s)) cid anthropic (nullish (am_display_name m) (am_id m))
                             (nullish (am_max_input_tokens m) DISCOVERED_CONTEXT_WINDOW) (am_max_tokens m)
                             (anthropicCapabilities (am_capabilities m)) None) (ps_db s)
           in Inr (s\<lparr>ps_db := d1, ps_discovered := (if new then ps_discovered s @ [cid] else ps_discovered s)\<rparr>)))"

definition pull_anthropic ::
    "(db \<Rightarrow> string) \<Rightarrow> string list option \<Rightarrow> db \<Rightarrow> json \<Rightarrow> pull_state \<Rightarrow> (string, pull_state) result" where
  "pull_anthropic fresh curated d0 raw s =
     (case anthropicModelSchema raw of
        None \<Rightarrow> Inr (s\<lparr>ps_skipped := ps_skipped s @ [''malformed entry'']\<rparr>)
      | Some m \<Rightarrow>
          (let cid = ANTHROPIC_NAMESPACE @ ''/'' @ am_id m; s1 = s\<lparr>ps_seen := ps_seen s @ [cid]\<rparr>
           in if cid \<in> set (ps_seen s) then Inr s
              else
                (case row_of d0 cid of
                   None \<Rightarrow>
                     if curated_has curated cid then Inr (s1\<lparr>ps_known := ps_known s1 + 1\<rparr>)
                     else insert_anthropic fresh m cid s1
                 | Some row \<Rightarrow>
                     (let s2 = s1\<lparr>ps_known := ps_known s1 + 1\<rparr>
                      in if mdl_source row \<noteq> SrcProvider \<or> curated_has curated cid then Inr s2
                         else (case write_fill (spec_fill_for (anthropicCapabilities (am_capabilities m))
                                       (map_option of_int (am_max_input_tokens m)) (map_option of_int (am_max_tokens m)) row)
                                      (mdl_id row) (ps_db s2) of
                                 Inl e \<Rightarrow> Inl e
                               | Inr d1 \<Rightarrow> Inr (s2\<lparr>ps_db := d1\<rparr>))))))"

text \<open>The loop over what is served; the state is the one reached when an entry throws.\<close>

fun pull_all ::
    "(db \<Rightarrow> string) \<Rightarrow> string list option \<Rightarrow> db \<Rightarrow> json list \<Rightarrow> pull_state \<Rightarrow> (string, unit) result \<times> pull_state" where
  "pull_all fresh curated d0 [] s = (Inr (), s)"
| "pull_all fresh curated d0 (raw # raws) s =
     (case pull_anthropic fresh curated d0 raw s of
        Inl e \<Rightarrow> (Inl e, s)
      | Inr s1 \<Rightarrow> pull_all fresh curated d0 raws s1)"

definition discoverAnthropicModels ::
    "json_net \<Rightarrow> (db \<Rightarrow> string) \<Rightarrow> string list option \<Rightarrow> provider_row \<Rightarrow> string option \<Rightarrow> db
      \<Rightarrow> (string, discover_result) result \<times> db" where
  "discoverAnthropicModels get fresh curated provider apiKey d =
     (case listAnthropicModels get (prv_baseUrl provider) apiKey of
        Inl e \<Rightarrow> (Inl e, d)
      | Inr served \<Rightarrow>
          (case pull_all fresh curated d served \<lparr>ps_db = d, ps_discovered = [], ps_skipped = [], ps_seen = [], ps_known = 0\<rparr> of
             (Inl e, s) \<Rightarrow> (Inl e, ps_db s)
           | (Inr _, s) \<Rightarrow>
               (Inr \<lparr>ds_providerId = prv_id provider, ds_providerLabel = prv_label provider, ds_discovered = ps_discovered s,
                     ds_alreadyKnown = ps_known s, ds_skipped = ps_skipped s, ds_thirdPartyHosted = []\<rparr>, ps_db s)))"

definition DISCOVERABLE_KINDS :: "provider_kind list" where
  "DISCOVERABLE_KINDS = [digitalocean, anthropic]"

definition isDiscoverableKind :: "provider_kind \<Rightarrow> bool" where
  "isDiscoverableKind k = (k \<in> set DISCOVERABLE_KINDS)"

definition discoverProviderModels ::
    "json_net \<Rightarrow> (db \<Rightarrow> string) \<Rightarrow> string list option \<Rightarrow> provider_row \<Rightarrow> string option \<Rightarrow> db
      \<Rightarrow> (string, discover_result) result \<times> db" where
  "discoverProviderModels get fresh curated provider apiKey d =
     (if prv_kind provider = digitalocean then discoverDigitalOceanModels get fresh provider apiKey d
      else if prv_kind provider = anthropic then discoverAnthropicModels get fresh curated provider apiKey d
      else (Inl (''model discovery is not supported for provider kind '' @ kind_name (prv_kind provider)), d))"

section \<open>The live price feed\<close>

record pricing_report =
  lp_sourceSha256 :: string
  lp_candidates :: nat
  lp_matched :: nat
  lp_pricingChanged :: "string list"
  lp_specsUpdated :: "string list"

definition usablePrice :: "prices \<Rightarrow> bool" where
  "usablePrice p \<longleftrightarrow> pc_input p \<noteq> None \<and> pc_output p \<noteq> None
     \<and> list_all (\<lambda>v. case v of None \<Rightarrow> True | Some x \<Rightarrow> 0 \<le> x) [pc_input p, pc_output p, pc_cacheRead p, pc_cacheWrite p]"

definition price_row ::
    "string list \<Rightarrow> synced_model list \<Rightarrow> int \<Rightarrow> model_row \<Rightarrow> db \<times> pricing_report \<Rightarrow> (string, db \<times> pricing_report) result" where
  "price_row curated es now row s =
     (let (d, r) = s; cid = canonicalId row
      in if cid \<in> set curated then Inr s
         else
           (let r1 = r\<lparr>lp_candidates := lp_candidates r + 1\<rparr>
            in case find_first (\<lambda>e. sm_canonicalId e = cid) es of
                 None \<Rightarrow> Inr (d, r1)
               | Some e \<Rightarrow>
                   if sm_providerKind e \<noteq> providerKind row then Inr (d, r1)
                   else
                     (let f = spec_fill_for [] (sm_contextWindow e) (sm_maxOutput e) row; r2 = r1\<lparr>lp_matched := lp_matched r1 + 1\<rparr>
                      in case write_fill f (mdl_id row) d of
                           Inl err \<Rightarrow> Inl err
                         | Inr d1 \<Rightarrow>
                             (let r3 = (if fills_specs f then r2\<lparr>lp_specsUpdated := lp_specsUpdated r2 @ [cid]\<rparr> else r2);
                                  (appended, d2) = (if usablePrice (sm_pricing e) then appendPricingIfChanged (mdl_id row) (sm_pricing e) now d1
                                                    else (False, d1))
                              in Inr (d2, if appended then r3\<lparr>lp_pricingChanged := lp_pricingChanged r3 @ [cid]\<rparr> else r3)))))"

fun price_rows ::
    "string list \<Rightarrow> synced_model list \<Rightarrow> int \<Rightarrow> model_row list \<Rightarrow> db \<times> pricing_report \<Rightarrow> (string, unit) result \<times> db \<times> pricing_report" where
  "price_rows curated es now [] s = (Inr (), s)"
| "price_rows curated es now (row # rows) s =
     (case price_row curated es now row s of
        Inl e \<Rightarrow> (Inl e, s)
      | Inr s1 \<Rightarrow> price_rows curated es now rows s1)"

definition applyLivePricing ::
    "(string \<Rightarrow> string) \<Rightarrow> string list \<Rightarrow> int \<Rightarrow> string \<Rightarrow> db \<Rightarrow> (string, pricing_report) result \<times> db" where
  "applyLivePricing sha256 curated now feedText d =
     (case json_parse feedText of
        None \<Rightarrow> (Inl ''Unexpected token in JSON'', d)
      | Some (JObj ms) \<Rightarrow>
          (case price_rows curated (fst (parseFeed ms)) now (filter (\<lambda>m. mdl_source m = SrcProvider) (models d))
                  (d, \<lparr>lp_sourceSha256 = sha256 feedText, lp_candidates = 0, lp_matched = 0, lp_pricingChanged = [], lp_specsUpdated = []\<rparr>) of
             (Inl e, d1, _) \<Rightarrow> (Inl e, d1)
           | (Inr _, d1, r) \<Rightarrow> (Inr r, d1))
      | Some _ \<Rightarrow> (Inl ''pricing feed is not a JSON object'', d))"

section \<open>What a pull keeps\<close>

text \<open>The columns of a row that a pull may write, and how: flags are set, capabilities are gained, a window only replaces the
  placeholder, an output limit only an absent one, and neither in a row that is not the discovery's own.\<close>

definition pull_kept :: "(string \<Rightarrow> bool) \<Rightarrow> model_row \<Rightarrow> model_row \<Rightarrow> bool" where
  "pull_kept owned m m' \<longleftrightarrow>
     mdl_id m' = mdl_id m \<and> canonicalId m' = canonicalId m \<and> providerKind m' = providerKind m \<and> displayName m' = displayName m
     \<and> mdl_source m' = mdl_source m \<and> capabilityOverrides m' = capabilityOverrides m \<and> mdl_status m' = mdl_status m
     \<and> deprecationDate m' = deprecationDate m \<and> (thirdPartyHosted m \<longrightarrow> thirdPartyHosted m')
     \<and> (mdl_source m \<noteq> SrcProvider \<or> owned (canonicalId m)
          \<longrightarrow> capabilities m' = capabilities m \<and> contextWindow m' = contextWindow m \<and> maxOutput m' = maxOutput m)
     \<and> (\<forall>k. map_get (capabilities m) k = Some True \<longrightarrow> map_get (capabilities m') k = Some True)
     \<and> (contextWindow m \<noteq> DISCOVERED_CONTEXT_WINDOW \<longrightarrow> contextWindow m' = contextWindow m)
     \<and> (maxOutput m \<noteq> None \<longrightarrow> maxOutput m' = maxOutput m)"

fun pulled_row :: "(string \<Rightarrow> bool) \<Rightarrow> model_row option \<Rightarrow> model_row option \<Rightarrow> bool" where
  "pulled_row owned None None = True"
| "pulled_row owned None (Some m') = (mdl_source m' = SrcProvider)"
| "pulled_row owned (Some m) (Some m') = pull_kept owned m m'"
| "pulled_row owned (Some m) None = False"

text \<open>A database after a pull: only models and prices change, and a price is only added to a discovered row that no curated feed
  owns.\<close>

definition price_owned :: "(string \<Rightarrow> bool) \<Rightarrow> db \<Rightarrow> pricing_row \<Rightarrow> bool" where
  "price_owned owned d p \<longleftrightarrow> (\<exists>c m. row_of d c = Some m \<and> mdl_id m = pr_modelId p \<and> mdl_source m = SrcProvider \<and> \<not> owned c)"

definition pulled :: "(string \<Rightarrow> bool) \<Rightarrow> db \<Rightarrow> db \<Rightarrow> bool" where
  "pulled owned d d' \<longleftrightarrow>
     catalog_wf d' \<and> (\<forall>c. pulled_row owned (row_of d c) (row_of d' c))
     \<and> d'\<lparr>models := [], pricings := []\<rparr> = d\<lparr>models := [], pricings := []\<rparr>
     \<and> (\<exists>new. pricings d' = pricings d @ new \<and> (\<forall>p\<in>set new. price_owned owned d' p))"

lemma pull_kept_refl [simp]: "pull_kept owned m m"
  by (simp add: pull_kept_def)

lemma pull_kept_trans: "pull_kept owned m m1 \<Longrightarrow> pull_kept owned m1 m2 \<Longrightarrow> pull_kept owned m m2"
  unfolding pull_kept_def by metis

lemma pull_kept_source: "pull_kept owned m m' \<Longrightarrow> mdl_source m' = mdl_source m"
  by (simp add: pull_kept_def)

lemma pulled_row_refl [simp]: "pulled_row owned m m"
  by (cases m) simp_all

lemma pulled_row_trans:
  assumes "pulled_row owned a b" "pulled_row owned b c"
  shows "pulled_row owned a c"
proof (cases a)
  case None
  then show ?thesis
    using assms pull_kept_source by (cases b; cases c) fastforce+
next
  case (Some m)
  then obtain m1 m2 where "b = Some m1" "pull_kept owned m m1" "c = Some m2" "pull_kept owned m1 m2"
    using assms by (cases b; cases c) simp_all
  with Some show ?thesis
    using pull_kept_trans by simp
qed

lemma pulled_refl: "catalog_wf d \<Longrightarrow> pulled owned d d"
  by (simp add: pulled_def)

lemma price_owned_later: "price_owned owned d1 p \<Longrightarrow> \<forall>c. pulled_row owned (row_of d1 c) (row_of d2 c) \<Longrightarrow> price_owned owned d2 p"
  unfolding price_owned_def
proof (elim exE conjE)
  fix c m
  assume rows: "\<forall>c. pulled_row owned (row_of d1 c) (row_of d2 c)"
    and m: "row_of d1 c = Some m" "mdl_id m = pr_modelId p" "mdl_source m = SrcProvider" "\<not> owned c"
  then obtain m' where "row_of d2 c = Some m'" "pull_kept owned m m'"
    by (metis option.exhaust pulled_row.simps(3,4))
  with m show "\<exists>c m. row_of d2 c = Some m \<and> mdl_id m = pr_modelId p \<and> mdl_source m = SrcProvider \<and> \<not> owned c"
    by (auto simp: pull_kept_def)
qed

lemma pulled_trans:
  assumes "pulled owned d d1" "pulled owned d1 d2"
  shows "pulled owned d d2"
proof -
  obtain new1 new2 where new: "pricings d1 = pricings d @ new1" "pricings d2 = pricings d1 @ new2"
    "\<forall>p\<in>set new1. price_owned owned d1 p" "\<forall>p\<in>set new2. price_owned owned d2 p"
    using assms unfolding pulled_def by blast
  have rows: "\<forall>c. pulled_row owned (row_of d1 c) (row_of d2 c)"
    using assms(2) unfolding pulled_def by blast
  have "\<forall>p\<in>set (new1 @ new2). price_owned owned d2 p"
    using new(3,4) price_owned_later [OF _ rows] by auto
  moreover have "pricings d2 = pricings d @ new1 @ new2"
    using new(1,2) by simp
  moreover have "pulled_row owned (row_of d c) (row_of d2 c)" for c
    using rows assms(1) pulled_row_trans unfolding pulled_def by blast
  ultimately show ?thesis
    using assms unfolding pulled_def by auto
qed

lemma pulled_insert:
  assumes "catalog_wf d" "row_of d (canonicalId m) = None" "mdl_id m \<notin> mdl_id ` set (models d)" "mdl_source m = SrcProvider"
  shows "pulled owned d (d\<lparr>models := models d @ [m]\<rparr>)"
  using append_row [OF assms(1-3)] assms(2,4) by (auto simp: pulled_def)

lemma pulled_update:
  assumes "catalog_wf d" "row_of d c = Some m" "\<And>r. mdl_id (f r) = mdl_id r" "\<And>r. canonicalId (f r) = canonicalId r" "pull_kept owned m (f m)"
  shows "pulled owned d (update_models (mdl_id m) f d)"
  using update_row [OF assms(1,2), of f] assms by (auto simp: pulled_def price_owned_def) (auto simp: update_models_def)

lemma pulled_price:
  assumes "catalog_wf d" "row_of d c = Some m" "mdl_source m = SrcProvider" "\<not> owned c" "pr_modelId p = mdl_id m"
  shows "pulled owned d (d\<lparr>pricings := pricings d @ [p]\<rparr>)"
  using assms by (auto simp: pulled_def price_owned_def catalog_wf_def)

lemma pulled_wf: "pulled owned d d' \<Longrightarrow> catalog_wf d'"
  by (simp add: pulled_def)

lemma pulled_same: "pulled owned d d' \<Longrightarrow> row_of d c = Some m \<Longrightarrow> \<exists>m'. row_of d' c = Some m' \<and> pull_kept owned m m'"
  unfolding pulled_def by (metis option.exhaust pulled_row.simps(3,4))

lemma row_of_flag:
  "row_of (flag_hosted cid note d) c = (if c = cid then map_option (\<lambda>m. m\<lparr>thirdPartyHosted := True, retentionNote := Some note\<rparr>) (row_of d c)
     else row_of d c)"
proof -
  let ?g = "\<lambda>m. if canonicalId m = cid then m\<lparr>thirdPartyHosted := True, retentionNote := Some note\<rparr> else m"
  have "row_of (flag_hosted cid note d) c = map_option ?g (row_of d c)"
    unfolding row_of_def flag_hosted_def by (simp add: find_first_map)
  then show ?thesis
    by (cases "row_of d c") (auto dest: row_of_Some)
qed

lemma pulled_flag: "catalog_wf d \<Longrightarrow> pulled owned d (flag_hosted cid note d)"
proof -
  assume wf: "catalog_wf d"
  have "map mdl_id (models (flag_hosted cid note d)) = map mdl_id (models d)"
    "map canonicalId (models (flag_hosted cid note d)) = map canonicalId (models d)"
    by (auto simp: flag_hosted_def)
  with wf have "catalog_wf (flag_hosted cid note d)"
    by (simp add: catalog_wf_def)
  moreover have "pulled_row owned (row_of d c) (row_of (flag_hosted cid note d) c)" for c
    unfolding row_of_flag by (cases "row_of d c") (auto simp: pull_kept_def)
  ultimately show ?thesis
    by (simp add: pulled_def) (simp add: flag_hosted_def)
qed

text \<open>Completing a row.\<close>

lemma grow_caps_keeps: "map_get base k = Some True \<Longrightarrow> map_get (grow_caps offered base) k = Some True"
  unfolding grow_caps_def by (induction offered arbitrary: base) (auto split: prod.splits)

lemma fill_row_id: "mdl_id (fill_row f r) = mdl_id r" "canonicalId (fill_row f r) = canonicalId r" "mdl_source (fill_row f r) = mdl_source r"
  by (simp_all add: fill_row_def)

lemma fill_kept:
  assumes "mdl_source m = SrcProvider" "\<not> owned (canonicalId m)" "capabilities m0 = capabilities m" "contextWindow m0 = contextWindow m"
    "maxOutput m0 = maxOutput m"
  shows "pull_kept owned m (fill_row (spec_fill_for offered w mx m0) m)"
  using assms grow_caps_keeps by (auto simp: pull_kept_def fill_row_def spec_fill_for_def split: option.splits)

lemma write_fill_pulled:
  assumes "write_fill (spec_fill_for offered w mx m0) (mdl_id m) d = Inr d1" "catalog_wf d" "row_of d c = Some m" "mdl_source m = SrcProvider"
    "\<not> owned c" "capabilities m0 = capabilities m" "contextWindow m0 = contextWindow m" "maxOutput m0 = maxOutput m"
  shows "pulled owned d d1"
proof -
  have "pulled owned d (update_models (mdl_id m) (fill_row (spec_fill_for offered w mx m0)) d)"
    by (rule pulled_update [OF assms(2,3) fill_row_id(1,2) fill_kept]) (use assms row_of_Some in auto)
  with assms(1) pulled_refl [OF assms(2)] show ?thesis
    by (auto simp: write_fill_def split: if_splits option.splits)
qed

section \<open>Every writer is a pull\<close>

definition fresh_ids :: "(db \<Rightarrow> string) \<Rightarrow> bool" where
  "fresh_ids fresh \<longleftrightarrow> (\<forall>d. fresh d \<notin> mdl_id ` set (models d))"

lemma insert_pulled:
  "catalog_wf d \<Longrightarrow> mdl_source m = SrcProvider \<Longrightarrow> mdl_id m \<notin> mdl_id ` set (models d) \<Longrightarrow> pulled owned d (snd (insert_if_absent m d))"
  by (auto simp: insert_if_absent_def intro: pulled_insert pulled_refl)

lemma insert_rows:
  "catalog_wf d \<Longrightarrow> mdl_id m \<notin> mdl_id ` set (models d)
    \<Longrightarrow> row_of (snd (insert_if_absent m d)) c = (if c = canonicalId m \<and> row_of d c = None then Some m else row_of d c)"
  using append_row(2) [of d m c] by (auto simp: insert_if_absent_def)

lemma discovered_row_facts [simp]:
  "mdl_id (discovered_row i c k n w x caps rt) = i" "canonicalId (discovered_row i c k n w x caps rt) = c"
  "mdl_source (discovered_row i c k n w x caps rt) = SrcProvider" "providerKind (discovered_row i c k n w x caps rt) = k"
  "thirdPartyHosted (discovered_row i c k n w x caps rt) = (rt \<noteq> None)" "retentionNote (discovered_row i c k n w x caps rt) = rt"
  by (simp_all add: discovered_row_def)

lemma insert_step_db:
  "fst (insert_step fresh m (d, found, third)) =
     snd (insert_if_absent (discovered_row (fresh d) (pm_canonicalId m) digitalocean (pm_displayName m) DISCOVERED_CONTEXT_WINDOW None
       DISCOVERED_CAPABILITIES (map_option tp_retentionNote (pm_thirdPartyHosted m))) d)"
  by (simp add: insert_step_def split: prod.splits)

lemma inserts_pulled:
  assumes "fresh_ids fresh" "catalog_wf (fst s)"
  shows "pulled owned (fst s) (fst (fold (insert_step fresh) ms s))"
  using assms(2)
proof (induction ms arbitrary: s)
  case Nil
  then show ?case
    by (simp add: pulled_refl)
next
  case (Cons m ms)
  obtain d found third where s: "s = (d, found, third)"
    by (cases s)
  have "pulled owned d (fst (insert_step fresh m s))"
    unfolding s insert_step_db by (rule insert_pulled) (use Cons.prems assms(1) s in \<open>simp_all add: fresh_ids_def\<close>)
  with Cons.IH [OF pulled_wf [OF this]] show ?case
    using pulled_trans s by auto
qed

lemma retag_db:
  "fst (retag_step d0 cid (d, third)) = d \<or> (\<exists>note. fst (retag_step d0 cid (d, third)) = flag_hosted cid note d)"
  by (auto simp: retag_step_def split: option.splits)

lemma retags_pulled: "catalog_wf (fst s) \<Longrightarrow> pulled owned (fst s) (fst (fold (retag_step d0) cids s))"
proof (induction cids arbitrary: s)
  case (Cons cid cids)
  obtain d third where s: "s = (d, third)"
    by (cases s)
  have "pulled owned d (fst (retag_step d0 cid s))"
    using retag_db [of d0 cid d third] Cons.prems pulled_flag pulled_refl s by fastforce
  with Cons.IH [OF pulled_wf [OF this]] show ?case
    using pulled_trans s by auto
qed (simp add: pulled_refl)

lemma digitalocean_pulled:
  assumes "fresh_ids fresh" "catalog_wf d"
  shows "pulled owned d (snd (discoverDigitalOceanModels get fresh provider apiKey d))"
proof (cases "listServedModelIds get (prv_baseUrl provider) apiKey")
  case (Inr served)
  let ?plan = "planDiscovery served (map canonicalId (models d)) DO_NAMESPACE"
  obtain d1 found third where ins: "fold (insert_step fresh) (pl_toInsert ?plan) (d, [], []) = (d1, found, third)"
    by (metis prod_cases3)
  have first: "pulled owned d d1"
    using inserts_pulled [OF assms(1), of "(d, [], [])" owned "pl_toInsert ?plan"] assms(2) ins by simp
  have "pulled owned d1 (fst (fold (retag_step d) (pl_alreadyKnown ?plan) (d1, third)))"
    using retags_pulled [of "(d1, third)"] pulled_wf [OF first] by simp
  with first show ?thesis
    unfolding discoverDigitalOceanModels_def Inr by (auto simp: Let_def ins split: prod.splits intro: pulled_trans)
qed (simp add: discoverDigitalOceanModels_def pulled_refl assms)

text \<open>The Anthropic loop: what has not been seen is as at the start.\<close>

definition pull_inv :: "string list option \<Rightarrow> db \<Rightarrow> pull_state \<Rightarrow> bool" where
  "pull_inv curated d0 s \<longleftrightarrow>
     pulled (curated_has curated) d0 (ps_db s) \<and> (\<forall>c. c \<notin> set (ps_seen s) \<longrightarrow> row_of (ps_db s) c = row_of d0 c)"

lemma insert_anthropic_db:
  assumes "insert_anthropic fresh m cid s = Inr s1"
  shows "\<exists>row. ps_db s1 = snd (insert_if_absent row (ps_db s)) \<and> ps_seen s1 = ps_seen s \<and> mdl_source row = SrcProvider \<and> canonicalId row = cid
    \<and> mdl_id row = fresh (ps_db s)"
proof -
  let ?row = "discovered_row (fresh (ps_db s)) cid anthropic (nullish (am_display_name m) (am_id m))
    (nullish (am_max_input_tokens m) DISCOVERED_CONTEXT_WINDOW) (am_max_tokens m) (anthropicCapabilities (am_capabilities m)) None"
  have "ps_db s1 = snd (insert_if_absent ?row (ps_db s)) \<and> ps_seen s1 = ps_seen s"
    using assms by (auto simp: insert_anthropic_def split: option.splits prod.splits)
  then show ?thesis
    by (intro exI [of _ ?row]) simp
qed

lemma write_fill_rows:
  assumes "write_fill f (mdl_id m) d = Inr d1" "catalog_wf d" "row_of d c = Some m" "c' \<noteq> c"
  shows "row_of d1 c' = row_of d c'"
  using update_row(1) [OF assms(2,3), of "fill_row f" c'] assms(1,4)
  by (auto simp: write_fill_def fill_row_id split: if_splits option.splits)

lemma pull_step_inv:
  assumes "fresh_ids fresh" "pull_inv curated d0 s" "pull_anthropic fresh curated d0 raw s = Inr s1"
  shows "pull_inv curated d0 s1"
proof (cases "anthropicModelSchema raw")
  case None
  with assms show ?thesis
    by (auto simp: pull_anthropic_def pull_inv_def)
next
  case (Some m)
  let ?cid = "ANTHROPIC_NAMESPACE @ ''/'' @ am_id m" and ?s1 = "s\<lparr>ps_seen := ps_seen s @ [ANTHROPIC_NAMESPACE @ ''/'' @ am_id m]\<rparr>"
  have wf: "catalog_wf (ps_db s)" and sofar: "pulled (curated_has curated) d0 (ps_db s)"
    and rows: "\<And>c. c \<notin> set (ps_seen s) \<Longrightarrow> row_of (ps_db s) c = row_of d0 c"
    using assms(2) pulled_wf by (auto simp: pull_inv_def)
  show ?thesis
  proof (cases "?cid \<in> set (ps_seen s)")
    case True
    with Some assms(2,3) show ?thesis
      by (simp add: pull_anthropic_def Let_def)
  next
    case new: False
    show ?thesis
    proof (cases "row_of d0 ?cid")
      case None
      show ?thesis
      proof (cases "curated_has curated ?cid")
        case True
        with Some new None assms(2,3) show ?thesis
          by (auto simp: pull_anthropic_def Let_def pull_inv_def)
      next
        case False
        then have "insert_anthropic fresh m ?cid ?s1 = Inr s1"
          using Some new None assms(3) by (simp add: pull_anthropic_def Let_def)
        then obtain row where row: "ps_db s1 = snd (insert_if_absent row (ps_db s))" "ps_seen s1 = ps_seen s @ [?cid]"
            "mdl_source row = SrcProvider" "canonicalId row = ?cid" "mdl_id row = fresh (ps_db s)"
          using insert_anthropic_db by fastforce
        have fresh: "mdl_id row \<notin> mdl_id ` set (models (ps_db s))"
          using assms(1) row(5) by (simp add: fresh_ids_def)
        show ?thesis
          unfolding pull_inv_def row(1,2)
          using pulled_trans [OF sofar insert_pulled [OF wf row(3) fresh]] insert_rows [OF wf fresh] row(4) rows by auto
      qed
    next
      case (Some r)
      show ?thesis
      proof (cases "mdl_source r \<noteq> SrcProvider \<or> curated_has curated ?cid")
        case True
        then show ?thesis
          using \<open>anthropicModelSchema raw = Some m\<close> new Some assms(2,3) by (auto simp: pull_anthropic_def Let_def pull_inv_def)
      next
        case False
        let ?f = "spec_fill_for (anthropicCapabilities (am_capabilities m)) (map_option of_int (am_max_input_tokens m))
          (map_option of_int (am_max_tokens m)) r"
        obtain d1 where d1: "write_fill ?f (mdl_id r) (ps_db s) = Inr d1" "ps_db s1 = d1" "ps_seen s1 = ps_seen s @ [?cid]"
          using \<open>anthropicModelSchema raw = Some m\<close> new Some False assms(3)
          by (auto simp: pull_anthropic_def Let_def split: sum.splits)
        have here: "row_of (ps_db s) ?cid = Some r"
          using rows [OF new] Some by simp
        have "pulled (curated_has curated) (ps_db s) d1"
          by (rule write_fill_pulled [OF d1(1) wf here]) (use False in simp_all)
        with sofar have "pulled (curated_has curated) d0 d1"
          by (rule pulled_trans)
        with write_fill_rows [OF d1(1) wf here] rows show ?thesis
          unfolding pull_inv_def d1(2,3) by auto
      qed
    qed
  qed
qed

lemma pull_all_inv: "fresh_ids fresh \<Longrightarrow> pull_inv curated d0 s \<Longrightarrow> pull_inv curated d0 (snd (pull_all fresh curated d0 raws s))"
  by (induction raws arbitrary: s) (auto split: sum.splits intro: pull_step_inv)

lemma anthropic_pulled:
  assumes "fresh_ids fresh" "catalog_wf d"
  shows "pulled (curated_has curated) d (snd (discoverAnthropicModels get fresh curated provider apiKey d))"
proof (cases "listAnthropicModels get (prv_baseUrl provider) apiKey")
  case (Inr served)
  let ?s = "\<lparr>ps_db = d, ps_discovered = [], ps_skipped = [], ps_seen = [], ps_known = 0\<rparr>"
  have "pull_inv curated d ?s"
    using assms(2) by (simp add: pull_inv_def pulled_refl)
  from pull_all_inv [OF assms(1) this, of served] have "pulled (curated_has curated) d (ps_db (snd (pull_all fresh curated d served ?s)))"
    by (simp add: pull_inv_def)
  moreover have "snd (discoverAnthropicModels get fresh curated provider apiKey d) = ps_db (snd (pull_all fresh curated d served ?s))"
    by (cases "pull_all fresh curated d served ?s"; cases "fst (pull_all fresh curated d served ?s)")
      (simp_all add: discoverAnthropicModels_def Inr)
  ultimately show ?thesis
    by simp
qed (simp add: discoverAnthropicModels_def pulled_refl assms)

lemma discover_pulled:
  "fresh_ids fresh \<Longrightarrow> catalog_wf d \<Longrightarrow> pulled (curated_has curated) d (snd (discoverProviderModels get fresh curated provider apiKey d))"
  by (simp add: discoverProviderModels_def digitalocean_pulled anthropic_pulled pulled_refl)

text \<open>The price feed: the rows still to come are as they were read.\<close>

lemma append_price_pulled:
  assumes "catalog_wf d" "row_of d c = Some m" "mdl_source m = SrcProvider" "\<not> owned c"
  shows "pulled owned d (snd (appendPricingIfChanged (mdl_id m) ps now d))"
proof (cases "price_due d (mdl_id m) ps")
  case True
  then show ?thesis
    by (simp add: appendPricingIfChanged_def) (rule pulled_price [of d c m owned], simp_all add: assms)
qed (simp add: appendPricingIfChanged_def pulled_refl assms)

lemma append_price_rows [simp]: "row_of (snd (appendPricingIfChanged i ps now d)) c = row_of d c"
  by (simp add: appendPricingIfChanged_def)

lemma price_row_cases:
  assumes "price_row curated es now row (d, r) = Inr (d', r')"
  shows "d' = d \<or> (\<exists>(e::synced_model) d1. canonicalId row \<notin> set curated
    \<and> write_fill (spec_fill_for [] (sm_contextWindow e) (sm_maxOutput e) row) (mdl_id row) d = Inr d1
    \<and> (d' = d1 \<or> d' = snd (appendPricingIfChanged (mdl_id row) (sm_pricing e) now d1)))"
proof (cases "canonicalId row \<in> set curated")
  case False
  note out = False
  show ?thesis
  proof (cases "find_first (\<lambda>e. sm_canonicalId e = canonicalId row) es")
    case (Some e)
    let ?w = "write_fill (spec_fill_for [] (sm_contextWindow e) (sm_maxOutput e) row) (mdl_id row) d"
    show ?thesis
    proof (cases "sm_providerKind e \<noteq> providerKind row")
      case False
      then obtain d1 where d1: "?w = Inr d1"
        using assms out Some by (cases ?w) (simp_all add: price_row_def Let_def)
      obtain appended d2 where priced: "(if usablePrice (sm_pricing e) then appendPricingIfChanged (mdl_id row) (sm_pricing e) now d1
          else (False, d1)) = (appended, d2)"
        by (cases "if usablePrice (sm_pricing e) then appendPricingIfChanged (mdl_id row) (sm_pricing e) now d1 else (False, d1)")
      then have "d2 = d1 \<or> d2 = snd (appendPricingIfChanged (mdl_id row) (sm_pricing e) now d1)"
        by (metis snd_conv)
      moreover have "d' = d2"
        using assms out Some False d1 priced by (simp add: price_row_def Let_def)
      ultimately show ?thesis
        using out d1 by blast
    qed (use assms out Some in \<open>simp add: price_row_def Let_def\<close>)
  qed (use assms out in \<open>simp add: price_row_def Let_def\<close>)
qed (use assms in \<open>simp add: price_row_def\<close>)

lemma price_row_pulled:
  assumes run: "price_row curated es now row (d, r) = Inr (d', r')"
    and here: "catalog_wf d" "row_of d (canonicalId row) = Some row" "mdl_source row = SrcProvider"
  shows "pulled (\<lambda>c. c \<in> set curated) d d' \<and> (\<forall>c. c \<noteq> canonicalId row \<longrightarrow> row_of d' c = row_of d c)"
proof -
  let ?own = "\<lambda>c. c \<in> set curated"
  consider "d' = d" | e :: synced_model and d1 where "canonicalId row \<notin> set curated"
      "write_fill (spec_fill_for [] (sm_contextWindow e) (sm_maxOutput e) row) (mdl_id row) d = Inr d1"
      "d' = d1 \<or> d' = snd (appendPricingIfChanged (mdl_id row) (sm_pricing e) now d1)"
    using price_row_cases [OF run] by blast
  then show ?thesis
  proof cases
    case 1
    with here(1) show ?thesis
      by (simp add: pulled_refl)
  next
    case 2
    have filled: "pulled ?own d d1"
      by (rule write_fill_pulled [OF 2(2) here(1,2)]) (use 2(1) here(3) in simp_all)
    then obtain m where m: "row_of d1 (canonicalId row) = Some m" "mdl_id m = mdl_id row" "mdl_source m = SrcProvider"
      using pulled_same [OF filled here(2)] here(3) by (auto simp: pull_kept_def)
    have "pulled ?own d1 (snd (appendPricingIfChanged (mdl_id row) (sm_pricing e) now d1))"
      using append_price_pulled [OF pulled_wf [OF filled] m(1,3)] 2(1) m(2) by simp
    with filled 2(3) write_fill_rows [OF 2(2) here(1,2)] show ?thesis
      using pulled_trans by auto
  qed
qed

lemma price_rows_pulled:
  assumes "catalog_wf d" "distinct (map canonicalId rows)"
    "\<And>x. x \<in> set rows \<Longrightarrow> row_of d (canonicalId x) = Some x \<and> mdl_source x = SrcProvider"
  shows "pulled (\<lambda>c. c \<in> set curated) d (fst (snd (price_rows curated es now rows (d, r))))"
  using assms
proof (induction rows arbitrary: d r)
  case Nil
  then show ?case
    by (simp add: pulled_refl)
next
  case (Cons row rows)
  have here: "row_of d (canonicalId row) = Some row" "mdl_source row = SrcProvider"
    using Cons.prems(3) [of row] by simp_all
  show ?case
  proof (cases "price_row curated es now row (d, r)")
    case (Inl e)
    then show ?thesis
      using pulled_refl [OF Cons.prems(1)] by simp
  next
    case (Inr s1)
    obtain d' r' where s1: "s1 = (d', r')"
      by (cases s1)
    note step = price_row_pulled [OF Inr [unfolded s1] Cons.prems(1) here]
    have rest: "row_of d' (canonicalId x) = Some x \<and> mdl_source x = SrcProvider" if "x \<in> set rows" for x
    proof -
      have "canonicalId x \<in> set (map canonicalId rows)"
        using that by simp
      then have "canonicalId x \<noteq> canonicalId row"
        using Cons.prems(2) by (metis distinct.simps(2) list.simps(9))
      with step Cons.prems(3) [of x] that show ?thesis
        by simp
    qed
    have "distinct (map canonicalId rows)"
      using Cons.prems(2) by simp
    from Cons.IH [OF pulled_wf [OF conjunct1 [OF step]] this rest]
    have "pulled (\<lambda>c. c \<in> set curated) d' (fst (snd (price_rows curated es now rows (d', r'))))" .
    from pulled_trans [OF conjunct1 [OF step] this] show ?thesis
      unfolding price_rows.simps Inr s1 sum.case .
  qed
qed

lemma live_pricing_pulled:
  assumes "catalog_wf d"
  shows "pulled (\<lambda>c. c \<in> set curated) d (snd (applyLivePricing sha256 curated now text d))"
proof (cases "\<exists>ms. json_parse text = Some (JObj ms)")
  case True
  then obtain ms where ms: "json_parse text = Some (JObj ms)" ..
  let ?rows = "filter (\<lambda>m. mdl_source m = SrcProvider) (models d)"
  let ?r = "\<lparr>lp_sourceSha256 = sha256 text, lp_candidates = 0, lp_matched = 0, lp_pricingChanged = [], lp_specsUpdated = []\<rparr>"
  obtain res d1 r where run: "price_rows curated (fst (parseFeed ms)) now ?rows (d, ?r) = (res, d1, r)"
    by (metis prod_cases3)
  have "distinct (map canonicalId ?rows)"
    using assms by (simp add: catalog_wf_def distinct_map_filter)
  then have "pulled (\<lambda>c. c \<in> set curated) d (fst (snd (price_rows curated (fst (parseFeed ms)) now ?rows (d, ?r))))"
    by (rule price_rows_pulled [OF assms]) (use row_of_member [OF assms] in simp)
  then have "pulled (\<lambda>c. c \<in> set curated) d d1"
    by (simp add: run)
  moreover have "snd (applyLivePricing sha256 curated now text d) = d1"
    by (cases res) (simp_all add: applyLivePricing_def ms run)
  ultimately show ?thesis
    by simp
next
  case False
  then have "snd (applyLivePricing sha256 curated now text d) = d"
    by (cases "json_parse text"; cases "the (json_parse text)") (simp_all add: applyLivePricing_def)
  with pulled_refl [OF assms] show ?thesis
    by simp
qed

section \<open>What is discovered\<close>

text \<open>The canonical id of a served id, and the plan as a whole: every id served once, in order, new or known.\<close>

definition served_id :: "string \<Rightarrow> string \<Rightarrow> string option" where
  "served_id ns raw =
     (let i = trim raw; native = (if starts_with (ns @ ''/'') i then drop (length ns + 1) i else i)
      in if i = [] \<or> native = [] then None else Some (ns @ ''/'' @ native))"

definition planned :: "string \<Rightarrow> string \<Rightarrow> planned_model" where
  "planned ns cid =
     \<lparr>pm_canonicalId = cid, pm_displayName = drop (length ns + 1) cid, pm_thirdPartyHosted = thirdPartyHostingFor (drop (length ns + 1) cid)\<rparr>"

lemma plan_fold:
  "pl_toInsert (fst (fold (plan_step existing ns) served (p, seen)))
     = pl_toInsert p @ map (planned ns) (filter (\<lambda>c. c \<notin> set existing) (dedupe_acc seen (List.map_filter (served_id ns) served)))
   \<and> pl_alreadyKnown (fst (fold (plan_step existing ns) served (p, seen)))
     = pl_alreadyKnown p @ filter (\<lambda>c. c \<in> set existing) (dedupe_acc seen (List.map_filter (served_id ns) served))"
proof (induction served arbitrary: p seen)
  case Nil
  then show ?case
    by (simp add: List.map_filter_def)
next
  case (Cons raw served)
  obtain p1 seen1 where step: "plan_step existing ns raw (p, seen) = (p1, seen1)"
    by fastforce
  show ?case
  proof (cases "served_id ns raw")
    case None
    then have "pl_toInsert p1 = pl_toInsert p" "pl_alreadyKnown p1 = pl_alreadyKnown p" "seen1 = seen"
      using step by (auto simp: plan_step_def served_id_def Let_def split: if_splits)
    with None Cons.IH [of p1 seen1] step show ?thesis
      by (simp add: List.map_filter_simps)
  next
    case (Some cid)
    then have "(p1, seen1) = (if cid \<in> set seen then (p, seen)
        else if cid \<in> set existing then (p\<lparr>pl_alreadyKnown := pl_alreadyKnown p @ [cid]\<rparr>, cid # seen)
        else (p\<lparr>pl_toInsert := pl_toInsert p @ [planned ns cid]\<rparr>, cid # seen))"
      using step by (auto simp: plan_step_def served_id_def planned_def Let_def split: if_splits)
    with Some Cons.IH [of p1 seen1] step show ?thesis
      by (auto simp: List.map_filter_simps)
  qed
qed

definition served_ids :: "string list \<Rightarrow> string list" where
  "served_ids served = dedupe (List.map_filter (served_id DO_NAMESPACE) served)"

lemma plan_spec:
  "pl_toInsert (planDiscovery served existing DO_NAMESPACE) = map (planned DO_NAMESPACE) (filter (\<lambda>c. c \<notin> set existing) (served_ids served))
   \<and> pl_alreadyKnown (planDiscovery served existing DO_NAMESPACE) = filter (\<lambda>c. c \<in> set existing) (served_ids served)"
  using plan_fold [of existing DO_NAMESPACE served "\<lparr>pl_toInsert = [], pl_alreadyKnown = [], pl_skipped = []\<rparr>" "[]"]
  by (simp add: planDiscovery_def served_ids_def dedupe_def)

lemma row_exists: "row_of d c = None \<longleftrightarrow> c \<notin> canonicalId ` set (models d)"
  by (auto simp: row_of_def find_first_None)

text \<open>The terms under which a canonical id is served, and a row that shows them.\<close>

definition hosting :: "string \<Rightarrow> third_party_hosting option" where
  "hosting cid = thirdPartyHostingFor (drop (length DO_NAMESPACE + 1) cid)"

definition shows_hosting :: "third_party_hosting \<Rightarrow> model_row \<Rightarrow> bool" where
  "shows_hosting h m \<longleftrightarrow> thirdPartyHosted m \<and> retentionNote m = Some (tp_retentionNote h)"

lemma insert_step_rows:
  assumes "fresh_ids fresh" "catalog_wf d" "row_of d cid = None"
  shows "row_of (fst (insert_step fresh (planned DO_NAMESPACE cid) (d, found, third))) c =
    (if c = cid then Some (discovered_row (fresh d) cid digitalocean (drop (length DO_NAMESPACE + 1) cid) DISCOVERED_CONTEXT_WINDOW None
       DISCOVERED_CAPABILITIES (map_option tp_retentionNote (hosting cid))) else row_of d c)"
  unfolding insert_step_db using assms by (subst insert_rows) (auto simp: fresh_ids_def planned_def hosting_def)

lemma insert_step_found:
  "row_of d cid = None \<Longrightarrow> fst (snd (insert_step fresh (planned ns cid) (d, found, third))) = found @ [cid]"
  by (simp add: insert_step_def insert_if_absent_def planned_def)

lemma inserts_rows:
  assumes "fresh_ids fresh" "catalog_wf d" "distinct cids" "\<And>c. c \<in> set cids \<Longrightarrow> row_of d c = None"
  shows "let s = fold (insert_step fresh) (map (planned DO_NAMESPACE) cids) (d, found, third) in
    fst (snd s) = found @ cids \<and> (\<forall>c. c \<notin> set cids \<longrightarrow> row_of (fst s) c = row_of d c)
    \<and> (\<forall>c\<in>set cids. \<exists>m. row_of (fst s) c = Some m \<and> (\<forall>h. hosting c = Some h \<longrightarrow> shows_hosting h m))"
  using assms(2-4)
proof (induction cids arbitrary: d found third)
  case (Cons cid cids)
  obtain d1 found1 third1 where step: "insert_step fresh (planned DO_NAMESPACE cid) (d, found, third) = (d1, found1, third1)"
    by (metis prod_cases3)
  have none: "row_of d cid = None"
    using Cons.prems(3) by simp
  have rows: "row_of d1 c = (if c = cid then Some (discovered_row (fresh d) cid digitalocean (drop (length DO_NAMESPACE + 1) cid)
      DISCOVERED_CONTEXT_WINDOW None DISCOVERED_CAPABILITIES (map_option tp_retentionNote (hosting cid))) else row_of d c)" for c
    using insert_step_rows [OF assms(1) Cons.prems(1) none, of found third c] step by simp
  have found1: "found1 = found @ [cid]"
    using insert_step_found [OF none, of fresh DO_NAMESPACE found third] step by simp
  have wf1: "catalog_wf d1"
    using pulled_wf [OF inserts_pulled [OF assms(1), of "(d, found, third)" "\<lambda>_. False" "[planned DO_NAMESPACE cid]"]] Cons.prems(1) step
    by simp
  have rest: "row_of d1 c = None" if "c \<in> set cids" for c
    using Cons.prems(2,3) that rows by auto
  have new: "\<exists>m. row_of d1 cid = Some m \<and> (\<forall>h. hosting cid = Some h \<longrightarrow> shows_hosting h m)"
    unfolding rows by (simp add: shows_hosting_def)
  have "distinct cids" "cid \<notin> set cids"
    using Cons.prems(2) by simp_all
  from Cons.IH [OF wf1 this(1) rest, of found1 third1] this(2) step new rows found1 show ?case
    by (simp add: Let_def)
qed simp

lemma retags_rows:
  assumes "\<And>c. c \<in> set cids \<Longrightarrow> row_of d c = row_of d0 c" "distinct cids" "\<And>c. c \<in> set cids \<Longrightarrow> row_of d0 c \<noteq> None"
  shows "let s = fold (retag_step d0) cids (d, third) in
    (\<forall>c. c \<notin> set cids \<or> hosting c = None \<longrightarrow> row_of (fst s) c = row_of d c)
    \<and> (\<forall>c\<in>set cids. \<forall>h. hosting c = Some h \<longrightarrow> (\<exists>m. row_of (fst s) c = Some m \<and> shows_hosting h m))
    \<and> ((\<forall>c\<in>set cids. \<forall>h. hosting c = Some h \<longrightarrow> (\<forall>m. row_of d0 c = Some m \<longrightarrow> shows_hosting h m)) \<longrightarrow> fst s = d)"
  using assms
proof (induction cids arbitrary: d third)
  case (Cons cid cids)
  obtain m0 where m0: "row_of d0 cid = Some m0" "row_of d cid = Some m0"
    using Cons.prems(1,3) [of cid] by auto
  obtain d1 third1 where step: "retag_step d0 cid (d, third) = (d1, third1)"
    by fastforce
  have d1: "d1 = (case hosting cid of None \<Rightarrow> d | Some h \<Rightarrow> if shows_hosting h m0 then d else flag_hosted cid (tp_retentionNote h) d)"
    using step m0(1) by (auto simp: retag_step_def hosting_def shows_hosting_def split: option.splits if_splits)
  have other: "row_of d1 c = row_of d c" if "c \<noteq> cid \<or> hosting c = None" for c
    using that by (auto simp: d1 row_of_flag split: option.splits)
  have here: "\<exists>m. row_of d1 cid = Some m \<and> shows_hosting h m" if "hosting cid = Some h" for h
    using that m0(2) by (auto simp: d1 row_of_flag shows_hosting_def)
  have cid: "distinct cids" "cid \<notin> set cids"
    using Cons.prems(2) by simp_all
  have rest: "row_of d1 c = row_of d0 c" if "c \<in> set cids" for c
    using other [of c] Cons.prems(1) [of c] that cid(2) by auto
  let ?s = "fold (retag_step d0) cids (d1, third1)"
  from Cons.IH [OF rest cid(1), of third1] Cons.prems(3)
  have ih: "\<And>c. c \<notin> set cids \<or> hosting c = None \<Longrightarrow> row_of (fst ?s) c = row_of d1 c"
    "\<And>c h. c \<in> set cids \<Longrightarrow> hosting c = Some h \<Longrightarrow> \<exists>m. row_of (fst ?s) c = Some m \<and> shows_hosting h m"
    "(\<forall>c\<in>set cids. \<forall>h. hosting c = Some h \<longrightarrow> (\<forall>m. row_of d0 c = Some m \<longrightarrow> shows_hosting h m)) \<Longrightarrow> fst ?s = d1"
    by (simp_all add: Let_def)
  have same: "d1 = d" if "\<forall>h. hosting cid = Some h \<longrightarrow> (\<forall>m. row_of d0 cid = Some m \<longrightarrow> shows_hosting h m)"
    using that m0(1) by (auto simp: d1 split: option.splits)
  have unserved: "row_of (fst ?s) c = row_of d c" if "c \<notin> set (cid # cids) \<or> hosting c = None" for c
  proof -
    have "row_of (fst ?s) c = row_of d1 c"
      using ih(1) [of c] that by auto
    also have "\<dots> = row_of d c"
      by (rule other) (use that in auto)
    finally show ?thesis .
  qed
  have hosted: "\<exists>m. row_of (fst ?s) c = Some m \<and> shows_hosting h m" if "c \<in> set (cid # cids)" "hosting c = Some h" for c h
    using ih(1) [of cid] ih(2) [of c h] here [of h] that cid(2) by auto
  have steady: "fst ?s = d"
    if all: "\<forall>c\<in>set (cid # cids). \<forall>h. hosting c = Some h \<longrightarrow> (\<forall>m. row_of d0 c = Some m \<longrightarrow> shows_hosting h m)"
  proof -
    have "fst ?s = d1"
      by (rule ih(3)) (use all in auto)
    also have "d1 = d"
      by (rule same) (use all in auto)
    finally show ?thesis .
  qed
  have run: "fold (retag_step d0) (cid # cids) (d, third) = ?s"
    by (simp add: step)
  show ?case
    unfolding run Let_def by (intro conjI allI ballI impI) (use unserved hosted steady in blast)+
qed simp

text \<open>A run against a list of served ids.\<close>

lemma digitalocean_run:
  assumes "fresh_ids fresh" "catalog_wf d" "listServedModelIds get (prv_baseUrl provider) apiKey = Inr served"
  shows "\<exists>r. fst (discoverDigitalOceanModels get fresh provider apiKey d) = Inr r
      \<and> ds_discovered r = filter (\<lambda>c. row_of d c = None) (served_ids served)"
    and "\<And>c. c \<notin> set (served_ids served) \<Longrightarrow> row_of (snd (discoverDigitalOceanModels get fresh provider apiKey d)) c = row_of d c"
    and "\<And>c. c \<in> set (served_ids served) \<Longrightarrow> \<exists>m. row_of (snd (discoverDigitalOceanModels get fresh provider apiKey d)) c = Some m
      \<and> (\<forall>h. hosting c = Some h \<longrightarrow> shows_hosting h m)"
    and "(\<And>c. c \<in> set (served_ids served) \<Longrightarrow> \<exists>m. row_of d c = Some m \<and> (\<forall>h. hosting c = Some h \<longrightarrow> shows_hosting h m))
      \<Longrightarrow> snd (discoverDigitalOceanModels get fresh provider apiKey d) = d"
proof -
  let ?ids = "served_ids served"
  let ?new = "filter (\<lambda>c. c \<notin> canonicalId ` set (models d)) ?ids" and ?known = "filter (\<lambda>c. c \<in> canonicalId ` set (models d)) ?ids"
  obtain d1 found third where ins: "fold (insert_step fresh) (map (planned DO_NAMESPACE) ?new) (d, [], []) = (d1, found, third)"
    by (metis prod_cases3)
  obtain d2 hosted where ret: "fold (retag_step d) ?known (d1, third) = (d2, hosted)"
    by fastforce
  have plan: "pl_toInsert (planDiscovery served (map canonicalId (models d)) DO_NAMESPACE) = map (planned DO_NAMESPACE) ?new"
    "pl_alreadyKnown (planDiscovery served (map canonicalId (models d)) DO_NAMESPACE) = ?known"
    using plan_spec [of served "map canonicalId (models d)"] by simp_all
  let ?run = "discoverDigitalOceanModels get fresh provider apiKey d"
  obtain r where run: "fst ?run = Inr r" "snd ?run = d2" "ds_discovered r = found"
    unfolding discoverDigitalOceanModels_def assms(3) sum.case Let_def plan ins prod.case ret by simp
  have "distinct ?ids"
    by (simp add: served_ids_def)
  then have "distinct ?new" "distinct ?known"
    by simp_all
  have none: "row_of d c = None" if "c \<in> set ?new" for c
    using that row_exists by auto
  from inserts_rows [OF assms(1,2) \<open>distinct ?new\<close> none, of "[]" "[]", unfolded ins Let_def]
  have new: "found = ?new" "\<And>c. c \<notin> set ?new \<Longrightarrow> row_of d1 c = row_of d c"
    "\<And>c. c \<in> set ?new \<Longrightarrow> \<exists>m. row_of d1 c = Some m \<and> (\<forall>h. hosting c = Some h \<longrightarrow> shows_hosting h m)"
    by (simp_all del: set_filter)
  have keep: "row_of d1 c = row_of d c" if "c \<in> set ?known" for c
    using new(2) that by auto
  have some: "row_of d c \<noteq> None" if "c \<in> set ?known" for c
    using that row_exists by auto
  from retags_rows [OF keep \<open>distinct ?known\<close> some, of third, unfolded ret Let_def]
  have old: "\<And>c. c \<notin> set ?known \<or> hosting c = None \<Longrightarrow> row_of d2 c = row_of d1 c"
    "\<And>c h. c \<in> set ?known \<Longrightarrow> hosting c = Some h \<Longrightarrow> \<exists>m. row_of d2 c = Some m \<and> shows_hosting h m"
    "(\<forall>c\<in>set ?known. \<forall>h. hosting c = Some h \<longrightarrow> (\<forall>m. row_of d c = Some m \<longrightarrow> shows_hosting h m)) \<Longrightarrow> d2 = d1"
    by (simp_all del: set_filter)
  have "?new = filter (\<lambda>c. row_of d c = None) ?ids"
    by (rule filter_cong) (simp_all add: row_exists)
  with run(3) new(1) have "ds_discovered r = filter (\<lambda>c. row_of d c = None) ?ids"
    by simp
  with run(1) show "\<exists>r. fst ?run = Inr r \<and> ds_discovered r = filter (\<lambda>c. row_of d c = None) (served_ids served)"
    by blast
  show "row_of (snd ?run) c = row_of d c" if "c \<notin> set ?ids" for c
    using run(2) old(1) [of c] new(2) [of c] that by simp
  show "\<exists>m. row_of (snd ?run) c = Some m \<and> (\<forall>h. hosting c = Some h \<longrightarrow> shows_hosting h m)"
    if c: "c \<in> set ?ids" for c
  proof (cases "c \<in> set ?new")
    case True
    then have "row_of d2 c = row_of d1 c"
      using old(1) [of c] by simp
    with new(3) [OF True] run(2) show ?thesis
      by simp
  next
    case False
    then have known: "c \<in> set ?known"
      using c by simp
    show ?thesis
    proof (cases "hosting c")
      case None
      then have "row_of d2 c = row_of d c"
        using old(1) [of c] keep [OF known] by simp
      with some [OF known] None run(2) show ?thesis
        by simp
    next
      case (Some h)
      then show ?thesis
        using old(2) [OF known Some] run(2) by auto
    qed
  qed
  show "snd ?run = d"
    if all: "\<And>c. c \<in> set ?ids \<Longrightarrow> \<exists>m. row_of d c = Some m \<and> (\<forall>h. hosting c = Some h \<longrightarrow> shows_hosting h m)"
  proof -
    have "c \<in> canonicalId ` set (models d)" if "c \<in> set ?ids" for c
      using all [OF that] row_exists [of d c] by auto
    then have "?new = []"
      by (simp add: filter_empty_conv)
    with ins have "d1 = d"
      by (simp del: filter_empty_conv)
    moreover have "d2 = d1"
    proof (rule old(3), intro ballI allI impI)
      fix c h m
      assume "c \<in> set ?known" "hosting c = Some h" "row_of d c = Some m"
      with all [of c] show "shows_hosting h m"
        by auto
    qed
    ultimately show ?thesis
      using run(2) by simp
  qed
qed

section \<open>Properties\<close>

text \<open>
  C33. A successful discovery on DigitalOcean is complete, visible and idempotent: every model the provider serves is in the catalog
  afterwards, one that a third-party vendor serves there carries the flag and the vendor's retention note, no other row
  is touched; and a second run against the same list discovers nothing and leaves the database as it is.
\<close>

theorem discovery_complete:
  assumes "fresh_ids fresh" "catalog_wf d" "listServedModelIds get (prv_baseUrl provider) apiKey = Inr served"
  shows "let d1 = snd (discoverDigitalOceanModels get fresh provider apiKey d) in
    (\<forall>c\<in>set (served_ids served). \<exists>m. row_of d1 c = Some m \<and> (\<forall>h. hosting c = Some h \<longrightarrow> shows_hosting h m))
    \<and> (\<forall>c. c \<notin> set (served_ids served) \<longrightarrow> row_of d1 c = row_of d c)
    \<and> (\<exists>r. fst (discoverDigitalOceanModels get fresh provider apiKey d) = Inr r
          \<and> ds_discovered r = filter (\<lambda>c. row_of d c = None) (served_ids served))
    \<and> snd (discoverDigitalOceanModels get fresh provider apiKey d1) = d1
    \<and> (\<exists>r. fst (discoverDigitalOceanModels get fresh provider apiKey d1) = Inr r \<and> ds_discovered r = [])"
proof -
  let ?d1 = "snd (discoverDigitalOceanModels get fresh provider apiKey d)"
  note first = digitalocean_run [OF assms]
  have wf1: "catalog_wf ?d1"
    by (rule pulled_wf [OF digitalocean_pulled [OF assms(1,2)]])
  note second = digitalocean_run [OF assms(1) wf1 assms(3)]
  have "filter (\<lambda>c. row_of ?d1 c = None) (served_ids served) = []"
    using first(3) by (force simp: filter_empty_conv)
  with first second(1) second(4) [OF first(3)] show ?thesis
    by (simp add: Let_def)
qed

definition ex_do_provider :: provider_row where
  "ex_do_provider = \<lparr>prv_id = ''p1'', prv_firmId = ''f1'', prv_kind = digitalocean, prv_label = ''do'', prv_baseUrl = ''https://do/'',
     prv_authType = AuthApiKey, prv_modelMapping = None, prv_deletedAt = None\<rparr>"

definition ex_do_net :: json_net where
  "ex_do_net url headers =
     (if url = ''https://do/models''
      then Inr (JObj [(''data'', JArr [JObj [(''id'', JStr ''anthropic-claude'')], JObj [(''id'', JStr '' kimi-k3 '')], JNum 1])]) else Inl ''404'')"

text \<open>An id longer than every id of the table.\<close>

definition spare_id :: "db \<Rightarrow> nat \<Rightarrow> string" where
  "spare_id d k = replicate (k + Suc (sum_list (map (\<lambda>m. length (mdl_id m)) (models d)))) CHR ''x''"

lemma spare_id_unused: "spare_id d k \<notin> mdl_id ` set (models d)"
proof
  assume "spare_id d k \<in> mdl_id ` set (models d)"
  then obtain m where m: "m \<in> set (models d)" "mdl_id m = spare_id d k"
    by auto
  have "length (mdl_id m) \<in> set (map (\<lambda>m. length (mdl_id m)) (models d))"
    using m(1) by simp
  then have "length (mdl_id m) \<le> sum_list (map (\<lambda>m. length (mdl_id m)) (models d))"
    by (rule member_le_sum_list) simp
  then show False
    unfolding m(2) by (simp add: spare_id_def)
qed

lemma spare_id_inj: "inj (spare_id d)"
  by (rule injI) (auto simp: spare_id_def dest: arg_cong [of _ _ length])

definition long_id :: "db \<Rightarrow> string" where
  "long_id d = spare_id d 0"

lemma long_id_fresh: "fresh_ids long_id"
  by (simp add: fresh_ids_def long_id_def spare_id_unused)

theorem discovery_complete_witness:
  "\<exists>m. row_of (snd (discoverDigitalOceanModels ex_do_net long_id ex_do_provider None example_db)) ''digitalocean/anthropic-claude'' = Some m
     \<and> thirdPartyHosted m"
proof -
  have served: "listServedModelIds ex_do_net (prv_baseUrl ex_do_provider) None = Inr [''anthropic-claude'', '' kimi-k3 '']"
    by code_simp
  have ids: "''digitalocean/anthropic-claude'' \<in> set (served_ids [''anthropic-claude'', '' kimi-k3 ''])"
    and host: "hosting ''digitalocean/anthropic-claude'' \<noteq> None"
    by code_simp+
  have "catalog_wf example_db"
    by (simp add: catalog_wf_def example_db_def)
  from discovery_complete [OF long_id_fresh this served] ids host show ?thesis
    by (auto simp: Let_def shows_hosting_def)
qed

end
