(* ===== verification/Do_Docs.thy ===== *)
theory Do_Docs
  imports Discovery
begin

text \<open>
  The scrape of \<^verbatim>\<open>src/src/catalog/do-docs.ts\<close>: tables are cut out of two HTML pages, read into models with capabilities,
  limits and prices, joined by name and applied to discovered rows. The regular expressions are written out as the
  scanners they are; none of them can match in more than one way. The network is the argument \<open>fetch\<close>: a
  status and a text, or the message of what is thrown; when both pages fail the model reports the first.
\<close>

section \<open>Scanners\<close>

definition starts_ci :: "string \<Rightarrow> string \<Rightarrow> bool" where
  "starts_ci pat s = starts_with (to_lower pat) (to_lower (take (length pat) s))"

text \<open>The first occurrence of a text, case ignored: what is before it and what is after.\<close>

fun find_ci :: "string \<Rightarrow> string \<Rightarrow> (string \<times> string) option" where
  "find_ci pat [] = None"
| "find_ci pat (c # cs) =
     (if starts_ci pat (c # cs) then Some ([], drop (length pat) (c # cs))
      else map_option (\<lambda>(b, a). (c # b, a)) (find_ci pat cs))"

definition contains_ci :: "string \<Rightarrow> string \<Rightarrow> bool" where
  "contains_ci pat s = (find_ci pat s \<noteq> None)"

text \<open>\<open>/<[^>]+>/g\<close> replaced by a blank, a text replaced everywhere, runs of white space replaced by one blank.\<close>

fun remove_tags :: "nat \<Rightarrow> string \<Rightarrow> string" where
  "remove_tags 0 s = s"
| "remove_tags (Suc n) [] = []"
| "remove_tags (Suc n) (c # cs) =
     (let body = takeWhile (\<lambda>x. x \<noteq> CHR ''>'') cs; rest = dropWhile (\<lambda>x. x \<noteq> CHR ''>'') cs
      in if c = CHR ''<'' \<and> body \<noteq> [] \<and> rest \<noteq> [] then CHR '' '' # remove_tags n (tl rest) else c # remove_tags n cs)"

fun replace_text :: "string \<Rightarrow> string \<Rightarrow> nat \<Rightarrow> string \<Rightarrow> string" where
  "replace_text pat rep 0 s = s"
| "replace_text pat rep (Suc n) [] = []"
| "replace_text pat rep (Suc n) (c # cs) =
     (if starts_with pat (c # cs) then rep @ replace_text pat rep n (drop (length pat) (c # cs))
      else c # replace_text pat rep n cs)"

definition replace_every :: "string \<Rightarrow> string \<Rightarrow> string \<Rightarrow> string" where
  "replace_every pat rep s = replace_text pat rep (length s) s"

fun collapse :: "string \<Rightarrow> string" where
  "collapse [] = []"
| "collapse [c] = [if is_space c then CHR '' '' else c]"
| "collapse (c # d # cs) =
     (if is_space c then (if is_space d then collapse (d # cs) else CHR '' '' # collapse (d # cs)) else c # collapse (d # cs))"

definition stripTags :: "string \<Rightarrow> string" where
  "stripTags html =
     trim (collapse (replace_every ''&nbsp;'' '' '' (replace_every ''&#39;'' [CHR 0x27] (replace_every ''&quot;'' [dquote]
       (replace_every ''&gt;'' ''>'' (replace_every ''&lt;'' ''<'' (replace_every ''&amp;'' ''&'' (remove_tags (length html) html))))))))"

text \<open>The contents of every element \<open>/<tag[^>]*>([\s\S]*?)<\/tag>/gi\<close>.\<close>

definition open_tag :: "string \<Rightarrow> string \<Rightarrow> (string \<times> string) option" where
  "open_tag tag s =
     (if starts_ci (CHR ''<'' # tag) s
      then (case dropWhile (\<lambda>x. x \<noteq> CHR ''>'') (drop (length tag + 1) s) of
              [] \<Rightarrow> None
            | _ # inner \<Rightarrow> find_ci (''</'' @ tag @ ''>'') inner)
      else None)"

fun elements :: "string \<Rightarrow> nat \<Rightarrow> string \<Rightarrow> string list" where
  "elements tag 0 s = []"
| "elements tag (Suc n) [] = []"
| "elements tag (Suc n) (c # cs) =
     (case open_tag tag (c # cs) of
        Some (inner, rest) \<Rightarrow> inner # elements tag n rest
      | None \<Rightarrow> elements tag n cs)"

definition elements_of :: "string \<Rightarrow> string \<Rightarrow> string list" where
  "elements_of tag s = elements tag (length s) s"

record html_table =
  ht_headers :: "string list"
  ht_rows :: "string list list"

definition read_table :: "string \<Rightarrow> html_table" where
  "read_table tbl =
     \<lparr>ht_headers = map stripTags (elements_of ''th'' tbl),
      ht_rows = filter (\<lambda>cells. cells \<noteq> []) (map (\<lambda>tr. map stripTags (elements_of ''td'' tr)) (elements_of ''tr'' tbl))\<rparr>"

definition extractTables :: "string \<Rightarrow> html_table list" where
  "extractTables html = filter (\<lambda>t. ht_headers t \<noteq> [] \<and> ht_rows t \<noteq> []) (map read_table (elements_of ''table'' html))"

section \<open>Cells\<close>

definition DO_DOCS_MODELS_URL :: string where
  "DO_DOCS_MODELS_URL = ''https://docs.digitalocean.com/products/inference/details/models/''"

definition DO_DOCS_PRICING_URL :: string where
  "DO_DOCS_PRICING_URL = ''https://docs.digitalocean.com/products/inference/details/pricing/''"

record scraped_model =
  sc_modelId :: string
  sc_displayName :: string
  sc_contextWindow :: "int option"
  sc_maxOutput :: "int option"
  sc_capabilities :: "(capability \<times> bool) list"
  sc_pricing :: "(string \<times> string \<times> string option) option"

definition parseTokenCount :: "string option \<Rightarrow> int option" where
  "parseTokenCount cell =
     (case given cell of
        None \<Rightarrow> None
      | Some c \<Rightarrow>
          (let t = trim c; ds = takeWhile (\<lambda>x. is_digit x \<or> x = CHR '','') t; n = int (digits_val (filter is_digit ds))
           in if ds = [] \<or> drop (length ds) t \<notin> {[], '' tokens''} then None
              else if n \<le> 9007199254740991 \<and> 1024 \<le> n then Some n else None))"

text \<open>\<open>/tool\s*(\(function\)\s*)?calling/i\<close> and \<open>/\breasoning\b/i\<close>\<close>

fun tool_calling :: "string \<Rightarrow> bool" where
  "tool_calling [] = False"
| "tool_calling (c # cs) =
     ((starts_ci ''tool'' (c # cs)
       \<and> (let r = dropWhile is_space (drop 4 (c # cs))
          in starts_ci ''calling'' r \<or> (starts_ci ''(function)'' r \<and> starts_ci ''calling'' (dropWhile is_space (drop 10 r)))))
      \<or> tool_calling cs)"

fun reasoning_word :: "bool \<Rightarrow> string \<Rightarrow> bool" where
  "reasoning_word inWord [] = False"
| "reasoning_word inWord (c # cs) =
     ((\<not> inWord \<and> starts_ci ''reasoning'' (c # cs) \<and> (case drop 9 (c # cs) of [] \<Rightarrow> True | d # _ \<Rightarrow> \<not> word_char d))
      \<or> reasoning_word (word_char c) cs)"

definition capabilitiesFromNotes :: "string \<Rightarrow> (capability \<times> bool) list" where
  "capabilitiesFromNotes notes =
     map (\<lambda>c. (fst c, True)) (filter snd
       [(Cap_vision, contains_ci ''native vision'' notes \<or> contains_ci ''text, images'' notes),
        (Cap_tools, tool_calling notes),
        (Cap_json_schema, contains_ci ''structured output'' notes),
        (Cap_caching, contains_ci ''prompt caching'' notes),
        (Cap_reasoning, contains_ci ''adaptive thinking'' notes \<or> reasoning_word False notes)])"

definition nameKey :: "string \<Rightarrow> string" where
  "nameKey name = trim (collapse (to_lower name))"

text \<open>\<open>indexOf\<close>, \<open>findIndex\<close> and reading a cell that may not be there.\<close>

fun index_where :: "('a \<Rightarrow> bool) \<Rightarrow> 'a list \<Rightarrow> nat option" where
  "index_where P [] = None"
| "index_where P (x # xs) = (if P x then Some 0 else map_option Suc (index_where P xs))"

definition column :: "string list \<Rightarrow> string \<Rightarrow> nat option" where
  "column headers name = index_where (\<lambda>h. h = name) headers"

definition cell_at :: "string list \<Rightarrow> nat option \<Rightarrow> string option" where
  "cell_at row i = (case i of None \<Rightarrow> None | Some k \<Rightarrow> if k < length row then Some (row ! k) else None)"

section \<open>Pages\<close>

definition read_model_row ::
    "nat \<Rightarrow> nat \<Rightarrow> nat option \<Rightarrow> nat option \<Rightarrow> nat option \<Rightarrow> string list \<Rightarrow> (string, scraped_model) jsmap \<Rightarrow> (string, scraped_model) jsmap" where
  "read_model_row idCol ctxCol nameCol maxCol notesCol row found =
     (case given (map_option trim (cell_at row (Some idCol))) of
        None \<Rightarrow> found
      | Some i \<Rightarrow>
          if list_ex is_space i \<or> map_get found i \<noteq> None then found
          else map_set i
            \<lparr>sc_modelId = i, sc_displayName = nullish (given (map_option trim (cell_at row nameCol))) i,
             sc_contextWindow = parseTokenCount (cell_at row (Some ctxCol)),
             sc_maxOutput = (if maxCol = None then None else parseTokenCount (cell_at row maxCol)),
             sc_capabilities = (if notesCol = None then [] else capabilitiesFromNotes (nullish (cell_at row notesCol) [])),
             sc_pricing = None\<rparr> found)"

definition read_models_table :: "html_table \<Rightarrow> (string, scraped_model) jsmap \<Rightarrow> (string, scraped_model) jsmap" where
  "read_models_table t found =
     (let hs = ht_headers t
      in case (column hs ''Model ID'', column hs ''Context Window'') of
           (Some idCol, Some ctxCol) \<Rightarrow>
             fold (read_model_row idCol ctxCol (column hs ''Model'') (column hs ''Max Output Tokens'') (column hs ''Usage Notes''))
               (ht_rows t) found
         | _ \<Rightarrow> found)"

definition parseModelsPage :: "string \<Rightarrow> scraped_model list" where
  "parseModelsPage html = map_vals (fold read_models_table (extractTables html) [])"

text \<open>\<open>\s*\$([\d.]+)\s*per 1M tokens\<close>: the number and the rest.\<close>

definition dollar_price :: "string \<Rightarrow> (string \<times> string) option" where
  "dollar_price s =
     (case dropWhile is_space s of
        [] \<Rightarrow> None
      | c # cs \<Rightarrow>
          (let num = takeWhile (\<lambda>x. is_digit x \<or> x = CHR ''.'') cs; rest = dropWhile is_space (dropWhile (\<lambda>x. is_digit x \<or> x = CHR ''.'') cs)
           in if c = CHR ''$'' \<and> num \<noteq> [] \<and> starts_ci ''per 1M tokens'' rest then Some (num, drop 13 rest) else None))"

fun cached_price :: "string \<Rightarrow> string option" where
  "cached_price [] = None"
| "cached_price (c # cs) =
     (case (if starts_ci ''Prompt caching'' (c # cs) then dollar_price (drop 14 (c # cs)) else None) of
        Some (num, _) \<Rightarrow> Some num
      | None \<Rightarrow> if c \<in> {CHR 0x0A, CHR 0x0D} then None else cached_price cs)"

fun find_prices :: "string \<Rightarrow> (string \<times> string \<times> string option) option" where
  "find_prices [] = None"
| "find_prices (c # cs) =
     (case (if starts_ci ''Input/output tokens'' (c # cs) then dollar_price (drop 19 (c # cs)) else None) of
        Some (input, r) \<Rightarrow> (case dollar_price r of Some (output, r2) \<Rightarrow> Some (input, output, cached_price r2) | None \<Rightarrow> find_prices cs)
      | None \<Rightarrow> find_prices cs)"

definition read_price_row ::
    "nat \<Rightarrow> nat \<Rightarrow> string list \<Rightarrow> (string, string \<times> string \<times> string option) jsmap \<Rightarrow> (string, string \<times> string \<times> string option) jsmap" where
  "read_price_row nameCol priceCol row found =
     (case (given (map_option trim (cell_at row (Some nameCol))), Option.bind (given (cell_at row (Some priceCol))) find_prices) of
        (Some name, Some p) \<Rightarrow> if map_get found (nameKey name) \<noteq> None then found else map_set (nameKey name) p found
      | _ \<Rightarrow> found)"

definition read_pricing_table ::
    "html_table \<Rightarrow> (string, string \<times> string \<times> string option) jsmap \<Rightarrow> (string, string \<times> string \<times> string option) jsmap" where
  "read_pricing_table t found =
     (case (column (ht_headers t) ''Model'', index_where (contains_ci ''inference'') (ht_headers t)) of
        (Some nameCol, Some priceCol) \<Rightarrow> fold (read_price_row nameCol priceCol) (ht_rows t) found
      | _ \<Rightarrow> found)"

definition parsePricingPage :: "string \<Rightarrow> (string, string \<times> string \<times> string option) jsmap" where
  "parsePricingPage html = fold read_pricing_table (extractTables html) []"

type_synonym text_net = "string \<Rightarrow> (string \<times> string) list \<Rightarrow> (string, int \<times> string) result"

definition fetchDocsPage :: "text_net \<Rightarrow> string \<Rightarrow> (string, string) result" where
  "fetchDocsPage fetch url =
     rbind (fetch url [(''accept'', ''text/html'')])
       (\<lambda>(st, t). if 200 \<le> st \<and> st \<le> 299 then Inr t else Inl (''DO docs fetch failed: HTTP '' @ show_int st @ '' for '' @ url))"

definition scrapeDoDocs :: "(string \<Rightarrow> (string, string) result) \<Rightarrow> (string, scraped_model list) result" where
  "scrapeDoDocs fetchPage =
     rbind (fetchPage DO_DOCS_MODELS_URL) (\<lambda>modelsHtml.
     rbind (fetchPage DO_DOCS_PRICING_URL) (\<lambda>pricingHtml.
       Inr (map (\<lambda>m. m\<lparr>sc_pricing := map_get (parsePricingPage pricingHtml) (nameKey (sc_displayName m))\<rparr>) (parseModelsPage modelsHtml))))"

section \<open>Applying\<close>

record scrape_report =
  sr_scraped :: nat
  sr_matched :: nat
  sr_capabilitiesUpdated :: "string list"
  sr_specsUpdated :: "string list"
  sr_pricingChanged :: "string list"
  sr_skippedCurated :: "string list"
  sr_unmatched :: nat

text \<open>A price text as the database reads it, none when it is no number; a text that is no number is also unequal to every price.\<close>

definition price_value :: "string \<Rightarrow> rat option" where
  "price_value s = (case js_Number s of Fin x \<Rightarrow> Some x | _ \<Rightarrow> None)"

definition docs_prices :: "string \<times> string \<times> string option \<Rightarrow> prices option" where
  "docs_prices p =
     (case p of (i, ou, c) \<Rightarrow>
        (case (price_value i, price_value ou, c) of
           (Some x, Some y, None) \<Rightarrow> Some \<lparr>pc_input = Some x, pc_output = Some y, pc_cacheRead = None, pc_cacheWrite = None\<rparr>
         | (Some x, Some y, Some t) \<Rightarrow>
             map_option (\<lambda>z. \<lparr>pc_input = Some x, pc_output = Some y, pc_cacheRead = Some z, pc_cacheWrite = None\<rparr>) (price_value t)
         | _ \<Rightarrow> None))"

definition docs_price_due :: "db \<Rightarrow> string \<Rightarrow> prices \<Rightarrow> bool" where
  "docs_price_due d mid p =
     (case latest_pricing d mid of
        None \<Rightarrow> True
      | Some l \<Rightarrow> \<not> numEq (inputPerMtok l) (pc_input p) \<or> \<not> numEq (outputPerMtok l) (pc_output p)
          \<or> \<not> numEq (cacheReadPerMtok l) (pc_cacheRead p))"

definition insert_price :: "string \<Rightarrow> prices \<Rightarrow> int \<Rightarrow> db \<Rightarrow> db" where
  "insert_price mid p now d =
     d\<lparr>pricings := pricings d @ [\<lparr>pr_modelId = mid, pr_effectiveFrom = now, inputPerMtok = numeric6 (pc_input p),
         outputPerMtok = numeric6 (pc_output p), cacheReadPerMtok = numeric6 (pc_cacheRead p), cacheWritePerMtok = None\<rparr>]\<rparr>"

text \<open>The price part of an entry; a text the database refuses throws after the specs are written.\<close>

definition docs_price ::
    "string \<times> string \<times> string option \<Rightarrow> string \<Rightarrow> string \<Rightarrow> int \<Rightarrow> db \<times> scrape_report \<Rightarrow> (string, unit) result \<times> db \<times> scrape_report" where
  "docs_price texts cid mid now s =
     (let (d, r) = s
      in case docs_prices texts of
           None \<Rightarrow> (Inl ''invalid input syntax for type numeric'', s)
         | Some p \<Rightarrow>
             if docs_price_due d mid p
             then (Inr (), insert_price mid p now d, r\<lparr>sr_pricingChanged := sr_pricingChanged r @ [cid]\<rparr>)
             else (Inr (), s))"

definition apply_entry ::
    "string list \<Rightarrow> int \<Rightarrow> scraped_model \<Rightarrow> db \<times> scrape_report \<Rightarrow> (string, unit) result \<times> db \<times> scrape_report" where
  "apply_entry curated now e s =
     (let (d, r) = s; cid = ''digitalocean/'' @ sc_modelId e
      in case row_of d cid of
           None \<Rightarrow> (Inr (), d, r\<lparr>sr_unmatched := sr_unmatched r + 1\<rparr>)
         | Some row \<Rightarrow>
             (let r1 = r\<lparr>sr_matched := sr_matched r + 1\<rparr>
              in if mdl_source row \<noteq> SrcProvider \<or> cid \<in> set curated
                 then (Inr (), d, r1\<lparr>sr_skippedCurated := sr_skippedCurated r1 @ [cid]\<rparr>)
                 else
                   (let f = spec_fill_for (sc_capabilities e) (map_option of_int (sc_contextWindow e)) (map_option of_int (sc_maxOutput e)) row
                    in case write_fill f (mdl_id row) d of
                         Inl err \<Rightarrow> (Inl err, d, r1)
                       | Inr d1 \<Rightarrow>
                           (let r2 = r1\<lparr>sr_capabilitiesUpdated := (if sf_caps f \<noteq> None then sr_capabilitiesUpdated r1 @ [cid] else sr_capabilitiesUpdated r1),
                                      sr_specsUpdated := (if fills_specs f then sr_specsUpdated r1 @ [cid] else sr_specsUpdated r1)\<rparr>
                            in case sc_pricing e of
                                 None \<Rightarrow> (Inr (), d1, r2)
                               | Some texts \<Rightarrow> docs_price texts cid (mdl_id row) now (d1, r2)))))"

text \<open>The loop; \<open>clock\<close> gives the time of each entry.\<close>

fun apply_entries ::
    "string list \<Rightarrow> (nat \<Rightarrow> int) \<Rightarrow> nat \<Rightarrow> scraped_model list \<Rightarrow> db \<times> scrape_report \<Rightarrow> (string, unit) result \<times> db \<times> scrape_report" where
  "apply_entries curated clock n [] s = (Inr (), s)"
| "apply_entries curated clock n (e # es) s =
     (case apply_entry curated (clock n) e s of
        (Inl err, s1) \<Rightarrow> (Inl err, s1)
      | (Inr _, s1) \<Rightarrow> apply_entries curated clock (Suc n) es s1)"

definition applyScrapedToCatalog ::
    "string list \<Rightarrow> (nat \<Rightarrow> int) \<Rightarrow> scraped_model list \<Rightarrow> db \<Rightarrow> (string, scrape_report) result \<times> db" where
  "applyScrapedToCatalog curated clock scraped d =
     (case apply_entries curated clock 0 scraped
             (d, \<lparr>sr_scraped = length scraped, sr_matched = 0, sr_capabilitiesUpdated = [], sr_specsUpdated = [],
                  sr_pricingChanged = [], sr_skippedCurated = [], sr_unmatched = 0\<rparr>) of
        (Inl err, d1, _) \<Rightarrow> (Inl err, d1)
      | (Inr _, d1, r) \<Rightarrow> (Inr r, d1))"

section \<open>Applying is a pull\<close>

lemma insert_price_pulled:
  assumes "catalog_wf d" "row_of d c = Some m" "mdl_source m = SrcProvider" "\<not> owned c"
  shows "pulled owned d (insert_price (mdl_id m) p now d)"
  unfolding insert_price_def by (rule pulled_price [of d c m owned]) (simp_all add: assms)

lemma docs_price_db:
  "fst (snd (docs_price texts cid mid now (d, r))) = d \<or> (\<exists>p. fst (snd (docs_price texts cid mid now (d, r))) = insert_price mid p now d)"
  by (auto simp: docs_price_def split: option.splits)

lemma apply_entry_db:
  "fst (snd (apply_entry curated now e (d, r))) = d
   \<or> (\<exists>m d1. row_of d (''digitalocean/'' @ sc_modelId e) = Some m \<and> mdl_source m = SrcProvider \<and> ''digitalocean/'' @ sc_modelId e \<notin> set curated
        \<and> write_fill (spec_fill_for (sc_capabilities e) (map_option of_int (sc_contextWindow e)) (map_option of_int (sc_maxOutput e)) m)
            (mdl_id m) d = Inr d1
        \<and> (fst (snd (apply_entry curated now e (d, r))) = d1 \<or> (\<exists>p. fst (snd (apply_entry curated now e (d, r))) = insert_price (mdl_id m) p now d1)))"
proof (cases "row_of d (''digitalocean/'' @ sc_modelId e)")
  case (Some m)
  let ?cid = "''digitalocean/'' @ sc_modelId e"
  let ?f = "spec_fill_for (sc_capabilities e) (map_option of_int (sc_contextWindow e)) (map_option of_int (sc_maxOutput e)) m"
  show ?thesis
  proof (cases "mdl_source m \<noteq> SrcProvider \<or> ?cid \<in> set curated")
    case False
    show ?thesis
    proof (cases "write_fill ?f (mdl_id m) d")
      case (Inr d1)
      have "fst (snd (apply_entry curated now e (d, r))) = d1
          \<or> (\<exists>p. fst (snd (apply_entry curated now e (d, r))) = insert_price (mdl_id m) p now d1)"
      proof (cases "sc_pricing e")
        case None
        with False Some Inr show ?thesis
          by (simp add: apply_entry_def Let_def)
      next
        case (Some texts)
        have "\<exists>r2. apply_entry curated now e (d, r) = docs_price texts ?cid (mdl_id m) now (d1, r2)"
          using False \<open>row_of d ?cid = Some m\<close> Inr Some unfolding apply_entry_def Let_def prod.case
          by (simp only: option.case sum.case if_False) blast
        with docs_price_db show ?thesis
          by metis
      qed
      with False Some Inr show ?thesis
        by blast
    qed (use False Some in \<open>simp add: apply_entry_def Let_def\<close>)
  qed (use Some in \<open>auto simp: apply_entry_def Let_def\<close>)
qed (simp add: apply_entry_def)

lemma apply_entry_pulled:
  assumes "catalog_wf d"
  shows "pulled (\<lambda>c. c \<in> set curated) d (fst (snd (apply_entry curated now e (d, r))))"
proof -
  let ?own = "\<lambda>c. c \<in> set curated" and ?d' = "fst (snd (apply_entry curated now e (d, r)))"
  let ?cid = "''digitalocean/'' @ sc_modelId e"
  consider "?d' = d" | m d1 where "row_of d ?cid = Some m" "mdl_source m = SrcProvider" "?cid \<notin> set curated"
      "write_fill (spec_fill_for (sc_capabilities e) (map_option of_int (sc_contextWindow e)) (map_option of_int (sc_maxOutput e)) m) (mdl_id m) d = Inr d1"
      "?d' = d1 \<or> (\<exists>p. ?d' = insert_price (mdl_id m) p now d1)"
    using apply_entry_db [of curated now e d r] by blast
  then show ?thesis
  proof cases
    case 1
    then show ?thesis
      using pulled_refl [OF assms] by simp
  next
    case 2
    have filled: "pulled ?own d d1"
      by (rule write_fill_pulled [OF 2(4) assms 2(1,2)]) (use 2(3) in simp_all)
    then obtain m1 where m1: "row_of d1 ?cid = Some m1" "mdl_id m1 = mdl_id m" "mdl_source m1 = SrcProvider"
      using pulled_same [OF filled 2(1)] 2(2) by (auto simp: pull_kept_def)
    have "pulled ?own d1 (insert_price (mdl_id m) p now d1)" for p
      using insert_price_pulled [OF pulled_wf [OF filled] m1(1,3), of ?own p now] 2(3) m1(2) by simp
    with filled 2(5) show ?thesis
      using pulled_trans by metis
  qed
qed

lemma apply_entries_pulled:
  "catalog_wf d \<Longrightarrow> pulled (\<lambda>c. c \<in> set curated) d (fst (snd (apply_entries curated clock n es (d, r))))"
proof (induction es arbitrary: n d r)
  case Nil
  then show ?case
    by (simp add: pulled_refl)
next
  case (Cons e es)
  obtain res d1 r1 where step: "apply_entry curated (clock n) e (d, r) = (res, d1, r1)"
    by (metis prod_cases3)
  have first: "pulled (\<lambda>c. c \<in> set curated) d d1"
    using apply_entry_pulled [OF Cons.prems, of curated "clock n" e r] step by simp
  show ?case
  proof (cases res)
    case (Inl err)
    then show ?thesis
      using first step by simp
  next
    case (Inr u)
    have "fst (snd (apply_entries curated clock n (e # es) (d, r))) = fst (snd (apply_entries curated clock (Suc n) es (d1, r1)))"
      by (simp add: step Inr)
    with pulled_trans [OF first Cons.IH [OF pulled_wf [OF first]]] show ?thesis
      by metis
  qed
qed

lemma scraped_pulled:
  assumes "catalog_wf d"
  shows "pulled (\<lambda>c. c \<in> set curated) d (snd (applyScrapedToCatalog curated clock scraped d))"
proof -
  let ?r = "\<lparr>sr_scraped = length scraped, sr_matched = 0, sr_capabilitiesUpdated = [], sr_specsUpdated = [], sr_pricingChanged = [],
    sr_skippedCurated = [], sr_unmatched = 0\<rparr>"
  obtain res d1 r where run: "apply_entries curated clock 0 scraped (d, ?r) = (res, d1, r)"
    by (metis prod_cases3)
  then have "snd (applyScrapedToCatalog curated clock scraped d) = d1"
    by (cases res) (simp_all add: applyScrapedToCatalog_def)
  with apply_entries_pulled [OF assms, of curated clock 0 scraped ?r] run show ?thesis
    by simp
qed

section \<open>A page read back\<close>

text \<open>A table as the pages carry it, of cells that are plain text.\<close>

definition cell_html :: "string \<Rightarrow> string \<Rightarrow> string" where
  "cell_html tag t = ''<'' @ tag @ ''>'' @ t @ ''</'' @ tag @ ''>''"

definition row_html :: "string \<Rightarrow> string list \<Rightarrow> string" where
  "row_html tag cells = ''<tr>'' @ concat (map (cell_html tag) cells) @ ''</tr>''"

definition table_html :: "html_table \<Rightarrow> string" where
  "table_html t =
     ''<table><thead>'' @ row_html ''th'' (ht_headers t) @ ''</thead><tbody>'' @ concat (map (row_html ''td'') (ht_rows t)) @ ''</tbody></table>''"

definition plain_text :: "string \<Rightarrow> bool" where
  "plain_text t \<longleftrightarrow> CHR ''<'' \<notin> set t \<and> CHR ''>'' \<notin> set t \<and> CHR ''&'' \<notin> set t \<and> tight t \<and> collapse t = t"

lemma remove_tags_plain: "CHR ''<'' \<notin> set s \<Longrightarrow> remove_tags n s = s"
proof (induction s arbitrary: n)
  case (Cons c s)
  then show ?case
    by (cases n) (auto simp: Let_def)
qed (case_tac n; simp)

lemma replace_plain: "CHR ''&'' \<notin> set s \<Longrightarrow> replace_text (CHR ''&'' # pat) rep n s = s"
proof (induction s arbitrary: n)
  case (Cons c s)
  then show ?case
    by (cases n) simp_all
qed (case_tac n; simp)

lemma stripTags_eq: "remove_tags (length html) html = s \<Longrightarrow> CHR ''&'' \<notin> set s \<Longrightarrow> stripTags html = trim (collapse s)"
  by (simp add: stripTags_def replace_every_def replace_plain)

lemma stripTags_plain: "plain_text t \<Longrightarrow> stripTags t = t"
  using stripTags_eq [OF remove_tags_plain] by (simp add: plain_text_def trim_tight)

text \<open>Stepping through a page: one character, plain text, a tag that is not the one looked for.\<close>

lemma lower_lt [simp]: "lower_char c = CHR ''<'' \<longleftrightarrow> c = CHR ''<''"
proof
  assume low: "lower_char c = CHR ''<''"
  show "c = CHR ''<''"
  proof (cases "(65 \<le> char_code c \<and> char_code c \<le> 90) \<or> (192 \<le> char_code c \<and> char_code c \<le> 222 \<and> char_code c \<noteq> 215)")
    case True
    then have "char_of (char_code c + 32) = CHR ''<''"
      using low by (simp add: lower_char_def Let_def)
    then have "of_char (char_of (char_code c + 32) :: char) = (of_char (CHR ''<'') :: nat)"
      by simp
    then have "(char_code c + 32) mod 256 = 60"
      by simp
    moreover have "(char_code c + 32) mod 256 = char_code c + 32"
      by (rule mod_less) (use True in linarith)
    ultimately show ?thesis
      using True by linarith
  next
    case False
    with low show ?thesis
      by (simp add: lower_char_def Let_def)
  qed
qed (simp add: lower_char_def char_code_def)

lemma starts_ci_other: "c \<noteq> CHR ''<'' \<Longrightarrow> \<not> starts_ci (CHR ''<'' # pat) (c # cs)"
  using lower_lt [of c] lower_lt [of "CHR ''<''"] by (auto simp: starts_ci_def to_lower_def simp del: lower_lt)

lemma find_ci_length: "find_ci pat s = Some (b, a) \<Longrightarrow> length a \<le> length s"
  by (induction s arbitrary: b) (auto split: if_splits)

lemma open_tag_length: "open_tag tag (c # cs) = Some (inner, rest) \<Longrightarrow> length rest \<le> length cs"
proof -
  assume "open_tag tag (c # cs) = Some (inner, rest)"
  then obtain x inner' where i: "dropWhile (\<lambda>x. x \<noteq> CHR ''>'') (drop (length tag + 1) (c # cs)) = x # inner'"
      "find_ci (''</'' @ tag @ ''>'') inner' = Some (inner, rest)"
    by (auto simp: open_tag_def split: if_splits list.splits)
  have "length (x # inner') \<le> length (drop (length tag) cs)"
    using i(1) length_dropWhile_le [of "\<lambda>x. x \<noteq> CHR ''>''" "drop (length tag) cs"] by simp
  with find_ci_length [OF i(2)] show ?thesis
    by simp
qed

lemma elements_fuel: "length s \<le> n \<Longrightarrow> elements tag n s = elements tag (length s) s"
proof (induction "length s" arbitrary: s n rule: less_induct)
  case less
  show ?case
  proof (cases s)
    case Nil
    then show ?thesis
      by (cases n) simp_all
  next
    case (Cons c cs)
    obtain k where n: "n = Suc k" "length cs \<le> k"
      using less.prems Cons by (cases n) simp_all
    show ?thesis
    proof (cases "open_tag tag (c # cs)")
      case None
      then show ?thesis
        using less.hyps [of cs k] Cons n by simp
    next
      case (Some p)
      obtain inner rest where p: "p = (inner, rest)"
        by (cases p)
      have "length rest \<le> length cs"
        using open_tag_length Some p by blast
      then show ?thesis
        using less.hyps [of rest k] less.hyps [of rest "length cs"] Cons n Some p by simp
    qed
  qed
qed

lemma elements_of_Nil [simp]: "elements_of tag [] = []"
  by (simp add: elements_of_def)

lemma elements_of_Cons:
  "elements_of tag (c # cs) =
     (case open_tag tag (c # cs) of Some (inner, rest) \<Rightarrow> inner # elements_of tag rest | None \<Rightarrow> elements_of tag cs)"
proof (cases "open_tag tag (c # cs)")
  case (Some p)
  obtain inner rest where p: "p = (inner, rest)"
    by (cases p)
  with Some have "length rest \<le> length cs"
    using open_tag_length by blast
  from elements_fuel [OF this, of tag] Some p show ?thesis
    by (simp add: elements_of_def)
qed (simp add: elements_of_def)

definition passes :: "string \<Rightarrow> string \<Rightarrow> bool" where
  "passes tag x \<longleftrightarrow> (\<forall>s. elements_of tag (x @ s) = elements_of tag s)"

definition keeps_open :: "string \<Rightarrow> string \<Rightarrow> bool" where
  "keeps_open pat x \<longleftrightarrow> (\<forall>s. find_ci pat (x @ s) = map_option (\<lambda>(b, a). (x @ b, a)) (find_ci pat s))"

lemma passes_append: "passes tag x \<Longrightarrow> passes tag y \<Longrightarrow> passes tag (x @ y)"
  by (simp add: passes_def)

lemma passes_concat: "(\<And>x. x \<in> set xs \<Longrightarrow> passes tag x) \<Longrightarrow> passes tag (concat xs)"
  by (induction xs) (auto simp: passes_append, simp add: passes_def)

lemma keeps_append: "keeps_open pat x \<Longrightarrow> keeps_open pat y \<Longrightarrow> keeps_open pat (x @ y)"
  by (simp add: keeps_open_def option.map_comp comp_def split_def)

lemma keeps_concat: "(\<And>x. x \<in> set xs \<Longrightarrow> keeps_open pat x) \<Longrightarrow> keeps_open pat (concat xs)"
proof (induction xs)
  case Nil
  then show ?case
    by (simp add: keeps_open_def split_def option.map_ident)
next
  case (Cons x xs)
  then show ?case
    by (simp add: keeps_append)
qed

lemma passes_plain: "CHR ''<'' \<notin> set t \<Longrightarrow> passes tag t"
  by (induction t) (auto simp: passes_def elements_of_Cons open_tag_def starts_ci_other)

lemma keeps_plain: "CHR ''<'' \<notin> set t \<Longrightarrow> keeps_open (CHR ''<'' # pat) t"
proof (induction t)
  case Nil
  then show ?case
    by (simp add: keeps_open_def split_def option.map_ident)
next
  case (Cons c t)
  then have "c \<noteq> CHR ''<''" "keeps_open (CHR ''<'' # pat) t"
    by auto
  then show ?case
    by (simp add: keeps_open_def starts_ci_other [OF \<open>c \<noteq> CHR ''<''\<close>] option.map_comp comp_def split_def)
qed

lemmas html_step = elements_of_Cons open_tag_def starts_ci_def to_lower_def lower_char_def char_code_def Let_def

lemma passes_tags:
  "passes ''th'' ''<tr>''" "passes ''th'' ''</tr>''" "passes ''th'' ''</th>''" "passes ''th'' ''</thead>''" "passes ''th'' ''<tbody>''"
  "passes ''th'' ''</tbody>''" "passes ''th'' ''<td>''" "passes ''th'' ''</td>''"
  "passes ''td'' ''<th>''" "passes ''td'' ''</th>''" "passes ''td'' ''</td>''"
  "passes ''tr'' ''<thead>''" "passes ''tr'' ''</thead>''" "passes ''tr'' ''</tr>''" "passes ''tr'' ''<tbody>''" "passes ''tr'' ''</tbody>''"
  "passes ''table'' ''</table>''"
  unfolding passes_def by (simp_all add: html_step)

lemma keeps_tags:
  "keeps_open ''</th>'' ''<tr>''" "keeps_open ''</th>'' ''<th>''"
  "keeps_open ''</td>'' ''<td>''"
  "keeps_open ''</tr>'' ''<th>''" "keeps_open ''</tr>'' ''</th>''" "keeps_open ''</tr>'' ''<td>''" "keeps_open ''</tr>'' ''</td>''"
  "keeps_open ''</table>'' ''<thead>''" "keeps_open ''</table>'' ''</thead>''" "keeps_open ''</table>'' ''<tbody>''"
  "keeps_open ''</table>'' ''</tbody>''" "keeps_open ''</table>'' ''<tr>''" "keeps_open ''</table>'' ''</tr>''"
  "keeps_open ''</table>'' ''<th>''" "keeps_open ''</table>'' ''</th>''" "keeps_open ''</table>'' ''<td>''" "keeps_open ''</table>'' ''</td>''"
  unfolding keeps_open_def by (simp_all add: html_step option.map_comp comp_def split_def)

lemma starts_ci_self: "starts_ci pat (pat @ s)"
  by (simp add: starts_ci_def starts_with_iff)

lemma find_here: "pat \<noteq> [] \<Longrightarrow> find_ci pat (pat @ s) = Some ([], s)"
  using starts_ci_self [of pat s] by (cases pat) simp_all

lemma find_close: "keeps_open pat x \<Longrightarrow> pat \<noteq> [] \<Longrightarrow> find_ci pat (x @ pat @ s) = Some (x, s)"
  by (simp add: keeps_open_def find_here)

lemma element:
  assumes "keeps_open (''</'' @ tag @ ''>'') inner" "CHR ''>'' \<notin> set tag"
  shows "elements_of tag (''<'' @ tag @ ''>'' @ inner @ ''</'' @ tag @ ''>'' @ s) = inner # elements_of tag s"
proof -
  let ?s = "''<'' @ tag @ ''>'' @ inner @ ''</'' @ tag @ ''>'' @ s"
  have "starts_ci (CHR ''<'' # tag) ?s"
    using starts_ci_self [of "CHR ''<'' # tag" "''>'' @ inner @ ''</'' @ tag @ ''>'' @ s"] by simp
  moreover have "dropWhile (\<lambda>x. x \<noteq> CHR ''>'') (drop (length tag + 1) ?s) = CHR ''>'' # inner @ ''</'' @ tag @ ''>'' @ s"
    by simp
  moreover have "find_ci (''</'' @ tag @ ''>'') (inner @ (''</'' @ tag @ ''>'') @ s) = Some (inner, s)"
    by (rule find_close [OF assms(1)]) simp
  ultimately have "open_tag tag ?s = Some (inner, s)"
    unfolding open_tag_def by simp
  then show ?thesis
    using elements_of_Cons [of tag "CHR ''<''" "tag @ ''>'' @ inner @ ''</'' @ tag @ ''>'' @ s"] by simp
qed

lemma element_cell:
  "keeps_open (''</'' @ tag @ ''>'') t \<Longrightarrow> CHR ''>'' \<notin> set tag \<Longrightarrow> elements_of tag (cell_html tag t @ s) = t # elements_of tag s"
  using element [of tag t s] by (simp add: cell_html_def)

lemma cell_tags: "cell_html ''td'' c = ''<td>'' @ c @ ''</td>''" "cell_html ''th'' c = ''<th>'' @ c @ ''</th>''"
  by (simp_all add: cell_html_def)

definition plain_cells :: "string list \<Rightarrow> bool" where
  "plain_cells cells \<longleftrightarrow> (\<forall>c\<in>set cells. plain_text c)"

lemma plain_lt: "plain_text t \<Longrightarrow> CHR ''<'' \<notin> set t"
  by (simp add: plain_text_def)

lemma cells_read:
  assumes "tag = ''td'' \<or> tag = ''th''" "plain_cells cells"
  shows "elements_of tag (concat (map (cell_html tag) cells) @ s) = cells @ elements_of tag s"
  using assms(2)
proof (induction cells)
  case (Cons c cells)
  then have "keeps_open (''</'' @ tag @ ''>'') c"
    using keeps_plain [OF plain_lt] by (simp add: plain_cells_def)
  from element_cell [OF this, of "concat (map (cell_html tag) cells) @ s"] Cons assms(1) show ?case
    by (auto simp: plain_cells_def)
qed simp

lemma cell_passes: "plain_text c \<Longrightarrow> passes ''th'' (cell_html ''td'' c) \<and> passes ''td'' (cell_html ''th'' c)"
  unfolding cell_tags by (intro conjI passes_append passes_tags passes_plain plain_lt)

lemma cell_keeps:
  assumes "plain_text c" "tag = ''td'' \<or> tag = ''th''"
  shows "keeps_open ''</tr>'' (cell_html tag c)" "keeps_open ''</table>'' (cell_html tag c)"
proof -
  have c: "keeps_open ''</tr>'' c" "keeps_open ''</table>'' c"
    using keeps_plain [OF plain_lt [OF assms(1)]] by simp_all
  have "keeps_open ''</tr>'' (''<td>'' @ c @ ''</td>'')" "keeps_open ''</tr>'' (''<th>'' @ c @ ''</th>'')"
    "keeps_open ''</table>'' (''<td>'' @ c @ ''</td>'')" "keeps_open ''</table>'' (''<th>'' @ c @ ''</th>'')"
    by (intro keeps_append keeps_tags c)+
  with assms(2) show "keeps_open ''</tr>'' (cell_html tag c)" "keeps_open ''</table>'' (cell_html tag c)"
    by (auto simp: cell_tags [symmetric] simp del: append.simps)
qed

lemma cells_keep:
  assumes "plain_cells cells" "tag = ''td'' \<or> tag = ''th''"
  shows "keeps_open ''</tr>'' (concat (map (cell_html tag) cells))" "keeps_open ''</table>'' (concat (map (cell_html tag) cells))"
  using assms cell_keeps by (auto intro!: keeps_concat simp: plain_cells_def)

lemma row_keeps: "plain_cells cells \<Longrightarrow> tag = ''td'' \<or> tag = ''th'' \<Longrightarrow> keeps_open ''</table>'' (row_html tag cells)"
  unfolding row_html_def by (intro keeps_append keeps_tags cells_keep(2))

lemma rows_read:
  assumes "\<forall>r\<in>set rows. plain_cells r"
  shows "elements_of ''tr'' (concat (map (row_html ''td'') rows) @ s) = map (\<lambda>r. concat (map (cell_html ''td'') r)) rows @ elements_of ''tr'' s"
  using assms
proof (induction rows)
  case (Cons r rows)
  have "keeps_open (''</'' @ ''tr'' @ ''>'') (concat (map (cell_html ''td'') r))"
    using cells_keep(1) [of r "''td''"] Cons.prems by simp
  from element [OF this, of "concat (map (row_html ''td'') rows) @ s"]
  have "elements_of ''tr'' (row_html ''td'' r @ concat (map (row_html ''td'') rows) @ s)
      = concat (map (cell_html ''td'') r) # elements_of ''tr'' (concat (map (row_html ''td'') rows) @ s)"
    by (simp add: row_html_def [of _ r])
  with Cons show ?case
    by simp
qed simp

text \<open>The first header: the expression for header cells also opens at the head of the table, and the markup it takes in is
  stripped.\<close>

lemma first_header:
  assumes "plain_text h"
  shows "elements_of ''th'' (''<thead><tr>'' @ cell_html ''th'' h @ s) = (''<tr><th>'' @ h) # elements_of ''th'' s"
proof -
  have "keeps_open ''</th>'' (''<tr>'' @ ''<th>'' @ h)"
    by (intro keeps_append keeps_tags keeps_plain plain_lt assms)
  from find_close [OF this, of s] have "find_ci ''</th>'' (''<tr>'' @ ''<th>'' @ h @ ''</th>'' @ s) = Some (''<tr><th>'' @ h, s)"
    by simp
  moreover have "starts_ci ''<th'' (''<thead><tr><th>'' @ h @ ''</th>'' @ s)"
    using starts_ci_self [of "''<th''" "''ead><tr><th>'' @ h @ ''</th>'' @ s"] by simp
  ultimately have "open_tag ''th'' (''<thead><tr><th>'' @ h @ ''</th>'' @ s) = Some (''<tr><th>'' @ h, s)"
    by (simp add: open_tag_def)
  then show ?thesis
    using elements_of_Cons [of "''th''" "CHR ''<''" "''thead><tr><th>'' @ h @ ''</th>'' @ s"] by (simp add: cell_tags)
qed

lemma trim_blank: "trim (CHR '' '' # s) = trim s" "trim '' '' = []" "trim [] = []"
  by (simp_all add: trim_def is_space_def char_code_def)

lemma collapse_lead: "is_space c \<Longrightarrow> trim (collapse (c # s)) = trim (collapse s)"
  by (cases s) (auto simp: trim_blank)

lemma strip_first: "plain_text h \<Longrightarrow> stripTags (''<tr><th>'' @ h) = h"
proof -
  assume h: "plain_text h"
  have "remove_tags (length (''<tr><th>'' @ h)) (''<tr><th>'' @ h) = '' '' @ '' '' @ h"
    using remove_tags_plain [OF plain_lt [OF h]] by simp
  moreover have "CHR ''&'' \<notin> set ('' '' @ '' '' @ h)"
    using h by (simp add: plain_text_def)
  ultimately have "stripTags (''<tr><th>'' @ h) = trim (collapse ('' '' @ '' '' @ h))"
    by (rule stripTags_eq)
  also have "\<dots> = trim (collapse h)"
    by (simp add: collapse_lead is_space_def char_code_def)
  finally show ?thesis
    using h by (simp add: plain_text_def trim_tight)
qed

definition plain_table :: "html_table \<Rightarrow> bool" where
  "plain_table t \<longleftrightarrow> ht_headers t \<noteq> [] \<and> ht_rows t \<noteq> [] \<and> plain_cells (ht_headers t) \<and> (\<forall>r\<in>set (ht_rows t). r \<noteq> [] \<and> plain_cells r)"

definition table_inner :: "html_table \<Rightarrow> string" where
  "table_inner t = ''<thead>'' @ row_html ''th'' (ht_headers t) @ ''</thead>'' @ ''<tbody>'' @ concat (map (row_html ''td'') (ht_rows t)) @ ''</tbody>''"

lemma rows_pass: "\<forall>r\<in>set rows. plain_cells r \<Longrightarrow> passes ''th'' (concat (map (row_html ''td'') rows))"
proof (rule passes_concat)
  fix x
  assume rows: "\<forall>r\<in>set rows. plain_cells r" "x \<in> set (map (row_html ''td'') rows)"
  then obtain r where r: "plain_cells r" "x = ''<tr>'' @ concat (map (cell_html ''td'') r) @ ''</tr>''"
    by (auto simp: row_html_def)
  have "passes ''th'' (concat (map (cell_html ''td'') r))"
    using r(1) by (intro passes_concat) (auto simp: cell_passes plain_cells_def)
  then show "passes ''th'' x"
    unfolding r(2) by (intro passes_append passes_tags)
qed

lemma strip_cells: "plain_cells cells \<Longrightarrow> map stripTags cells = cells"
  by (rule map_idI) (simp add: plain_cells_def stripTags_plain)

lemma table_read:
  assumes "plain_table t"
  shows "read_table (table_inner t) = t"
proof -
  obtain h hs where hs: "ht_headers t = h # hs" "plain_text h" "plain_cells hs"
    using assms by (cases "ht_headers t") (auto simp: plain_table_def plain_cells_def)
  have rows: "\<forall>r\<in>set (ht_rows t). plain_cells r" "\<forall>r\<in>set (ht_rows t). r \<noteq> []"
    using assms by (simp_all add: plain_table_def)
  let ?body = "concat (map (row_html ''td'') (ht_rows t))"
  have pass_th: "passes ''th'' (''</tr>'' @ ''</thead>'' @ ''<tbody>'' @ ?body @ ''</tbody>'')"
    by (intro passes_append passes_tags rows_pass rows)
  have "elements_of ''th'' (table_inner t) = (''<tr><th>'' @ h) # hs"
    using first_header [OF hs(2), of "concat (map (cell_html ''th'') hs) @ ''</tr>'' @ ''</thead>'' @ ''<tbody>'' @ ?body @ ''</tbody>''"]
      cells_read [of "''th''" hs "''</tr>'' @ ''</thead>'' @ ''<tbody>'' @ ?body @ ''</tbody>''"] hs(1,3)
      pass_th [unfolded passes_def, rule_format, of "[]"]
    by (simp add: table_inner_def row_html_def)
  then have headers: "map stripTags (elements_of ''th'' (table_inner t)) = ht_headers t"
    using hs strip_first strip_cells by simp
  have "keeps_open (''</'' @ ''tr'' @ ''>'') (concat (map (cell_html ''th'') (h # hs)))"
    using cells_keep(1) [of "h # hs" "''th''"] hs by (simp add: plain_cells_def)
  from element [OF this, of "''</thead>'' @ ''<tbody>'' @ ?body @ ''</tbody>''"]
  have "elements_of ''tr'' (row_html ''th'' (h # hs) @ ''</thead>'' @ ''<tbody>'' @ ?body @ ''</tbody>'')
      = concat (map (cell_html ''th'') (h # hs)) # elements_of ''tr'' (''</thead>'' @ ''<tbody>'' @ ?body @ ''</tbody>'')"
    by (simp add: row_html_def)
  moreover have "elements_of ''tr'' (''</thead>'' @ ''<tbody>'' @ ?body @ ''</tbody>'') = map (\<lambda>r. concat (map (cell_html ''td'') r)) (ht_rows t)"
    using rows_read [OF rows(1), of "''</tbody>''"] passes_tags unfolding passes_def by (metis append_Nil2 elements_of_Nil)
  moreover have "elements_of ''tr'' (table_inner t)
      = elements_of ''tr'' (row_html ''th'' (h # hs) @ ''</thead>'' @ ''<tbody>'' @ ?body @ ''</tbody>'')"
    unfolding table_inner_def hs(1) using passes_tags unfolding passes_def by metis
  ultimately have trs: "elements_of ''tr'' (table_inner t)
      = concat (map (cell_html ''th'') (h # hs)) # map (\<lambda>r. concat (map (cell_html ''td'') r)) (ht_rows t)"
    by simp
  have "passes ''td'' (concat (map (cell_html ''th'') (h # hs)))"
    using hs by (intro passes_concat) (auto simp: cell_passes plain_cells_def)
  from this [unfolded passes_def, rule_format, of "[]"] have none: "elements_of ''td'' (concat (map (cell_html ''th'') (h # hs))) = []"
    by simp
  have "map stripTags (elements_of ''td'' (concat (map (cell_html ''td'') r))) = r" if "r \<in> set (ht_rows t)" for r
    using cells_read [of "''td''" r "[]"] strip_cells rows(1) that by simp
  then have "map (\<lambda>tr. map stripTags (elements_of ''td'' tr)) (elements_of ''tr'' (table_inner t)) = [] # ht_rows t"
    using none unfolding trs by (simp only: list.map map_map comp_def) (simp add: map_idI)
  then have "filter (\<lambda>cells. cells \<noteq> []) (map (\<lambda>tr. map stripTags (elements_of ''td'' tr)) (elements_of ''tr'' (table_inner t))) = ht_rows t"
    using rows(2) by simp
  with headers show ?thesis
    by (simp add: read_table_def)
qed

lemma tables_found:
  "\<forall>(p, t)\<in>set pts. CHR ''<'' \<notin> set p \<and> plain_table t
    \<Longrightarrow> elements_of ''table'' (concat (map (\<lambda>(p, t). p @ table_html t) pts)) = map (\<lambda>(p, t). table_inner t) pts"
proof (induction pts)
  case (Cons pt pts)
  obtain p t where pt: "pt = (p, t)"
    by (cases pt)
  let ?rest = "concat (map (\<lambda>(p, t). p @ table_html t) pts)"
  have t: "plain_cells (ht_headers t)" "\<forall>r\<in>set (ht_rows t). plain_cells r"
    using Cons.prems pt by (simp_all add: plain_table_def)
  have "keeps_open ''</table>'' (table_inner t)"
    unfolding table_inner_def using t by (intro keeps_append keeps_tags keeps_concat row_keeps) (auto intro!: row_keeps)
  then have "keeps_open (''</'' @ ''table'' @ ''>'') (table_inner t)"
    by simp
  from element [OF this, of ?rest] have "elements_of ''table'' (table_html t @ ?rest) = table_inner t # elements_of ''table'' ?rest"
    by (simp add: table_html_def table_inner_def)
  moreover have "elements_of ''table'' (p @ table_html t @ ?rest) = elements_of ''table'' (table_html t @ ?rest)"
    using passes_plain [of p "''table''"] Cons.prems pt by (simp add: passes_def)
  ultimately show ?case
    using Cons pt by simp
qed simp

section \<open>Properties\<close>

text \<open>
  C36. The documentation scraper reads back what a page says: from a page that carries tables with a head and a body, of cells of
  plain text, between any text without markup, it extracts exactly these tables, headers and cells, in order, although
  the expression for header cells also matches the head of a table.
\<close>

theorem docs_tables_read_back:
  assumes "\<forall>(p, t)\<in>set pts. CHR ''<'' \<notin> set p \<and> plain_table t"
  shows "extractTables (concat (map (\<lambda>(p, t). p @ table_html t) pts)) = map snd pts"
proof -
  have "map read_table (map (\<lambda>(p, t). table_inner t) pts) = map snd pts"
    using assms table_read by auto
  moreover have "filter (\<lambda>t. ht_headers t \<noteq> [] \<and> ht_rows t \<noteq> []) (map snd pts) = map snd pts"
    using assms by (intro filter_True) (force simp: plain_table_def)
  ultimately show ?thesis
    unfolding extractTables_def tables_found [OF assms] by (simp only:)
qed

definition ex_table :: html_table where
  "ex_table = \<lparr>ht_headers = [''Model'', ''Model ID''], ht_rows = [[''Kimi K3'', ''kimi-k3''], [''a'', []]]\<rparr>"

theorem docs_tables_read_back_witness:
  "extractTables (''Prices > 0 '' @ table_html ex_table @ '' and '' @ table_html ex_table) = [ex_table, ex_table]"
proof -
  have "plain_table ex_table"
    by (simp add: plain_table_def ex_table_def plain_cells_def plain_text_def tight_def is_space_def char_code_def)
  then have "\<forall>(p, t)\<in>set [(''Prices > 0 '', ex_table), ('' and '', ex_table)]. CHR ''<'' \<notin> set p \<and> plain_table t"
    by simp
  from docs_tables_read_back [OF this] show ?thesis
    by simp
qed

text \<open>An escaped ampersand is decoded before the other entities, so a cell that shows an entity is decoded twice.\<close>

lemma entity_decoded_twice: "stripTags ''&amp;lt;'' = ''<''"
  by code_simp

end
