(* ===== verification/Refresh.thy ===== *)
theory Refresh
  imports Do_Docs Policy_Save Json_Roundtrip
begin

text \<open>
  The passes over the catalog: \<^verbatim>\<open>src/src/catalog/refresh.ts\<close> pulls model lists and prices from every linked provider,
  \<^verbatim>\<open>src/src/catalog/scheduler.ts\<close> runs it before the vendored synchronisation and raises the alerts. The outside world is
  the record \<open>refresh_env\<close>; \<open>rv_now n\<close> is the clock when \<open>n\<close> audit rows are written. What is only logged is left out.
\<close>

section \<open>The provider refresh\<close>

record refresh_env =
  rv_get :: json_net
  rv_fetch :: text_net
  rv_getApiKey :: "string \<Rightarrow> (string, string option) result"
  rv_readFile :: "string \<Rightarrow> string \<Rightarrow> string option"
  rv_missing :: "string \<Rightarrow> string"
  rv_roots :: "string list"
  rv_sha256 :: "string \<Rightarrow> string"
  rv_ids :: "db \<Rightarrow> nat \<Rightarrow> string"
  rv_now :: "nat \<Rightarrow> int"
  rv_docsClock :: "nat \<Rightarrow> int"
  rv_dateOk :: "string \<Rightarrow> bool"

record refresh_options =
  ro_firmId :: "string option"
  ro_userId :: "string option"
  ro_pricingFeedUrl :: "string option"

record refresh_report =
  rf_providers :: "discover_result list"
  rf_failed :: "(string \<times> string) list"
  rf_doDocs :: "scrape_report option"
  rf_livePricing :: "pricing_report option"
  rf_pricingErrors :: "string list"

definition reasonOf :: "string \<Rightarrow> string" where
  "reasonOf msg = take 200 msg"

definition MAX_FEED_BYTES :: nat where
  "MAX_FEED_BYTES = 32 * 1024 * 1024"

definition fetchPricingFeed :: "text_net \<Rightarrow> string \<Rightarrow> (string, string) result" where
  "fetchPricingFeed fetch url =
     rbind (fetch url [(''accept'', ''application/json'')])
       (\<lambda>(st, t). if \<not> (200 \<le> st \<and> st \<le> 299) then Inl (''pricing feed fetch failed: HTTP '' @ show_int st)
                  else if length t > MAX_FEED_BYTES then Inl ''pricing feed fetch failed: payload too large'' else Inr t)"

text \<open>An audit row of the catalog; \<open>.catch(() => {})\<close> swallows a refusal.\<close>

definition catalog_entry :: "string \<Rightarrow> string \<Rightarrow> string option \<Rightarrow> string option \<Rightarrow> (string \<times> json) list \<Rightarrow> audit_entry" where
  "catalog_entry firmId event tcKey mdl det =
     \<lparr>ae_firmId = firmId, ae_event = event, ae_app = None, ae_taskClass = tcKey, ae_model = mdl, ae_provider = None,
      ae_requestHash = None, ae_detail = det\<rparr>"

definition audit_at :: "refresh_env \<Rightarrow> string option \<Rightarrow> audit_entry \<Rightarrow> admin_state \<Rightarrow> (thrown, unit) result \<times> admin_state" where
  "audit_at env userId e st =
     (let (res, rows) = writeAudit EVENT_SCHEMAS (rv_now env (length (ad_audit st))) userId e (ad_audit st)
      in (res, st\<lparr>ad_audit := rows\<rparr>))"

definition audit_quiet :: "refresh_env \<Rightarrow> string option \<Rightarrow> audit_entry \<Rightarrow> admin_state \<Rightarrow> admin_state" where
  "audit_quiet env userId e st = snd (audit_at env userId e st)"

definition strings_json :: "string list \<Rightarrow> json" where
  "strings_json ss = JArr (map JStr ss)"

definition count_json :: "nat \<Rightarrow> json" where
  "count_json n = JNum (of_nat n)"

definition linked_providers :: "string option \<Rightarrow> db \<Rightarrow> provider_row list" where
  "linked_providers firmId d =
     filter (\<lambda>p. isDiscoverableKind (prv_kind p) \<and> prv_deletedAt p = None
               \<and> (case given firmId of None \<Rightarrow> True | Some f \<Rightarrow> prv_firmId p = f)) (providers d)"

definition discovered_detail :: "provider_row \<Rightarrow> discover_result \<Rightarrow> (string \<times> json) list" where
  "discovered_detail p r =
     [(''providerId'', JStr (prv_id p)), (''providerLabel'', JStr (prv_label p)), (''discovered'', strings_json (ds_discovered r)),
      (''alreadyKnown'', count_json (ds_alreadyKnown r))]"

text \<open>One provider: the key, the discovery, its audit row; a failure is reported and the next one is tried.\<close>

definition refresh_provider ::
    "refresh_env \<Rightarrow> refresh_options \<Rightarrow> string list option \<Rightarrow> provider_row \<Rightarrow> admin_state \<times> refresh_report \<times> provider_kind list
      \<Rightarrow> admin_state \<times> refresh_report \<times> provider_kind list" where
  "refresh_provider env opts curated p s =
     (let (st, r, reached) = s
      in case rv_getApiKey env (prv_id p) of
           Inl e \<Rightarrow> (st, r\<lparr>rf_failed := rf_failed r @ [(prv_label p, reasonOf e)]\<rparr>, reached)
         | Inr key \<Rightarrow>
             (case discoverProviderModels (rv_get env) (\<lambda>d. rv_ids env d 0) curated p key (ad_db st) of
                (Inl e, d1) \<Rightarrow> (st\<lparr>ad_db := d1\<rparr>, r\<lparr>rf_failed := rf_failed r @ [(prv_label p, reasonOf e)]\<rparr>, reached)
              | (Inr res, d1) \<Rightarrow>
                  (let st1 = st\<lparr>ad_db := d1\<rparr>
                   in (if ds_discovered res = [] then st1
                       else audit_quiet env (ro_userId opts)
                              (catalog_entry (prv_firmId p) ''provider_models_discovered'' None None (discovered_detail p res)) st1,
                       r\<lparr>rf_providers := rf_providers r @ [res]\<rparr>, reached @ [prv_kind p]))))"

definition docs_detail :: "scrape_report \<Rightarrow> (string \<times> json) list" where
  "docs_detail r =
     [(''source'', JStr ''docs.digitalocean.com''), (''scraped'', count_json (sr_scraped r)), (''matched'', count_json (sr_matched r)),
      (''capabilitiesUpdated'', count_json (length (sr_capabilitiesUpdated r))), (''specsUpdated'', count_json (length (sr_specsUpdated r))),
      (''pricingChanged'', count_json (length (sr_pricingChanged r))), (''skippedCurated'', count_json (length (sr_skippedCurated r))),
      (''unmatched'', count_json (sr_unmatched r))]"

definition refresh_docs ::
    "refresh_env \<Rightarrow> refresh_options \<Rightarrow> string list \<Rightarrow> string option \<Rightarrow> admin_state \<times> refresh_report \<Rightarrow> admin_state \<times> refresh_report" where
  "refresh_docs env opts curated auditFirm s =
     (let (st, r) = s; failed = (\<lambda>e. r\<lparr>rf_pricingErrors := rf_pricingErrors r @ [''DigitalOcean docs: '' @ reasonOf e]\<rparr>)
      in case scrapeDoDocs (fetchDocsPage (rv_fetch env)) of
           Inl e \<Rightarrow> (st, failed e)
         | Inr scraped \<Rightarrow>
             (case applyScrapedToCatalog curated (rv_docsClock env) scraped (ad_db st) of
                (Inl e, d1) \<Rightarrow> (st\<lparr>ad_db := d1\<rparr>, failed e)
              | (Inr docs, d1) \<Rightarrow>
                  (let st1 = st\<lparr>ad_db := d1\<rparr>;
                       anyChange = (length (sr_capabilitiesUpdated docs) + length (sr_specsUpdated docs) + length (sr_pricingChanged docs) > 0)
                   in (case (anyChange, given auditFirm) of
                         (True, Some f) \<Rightarrow>
                           audit_quiet env (ro_userId opts) (catalog_entry f ''catalog_docs_scraped'' None None (docs_detail docs)) st1
                       | _ \<Rightarrow> st1, r\<lparr>rf_doDocs := Some docs\<rparr>))))"

definition live_detail :: "string \<Rightarrow> pricing_report \<Rightarrow> (string \<times> json) list" where
  "live_detail url r =
     [(''source'', JStr (take 300 url)), (''sourceSha256'', JStr (lp_sourceSha256 r)), (''candidates'', count_json (lp_candidates r)),
      (''matched'', count_json (lp_matched r)), (''pricingChanged'', strings_json (take 200 (lp_pricingChanged r))),
      (''specsUpdated'', strings_json (take 200 (lp_specsUpdated r)))]"

definition refresh_prices ::
    "refresh_env \<Rightarrow> refresh_options \<Rightarrow> string list \<Rightarrow> string option \<Rightarrow> string \<Rightarrow> admin_state \<times> refresh_report \<Rightarrow> admin_state \<times> refresh_report" where
  "refresh_prices env opts curated auditFirm url s =
     (let (st, r) = s; failed = (\<lambda>e. r\<lparr>rf_pricingErrors := rf_pricingErrors r @ [''pricing feed: '' @ reasonOf e]\<rparr>)
      in case fetchPricingFeed (rv_fetch env) url of
           Inl e \<Rightarrow> (st, failed e)
         | Inr text \<Rightarrow>
             (case applyLivePricing (rv_sha256 env) curated (rv_now env (length (ad_audit st))) text (ad_db st) of
                (Inl e, d1) \<Rightarrow> (st\<lparr>ad_db := d1\<rparr>, failed e)
              | (Inr live, d1) \<Rightarrow>
                  (let st1 = st\<lparr>ad_db := d1\<rparr>
                   in (case (length (lp_pricingChanged live) + length (lp_specsUpdated live) > 0, given auditFirm) of
                         (True, Some f) \<Rightarrow>
                           audit_quiet env (ro_userId opts) (catalog_entry f ''catalog_live_pricing_applied'' None None (live_detail url live)) st1
                       | _ \<Rightarrow> st1, r\<lparr>rf_livePricing := Some live\<rparr>))))"

definition refreshProviderCatalog :: "refresh_env \<Rightarrow> refresh_options \<Rightarrow> admin_state \<Rightarrow> refresh_report \<times> admin_state" where
  "refreshProviderCatalog env opts st =
     (let r0 = \<lparr>rf_providers = [], rf_failed = [], rf_doDocs = None, rf_livePricing = None, rf_pricingErrors = []\<rparr>;
          loaded = loadCuratedIds (rv_readFile env) (rv_missing env) (rv_roots env);
          curated = (case loaded of Inl _ \<Rightarrow> None | Inr ids \<Rightarrow> Some ids);
          r1 = (case loaded of
                  Inl e \<Rightarrow> r0\<lparr>rf_pricingErrors := [''vendored feed unreadable; pricing refresh skipped ('' @ reasonOf e @ '')'']\<rparr>
                | Inr _ \<Rightarrow> r0);
          linked = linked_providers (ro_firmId opts) (ad_db st);
          (st1, r2, reached) = fold (refresh_provider env opts curated) linked (st, r1, []);
          auditFirm = (case ro_firmId opts of Some f \<Rightarrow> Some f | None \<Rightarrow> (case linked of [] \<Rightarrow> None | p # _ \<Rightarrow> Some (prv_firmId p)))
      in case curated of
           None \<Rightarrow> (r2, st1)
         | Some ids \<Rightarrow>
             (let (st2, r3) = (if digitalocean \<in> set reached then refresh_docs env opts ids auditFirm (st1, r2) else (st1, r2));
                  (st3, r4) = (case given (ro_pricingFeedUrl opts) of
                                 Some url \<Rightarrow> if anthropic \<in> set reached then refresh_prices env opts ids auditFirm url (st2, r3) else (st2, r3)
                               | None \<Rightarrow> (st2, r3))
              in (r4, st3)))"

section \<open>The nightly run\<close>

definition SYNC_SOURCE :: string where
  "SYNC_SOURCE = ''vendored:litellm''"

definition firmIdForAudit :: "db \<Rightarrow> string option" where
  "firmIdForAudit d = (case firms d of [] \<Rightarrow> None | f # _ \<Rightarrow> Some (firm_id f))"

fun status_text :: "model_status \<Rightarrow> string" where
  "status_text MActive = ''active''"
| "status_text MDeprecated = ''deprecated''"
| "status_text MSunset = ''sunset''"

fun reference_text :: "reference_role \<Rightarrow> string" where
  "reference_text RefDefault = ''default''"
| "reference_text RefAllowed = ''allowed''"
| "reference_text RefFallback = ''fallback''"

definition deprecation_entry :: "db \<Rightarrow> retired_reference \<Rightarrow> audit_entry" where
  "deprecation_entry d ref =
     (let key = (case class_by_id d (rr_taskClassId ref) of None \<Rightarrow> rr_taskClassId ref | Some t \<Rightarrow> tcl_key t)
      in catalog_entry (rr_firmId ref) ''model_deprecation_warning'' (Some key) (Some (rr_canonicalId ref))
           [(''policyId'', JStr (rr_policyId ref)), (''taskClass'', JStr key), (''modelCanonicalId'', JStr (rr_canonicalId ref)),
            (''modelStatus'', JStr (status_text (rr_status ref))), (''role'', JStr (reference_text (rr_role ref)))])"

text \<open>Audits that are not caught: the first refusal ends the pass.\<close>

fun audit_all :: "refresh_env \<Rightarrow> audit_entry list \<Rightarrow> admin_state \<Rightarrow> (thrown, unit) result \<times> admin_state" where
  "audit_all env [] st = (Inr (), st)"
| "audit_all env (e # es) st =
     (case audit_at env None e st of
        (Inl x, st1) \<Rightarrow> (Inl x, st1)
      | (Inr _, st1) \<Rightarrow> audit_all env es st1)"

definition runDeprecationAlerts :: "refresh_env \<Rightarrow> admin_state \<Rightarrow> (thrown, nat) result \<times> admin_state" where
  "runDeprecationAlerts env st =
     (let refs = findRetiredModelReferences (ad_db st)
      in case audit_all env (map (deprecation_entry (ad_db st)) refs) st of
           (Inl x, st1) \<Rightarrow> (Inl x, st1)
         | (Inr _, st1) \<Rightarrow> (Inr (length refs), st1))"

definition unacknowledged_entry :: "unacknowledged_binding \<Rightarrow> audit_entry" where
  "unacknowledged_entry u =
     catalog_entry (ub_firmId u) ''third_party_binding_unacknowledged'' (Some (ub_taskClassKey u)) None
       [(''policyId'', JStr (ub_policyId u)), (''taskClass'', JStr (ub_taskClassKey u)), (''models'', strings_json (take 50 (ub_models u)))]"

definition invalid_entry :: "invalid_binding \<Rightarrow> audit_entry" where
  "invalid_entry b =
     catalog_entry (ib_firmId b) ''policy_binding_invalid'' (Some (ib_taskClassKey b)) (Some (ib_model b))
       [(''policyId'', JStr (ib_policyId b)), (''taskClass'', JStr (ib_taskClassKey b)), (''modelCanonicalId'', JStr (ib_model b)),
        (''reason'', JStr (take 300 (ib_reason b)))]"

definition runPolicyHealthAlerts :: "refresh_env \<Rightarrow> admin_state \<Rightarrow> (nat \<times> nat) \<times> admin_state" where
  "runPolicyHealthAlerts env st =
     (let us = findUnacknowledgedThirdPartyBindings (ad_db st); bs = findInvalidBindings (ad_db st)
      in ((length us, length bs),
          fold (\<lambda>e. audit_quiet env None e) (map unacknowledged_entry us @ map invalid_entry bs) st))"

definition sync_detail :: "string \<Rightarrow> diff_report \<Rightarrow> (string \<times> json) list" where
  "sync_detail sha r =
     [(''source'', JStr SYNC_SOURCE), (''sourceSha256'', JStr sha), (''added'', count_json (length (dr_added r))),
      (''updated'', count_json (length (dr_updated r))), (''pricingChanged'', count_json (length (dr_pricingChanged r))),
      (''deprecated'', count_json (length (dr_deprecated r))), (''skipped'', count_json (length (dr_skipped r))),
      (''unchanged'', count_json (dr_unchanged r))]"

text \<open>The part inside the \<open>try\<close>: the report, or what is thrown.\<close>

definition sync_pass :: "refresh_env \<Rightarrow> (admin_state \<Rightarrow> admin_state) \<Rightarrow> string option \<Rightarrow> admin_state \<Rightarrow> (string, diff_report) result \<times> admin_state" where
  "sync_pass env onSuccess firmId st =
     (case loadVendoredFeed (rv_readFile env) (rv_missing env) (rv_roots env) (rv_sha256 env) of
        Inl e \<Rightarrow> (Inl e, st)
      | Inr (feed, sha) \<Rightarrow>
          (let (d1, r) = syncCatalog (rv_dateOk env) (rv_ids env (ad_db st)) (rv_now env (length (ad_audit st))) feed (ad_db st);
               st1 = st\<lparr>ad_db := d1\<rparr>;
               (res, st2) = (case given firmId of
                               None \<Rightarrow> (Inr (), st1)
                             | Some f \<Rightarrow> audit_at env None (catalog_entry f ''catalog_sync_completed'' None None (sync_detail sha r)) st1)
           in case res of
                Inl x \<Rightarrow> (Inl ''audit refused'', st2)
              | Inr _ \<Rightarrow>
                  (case runDeprecationAlerts env st2 of
                     (Inl x, st3) \<Rightarrow> (Inl ''audit refused'', st3)
                   | (Inr _, st3) \<Rightarrow> (Inr r, onSuccess (snd (runPolicyHealthAlerts env st3))))))"

text \<open>The state the synchronisation starts from: after the provider refresh, when a key resolver is given.\<close>

definition night_start :: "refresh_env \<Rightarrow> bool \<Rightarrow> string option \<Rightarrow> admin_state \<Rightarrow> admin_state" where
  "night_start env withKeys feedUrl st =
     (if withKeys then snd (refreshProviderCatalog env \<lparr>ro_firmId = None, ro_userId = None, ro_pricingFeedUrl = given feedUrl\<rparr> st)
      else st)"

definition runCatalogSync ::
    "refresh_env \<Rightarrow> bool \<Rightarrow> string option \<Rightarrow> (admin_state \<Rightarrow> admin_state) \<Rightarrow> admin_state \<Rightarrow> diff_report option \<times> admin_state" where
  "runCatalogSync env withKeys feedUrl onSuccess st =
     (let firmId = firmIdForAudit (ad_db st);
          st1 = night_start env withKeys feedUrl st
      in case sync_pass env onSuccess firmId st1 of
           (Inr r, st2) \<Rightarrow> (Some r, st2)
         | (Inl e, st2) \<Rightarrow>
             (None, case given firmId of
                      None \<Rightarrow> st2
                    | Some f \<Rightarrow> audit_quiet env None (catalog_entry f ''catalog_sync_failed'' None None
                                  [(''source'', JStr SYNC_SOURCE), (''reason'', JStr (take 500 e))]) st2))"

section \<open>What the passes keep\<close>

lemma audit_at_db [simp]: "ad_db (snd (audit_at env u e st)) = ad_db st" "ad_engine (snd (audit_at env u e st)) = ad_engine st"
  by (simp_all add: audit_at_def split: prod.splits)

lemma audit_quiet_db [simp]: "ad_db (audit_quiet env u e st) = ad_db st" "ad_engine (audit_quiet env u e st) = ad_engine st"
  by (simp_all add: audit_quiet_def)

definition env_ok :: "refresh_env \<Rightarrow> bool" where
  "env_ok env \<longleftrightarrow> (\<forall>d k. rv_ids env d k \<notin> mdl_id ` set (models d)) \<and> (\<forall>d. inj (rv_ids env d))"

lemma env_fresh: "env_ok env \<Longrightarrow> fresh_ids (\<lambda>d. rv_ids env d 0)"
  by (simp add: env_ok_def fresh_ids_def)

lemma curated_has_Some: "curated_has (Some ids) = (\<lambda>c. c \<in> set ids)"
  by (simp add: curated_has_def fun_eq_iff)

definition refresh_ok :: "string list option \<Rightarrow> admin_state \<Rightarrow> admin_state \<Rightarrow> bool" where
  "refresh_ok curated st st' \<longleftrightarrow> pulled (curated_has curated) (ad_db st) (ad_db st') \<and> ad_engine st' = ad_engine st"

lemma refresh_ok_trans: "refresh_ok c a b \<Longrightarrow> refresh_ok c b d \<Longrightarrow> refresh_ok c a d"
  unfolding refresh_ok_def using pulled_trans by metis

lemma refresh_ok_wf: "refresh_ok c a b \<Longrightarrow> catalog_wf (ad_db b)"
  using pulled_wf by (auto simp: refresh_ok_def)

lemma refresh_ok_refl: "catalog_wf (ad_db st) \<Longrightarrow> refresh_ok c st st"
  by (simp add: refresh_ok_def pulled_refl)

lemma provider_refreshed:
  assumes "env_ok env" "catalog_wf (ad_db st)" "refresh_provider env opts curated p (st, r, reached) = (st', r', reached')"
  shows "refresh_ok curated st st' \<and> length (rf_providers r') + length (rf_failed r') = Suc (length (rf_providers r) + length (rf_failed r))"
proof (cases "rv_getApiKey env (prv_id p)")
  case (Inl e)
  then show ?thesis
    using assms by (auto simp: refresh_provider_def refresh_ok_refl)
next
  case (Inr key)
  obtain res d1 where run: "discoverProviderModels (rv_get env) (\<lambda>d. rv_ids env d 0) curated p key (ad_db st) = (res, d1)"
    by fastforce
  have "pulled (curated_has curated) (ad_db st) d1"
    using discover_pulled [OF env_fresh [OF assms(1)] assms(2)] run by (metis snd_conv)
  then show ?thesis
    using assms(3) Inr run by (cases res) (auto simp: refresh_provider_def refresh_ok_def Let_def)
qed

lemma providers_refreshed:
  assumes "env_ok env" "catalog_wf (ad_db st)" "fold (refresh_provider env opts curated) ps (st, r, reached) = (st', r', reached')"
  shows "refresh_ok curated st st' \<and> length (rf_providers r') + length (rf_failed r') = length ps + length (rf_providers r) + length (rf_failed r)"
  using assms(2,3)
proof (induction ps arbitrary: st r reached)
  case Nil
  then show ?case
    by (simp add: refresh_ok_refl)
next
  case (Cons p ps)
  obtain st1 r1 reached1 where step: "refresh_provider env opts curated p (st, r, reached) = (st1, r1, reached1)"
    by (metis prod_cases3)
  note one = provider_refreshed [OF assms(1) Cons.prems(1) step]
  have "fold (refresh_provider env opts curated) ps (st1, r1, reached1) = (st', r', reached')"
    using Cons.prems(2) step by simp
  from Cons.IH [OF refresh_ok_wf [OF conjunct1 [OF one]] this] one show ?case
    using refresh_ok_trans by auto
qed

lemma docs_refreshed:
  assumes "catalog_wf (ad_db st)" "refresh_docs env opts ids auditFirm (st, r) = (st', r')"
  shows "refresh_ok (Some ids) st st' \<and> rf_providers r' = rf_providers r \<and> rf_failed r' = rf_failed r"
proof (cases "scrapeDoDocs (fetchDocsPage (rv_fetch env))")
  case (Inl e)
  then show ?thesis
    using assms by (auto simp: refresh_docs_def refresh_ok_refl)
next
  case (Inr scraped)
  obtain res d1 where run: "applyScrapedToCatalog ids (rv_docsClock env) scraped (ad_db st) = (res, d1)"
    by fastforce
  have "pulled (curated_has (Some ids)) (ad_db st) d1"
    using scraped_pulled [OF assms(1), of ids "rv_docsClock env" scraped] run by (simp add: curated_has_Some)
  then show ?thesis
    using assms(2) Inr run by (cases res) (auto simp: refresh_docs_def refresh_ok_def Let_def split: option.splits bool.splits)
qed

lemma prices_refreshed:
  assumes "catalog_wf (ad_db st)" "refresh_prices env opts ids auditFirm url (st, r) = (st', r')"
  shows "refresh_ok (Some ids) st st' \<and> rf_providers r' = rf_providers r \<and> rf_failed r' = rf_failed r"
proof (cases "fetchPricingFeed (rv_fetch env) url")
  case (Inl e)
  then show ?thesis
    using assms by (auto simp: refresh_prices_def refresh_ok_refl)
next
  case (Inr body)
  obtain res d1 where run: "applyLivePricing (rv_sha256 env) ids (rv_now env (length (ad_audit st))) body (ad_db st) = (res, d1)"
    by fastforce
  have "pulled (curated_has (Some ids)) (ad_db st) d1"
    using live_pricing_pulled [OF assms(1), of ids "rv_sha256 env" "rv_now env (length (ad_audit st))" body] run
    by (simp add: curated_has_Some)
  then show ?thesis
    using assms(2) Inr run by (cases res) (auto simp: refresh_prices_def refresh_ok_def Let_def split: option.splits bool.splits)
qed

definition curated_of :: "refresh_env \<Rightarrow> string list option" where
  "curated_of env = (case loadCuratedIds (rv_readFile env) (rv_missing env) (rv_roots env) of Inl _ \<Rightarrow> None | Inr ids \<Rightarrow> Some ids)"

lemma catalog_refreshed:
  assumes "env_ok env" "catalog_wf (ad_db st)"
  shows "refresh_ok (curated_of env) st (snd (refreshProviderCatalog env opts st))
    \<and> length (rf_providers (fst (refreshProviderCatalog env opts st))) + length (rf_failed (fst (refreshProviderCatalog env opts st)))
      = length (linked_providers (ro_firmId opts) (ad_db st))"
proof -
  let ?r0 = "\<lparr>rf_providers = [], rf_failed = [], rf_doDocs = None, rf_livePricing = None, rf_pricingErrors = []\<rparr>"
  let ?linked = "linked_providers (ro_firmId opts) (ad_db st)"
  let ?auditFirm = "case ro_firmId opts of Some f \<Rightarrow> Some f | None \<Rightarrow> (case ?linked of [] \<Rightarrow> None | p # _ \<Rightarrow> Some (prv_firmId p))"
  define r1 where "r1 = (case loadCuratedIds (rv_readFile env) (rv_missing env) (rv_roots env) of
      Inl e \<Rightarrow> ?r0\<lparr>rf_pricingErrors := [''vendored feed unreadable; pricing refresh skipped ('' @ reasonOf e @ '')'']\<rparr> | Inr _ \<Rightarrow> ?r0)"
  have r1: "rf_providers r1 = []" "rf_failed r1 = []"
    by (simp_all add: r1_def split: sum.splits)
  obtain st1 r2 reached where pulls: "fold (refresh_provider env opts (curated_of env)) ?linked (st, r1, []) = (st1, r2, reached)"
    by (metis prod_cases3)
  note first = providers_refreshed [OF assms pulls]
  have wf1: "catalog_wf (ad_db st1)"
    using refresh_ok_wf first by blast
  show ?thesis
  proof (cases "curated_of env")
    case None
    then have "refreshProviderCatalog env opts st = (r2, st1)"
      using pulls unfolding refreshProviderCatalog_def Let_def curated_of_def [symmetric] r1_def [symmetric] by simp
    with first r1 None show ?thesis
      by simp
  next
    case (Some ids)
    obtain st2 r3 where two: "(if digitalocean \<in> set reached then refresh_docs env opts ids ?auditFirm (st1, r2) else (st1, r2)) = (st2, r3)"
      by (metis surj_pair)
    have docs: "refresh_ok (Some ids) st1 st2 \<and> rf_providers r3 = rf_providers r2 \<and> rf_failed r3 = rf_failed r2"
      using two docs_refreshed [OF wf1] refresh_ok_refl [OF wf1] by (auto split: if_splits)
    have wf2: "catalog_wf (ad_db st2)"
      using refresh_ok_wf docs by blast
    obtain st3 r4 where three: "(case given (ro_pricingFeedUrl opts) of
        Some url \<Rightarrow> if anthropic \<in> set reached then refresh_prices env opts ids ?auditFirm url (st2, r3) else (st2, r3)
      | None \<Rightarrow> (st2, r3)) = (st3, r4)"
      by (metis surj_pair)
    have prices: "refresh_ok (Some ids) st2 st3 \<and> rf_providers r4 = rf_providers r3 \<and> rf_failed r4 = rf_failed r3"
      using three prices_refreshed [OF wf2] refresh_ok_refl [OF wf2] by (auto split: if_splits option.splits)
    have "refreshProviderCatalog env opts st = (r4, st3)"
      using pulls two three unfolding refreshProviderCatalog_def Let_def curated_of_def [symmetric] r1_def [symmetric]
      by (simp only: Some option.case prod.case)
    with first docs prices r1 Some show ?thesis
      using refresh_ok_trans by (metis add.right_neutral fst_conv list.size(3) snd_conv)
  qed
qed

lemma pulled_member:
  assumes "pulled owned d d'" "catalog_wf d" "m \<in> set (models d)"
  shows "\<exists>m'\<in>set (models d'). pull_kept owned m m'"
  using pulled_same [OF assms(1) row_of_member [OF assms(2,3)]] row_of_Some by blast

lemma pulled_new:
  assumes "pulled owned d d'" "m' \<in> set (models d')" "row_of d (canonicalId m') = None"
  shows "mdl_source m' = SrcProvider"
proof -
  have "catalog_wf d'" "pulled_row owned (row_of d (canonicalId m')) (row_of d' (canonicalId m'))"
    using assms(1) by (auto simp: pulled_def)
  then show ?thesis
    using row_of_member [OF _ assms(2)] assms(3) by simp
qed

lemma nullish_False: "nullish x False \<longleftrightarrow> x = Some True"
  by (cases x) auto

lemma effective_grows:
  assumes "pull_kept owned m m'"
  shows "effectiveCapability m k \<Longrightarrow> effectiveCapability m' k" "map_of (capabilityOverrides m) k = Some b \<Longrightarrow> effectiveCapability m' k = b"
proof -
  have same: "capabilityOverrides m' = capabilityOverrides m" "providerKind m' = providerKind m"
    and grows: "map_of (capabilities m) k = Some True \<Longrightarrow> map_of (capabilities m') k = Some True"
    using assms by (auto simp: pull_kept_def map_get_def)
  show "effectiveCapability m k \<Longrightarrow> effectiveCapability m' k"
    using grows by (simp add: effectiveCapability_def same nullish_False split: option.splits if_splits)
  show "map_of (capabilityOverrides m) k = Some b \<Longrightarrow> effectiveCapability m' k = b"
    by (simp add: effectiveCapability_def same)
qed

section \<open>The alerts\<close>

text \<open>An audit row that the registered schema lets through is written.\<close>

definition accepted :: "audit_entry \<Rightarrow> bool" where
  "accepted e \<longleftrightarrow> (\<exists>sch det. map_of EVENT_SCHEMAS (ae_event e) = Some sch \<and> parse_detail sch (ae_detail e) = Some det)"

definition row_for :: "audit_entry \<Rightarrow> audit_row \<Rightarrow> bool" where
  "row_for e r \<longleftrightarrow> ar_event r = ae_event e \<and> ar_firmId r = ae_firmId e \<and> ar_model r = ae_model e \<and> ar_taskClass r = ae_taskClass e"

lemma accepted_written:
  assumes "accepted e"
  shows "\<exists>row. audit_at env u e st = (Inr (), st\<lparr>ad_audit := ad_audit st @ [row]\<rparr>) \<and> row_for e row"
  using assms by (auto simp: accepted_def audit_at_def writeAudit_def row_for_def)

lemma accepted_all_written:
  assumes "\<forall>e\<in>set es. accepted e"
  shows "\<exists>rows. audit_all env es st = (Inr (), st\<lparr>ad_audit := ad_audit st @ rows\<rparr>) \<and> list_all2 row_for es rows"
  using assms
proof (induction es arbitrary: st)
  case (Cons e es)
  obtain row where row: "audit_at env None e st = (Inr (), st\<lparr>ad_audit := ad_audit st @ [row]\<rparr>)" "row_for e row"
    using accepted_written Cons.prems by (metis list.set_intros(1))
  obtain rows where rows: "audit_all env es (st\<lparr>ad_audit := ad_audit st @ [row]\<rparr>)
      = (Inr (), (st\<lparr>ad_audit := ad_audit st @ [row]\<rparr>)\<lparr>ad_audit := ad_audit (st\<lparr>ad_audit := ad_audit st @ [row]\<rparr>) @ rows\<rparr>)" "list_all2 row_for es rows"
    using Cons.IH [of "st\<lparr>ad_audit := ad_audit st @ [row]\<rparr>"] Cons.prems by auto
  show ?case
    using row rows by (intro exI [of _ "row # rows"]) simp
qed simp

lemma accepted_all_quiet:
  assumes "\<forall>e\<in>set es. accepted e"
  shows "\<exists>rows. fold (\<lambda>e. audit_quiet env u e) es st = st\<lparr>ad_audit := ad_audit st @ rows\<rparr> \<and> list_all2 row_for es rows"
  using assms
proof (induction es arbitrary: st)
  case (Cons e es)
  obtain row where row: "audit_quiet env u e st = st\<lparr>ad_audit := ad_audit st @ [row]\<rparr>" "row_for e row"
    using accepted_written [of e env u st] Cons.prems by (auto simp: audit_quiet_def)
  obtain rows where rows: "fold (\<lambda>e. audit_quiet env u e) es (st\<lparr>ad_audit := ad_audit st @ [row]\<rparr>)
      = (st\<lparr>ad_audit := ad_audit st @ [row]\<rparr>)\<lparr>ad_audit := ad_audit (st\<lparr>ad_audit := ad_audit st @ [row]\<rparr>) @ rows\<rparr>" "list_all2 row_for es rows"
    using Cons.IH [of "st\<lparr>ad_audit := ad_audit st @ [row]\<rparr>"] Cons.prems by auto
  show ?case
    using row rows by (intro exI [of _ "row # rows"]) simp
qed simp

lemmas catalog_events = accepted_def catalog_entry_def EVENT_SCHEMAS_def catalog_schemas_def obj_get_def in_limit_def
  count_json_def strings_json_def

lemma all_strings [simp]: "list_all is_string (map JStr ss)"
  by (simp add: list_all_iff)

lemma sync_entry_accepted: "accepted (catalog_entry f ''catalog_sync_completed'' None None (sync_detail sha r))"
  by (simp add: catalog_events sync_detail_def)

lemma failed_entry_accepted:
  "accepted (catalog_entry f ''catalog_sync_failed'' None None [(''source'', JStr SYNC_SOURCE), (''reason'', JStr (take 500 e))])"
  by (simp add: catalog_events)

lemma retired_not_active: "ref \<in> set (findRetiredModelReferences d) \<Longrightarrow> rr_status ref \<noteq> MActive"
proof -
  have hit: "ref \<in> set (retired_hit rs p rl i) \<Longrightarrow> \<forall>m\<in>set rs. mdl_status m \<noteq> MActive \<Longrightarrow> rr_status ref \<noteq> MActive" for rs p rl i
    using map_of_SomeD [of "rev (map (\<lambda>m. (mdl_id m, m)) rs)" i]
    by (cases "map_of (rev (map (\<lambda>m. (mdl_id m, m)) rs)) i") (auto simp: retired_hit_def)
  show "ref \<in> set (findRetiredModelReferences d) \<Longrightarrow> rr_status ref \<noteq> MActive"
    using hit by (force simp: findRetiredModelReferences_def Let_def split: if_splits)
qed

lemma deprecation_accepted: "ref \<in> set (findRetiredModelReferences d) \<Longrightarrow> accepted (deprecation_entry d ref)"
  using retired_not_active [of ref d]
  by (cases "rr_status ref"; cases "rr_role ref")
    (simp_all add: deprecation_entry_def Let_def catalog_events split: option.splits)

lemma unacknowledged_accepted: "accepted (unacknowledged_entry u)"
  by (simp add: unacknowledged_entry_def catalog_events)

lemma invalid_accepted: "accepted (invalid_entry b)"
  by (simp add: invalid_entry_def catalog_events)

section \<open>The night\<close>

text \<open>What no run of the job may change of a row; of a model of the administrator it may only raise the hosting flag.\<close>

definition night_kept :: "model_row \<Rightarrow> model_row \<Rightarrow> bool" where
  "night_kept m m' \<longleftrightarrow>
     mdl_id m' = mdl_id m \<and> canonicalId m' = canonicalId m \<and> providerKind m' = providerKind m \<and> displayName m' = displayName m
     \<and> mdl_source m' = mdl_source m \<and> capabilityOverrides m' = capabilityOverrides m \<and> (thirdPartyHosted m \<longrightarrow> thirdPartyHosted m')
     \<and> (mdl_source m = SrcCustom \<longrightarrow> capabilities m' = capabilities m \<and> contextWindow m' = contextWindow m
          \<and> maxOutput m' = maxOutput m \<and> mdl_status m' = mdl_status m \<and> deprecationDate m' = deprecationDate m)"

lemma night_kept_steps: "pull_kept owned m m1 \<Longrightarrow> row_kept m1 m2 \<Longrightarrow> night_kept m m2"
  by (auto simp: pull_kept_def row_kept_def night_kept_def)

lemma pull_night: "pull_kept owned m m1 \<Longrightarrow> night_kept m m1"
  by (rule night_kept_steps [OF _ row_kept_refl])

lemma night_start_pulled:
  assumes "env_ok env" "catalog_wf (ad_db st)"
  shows "refresh_ok (curated_of env) st (night_start env withKeys feedUrl st)"
  using catalog_refreshed [OF assms] refresh_ok_refl [OF assms(2)] by (simp add: night_start_def)

lemma pulled_rest: "pulled owned d d' \<Longrightarrow> policies d' = policies d \<and> taskClasses d' = taskClasses d \<and> firms d' = firms d"
proof -
  assume "pulled owned d d'"
  then have same: "d'\<lparr>models := [], pricings := []\<rparr> = d\<lparr>models := [], pricings := []\<rparr>"
    by (simp add: pulled_def)
  show ?thesis
    using arg_cong [OF same, of policies] arg_cong [OF same, of taskClasses] arg_cong [OF same, of firms] by simp
qed

lemma alerts_kept:
  shows "\<exists>rows. runDeprecationAlerts env st = (Inr (length (findRetiredModelReferences (ad_db st))), st\<lparr>ad_audit := ad_audit st @ rows\<rparr>)
     \<and> (\<forall>ref\<in>set (findRetiredModelReferences (ad_db st)). \<exists>row\<in>set rows. row_for (deprecation_entry (ad_db st) ref) row)"
proof -
  let ?es = "map (deprecation_entry (ad_db st)) (findRetiredModelReferences (ad_db st))"
  obtain rows where rows: "audit_all env ?es st = (Inr (), st\<lparr>ad_audit := ad_audit st @ rows\<rparr>)" "list_all2 row_for ?es rows"
    using accepted_all_written [of ?es env st] deprecation_accepted by auto
  have "\<forall>e\<in>set ?es. \<exists>row\<in>set rows. row_for e row"
    using rows(2) by (auto simp: list_all2_conv_all_nth in_set_conv_nth) (metis nth_mem)
  with rows(1) show ?thesis
    by (auto simp: runDeprecationAlerts_def Let_def)
qed

lemma health_kept:
  shows "\<exists>rows. snd (runPolicyHealthAlerts env st) = st\<lparr>ad_audit := ad_audit st @ rows\<rparr>
     \<and> (\<forall>u\<in>set (findUnacknowledgedThirdPartyBindings (ad_db st)). \<exists>row\<in>set rows. row_for (unacknowledged_entry u) row)
     \<and> (\<forall>b\<in>set (findInvalidBindings (ad_db st)). \<exists>row\<in>set rows. row_for (invalid_entry b) row)"
proof -
  let ?es = "map unacknowledged_entry (findUnacknowledgedThirdPartyBindings (ad_db st)) @ map invalid_entry (findInvalidBindings (ad_db st))"
  obtain rows where rows: "fold (\<lambda>e. audit_quiet env None e) ?es st = st\<lparr>ad_audit := ad_audit st @ rows\<rparr>" "list_all2 row_for ?es rows"
    using accepted_all_quiet [of ?es env None st] unacknowledged_accepted invalid_accepted by auto
  have "\<forall>e\<in>set ?es. \<exists>row\<in>set rows. row_for e row"
    using rows(2) by (metis in_set_conv_nth list_all2_conv_all_nth)
  then show ?thesis
    using rows(1) unfolding runPolicyHealthAlerts_def Let_def by (intro exI [of _ rows]) auto
qed

lemma sync_pass_done:
  assumes loaded: "loadVendoredFeed (rv_readFile env) (rv_missing env) (rv_roots env) (rv_sha256 env) = Inr (feed, sha)"
    and quiet: "\<And>s. ad_db (onSuccess s) = ad_db s \<and> ad_audit (onSuccess s) = ad_audit s"
    and run: "sync_pass env onSuccess firmId st = (res, st2)"
  shows "(\<exists>r. res = Inr r)
    \<and> ad_db st2 = fst (syncCatalog (rv_dateOk env) (rv_ids env (ad_db st)) (rv_now env (length (ad_audit st))) feed (ad_db st))
    \<and> (\<exists>rows. ad_audit st2 = ad_audit st @ rows
         \<and> (\<forall>ref\<in>set (findRetiredModelReferences (ad_db st2)). \<exists>row\<in>set rows. row_for (deprecation_entry (ad_db st2) ref) row)
         \<and> (\<forall>u\<in>set (findUnacknowledgedThirdPartyBindings (ad_db st2)). \<exists>row\<in>set rows. row_for (unacknowledged_entry u) row))"
proof -
  obtain d1 r where sync: "syncCatalog (rv_dateOk env) (rv_ids env (ad_db st)) (rv_now env (length (ad_audit st))) feed (ad_db st) = (d1, r)"
    by fastforce
  let ?st1 = "st\<lparr>ad_db := d1\<rparr>"
  define step where "step = (case given firmId of
      None \<Rightarrow> (Inr (), ?st1)
    | Some f \<Rightarrow> audit_at env None (catalog_entry f ''catalog_sync_completed'' None None (sync_detail sha r)) ?st1)"
  obtain rows0 where first: "step = (Inr (), ?st1\<lparr>ad_audit := ad_audit st @ rows0\<rparr>)"
  proof (cases "given firmId")
    case None
    then have "step = (Inr (), ?st1\<lparr>ad_audit := ad_audit st @ []\<rparr>)"
      by (simp add: step_def)
    then show ?thesis
      by (rule that)
  next
    case (Some f)
    then obtain row where "step = (Inr (), ?st1\<lparr>ad_audit := ad_audit st @ [row]\<rparr>)"
      using accepted_written [OF sync_entry_accepted [of f sha r], of env None ?st1] by (auto simp: step_def)
    then show ?thesis
      by (rule that)
  qed
  let ?st2 = "?st1\<lparr>ad_audit := ad_audit st @ rows0\<rparr>"
  obtain rows1 where second: "runDeprecationAlerts env ?st2 = (Inr (length (findRetiredModelReferences d1)), ?st2\<lparr>ad_audit := ad_audit ?st2 @ rows1\<rparr>)"
      "\<forall>ref\<in>set (findRetiredModelReferences d1). \<exists>row\<in>set rows1. row_for (deprecation_entry d1 ref) row"
    using alerts_kept [of env ?st2] by auto
  let ?st3 = "?st2\<lparr>ad_audit := ad_audit ?st2 @ rows1\<rparr>"
  obtain rows2 where third: "snd (runPolicyHealthAlerts env ?st3) = ?st3\<lparr>ad_audit := ad_audit ?st3 @ rows2\<rparr>"
      "\<forall>u\<in>set (findUnacknowledgedThirdPartyBindings d1). \<exists>row\<in>set rows2. row_for (unacknowledged_entry u) row"
    using health_kept [of env ?st3] by auto
  have out: "res = Inr r" "st2 = onSuccess (?st3\<lparr>ad_audit := ad_audit ?st3 @ rows2\<rparr>)"
    using run unfolding sync_pass_def loaded Let_def sum.case prod.case sync step_def [symmetric] first second(1) third(1)
    by simp_all
  have "ad_db st2 = d1" "ad_audit st2 = ad_audit st @ (rows0 @ rows1 @ rows2)"
    using quiet out(2) by simp_all
  then show ?thesis
    unfolding sync fst_conv using out(1) second(2) third(2) by (intro conjI exI [of _ r] exI [of _ "rows0 @ rows1 @ rows2"]) auto
qed

lemma run_failed:
  assumes "loadVendoredFeed (rv_readFile env) (rv_missing env) (rv_roots env) (rv_sha256 env) = Inl e"
    "runCatalogSync env withKeys feedUrl onSuccess st = (res, st2)"
  shows "res = None \<and> ad_db st2 = ad_db (night_start env withKeys feedUrl st)
    \<and> (\<forall>f. given (firmIdForAudit (ad_db st)) = Some f \<longrightarrow>
         (\<exists>row. ad_audit st2 = ad_audit (night_start env withKeys feedUrl st) @ [row] \<and> ar_event row = ''catalog_sync_failed'' \<and> ar_firmId row = f))"
proof -
  have pass: "sync_pass env onSuccess (firmIdForAudit (ad_db st)) (night_start env withKeys feedUrl st) = (Inl e, night_start env withKeys feedUrl st)"
    by (simp add: sync_pass_def assms(1))
  show ?thesis
  proof (cases "given (firmIdForAudit (ad_db st))")
    case None
    then show ?thesis
      using assms(2) by (auto simp: runCatalogSync_def Let_def pass)
  next
    case (Some f)
    let ?e = "catalog_entry f ''catalog_sync_failed'' None None [(''source'', JStr SYNC_SOURCE), (''reason'', JStr (take 500 e))]"
    obtain row where "audit_at env None ?e (night_start env withKeys feedUrl st)
        = (Inr (), (night_start env withKeys feedUrl st)\<lparr>ad_audit := ad_audit (night_start env withKeys feedUrl st) @ [row]\<rparr>)" "row_for ?e row"
      using accepted_written [OF failed_entry_accepted] by blast
    then show ?thesis
      using assms(2) Some by (auto simp: runCatalogSync_def Let_def pass audit_quiet_def row_for_def catalog_entry_def)
  qed
qed

definition catalog_steps :: "db \<Rightarrow> db \<Rightarrow> bool" where
  "catalog_steps d d' \<longleftrightarrow>
     (\<forall>m\<in>set (models d). \<exists>m'\<in>set (models d'). night_kept m m') \<and> (\<exists>new. pricings d' = pricings d @ new) \<and> policies d' = policies d"

lemma catalog_steps_refs: "catalog_steps d d' \<Longrightarrow> refs_ok d \<Longrightarrow> refs_ok d'"
  unfolding catalog_steps_def night_kept_def by (erule refs_ok_same_ids) (metis image_eqI image_subsetI, blast)

lemma pulled_steps: "pulled owned d d' \<Longrightarrow> catalog_wf d \<Longrightarrow> catalog_steps d d'"
  unfolding catalog_steps_def using pulled_rest pulled_member pull_night pulled_def by metis

lemma synced_steps: "pulled owned d d1 \<Longrightarrow> catalog_wf d \<Longrightarrow> catalog_kept d1 d2 \<Longrightarrow> catalog_steps d d2"
  unfolding catalog_steps_def catalog_kept_def
  by (metis append.assoc night_kept_steps pulled_def pulled_member pulled_rest)

text \<open>A model that carries the flag is found by its id.\<close>

definition flagged_in :: "db \<Rightarrow> string \<Rightarrow> string \<Rightarrow> bool" where
  "flagged_in d i c \<longleftrightarrow> (\<exists>m\<in>set (models d). mdl_id m = i \<and> canonicalId m = c \<and> thirdPartyHosted m)"

lemma flagged_found:
  assumes "catalog_wf d" "flagged_in d i c" "c \<noteq> []"
  shows "flagged_canonical d i = Some c"
proof -
  obtain m where m: "m \<in> set (models d)" "mdl_id m = i" "canonicalId m = c" "thirdPartyHosted m"
    using assms(2) by (auto simp: flagged_in_def)
  obtain m' where m': "find_first (\<lambda>m. mdl_id m = i) (filter thirdPartyHosted (models d)) = Some m'"
    using m find_first_None [of "\<lambda>m. mdl_id m = i" "filter thirdPartyHosted (models d)"] by (cases "find_first (\<lambda>m. mdl_id m = i) (filter thirdPartyHosted (models d))") auto
  then have "m' = m"
    using find_first_Some [OF m'] m wf_same_id [OF assms(1)] by simp
  with m' m assms(3) show ?thesis
    by (simp add: flagged_canonical_def)
qed

lemma unacknowledged_found:
  assumes "catalog_wf d" "flagged_in d i c" "p \<in> set (policies d)" "i \<in> set (policy_models p)" "c \<notin> set (acknowledgedModels p)" "c \<noteq> []"
  shows "\<exists>u\<in>set (findUnacknowledgedThirdPartyBindings d). ub_policyId u = pol_id p \<and> ub_firmId u = pol_firmId p \<and> c \<in> set (ub_models u)"
proof -
  have "c \<in> set (List.map_filter (flagged_canonical d) (policy_models p))"
    using flagged_found [OF assms(1,2,6)] assms(4) by (force simp: List.map_filter_def)
  then have c: "c \<in> set (unacknowledged_models d p)"
    using assms(5) by (simp add: unacknowledged_models_def set_dedupe)
  then have "unacknowledged_models d p \<noteq> []"
    by auto
  moreover have "filter thirdPartyHosted (models d) \<noteq> []"
    using assms(2) by (auto simp: flagged_in_def filter_empty_conv)
  ultimately show ?thesis
    using assms(3) c unfolding findUnacknowledgedThirdPartyBindings_def
    by (auto simp: List.map_filter_def intro!: rev_image_eqI)
qed

section \<open>Properties\<close>

text \<open>
  C32. The provider refresh owns only what it discovered. Whatever the providers, the documentation site and the price feed answer,
  every model of the catalog is still there afterwards with its id, name, kind, source, overrides and status; a model the
  refresh did not discover, or that the vendored feed owns, keeps its capabilities and limits; no model loses a capability, and an
  override of the administrator still decides; new rows are discovered ones; prices are only appended, and only to discovered
  models no feed owns; policies and the rest of the database are untouched; and every linked provider is either refreshed or
  reported as failed.
\<close>

theorem refresh_owned:
  assumes "env_ok env" "catalog_wf (ad_db st)"
  shows "let (r, st') = refreshProviderCatalog env opts st; owned = curated_has (curated_of env) in
    (\<forall>m\<in>set (models (ad_db st)). \<exists>m'\<in>set (models (ad_db st')). pull_kept owned m m'
        \<and> (\<forall>k. (effectiveCapability m k \<longrightarrow> effectiveCapability m' k)
              \<and> (\<forall>b. map_of (capabilityOverrides m) k = Some b \<longrightarrow> effectiveCapability m' k = b)))
    \<and> (\<forall>m'\<in>set (models (ad_db st')). row_of (ad_db st) (canonicalId m') = None \<longrightarrow> mdl_source m' = SrcProvider)
    \<and> (\<exists>new. pricings (ad_db st') = pricings (ad_db st) @ new \<and> (\<forall>p\<in>set new. price_owned owned (ad_db st') p))
    \<and> (ad_db st')\<lparr>models := [], pricings := []\<rparr> = (ad_db st)\<lparr>models := [], pricings := []\<rparr>
    \<and> length (rf_providers r) + length (rf_failed r) = length (linked_providers (ro_firmId opts) (ad_db st))"
proof -
  obtain r st' where run: "refreshProviderCatalog env opts st = (r, st')"
    by fastforce
  note ok = catalog_refreshed [OF assms, of opts, unfolded run fst_conv snd_conv]
  have pulled: "pulled (curated_has (curated_of env)) (ad_db st) (ad_db st')"
    using ok by (simp add: refresh_ok_def)
  have new: "mdl_source m' = SrcProvider" if "m' \<in> set (models (ad_db st'))" "row_of (ad_db st) (canonicalId m') = None" for m'
    using pulled_new [OF pulled that] .
  have old: "\<exists>m'\<in>set (models (ad_db st')). pull_kept (curated_has (curated_of env)) m m'
      \<and> (\<forall>k. (effectiveCapability m k \<longrightarrow> effectiveCapability m' k)
            \<and> (\<forall>b. map_of (capabilityOverrides m) k = Some b \<longrightarrow> effectiveCapability m' k = b))"
    if "m \<in> set (models (ad_db st))" for m
    using pulled_member [OF pulled assms(2) that] effective_grows by blast
  show ?thesis
    unfolding run Let_def prod.case
    using pulled ok new old by (intro conjI ballI) (simp_all add: pulled_def)
qed


text \<open>
  C34. A hosted model nobody acknowledged is reported. When a discovery on DigitalOcean shows that a model which a policy refers to is
  served by a third-party vendor, and the policy has no acknowledgement for it, then the health pass that follows lists the
  policy with that model and writes the warning for the policy's firm to the audit log.
\<close>

theorem hosted_binding_reported:
  assumes "fresh_ids fresh" "catalog_wf d" "listServedModelIds get (prv_baseUrl provider) apiKey = Inr served"
    and "m \<in> set (models d)" "canonicalId m \<in> set (served_ids served)" "hosting (canonicalId m) \<noteq> None"
    and "p \<in> set (policies d)" "mdl_id m \<in> set (policy_models p)" "canonicalId m \<notin> set (acknowledgedModels p)"
    and "ad_db st = snd (discoverDigitalOceanModels get fresh provider apiKey d)"
  shows "(\<exists>u\<in>set (findUnacknowledgedThirdPartyBindings (ad_db st)). ub_policyId u = pol_id p \<and> canonicalId m \<in> set (ub_models u))
    \<and> (\<exists>rows. ad_audit (snd (runPolicyHealthAlerts env st)) = ad_audit st @ rows
         \<and> (\<exists>row\<in>set rows. ar_event row = ''third_party_binding_unacknowledged'' \<and> ar_firmId row = pol_firmId p))"
proof -
  have pulled: "pulled (\<lambda>_. False) d (ad_db st)"
    unfolding assms(10) by (rule digitalocean_pulled [OF assms(1,2)])
  obtain m1 where m1: "row_of (ad_db st) (canonicalId m) = Some m1" "pull_kept (\<lambda>_. False) m m1"
    using pulled_same [OF pulled row_of_member [OF assms(2,4)]] by blast
  have "thirdPartyHosted m1"
    using digitalocean_run(3) [OF assms(1-3,5)] m1(1) assms(6) by (auto simp: assms(10) shows_hosting_def)
  with m1 have "flagged_in (ad_db st) (mdl_id m) (canonicalId m)"
    unfolding flagged_in_def using row_of_Some by (metis pull_kept_def)
  moreover have non_empty: "canonicalId m \<noteq> []"
    using assms(6) by (auto simp: hosting_def thirdPartyHostingFor_def THIRD_PARTY_HOSTED_def)
  ultimately obtain u where u: "u \<in> set (findUnacknowledgedThirdPartyBindings (ad_db st))" "ub_policyId u = pol_id p"
      "ub_firmId u = pol_firmId p" "canonicalId m \<in> set (ub_models u)"
    using unacknowledged_found [OF pulled_wf [OF pulled] _ _ assms(8,9) non_empty] assms(7) pulled_rest [OF pulled] by metis
  obtain rows where "snd (runPolicyHealthAlerts env st) = st\<lparr>ad_audit := ad_audit st @ rows\<rparr>"
      "\<exists>row\<in>set rows. row_for (unacknowledged_entry u) row"
    using health_kept [of env st] u(1) by blast
  with u show ?thesis
    by (auto simp: row_for_def unacknowledged_entry_def catalog_entry_def)
qed

definition ex_vendored :: "(string \<times> json) list" where
  "ex_vendored = [(''gpt'', JObj [(''litellm_provider'', JStr ''openai''), (''max_tokens'', JNum 8000)])]"

definition ex_refresh_env :: refresh_env where
  "ex_refresh_env = \<lparr>rv_get = ex_do_net, rv_fetch = (\<lambda>_ _. Inl ''offline''), rv_getApiKey = (\<lambda>_. Inr None),
     rv_readFile = (\<lambda>_ name. Some (json_stringify (JObj (if name = ''litellm-prices.json'' then ex_vendored else [])))),
     rv_missing = (\<lambda>_. ''ENOENT''), rv_roots = [''.''], rv_sha256 = (\<lambda>s. s), rv_ids = spare_id, rv_now = (\<lambda>n. 1000 + int n),
     rv_docsClock = int, rv_dateOk = (\<lambda>_. True)\<rparr>"

definition ex_refresh_state :: admin_state where
  "ex_refresh_state = \<lparr>ad_db = example_db\<lparr>providers := [ex_do_provider]\<rparr>, ad_engine = engine_new, ad_audit = []\<rparr>"

lemma ex_refresh_env_ok: "env_ok ex_refresh_env"
  by (simp add: env_ok_def ex_refresh_env_def spare_id_unused spare_id_inj)

lemma ex_refresh_wf: "catalog_wf (ad_db ex_refresh_state)"
  by (simp add: catalog_wf_def ex_refresh_state_def example_db_def)

theorem refresh_owned_witness:
  "\<exists>r st'. refreshProviderCatalog ex_refresh_env \<lparr>ro_firmId = None, ro_userId = None, ro_pricingFeedUrl = None\<rparr> ex_refresh_state = (r, st')
     \<and> (\<exists>m\<in>set (models (ad_db st')). mdl_id m = ''m1'') \<and> length (rf_providers r) + length (rf_failed r) = 1"
proof -
  have one: "length (linked_providers None (ad_db ex_refresh_state)) = 1" and m1: "example_model \<in> set (models (ad_db ex_refresh_state))"
    by (simp_all add: linked_providers_def ex_refresh_state_def example_db_def ex_do_provider_def isDiscoverableKind_def DISCOVERABLE_KINDS_def given_def)
  show ?thesis
    using refresh_owned [OF ex_refresh_env_ok ex_refresh_wf, of "\<lparr>ro_firmId = None, ro_userId = None, ro_pricingFeedUrl = None\<rparr>"] one m1
    by (fastforce simp: Let_def pull_kept_def example_model_def split: prod.splits)
qed

lemma ex_feed_loaded:
  "\<exists>sha. loadVendoredFeed (rv_readFile ex_refresh_env) (rv_missing ex_refresh_env) (rv_roots ex_refresh_env) (rv_sha256 ex_refresh_env)
     = Inr (ex_vendored, sha)"
proof -
  have parsed: "json_parse (json_stringify (JObj ex_vendored)) = Some (JObj ex_vendored)" "json_parse (json_stringify (JObj [])) = Some (JObj [])"
    by (rule json_roundtrip, simp add: ex_vendored_def)+
  have merged: "merge_members ex_vendored [] = Inr ex_vendored"
    by (simp add: ex_vendored_def)
  show ?thesis
    by (simp add: loadVendoredFeed_def ex_refresh_env_def VENDORED_FILES_def parsed merged del: json_stringify.simps)
qed


definition ex_hosted_db :: db where
  "ex_hosted_db = example_db\<lparr>models := [example_model\<lparr>canonicalId := ''digitalocean/anthropic-claude''\<rparr>]\<rparr>"

theorem hosted_binding_reported_witness:
  "\<exists>u\<in>set (findUnacknowledgedThirdPartyBindings (snd (discoverDigitalOceanModels ex_do_net long_id ex_do_provider None ex_hosted_db))).
     ub_policyId u = ''p1''"
proof -
  let ?m = "example_model\<lparr>canonicalId := ''digitalocean/anthropic-claude''\<rparr>"
  have wf: "catalog_wf ex_hosted_db" and m: "?m \<in> set (models ex_hosted_db)" and p: "example_policy \<in> set (policies ex_hosted_db)"
    by (simp_all add: catalog_wf_def ex_hosted_db_def example_db_def)
  have served: "listServedModelIds ex_do_net (prv_baseUrl ex_do_provider) None = Inr [''anthropic-claude'', '' kimi-k3 '']"
    by code_simp
  have facts: "canonicalId ?m \<in> set (served_ids [''anthropic-claude'', '' kimi-k3 ''])" "hosting (canonicalId ?m) \<noteq> None"
      "mdl_id ?m \<in> set (policy_models example_policy)" "canonicalId ?m \<notin> set (acknowledgedModels example_policy)" "pol_id example_policy = ''p1''"
    by code_simp+
  show ?thesis
    using hosted_binding_reported [OF long_id_fresh wf served m facts(1,2) p facts(3,4),
        of "ex_refresh_state\<lparr>ad_db := snd (discoverDigitalOceanModels ex_do_net long_id ex_do_provider None ex_hosted_db)\<rparr>"] facts(5)
    by auto
qed

end
