(* ===== verification/Probe.thy ===== *)
theory Probe
  imports Openai_Compat Catalog
begin

text \<open>
  \<^verbatim>\<open>src/src/catalog/probe.ts\<close>: small fixed requests sent through an adapter to find out what a model can do, the verdict on
  each answer, and the merge of the conclusive verdicts into the overrides. The adapter is an argument, and so is the clock
  (\<open>elapsed n\<close> is the latency of probe \<open>n\<close>).
\<close>

section \<open>The probes\<close>

datatype probe_capability = Probe_vision | Probe_json_schema | Probe_tools

definition PROBEABLE_CAPABILITIES :: "probe_capability list" where
  "PROBEABLE_CAPABILITIES = [Probe_vision, Probe_json_schema, Probe_tools]"

datatype probe_outcome = Supported | Unsupported | Inconclusive

record probe_result =
  pb_capability :: probe_capability
  pb_outcome :: probe_outcome
  pb_detail :: string
  pb_latencyMs :: int

fun probed :: "probe_capability \<Rightarrow> capability" where
  "probed Probe_vision = Cap_vision"
| "probed Probe_json_schema = Cap_json_schema"
| "probed Probe_tools = Cap_tools"

definition PROBE_IMAGE_DATA_URI :: string where
  "PROBE_IMAGE_DATA_URI = ''data:image/png;base64,iVBORw0KGgoAAAANSUhEUgAAAAEAAAABCAYAAAAfFcSJAAAADUlEQVR42mP8z8BQDwAEhQGAhKmMIQAAAABJRU5ErkJggg==''"

definition PROBE_METADATA :: request_metadata where
  "PROBE_METADATA = \<lparr>md_app = ''router-admin'', md_userId = None, md_userRole = None, md_engagementRef = None, md_clientRef = None\<rparr>"

definition probe_base :: "msg_content \<Rightarrow> ai_request" where
  "probe_base body =
     \<lparr>taskClass = ''__capability_probe__'', messages = [\<lparr>m_role = RUser, m_content = body, m_toolCalls = None, m_toolCallId = None\<rparr>],
      tools = None, toolChoice = None, responseFormat = None, maxTokens = Some 64, temperature = Some 0, topP = None, stop = None,
      stream = False, modelRequested = None, metadata = PROBE_METADATA\<rparr>"

definition probe_schema :: json where
  "probe_schema =
     JObj [(''type'', JStr ''object''), (''properties'', JObj [(''ok'', JObj [(''type'', JStr ''boolean'')])]),
           (''required'', JArr [JStr ''ok'']), (''additionalProperties'', JBool False)]"

definition ping_tool :: tool_def where
  "ping_tool =
     \<lparr>td_name = ''ping'', td_description = Some ''Reports that tool calling works.'',
      td_parameters = Some (JObj [(''type'', JStr ''object''), (''properties'', JObj []), (''additionalProperties'', JBool False)])\<rparr>"

fun buildProbeRequest :: "probe_capability \<Rightarrow> ai_request" where
  "buildProbeRequest Probe_vision =
     probe_base (CParts [TextPart ''Reply with the single word OK.'', ImagePart PROBE_IMAGE_DATA_URI])"
| "buildProbeRequest Probe_json_schema =
     (probe_base (CText (''Return the JSON object {'' @ [dquote] @ ''ok'' @ [dquote] @ '': true}.'')))
       \<lparr>responseFormat := Some (RFJsonSchema ''probe'' (Some probe_schema) (Some True) None)\<rparr>"
| "buildProbeRequest Probe_tools =
     (probe_base (CText ''Call the ping tool.''))\<lparr>tools := Some [ping_tool], toolChoice := Some ChooseRequired\<rparr>"

section \<open>The verdicts\<close>

fun classifyProbeSuccess :: "probe_capability \<Rightarrow> ai_response \<Rightarrow> probe_outcome" where
  "classifyProbeSuccess Probe_vision res = Supported"
| "classifyProbeSuccess Probe_json_schema res =
     (case json_parse (r_content res) of
        Some (JObj ms) \<Rightarrow> Supported
      | Some (JArr vs) \<Rightarrow> Supported
      | _ \<Rightarrow> Inconclusive)"
| "classifyProbeSuccess Probe_tools res = (if nullish (map_option length (r_toolCalls res)) 0 > 0 then Supported else Inconclusive)"

definition provider_status :: "router_error \<Rightarrow> rat option" where
  "provider_status e =
     (case detail e of
        None \<Rightarrow> None
      | Some d \<Rightarrow> (case obj_get d ''providerStatus'' of Some (JNum x) \<Rightarrow> Some x | _ \<Rightarrow> None))"

text \<open>\<open>show_status\<close> prints a number; \<open>name\<close> is the name of an error that is not a router error.\<close>

definition classifyProbeError :: "(string \<Rightarrow> string) \<Rightarrow> thrown \<Rightarrow> probe_outcome \<times> string" where
  "classifyProbeError name err =
     (case err of
        Routed e \<Rightarrow>
          (let st = provider_status e
           in if code e = auth_error \<or> code e = rate_limited
              then (Inconclusive, ''provider '' @ code_name (code e) @ '' '' @ em_dash @ '' fix and re-probe'')
              else if (st = Some 400 \<or> st = Some 415 \<or> st = Some 422) \<and> code e \<noteq> context_exceeded \<and> code e \<noteq> content_filtered
              then (Unsupported, ''provider rejected the request (HTTP '' @ show_num (the st) @ '')'')
              else (Inconclusive, code_name (code e) @ (case st of None \<Rightarrow> [] | Some x \<Rightarrow> '' (HTTP '' @ show_num x @ '')'')))
      | OtherError m \<Rightarrow> (Inconclusive, name m)
      | NonError \<Rightarrow> (Inconclusive, ''unknown error''))"

fun finish_name :: "finish_reason \<Rightarrow> string" where
  "finish_name FStop = ''stop''"
| "finish_name FLength = ''length''"
| "finish_name FToolCalls = ''tool_calls''"
| "finish_name FContentFilter = ''content_filter''"
| "finish_name FError = ''error''"

type_synonym probe_adapter = "nat \<Rightarrow> ai_request \<Rightarrow> (thrown, ai_response) result"

definition probe_one :: "(string \<Rightarrow> string) \<Rightarrow> probe_adapter \<Rightarrow> (nat \<Rightarrow> int) \<Rightarrow> nat \<Rightarrow> probe_capability \<Rightarrow> probe_result" where
  "probe_one name execute elapsed n c =
     (case execute n (buildProbeRequest c) of
        Inr res \<Rightarrow> \<lparr>pb_capability = c, pb_outcome = classifyProbeSuccess c res,
                    pb_detail = ''completed (finish='' @ finish_name (finishReason res) @ '')'', pb_latencyMs = elapsed n\<rparr>
      | Inl err \<Rightarrow> (case classifyProbeError name err of
                     (out, d) \<Rightarrow> \<lparr>pb_capability = c, pb_outcome = out, pb_detail = d, pb_latencyMs = elapsed n\<rparr>))"

fun probe_all ::
    "(string \<Rightarrow> string) \<Rightarrow> probe_adapter \<Rightarrow> (nat \<Rightarrow> int) \<Rightarrow> nat \<Rightarrow> probe_capability list \<Rightarrow> probe_result list" where
  "probe_all name execute elapsed n [] = []"
| "probe_all name execute elapsed n (c # cs) = probe_one name execute elapsed n c # probe_all name execute elapsed (Suc n) cs"

definition probeModelCapabilities ::
    "(string \<Rightarrow> string) \<Rightarrow> probe_adapter \<Rightarrow> (nat \<Rightarrow> int) \<Rightarrow> probe_capability list option \<Rightarrow> probe_result list" where
  "probeModelCapabilities name execute elapsed cs = probe_all name execute elapsed 0 (nullish cs PROBEABLE_CAPABILITIES)"

section \<open>The overrides\<close>

definition ceiling_of :: "provider_kind option \<Rightarrow> capability list" where
  "ceiling_of kind = (case kind of None \<Rightarrow> [] | Some k \<Rightarrow> KIND_CAPABILITY_CEILING k)"

definition merge_probe :: "capability list \<Rightarrow> probe_result \<Rightarrow> (capability \<times> bool) list \<Rightarrow> (capability \<times> bool) list" where
  "merge_probe capped r merged =
     (case pb_outcome r of
        Supported \<Rightarrow> if probed (pb_capability r) \<in> set capped then merged else map_set (probed (pb_capability r)) True merged
      | Unsupported \<Rightarrow> map_set (probed (pb_capability r)) False merged
      | Inconclusive \<Rightarrow> merged)"

definition overridesFromProbes ::
    "(capability \<times> bool) list \<Rightarrow> probe_result list \<Rightarrow> provider_kind option \<Rightarrow> (capability \<times> bool) list" where
  "overridesFromProbes existing results kind = fold (merge_probe (ceiling_of kind)) results existing"

definition ceilingCappedCapabilities :: "provider_kind \<Rightarrow> capability list" where
  "ceilingCappedCapabilities kind = KIND_CAPABILITY_CEILING kind"

section \<open>Through the OpenAI-compatible adapter\<close>

text \<open>\<open>execute\<close> of the adapter over the network: \<open>post n\<close> answers the request of probe \<open>n\<close>.\<close>

definition openai_probe ::
    "openai_env \<Rightarrow> string \<Rightarrow> provider_row \<Rightarrow> string option \<Rightarrow> (nat \<Rightarrow> int)
      \<Rightarrow> (nat \<Rightarrow> translated_request \<Rightarrow> (adapter_error, json) result) \<Rightarrow> probe_adapter" where
  "openai_probe oe model p apiKey latency post n req =
     (case translateRequest oe (req\<lparr>stream := False\<rparr>) model (prv_baseUrl p) apiKey (prv_modelMapping p) of
        Inl t \<Rightarrow> Inl t
      | Inr tq \<Rightarrow>
          (case execute_answer oe req (model, prv_id p, latency n) (post n tq) of
             Inl e \<Rightarrow> Inl (Routed e)
           | Inr res \<Rightarrow> Inr res))"

section \<open>Lemmas\<close>

lemma probe_all_capabilities: "map pb_capability (probe_all name execute elapsed n cs) = cs"
  by (induction cs arbitrary: n) (auto simp: probe_one_def split: sum.splits prod.splits)

lemma probe_all_member: "r \<in> set (probe_all name execute elapsed n cs) \<Longrightarrow> \<exists>i. r = probe_one name execute elapsed i (pb_capability r)"
proof (induction cs arbitrary: n)
  case (Cons c cs)
  have "pb_capability (probe_one name execute elapsed n c) = c"
    by (simp add: probe_one_def split: sum.splits prod.splits)
  then show ?case
    using Cons by auto
qed simp

text \<open>A member of the merged overrides was there before, or comes from a conclusive verdict the ceiling allows.\<close>

lemma merged_from:
  "map_get (fold (merge_probe capped) rs existing) k = Some b \<Longrightarrow>
     map_get existing k = Some b
     \<or> (\<exists>r\<in>set rs. probed (pb_capability r) = k \<and> pb_outcome r = (if b then Supported else Unsupported) \<and> (b \<longrightarrow> k \<notin> set capped))"
proof (induction rs arbitrary: existing)
  case (Cons r rs)
  from Cons.IH [of "merge_probe capped r existing"] Cons.prems consider
      (before) "map_get (merge_probe capped r existing) k = Some b"
    | (later) "\<exists>r\<in>set rs. probed (pb_capability r) = k \<and> pb_outcome r = (if b then Supported else Unsupported) \<and> (b \<longrightarrow> k \<notin> set capped)"
    by auto
  then show ?case
    by cases (auto simp: merge_probe_def split: probe_outcome.splits if_splits)
qed simp

lemma merged_untouched:
  "\<forall>r\<in>set rs. probed (pb_capability r) = k \<longrightarrow> pb_outcome r = Inconclusive \<Longrightarrow>
     map_get (fold (merge_probe capped) rs existing) k = map_get existing k"
proof (induction rs arbitrary: existing)
  case (Cons r rs)
  then show ?case
    by (cases "pb_outcome r") (auto simp: merge_probe_def)
qed simp

lemma unsupported_status:
  assumes "classifyProbeError name err = (Unsupported, d)"
  obtains e st where "err = Routed e" "provider_status e = Some st" "st \<in> {400, 415, 422}"
    "code e \<notin> {auth_error, rate_limited, context_exceeded, content_filtered}"
  using assms by (cases err) (auto simp: classifyProbeError_def Let_def split: if_splits)

lemma never_supported: "fst (classifyProbeError name err) \<noteq> Supported"
  by (cases err) (auto simp: classifyProbeError_def Let_def)

text \<open>The errors of the adapter that carry a status.\<close>

lemma adapter_status:
  assumes "openai_probe oe model p apiKey latency post n req = Inl (Routed e)" "provider_status e = Some st"
    "\<And>n tq e. post n tq \<noteq> Inl (AE_Router e)"
  shows "\<exists>i body ra tq. post n tq = Inl (AE_Http i body ra) \<and> st = of_int i \<and> code e = http_code i body"
proof -
  have plain: "provider_status (router_error0 c m) = None" "provider_status (RouterError c m (Some [(''reason'', j)]) None) = None" for c m j
    by (simp_all add: provider_status_def obj_get_def)
  have url: "translateRequest oe r m b k mp \<noteq> Inl (Routed e)" for r m b k mp
    by (auto simp: translateRequest_def buildUrl_def Let_def split: option.splits if_splits)
  then obtain tq where tq: "execute_answer oe req (model, prv_id p, latency n) (post n tq) = Inl e"
    using assms(1) by (auto simp: openai_probe_def split: sum.splits)
  then show ?thesis
  proof (cases "post n tq")
    case (Inl err)
    then have "e = mapProviderError err"
      using tq by (simp add: execute_answer_def)
    then show ?thesis
      using Inl assms(2,3) plain by (cases err) (auto simp: provider_status_def obj_get_def)
  next
    case (Inr raw)
    then show ?thesis
      using tq assms(2) plain
      by (auto simp: execute_answer_def translateResponse_def malformed_def Let_def split: sum.splits option.splits prod.splits list.splits if_splits)
  qed
qed

section \<open>Properties\<close>

text \<open>The capability of a model once the overrides are stored.\<close>

lemma effective_overridden:
  "effectiveCapability (m\<lparr>capabilityOverrides := ov\<rparr>) k =
     (case map_get ov k of Some b \<Rightarrow> b | None \<Rightarrow> effectiveCapability (m\<lparr>capabilityOverrides := []\<rparr>) k)"
  by (cases "map_of ov k") (simp_all add: effectiveCapability_def map_get_def)

lemma merge_probe_None: "map_get (merge_probe capped r existing) k = None \<Longrightarrow> map_get existing k = None"
  by (auto simp: merge_probe_def split: probe_outcome.splits if_splits)

lemma merged_None: "map_get (fold (merge_probe capped) rs existing) k = None \<Longrightarrow> map_get existing k = None"
proof (induction rs arbitrary: existing)
  case (Cons r rs)
  then have "map_get (merge_probe capped r existing) k = None"
    by simp
  then show ?case
    by (rule merge_probe_None)
qed simp

lemma override_switch:
  assumes "effectiveCapability (m\<lparr>capabilityOverrides := fold (merge_probe capped) rs (capabilityOverrides m)\<rparr>) k = b"
    "effectiveCapability m k \<noteq> b"
  shows "\<exists>r\<in>set rs. probed (pb_capability r) = k \<and> pb_outcome r = (if b then Supported else Unsupported) \<and> (b \<longrightarrow> k \<notin> set capped)"
proof -
  let ?ov = "fold (merge_probe capped) rs (capabilityOverrides m)"
  define base where "base = effectiveCapability (m\<lparr>capabilityOverrides := []\<rparr>) k"
  have self: "m\<lparr>capabilityOverrides := capabilityOverrides m\<rparr> = m"
    by simp
  have now: "effectiveCapability m k = (case map_get (capabilityOverrides m) k of Some b \<Rightarrow> b | None \<Rightarrow> base)"
    and new: "effectiveCapability (m\<lparr>capabilityOverrides := ?ov\<rparr>) k = (case map_get ?ov k of Some b \<Rightarrow> b | None \<Rightarrow> base)"
    unfolding base_def using effective_overridden [where m = m and ov = "capabilityOverrides m" and k = k, unfolded self] effective_overridden
    by blast+
  have "map_get ?ov k = Some b"
    using assms now new merged_None [of capped rs "capabilityOverrides m" k] by (cases "map_get ?ov k") auto
  moreover have "map_get (capabilityOverrides m) k \<noteq> Some b"
    using assms(2) now by auto
  ultimately show ?thesis
    using merged_from by blast
qed

lemma probe_one_outcome:
  "pb_outcome (probe_one name ex elapsed i c) =
     (case ex i (buildProbeRequest c) of Inl err \<Rightarrow> fst (classifyProbeError name err) | Inr res \<Rightarrow> classifyProbeSuccess c res)"
  by (simp add: probe_one_def split: sum.splits prod.splits)

lemma success_not_unsupported: "classifyProbeSuccess c res \<noteq> Unsupported"
  by (cases c) (simp_all split: option.splits json.splits)

text \<open>What a verdict that is not inconclusive says about the exchange.\<close>

lemma unsupported_exchange:
  assumes "pb_outcome (probe_one name (openai_probe oe model p apiKey latency post) elapsed i c) = Unsupported"
    "\<And>n tq e. post n tq \<noteq> Inl (AE_Router e)"
  shows "\<exists>tq st body ra. post i tq = Inl (AE_Http st body ra) \<and> st \<in> {400, 415, 422} \<and> http_code st body \<notin> {context_exceeded, content_filtered}"
proof -
  let ?ex = "openai_probe oe model p apiKey latency post"
  obtain err d where err: "?ex i (buildProbeRequest c) = Inl err" "classifyProbeError name err = (Unsupported, d)"
    using assms(1) success_not_unsupported by (cases "?ex i (buildProbeRequest c)") (auto simp: probe_one_outcome prod_eq_iff)
  from err(2) obtain e st where e: "err = Routed e" "provider_status e = Some st" "st \<in> {400, 415, 422}"
      "code e \<notin> {auth_error, rate_limited, context_exceeded, content_filtered}"
    by (rule unsupported_status)
  obtain j body ra tq where "post i tq = Inl (AE_Http j body ra)" "st = of_int j" "code e = http_code j body"
    using adapter_status [OF err(1) [unfolded e(1)] e(2) assms(2)] by blast
  with e(3,4) show ?thesis
    by (intro exI [of _ tq] exI [of _ j] exI [of _ body] exI [of _ ra]) auto
qed

lemma supported_exchange:
  "pb_outcome (probe_one name ex elapsed i c) = Supported \<Longrightarrow>
     \<exists>res. classifyProbeSuccess c res = Supported \<and> ex i (buildProbeRequest c) = Inr res"
  using never_supported by (cases "ex i (buildProbeRequest c)") (auto simp: probe_one_outcome)


definition ex_probe_env :: openai_env where
  "ex_probe_env = \<lparr>oe_url_host = (\<lambda>_. Some ''h''), oe_url_parts = (\<lambda>_. None), oe_encode = (\<lambda>s. s), oe_zod_issue = (\<lambda>_. ''bad'')\<rparr>"

definition ex_probe_provider :: provider_row where
  "ex_probe_provider = \<lparr>prv_id = ''p1'', prv_firmId = ''f1'', prv_kind = openai_compat, prv_label = ''l'', prv_baseUrl = ''https://h/v1'',
     prv_authType = AuthApiKey, prv_modelMapping = None, prv_deletedAt = None\<rparr>"


end
