(* ===== verification/Spec2Isabelle.thy ===== *)
theory Spec2Isabelle
  imports Anthropic Health Sdk Sessions Billing Refresh Probe
begin

text \<open>
  A model of the Vibe AI Router and of what makes it correct. The router is an OpenAI-compatible gateway
  (TypeScript on Fastify and Postgres) that authenticates an application, resolves the policy of the
  request's task class, checks budgets, scrubs personal data, routes to an allowed model, calls the provider
  through a resilience layer and writes one row of the usage ledger. Paths below are under \<^verbatim>\<open>src/src\<close>.

  \<^bold>\<open>How the parts interact.\<close> \<^verbatim>\<open>gateway/routes.ts\<close> turns an HTTP request into an envelope and runs the
  stages of \<^verbatim>\<open>gateway/pipeline.ts\<close>; the policy stage asks \<^verbatim>\<open>policy/engine.ts\<close>, the budget stage
  \<^verbatim>\<open>ledger/budget.ts\<close>, the scrub stage \<^verbatim>\<open>protect/scrub.ts\<close>, the last stage \<^verbatim>\<open>ops/cache.ts\<close> and
  \<^verbatim>\<open>resilience/executor.ts\<close>, which for each model of the fallback chain asks the breaker and the shed guard,
  retries with backoff and verifies the answer (\<^verbatim>\<open>gateway/verify.ts\<close>). The adapters translate to the providers'
  wire formats. The relay of \<^verbatim>\<open>gateway/routes.ts\<close> sends a stream on and writes its ledger row at the end.

  \<^bold>\<open>Conventions.\<close> A struct is a \<open>record\<close>, a union a \<open>datatype\<close>, a \<open>Map\<close> an association list in insertion order
  (\<open>jsmap\<close>), a JSON value a \<open>json\<close>. JavaScript numbers that count are \<open>int\<close>, others exact rationals; strings
  are lists of 8-bit characters. A thrown error is the \<open>Inl\<close> of a result. State that the code shares (database
  tables, caches, breaker windows, shed counters, rate buckets, and a trace of calls, audits and health records)
  is one record \<open>world\<close>, threaded through every stage; the request's own state is \<open>pipeline_ctx\<close>. Everything outside the
  sources is an argument: clock, SHA-256, URL parser, DNS, network and provider answers, abort and time-out
  signals, the failure of the ledger's database, the steps other requests take while this one waits (\<open>dp_others\<close>),
  all fields of \<open>deps\<close> indexed by a tick. A zod schema is a reader from \<open>json\<close> to an option.

  \<^bold>\<open>Theories.\<close>
  \<^item> \<open>Prelude\<close>: JavaScript library functions, maps, and the interfaces \<open>kv_store\<close> (what a map promises) and \<open>call_driven\<close>
    (a component driven by calls, its invariant and reachable states), interpreted on the model's maps and
    on breaker, cache and limiter.
  \<^item> \<open>Json\<close>, \<open>Json_Roundtrip\<close>: \<open>JSON.parse\<close> and \<open>JSON.stringify\<close>; printing and parsing are inverse.
  \<^item> \<open>Errors\<close>, \<open>Envelope\<close>: \<^verbatim>\<open>gateway/errors.ts\<close>, \<^verbatim>\<open>gateway/envelope.ts\<close>: the body schema, the depth guard,
    \<open>toEnvelope\<close>, request hashes.
  \<^item> \<open>Schema\<close>, \<open>Catalog\<close>: the tables of \<^verbatim>\<open>db/schema.ts\<close> the request path uses; \<^verbatim>\<open>catalog/service.ts\<close>.
  \<^item> \<open>Policy_Engine\<close>: \<^verbatim>\<open>policy/engine.ts\<close>: resolution through its caches, bans, capability checks, selection with
    upgrade, limits.
  \<^item> \<open>Regex\<close>, \<open>Scrub\<close>: a backtracking matcher for the expressions used, and \<^verbatim>\<open>protect/scrub.ts\<close>.
  \<^item> \<open>Ssrf\<close>, \<open>Verify\<close>, \<open>Ledger\<close>, \<open>Writer\<close>, \<open>Cache\<close>, \<open>Breaker\<close>, \<open>Limiter\<close>, \<open>Shed\<close>, \<open>Backoff\<close>: the files of these names under
    \<^verbatim>\<open>lib\<close>, \<^verbatim>\<open>gateway\<close>, \<^verbatim>\<open>ledger\<close>, \<^verbatim>\<open>ops\<close> and \<^verbatim>\<open>resilience\<close>. \<open>Shed\<close> has a step relation for the interleavings of
    requests that acquire, wait, give up and release.
  \<^item> \<open>Gateway\<close>, \<open>Executor\<close>, \<open>Executor_Trace\<close>, \<open>Executor_Safety\<close>: the world, \<open>routeForModel\<close> and
    \<^verbatim>\<open>resilience/executor.ts\<close>; the trace of a run, measured through the interface \<open>trace_measure\<close>.
  \<^item> \<open>Pipeline\<close>, \<open>Pipeline_Safety\<close>, \<open>Pipeline_Ledger\<close>: the stages and the runner of \<^verbatim>\<open>gateway/pipeline.ts\<close>.
  \<^item> \<open>Openai_Shape\<close>, \<open>Sse\<close>, \<open>Openai_Compat\<close>, \<open>Anthropic\<close>: \<^verbatim>\<open>gateway/openai-shape.ts\<close>, the event reader of
    \<^verbatim>\<open>adapters/http.ts\<close>, and the two adapters under \<^verbatim>\<open>adapters\<close>.
  \<^item> \<open>Routes\<close>, \<open>Cascade\<close>: the handler and relay of \<^verbatim>\<open>gateway/routes.ts\<close>; a relayed stream read by the adapter.
  \<^item> \<open>Audit_Log\<close>: \<^verbatim>\<open>protect/audit.ts\<close>: the registry of events and their detail schemas, the writer, the query, the CSV export.
  \<^item> \<open>Base64\<close>, \<open>Vault\<close>, \<open>Health\<close>: \<^verbatim>\<open>vault/crypto.ts\<close> over a cipher argument, the credential lifecycle of
    \<^verbatim>\<open>vault/service.ts\<close>, and \<^verbatim>\<open>vault/health.ts\<close> as a step relation of outcomes and database writes.
  \<^item> \<open>Policy_Save\<close>, \<open>Policy_Pack\<close>: \<^verbatim>\<open>policy/save.ts\<close>, \<^verbatim>\<open>policy/pack.ts\<close> and \<^verbatim>\<open>policy/registration.ts\<close> over the database,
    the engine's caches and the audit log.
  \<^item> \<open>Sync\<close>: \<^verbatim>\<open>catalog/sync.ts\<close>: the model feed read, merged and written into the catalog tables.
  \<^item> \<open>Discovery\<close>, \<open>Do_Docs\<close>, \<open>Refresh\<close>: \<^verbatim>\<open>catalog/discovery.ts\<close> and \<^verbatim>\<open>catalog/live-pricing.ts\<close>; \<^verbatim>\<open>catalog/do-docs.ts\<close>,
    the documentation pages read and applied; \<^verbatim>\<open>catalog/refresh.ts\<close> and \<^verbatim>\<open>catalog/scheduler.ts\<close>, the passes and their alerts.
  \<^item> \<open>Probe\<close>: \<^verbatim>\<open>catalog/probe.ts\<close>: what a model can do, asked through an adapter.
  \<^item> \<open>Js_Text\<close>, \<open>Sdk\<close>: text functions of the language, and the client library \<^verbatim>\<open>packages/sdk/src/index.ts\<close> over a network argument.
  \<^item> \<open>Calendar\<close>, \<open>Billing\<close>: months and period texts; \<^verbatim>\<open>ledger/aggregate.ts\<close> and \<^verbatim>\<open>ledger/billing-route.ts\<close>: reports, feed and precheck.
  \<^item> \<open>Sessions\<close>: \<^verbatim>\<open>admin-api/session.ts\<close> and \<^verbatim>\<open>lib/password.ts\<close>: the store under every sequence of calls.

  \<^bold>\<open>What the theorems show.\<close> Composition: a provider is only called for an authenticated request within its policy, with
  the envelope the policy limits; what leaves for a cloud provider is scrubbed; a local-only task class never
  leaves; every authenticated request leaves exactly one ledger row, streamed or not; a stream
  is never spliced from two providers and never free. Components: sound model selection and diagnosis,
  fail-closed resolution, redaction of every match and of nothing else, accounting of the shed guard
  under every interleaving, rate and call bounds, breaker windows, budgets, cache keys without collisions, the
  verifier against its reference, base-URL tiers. Wire: requests, responses and streams survive the trip
  through the OpenAI shape; a stream does not depend on how the network cuts it; the Anthropic
  stream machine agrees with the plain translation; the client library's calls reach the gateway as they are meant, and it reads
  the gateway's completions, streams and errors back as they are. Administration: no admin session exists without a login; a policy that is saved passes the gate and is in force for the
  next request; neither an import nor a registration relaxes a task class; the default pack binds only what a firm
  has configured; a credential survives encryption and rotation of the master key, and every provider has at most one
  active one; a run of the catalog synchronisation deletes nothing and repeating it changes nothing; what the
  providers say about their models reaches only rows discovery owns, and a hosted model that a policy binds unacknowledged is reported; every client request is billed once, in the month its budget was charged; the budget precheck tells what the pipeline will do; the audit log holds only registered members; a provider's row settles on the monitor's status. Some theorems record defects of the code and say so.

  \<^bold>\<open>Bounds.\<close> The executor's retries are the code's constant (\<open>MAX_RETRIES\<close>), so its recursion is structural. The
  JSON parser's fuel is twice the length of its input and two, which \<open>value_back\<close> shows is enough for
  every printed value. The matcher's repetition is bounded by the text it consumes. Event draining terminates because
  each event shortens the buffer. A chain of health transitions is empty after two writes per transition.

  \<^bold>\<open>Not modelled.\<close> The admin API's routes and the UI, metrics, process wiring, and migrations: they are input and output around the request path, rest on libraries outside the sources, or share no state with
  it. Within modelled files: the adapters' connection tests, and the fetch calls. The stream executor runs its hops when the
  stage runs, where the code runs them as the relay pulls; nothing between the two reads what it changes.
\<close>

end
